(* ===== verification/Prelude.thy ===== *)
theory Prelude
  imports Main "HOL-Library.Sublist"
begin

text \<open>
  Shared vocabulary of the development: results that are either an error or a value, the run of
  a fallible step function over a list of inputs, the order-preserving removal of duplicates
  (\<open>dict.fromkeys\<close> in the source), and the locales that state what a state machine with an
  invariant, and a simulation between two machines, give to the components that use them.
\<close>

named_theorems inversion \<open>what a successful result of an operation says of its inputs\<close>
named_theorems frame \<open>fields and parts that an operation leaves alone\<close>
named_theorems tables \<open>the constant tables and default values of the source\<close>

type_synonym ('e, 'a) result = "'e + 'a"

section \<open>Results\<close>

fun res_bind :: "('e, 'a) result \<Rightarrow> ('a \<Rightarrow> ('e, 'b) result) \<Rightarrow> ('e, 'b) result" where
  "res_bind (Inl e) f = Inl e"
| "res_bind (Inr a) f = f a"

definition ensure :: "bool \<Rightarrow> 'e \<Rightarrow> ('e, unit) result" where
  "ensure c e = (if c then Inr () else Inl e)"

fun succeeds :: "('e, 'a) result \<Rightarrow> bool" where
  "succeeds (Inl _) = False"
| "succeeds (Inr _) = True"

lemma res_bind_Inr [simp]:
  "res_bind m f = Inr b \<longleftrightarrow> (\<exists>a. m = Inr a \<and> f a = Inr b)"
  by (cases m) auto

lemma res_bind_Inl:
  "res_bind m f = Inl e \<longleftrightarrow> m = Inl e \<or> (\<exists>a. m = Inr a \<and> f a = Inl e)"
  by (cases m) auto

lemma ensure_Inr [simp]: "ensure c e = Inr u \<longleftrightarrow> c"
  by (simp add: ensure_def)

lemma ensure_True [simp]: "ensure True e = Inr ()"
  by (simp add: ensure_def)

lemma ensure_False [simp]: "ensure False e = Inl e"
  by (simp add: ensure_def)

lemma succeeds_iff: "succeeds r \<longleftrightarrow> (\<exists>a. r = Inr a)"
  by (cases r) auto

lemma succeeds_bind [simp]:
  "succeeds (res_bind m f) \<longleftrightarrow> (\<exists>a. m = Inr a \<and> succeeds (f a))"
  by (cases m) auto

lemma succeeds_ensure [simp]: "succeeds (ensure c e) \<longleftrightarrow> c"
  by (simp add: ensure_def)

lemma not_succeeds_iff: "\<not> succeeds r \<longleftrightarrow> (\<exists>e. r = Inl e)"
  by (cases r) auto

definition lift_error :: "('e \<Rightarrow> 'f) \<Rightarrow> ('e, 'a) result \<Rightarrow> ('f, 'a) result" where
  "lift_error f r = map_sum f id r"

lemma lift_error_Inr [simp]: "lift_error f r = Inr a \<longleftrightarrow> r = Inr a"
  by (cases r) (auto simp: lift_error_def)

lemma lift_error_simps [simp]:
  "lift_error f (Inr a) = Inr a" "lift_error f (Inl e) = Inl (f e)"
  "succeeds (lift_error f r) = succeeds r"
  by (simp_all add: lift_error_def, cases r) (simp_all add: lift_error_def)

section \<open>Runs of a fallible step\<close>

fun run_steps :: "('s \<Rightarrow> 'i \<Rightarrow> ('e, 's) result) \<Rightarrow> 's \<Rightarrow> 'i list \<Rightarrow> ('e, 's) result" where
  "run_steps step s [] = Inr s"
| "run_steps step s (i # is) = res_bind (step s i) (\<lambda>s'. run_steps step s' is)"

lemma run_steps_append:
  "run_steps step s (xs @ ys) = res_bind (run_steps step s xs) (\<lambda>s'. run_steps step s' ys)"
proof (induction xs arbitrary: s)
  case Nil
  show ?case by simp
next
  case (Cons x xs)
  then show ?case by (cases "step s x") auto
qed

lemma run_steps_snoc [simp]:
  "run_steps step s (xs @ [x]) = res_bind (run_steps step s xs) (\<lambda>s'. step s' x)"
proof -
  have "res_bind (step s' x) Inr = step s' x" for s'
    by (cases "step s' x") auto
  then show ?thesis by (simp add: run_steps_append)
qed

lemma run_steps_prefix:
  "run_steps step s (xs @ ys) = Inr t \<Longrightarrow> \<exists>u. run_steps step s xs = Inr u \<and> run_steps step u ys = Inr t"
  by (simp add: run_steps_append)

section \<open>Interfaces of state machines\<close>

locale invariant_machine =
  fixes step :: "'s \<Rightarrow> 'i \<Rightarrow> ('e, 's) result"
    and good :: "'s \<Rightarrow> bool"
  assumes step_keeps: "good s \<Longrightarrow> step s i = Inr s' \<Longrightarrow> good s'"
begin

lemma run_keeps: "good s \<Longrightarrow> run_steps step s is = Inr t \<Longrightarrow> good t"
  by (induction "is" arbitrary: s) (auto dest: step_keeps)

end

locale step_simulation =
  fixes astep :: "'a \<Rightarrow> 'i \<Rightarrow> ('e, 'a) result"
    and cstep :: "'c \<Rightarrow> 'i \<Rightarrow> ('f, 'c) result"
    and related :: "'a \<Rightarrow> 'c \<Rightarrow> bool"
  assumes sim_success: "related a c \<Longrightarrow> succeeds (astep a i) = succeeds (cstep c i)"
    and sim_step: "related a c \<Longrightarrow> astep a i = Inr a' \<Longrightarrow> cstep c i = Inr c' \<Longrightarrow> related a' c'"
begin

lemma sim_run:
  "related a c \<Longrightarrow> succeeds (run_steps astep a is) = succeeds (run_steps cstep c is)"
proof (induction "is" arbitrary: a c)
  case Nil
  show ?case by simp
next
  case (Cons i "is")
  show ?case
  proof (cases "astep a i")
    case (Inl e)
    with sim_success [OF Cons.prems, of i] obtain f where "cstep c i = Inl f"
      by (auto simp: not_succeeds_iff)
    with Inl show ?thesis by simp
  next
    case (Inr a')
    with sim_success [OF Cons.prems, of i] obtain c' where c': "cstep c i = Inr c'"
      by (auto simp: succeeds_iff)
    with Inr Cons.prems have "related a' c'" by (blast intro: sim_step)
    with Inr c' Cons.IH show ?thesis by simp
  qed
qed

end

section \<open>Duplicates removed, first occurrences kept\<close>

definition dedup :: "'a list \<Rightarrow> 'a list" where
  "dedup xs = rev (remdups (rev xs))"

lemma set_dedup [simp]: "set (dedup xs) = set xs"
  by (simp add: dedup_def)

lemma distinct_dedup [simp]: "distinct (dedup xs)"
  by (simp add: dedup_def)

lemma dedup_distinct: "distinct xs \<Longrightarrow> dedup xs = xs"
  by (simp add: dedup_def distinct_remdups_id)

lemma dedup_Nil [simp]: "dedup [] = []"
  by (simp add: dedup_def)

lemma dedup_eq_Nil [simp]: "dedup xs = [] \<longleftrightarrow> xs = []"
  by (simp add: dedup_def)

lemma dedup_idem [simp]: "dedup (dedup xs) = dedup xs"
  by (simp add: dedup_distinct)

section \<open>Lists\<close>

fun index_where :: "('a \<Rightarrow> bool) \<Rightarrow> 'a list \<Rightarrow> nat option" where
  "index_where P [] = None"
| "index_where P (x # xs) = (if P x then Some 0 else map_option Suc (index_where P xs))"

lemma index_where_Some:
  "index_where P xs = Some n \<Longrightarrow> n < length xs \<and> P (xs ! n) \<and> (\<forall>m < n. \<not> P (xs ! m))"
proof (induction xs arbitrary: n)
  case Nil
  then show ?case by simp
next
  case (Cons x xs)
  then show ?case
    by (cases n) (auto split: if_splits simp: less_Suc_eq_0_disj)
qed

lemma index_where_None: "index_where P xs = None \<longleftrightarrow> (\<forall>x \<in> set xs. \<not> P x)"
  by (induction xs) auto

lemma index_where_append_Some:
  "index_where P xs = Some n \<Longrightarrow> index_where P (xs @ ys) = Some n"
  by (induction xs arbitrary: n) (auto split: if_splits)

lemma butlast_eq_self [simp]: "butlast xs = xs \<longleftrightarrow> xs = []"
  by (cases xs rule: rev_cases) auto

lemma find_None_set: "find P xs = None \<longleftrightarrow> (\<forall>x \<in> set xs. \<not> P x)"
  by (auto simp: find_None_iff)

lemma find_Some_set: "find P xs = Some x \<Longrightarrow> x \<in> set xs \<and> P x"
  by (auto simp: find_Some_iff in_set_conv_nth)

end
