(* ===== verification/Py_Text.thy ===== *)
theory Py_Text
  imports Prelude
begin

text \<open>
  Python strings. A \<open>ustr\<close> is a list of Unicode code points, what \<open>len\<close>, slicing and
  \<open>strip\<close> count; it is the type of everything a user, a model or a file contributes. Names that
  the code only compares, tests for an ASCII prefix or part, or splits at an ASCII character
  (ids, tool names, paths, shell words) are \<open>string\<close>s, read as their UTF-8 bytes, on which those
  operations agree. The functions below are the standard library's.
\<close>

type_synonym ustr = "nat list"

definition lit :: "string \<Rightarrow> ustr" where
  "lit s = map of_char s"

lemma lit_append: "lit (a @ b) = lit a @ lit b"
  by (simp add: lit_def)

lemma length_lit [simp]: "length (lit s) = length s"
  by (simp add: lit_def)

section \<open>White space and strip\<close>

definition py_isspace :: "nat \<Rightarrow> bool" where
  "py_isspace c \<longleftrightarrow>
     9 \<le> c \<and> c \<le> 13 \<or> 28 \<le> c \<and> c \<le> 32 \<or> c = 133 \<or> c = 160 \<or> c = 5760 \<or>
     8192 \<le> c \<and> c \<le> 8202 \<or> c = 8232 \<or> c = 8233 \<or> c = 8239 \<or> c = 8287 \<or> c = 12288"

definition lstrip :: "ustr \<Rightarrow> ustr" where
  "lstrip s = dropWhile py_isspace s"

definition rstrip :: "ustr \<Rightarrow> ustr" where
  "rstrip s = rev (dropWhile py_isspace (rev s))"

definition strip :: "ustr \<Rightarrow> ustr" where
  "strip s = rstrip (lstrip s)"

definition stripped :: "ustr \<Rightarrow> bool" where
  "stripped s \<longleftrightarrow> (s = [] \<or> \<not> py_isspace (hd s) \<and> \<not> py_isspace (last s))"

lemma hd_dropWhile_not: "dropWhile P xs \<noteq> [] \<Longrightarrow> \<not> P (hd (dropWhile P xs))"
  by (induction xs) auto

lemma dropWhile_id: "xs = [] \<or> \<not> P (hd xs) \<Longrightarrow> dropWhile P xs = xs"
  by (cases xs) auto

lemma rstrip_last: "rstrip s \<noteq> [] \<Longrightarrow> \<not> py_isspace (last (rstrip s))"
  by (simp add: rstrip_def last_rev hd_dropWhile_not)

lemma prefix_rstrip: "prefix (rstrip s) s"
  by (metis rstrip_def suffix_dropWhile suffix_to_prefix rev_rev_ident)

lemma hd_rstrip: "rstrip s \<noteq> [] \<Longrightarrow> hd (rstrip s) = hd s"
  using prefix_rstrip [of s] by (metis hd_append2 prefix_def)

lemma stripped_strip [simp]: "stripped (strip s)"
proof (cases "strip s = []")
  case True
  then show ?thesis by (simp add: stripped_def)
next
  case False
  then have "lstrip s \<noteq> []" by (auto simp: strip_def rstrip_def)
  then have "\<not> py_isspace (hd (lstrip s))" by (simp add: lstrip_def hd_dropWhile_not)
  moreover have "hd (strip s) = hd (lstrip s)"
    using False by (simp add: strip_def hd_rstrip)
  ultimately show ?thesis
    using False by (simp add: stripped_def strip_def rstrip_last)
qed

lemma strip_stripped: "stripped s \<Longrightarrow> strip s = s"
  by (cases "s = []") (auto simp: strip_def lstrip_def rstrip_def stripped_def dropWhile_id hd_rev)

lemma strip_idem [simp]: "strip (strip s) = strip s"
  by (simp add: strip_stripped)

lemma strip_Nil [simp]: "strip [] = []"
  by (simp add: strip_def lstrip_def rstrip_def)

lemma length_strip_le: "length (strip s) \<le> length s"
proof -
  have "length (rstrip (lstrip s)) \<le> length (lstrip s)"
    by (simp add: prefix_length_le prefix_rstrip)
  also have "\<dots> \<le> length s" by (simp add: lstrip_def length_dropWhile_le)
  finally show ?thesis by (simp add: strip_def)
qed

lemma strip_nonblank: "strip s \<noteq> [] \<longleftrightarrow> (\<exists>c \<in> set s. \<not> py_isspace c)"
proof -
  have "strip s = [] \<longleftrightarrow> (\<forall>c \<in> set (lstrip s). py_isspace c)"
    by (simp add: strip_def rstrip_def)
  also have "\<dots> \<longleftrightarrow> (\<forall>c \<in> set s. py_isspace c)"
    by (induction s) (auto simp: lstrip_def)
  finally show ?thesis by auto
qed

section \<open>Prefixes, parts and joins\<close>

definition startswith :: "'a list \<Rightarrow> 'a list \<Rightarrow> bool" where
  "startswith s p = prefix p s"

definition removeprefix :: "'a list \<Rightarrow> 'a list \<Rightarrow> 'a list" where
  "removeprefix s p = (if startswith s p then drop (length p) s else s)"

fun contains :: "'a list \<Rightarrow> 'a list \<Rightarrow> bool" where
  "contains [] p = (p = [])"
| "contains (c # s) p = (startswith (c # s) p \<or> contains s p)"

fun join :: "'a list \<Rightarrow> 'a list list \<Rightarrow> 'a list" where
  "join sep [] = []"
| "join sep [s] = s"
| "join sep (s # t # ss) = s @ sep @ join sep (t # ss)"

fun split_on :: "'a \<Rightarrow> 'a list \<Rightarrow> 'a list list" where
  "split_on c [] = [[]]"
| "split_on c (x # xs) =
     (if x = c then [] # split_on c xs
      else (case split_on c xs of [] \<Rightarrow> [[x]] | w # ws \<Rightarrow> (x # w) # ws))"

lemma startswith_append [simp]: "startswith (p @ s) p"
  by (simp add: startswith_def)

lemma removeprefix_append [simp]: "removeprefix (p @ s) p = s"
  by (simp add: removeprefix_def)

lemma split_on_not_Nil [simp]: "split_on c s \<noteq> []"
  by (cases s) (auto split: list.splits)

lemma split_on_none: "c \<notin> set w \<Longrightarrow> split_on c w = [w]"
  by (induction w) auto

lemma split_on_append:
  "c \<notin> set w \<Longrightarrow> split_on c (w @ c # s) = w # split_on c s"
  by (induction w) auto

lemma split_on_join:
  "ws \<noteq> [] \<Longrightarrow> \<forall>w \<in> set ws. c \<notin> set w \<Longrightarrow> split_on c (join [c] ws) = ws"
  by (induction "[c]" ws rule: join.induct) (auto simp: split_on_none split_on_append)

lemma join_split_on [simp]: "join [c] (split_on c s) = s"
proof (induction s)
  case Nil
  show ?case by simp
next
  case (Cons x s)
  obtain w ws where w: "split_on c s = w # ws" by (cases "split_on c s") auto
  with Cons have "join [c] (w # ws) = s" by simp
  then show ?case by (cases ws) (auto simp: w)
qed

section \<open>Lines\<close>

definition line_boundary :: "nat \<Rightarrow> bool" where
  "line_boundary c \<longleftrightarrow> 10 \<le> c \<and> c \<le> 13 \<or> 28 \<le> c \<and> c \<le> 30 \<or> c = 133 \<or> c = 8232 \<or> c = 8233"

text \<open>\<open>str.splitlines(keepends=True)\<close>: a carriage return and a line feed are one boundary.\<close>

fun splitlines_keep :: "ustr \<Rightarrow> ustr list" where
  "splitlines_keep [] = []"
| "splitlines_keep (c # s) =
     (if c = 13 \<and> s \<noteq> [] \<and> hd s = 10 then [13, 10] # splitlines_keep (tl s)
      else if line_boundary c then [c] # splitlines_keep s
      else (case splitlines_keep s of [] \<Rightarrow> [[c]] | l # ls \<Rightarrow> (c # l) # ls))"

fun splitlines :: "ustr \<Rightarrow> ustr list" where
  "splitlines [] = []"
| "splitlines (c # s) =
     (if c = 13 \<and> s \<noteq> [] \<and> hd s = 10 then [] # splitlines (tl s)
      else if line_boundary c then [] # splitlines s
      else (case splitlines s of [] \<Rightarrow> [[c]] | l # ls \<Rightarrow> (c # l) # ls))"

lemma concat_splitlines_keep [simp]: "concat (splitlines_keep s) = s"
proof (induction s rule: splitlines_keep.induct)
  case 1
  show ?case by simp
next
  case (2 c s)
  show ?case
  proof (cases "c = 13 \<and> s \<noteq> [] \<and> hd s = 10")
    case True
    with 2 show ?thesis by (cases s) auto
  next
    case False
    with 2 show ?thesis by (auto split: list.splits)
  qed
qed

lemma line_boundary_newlines [simp]: "line_boundary 10" "line_boundary 13"
  by (simp_all add: line_boundary_def)

lemma splitlines_line:
  "\<forall>c \<in> set l. \<not> line_boundary c \<Longrightarrow> splitlines (l @ 10 # s) = l # splitlines s"
proof (induction l)
  case Nil
  show ?case by simp
next
  case (Cons c l)
  from Cons.prems have "\<not> line_boundary c" "c \<noteq> 13" by auto
  with Cons show ?case by simp
qed

section \<open>Numbers and encodings\<close>

fun decimal_digits :: "nat \<Rightarrow> ustr" where
  "decimal_digits n = (if n < 10 then [48 + n] else decimal_digits (n div 10) @ [48 + n mod 10])"

declare decimal_digits.simps [simp del]

lemma decimal_digits_nonempty [simp]: "decimal_digits n \<noteq> []"
  by (subst decimal_digits.simps) simp

lemma decimal_digits_range: "c \<in> set (decimal_digits n) \<Longrightarrow> 48 \<le> c \<and> c \<le> 57"
proof (induction n rule: decimal_digits.induct)
  case (1 n)
  then show ?case
    by (cases "n < 10") (auto simp: decimal_digits.simps [of n])
qed

definition utf8_width :: "nat \<Rightarrow> nat" where
  "utf8_width c = (if c < 128 then 1 else if c < 2048 then 2 else if c < 65536 then 3 else 4)"

definition utf8_len :: "ustr \<Rightarrow> nat" where
  "utf8_len s = sum_list (map utf8_width s)"

lemma utf8_len_simps [simp]:
  "utf8_len [] = 0"
  "utf8_len (c # s) = utf8_width c + utf8_len s"
  "utf8_len (s @ t) = utf8_len s + utf8_len t"
  by (simp_all add: utf8_len_def)

lemma utf8_width_pos [simp]: "0 < utf8_width c"
  by (simp add: utf8_width_def)

lemma utf8_len_concat: "utf8_len (concat ss) = sum_list (map utf8_len ss)"
  by (induction ss) auto

lemma utf8_len_rev [simp]: "utf8_len (rev s) = utf8_len s"
  by (induction s) auto

end
