(* ===== verification/Workspace_Paths.thy ===== *)
theory Workspace_Paths
  imports Py_Text
begin

text \<open>
  Paths and their canonical form: \<open>tools/_workspace.py\<close> over the parts of \<open>pathlib\<close> and
  \<open>os.path\<close> it uses. The file system itself is a parameter: which paths exist, which are
  directories, and what \<open>Path.resolve\<close> (the symbolic links followed) returns.
\<close>

section \<open>POSIX paths\<close>

text \<open>The root is the number of leading slashes (0 for a relative path, 2 for exactly two).\<close>

datatype ppath = PPath (path_root: nat) (path_parts: "string list")

definition parse_path :: "string \<Rightarrow> ppath" where
  "parse_path s =
     PPath
       (if startswith s ''//'' \<and> \<not> startswith s ''///'' then 2
        else if startswith s ''/'' then 1 else 0)
       (filter (\<lambda>c. c \<noteq> [] \<and> c \<noteq> ''.'') (split_on CHR ''/'' s))"

fun path_str :: "ppath \<Rightarrow> string" where
  "path_str (PPath r ps) =
     (if r = 0 \<and> ps = [] then ''.'' else replicate r CHR ''/'' @ join ''/'' ps)"

definition is_absolute :: "ppath \<Rightarrow> bool" where
  "is_absolute p = (path_root p \<noteq> 0)"

definition path_join :: "ppath \<Rightarrow> ppath \<Rightarrow> ppath" where
  "path_join p q =
     (if is_absolute q then q else PPath (path_root p) (path_parts p @ path_parts q))"

definition path_parent :: "ppath \<Rightarrow> ppath" where
  "path_parent p = PPath (path_root p) (butlast (path_parts p))"

definition is_relative_to :: "ppath \<Rightarrow> ppath \<Rightarrow> bool" where
  "is_relative_to p r \<longleftrightarrow> path_root p = path_root r \<and> prefix (path_parts r) (path_parts p)"

text \<open>\<open>os.path.normpath\<close> of an absolute path: \<open>..\<close> removes the component before it.\<close>

fun norm_parts :: "string list \<Rightarrow> string list \<Rightarrow> string list" where
  "norm_parts acc [] = rev acc"
| "norm_parts acc (c # cs) =
     (if c = ''..'' then norm_parts (tl acc) cs else norm_parts (c # acc) cs)"

section \<open>The file system\<close>

record file_system =
  fs_cwd :: ppath
  fs_exists :: "ppath \<Rightarrow> bool"
  fs_is_dir :: "ppath \<Rightarrow> bool"
  fs_resolve :: "ppath \<Rightarrow> ppath"

definition wf_part :: "string \<Rightarrow> bool" where
  "wf_part c \<longleftrightarrow> c \<noteq> [] \<and> c \<noteq> ''.'' \<and> CHR ''/'' \<notin> set c"

definition wf_path :: "ppath \<Rightarrow> bool" where
  "wf_path p \<longleftrightarrow> path_root p \<le> 2 \<and> (\<forall>c \<in> set (path_parts p). wf_part c)"

definition canonical :: "ppath \<Rightarrow> bool" where
  "canonical p \<longleftrightarrow> path_root p = 1 \<and> (\<forall>c \<in> set (path_parts p). wf_part c \<and> c \<noteq> ''..'')"

text \<open>
  What \<open>Path.exists\<close> and \<open>Path.resolve\<close> promise on POSIX, for a file system that does not change
  between the calls: the working directory is absolute, the root exists, resolving any path gives
  a canonical one, every leading part of the resolved name of an existing path exists and resolves to itself,
  and the resolved name of a directory reaches the same entries as the name it was resolved from.
\<close>

definition fs_ok :: "file_system \<Rightarrow> bool" where
  "fs_ok fs \<longleftrightarrow>
     wf_path (fs_cwd fs) \<and> is_absolute (fs_cwd fs)
     \<and> (\<forall>r. r \<noteq> 0 \<longrightarrow> fs_exists fs (PPath r []))
     \<and> (\<forall>p. canonical (fs_resolve fs p))
     \<and> (\<forall>p. fs_exists fs p \<longrightarrow>
          (\<forall>n. fs_exists fs (PPath 1 (take n (path_parts (fs_resolve fs p))))
               \<and> fs_resolve fs (PPath 1 (take n (path_parts (fs_resolve fs p))))
                 = PPath 1 (take n (path_parts (fs_resolve fs p)))))
     \<and> (\<forall>p cs. is_absolute p \<and> fs_exists fs p \<longrightarrow>
          fs_exists fs (PPath 1 (path_parts (fs_resolve fs p) @ cs))
            = fs_exists fs (PPath (path_root p) (path_parts p @ cs)))"

section \<open>The module's functions\<close>

datatype path_error = File_not_found | Not_a_directory

definition abspath :: "file_system \<Rightarrow> ppath \<Rightarrow> ppath" where
  "abspath fs p =
     (let q = path_join (fs_cwd fs) p in PPath (path_root q) (norm_parts [] (path_parts q)))"

definition normalize_workspace_root :: "file_system \<Rightarrow> string \<Rightarrow> (path_error, ppath) result" where
  "normalize_workspace_root fs workspace_root =
     (let root = fs_resolve fs (parse_path workspace_root) in
      if \<not> fs_exists fs root then Inl File_not_found
      else if \<not> fs_is_dir fs root then Inl Not_a_directory
      else Inr root)"

definition absolutize_workspace_path ::
    "file_system \<Rightarrow> string \<Rightarrow> string \<Rightarrow> (path_error, ppath) result" where
  "absolutize_workspace_path fs workspace_root tool_path =
     res_bind (normalize_workspace_root fs workspace_root)
       (\<lambda>root. let candidate = parse_path tool_path in
          if is_absolute candidate then Inr (abspath fs candidate)
          else Inr (abspath fs (path_join root candidate)))"

function existing_ancestor :: "file_system \<Rightarrow> ppath \<Rightarrow> ppath" where
  "existing_ancestor fs p =
     (if fs_exists fs p \<or> path_parent p = p then p else existing_ancestor fs (path_parent p))"
  by pat_completeness auto
termination
proof (relation "measure (\<lambda>(fs, p). length (path_parts p))")
  show "wf (measure (\<lambda>(fs, p). length (path_parts p)))" by simp
next
  fix fs :: file_system and p
  assume "\<not> (fs_exists fs p \<or> path_parent p = p)"
  then have "path_parts p \<noteq> []" by (cases p) (auto simp: path_parent_def)
  then show "((fs, path_parent p), (fs, p)) \<in> measure (\<lambda>(fs, p). length (path_parts p))"
    by (simp add: path_parent_def)
qed

declare existing_ancestor.simps [simp del]

definition canonicalize_path_target :: "file_system \<Rightarrow> ppath \<Rightarrow> ppath" where
  "canonicalize_path_target fs candidate =
     (if fs_exists fs candidate then fs_resolve fs candidate
      else
        (let a = abspath fs candidate; ep = existing_ancestor fs (path_parent a)
         in if \<not> fs_exists fs ep then a
            else path_join (fs_resolve fs ep)
                   (PPath 0 (drop (length (path_parts ep)) (path_parts a)))))"

definition resolve_workspace_path ::
    "file_system \<Rightarrow> string \<Rightarrow> string \<Rightarrow> (path_error, ppath) result" where
  "resolve_workspace_path fs workspace_root tool_path =
     res_bind (absolutize_workspace_path fs workspace_root tool_path)
       (\<lambda>p. Inr (canonicalize_path_target fs p))"

definition path_is_within_workspace ::
    "file_system \<Rightarrow> string \<Rightarrow> ppath \<Rightarrow> (path_error, bool) result" where
  "path_is_within_workspace fs workspace_root resolved =
     res_bind (normalize_workspace_root fs workspace_root)
       (\<lambda>root. Inr (is_relative_to resolved root))"

section \<open>Parsing and printing paths\<close>

lemma set_norm_parts: "set (norm_parts acc cs) \<subseteq> set acc \<union> (set cs - {''..''})"
proof (induction acc cs rule: norm_parts.induct)
  case (2 acc c cs)
  then show ?case by (cases acc) auto
qed simp

lemma norm_parts_id: "''..'' \<notin> set cs \<Longrightarrow> norm_parts acc cs = rev acc @ cs"
  by (induction acc cs rule: norm_parts.induct) auto

lemma split_on_parts: "w \<in> set (split_on c s) \<Longrightarrow> c \<notin> set w"
  by (induction s arbitrary: w) (auto split: if_splits list.splits)

lemma wf_parse_path [simp]: "wf_path (parse_path s)"
  by (auto simp: wf_path_def parse_path_def wf_part_def dest: split_on_parts)

lemma canonical_wf: "canonical p \<Longrightarrow> wf_path p"
  by (simp add: canonical_def wf_path_def)

lemma parse_path_str:
  assumes "canonical p"
  shows "parse_path (path_str p) = p"
proof (cases p)
  case (PPath r ps)
  with assms have r: "r = 1" and ps: "\<forall>c \<in> set ps. c \<noteq> [] \<and> c \<noteq> ''.'' \<and> CHR ''/'' \<notin> set c"
    by (auto simp: canonical_def wf_part_def)
  have "hd (join ''/'' ps) \<noteq> CHR ''/''" if "ps \<noteq> []" "join ''/'' ps \<noteq> []"
    using that ps by (induction "''/''" ps rule: join.induct) (auto simp: hd_append dest: hd_in_set)
  then have two: "\<not> startswith (CHR ''/'' # join ''/'' ps) ''//''"
    by (cases "ps = []"; cases "join ''/'' ps") (auto simp: startswith_def)
  have "filter (\<lambda>c. c \<noteq> [] \<and> c \<noteq> ''.'') (split_on CHR ''/'' (join ''/'' ps)) = ps"
  proof (cases "ps = []")
    case True
    then show ?thesis by simp
  next
    case False
    with ps have "split_on CHR ''/'' (join ''/'' ps) = ps" by (intro split_on_join) auto
    with ps show ?thesis by (simp add: filter_id_conv)
  qed
  with two PPath r show ?thesis by (simp add: parse_path_def startswith_def)
qed

section \<open>Canonical paths\<close>

lemma abspath_facts:
  assumes "fs_ok fs" and "wf_path p"
  shows "wf_path (abspath fs p)" "is_absolute (abspath fs p)"
    "\<forall>c \<in> set (path_parts (abspath fs p)). wf_part c \<and> c \<noteq> ''..''"
proof -
  let ?q = "path_join (fs_cwd fs) p"
  have q: "wf_path ?q" "is_absolute ?q"
    using assms by (auto simp: path_join_def wf_path_def fs_ok_def is_absolute_def)
  have sub: "set (norm_parts [] (path_parts ?q)) \<subseteq> set (path_parts ?q) - {''..''}"
    using set_norm_parts [of "[]" "path_parts ?q"] by auto
  from q sub show "wf_path (abspath fs p)" "is_absolute (abspath fs p)"
    "\<forall>c \<in> set (path_parts (abspath fs p)). wf_part c \<and> c \<noteq> ''..''"
    by (auto simp: abspath_def Let_def wf_path_def is_absolute_def)
qed

lemma abspath_normal: "is_absolute p \<Longrightarrow> ''..'' \<notin> set (path_parts p) \<Longrightarrow> abspath fs p = p"
  by (cases p) (simp add: abspath_def path_join_def norm_parts_id)

lemma abspath_canonical: "canonical p \<Longrightarrow> abspath fs p = p"
  by (rule abspath_normal) (auto simp: is_absolute_def canonical_def)

lemma existing_ancestor_facts:
  assumes "fs_ok fs" and "is_absolute p"
  shows "fs_exists fs (existing_ancestor fs p)
    \<and> (\<exists>n. existing_ancestor fs p = PPath (path_root p) (take n (path_parts p))
           \<and> (\<forall>m > n. m \<le> length (path_parts p) \<longrightarrow>
                \<not> fs_exists fs (PPath (path_root p) (take m (path_parts p))))
           \<and> n \<le> length (path_parts p))"
  using assms
proof (induction fs p rule: existing_ancestor.induct)
  case (1 fs p)
  let ?n = "length (path_parts p)"
  show ?case
  proof (cases "fs_exists fs p \<or> path_parent p = p")
    case True
    have "fs_exists fs p"
    proof (cases "fs_exists fs p")
      case False
      with True have "path_parts p = []" by (cases p) (auto simp: path_parent_def)
      with "1.prems" show ?thesis by (cases p) (auto simp: fs_ok_def is_absolute_def)
    qed simp
    with True show ?thesis
      by (subst (1 2) existing_ancestor.simps) (cases p, auto intro!: exI [of _ ?n])
  next
    case False
    then have ne: "path_parts p \<noteq> []" by (cases p) (auto simp: path_parent_def)
    have "is_absolute (path_parent p)"
      using "1.prems" by (simp add: is_absolute_def path_parent_def)
    with "1.IH" [OF False "1.prems"(1)] obtain n where
      ex: "fs_exists fs (existing_ancestor fs (path_parent p))"
      and eq: "existing_ancestor fs (path_parent p) =
        PPath (path_root p) (take n (butlast (path_parts p)))"
      and not: "\<And>m. n < m \<Longrightarrow> m \<le> ?n - 1 \<Longrightarrow>
        \<not> fs_exists fs (PPath (path_root p) (take m (butlast (path_parts p))))"
      and n: "n \<le> ?n - 1"
      by (auto simp: path_parent_def)
    have tk: "take m (butlast (path_parts p)) = take m (path_parts p)" if "m \<le> ?n - 1" for m
      using that by (simp add: butlast_conv_take min_def)
    have "\<not> fs_exists fs (PPath (path_root p) (take m (path_parts p)))" if "n < m" "m \<le> ?n" for m
    proof (cases "m = ?n")
      case True
      with False show ?thesis by (cases p) simp
    next
      case ne': False
      with that have "m \<le> ?n - 1" by simp
      with not [OF that(1)] tk show ?thesis by simp
    qed
    with False ex eq n tk show ?thesis
      by (subst (1 2) existing_ancestor.simps) (auto intro!: exI [of _ n])
  qed
qed

lemma canonicalize_canonical:
  assumes "fs_ok fs" and "wf_path p"
  shows "canonical (canonicalize_path_target fs p)"
proof (cases "fs_exists fs p")
  case True
  with assms(1) show ?thesis by (auto simp: canonicalize_path_target_def fs_ok_def)
next
  case False
  let ?a = "abspath fs p" and ?ep = "existing_ancestor fs (path_parent (abspath fs p))"
  have a: "is_absolute ?a" "\<forall>c \<in> set (path_parts ?a). wf_part c \<and> c \<noteq> ''..''"
    using abspath_facts [OF assms] by auto
  then have "is_absolute (path_parent ?a)" by (simp add: is_absolute_def path_parent_def)
  with assms(1) have ex: "fs_exists fs ?ep" using existing_ancestor_facts by blast
  with assms(1) have "canonical (fs_resolve fs ?ep)" by (auto simp: fs_ok_def)
  moreover have "set (drop n (path_parts ?a)) \<subseteq> set (path_parts ?a)" for n
    by (rule set_drop_subset)
  ultimately show ?thesis
    using False ex a(2)
    by (auto simp: canonicalize_path_target_def Let_def canonical_def path_join_def is_absolute_def)
qed

text \<open>
  The last existing ancestor splits a missing path; the names below it are kept as they are.
\<close>

lemma canonicalize_missing:
  assumes "fs_ok fs" and "is_absolute a" and "abspath fs a = a" and "\<not> fs_exists fs a"
  shows "\<exists>n < length (path_parts a).
    fs_exists fs (PPath (path_root a) (take n (path_parts a)))
    \<and> (\<forall>m > n. m \<le> length (path_parts a) \<longrightarrow> \<not> fs_exists fs (PPath (path_root a) (take m (path_parts a))))
    \<and> canonicalize_path_target fs a =
        PPath 1 (path_parts (fs_resolve fs (PPath (path_root a) (take n (path_parts a))))
                 @ drop n (path_parts a))"
proof -
  let ?ps = "path_parts a" and ?r = "path_root a"
  have ne: "?ps \<noteq> []"
    using assms(1,2,4) by (cases a) (auto simp: fs_ok_def is_absolute_def)
  have "is_absolute (path_parent a)"
    using assms(2) by (simp add: is_absolute_def path_parent_def)
  from existing_ancestor_facts [OF assms(1) this] obtain n where
    ex: "fs_exists fs (existing_ancestor fs (path_parent a))"
    and eq: "existing_ancestor fs (path_parent a) = PPath ?r (take n (butlast ?ps))"
    and not: "\<And>m. n < m \<Longrightarrow> m \<le> length ?ps - 1 \<Longrightarrow> \<not> fs_exists fs (PPath ?r (take m (butlast ?ps)))"
    and n: "n \<le> length ?ps - 1"
    by (auto simp: path_parent_def)
  have tk: "take m (butlast ?ps) = take m ?ps" if "m \<le> length ?ps - 1" for m
    using that by (simp add: butlast_conv_take min_def)
  have lt: "n < length ?ps" using n ne by (cases ?ps) auto
  have "\<not> fs_exists fs (PPath ?r (take m ?ps))" if "n < m" "m \<le> length ?ps" for m
  proof (cases "m = length ?ps")
    case True
    with assms(4) show ?thesis by (cases a) simp
  next
    case False
    with that have "m \<le> length ?ps - 1" by simp
    with not [OF that(1)] tk show ?thesis by simp
  qed
  moreover have "path_root (fs_resolve fs (PPath ?r (take n ?ps))) = 1"
    using assms(1) ex eq tk [OF n] by (auto simp: fs_ok_def canonical_def)
  moreover have "length (take n ?ps) = n" using lt by simp
  ultimately show ?thesis
    using assms(3,4) ex eq tk [OF n] lt
    by (intro exI [of _ n]) (simp add: canonicalize_path_target_def Let_def path_join_def is_absolute_def)
qed

lemma fs_okD:
  assumes "fs_ok fs" and "fs_exists fs p"
  shows "canonical (fs_resolve fs p)"
    and "fs_exists fs (PPath 1 (take n (path_parts (fs_resolve fs p))))"
    and "fs_resolve fs (PPath 1 (take n (path_parts (fs_resolve fs p))))
      = PPath 1 (take n (path_parts (fs_resolve fs p)))"
  using assms by (auto simp: fs_ok_def)

lemma fs_ok_same_entries:
  "fs_ok fs \<Longrightarrow> is_absolute p \<Longrightarrow> fs_exists fs p \<Longrightarrow>
     fs_exists fs (PPath 1 (path_parts (fs_resolve fs p) @ cs))
       = fs_exists fs (PPath (path_root p) (path_parts p @ cs))"
  unfolding fs_ok_def by blast

lemma resolve_existing:
  assumes "fs_ok fs" and "fs_exists fs p"
  shows "fs_exists fs (fs_resolve fs p)" "fs_resolve fs (fs_resolve fs p) = fs_resolve fs p"
proof -
  have "PPath 1 (take (length (path_parts (fs_resolve fs p))) (path_parts (fs_resolve fs p))) = fs_resolve fs p"
    using fs_okD(1) [OF assms] by (cases "fs_resolve fs p") (simp add: canonical_def)
  then show "fs_exists fs (fs_resolve fs p)" "fs_resolve fs (fs_resolve fs p) = fs_resolve fs p"
    using fs_okD(2,3) [OF assms, of "length (path_parts (fs_resolve fs p))"] by simp_all
qed

lemma canonicalize_idem:
  assumes "fs_ok fs" and "wf_path a" and "is_absolute a" and "abspath fs a = a"
  shows "canonicalize_path_target fs (canonicalize_path_target fs a) = canonicalize_path_target fs a"
proof (cases "fs_exists fs a")
  case True
  with resolve_existing [OF assms(1) True] show ?thesis by (simp add: canonicalize_path_target_def)
next
  case False
  let ?ps = "path_parts a" and ?r = "path_root a"
  from canonicalize_missing [OF assms(1,3,4) False] obtain n where
    n: "n < length ?ps" and ex: "fs_exists fs (PPath ?r (take n ?ps))"
    and not: "\<And>m. n < m \<Longrightarrow> m \<le> length ?ps \<Longrightarrow> \<not> fs_exists fs (PPath ?r (take m ?ps))"
    and c: "canonicalize_path_target fs a =
      PPath 1 (path_parts (fs_resolve fs (PPath ?r (take n ?ps))) @ drop n ?ps)"
    by blast
  define R where "R = path_parts (fs_resolve fs (PPath ?r (take n ?ps)))"
  let ?C = "PPath 1 (R @ drop n ?ps)"
  have res: "fs_resolve fs (PPath ?r (take n ?ps)) = PPath 1 R"
    using fs_okD(1) [OF assms(1) ex] by (cases "fs_resolve fs (PPath ?r (take n ?ps))")
      (simp add: canonical_def R_def)
  have same: "fs_exists fs (PPath 1 (R @ cs)) = fs_exists fs (PPath ?r (take n ?ps @ cs))" for cs
    using fs_ok_same_entries [OF assms(1) _ ex, of cs] assms(3) by (simp add: is_absolute_def R_def)
  have C: "canonicalize_path_target fs a = ?C" using c by (simp add: R_def)
  with canonicalize_canonical [OF assms(1,2)] have can: "canonical ?C" by simp
  have missing: "\<not> fs_exists fs ?C" using same [of "drop n ?ps"] False by (cases a) simp
  have "is_absolute ?C" by (simp add: is_absolute_def)
  from canonicalize_missing [OF assms(1) this abspath_canonical [OF can] missing] obtain k where
    k: "k < length R + (length ?ps - n)" and exk: "fs_exists fs (PPath 1 (take k (R @ drop n ?ps)))"
    and notk: "\<And>m. k < m \<Longrightarrow> m \<le> length R + (length ?ps - n) \<Longrightarrow>
      \<not> fs_exists fs (PPath 1 (take m (R @ drop n ?ps)))"
    and ck: "canonicalize_path_target fs ?C =
      PPath 1 (path_parts (fs_resolve fs (PPath 1 (take k (R @ drop n ?ps)))) @ drop k (R @ drop n ?ps))"
    by auto
  have "k = length R"
  proof (rule ccontr)
    assume "k \<noteq> length R"
    then consider "k < length R" | "length R < k" by linarith
    then show False
    proof cases
      case 1
      have "fs_exists fs (PPath 1 R)" using resolve_existing(1) [OF assms(1) ex] res by simp
      with notk [of "length R"] 1 show False by simp
    next
      case 2
      then have "take k (R @ drop n ?ps) = R @ take (k - length R) (drop n ?ps)" by simp
      with exk same [of "take (k - length R) (drop n ?ps)"]
      have "fs_exists fs (PPath ?r (take n ?ps @ take (k - length R) (drop n ?ps)))" by simp
      then have "fs_exists fs (PPath ?r (take (n + (k - length R)) ?ps))" by (simp add: take_add)
      with not [of "n + (k - length R)"] 2 k show False by simp
    qed
  qed
  moreover have "fs_resolve fs (PPath 1 R) = PPath 1 R"
    using resolve_existing(2) [OF assms(1) ex] res by simp
  ultimately show ?thesis using C ck by simp
qed

text \<open>The parent of a canonical path that exists is canonical and resolves to itself.\<close>

lemma canonical_parent_resolves:
  assumes "fs_ok fs" and "canonical c" and stable: "canonicalize_path_target fs c = c"
    and "fs_exists fs (path_parent c)" and "path_parts c \<noteq> []"
  shows "fs_resolve fs (path_parent c) = path_parent c"
proof (cases "fs_exists fs c")
  case True
  let ?n = "length (path_parts c) - 1"
  from True stable have r: "fs_resolve fs c = c" by (simp add: canonicalize_path_target_def)
  have "path_parent c = PPath 1 (take ?n (path_parts c))"
    using assms(2) by (simp add: path_parent_def canonical_def butlast_conv_take)
  with fs_okD(3) [OF assms(1) True, of ?n] r show ?thesis by simp
next
  case False
  let ?ps = "path_parts c"
  have root: "path_root c = 1" using assms(2) by (simp add: canonical_def)
  then have abs: "is_absolute c" by (simp add: is_absolute_def)
  from canonicalize_missing [OF assms(1) abs abspath_canonical [OF assms(2)] False] obtain n where
    n: "n < length ?ps" and not: "\<And>m. n < m \<Longrightarrow> m \<le> length ?ps \<Longrightarrow> \<not> fs_exists fs (PPath 1 (take m ?ps))"
    and c: "c = PPath 1 (path_parts (fs_resolve fs (PPath 1 (take n ?ps))) @ drop n ?ps)"
    using stable root by auto
  have parent: "path_parent c = PPath 1 (take (length ?ps - 1) ?ps)"
    using root by (simp add: path_parent_def butlast_conv_take)
  have last: "n = length ?ps - 1"
  proof (rule ccontr)
    assume "n \<noteq> length ?ps - 1"
    with n not [of "length ?ps - 1"] assms(4) parent show False by simp
  qed
  have "length (drop n ?ps) = Suc 0" using n last by simp
  then obtain x where x: "drop n ?ps = [x]"
    by (metis Suc_length_conv length_0_conv)
  from arg_cong [OF c, of path_parts] x last parent
  have "?ps = path_parts (fs_resolve fs (path_parent c)) @ [x]" by simp
  then have "butlast ?ps = path_parts (fs_resolve fs (path_parent c))"
    by (rule ssubst) simp
  moreover have "path_root (fs_resolve fs (path_parent c)) = 1"
    using fs_okD(1) [OF assms(1,4)] by (simp add: canonical_def)
  ultimately show ?thesis using root by (cases "fs_resolve fs (path_parent c)") (simp add: path_parent_def)
qed

section \<open>A file system without symbolic links\<close>

definition plain_fs :: "string list list \<Rightarrow> string list list \<Rightarrow> file_system" where
  "plain_fs dirs files =
     \<lparr>fs_cwd = PPath 1 [],
      fs_exists = (\<lambda>p. path_root p \<noteq> 0 \<and> (\<forall>c \<in> set (path_parts p). wf_part c \<and> c \<noteq> ''..'')
                        \<and> path_parts p \<in> set (dirs @ files)),
      fs_is_dir = (\<lambda>p. path_parts p \<in> set dirs),
      fs_resolve = (\<lambda>p. PPath 1 (norm_parts [] (filter wf_part (path_parts p))))\<rparr>"

lemma norm_wf_parts:
  "\<forall>c \<in> set cs. wf_part c \<and> c \<noteq> ''..'' \<Longrightarrow> norm_parts [] (filter wf_part cs) = cs"
  by (subst norm_parts_id) auto

lemma fs_ok_plain:
  assumes "[] \<in> set dirs" and "\<forall>p \<in> set (dirs @ files). \<forall>n. take n p \<in> set (dirs @ files)"
  shows "fs_ok (plain_fs dirs files)"
proof -
  let ?fs = "plain_fs dirs files"
  have can: "canonical (fs_resolve ?fs p)" for p
    using set_norm_parts [of "[]" "filter wf_part (path_parts p)"]
    by (auto simp: plain_fs_def canonical_def)
  have res: "fs_resolve ?fs p = PPath 1 (path_parts p)" if "fs_exists ?fs p" for p
    using that norm_wf_parts [of "path_parts p"] by (simp add: plain_fs_def del: filter_True)
  have tk: "fs_exists ?fs (PPath 1 (take n (path_parts p)))" if "fs_exists ?fs p" for p n
    using that assms(2) by (auto simp: plain_fs_def dest: in_set_takeD)
  show ?thesis
    unfolding fs_ok_def
  proof (intro conjI allI impI)
    show "wf_path (fs_cwd ?fs)" "is_absolute (fs_cwd ?fs)"
      by (simp_all add: plain_fs_def wf_path_def is_absolute_def)
    show "fs_exists ?fs (PPath r [])" if "r \<noteq> 0" for r
      using that assms(1) by (simp add: plain_fs_def)
    show "canonical (fs_resolve ?fs p)" for p by (rule can)
    show "fs_exists ?fs (PPath 1 (take n (path_parts (fs_resolve ?fs p))))"
      and "fs_resolve ?fs (PPath 1 (take n (path_parts (fs_resolve ?fs p))))
        = PPath 1 (take n (path_parts (fs_resolve ?fs p)))"
      if "fs_exists ?fs p" for p n
      using tk [OF that, of n] res [OF that] res [OF tk [OF that, of n]] by simp_all
    show "fs_exists ?fs (PPath 1 (path_parts (fs_resolve ?fs p) @ cs))
        = fs_exists ?fs (PPath (path_root p) (path_parts p @ cs))"
      if "is_absolute p \<and> fs_exists ?fs p" for p cs
      using that res [of p] by (simp add: plain_fs_def is_absolute_def)
  qed
qed

definition sample_fs :: file_system where
  "sample_fs = plain_fs [[], [''w''], [''home''], [''home'', ''u'']] [[''w'', ''a.py''], [''home'', ''u'', ''k'']]"

lemma fs_ok_sample: "fs_ok sample_fs"
proof -
  have "take n (x # xs) = (if n = 0 then [] else x # take (n - 1) xs)" for n and x :: string and xs
    by (cases n) auto
  then show ?thesis unfolding sample_fs_def by (intro fs_ok_plain) auto
qed

section \<open>Resolved tool paths\<close>

lemma resolved_path:
  assumes "fs_ok fs" and "resolve_workspace_path fs workspace_root tool_path = Inr p"
  shows "canonical p" "canonicalize_path_target fs p = p"
proof -
  obtain q where q: "wf_path q" and p: "p = canonicalize_path_target fs (abspath fs q)"
  proof -
    let ?t = "parse_path tool_path" and ?root = "fs_resolve fs (parse_path workspace_root)"
    have "canonical ?root" using assms(1) by (simp add: fs_ok_def)
    then have "wf_path (path_join ?root ?t)"
      using wf_parse_path [of tool_path] by (auto simp: canonical_def wf_path_def path_join_def)
    then show thesis
      using assms(2) that [of ?t] that [of "path_join ?root ?t"]
      by (auto simp: resolve_workspace_path_def absolutize_workspace_path_def
          normalize_workspace_root_def Let_def split: if_splits)
  qed
  from abspath_facts [OF assms(1) q]
  have a: "wf_path (abspath fs q)" "is_absolute (abspath fs q)"
    "abspath fs (abspath fs q) = abspath fs q"
    by (auto intro: abspath_normal)
  show "canonical p" using canonicalize_canonical [OF assms(1) a(1)] p by simp
  show "canonicalize_path_target fs p = p" using canonicalize_idem [OF assms(1) a] p by simp
qed

end
