(* ===== verification/Sandbox_Contract.thy ===== *)
theory Sandbox_Contract
  imports Py_Text
begin

text \<open>
  The permission contract of \<open>contracts/sandbox.py\<close>: sandbox and approval policies, effective
  capabilities, permission deltas and grants, and the policies derived from them. A pydantic
  model is a record together with its validator; the validator runs when the object is built, so
  an object the code holds is one its validator accepts (the \<open>valid_\<close> predicates).
\<close>

section \<open>Literal types\<close>

datatype network_access = Restricted | Enabled
datatype filesystem_access = Read_only | Workspace_write | Full_access
datatype execution_isolation = Sandboxed | Unsandboxed
datatype approval_mode = Never | On_escalation | Always
datatype decision_value = Approved | Denied
datatype request_kind = Command_execution | File_change | Permission_grant
datatype additional_network_access = Network_enabled
datatype grant_scope = Once | Session
datatype file_change_kind = Change_write | Change_edit
datatype grant_kind = Grant_filesystem_read | Grant_filesystem_write | Grant_network_access
datatype shell_family = Posix | Powershell

definition request_kind_order :: "request_kind list" where
  "request_kind_order = [Command_execution, File_change, Permission_grant]"

fun request_kind_name :: "request_kind \<Rightarrow> string" where
  "request_kind_name Command_execution = ''command_execution''"
| "request_kind_name File_change = ''file_change''"
| "request_kind_name Permission_grant = ''permission_grant''"

fun approval_mode_name :: "approval_mode \<Rightarrow> string" where
  "approval_mode_name Never = ''never''"
| "approval_mode_name On_escalation = ''on_escalation''"
| "approval_mode_name Always = ''always''"

datatype contract_error =
    Read_only_network | Danger_network | Empty_by_kind | Empty_delta | Prefix_without_network
  | Grants_without_permissions | Permissions_without_grants | Grants_mismatch
  | Duplicate_option_ids | Denied_with_grants | Request_id_mismatch | Grants_not_requested
  | Missing_requested_grants | Explicit_grants_mismatch | Option_decision_mismatch
  | Unknown_option | No_matching_option

section \<open>Policies and capabilities\<close>

datatype sandbox_policy =
    Read_only_policy (policy_network: network_access)
  | Workspace_write_policy (policy_network: network_access)
  | Danger_full_access_policy (policy_network: network_access)
  | External_policy (policy_network: network_access)

fun validate_sandbox_policy :: "sandbox_policy \<Rightarrow> (contract_error, sandbox_policy) result" where
  "validate_sandbox_policy (Read_only_policy n) =
     (if n \<noteq> Restricted then Inl Read_only_network else Inr (Read_only_policy n))"
| "validate_sandbox_policy (Danger_full_access_policy n) =
     (if n \<noteq> Enabled then Inl Danger_network else Inr (Danger_full_access_policy n))"
| "validate_sandbox_policy p = Inr p"

text \<open>\<open>by_kind\<close> is a dictionary: an association list, of which the first entry of a key counts.\<close>

record approval_policy =
  ap_mode :: approval_mode
  ap_by_kind :: "(request_kind \<times> approval_mode) list"

definition make_approval_policy ::
    "approval_mode \<Rightarrow> (request_kind \<times> approval_mode) list option
     \<Rightarrow> (contract_error, approval_policy) result" where
  "make_approval_policy mode by_kind =
     (case by_kind of
        None \<Rightarrow> Inr \<lparr>ap_mode = mode, ap_by_kind = []\<rparr>
      | Some m \<Rightarrow> if m = [] then Inl Empty_by_kind
                  else Inr \<lparr>ap_mode = mode, ap_by_kind = m\<rparr>)"

record effective_capabilities =
  ec_filesystem_access :: filesystem_access
  ec_network_access :: network_access
  ec_execution_isolation :: execution_isolation
  ec_approval_mode :: approval_mode
  ec_approval_by_kind :: "(request_kind \<times> approval_mode) list"

record additional_permissions =
  asp_network_access :: "additional_network_access option"
  asp_read_roots :: "string list"
  asp_write_roots :: "string list"

definition validate_additional_permissions ::
    "additional_permissions \<Rightarrow> (contract_error, additional_permissions) result" where
  "validate_additional_permissions p =
     (if asp_network_access p = None \<and> asp_read_roots p = [] \<and> asp_write_roots p = []
      then Inl Empty_delta else Inr p)"

definition valid_permissions :: "additional_permissions \<Rightarrow> bool" where
  "valid_permissions p = succeeds (validate_additional_permissions p)"

record permission_grant =
  pg_permissions :: additional_permissions
  pg_scope :: grant_scope
  pg_command_prefix :: "string list"

definition validate_permission_grant ::
    "permission_grant \<Rightarrow> (contract_error, permission_grant) result" where
  "validate_permission_grant g =
     (if pg_command_prefix g = [] then Inr g
      else if asp_network_access (pg_permissions g) \<noteq> Some Network_enabled
      then Inl Prefix_without_network
      else Inr g)"

definition valid_grant :: "permission_grant \<Rightarrow> bool" where
  "valid_grant g \<longleftrightarrow> valid_permissions (pg_permissions g) \<and> succeeds (validate_permission_grant g)"

record filesystem_policy =
  fp_access :: filesystem_access
  fp_read_roots :: "string list"
  fp_write_roots :: "string list"

record normalized_policy =
  np_filesystem :: filesystem_policy
  np_network :: network_access
  np_execution_isolation :: execution_isolation

record permission_state =
  ps_sandbox_policy :: sandbox_policy
  ps_approval_policy :: approval_policy
  ps_effective_capabilities :: effective_capabilities

section \<open>Approval modes\<close>

definition approval_mode_for_request_kind :: "approval_policy \<Rightarrow> request_kind \<Rightarrow> approval_mode" where
  "approval_mode_for_request_kind ap k =
     (case map_of (ap_by_kind ap) k of Some m \<Rightarrow> m | None \<Rightarrow> ap_mode ap)"

definition describe_approval_policy ::
    "approval_mode \<Rightarrow> (request_kind \<times> approval_mode) list \<Rightarrow> string" where
  "describe_approval_policy mode by_kind =
     (if by_kind = [] then approval_mode_name mode
      else
        (let overrides = join '', ''
           (map (\<lambda>k. request_kind_name k @ ''='' @ approval_mode_name (the (map_of by_kind k)))
             (filter (\<lambda>k. map_of by_kind k \<noteq> None) request_kind_order))
         in approval_mode_name mode @ '' ('' @ overrides @ '')''))"

definition describe_approval_policy_for_request_kind ::
    "approval_policy \<Rightarrow> request_kind \<Rightarrow> string" where
  "describe_approval_policy_for_request_kind ap k =
     (case map_of (ap_by_kind ap) k of
        None \<Rightarrow> approval_mode_name (ap_mode ap)
      | Some m \<Rightarrow> request_kind_name k @ ''='' @ approval_mode_name m)"

section \<open>Derived policies\<close>

definition derive_effective_capabilities ::
    "sandbox_policy \<Rightarrow> approval_policy \<Rightarrow> effective_capabilities" where
  "derive_effective_capabilities sp ap =
     (let (fs, iso) =
        (case sp of
           Read_only_policy _ \<Rightarrow> (Read_only, Sandboxed)
         | Workspace_write_policy _ \<Rightarrow> (Workspace_write, Sandboxed)
         | Danger_full_access_policy _ \<Rightarrow> (Full_access, Unsandboxed)
         | External_policy _ \<Rightarrow> (Full_access, Sandboxed))
      in \<lparr>ec_filesystem_access = fs, ec_network_access = policy_network sp,
          ec_execution_isolation = iso, ec_approval_mode = ap_mode ap,
          ec_approval_by_kind = ap_by_kind ap\<rparr>)"

definition derive_normalized_sandbox_policy ::
    "permission_state \<Rightarrow> additional_permissions option \<Rightarrow> normalized_policy" where
  "derive_normalized_sandbox_policy st ad =
     (let base = derive_effective_capabilities (ps_sandbox_policy st) (ps_approval_policy st);
          reads = (case ad of None \<Rightarrow> [] | Some p \<Rightarrow> asp_read_roots p);
          writes = (case ad of None \<Rightarrow> [] | Some p \<Rightarrow> asp_write_roots p);
          net = (case ad of
                   None \<Rightarrow> ec_network_access base
                 | Some p \<Rightarrow> (case asp_network_access p of
                                None \<Rightarrow> ec_network_access base
                              | Some Network_enabled \<Rightarrow> Enabled))
      in \<lparr>np_filesystem = \<lparr>fp_access = ec_filesystem_access base,
                           fp_read_roots = reads, fp_write_roots = writes\<rparr>,
          np_network = net,
          np_execution_isolation = ec_execution_isolation base\<rparr>)"

definition derive_requested_capabilities ::
    "permission_state \<Rightarrow> additional_permissions option \<Rightarrow> effective_capabilities" where
  "derive_requested_capabilities st ad =
     (let np = derive_normalized_sandbox_policy st ad
      in \<lparr>ec_filesystem_access = fp_access (np_filesystem np),
          ec_network_access = np_network np,
          ec_execution_isolation = np_execution_isolation np,
          ec_approval_mode = ap_mode (ps_approval_policy st),
          ec_approval_by_kind = ap_by_kind (ps_approval_policy st)\<rparr>)"

definition build_permission_state ::
    "sandbox_policy \<Rightarrow> approval_policy \<Rightarrow> effective_capabilities option \<Rightarrow> permission_state" where
  "build_permission_state sp ap ec =
     \<lparr>ps_sandbox_policy = sp, ps_approval_policy = ap,
      ps_effective_capabilities =
        (case ec of Some c \<Rightarrow> c | None \<Rightarrow> derive_effective_capabilities sp ap)\<rparr>"

definition build_default_permission_state :: permission_state where
  "build_default_permission_state =
     build_permission_state (Workspace_write_policy Restricted)
       \<lparr>ap_mode = On_escalation, ap_by_kind = []\<rparr>
       (Some \<lparr>ec_filesystem_access = Workspace_write, ec_network_access = Restricted,
              ec_execution_isolation = Unsandboxed, ec_approval_mode = On_escalation,
              ec_approval_by_kind = []\<rparr>)"

section \<open>Flattening grants\<close>

definition flatten_permission_grants ::
    "permission_grant list \<Rightarrow> (contract_error, additional_permissions option) result" where
  "flatten_permission_grants gs =
     (if gs = [] then Inr None
      else
        (let net = fold (\<lambda>g acc. case asp_network_access (pg_permissions g) of
                             None \<Rightarrow> acc | Some n \<Rightarrow> Some n) gs None;
             reads = concat (map (\<lambda>g. asp_read_roots (pg_permissions g)) gs);
             writes = concat (map (\<lambda>g. asp_write_roots (pg_permissions g)) gs)
         in res_bind
              (validate_additional_permissions
                 \<lparr>asp_network_access = net, asp_read_roots = dedup reads,
                  asp_write_roots = dedup writes\<rparr>)
              (\<lambda>p. Inr (Some p))))"

lemma validate_additional_permissions_Inr [simp]:
  "validate_additional_permissions p = Inr q \<longleftrightarrow> q = p \<and> valid_permissions p"
  by (auto simp: validate_additional_permissions_def valid_permissions_def)

lemma valid_permissions_iff:
  "valid_permissions p \<longleftrightarrow>
     asp_network_access p \<noteq> None \<or> asp_read_roots p \<noteq> [] \<or> asp_write_roots p \<noteq> []"
  by (auto simp: validate_additional_permissions_def valid_permissions_def)

lemma validate_permission_grant_Inr [simp]:
  "validate_permission_grant g = Inr h \<longleftrightarrow> h = g \<and> succeeds (validate_permission_grant g)"
  by (auto simp: validate_permission_grant_def)

lemma flatten_single:
  assumes "valid_permissions (pg_permissions g)"
    and "distinct (asp_read_roots (pg_permissions g))"
    and "distinct (asp_write_roots (pg_permissions g))"
  shows "flatten_permission_grants [g] = Inr (Some (pg_permissions g))"
  using assms
  by (auto simp: flatten_permission_grants_def dedup_distinct valid_permissions_iff
      split: option.splits)

text \<open>
  What a normalized policy adds to the base capabilities is the delta it was given: the access
  mode and the isolation never change, and the network opens only for a delta that asks for it.
\<close>

lemma normalized_policy_frame [frame]:
  "fp_access (np_filesystem (derive_normalized_sandbox_policy st ad)) =
     ec_filesystem_access (derive_effective_capabilities (ps_sandbox_policy st) (ps_approval_policy st))"
  "np_execution_isolation (derive_normalized_sandbox_policy st ad) =
     ec_execution_isolation (derive_effective_capabilities (ps_sandbox_policy st) (ps_approval_policy st))"
  by (simp_all add: derive_normalized_sandbox_policy_def Let_def)

lemma normalized_policy_roots [simp]:
  "fp_read_roots (np_filesystem (derive_normalized_sandbox_policy st None)) = []"
  "fp_write_roots (np_filesystem (derive_normalized_sandbox_policy st None)) = []"
  "fp_read_roots (np_filesystem (derive_normalized_sandbox_policy st (Some p))) = asp_read_roots p"
  "fp_write_roots (np_filesystem (derive_normalized_sandbox_policy st (Some p))) = asp_write_roots p"
  by (simp_all add: derive_normalized_sandbox_policy_def Let_def)

lemma normalized_policy_network:
  "np_network (derive_normalized_sandbox_policy st ad) =
     (if \<exists>p. ad = Some p \<and> asp_network_access p \<noteq> None then Enabled
      else policy_network (ps_sandbox_policy st))"
  by (auto simp: derive_normalized_sandbox_policy_def derive_effective_capabilities_def Let_def
      split: option.splits additional_network_access.splits sandbox_policy.splits)

end
