(* ===== verification/Permission_Memory.thy ===== *)
theory Permission_Memory
  imports Workspace_Paths Sandbox_Contract "HOL-Library.List_Lexorder" "HOL-Library.Char_ord"
begin

text \<open>
  The permissions a session has been granted: \<open>SessionPermissionMemory\<close> of \<open>tools/deps.py\<close>, its
  snapshot and its restoration, and the functions of \<open>tools/_approval_flow.py\<close> that fill it. The
  interface every other component relies on is the locale \<open>grant_memory\<close>: what is allowed after
  something has been remembered.
\<close>

section \<open>The interface\<close>

locale grant_memory =
  fixes remember :: "'k \<Rightarrow> 'm \<Rightarrow> 'm"
    and allows :: "'m \<Rightarrow> 'q \<Rightarrow> bool"
    and covers :: "'k \<Rightarrow> 'q \<Rightarrow> bool"
  assumes allows_remember: "allows (remember k m) q \<longleftrightarrow> covers k q \<or> allows m q"
begin

lemma allows_fold:
  "allows (fold remember ks m) q \<longleftrightarrow> (\<exists>k \<in> set ks. covers k q) \<or> allows m q"
  by (induction ks arbitrary: m) (auto simp: allows_remember)

lemma allows_mono: "allows m q \<Longrightarrow> allows (fold remember ks m) q"
  by (simp add: allows_fold)

lemma remembered_covers: "k \<in> set ks \<Longrightarrow> covers k q \<Longrightarrow> allows (fold remember ks m) q"
  by (auto simp: allows_fold)

end

section \<open>The memory\<close>

record permission_memory =
  pm_read_roots :: "string set"
  pm_write_roots :: "string set"
  pm_command_prefixes :: "string list set"

definition empty_memory :: permission_memory where
  "empty_memory = \<lparr>pm_read_roots = {}, pm_write_roots = {}, pm_command_prefixes = {}\<rparr>"

definition canonicalize_permission_root :: "file_system \<Rightarrow> string \<Rightarrow> string" where
  "canonicalize_permission_root fs root = path_str (canonicalize_path_target fs (parse_path root))"

definition path_is_within_root :: "file_system \<Rightarrow> ppath \<Rightarrow> string \<Rightarrow> bool" where
  "path_is_within_root fs path root =
     is_relative_to (canonicalize_path_target fs path) (parse_path root)"

definition allows_read_path :: "file_system \<Rightarrow> permission_memory \<Rightarrow> ppath \<Rightarrow> bool" where
  "allows_read_path fs m path \<longleftrightarrow> (\<exists>root \<in> pm_read_roots m. path_is_within_root fs path root)"

definition allows_write_path :: "file_system \<Rightarrow> permission_memory \<Rightarrow> ppath \<Rightarrow> bool" where
  "allows_write_path fs m path \<longleftrightarrow> (\<exists>root \<in> pm_write_roots m. path_is_within_root fs path root)"

definition remember_read_root :: "file_system \<Rightarrow> string \<Rightarrow> permission_memory \<Rightarrow> permission_memory" where
  "remember_read_root fs root m =
     m\<lparr>pm_read_roots := insert (canonicalize_permission_root fs root) (pm_read_roots m)\<rparr>"

definition remember_write_root :: "file_system \<Rightarrow> string \<Rightarrow> permission_memory \<Rightarrow> permission_memory" where
  "remember_write_root fs root m =
     m\<lparr>pm_write_roots := insert (canonicalize_permission_root fs root) (pm_write_roots m)\<rparr>"

definition allows_command_prefix :: "permission_memory \<Rightarrow> string list \<Rightarrow> bool" where
  "allows_command_prefix m tokens \<longleftrightarrow>
     (\<exists>p \<in> pm_command_prefixes m. length p \<le> length tokens \<and> take (length p) tokens = p)"

definition remember_command_prefix :: "string list \<Rightarrow> permission_memory \<Rightarrow> permission_memory" where
  "remember_command_prefix p m =
     (if p \<noteq> [] then m\<lparr>pm_command_prefixes := insert p (pm_command_prefixes m)\<rparr> else m)"

definition snapshot_session_grants :: "permission_memory \<Rightarrow> permission_grant list" where
  "snapshot_session_grants m =
     (if pm_read_roots m \<noteq> {} \<or> pm_write_roots m \<noteq> {}
      then [\<lparr>pg_permissions =
               \<lparr>asp_network_access = None,
                asp_read_roots = sorted_list_of_set (pm_read_roots m),
                asp_write_roots = sorted_list_of_set (pm_write_roots m)\<rparr>,
             pg_scope = Session, pg_command_prefix = []\<rparr>]
      else [])
     @ map (\<lambda>p. \<lparr>pg_permissions = \<lparr>asp_network_access = Some Network_enabled,
                                   asp_read_roots = [], asp_write_roots = []\<rparr>,
                 pg_scope = Session, pg_command_prefix = p\<rparr>)
         (sorted_list_of_set (pm_command_prefixes m))"

definition clear_memory :: "permission_memory \<Rightarrow> permission_memory" where
  "clear_memory m = m\<lparr>pm_read_roots := {}, pm_write_roots := {}, pm_command_prefixes := {}\<rparr>"

definition remember_session_grant ::
    "file_system \<Rightarrow> permission_grant \<Rightarrow> permission_memory \<Rightarrow> permission_memory" where
  "remember_session_grant fs g m =
     (if pg_scope g \<noteq> Session then m
      else
        (let m1 = fold (remember_read_root fs) (asp_read_roots (pg_permissions g)) m;
             m2 = fold (remember_write_root fs) (asp_write_roots (pg_permissions g)) m1
         in if pg_command_prefix g \<noteq> [] then remember_command_prefix (pg_command_prefix g) m2 else m2))"

definition remember_session_grants ::
    "file_system \<Rightarrow> permission_grant list \<Rightarrow> permission_memory \<Rightarrow> permission_memory" where
  "remember_session_grants fs gs m = fold (remember_session_grant fs) gs (clear_memory m)"

section \<open>Filling the memory after an approval\<close>

definition remember_approved_permissions ::
    "file_system \<Rightarrow> additional_permissions \<Rightarrow> permission_memory \<Rightarrow> permission_memory" where
  "remember_approved_permissions fs p m =
     fold (remember_write_root fs) (asp_write_roots p) (fold (remember_read_root fs) (asp_read_roots p) m)"

fun remember_approved_grants ::
    "file_system \<Rightarrow> permission_grant list \<Rightarrow> permission_memory \<Rightarrow> permission_memory" where
  "remember_approved_grants fs [] m = m"
| "remember_approved_grants fs (g # gs) m =
     (if pg_scope g \<noteq> Session then remember_approved_grants fs gs m
      else
        (let m1 = (if pg_command_prefix g \<noteq> [] then remember_command_prefix (pg_command_prefix g) m else m)
         in remember_approved_grants fs gs (remember_approved_permissions fs (pg_permissions g) m1)))"

section \<open>The memory provides the interface\<close>

interpretation read_roots: grant_memory "remember_read_root fs" "allows_read_path fs"
  "\<lambda>root path. path_is_within_root fs path (canonicalize_permission_root fs root)" for fs
  by unfold_locales (auto simp: remember_read_root_def allows_read_path_def)

interpretation write_roots: grant_memory "remember_write_root fs" "allows_write_path fs"
  "\<lambda>root path. path_is_within_root fs path (canonicalize_permission_root fs root)" for fs
  by unfold_locales (auto simp: remember_write_root_def allows_write_path_def)

interpretation command_prefixes: grant_memory remember_command_prefix allows_command_prefix
  "\<lambda>p tokens. p \<noteq> [] \<and> length p \<le> length tokens \<and> take (length p) tokens = p"
  by unfold_locales (auto simp: remember_command_prefix_def allows_command_prefix_def)

lemma fold_frame:
  "(\<And>k m. f (g k m) = f m) \<Longrightarrow> f (fold g ks m) = f m"
  by (induction ks arbitrary: m) auto

lemma allows_frame [frame, simp]:
  "allows_read_path fs (remember_write_root fs r m) = allows_read_path fs m"
  "allows_read_path fs (remember_command_prefix p m) = allows_read_path fs m"
  "allows_write_path fs (remember_read_root fs r m) = allows_write_path fs m"
  "allows_write_path fs (remember_command_prefix p m) = allows_write_path fs m"
  "allows_command_prefix (remember_read_root fs r m) = allows_command_prefix m"
  "allows_command_prefix (remember_write_root fs r m) = allows_command_prefix m"
  by (auto simp: remember_read_root_def remember_write_root_def remember_command_prefix_def
      allows_read_path_def allows_write_path_def allows_command_prefix_def fun_eq_iff)

lemma allows_fold_frame [frame, simp]:
  "allows_read_path fs (fold (remember_write_root fs) rs m) = allows_read_path fs m"
  "allows_write_path fs (fold (remember_read_root fs) rs m) = allows_write_path fs m"
  "allows_command_prefix (fold (remember_read_root fs) rs m) = allows_command_prefix m"
  "allows_command_prefix (fold (remember_write_root fs) rs m) = allows_command_prefix m"
  by (rule fold_frame [where f = "allows_read_path fs"], simp,
      rule fold_frame [where f = "allows_write_path fs"], simp,
      rule fold_frame [where f = allows_command_prefix], simp,
      rule fold_frame [where f = allows_command_prefix], simp)

section \<open>What is allowed after an approval\<close>

definition grant_covers_read :: "file_system \<Rightarrow> permission_grant \<Rightarrow> ppath \<Rightarrow> bool" where
  "grant_covers_read fs g path \<longleftrightarrow> pg_scope g = Session \<and>
     (\<exists>root \<in> set (asp_read_roots (pg_permissions g)).
        path_is_within_root fs path (canonicalize_permission_root fs root))"

definition grant_covers_write :: "file_system \<Rightarrow> permission_grant \<Rightarrow> ppath \<Rightarrow> bool" where
  "grant_covers_write fs g path \<longleftrightarrow> pg_scope g = Session \<and>
     (\<exists>root \<in> set (asp_write_roots (pg_permissions g)).
        path_is_within_root fs path (canonicalize_permission_root fs root))"

definition grant_covers_command :: "permission_grant \<Rightarrow> string list \<Rightarrow> bool" where
  "grant_covers_command g tokens \<longleftrightarrow> pg_scope g = Session \<and> pg_command_prefix g \<noteq> []
     \<and> length (pg_command_prefix g) \<le> length tokens
     \<and> take (length (pg_command_prefix g)) tokens = pg_command_prefix g"

lemma allows_read_after_grants:
  "allows_read_path fs (remember_approved_grants fs gs m) path \<longleftrightarrow>
     (\<exists>g \<in> set gs. grant_covers_read fs g path) \<or> allows_read_path fs m path"
  by (induction gs arbitrary: m)
     (auto simp: Let_def remember_approved_permissions_def read_roots.allows_fold grant_covers_read_def)

lemma allows_write_after_grants:
  "allows_write_path fs (remember_approved_grants fs gs m) path \<longleftrightarrow>
     (\<exists>g \<in> set gs. grant_covers_write fs g path) \<or> allows_write_path fs m path"
  by (induction gs arbitrary: m)
     (auto simp: Let_def remember_approved_permissions_def write_roots.allows_fold grant_covers_write_def)

lemma allows_command_after_grants:
  "allows_command_prefix (remember_approved_grants fs gs m) tokens \<longleftrightarrow>
     (\<exists>g \<in> set gs. grant_covers_command g tokens) \<or> allows_command_prefix m tokens"
  by (induction gs arbitrary: m)
     (auto simp: Let_def remember_approved_permissions_def command_prefixes.allows_remember
        grant_covers_command_def)

lemmas allows_after_grants =
  allows_read_after_grants allows_write_after_grants allows_command_after_grants

lemma once_grants_forgotten:
  "\<forall>g \<in> set gs. pg_scope g = Once \<Longrightarrow> remember_approved_grants fs gs m = m"
  by (induction gs arbitrary: m) auto

section \<open>Snapshots\<close>

definition memory_ok :: "file_system \<Rightarrow> permission_memory \<Rightarrow> bool" where
  "memory_ok fs m \<longleftrightarrow>
     finite (pm_read_roots m) \<and> finite (pm_write_roots m) \<and> finite (pm_command_prefixes m)
     \<and> (\<forall>r \<in> pm_read_roots m \<union> pm_write_roots m. canonicalize_permission_root fs r = r)
     \<and> [] \<notin> pm_command_prefixes m"

lemma fold_remember_read:
  "fold (remember_read_root fs) rs m =
     m\<lparr>pm_read_roots := canonicalize_permission_root fs ` set rs \<union> pm_read_roots m\<rparr>"
  by (induction rs arbitrary: m) (auto simp: remember_read_root_def)

lemma fold_remember_write:
  "fold (remember_write_root fs) rs m =
     m\<lparr>pm_write_roots := canonicalize_permission_root fs ` set rs \<union> pm_write_roots m\<rparr>"
  by (induction rs arbitrary: m) (auto simp: remember_write_root_def)

lemma fold_remember_prefixes:
  "[] \<notin> set ps \<Longrightarrow>
   fold (\<lambda>p. remember_session_grant fs
      \<lparr>pg_permissions = \<lparr>asp_network_access = Some Network_enabled, asp_read_roots = [], asp_write_roots = []\<rparr>,
       pg_scope = Session, pg_command_prefix = p\<rparr>) ps m
   = m\<lparr>pm_command_prefixes := set ps \<union> pm_command_prefixes m\<rparr>"
  by (induction ps arbitrary: m) (auto simp: remember_session_grant_def remember_command_prefix_def)

lemma canonical_image: "\<forall>r \<in> A. f r = r \<Longrightarrow> f ` A = A"
  by force

text \<open>
  Restoring a snapshot gives back the memory it was taken of, whatever the memory held before:
  no root or command prefix is lost, and none is added.
\<close>

theorem snapshot_restores_memory:
  assumes "memory_ok fs m"
  shows "remember_session_grants fs (snapshot_session_grants m) old = m"
proof -
  have fin: "finite (pm_read_roots m)" "finite (pm_write_roots m)" "finite (pm_command_prefixes m)"
    and can: "canonicalize_permission_root fs ` pm_read_roots m = pm_read_roots m"
      "canonicalize_permission_root fs ` pm_write_roots m = pm_write_roots m"
    and ne: "[] \<notin> set (sorted_list_of_set (pm_command_prefixes m))"
    using assms by (auto simp: memory_ok_def intro!: canonical_image)
  show ?thesis
  proof (cases "pm_read_roots m \<noteq> {} \<or> pm_write_roots m \<noteq> {}")
    case True
    then show ?thesis
      by (simp add: remember_session_grants_def snapshot_session_grants_def fold_map comp_def
          fold_remember_prefixes [OF ne] fin can)
         (simp add: remember_session_grant_def fold_remember_read fold_remember_write clear_memory_def
          fin can)
  next
    case False
    then show ?thesis
      by (simp add: remember_session_grants_def snapshot_session_grants_def fold_map comp_def
          fold_remember_prefixes [OF ne] fin clear_memory_def)
  qed
qed

definition sample_memory :: permission_memory where
  "sample_memory =
     \<lparr>pm_read_roots = {''/home/u''}, pm_write_roots = {}, pm_command_prefixes = {[''git'', ''push'']}\<rparr>"

lemma sample_root_stable: "canonicalize_permission_root sample_fs ''/home/u'' = ''/home/u''"
  by (simp add: canonicalize_permission_root_def canonicalize_path_target_def sample_fs_def plain_fs_def
      parse_path_def startswith_def wf_part_def)

lemma sample_memory_ok: "memory_ok sample_fs sample_memory"
  by (simp add: memory_ok_def sample_memory_def sample_root_stable)

theorem snapshot_restores_memory_witness:
  "memory_ok sample_fs sample_memory
   \<and> length (snapshot_session_grants sample_memory) = 2
   \<and> remember_session_grants sample_fs (snapshot_session_grants sample_memory) empty_memory = sample_memory"
proof -
  have "length (snapshot_session_grants sample_memory) = 2"
    by (simp add: snapshot_session_grants_def sample_memory_def)
  with sample_memory_ok snapshot_restores_memory [OF sample_memory_ok, of empty_memory]
  show ?thesis by simp
qed

end
