(* ===== verification/Policy_Engine.thy ===== *)
theory Policy_Engine
  imports Prelude
begin

text \<open>
  The permission rule engine of \<open>tools/_policy_engine.py\<close>: permission actions, the ordered table
  of policy rules, first-match evaluation with deny by default.
\<close>

section \<open>Actions and rules\<close>

datatype action_kind = Filesystem_read | Network_access | Filesystem_write
datatype action_source = Shell_source | Read_tool | Write_tool | Edit_tool
datatype path_scope = In_workspace | Non_workspace
datatype decision_kind = Allow | Prompt | Deny

record permission_action =
  pa_action_kind :: action_kind
  pa_source :: action_source
  pa_path_scope :: "path_scope option"
  pa_root :: "string option"
  pa_command_prefix :: "string list"
  pa_covered :: bool
  pa_extracted_by :: "string option"

record policy_rule =
  pr_rule_id :: string
  pr_description :: string
  pr_action_kind :: action_kind
  pr_source :: "action_source option"
  pr_path_scope :: "path_scope option"
  pr_covered :: "bool option"
  pr_decision :: decision_kind

record rule_match =
  rm_rule_id :: string
  rm_reason :: string
  rm_decision :: decision_kind

record policy_evaluation =
  pe_action :: permission_action
  pe_match :: rule_match

definition rule_allow_workspace_read :: policy_rule where
  "rule_allow_workspace_read =
     \<lparr>pr_rule_id = ''allow-workspace-read'',
      pr_description = ''Allow reads inside the workspace'',
      pr_action_kind = Filesystem_read, pr_source = None, pr_path_scope = Some In_workspace,
      pr_covered = None, pr_decision = Allow\<rparr>"

definition rule_allow_covered_read :: policy_rule where
  "rule_allow_covered_read =
     \<lparr>pr_rule_id = ''allow-non-workspace-read-when-covered'',
      pr_description = ''Allow reads outside the workspace when current permissions already cover them'',
      pr_action_kind = Filesystem_read, pr_source = None, pr_path_scope = Some Non_workspace,
      pr_covered = Some True, pr_decision = Allow\<rparr>"

definition rule_prompt_uncovered_read :: policy_rule where
  "rule_prompt_uncovered_read =
     \<lparr>pr_rule_id = ''prompt-non-workspace-read-when-uncovered'',
      pr_description = ''Prompt for reads outside the workspace when current permissions do not cover them'',
      pr_action_kind = Filesystem_read, pr_source = None, pr_path_scope = Some Non_workspace,
      pr_covered = Some False, pr_decision = Prompt\<rparr>"

definition rule_allow_covered_network :: policy_rule where
  "rule_allow_covered_network =
     \<lparr>pr_rule_id = ''allow-shell-network-when-covered'',
      pr_description = ''Allow shell network access when current permissions already cover it'',
      pr_action_kind = Network_access, pr_source = Some Shell_source, pr_path_scope = None,
      pr_covered = Some True, pr_decision = Allow\<rparr>"

definition rule_prompt_uncovered_network :: policy_rule where
  "rule_prompt_uncovered_network =
     \<lparr>pr_rule_id = ''prompt-shell-network-when-uncovered'',
      pr_description = ''Prompt for shell network access when current permissions do not cover it'',
      pr_action_kind = Network_access, pr_source = Some Shell_source, pr_path_scope = None,
      pr_covered = Some False, pr_decision = Prompt\<rparr>"

definition rule_allow_workspace_write :: policy_rule where
  "rule_allow_workspace_write =
     \<lparr>pr_rule_id = ''allow-workspace-write'',
      pr_description = ''Allow writes inside the workspace'',
      pr_action_kind = Filesystem_write, pr_source = None, pr_path_scope = Some In_workspace,
      pr_covered = None, pr_decision = Allow\<rparr>"

definition rule_allow_covered_write :: policy_rule where
  "rule_allow_covered_write =
     \<lparr>pr_rule_id = ''allow-non-workspace-write-when-covered'',
      pr_description = ''Allow writes outside the workspace when current permissions already cover them'',
      pr_action_kind = Filesystem_write, pr_source = None, pr_path_scope = Some Non_workspace,
      pr_covered = Some True, pr_decision = Allow\<rparr>"

definition rule_prompt_uncovered_write :: policy_rule where
  "rule_prompt_uncovered_write =
     \<lparr>pr_rule_id = ''prompt-non-workspace-write-when-uncovered'',
      pr_description = ''Prompt for writes outside the workspace when current permissions do not cover them'',
      pr_action_kind = Filesystem_write, pr_source = None, pr_path_scope = Some Non_workspace,
      pr_covered = Some False, pr_decision = Prompt\<rparr>"

definition permission_policy_rules :: "policy_rule list" where
  "permission_policy_rules =
     [rule_allow_workspace_read,
      rule_allow_covered_read,
      rule_prompt_uncovered_read,
      rule_allow_covered_network,
      rule_prompt_uncovered_network,
      rule_allow_workspace_write,
      rule_allow_covered_write,
      rule_prompt_uncovered_write]"

section \<open>Evaluation\<close>

definition rule_matches :: "permission_action \<Rightarrow> policy_rule \<Rightarrow> bool" where
  "rule_matches a r =
     (if pa_action_kind a \<noteq> pr_action_kind r then False
      else if pr_source r \<noteq> None \<and> Some (pa_source a) \<noteq> pr_source r then False
      else if pr_path_scope r \<noteq> None \<and> pa_path_scope a \<noteq> pr_path_scope r then False
      else if pr_covered r \<noteq> None \<and> Some (pa_covered a) \<noteq> pr_covered r then False
      else True)"

definition no_rule_match :: rule_match where
  "no_rule_match =
     \<lparr>rm_rule_id = ''no-matching-policy-rule'',
      rm_reason = ''No explicit policy rule matched; deny by default'', rm_decision = Deny\<rparr>"

fun evaluate_action :: "policy_rule list \<Rightarrow> permission_action \<Rightarrow> rule_match" where
  "evaluate_action [] a = no_rule_match"
| "evaluate_action (r # rules) a =
     (if rule_matches a r
      then \<lparr>rm_rule_id = pr_rule_id r, rm_reason = pr_description r, rm_decision = pr_decision r\<rparr>
      else evaluate_action rules a)"

definition evaluate_permission_actions ::
    "permission_action list \<Rightarrow> policy_rule list \<Rightarrow> policy_evaluation list" where
  "evaluate_permission_actions actions rules =
     map (\<lambda>a. \<lparr>pe_action = a, pe_match = evaluate_action rules a\<rparr>) actions"

section \<open>What the shipped table decides\<close>

definition action_decision :: "permission_action \<Rightarrow> decision_kind" where
  "action_decision a = rm_decision (evaluate_action permission_policy_rules a)"

text \<open>The specification of the table: no rule ids, no order.\<close>

definition policy_spec :: "permission_action \<Rightarrow> decision_kind" where
  "policy_spec a =
     (case pa_action_kind a of
        Network_access \<Rightarrow>
          (if pa_source a \<noteq> Shell_source then Deny else if pa_covered a then Allow else Prompt)
      | _ \<Rightarrow>
          (case pa_path_scope a of
             None \<Rightarrow> Deny
           | Some In_workspace \<Rightarrow> Allow
           | Some Non_workspace \<Rightarrow> (if pa_covered a then Allow else Prompt)))"

text \<open>Which actions a shipped rule matches, and what it decides, without its texts.\<close>

lemma shipped_rule_matches [tables]:
  "rule_matches a rule_allow_workspace_read \<longleftrightarrow> pa_action_kind a = Filesystem_read \<and> pa_path_scope a = Some In_workspace"
  "rule_matches a rule_allow_covered_read \<longleftrightarrow> pa_action_kind a = Filesystem_read \<and> pa_path_scope a = Some Non_workspace \<and> pa_covered a"
  "rule_matches a rule_prompt_uncovered_read \<longleftrightarrow> pa_action_kind a = Filesystem_read \<and> pa_path_scope a = Some Non_workspace \<and> \<not> pa_covered a"
  "rule_matches a rule_allow_covered_network \<longleftrightarrow> pa_action_kind a = Network_access \<and> pa_source a = Shell_source \<and> pa_covered a"
  "rule_matches a rule_prompt_uncovered_network \<longleftrightarrow> pa_action_kind a = Network_access \<and> pa_source a = Shell_source \<and> \<not> pa_covered a"
  "rule_matches a rule_allow_workspace_write \<longleftrightarrow> pa_action_kind a = Filesystem_write \<and> pa_path_scope a = Some In_workspace"
  "rule_matches a rule_allow_covered_write \<longleftrightarrow> pa_action_kind a = Filesystem_write \<and> pa_path_scope a = Some Non_workspace \<and> pa_covered a"
  "rule_matches a rule_prompt_uncovered_write \<longleftrightarrow> pa_action_kind a = Filesystem_write \<and> pa_path_scope a = Some Non_workspace \<and> \<not> pa_covered a"
  by (simp_all add: rule_matches_def rule_allow_workspace_read_def rule_allow_covered_read_def rule_prompt_uncovered_read_def rule_allow_covered_network_def rule_prompt_uncovered_network_def rule_allow_workspace_write_def rule_allow_covered_write_def rule_prompt_uncovered_write_def)

lemma shipped_rule_decisions [tables]:
  "pr_decision rule_allow_workspace_read = Allow"
  "pr_decision rule_allow_covered_read = Allow"
  "pr_decision rule_prompt_uncovered_read = Prompt"
  "pr_decision rule_allow_covered_network = Allow"
  "pr_decision rule_prompt_uncovered_network = Prompt"
  "pr_decision rule_allow_workspace_write = Allow"
  "pr_decision rule_allow_covered_write = Allow"
  "pr_decision rule_prompt_uncovered_write = Prompt"
  by (simp_all add: rule_allow_workspace_read_def rule_allow_covered_read_def rule_prompt_uncovered_read_def rule_allow_covered_network_def rule_prompt_uncovered_network_def rule_allow_workspace_write_def rule_allow_covered_write_def rule_prompt_uncovered_write_def)

lemma no_rule_match_denies [tables]: "rm_decision no_rule_match = Deny"
  by (simp add: no_rule_match_def)

lemma action_decision_spec: "action_decision a = policy_spec a"
  unfolding action_decision_def policy_spec_def permission_policy_rules_def
  by (cases "pa_action_kind a"; cases "pa_covered a"; cases "pa_source a = Shell_source")
     (simp_all add: shipped_rule_matches shipped_rule_decisions no_rule_match_denies
        split: option.split path_scope.split)

lemma no_match_denies:
  "\<forall>r \<in> set rules. \<not> rule_matches a r \<Longrightarrow> evaluate_action rules a = no_rule_match"
  by (induction rules) auto

lemma evaluate_action_source:
  "evaluate_action rules a = no_rule_match
   \<or> (\<exists>r \<in> set rules. rule_matches a r \<and> rm_decision (evaluate_action rules a) = pr_decision r)"
  by (induction rules) auto

lemma rule_matches_unique:
  assumes "r \<in> set permission_policy_rules" and "q \<in> set permission_policy_rules"
    and "rule_matches a r" and "rule_matches a q"
  shows "r = q"
  using assms
  by (simp add: permission_policy_rules_def)
     (elim disjE; simp add: shipped_rule_matches)

lemma evaluate_agree:
  "r \<in> set rules \<Longrightarrow> rule_matches a r \<Longrightarrow>
     \<forall>q \<in> set rules. rule_matches a q \<longrightarrow> pr_decision q = d \<Longrightarrow>
     rm_decision (evaluate_action rules a) = d"
  by (induction rules) auto

text \<open>
  The rule engine decides exactly its specification: shell network access and file access
  outside the workspace are allowed when current permissions cover them and prompted for
  otherwise, file access inside the workspace is allowed, and everything else (network access by a
  file tool, a file action with no path scope) is denied by default.
\<close>

theorem shipped_policy_decides_spec:
  "map (\<lambda>e. (pe_action e, rm_decision (pe_match e)))
       (evaluate_permission_actions actions permission_policy_rules)
   = map (\<lambda>a. (a, policy_spec a)) actions"
  using action_decision_spec
  by (simp add: evaluate_permission_actions_def action_decision_def)

text \<open>
  The order of the shipped rules does not matter. Any arrangement of the table gives every
  action the same decision, because no action matches two of its rules; a rule inserted elsewhere
  in the file cannot change what is allowed.
\<close>

theorem shipped_policy_order_irrelevant:
  assumes "set rules = set permission_policy_rules"
  shows "map (\<lambda>e. rm_decision (pe_match e)) (evaluate_permission_actions actions rules)
    = map (\<lambda>e. rm_decision (pe_match e))
        (evaluate_permission_actions actions permission_policy_rules)"
proof -
  have "rm_decision (evaluate_action rules a)
      = rm_decision (evaluate_action permission_policy_rules a)" for a
  proof (cases "\<exists>r \<in> set permission_policy_rules. rule_matches a r")
    case True
    then obtain r where r: "r \<in> set permission_policy_rules" "rule_matches a r" by blast
    then have u: "\<forall>q \<in> set permission_policy_rules. rule_matches a q \<longrightarrow> pr_decision q = pr_decision r"
      by (metis rule_matches_unique)
    have "rm_decision (evaluate_action permission_policy_rules a) = pr_decision r"
      using evaluate_agree [OF r u] .
    moreover have "rm_decision (evaluate_action rules a) = pr_decision r"
      using evaluate_agree [of r rules a "pr_decision r"] r u assms by blast
    ultimately show ?thesis by (rule trans [OF _ sym, rotated])
  next
    case False
    with assms show ?thesis by (simp add: no_match_denies)
  qed
  then show ?thesis by (simp add: evaluate_permission_actions_def)
qed

definition sample_uncovered_read :: permission_action where
  "sample_uncovered_read =
     \<lparr>pa_action_kind = Filesystem_read, pa_source = Read_tool, pa_path_scope = Some Non_workspace,
      pa_root = Some ''/etc'', pa_command_prefix = [], pa_covered = False, pa_extracted_by = None\<rparr>"

theorem shipped_policy_order_irrelevant_witness:
  "set (rev permission_policy_rules) = set permission_policy_rules
   \<and> map (\<lambda>e. rm_decision (pe_match e))
      (evaluate_permission_actions [sample_uncovered_read] (rev permission_policy_rules)) = [Prompt]"
proof -
  have "map (\<lambda>e. rm_decision (pe_match e))
      (evaluate_permission_actions [sample_uncovered_read] permission_policy_rules) = [Prompt]"
    using action_decision_spec [of sample_uncovered_read]
    by (simp add: evaluate_permission_actions_def action_decision_def policy_spec_def
        sample_uncovered_read_def)
  then show ?thesis
    using shipped_policy_order_irrelevant [of "rev permission_policy_rules" "[sample_uncovered_read]"]
    by simp
qed

end
