(* ===== verification/Permission_Actions.thy ===== *)
theory Permission_Actions
  imports Permission_Memory Policy_Engine
begin

text \<open>
  \<open>tools/_permission_actions.py\<close>: the permission action of a path, and the directory an approval
  for it is offered for.
\<close>

definition approval_scope_root :: "file_system \<Rightarrow> ppath \<Rightarrow> string" where
  "approval_scope_root fs resolved_path =
     (let c = canonicalize_path_target fs resolved_path in
      if fs_exists fs c \<and> fs_is_dir fs c then path_str c
      else
        (let parent = path_parent c in
         if fs_exists fs parent \<and> parent \<noteq> path_parent parent
         then path_str (fs_resolve fs parent)
         else path_str c))"

definition filesystem_path_permission_action ::
    "file_system \<Rightarrow> permission_state \<Rightarrow> string \<Rightarrow> permission_memory \<Rightarrow> string \<Rightarrow> action_kind
     \<Rightarrow> action_source \<Rightarrow> string \<Rightarrow> bool \<Rightarrow> (path_error, permission_action) result" where
  "filesystem_path_permission_action fs st workspace_root memory tool_path kind source extracted_by
       workspace_write_covered =
     res_bind (resolve_workspace_path fs workspace_root tool_path)
       (\<lambda>resolved. res_bind (path_is_within_workspace fs workspace_root resolved)
       (\<lambda>inside.
          let full = (ec_filesystem_access (ps_effective_capabilities st) = Full_access);
              covered =
                (if kind = Filesystem_read then full \<or> inside \<or> allows_read_path fs memory resolved
                 else if \<not> inside then full \<or> allows_write_path fs memory resolved
                 else workspace_write_covered)
          in Inr \<lparr>pa_action_kind = kind, pa_source = source,
                  pa_path_scope = Some (if inside then In_workspace else Non_workspace),
                  pa_root = Some (if inside then path_str (fs_resolve fs (parse_path workspace_root))
                                  else approval_scope_root fs resolved),
                  pa_command_prefix = [], pa_covered = covered,
                  pa_extracted_by = Some extracted_by\<rparr>))"

section \<open>The offered root covers the path it is offered for\<close>

lemma scope_root_cases:
  assumes "fs_ok fs" and "canonical p" and "canonicalize_path_target fs p = p"
  shows "\<exists>r. approval_scope_root fs p = path_str r \<and> canonical r
    \<and> canonicalize_path_target fs r = r \<and> is_relative_to p r"
proof -
  let ?q = "path_parent p"
  have self: "is_relative_to p p" by (simp add: is_relative_to_def)
  show ?thesis
  proof (cases "\<not> (fs_exists fs p \<and> fs_is_dir fs p) \<and> fs_exists fs ?q \<and> ?q \<noteq> path_parent ?q")
    case True
    then have ne: "path_parts p \<noteq> []" by (auto simp: path_parent_def)
    then have r: "fs_resolve fs ?q = ?q"
      using canonical_parent_resolves [OF assms] True by simp
    have "approval_scope_root fs p = path_str ?q"
      using True assms(3) r by (auto simp: approval_scope_root_def Let_def)
    moreover have "canonical ?q" using assms(1) r by (metis fs_ok_def)
    moreover have "canonicalize_path_target fs ?q = ?q"
      using True r by (simp add: canonicalize_path_target_def)
    moreover have "is_relative_to p ?q"
      by (simp add: is_relative_to_def path_parent_def prefixeq_butlast)
    ultimately show ?thesis by blast
  next
    case False
    then have "approval_scope_root fs p = path_str p"
      using assms(3) by (auto simp: approval_scope_root_def Let_def)
    with assms self show ?thesis by blast
  qed
qed

lemma offered_root_covers:
  assumes "fs_ok fs" and "resolve_workspace_path fs ws tool_path = Inr p"
  shows "canonicalize_permission_root fs (approval_scope_root fs p) = approval_scope_root fs p"
    and "path_is_within_root fs p (approval_scope_root fs p)"
proof -
  from resolved_path [OF assms] have p: "canonical p" "canonicalize_path_target fs p = p" by auto
  from scope_root_cases [OF assms(1) p] obtain r where
    r: "approval_scope_root fs p = path_str r" "canonical r" "canonicalize_path_target fs r = r"
    and rel: "is_relative_to p r" by blast
  then show "canonicalize_permission_root fs (approval_scope_root fs p) = approval_scope_root fs p"
    by (simp add: canonicalize_permission_root_def parse_path_str)
  show "path_is_within_root fs p (approval_scope_root fs p)"
    using r rel p(2) by (simp add: path_is_within_root_def parse_path_str)
qed

lemma path_action_fields [inversion]:
  assumes "filesystem_path_permission_action fs st ws mem tool_path kind src ex ww = Inr a"
  obtains p inside where "resolve_workspace_path fs ws tool_path = Inr p"
    and "path_is_within_workspace fs ws p = Inr inside"
    and "pa_action_kind a = kind" and "pa_source a = src"
    and "pa_path_scope a = Some (if inside then In_workspace else Non_workspace)"
    and "pa_root a = Some (if inside then path_str (fs_resolve fs (parse_path ws))
                           else approval_scope_root fs p)"
    and "pa_covered a =
      (let full = (ec_filesystem_access (ps_effective_capabilities st) = Full_access) in
       if kind = Filesystem_read then full \<or> inside \<or> allows_read_path fs mem p
       else if \<not> inside then full \<or> allows_write_path fs mem p else ww)"
  using assms by (auto simp: filesystem_path_permission_action_def Let_def)

end
