(* ===== verification/Shell_Lex.thy ===== *)
theory Shell_Lex
  imports Py_Text
begin

text \<open>
  \<open>shlex.split(command, posix=True)\<close> of the standard library, as the shell permission heuristics
  call it: comments off, white space the only separator, quotes and escapes as POSIX shells read
  them. The lexer's states are those of the library's \<open>shlex\<close> class.
\<close>

datatype lex_error = No_closing_quotation | No_escaped_character

datatype lex_state =
    Between                        \<comment> \<open>state ' ': before a word\<close>
  | In_word                        \<comment> \<open>state 'a'\<close>
  | In_quote char                  \<comment> \<open>inside the given quote\<close>
  | Escape "char option"           \<comment> \<open>after a backslash, in the given quote or in a word\<close>

definition shlex_space :: "char \<Rightarrow> bool" where
  "shlex_space c \<longleftrightarrow> c \<in> {CHR '' '', CHR 0x09, CHR 0x0D, CHR 0x0A}"

definition shlex_quote :: "char \<Rightarrow> bool" where
  "shlex_quote c \<longleftrightarrow> c \<in> {CHR 0x27, CHR 0x22}"

abbreviation backslash :: char where "backslash \<equiv> CHR 0x5C"
abbreviation double_quote :: char where "double_quote \<equiv> CHR 0x22"

text \<open>
  The word read so far, whether any part of it was quoted (an empty quoted word counts), and the
  rest of the input.
\<close>

fun shlex_run :: "lex_state \<Rightarrow> string \<Rightarrow> bool \<Rightarrow> string \<Rightarrow> (lex_error, string list) result" where
  "shlex_run Between tok quoted [] = Inr (if tok \<noteq> [] \<or> quoted then [tok] else [])"
| "shlex_run Between tok quoted (c # cs) =
     (if shlex_space c then
        (if tok \<noteq> [] \<or> quoted
         then res_bind (shlex_run Between [] False cs) (\<lambda>ts. Inr (tok # ts))
         else shlex_run Between tok quoted cs)
      else if c = backslash then shlex_run (Escape None) tok quoted cs
      else if shlex_quote c then shlex_run (In_quote c) tok quoted cs
      else shlex_run In_word [c] quoted cs)"
| "shlex_run In_word tok quoted [] = Inr (if tok \<noteq> [] \<or> quoted then [tok] else [])"
| "shlex_run In_word tok quoted (c # cs) =
     (if shlex_space c then
        (if tok \<noteq> [] \<or> quoted
         then res_bind (shlex_run Between [] False cs) (\<lambda>ts. Inr (tok # ts))
         else shlex_run Between tok quoted cs)
      else if shlex_quote c then shlex_run (In_quote c) tok quoted cs
      else if c = backslash then shlex_run (Escape None) tok quoted cs
      else shlex_run In_word (tok @ [c]) quoted cs)"
| "shlex_run (In_quote q) tok quoted [] = Inl No_closing_quotation"
| "shlex_run (In_quote q) tok quoted (c # cs) =
     (if c = q then shlex_run In_word tok True cs
      else if c = backslash \<and> q = double_quote then shlex_run (Escape (Some q)) tok True cs
      else shlex_run (In_quote q) (tok @ [c]) True cs)"
| "shlex_run (Escape e) tok quoted [] = Inl No_escaped_character"
| "shlex_run (Escape None) tok quoted (c # cs) = shlex_run In_word (tok @ [c]) quoted cs"
| "shlex_run (Escape (Some q)) tok quoted (c # cs) =
     shlex_run (In_quote q)
       (if c \<noteq> backslash \<and> c \<noteq> q then tok @ [backslash, c] else tok @ [c]) quoted cs"

definition shlex_split :: "string \<Rightarrow> (lex_error, string list) result" where
  "shlex_split s = shlex_run Between [] False s"

section \<open>Words the lexer leaves alone\<close>

definition plain_word :: "string \<Rightarrow> bool" where
  "plain_word w \<longleftrightarrow> w \<noteq> [] \<and> (\<forall>c \<in> set w. \<not> shlex_space c \<and> \<not> shlex_quote c \<and> c \<noteq> backslash)"

lemma shlex_run_word:
  "\<forall>c \<in> set w. \<not> shlex_space c \<and> \<not> shlex_quote c \<and> c \<noteq> backslash \<Longrightarrow>
     shlex_run In_word tok quoted (w @ s) = shlex_run In_word (tok @ w) quoted s"
  by (induction w arbitrary: tok) auto

lemma shlex_run_plain:
  assumes "plain_word w"
  shows "shlex_run Between [] False (w @ s) = shlex_run In_word w False s"
proof (cases w)
  case Nil
  with assms show ?thesis by (simp add: plain_word_def)
next
  case (Cons c w')
  with assms shlex_run_word [of w' "[c]" False s] show ?thesis by (simp add: plain_word_def)
qed

lemma shlex_split_plain_words:
  "\<forall>w \<in> set ws. plain_word w \<Longrightarrow> shlex_split (join '' '' ws) = Inr ws"
proof (induction ws)
  case Nil
  show ?case by (simp add: shlex_split_def)
next
  case (Cons w ws)
  then have w: "plain_word w" "w \<noteq> []" by (auto simp: plain_word_def)
  show ?case
  proof (cases ws)
    case Nil
    with w shlex_run_plain [of w "[]"] show ?thesis by (simp add: shlex_split_def)
  next
    case (Cons v vs)
    let ?rest = "join '' '' (v # vs)"
    have "shlex_split ?rest = Inr (v # vs)" using Cons.IH Cons.prems \<open>ws = v # vs\<close> by simp
    then have rest: "shlex_run Between [] False ?rest = Inr (v # vs)" by (simp only: shlex_split_def)
    have "shlex_split (join '' '' (w # ws)) = shlex_run In_word w False (CHR '' '' # ?rest)"
      using shlex_run_plain [OF w(1), of "CHR '' '' # ?rest"] \<open>ws = v # vs\<close>
      by (simp only: shlex_split_def join.simps append_Cons append_Nil)
    also have "\<dots> = Inr (w # v # vs)"
      using w(2) rest by (simp add: shlex_space_def del: join.simps)
    finally show ?thesis using \<open>ws = v # vs\<close> by simp
  qed
qed

end
