(* ===== verification/Shell_Permissions.thy ===== *)
theory Shell_Permissions
  imports Permission_Actions Shell_Lex
begin

text \<open>
  \<open>tools/_shell_permissions.py\<close>: which permission actions a shell command asks for. The command
  is split by \<open>shlex\<close>, its wrappers (\<open>env\<close>, \<open>sudo\<close>, \<open>timeout\<close>, \<open>bash -c\<close>) are taken off, and the
  words of the command below are read for network access and for paths read or written.
\<close>

section \<open>Command tables\<close>

definition network_commands :: "string list" where
  "network_commands =
     [''curl'', ''dig'', ''gh'', ''host'', ''nc'', ''nslookup'', ''ping'', ''scp'', ''sftp'', ''ssh'',
      ''telnet'', ''wget'']"

definition no_network_catch_all_commands :: "string list" where
  "no_network_catch_all_commands =
     [''awk'', ''cat'', ''code'', ''cut'', ''echo'', ''egrep'', ''fgrep'', ''grep'', ''head'', ''jq'',
      ''less'', ''more'', ''nano'', ''rg'', ''ripgrep'', ''sed'', ''sort'', ''subl'', ''tail'', ''tee'',
      ''tr'', ''uniq'', ''vim'', ''wc'', ''yq'']"

definition network_package_manager_subcommands :: "(string \<times> string list) list" where
  "network_package_manager_subcommands =
     [(''npm'', [''install'', ''i'', ''ci'', ''add'', ''update'', ''publish'']),
      (''pnpm'', [''install'', ''add'', ''update'', ''up'', ''create'', ''dlx'']),
      (''yarn'', [''install'', ''add'', ''up'', ''upgrade'', ''dlx'', ''create'']),
      (''bun'', [''install'', ''add'', ''update'', ''x'', ''create'']),
      (''pip'', [''install'', ''download'', ''wheel'']),
      (''pip3'', [''install'', ''download'', ''wheel'']),
      (''poetry'', [''install'', ''add'', ''update'', ''publish'']),
      (''cargo'', [''install'', ''search'', ''publish'', ''add'']),
      (''go'', [''get'']),
      (''uv'', [''sync'', ''lock'', ''add'', ''remove'', ''publish'', ''runx'', ''x''])]"

definition git_network_subcommands :: "string list" where
  "git_network_subcommands = [''clone'', ''fetch'', ''ls-remote'', ''pull'', ''push'']"

definition shell_wrappers :: "string list" where
  "shell_wrappers = [''bash'', ''sh'', ''dash'', ''zsh'', ''env'', ''sudo'', ''timeout'']"

definition shell_filesystem_read_commands :: "string list" where
  "shell_filesystem_read_commands =
     [''cat'', ''grep'', ''head'', ''ls'', ''rg'', ''ripgrep'', ''sed'', ''tail'']"

definition shell_filesystem_write_commands :: "string list" where
  "shell_filesystem_write_commands =
     [''chmod'', ''chown'', ''cp'', ''dd'', ''install'', ''ln'', ''mkdir'', ''mktemp'', ''mv'', ''rm'',
      ''rmdir'', ''tee'', ''touch'', ''truncate'', ''unzip'', ''zip'']"

definition source_and_destination_write_commands :: "string list" where
  "source_and_destination_write_commands = [''cp'', ''install'', ''ln'', ''mv'']"

definition write_redirection_tokens :: "string list" where
  "write_redirection_tokens = [''>'', ''>>'', ''1>'', ''1>>'', ''2>'', ''2>>'']"

definition read_redirection_tokens :: "string list" where
  "read_redirection_tokens = [''<'', ''0<'', ''<<'', ''<<<'']"

definition dd_path_keys :: "string list" where
  "dd_path_keys = [''if'', ''of'']"

lemmas shell_tables [tables] =
  network_commands_def no_network_catch_all_commands_def network_package_manager_subcommands_def
  git_network_subcommands_def shell_wrappers_def shell_filesystem_read_commands_def
  shell_filesystem_write_commands_def source_and_destination_write_commands_def
  write_redirection_tokens_def read_redirection_tokens_def dd_path_keys_def

section \<open>Words\<close>

definition before_first :: "char \<Rightarrow> string \<Rightarrow> string" where
  "before_first c s = takeWhile (\<lambda>x. x \<noteq> c) s"

definition after_first :: "char \<Rightarrow> string \<Rightarrow> string" where
  "after_first c s = tl (dropWhile (\<lambda>x. x \<noteq> c) s)"

definition ascii_lower :: "char \<Rightarrow> char" where
  "ascii_lower c =
     (let n = (of_char c :: nat) in if 65 \<le> n \<and> n \<le> 90 then char_of (n + 32) else c)"

definition ascii_letter :: "char \<Rightarrow> bool" where
  "ascii_letter c \<longleftrightarrow> (let n = (of_char c :: nat) in 65 \<le> n \<and> n \<le> 90 \<or> 97 \<le> n \<and> n \<le> 122)"

definition ascii_digit :: "char \<Rightarrow> bool" where
  "ascii_digit c \<longleftrightarrow> (let n = (of_char c :: nat) in 48 \<le> n \<and> n \<le> 57)"

text \<open>\<open>^[A-Za-z_][A-Za-z0-9_]*=.*$\<close>: the dot stops at a line feed, the dollar may stand before a last one.\<close>

definition env_assignment :: "string \<Rightarrow> bool" where
  "env_assignment t =
     (CHR ''='' \<in> set t \<and>
      (case before_first CHR ''='' t of
         [] \<Rightarrow> False
       | c # cs \<Rightarrow> (ascii_letter c \<or> c = CHR ''_'')
           \<and> (\<forall>x \<in> set cs. ascii_letter x \<or> ascii_digit x \<or> x = CHR ''_''))
      \<and> CHR 0x0A \<notin> set (butlast (after_first CHR ''='' t)))"

definition token_looks_like_network_target :: "string \<Rightarrow> bool" where
  "token_looks_like_network_target token =
     (let t = map ascii_lower token in
      contains t ''://'' \<or> startswith t ''git@'' \<or> startswith t ''ssh://''
      \<or> contains t ''github.com/'' \<or> contains t ''gitlab.com/'')"

section \<open>Wrappers\<close>

definition c_flag :: "string \<Rightarrow> bool" where
  "c_flag t \<longleftrightarrow> t = ''-c'' \<or> startswith t ''-'' \<and> CHR ''c'' \<in> set (tl t)"

fun dash_c_command :: "string list \<Rightarrow> string list option option" where
  "dash_c_command [] = None"
| "dash_c_command (t # ts) =
     (if c_flag t
      then Some (case ts of
                   [] \<Rightarrow> None
                 | n # _ \<Rightarrow> (case shlex_split n of Inl _ \<Rightarrow> None | Inr ws \<Rightarrow> Some ws))
      else dash_c_command ts)"

definition nonempty :: "'a list \<Rightarrow> 'a list option" where
  "nonempty ts = (if ts \<noteq> [] then Some ts else None)"

definition shell_dash_c_tokens :: "string list \<Rightarrow> string list option" where
  "shell_dash_c_tokens tokens =
     (case dash_c_command (tl tokens) of
        Some r \<Rightarrow> r
      | None \<Rightarrow> nonempty (tl tokens))"

definition unwrap_shell_wrapper :: "string list \<Rightarrow> string list option" where
  "unwrap_shell_wrapper tokens =
     (if hd tokens = ''env'' then nonempty (dropWhile env_assignment (tl tokens))
      else if hd tokens = ''sudo'' then nonempty (dropWhile (\<lambda>t. startswith t ''-'') (tl tokens))
      else if hd tokens = ''timeout''
        then nonempty (drop 1 (dropWhile (\<lambda>t. startswith t ''-'') (tl tokens)))
      else shell_dash_c_tokens tokens)"

function unwrap_shell_wrappers :: "nat \<Rightarrow> string list \<Rightarrow> string list option" where
  "unwrap_shell_wrappers depth tokens =
     (if tokens = [] \<or> depth > 4 then None
      else if hd tokens \<notin> set shell_wrappers then Some tokens
      else (case unwrap_shell_wrapper tokens of
              None \<Rightarrow> Some tokens
            | Some unwrapped \<Rightarrow> unwrap_shell_wrappers (depth + 1) unwrapped))"
  by pat_completeness auto
termination by (relation "measure (\<lambda>(depth, tokens). 5 - depth)") auto

declare unwrap_shell_wrappers.simps [simp del]

definition shell_command_tokens :: "string \<Rightarrow> shell_family \<Rightarrow> string list option" where
  "shell_command_tokens command family =
     (if family \<noteq> Posix then None
      else (case shlex_split command of
              Inl _ \<Rightarrow> None
            | Inr tokens \<Rightarrow> if tokens = [] then None else unwrap_shell_wrappers 0 tokens))"

section \<open>Network access\<close>

definition is_manager_subcommand :: "string \<Rightarrow> string \<Rightarrow> bool" where
  "is_manager_subcommand manager sub =
     (case map_of network_package_manager_subcommands manager of
        None \<Rightarrow> False | Some subs \<Rightarrow> sub \<in> set subs)"

definition python_command_requests_network :: "string list \<Rightarrow> bool" where
  "python_command_requests_network tokens =
     (case tokens of
        [] \<Rightarrow> False
      | t # _ \<Rightarrow>
          (if t = ''-m'' \<and> length tokens > 2 then is_manager_subcommand (tokens ! 1) (tokens ! 2)
           else False))"

definition tokens_request_network_access :: "string list \<Rightarrow> bool" where
  "tokens_request_network_access tokens =
     (if tokens = [] then False
      else
        (let executable = hd tokens in
         if executable \<in> set network_commands then True
         else if executable = ''git'' \<and> length tokens > 1
           then tokens ! 1 \<in> set git_network_subcommands
         else if map_of network_package_manager_subcommands executable \<noteq> None \<and> length tokens > 1
           then is_manager_subcommand executable (tokens ! 1)
         else if executable \<in> {''python'', ''python3'', ''python3.12''}
           then python_command_requests_network (tl tokens)
         else if executable \<in> set no_network_catch_all_commands then False
         else (\<exists>t \<in> set (tl tokens). token_looks_like_network_target t)))"

definition tokens_network_command_prefix :: "string list \<Rightarrow> string list" where
  "tokens_network_command_prefix tokens =
     (if tokens = [] then []
      else
        (let executable = hd tokens in
         if executable \<in> set network_commands then [executable]
         else if executable = ''git'' \<and> length tokens > 1 \<and> tokens ! 1 \<in> set git_network_subcommands
           then [''git'', tokens ! 1]
         else if length tokens > 1 \<and> is_manager_subcommand executable (tokens ! 1)
           then [executable, tokens ! 1]
         else []))"

definition shell_network_command_prefix :: "string \<Rightarrow> shell_family \<Rightarrow> string list" where
  "shell_network_command_prefix command family =
     (case shell_command_tokens command family of
        None \<Rightarrow> [] | Some tokens \<Rightarrow> tokens_network_command_prefix tokens)"

section \<open>Paths\<close>

definition path_candidate_from_shell_token :: "string \<Rightarrow> string option" where
  "path_candidate_from_shell_token token =
     (if startswith token ''-'' \<and> CHR ''='' \<notin> set token then None
      else
        (let candidate = (if startswith token ''-'' then after_first CHR ''='' token else token) in
         if candidate = [] then None
         else if token_looks_like_network_target candidate then None
         else if startswith candidate ''~'' then Some candidate
         else if startswith candidate ''/'' then Some candidate
         else if startswith candidate ''./'' \<or> startswith candidate ''../'' then Some candidate
         else if CHR ''/'' \<in> set candidate then Some candidate
         else None))"

definition dd_path_candidate_from_shell_token :: "string \<Rightarrow> (string \<times> string) option" where
  "dd_path_candidate_from_shell_token token =
     (if CHR ''='' \<notin> set token then None
      else
        (let key = before_first CHR ''='' token; candidate = after_first CHR ''='' token in
         if key \<notin> set dd_path_keys \<or> candidate = [] then None
         else if token_looks_like_network_target candidate then None
         else Some (key, candidate)))"

definition redirection :: "string \<Rightarrow> bool" where
  "redirection t \<longleftrightarrow> t \<in> set write_redirection_tokens \<or> t \<in> set read_redirection_tokens"

text \<open>The words after the first, each with its index and the word before it.\<close>

definition token_steps :: "string list \<Rightarrow> (nat \<times> string \<times> string) list" where
  "token_steps tokens = zip [1..<length tokens] (zip tokens (tl tokens))"

definition last_positional_path_index :: "string list \<Rightarrow> nat option" where
  "last_positional_path_index tokens =
     fold (\<lambda>(index, previous, token) last.
             if redirection previous then last
             else if path_candidate_from_shell_token token = None then last
             else Some index)
       (token_steps tokens) None"

definition write_candidate_from_token ::
    "string \<Rightarrow> string \<Rightarrow> nat \<Rightarrow> string \<Rightarrow> bool \<Rightarrow> nat option \<Rightarrow> string option \<times> bool" where
  "write_candidate_from_token executable previous index token write_command destination =
     (if executable = ''dd'' then
        (case dd_path_candidate_from_shell_token token of
           None \<Rightarrow> (None, False)
         | Some (key, path) \<Rightarrow> (Some path, key = ''of''))
      else
        (case path_candidate_from_shell_token token of
           None \<Rightarrow> (None, False)
         | Some path \<Rightarrow>
             if previous \<in> set write_redirection_tokens then (Some path, True)
             else if previous \<in> set read_redirection_tokens then (Some path, False)
             else if destination \<noteq> None then (Some path, destination = Some index)
             else (Some path, write_command)))"

section \<open>Actions\<close>

type_synonym action_acc = "permission_action list \<times> (path_scope option \<times> string option) list"

definition append_unique_filesystem_action ::
    "file_system \<Rightarrow> permission_state \<Rightarrow> string \<Rightarrow> permission_memory \<Rightarrow> string \<Rightarrow> action_kind \<Rightarrow> string
     \<Rightarrow> bool \<Rightarrow> action_acc \<Rightarrow> (path_error, action_acc) result" where
  "append_unique_filesystem_action fs st ws mem path_token kind extracted_by ww acc =
     res_bind (filesystem_path_permission_action fs st ws mem path_token kind Shell_source extracted_by ww)
       (\<lambda>a. let key = (pa_path_scope a, pa_root a) in
          if key \<in> set (snd acc) then Inr acc
          else Inr (fst acc @ [a], key # snd acc))"

definition write_action_step ::
    "file_system \<Rightarrow> permission_state \<Rightarrow> string \<Rightarrow> permission_memory \<Rightarrow> string list
     \<Rightarrow> action_acc \<Rightarrow> nat \<times> string \<times> string \<Rightarrow> (path_error, action_acc) result" where
  "write_action_step fs st ws mem tokens acc step =
     (let executable = hd tokens; (index, previous, token) = step;
          destination = (if executable \<in> set source_and_destination_write_commands
                         then last_positional_path_index tokens else None)
      in case write_candidate_from_token executable previous index token
                (executable \<in> set shell_filesystem_write_commands) destination of
           (Some path, True) \<Rightarrow>
             append_unique_filesystem_action fs st ws mem path Filesystem_write
               ''shell_write_heuristics''
               (ec_filesystem_access (ps_effective_capabilities st) \<in> {Workspace_write, Full_access}) acc
         | _ \<Rightarrow> Inr acc)"

definition tokens_write_actions ::
    "file_system \<Rightarrow> permission_state \<Rightarrow> string \<Rightarrow> permission_memory \<Rightarrow> string list
     \<Rightarrow> (path_error, permission_action list) result" where
  "tokens_write_actions fs st ws mem tokens =
     (if tokens = [] then Inr []
      else res_bind (run_steps (write_action_step fs st ws mem tokens) ([], []) (token_steps tokens))
             (\<lambda>acc. Inr (fst acc)))"

definition read_action_step ::
    "file_system \<Rightarrow> permission_state \<Rightarrow> string \<Rightarrow> permission_memory
     \<Rightarrow> action_acc \<Rightarrow> nat \<times> string \<times> string \<Rightarrow> (path_error, action_acc) result" where
  "read_action_step fs st ws mem acc step =
     (let (index, previous, token) = step in
      case path_candidate_from_shell_token token of
        None \<Rightarrow> Inr acc
      | Some path \<Rightarrow>
          if redirection previous then Inr acc
          else append_unique_filesystem_action fs st ws mem path Filesystem_read
                 ''shell_read_heuristics'' True acc)"

definition tokens_read_actions ::
    "file_system \<Rightarrow> permission_state \<Rightarrow> string \<Rightarrow> permission_memory \<Rightarrow> string list
     \<Rightarrow> (path_error, permission_action list) result" where
  "tokens_read_actions fs st ws mem tokens =
     (if tokens = [] \<or> hd tokens \<notin> set shell_filesystem_read_commands then Inr []
      else res_bind (run_steps (read_action_step fs st ws mem) ([], []) (token_steps tokens))
             (\<lambda>acc. Inr (fst acc)))"

definition network_actions ::
    "permission_state \<Rightarrow> permission_memory \<Rightarrow> string list \<Rightarrow> permission_action list" where
  "network_actions st mem tokens =
     (let prefix = tokens_network_command_prefix tokens in
      if tokens_request_network_access tokens
      then [\<lparr>pa_action_kind = Network_access, pa_source = Shell_source, pa_path_scope = None,
             pa_root = None, pa_command_prefix = prefix,
             pa_covered = (ec_network_access (ps_effective_capabilities st) = Enabled
                           \<or> prefix \<noteq> [] \<and> allows_command_prefix mem prefix),
             pa_extracted_by = Some ''shell_network_heuristics''\<rparr>]
      else [])"

definition extract_shell_permission_actions ::
    "file_system \<Rightarrow> permission_state \<Rightarrow> string \<Rightarrow> shell_family \<Rightarrow> string \<Rightarrow> permission_memory
     \<Rightarrow> (path_error, permission_action list) result" where
  "extract_shell_permission_actions fs st command family ws mem =
     (case shell_command_tokens command family of
        None \<Rightarrow> Inr []
      | Some tokens \<Rightarrow>
          res_bind (tokens_read_actions fs st ws mem tokens)
            (\<lambda>reads. res_bind (tokens_write_actions fs st ws mem tokens)
            (\<lambda>writes. Inr (network_actions st mem tokens @ reads @ writes))))"

section \<open>Wrappers are taken off\<close>

lemma unwrap_command:
  "depth \<le> 4 \<Longrightarrow> tokens \<noteq> [] \<Longrightarrow> hd tokens \<notin> set shell_wrappers \<Longrightarrow>
     unwrap_shell_wrappers depth tokens = Some tokens"
  by (simp add: unwrap_shell_wrappers.simps)

lemma sudo_unwraps:
  assumes "ts \<noteq> []" and "\<not> startswith (hd ts) ''-''"
  shows "unwrap_shell_wrapper (''sudo'' # ts) = Some ts"
  using assms by (cases ts) (auto simp: unwrap_shell_wrapper_def nonempty_def)

lemma unwrap_sudos:
  assumes "ts \<noteq> []" and "hd ts \<notin> set shell_wrappers" and "\<not> startswith (hd ts) ''-''"
  shows "unwrap_shell_wrappers depth (replicate n ''sudo'' @ ts)
    = (if depth + n \<le> 4 then Some ts else None)"
proof (induction n arbitrary: depth)
  case 0
  with assms show ?case by (simp add: unwrap_shell_wrappers.simps)
next
  case (Suc n)
  have "unwrap_shell_wrapper (''sudo'' # replicate n ''sudo'' @ ts) = Some (replicate n ''sudo'' @ ts)"
    using assms by (intro sudo_unwraps; cases n) (auto simp: startswith_def)
  then show ?case
    using Suc.IH [of "Suc depth"]
    by (subst unwrap_shell_wrappers.simps) (simp add: shell_wrappers_def)
qed

lemma plain_command_tokens:
  assumes "\<forall>w \<in> set ws. plain_word w" and "ws \<noteq> []"
  shows "shell_command_tokens (join '' '' ws) Posix = unwrap_shell_wrappers 0 ws"
  using assms by (simp add: shell_command_tokens_def shlex_split_plain_words)

section \<open>What the extracted actions look like\<close>

definition action_key :: "permission_action \<Rightarrow> path_scope option \<times> string option" where
  "action_key a = (pa_path_scope a, pa_root a)"

definition acc_ok :: "action_kind \<Rightarrow> action_acc \<Rightarrow> bool" where
  "acc_ok kind acc \<longleftrightarrow>
     set (snd acc) = action_key ` set (fst acc) \<and> distinct (map action_key (fst acc))
     \<and> (\<forall>a \<in> set (fst acc). pa_action_kind a = kind \<and> pa_source a = Shell_source
          \<and> pa_path_scope a \<noteq> None \<and> pa_root a \<noteq> None)"

lemma acc_ok_empty [simp]: "acc_ok kind ([], [])"
  by (simp add: acc_ok_def)

lemma append_unique_keeps:
  assumes "acc_ok kind acc"
    and "append_unique_filesystem_action fs st ws mem path kind ex ww acc = Inr acc'"
  shows "acc_ok kind acc'"
proof -
  from assms(2) obtain a where
    a: "filesystem_path_permission_action fs st ws mem path kind Shell_source ex ww = Inr a"
    and acc': "acc' = (if action_key a \<in> set (snd acc) then acc
                       else (fst acc @ [a], action_key a # snd acc))"
    by (auto simp: append_unique_filesystem_action_def action_key_def Let_def split: if_splits)
  have "pa_action_kind a = kind \<and> pa_source a = Shell_source \<and> pa_path_scope a \<noteq> None \<and> pa_root a \<noteq> None"
    using a by (auto elim: path_action_fields)
  with assms(1) acc' show ?thesis by (auto simp: acc_ok_def)
qed

interpretation read_scan: invariant_machine "read_action_step fs st ws mem" "acc_ok Filesystem_read"
  for fs st ws mem
  by unfold_locales
     (auto simp: read_action_step_def Let_def split: option.splits if_splits prod.splits
       dest: append_unique_keeps)

interpretation write_scan: invariant_machine "write_action_step fs st ws mem tokens"
    "acc_ok Filesystem_write"
  for fs st ws mem tokens
  by unfold_locales
     (auto simp: write_action_step_def Let_def split: option.splits if_splits prod.splits bool.splits
       dest: append_unique_keeps)

lemma read_actions_ok:
  assumes "tokens_read_actions fs st ws mem tokens = Inr as"
  shows "\<exists>seen. acc_ok Filesystem_read (as, seen)"
proof (cases "tokens = [] \<or> hd tokens \<notin> set shell_filesystem_read_commands")
  case True
  with assms have "as = []" by (auto simp: tokens_read_actions_def)
  then show ?thesis using acc_ok_empty by blast
next
  case False
  with assms obtain seen where
    "run_steps (read_action_step fs st ws mem) ([], []) (token_steps tokens) = Inr (as, seen)"
    by (auto simp: tokens_read_actions_def)
  then show ?thesis using read_scan.run_keeps [OF acc_ok_empty] by blast
qed

lemma write_actions_ok:
  assumes "tokens_write_actions fs st ws mem tokens = Inr as"
  shows "\<exists>seen. acc_ok Filesystem_write (as, seen)"
proof (cases "tokens = []")
  case True
  with assms have "as = []" by (auto simp: tokens_write_actions_def)
  then show ?thesis using acc_ok_empty by blast
next
  case False
  with assms obtain seen where
    "run_steps (write_action_step fs st ws mem tokens) ([], []) (token_steps tokens) = Inr (as, seen)"
    by (auto simp: tokens_write_actions_def)
  then show ?thesis using write_scan.run_keeps [OF acc_ok_empty] by blast
qed

lemma extracted_actions [inversion]:
  assumes "extract_shell_permission_actions fs st command family ws mem = Inr as"
  obtains net reads writes where "as = net @ reads @ writes"
    and "\<forall>a \<in> set net. pa_action_kind a = Network_access \<and> pa_source a = Shell_source"
    and "\<exists>seen. acc_ok Filesystem_read (reads, seen)"
    and "\<exists>seen. acc_ok Filesystem_write (writes, seen)"
proof (cases "shell_command_tokens command family")
  case None
  with assms have "as = []" by (simp add: extract_shell_permission_actions_def)
  moreover have "\<exists>seen. acc_ok k ([], seen)" for k using acc_ok_empty [of k] by blast
  ultimately show thesis using that [of "[]" "[]" "[]"] by simp
next
  case (Some tokens)
  with assms obtain reads writes where
    "tokens_read_actions fs st ws mem tokens = Inr reads"
    "tokens_write_actions fs st ws mem tokens = Inr writes"
    "as = network_actions st mem tokens @ reads @ writes"
    by (auto simp: extract_shell_permission_actions_def)
  then show thesis
    using that [of "network_actions st mem tokens" reads writes] read_actions_ok write_actions_ok
    by (auto simp: network_actions_def Let_def)
qed

section \<open>Properties\<close>

text \<open>
  Wrapping a command in \<open>sudo\<close> changes nothing about the permissions it asks for, up to four
  times over; the fifth wrapper makes the command unreadable to the heuristics, and a command they
  cannot read asks for no permission at all.
\<close>

theorem sudo_wrapping:
  assumes "\<forall>w \<in> set ts. plain_word w" and "ts \<noteq> []"
    and "hd ts \<notin> set shell_wrappers" and "\<not> startswith (hd ts) ''-''"
  shows "extract_shell_permission_actions fs st (join '' '' (replicate n ''sudo'' @ ts)) Posix ws mem
    = (if n \<le> 4 then extract_shell_permission_actions fs st (join '' '' ts) Posix ws mem
       else Inr [])"
proof -
  have "plain_word ''sudo''" by (simp add: plain_word_def shlex_space_def shlex_quote_def)
  then have "\<forall>w \<in> set (replicate n ''sudo'' @ ts). plain_word w" using assms(1) by auto
  then have "shell_command_tokens (join '' '' (replicate n ''sudo'' @ ts)) Posix
      = (if n \<le> 4 then Some ts else None)"
    using plain_command_tokens unwrap_sudos [OF assms(2-4), of 0 n] assms(2) by simp
  moreover have "shell_command_tokens (join '' '' ts) Posix = Some ts"
    using plain_command_tokens [OF assms(1,2)] unwrap_command [of 0 ts] assms by simp
  ultimately show ?thesis by (simp add: extract_shell_permission_actions_def)
qed

lemma curl_is_plain: "plain_word ''curl''" "plain_word ''example.org''"
  by (simp_all add: plain_word_def shlex_space_def shlex_quote_def)

lemma curl_action:
  "extract_shell_permission_actions sample_fs build_default_permission_state
     (join '' '' [''curl'', ''example.org'']) Posix ''/w'' empty_memory
   = Inr [\<lparr>pa_action_kind = Network_access, pa_source = Shell_source, pa_path_scope = None,
           pa_root = None, pa_command_prefix = [''curl''], pa_covered = False,
           pa_extracted_by = Some ''shell_network_heuristics''\<rparr>]"
proof -
  have "shell_command_tokens (join '' '' [''curl'', ''example.org'']) Posix = Some [''curl'', ''example.org'']"
    using plain_command_tokens [of "[''curl'', ''example.org'']"] curl_is_plain
    by (simp add: unwrap_command shell_wrappers_def)
  moreover have "tokens_read_actions sample_fs build_default_permission_state ''/w'' empty_memory
      [''curl'', ''example.org''] = Inr []"
    by (simp add: tokens_read_actions_def shell_filesystem_read_commands_def)
  moreover have "tokens_write_actions sample_fs build_default_permission_state ''/w'' empty_memory
      [''curl'', ''example.org''] = Inr []"
    by (simp add: tokens_write_actions_def token_steps_def write_action_step_def
        write_candidate_from_token_def path_candidate_from_shell_token_def startswith_def
        token_looks_like_network_target_def ascii_lower_def)
  ultimately show ?thesis
    by (simp add: extract_shell_permission_actions_def network_actions_def Let_def
        tokens_request_network_access_def tokens_network_command_prefix_def network_commands_def
        build_default_permission_state_def build_permission_state_def allows_command_prefix_def
        empty_memory_def)
qed

theorem sudo_wrapping_witness:
  "extract_shell_permission_actions sample_fs build_default_permission_state
     (join '' '' (replicate 5 ''sudo'' @ [''curl'', ''example.org''])) Posix ''/w'' empty_memory = Inr []
   \<and> (\<exists>a. extract_shell_permission_actions sample_fs build_default_permission_state
     (join '' '' (replicate 4 ''sudo'' @ [''curl'', ''example.org''])) Posix ''/w'' empty_memory = Inr [a]
        \<and> pa_action_kind a = Network_access \<and> \<not> pa_covered a)"
proof -
  have h: "\<forall>w \<in> set [''curl'', ''example.org'']. plain_word w" using curl_is_plain by simp
  have w: "hd [''curl'', ''example.org''] \<notin> set shell_wrappers" by (simp add: shell_wrappers_def)
  have d: "\<not> startswith (hd [''curl'', ''example.org'']) ''-''" by (simp add: startswith_def)
  show ?thesis
    using sudo_wrapping [OF h _ w d, of sample_fs build_default_permission_state 5 "''/w''" empty_memory]
      sudo_wrapping [OF h _ w d, of sample_fs build_default_permission_state 4 "''/w''" empty_memory]
      curl_action
    by (simp del: join.simps)
qed

end
