(* ===== verification/Approval.thy ===== *)
theory Approval
  imports Sandbox_Contract
begin

text \<open>
  Approval requests, the options they offer and the decisions that answer them (the second half
  of \<open>contracts/sandbox.py\<close>): the validators of the three models, \<open>normalize_approval_decision\<close>
  with its option resolution, and the fingerprint that identifies a repeated request.
\<close>

section \<open>Options, requests and decisions\<close>

record approval_option =
  ao_option_id :: string
  ao_label :: string
  ao_decision :: decision_value
  ao_granted_permissions :: "additional_permissions option"
  ao_granted_grants :: "permission_grant list"

record approval_request_base =
  rq_request_id :: string
  rq_reason :: string
  rq_requested_capabilities :: effective_capabilities
  rq_requested_permissions :: "additional_permissions option"
  rq_requested_grants :: "permission_grant list"
  rq_display_subject :: "string option"
  rq_options :: "approval_option list"

record command_execution_request = approval_request_base +
  rq_command :: string
  rq_cwd :: string
  rq_shell_family :: shell_family

record file_change_request = approval_request_base +
  rq_path :: string
  rq_change_kind :: file_change_kind

record permission_grant_request = approval_request_base +
  rq_grant_kind :: grant_kind
  rq_target :: "string option"

datatype approval_request =
    Command_execution_request command_execution_request
  | File_change_request file_change_request
  | Permission_grant_request permission_grant_request

fun request_base :: "approval_request \<Rightarrow> approval_request_base" where
  "request_base (Command_execution_request r) = approval_request_base.truncate r"
| "request_base (File_change_request r) = approval_request_base.truncate r"
| "request_base (Permission_grant_request r) = approval_request_base.truncate r"

fun request_kind_of :: "approval_request \<Rightarrow> request_kind" where
  "request_kind_of (Command_execution_request _) = Command_execution"
| "request_kind_of (File_change_request _) = File_change"
| "request_kind_of (Permission_grant_request _) = Permission_grant"

record approval_decision =
  ad_request_id :: string
  ad_decision :: decision_value
  ad_option_id :: "string option"
  ad_granted_permissions :: "additional_permissions option"
  ad_granted_grants :: "permission_grant list"

section \<open>Validators\<close>

definition validate_granted ::
    "decision_value \<Rightarrow> additional_permissions option \<Rightarrow> permission_grant list
     \<Rightarrow> (contract_error, unit) result" where
  "validate_granted d perms grants =
     (if d = Denied then ensure (perms = None \<and> grants = []) Denied_with_grants
      else if perms = None \<and> grants = [] then Inr ()
      else if perms = None then Inl Grants_without_permissions
      else if grants = [] then Inl Permissions_without_grants
      else res_bind (flatten_permission_grants grants)
             (\<lambda>f. ensure (f = perms) Grants_mismatch))"

definition validate_approval_option ::
    "approval_option \<Rightarrow> (contract_error, approval_option) result" where
  "validate_approval_option opt =
     res_bind (validate_granted (ao_decision opt) (ao_granted_permissions opt) (ao_granted_grants opt))
       (\<lambda>_. Inr opt)"

definition validate_approval_decision ::
    "approval_decision \<Rightarrow> (contract_error, approval_decision) result" where
  "validate_approval_decision d =
     res_bind (validate_granted (ad_decision d) (ad_granted_permissions d) (ad_granted_grants d))
       (\<lambda>_. Inr d)"

definition validate_approval_request ::
    "approval_request_base \<Rightarrow> (contract_error, approval_request_base) result" where
  "validate_approval_request r =
     (let perms = rq_requested_permissions r; grants = rq_requested_grants r in
      if perms = None \<and> grants = [] then Inr r
      else if perms = None then Inl Grants_without_permissions
      else if grants = [] then Inl Permissions_without_grants
      else res_bind (flatten_permission_grants grants)
        (\<lambda>f. res_bind (ensure (f = perms) Grants_mismatch)
        (\<lambda>_. res_bind (ensure (distinct (map ao_option_id (rq_options r))) Duplicate_option_ids)
        (\<lambda>_. Inr r))))"

definition valid_option :: "approval_option \<Rightarrow> bool" where
  "valid_option opt = succeeds (validate_approval_option opt)"

definition valid_decision :: "approval_decision \<Rightarrow> bool" where
  "valid_decision d = succeeds (validate_approval_decision d)"

definition valid_request :: "approval_request_base \<Rightarrow> bool" where
  "valid_request r \<longleftrightarrow>
     succeeds (validate_approval_request r) \<and> (\<forall>opt \<in> set (rq_options r). valid_option opt)"

section \<open>Resolving the selected option\<close>

fun approval_option_by_id ::
    "approval_option list \<Rightarrow> approval_decision \<Rightarrow> (contract_error, approval_option) result" where
  "approval_option_by_id [] d = Inl Unknown_option"
| "approval_option_by_id (opt # opts) d =
     (if Some (ao_option_id opt) \<noteq> ad_option_id d then approval_option_by_id opts d
      else if ao_decision opt \<noteq> ad_decision d then Inl Option_decision_mismatch
      else Inr opt)"

definition single_denied_approval_option :: "approval_option list \<Rightarrow> approval_option option" where
  "single_denied_approval_option opts =
     (case filter (\<lambda>opt. ao_decision opt = Denied) opts of
        [opt] \<Rightarrow> Some opt
      | _ \<Rightarrow> None)"

fun approved_option_for_grants ::
    "approval_option list \<Rightarrow> approval_decision \<Rightarrow> (contract_error, approval_option) result" where
  "approved_option_for_grants [] d = Inl No_matching_option"
| "approved_option_for_grants (opt # opts) d =
     (if ao_decision opt \<noteq> Approved then approved_option_for_grants opts d
      else if ao_granted_permissions opt = ad_granted_permissions d
              \<and> ao_granted_grants opt = ad_granted_grants d then Inr opt
      else approved_option_for_grants opts d)"

definition resolve_selected_approval_option ::
    "approval_request_base \<Rightarrow> approval_decision
     \<Rightarrow> (contract_error, approval_option option) result" where
  "resolve_selected_approval_option r d =
     (if rq_options r = [] then Inr None
      else if ad_option_id d \<noteq> None
        then res_bind (approval_option_by_id (rq_options r) d) (\<lambda>opt. Inr (Some opt))
      else if ad_decision d = Denied then Inr (single_denied_approval_option (rq_options r))
      else if ad_granted_permissions d \<noteq> None \<or> ad_granted_grants d \<noteq> []
        then res_bind (approved_option_for_grants (rq_options r) d) (\<lambda>opt. Inr (Some opt))
      else Inr None)"

definition normalize_approval_decision ::
    "approval_request \<Rightarrow> approval_decision \<Rightarrow> (contract_error, approval_decision) result" where
  "normalize_approval_decision request d =
     (let r = request_base request in
      if ad_request_id d \<noteq> rq_request_id r then Inl Request_id_mismatch
      else res_bind (resolve_selected_approval_option r d)
        (\<lambda>selected. case selected of
           Some opt \<Rightarrow>
             (if ao_decision opt = Denied
              then validate_approval_decision
                     \<lparr>ad_request_id = ad_request_id d, ad_decision = Denied,
                      ad_option_id = Some (ao_option_id opt),
                      ad_granted_permissions = None, ad_granted_grants = []\<rparr>
              else validate_approval_decision
                     \<lparr>ad_request_id = ad_request_id d, ad_decision = Approved,
                      ad_option_id = Some (ao_option_id opt),
                      ad_granted_permissions = ao_granted_permissions opt,
                      ad_granted_grants = ao_granted_grants opt\<rparr>)
         | None \<Rightarrow>
             if ad_decision d = Denied then Inr d
             else if rq_requested_permissions r = None then
               (if ad_granted_permissions d \<noteq> None \<or> ad_granted_grants d \<noteq> []
                then Inl Grants_not_requested else Inr d)
             else if rq_requested_grants r = [] then Inl Missing_requested_grants
             else if ad_granted_permissions d = None \<and> ad_granted_grants d = [] then
               validate_approval_decision
                 \<lparr>ad_request_id = ad_request_id d, ad_decision = ad_decision d,
                  ad_option_id = None,
                  ad_granted_permissions = rq_requested_permissions r,
                  ad_granted_grants = rq_requested_grants r\<rparr>
             else if ad_granted_permissions d \<noteq> rq_requested_permissions r
                     \<or> ad_granted_grants d \<noteq> rq_requested_grants r
               then Inl Explicit_grants_mismatch
             else Inr d))"

section \<open>Fingerprints\<close>

definition approval_request_subject :: "approval_request \<Rightarrow> string option" where
  "approval_request_subject request =
     (case rq_display_subject (request_base request) of
        Some s \<Rightarrow> Some s
      | None \<Rightarrow>
          (case request of
             Command_execution_request r \<Rightarrow> Some (rq_command r)
           | File_change_request r \<Rightarrow>
               Some ((case rq_change_kind r of Change_write \<Rightarrow> ''write'' | Change_edit \<Rightarrow> ''edit'')
                     @ '' '' @ rq_path r)
           | Permission_grant_request r \<Rightarrow>
               (case (rq_grant_kind r, rq_target r) of
                  (Grant_filesystem_read, Some t) \<Rightarrow> Some (''read '' @ t)
                | (Grant_filesystem_write, Some t) \<Rightarrow> Some (''write '' @ t)
                | (Grant_network_access, _) \<Rightarrow> Some ''network access''
                | (_, t) \<Rightarrow> t)))"

fun boundary_from_grants :: "permission_grant list \<Rightarrow> string option" where
  "boundary_from_grants [] = None"
| "boundary_from_grants (g # gs) =
     (if pg_scope g \<noteq> Session then boundary_from_grants gs
      else if pg_command_prefix g \<noteq> [] then Some (join '' '' (pg_command_prefix g))
      else (case asp_read_roots (pg_permissions g) of
              [r] \<Rightarrow> Some (''reads under '' @ r)
            | _ \<Rightarrow>
              (case asp_write_roots (pg_permissions g) of
                 [r] \<Rightarrow> Some (''writes under '' @ r)
               | _ \<Rightarrow>
                 (if asp_network_access (pg_permissions g) = Some Network_enabled
                  then Some ''network access'' else boundary_from_grants gs))))"

fun boundary_from_options :: "approval_option list \<Rightarrow> string option" where
  "boundary_from_options [] = None"
| "boundary_from_options (opt # opts) =
     (if ao_decision opt \<noteq> Approved then boundary_from_options opts
      else (case boundary_from_grants (ao_granted_grants opt) of
              Some b \<Rightarrow> Some b
            | None \<Rightarrow> boundary_from_options opts))"

definition approval_request_boundary :: "approval_request \<Rightarrow> string option" where
  "approval_request_boundary request =
     (case boundary_from_grants (rq_requested_grants (request_base request)) of
        Some b \<Rightarrow> Some b
      | None \<Rightarrow> boundary_from_options (rq_options (request_base request)))"

definition approval_request_fingerprint ::
    "approval_request \<Rightarrow> request_kind \<times> string \<times> string" where
  "approval_request_fingerprint request =
     (request_kind_of request,
      (case approval_request_subject request of Some s \<Rightarrow> s | None \<Rightarrow> []),
      (case approval_request_boundary request of Some b \<Rightarrow> b | None \<Rightarrow> []))"

section \<open>Lemmas\<close>

lemma validate_option_Inr [simp]:
  "validate_approval_option opt = Inr opt' \<longleftrightarrow> opt' = opt \<and> valid_option opt"
  by (auto simp: validate_approval_option_def valid_option_def)

lemma validate_decision_Inr [simp]:
  "validate_approval_decision d = Inr d' \<longleftrightarrow> d' = d \<and> valid_decision d"
  by (auto simp: validate_approval_decision_def valid_decision_def)

lemma option_by_id [inversion]:
  "approval_option_by_id opts d = Inr opt \<Longrightarrow>
     opt \<in> set opts \<and> ad_option_id d = Some (ao_option_id opt) \<and> ao_decision opt = ad_decision d"
  by (induction opts) (auto split: if_splits)

lemma option_for_grants [inversion]:
  "approved_option_for_grants opts d = Inr opt \<Longrightarrow>
     opt \<in> set opts \<and> ao_decision opt = Approved
     \<and> ao_granted_permissions opt = ad_granted_permissions d
     \<and> ao_granted_grants opt = ad_granted_grants d"
  by (induction opts) (auto split: if_splits)

lemma single_denied [inversion]:
  assumes "single_denied_approval_option opts = Some opt"
  shows "opt \<in> set opts \<and> ao_decision opt = Denied"
proof -
  from assms have "filter (\<lambda>opt. ao_decision opt = Denied) opts = [opt]"
    by (auto simp: single_denied_approval_option_def split: list.splits)
  then have "opt \<in> set (filter (\<lambda>opt. ao_decision opt = Denied) opts)" by simp
  then show ?thesis by simp
qed

lemma selected_option [inversion]:
  assumes "resolve_selected_approval_option r d = Inr (Some opt)"
  shows "opt \<in> set (rq_options r) \<and> ao_decision opt = ad_decision d"
proof (cases "ad_decision d")
  case Approved
  with assms show ?thesis
    by (auto simp: resolve_selected_approval_option_def split: if_splits
        dest: option_by_id option_for_grants)
next
  case Denied
  with assms show ?thesis
    by (auto simp: resolve_selected_approval_option_def split: if_splits
        dest: option_by_id single_denied)
qed

lemma normalize_cases:
  assumes "normalize_approval_decision request d = Inr d'"
  shows "ad_decision d' = ad_decision d \<and> ad_request_id d' = rq_request_id (request_base request)
    \<and> ((\<exists>opt \<in> set (rq_options (request_base request)).
            ao_decision opt = ad_decision d' \<and> ad_option_id d' = Some (ao_option_id opt)
            \<and> (ad_decision d' = Approved \<longrightarrow>
                 ad_granted_permissions d' = ao_granted_permissions opt
                 \<and> ad_granted_grants d' = ao_granted_grants opt))
         \<or> ad_granted_permissions d' = rq_requested_permissions (request_base request)
           \<and> ad_granted_grants d' = rq_requested_grants (request_base request)
         \<or> ad_granted_permissions d' = None \<and> ad_granted_grants d' = []
         \<or> d' = d \<and> ad_decision d = Denied)
    \<and> (d' = d \<or> valid_decision d')"
proof -
  let ?r = "request_base request"
  from assms obtain sel where id: "ad_request_id d = rq_request_id ?r"
    and sel: "resolve_selected_approval_option ?r d = Inr sel"
    by (auto simp: normalize_approval_decision_def Let_def split: if_splits)
  show ?thesis
  proof (cases sel)
    case None
    with assms id sel show ?thesis
      by (auto simp: normalize_approval_decision_def Let_def split: if_splits)
  next
    case (Some opt)
    with sel have opt: "opt \<in> set (rq_options ?r)" "ao_decision opt = ad_decision d"
      by (auto dest: selected_option)
    with assms id sel Some show ?thesis
      by (cases "ad_decision d") (auto simp: normalize_approval_decision_def Let_def)
  qed
qed

section \<open>Properties\<close>

text \<open>
  An approval never grants more than was asked or offered. Whenever
  \<open>normalize_approval_decision\<close> accepts an answer as approved, the permissions and grants of the
  result are those of one of the request's approved options, or exactly the requested ones, or
  none at all.
\<close>

theorem approved_grants_were_offered:
  assumes "normalize_approval_decision request d = Inr d'"
    and "ad_decision d' = Approved"
  shows "(\<exists>opt \<in> set (rq_options (request_base request)).
            ao_decision opt = Approved
            \<and> ad_granted_permissions d' = ao_granted_permissions opt
            \<and> ad_granted_grants d' = ao_granted_grants opt)
         \<or> ad_granted_permissions d' = rq_requested_permissions (request_base request)
           \<and> ad_granted_grants d' = rq_requested_grants (request_base request)
         \<or> ad_granted_permissions d' = None \<and> ad_granted_grants d' = []"
  using normalize_cases [OF assms(1)] assms(2) by auto

definition sample_network_grant :: "grant_scope \<Rightarrow> permission_grant" where
  "sample_network_grant scope =
     \<lparr>pg_permissions = \<lparr>asp_network_access = Some Network_enabled, asp_read_roots = [],
                       asp_write_roots = []\<rparr>,
      pg_scope = scope, pg_command_prefix = []\<rparr>"

definition sample_network_option :: approval_option where
  "sample_network_option =
     \<lparr>ao_option_id = ''allow-once'', ao_label = ''Allow once'', ao_decision = Approved,
      ao_granted_permissions = Some (pg_permissions (sample_network_grant Once)),
      ao_granted_grants = [sample_network_grant Once]\<rparr>"

definition sample_network_request :: approval_request where
  "sample_network_request = Command_execution_request
     \<lparr>rq_request_id = ''shell-1'', rq_reason = ''network'',
      rq_requested_capabilities = ps_effective_capabilities build_default_permission_state,
      rq_requested_permissions = Some (pg_permissions (sample_network_grant Once)),
      rq_requested_grants = [sample_network_grant Once],
      rq_display_subject = None, rq_options = [sample_network_option],
      rq_command = ''curl x'', rq_cwd = ''/w'', rq_shell_family = Posix\<rparr>"

definition sample_answer :: "string option \<Rightarrow> approval_decision" where
  "sample_answer option_id =
     \<lparr>ad_request_id = ''shell-1'', ad_decision = Approved, ad_option_id = option_id,
      ad_granted_permissions = None, ad_granted_grants = []\<rparr>"

lemmas sample_approval [tables] =
  sample_network_grant_def sample_network_option_def sample_network_request_def sample_answer_def

lemma sample_normalized:
  "normalize_approval_decision sample_network_request (sample_answer (Some ''allow-once''))
     = Inr \<lparr>ad_request_id = ''shell-1'', ad_decision = Approved, ad_option_id = Some ''allow-once'',
            ad_granted_permissions = Some (pg_permissions (sample_network_grant Once)),
            ad_granted_grants = [sample_network_grant Once]\<rparr>"
  by (simp add: tables normalize_approval_decision_def resolve_selected_approval_option_def
      approval_request_base.truncate_def valid_decision_def validate_approval_decision_def
      validate_granted_def flatten_permission_grants_def valid_permissions_def
      validate_additional_permissions_def)

theorem approved_grants_were_offered_witness:
  "\<exists>d'. normalize_approval_decision sample_network_request (sample_answer (Some ''allow-once''))
          = Inr d' \<and> ad_decision d' = Approved
        \<and> (\<exists>opt \<in> set (rq_options (request_base sample_network_request)).
             ad_granted_grants d' = ao_granted_grants opt)"
  using approved_grants_were_offered [OF sample_normalized]
  by (simp add: sample_normalized) (simp add: tables approval_request_base.truncate_def)

text \<open>
  The answer itself is never changed. A normalized decision is for the request it was checked
  against, approves exactly when the client's decision approved, and is a valid decision: a denial
  carries no grants, and an approval's permissions are its grants flattened.
\<close>

theorem normalized_decision_keeps_answer:
  assumes "normalize_approval_decision request d = Inr d'" and "valid_decision d"
  shows "ad_request_id d' = rq_request_id (request_base request)
    \<and> ad_decision d' = ad_decision d
    \<and> valid_decision d'
    \<and> (ad_decision d' = Denied \<longrightarrow> ad_granted_permissions d' = None \<and> ad_granted_grants d' = [])"
proof -
  have kept: "ad_request_id d' = rq_request_id (request_base request)" "ad_decision d' = ad_decision d"
    and v: "valid_decision d'"
    using normalize_cases [OF assms(1)] assms(2) by auto
  have "ad_granted_permissions d' = None \<and> ad_granted_grants d' = []" if "ad_decision d' = Denied"
    using v that
    by (auto simp: valid_decision_def validate_approval_decision_def validate_granted_def)
  with kept v show ?thesis by blast
qed

theorem normalized_decision_keeps_answer_witness:
  "\<exists>d'. normalize_approval_decision sample_network_request (sample_answer (Some ''allow-once''))
          = Inr d' \<and> ad_decision d' = ad_decision (sample_answer (Some ''allow-once''))
        \<and> valid_decision d'"
proof -
  have v: "valid_decision (sample_answer (Some ''allow-once''))"
    by (simp add: tables valid_decision_def validate_approval_decision_def validate_granted_def)
  show ?thesis
    using normalized_decision_keeps_answer [OF sample_normalized v] sample_normalized by blast
qed

end
