(* ===== verification/Permissions.thy ===== *)
theory Permissions
  imports Shell_Permissions Approval
begin

text \<open>
  \<open>tools/_permissions.py\<close> with the approval requirement of \<open>tools/shell.py\<close>: the execution plan of
  a shell command or a file access, the grants and options an approval offers, and the approval
  requirement a plan leads to. Random request ids and the shortened display labels are arguments.
\<close>

section \<open>Plans\<close>

datatype approval_disposition = Disp_allowed | Disp_prompt | Disp_denied_by_policy
datatype file_access_kind = Access_read | Access_write

record sandbox_execution_plan =
  sep_requested_permissions :: "additional_permissions option"
  sep_requested_capabilities :: effective_capabilities
  sep_normalized_policy :: normalized_policy
  sep_disposition :: approval_disposition

record file_access_plan =
  fap_sandbox_plan :: sandbox_execution_plan
  fap_effective_permissions :: "additional_permissions option"
  fap_tool_path :: "string option"
  fap_action :: string
  fap_access_kind :: file_access_kind
  fap_request_kind :: request_kind
  fap_approval_scope_root :: "string option"
  fap_approval_policy_label :: string

definition describe_permission_delta :: "additional_permissions option \<Rightarrow> string \<Rightarrow> string" where
  "describe_permission_delta permissions write_label =
     (case permissions of
        None \<Rightarrow> []
      | Some p \<Rightarrow>
          join ''; ''
            ((if asp_network_access p = Some Network_enabled then [''network enabled''] else [])
             @ (if asp_read_roots p \<noteq> []
                then [''read-only roots: '' @ join '', '' (asp_read_roots p)] else [])
             @ (if asp_write_roots p \<noteq> []
                then [write_label @ '': '' @ join '', '' (asp_write_roots p)] else [])))"

definition describe_shell_permission_delta :: "additional_permissions option \<Rightarrow> string" where
  "describe_shell_permission_delta permissions =
     describe_permission_delta permissions ''outside-workspace writes''"

definition extract_file_permission_actions ::
    "file_system \<Rightarrow> permission_state \<Rightarrow> string \<Rightarrow> action_source \<Rightarrow> file_access_kind \<Rightarrow> string
     \<Rightarrow> permission_memory \<Rightarrow> (path_error, permission_action list) result" where
  "extract_file_permission_actions fs st tool_path src access ws mem =
     res_bind
       (filesystem_path_permission_action fs st ws mem tool_path
          (case access of Access_read \<Rightarrow> Filesystem_read | Access_write \<Rightarrow> Filesystem_write)
          src ''tool_path_resolution'' True)
       (\<lambda>a. Inr [a])"

definition derive_sandbox_execution_plan ::
    "permission_state \<Rightarrow> request_kind \<Rightarrow> additional_permissions option
     \<Rightarrow> additional_permissions option \<Rightarrow> sandbox_execution_plan" where
  "derive_sandbox_execution_plan st kind effective approval =
     (let mode = approval_mode_for_request_kind (ps_approval_policy st) kind;
          disposition =
            (if mode = Always then Disp_prompt
             else if approval = None then Disp_allowed
             else if mode = On_escalation then Disp_prompt
             else Disp_denied_by_policy);
          normalized = (if disposition = Disp_allowed \<and> effective \<noteq> None then effective else None)
      in \<lparr>sep_requested_permissions = approval,
          sep_requested_capabilities =
            derive_requested_capabilities st
              (if disposition = Disp_allowed \<and> effective \<noteq> None then effective else approval),
          sep_normalized_policy = derive_normalized_sandbox_policy st normalized,
          sep_disposition = disposition\<rparr>)"

definition prompted_network :: "policy_evaluation list \<Rightarrow> additional_network_access option" where
  "prompted_network evals =
     (if \<exists>e \<in> set evals. pa_action_kind (pe_action e) = Network_access
                          \<and> rm_decision (pe_match e) = Prompt
      then Some Network_enabled else None)"

definition prompted_roots :: "action_kind \<Rightarrow> policy_evaluation list \<Rightarrow> string list" where
  "prompted_roots kind evals =
     map (\<lambda>e. the (pa_root (pe_action e)))
       (filter (\<lambda>e. pa_action_kind (pe_action e) = kind
                    \<and> pa_path_scope (pe_action e) = Some Non_workspace
                    \<and> rm_decision (pe_match e) = Prompt \<and> pa_root (pe_action e) \<noteq> None) evals)"

definition plan_shell_execution ::
    "file_system \<Rightarrow> permission_state \<Rightarrow> string \<Rightarrow> shell_family \<Rightarrow> string \<Rightarrow> permission_memory
     \<Rightarrow> (path_error, sandbox_execution_plan) result" where
  "plan_shell_execution fs st command family ws mem =
     res_bind (extract_shell_permission_actions fs st command family ws mem)
       (\<lambda>actions.
          let evals = evaluate_permission_actions actions permission_policy_rules;
              net = prompted_network evals;
              reads = prompted_roots Filesystem_read evals;
              writes = prompted_roots Filesystem_write evals;
              approval = (if net \<noteq> None \<or> reads \<noteq> [] \<or> writes \<noteq> []
                          then Some \<lparr>asp_network_access = net, asp_read_roots = reads,
                                     asp_write_roots = writes\<rparr>
                          else None)
          in Inr (derive_sandbox_execution_plan st Command_execution None approval))"

definition access_permissions :: "file_access_kind \<Rightarrow> string list \<Rightarrow> additional_permissions" where
  "access_permissions access roots =
     (case access of
        Access_read \<Rightarrow> \<lparr>asp_network_access = None, asp_read_roots = roots, asp_write_roots = []\<rparr>
      | Access_write \<Rightarrow> \<lparr>asp_network_access = None, asp_read_roots = [], asp_write_roots = roots\<rparr>)"

definition plan_file_access ::
    "file_system \<Rightarrow> permission_state \<Rightarrow> string option \<Rightarrow> string \<Rightarrow> file_access_kind \<Rightarrow> string
     \<Rightarrow> permission_memory \<Rightarrow> (path_error, file_access_plan) result" where
  "plan_file_access fs st tool_path action access ws mem =
     (let kind = (case access of Access_read \<Rightarrow> Permission_grant | Access_write \<Rightarrow> File_change);
          src = (case access of
                   Access_read \<Rightarrow> Read_tool
                 | Access_write \<Rightarrow> (if action = ''edit'' then Edit_tool else Write_tool))
      in res_bind
        (case tool_path of
           None \<Rightarrow> Inr []
         | Some path \<Rightarrow> extract_file_permission_actions fs st path src access ws mem)
        (\<lambda>actions.
          let outside = (actions \<noteq> [] \<and> pa_path_scope (hd actions) = Some Non_workspace);
              scope_root = (if actions \<noteq> [] then pa_root (hd actions) else None);
              evals = evaluate_permission_actions actions permission_policy_rules;
              effective =
                (if ec_filesystem_access (ps_effective_capabilities st) \<noteq> Full_access \<and> outside
                 then map_option (\<lambda>r. access_permissions access [r]) scope_root else None);
              prompted = map (\<lambda>e. the (pa_root (pe_action e)))
                           (filter (\<lambda>e. rm_decision (pe_match e) = Prompt
                                        \<and> pa_root (pe_action e) \<noteq> None) evals);
              approval = (if prompted \<noteq> [] then Some (access_permissions access prompted) else None)
          in Inr
            \<lparr>fap_sandbox_plan = derive_sandbox_execution_plan st kind effective approval,
             fap_effective_permissions = effective,
             fap_tool_path = tool_path, fap_action = action, fap_access_kind = access,
             fap_request_kind = kind, fap_approval_scope_root = scope_root,
             fap_approval_policy_label =
               describe_approval_policy_for_request_kind (ps_approval_policy st) kind\<rparr>))"

section \<open>Grants and options\<close>

definition build_permission_grants ::
    "additional_permissions option \<Rightarrow> grant_scope \<Rightarrow> grant_scope \<Rightarrow> string list \<Rightarrow> permission_grant list" where
  "build_permission_grants permissions network_scope filesystem_scope network_prefix =
     (case permissions of
        None \<Rightarrow> []
      | Some p \<Rightarrow>
          (if asp_network_access p \<noteq> None
           then [\<lparr>pg_permissions = \<lparr>asp_network_access = asp_network_access p,
                                   asp_read_roots = [], asp_write_roots = []\<rparr>,
                  pg_scope = network_scope,
                  pg_command_prefix = (if network_scope = Session then network_prefix else [])\<rparr>]
           else [])
          @ (if asp_read_roots p \<noteq> [] \<or> asp_write_roots p \<noteq> []
             then [\<lparr>pg_permissions = \<lparr>asp_network_access = None,
                                     asp_read_roots = asp_read_roots p,
                                     asp_write_roots = asp_write_roots p\<rparr>,
                    pg_scope = filesystem_scope, pg_command_prefix = []\<rparr>]
             else []))"

definition make_approval_option ::
    "string \<Rightarrow> string \<Rightarrow> decision_value \<Rightarrow> additional_permissions option \<Rightarrow> permission_grant list
     \<Rightarrow> (contract_error, approval_option) result" where
  "make_approval_option option_id label decision permissions grants =
     validate_approval_option
       \<lparr>ao_option_id = option_id, ao_label = label, ao_decision = decision,
        ao_granted_permissions = permissions, ao_granted_grants = grants\<rparr>"

definition filesystem_session_option_label :: "file_access_kind \<Rightarrow> string \<Rightarrow> string" where
  "filesystem_session_option_label access root =
     ''Allow '' @ (case access of Access_read \<Rightarrow> ''reads'' | Access_write \<Rightarrow> ''writes'')
     @ '' under '' @ root @ '' for this session''"

definition shell_network_session_option_label :: "string list \<Rightarrow> string" where
  "shell_network_session_option_label pfx =
     ''Allow '' @ join '' '' pfx @ '' for this session''"

definition build_permission_approval_options ::
    "additional_permissions \<Rightarrow> string \<Rightarrow> string option \<Rightarrow> string list
     \<Rightarrow> (contract_error, approval_option list) result" where
  "build_permission_approval_options permissions once_label session_label network_prefix =
     res_bind
       (make_approval_option ''allow-once'' once_label Approved (Some permissions)
          (build_permission_grants (Some permissions) Once Once []))
       (\<lambda>once. res_bind
         (case session_label of
            None \<Rightarrow> Inr []
          | Some label \<Rightarrow>
              res_bind
                (make_approval_option ''allow-session'' label Approved (Some permissions)
                   (build_permission_grants (Some permissions) Session Session network_prefix))
                (\<lambda>opt. Inr [opt]))
         (\<lambda>session. res_bind (make_approval_option ''deny'' ''Deny'' Denied None [])
            (\<lambda>deny. Inr ([once] @ session @ [deny]))))"

definition build_shell_approval_options ::
    "string \<Rightarrow> shell_family \<Rightarrow> additional_permissions \<Rightarrow> (contract_error, approval_option list) result" where
  "build_shell_approval_options command family permissions =
     (let pfx = shell_network_command_prefix command family;
          reads = asp_read_roots permissions; writes = asp_write_roots permissions;
          net = asp_network_access permissions;
          session_label =
            (if net \<noteq> None \<and> reads = [] \<and> writes = [] \<and> pfx \<noteq> []
               then Some (shell_network_session_option_label pfx)
             else if length reads = 1 \<and> net = None \<and> writes = []
               then Some (filesystem_session_option_label Access_read (hd reads))
             else if length writes = 1 \<and> net = None \<and> reads = []
               then Some (filesystem_session_option_label Access_write (hd writes))
             else None)
      in build_permission_approval_options permissions ''Allow once'' session_label pfx)"

section \<open>Requirements\<close>

datatype exec_approval_requirement =
    Skip_approval
  | Needs_approval approval_request string string    \<comment> \<open>denied and missing-requester messages\<close>
  | Forbidden_approval approval_request string       \<comment> \<open>denied message\<close>

definition file_access_approval_reason :: "string \<Rightarrow> file_access_plan \<Rightarrow> string" where
  "file_access_approval_reason label plan =
     (if sep_requested_permissions (fap_sandbox_plan plan) = None
      then ''allow '' @ fap_action plan @ '': '' @ label @ '' (approval policy: ''
           @ fap_approval_policy_label plan @ '')''
      else
        (let reason = ''allow '' @ fap_action plan @ '' outside workspace: '' @ label;
             detail = describe_permission_delta (sep_requested_permissions (fap_sandbox_plan plan))
                        ''writable roots''
         in if detail \<noteq> [] then reason @ '' ('' @ detail @ '')'' else reason))"

definition file_denied_message :: "string \<Rightarrow> request_kind \<Rightarrow> string \<Rightarrow> string" where
  "file_denied_message intro kind reason =
     intro @ '': '' @ reason @
     (if kind = File_change then ''. The file was not modified. Choose another approach or stop.''
      else ''. The file was not read. Choose another approach or stop.'')"

definition build_file_access_approval_request ::
    "string \<Rightarrow> string \<Rightarrow> file_access_plan \<Rightarrow> (contract_error, approval_request) result" where
  "build_file_access_approval_request uuid label plan =
     (let sp = fap_sandbox_plan plan; action = fap_action plan;
          reason = file_access_approval_reason label plan;
          subject = (case fap_tool_path plan of None \<Rightarrow> action | Some p \<Rightarrow> action @ '' '' @ p);
          grants = build_permission_grants (sep_requested_permissions sp) Once Session []
      in res_bind
        (case (sep_requested_permissions sp, fap_approval_scope_root plan) of
           (Some p, Some root) \<Rightarrow>
             build_permission_approval_options p ''Allow once''
               (Some (filesystem_session_option_label (fap_access_kind plan) root)) []
         | _ \<Rightarrow> Inr [])
        (\<lambda>options. res_bind
          (validate_approval_request
             \<lparr>rq_request_id = action @ ''-'' @ uuid, rq_reason = reason,
              rq_requested_capabilities = sep_requested_capabilities sp,
              rq_requested_permissions = sep_requested_permissions sp,
              rq_requested_grants = grants, rq_display_subject = Some subject,
              rq_options = options\<rparr>)
          (\<lambda>base. case fap_access_kind plan of
             Access_read \<Rightarrow>
               Inr (Permission_grant_request
                 (approval_request_base.extend base
                    (permission_grant_request.fields Grant_filesystem_read
                       (fap_approval_scope_root plan))))
           | Access_write \<Rightarrow>
               Inr (File_change_request
                 (approval_request_base.extend base
                    (file_change_request.fields
                       (case fap_tool_path plan of None \<Rightarrow> [] | Some p \<Rightarrow> p)
                       (if action = ''edit'' then Change_edit else Change_write)))))))"

definition capitalize :: "string \<Rightarrow> string" where
  "capitalize s =
     (case s of
        [] \<Rightarrow> []
      | c # cs \<Rightarrow>
          (let n = (of_char c :: nat) in if 97 \<le> n \<and> n \<le> 122 then char_of (n - 32) else c)
          # map ascii_lower cs)"

definition build_file_access_approval_requirement ::
    "string \<Rightarrow> string \<Rightarrow> file_access_plan \<Rightarrow> (contract_error, exec_approval_requirement) result" where
  "build_file_access_approval_requirement uuid label plan =
     (if sep_disposition (fap_sandbox_plan plan) = Disp_allowed then Inr Skip_approval
      else res_bind (build_file_access_approval_request uuid label plan)
        (\<lambda>request.
          let reason = rq_reason (request_base request); kind = request_kind_of request in
          if sep_disposition (fap_sandbox_plan plan) = Disp_denied_by_policy
          then Inr (Forbidden_approval request
                 (file_denied_message ''Approval blocked by current policy'' kind reason))
          else Inr (Needs_approval request
                 (file_denied_message ''Approval denied'' kind reason)
                 (capitalize (fap_action plan)
                  @ '' requires approval, but no approval requester is configured''))))"

definition shell_denied_message :: "string \<Rightarrow> string \<Rightarrow> string" where
  "shell_denied_message intro reason =
     intro @ '': '' @ reason @ ''. The command was not run. Choose another approach or stop.''"

definition build_shell_approval_requirement ::
    "file_system \<Rightarrow> string \<Rightarrow> string \<Rightarrow> sandbox_execution_plan \<Rightarrow> string \<Rightarrow> string \<Rightarrow> shell_family
     \<Rightarrow> (contract_error, exec_approval_requirement) result" where
  "build_shell_approval_requirement fs uuid label plan command ws family =
     (if sep_disposition plan = Disp_allowed then Inr Skip_approval
      else
        (let detail = describe_shell_permission_delta (sep_requested_permissions plan);
             reason = ''allow shell command: '' @ label
                      @ (if detail \<noteq> [] then '' ('' @ detail @ '')'' else [])
         in res_bind
           (case sep_requested_permissions plan of
              None \<Rightarrow> Inr []
            | Some p \<Rightarrow> build_shell_approval_options command family p)
           (\<lambda>options. res_bind
             (validate_approval_request
                \<lparr>rq_request_id = ''shell-'' @ uuid, rq_reason = reason,
                 rq_requested_capabilities = sep_requested_capabilities plan,
                 rq_requested_permissions = sep_requested_permissions plan,
                 rq_requested_grants =
                   build_permission_grants (sep_requested_permissions plan) Once Session [],
                 rq_display_subject = Some command, rq_options = options\<rparr>)
             (\<lambda>base.
               let request = Command_execution_request
                     (approval_request_base.extend base
                        (command_execution_request.fields command
                           (path_str (fs_resolve fs (parse_path ws))) family))
               in if sep_disposition plan = Disp_denied_by_policy
                  then Inr (Forbidden_approval request
                         (shell_denied_message ''Approval blocked by current policy'' reason))
                  else Inr (Needs_approval request
                         (shell_denied_message ''Approval denied'' reason)
                         ''Shell execution requires approval, but no approval requester is configured'')))))"

end
