(* ===== verification/Permission_Planning.thy ===== *)
theory Permission_Planning
  imports Permissions
begin

text \<open>
  What the planning functions of \<open>tools/_permissions.py\<close> decide: an abstract gate that says who may
  do what without asking, the plans of file accesses and shell commands as refinements of it, and
  the well-formedness of the requests and options that are built from a plan.
\<close>

section \<open>The gate\<close>

text \<open>An approval mode and whether current permissions cover the action decide the disposition.\<close>

definition gate :: "approval_mode \<Rightarrow> bool \<Rightarrow> approval_disposition" where
  "gate mode covered =
     (case mode of
        Always \<Rightarrow> Disp_prompt
      | On_escalation \<Rightarrow> (if covered then Disp_allowed else Disp_prompt)
      | Never \<Rightarrow> (if covered then Disp_allowed else Disp_denied_by_policy))"

lemma gate_allowed [simp]: "gate mode covered = Disp_allowed \<longleftrightarrow> mode \<noteq> Always \<and> covered"
  by (cases mode) (auto simp: gate_def)

lemma derived_disposition [simp]:
  "sep_disposition (derive_sandbox_execution_plan st kind effective approval) =
     gate (approval_mode_for_request_kind (ps_approval_policy st) kind) (approval = None)"
  by (cases "approval_mode_for_request_kind (ps_approval_policy st) kind")
     (auto simp: derive_sandbox_execution_plan_def gate_def Let_def)

lemma derived_fields [simp]:
  "sep_requested_permissions (derive_sandbox_execution_plan st kind effective approval) = approval"
  "sep_normalized_policy (derive_sandbox_execution_plan st kind effective approval) =
     derive_normalized_sandbox_policy st
       (if gate (approval_mode_for_request_kind (ps_approval_policy st) kind) (approval = None)
           = Disp_allowed then effective else None)"
  by (cases "approval_mode_for_request_kind (ps_approval_policy st) kind";
      auto simp: derive_sandbox_execution_plan_def gate_def Let_def)+

section \<open>File accesses\<close>

definition access_request_kind :: "file_access_kind \<Rightarrow> request_kind" where
  "access_request_kind access =
     (case access of Access_read \<Rightarrow> Permission_grant | Access_write \<Rightarrow> File_change)"

text \<open>
  The specification of a file access: the path is resolved; inside the workspace, with full
  access, or under a remembered root the access is covered, and otherwise one root is asked for.
\<close>

definition file_access_spec ::
    "file_system \<Rightarrow> permission_state \<Rightarrow> string option \<Rightarrow> file_access_kind \<Rightarrow> string \<Rightarrow> permission_memory
     \<Rightarrow> (path_error, approval_disposition \<times> additional_permissions option) result" where
  "file_access_spec fs st tool_path access ws mem =
     (let mode = approval_mode_for_request_kind (ps_approval_policy st) (access_request_kind access)
      in case tool_path of
        None \<Rightarrow> Inr (gate mode True, None)
      | Some path \<Rightarrow>
          res_bind (resolve_workspace_path fs ws path)
          (\<lambda>p. res_bind (path_is_within_workspace fs ws p)
          (\<lambda>inside.
             let remembered = (case access of
                   Access_read \<Rightarrow> allows_read_path fs mem p
                 | Access_write \<Rightarrow> allows_write_path fs mem p);
                 covered = (inside \<or> remembered
                   \<or> ec_filesystem_access (ps_effective_capabilities st) = Full_access)
             in Inr (gate mode covered,
                     if covered then None
                     else Some (access_permissions access [approval_scope_root fs p])))))"

lemma prompted_file_action:
  "rm_decision (evaluate_action permission_policy_rules a) = policy_spec a"
  using action_decision_spec [of a] by (simp add: action_decision_def)

lemma file_plan_refines:
  "map_sum id (\<lambda>plan. (sep_disposition (fap_sandbox_plan plan),
                       sep_requested_permissions (fap_sandbox_plan plan)))
     (plan_file_access fs st tool_path action access ws mem)
   = file_access_spec fs st tool_path access ws mem"
proof (cases tool_path)
  case None
  then show ?thesis
    by (auto simp: plan_file_access_def file_access_spec_def access_request_kind_def Let_def
        evaluate_permission_actions_def split: file_access_kind.splits)
next
  case (Some path)
  show ?thesis
  proof (cases "resolve_workspace_path fs ws path")
    case (Inl e)
    then show ?thesis
      by (simp add: Some plan_file_access_def file_access_spec_def Let_def
          extract_file_permission_actions_def filesystem_path_permission_action_def)
  next
    case (Inr p)
    show ?thesis
    proof (cases "path_is_within_workspace fs ws p")
      case (Inl e)
      with Inr show ?thesis
        by (simp add: Some plan_file_access_def file_access_spec_def Let_def
            extract_file_permission_actions_def filesystem_path_permission_action_def)
    next
      case within: (Inr inside)
      with Inr show ?thesis
        by (cases access; cases inside;
            cases "ec_filesystem_access (ps_effective_capabilities st) = Full_access")
           (simp_all add: Some plan_file_access_def file_access_spec_def Let_def
            extract_file_permission_actions_def filesystem_path_permission_action_def
            evaluate_permission_actions_def prompted_file_action policy_spec_def
            access_request_kind_def)
    qed
  qed
qed

text \<open>
  C7: planning a file access refines the specification: for every file system, permission state,
  path and memory, \<open>plan_file_access\<close> fails exactly when the path cannot be resolved against the
  workspace, and otherwise its disposition and the permissions it asks for are the specified ones:
  an access is allowed without asking only inside the workspace, under full access or under a
  remembered root, and never in the \<open>always\<close> mode; what is asked for is one root.
\<close>

theorem plan_file_access_refines:
  "map_sum id (\<lambda>plan. (sep_disposition (fap_sandbox_plan plan),
                       sep_requested_permissions (fap_sandbox_plan plan)))
     (plan_file_access fs st tool_path action access ws mem)
   = file_access_spec fs st tool_path access ws mem"
  by (rule file_plan_refines)

section \<open>Shell commands\<close>

definition uncovered_roots :: "action_kind \<Rightarrow> permission_action list \<Rightarrow> string list" where
  "uncovered_roots kind actions =
     map (\<lambda>a. the (pa_root a))
       (filter (\<lambda>a. pa_action_kind a = kind \<and> pa_path_scope a = Some Non_workspace \<and> \<not> pa_covered a)
          actions)"

definition uncovered_network :: "permission_action list \<Rightarrow> bool" where
  "uncovered_network actions \<longleftrightarrow>
     (\<exists>a \<in> set actions. pa_action_kind a = Network_access \<and> \<not> pa_covered a)"

text \<open>
  The specification of a shell plan, from the actions the command is read to ask for: allowed
  when every network use and every path outside the workspace is covered, and otherwise asking for
  exactly the uncovered ones. The sandbox policy of the plan is never widened.
\<close>

definition shell_plan_spec ::
    "permission_state \<Rightarrow> permission_action list
     \<Rightarrow> approval_disposition \<times> additional_permissions option \<times> normalized_policy" where
  "shell_plan_spec st actions =
     (let reads = uncovered_roots Filesystem_read actions;
          writes = uncovered_roots Filesystem_write actions;
          net = uncovered_network actions;
          covered = (\<not> net \<and> reads = [] \<and> writes = [])
      in (gate (approval_mode_for_request_kind (ps_approval_policy st) Command_execution) covered,
          if covered then None
          else Some \<lparr>asp_network_access = (if net then Some Network_enabled else None),
                     asp_read_roots = reads, asp_write_roots = writes\<rparr>,
          derive_normalized_sandbox_policy st None))"

definition shell_action_ok :: "permission_action \<Rightarrow> bool" where
  "shell_action_ok a \<longleftrightarrow> pa_source a = Shell_source
     \<and> (pa_action_kind a \<noteq> Network_access \<longrightarrow> pa_path_scope a \<noteq> None \<and> pa_root a \<noteq> None)"

lemma shell_actions_ok:
  assumes "extract_shell_permission_actions fs st command family ws mem = Inr actions"
  shows "\<forall>a \<in> set actions. shell_action_ok a"
  using assms by (elim extracted_actions) (auto simp: shell_action_ok_def acc_ok_def)

lemma shell_policy_spec:
  "shell_action_ok a \<Longrightarrow> policy_spec a =
     (if pa_action_kind a \<noteq> Network_access \<and> pa_path_scope a = Some In_workspace \<or> pa_covered a
      then Allow else Prompt)"
  by (auto simp: shell_action_ok_def policy_spec_def split: action_kind.splits path_scope.splits)

lemma prompted_spec:
  assumes "\<forall>a \<in> set actions. shell_action_ok a"
  shows "prompted_network (evaluate_permission_actions actions permission_policy_rules)
      = (if uncovered_network actions then Some Network_enabled else None)"
    and "kind \<noteq> Network_access \<Longrightarrow>
      prompted_roots kind (evaluate_permission_actions actions permission_policy_rules)
      = uncovered_roots kind actions"
proof -
  show "prompted_network (evaluate_permission_actions actions permission_policy_rules)
      = (if uncovered_network actions then Some Network_enabled else None)"
    using assms
    by (auto simp: prompted_network_def uncovered_network_def evaluate_permission_actions_def
        prompted_file_action shell_policy_spec split: if_splits)
next
  assume "kind \<noteq> Network_access"
  with assms show "prompted_roots kind (evaluate_permission_actions actions permission_policy_rules)
      = uncovered_roots kind actions"
    by (induction actions)
       (auto simp: prompted_roots_def uncovered_roots_def evaluate_permission_actions_def
         prompted_file_action shell_policy_spec shell_action_ok_def)
qed

lemma shell_plan_refines:
  "map_sum id (\<lambda>plan. (sep_disposition plan, sep_requested_permissions plan,
                       sep_normalized_policy plan))
     (plan_shell_execution fs st command family ws mem)
   = map_sum id (shell_plan_spec st) (extract_shell_permission_actions fs st command family ws mem)"
proof (cases "extract_shell_permission_actions fs st command family ws mem")
  case (Inl e)
  then show ?thesis by (simp add: plan_shell_execution_def)
next
  case (Inr actions)
  note ok = prompted_spec [OF shell_actions_ok [OF Inr]]
  show ?thesis
    unfolding plan_shell_execution_def shell_plan_spec_def
    by (cases "uncovered_network actions"; cases "uncovered_roots Filesystem_read actions = []";
        cases "uncovered_roots Filesystem_write actions = []")
       (simp_all add: Inr ok Let_def)
qed

text \<open>
  C38: planning a shell command refines its specification: given the actions the command is read
  to ask for, the plan is allowed exactly when the mode lets commands run unasked and every network
  use and outside path is covered; what it asks for is exactly what is uncovered; and the sandbox
  policy it runs under is the base policy, whatever was asked.
\<close>

theorem plan_shell_execution_refines:
  "map_sum id (\<lambda>plan. (sep_disposition plan, sep_requested_permissions plan,
                       sep_normalized_policy plan))
     (plan_shell_execution fs st command family ws mem)
   = map_sum id (shell_plan_spec st) (extract_shell_permission_actions fs st command family ws mem)"
  by (rule shell_plan_refines)

section \<open>Requests are well formed\<close>

definition askable :: "additional_permissions \<Rightarrow> bool" where
  "askable p \<longleftrightarrow> valid_permissions p \<and> distinct (asp_read_roots p) \<and> distinct (asp_write_roots p)"

lemma build_permission_grants_None [simp]: "build_permission_grants None ns fs pre = []"
  by (simp add: build_permission_grants_def)

lemma built_grants:
  assumes "askable p"
  shows "build_permission_grants (Some p) ns fsc pre \<noteq> []"
    and "flatten_permission_grants (build_permission_grants (Some p) ns fsc pre) = Inr (Some p)"
    and "\<forall>g \<in> set (build_permission_grants (Some p) ns fsc pre). valid_grant g"
proof -
  obtain net reads writes where p: "p = \<lparr>asp_network_access = net, asp_read_roots = reads, asp_write_roots = writes\<rparr>"
    by (cases p)
  have n: "net \<noteq> None \<longleftrightarrow> net = Some Network_enabled"
    by (metis additional_network_access.exhaust not_None_eq)
  from assms have v: "net \<noteq> None \<or> reads \<noteq> [] \<or> writes \<noteq> []" "distinct reads" "distinct writes"
    by (auto simp: p askable_def valid_permissions_iff)
  show "build_permission_grants (Some p) ns fsc pre \<noteq> []"
    using v by (auto simp: p build_permission_grants_def)
  show "flatten_permission_grants (build_permission_grants (Some p) ns fsc pre) = Inr (Some p)"
    using v by (auto simp: p build_permission_grants_def flatten_permission_grants_def
        dedup_distinct valid_permissions_iff)
  show "\<forall>g \<in> set (build_permission_grants (Some p) ns fsc pre). valid_grant g"
    using v n by (auto simp: p build_permission_grants_def valid_grant_def
        validate_permission_grant_def valid_permissions_iff)
qed

lemma made_option:
  assumes "askable p"
  shows "make_approval_option oid label Approved (Some p) (build_permission_grants (Some p) ns fsc pre)
    = Inr \<lparr>ao_option_id = oid, ao_label = label, ao_decision = Approved,
           ao_granted_permissions = Some p,
           ao_granted_grants = build_permission_grants (Some p) ns fsc pre\<rparr>"
  using built_grants [OF assms, of ns fsc pre]
  by (simp add: make_approval_option_def valid_option_def validate_approval_option_def
      validate_granted_def)

lemma made_denial:
  "make_approval_option oid label Denied None []
    = Inr \<lparr>ao_option_id = oid, ao_label = label, ao_decision = Denied,
           ao_granted_permissions = None, ao_granted_grants = []\<rparr>"
  by (simp add: make_approval_option_def valid_option_def validate_approval_option_def
      validate_granted_def)

lemma made_option_valid: "make_approval_option oid l d perms grants = Inr opt \<Longrightarrow>
    valid_option opt \<and> ao_option_id opt = oid \<and> ao_decision opt = d \<and> ao_granted_grants opt = grants"
  by (auto simp: make_approval_option_def)

text \<open>The options offered: allow once, possibly allow for the session, deny.\<close>

lemma built_options:
  assumes "askable p"
  obtains once session deny where
    "build_permission_approval_options p once_label session_label pre = Inr ([once] @ session @ [deny])"
    and "\<forall>opt \<in> set ([once] @ session @ [deny]). valid_option opt"
    and "ao_option_id once = ''allow-once''" and "ao_option_id deny = ''deny''"
    and "ao_decision once = Approved" and "ao_decision deny = Denied"
    and "ao_granted_grants once = build_permission_grants (Some p) Once Once []"
    and "session = [] \<and> session_label = None \<or> (\<exists>opt. session = [opt] \<and> session_label \<noteq> None
           \<and> ao_option_id opt = ''allow-session'' \<and> ao_decision opt = Approved
           \<and> ao_granted_grants opt = build_permission_grants (Some p) Session Session pre)"
proof -
  obtain once where once: "make_approval_option ''allow-once'' once_label Approved (Some p)
      (build_permission_grants (Some p) Once Once []) = Inr once"
    using made_option [OF assms] by blast
  obtain deny where deny: "make_approval_option ''deny'' ''Deny'' Denied None [] = Inr deny"
    using made_denial by blast
  show thesis
  proof (cases session_label)
    case None
    show ?thesis
      by (rule that [of once "[]" deny])
         (use made_option_valid [OF once] made_option_valid [OF deny] in
           \<open>auto simp: build_permission_approval_options_def once deny None\<close>)
  next
    case (Some label)
    obtain opt where opt: "make_approval_option ''allow-session'' label Approved (Some p)
        (build_permission_grants (Some p) Session Session pre) = Inr opt"
      using made_option [OF assms] by blast
    show ?thesis
      by (rule that [of once "[opt]" deny])
         (use made_option_valid [OF once] made_option_valid [OF deny] made_option_valid [OF opt] in
           \<open>auto simp: build_permission_approval_options_def once deny opt Some\<close>)
  qed
qed

lemma built_options_ok:
  assumes "askable p"
  obtains opts where "build_permission_approval_options p ol sl pre = Inr opts"
    and "distinct (map ao_option_id opts)" and "\<forall>opt \<in> set opts. valid_option opt"
proof -
  obtain once session deny where
    b: "build_permission_approval_options p ol sl pre = Inr ([once] @ session @ [deny])"
    and v: "\<forall>opt \<in> set ([once] @ session @ [deny]). valid_option opt"
    and i: "ao_option_id once = ''allow-once''" "ao_option_id deny = ''deny''"
      "session = [] \<and> sl = None \<or> (\<exists>opt. session = [opt] \<and> sl \<noteq> None
           \<and> ao_option_id opt = ''allow-session'' \<and> ao_decision opt = Approved
           \<and> ao_granted_grants opt = build_permission_grants (Some p) Session Session pre)"
    by (rule built_options [OF assms])
  have "distinct (map ao_option_id ([once] @ session @ [deny]))"
    using i by auto
  with b v that show thesis by blast
qed

lemma validated_request:
  assumes "rq_requested_permissions r = Some p" and "askable p"
    and "rq_requested_grants r = build_permission_grants (Some p) ns fsc pre"
    and "distinct (map ao_option_id (rq_options r))"
  shows "validate_approval_request r = Inr r"
  using assms built_grants [OF assms(2), of ns fsc pre]
  by (simp add: validate_approval_request_def)

lemma validated_plain_request:
  assumes "rq_requested_permissions r = None" and "rq_requested_grants r = []"
  shows "validate_approval_request r = Inr r"
  using assms by (simp add: validate_approval_request_def)

definition requirement_fits :: "approval_disposition \<Rightarrow> exec_approval_requirement \<Rightarrow> bool" where
  "requirement_fits disposition requirement =
     (case requirement of
        Skip_approval \<Rightarrow> disposition = Disp_allowed
      | Needs_approval request _ _ \<Rightarrow>
          disposition = Disp_prompt \<and> valid_request (request_base request)
      | Forbidden_approval request _ \<Rightarrow>
          disposition = Disp_denied_by_policy \<and> valid_request (request_base request))"

lemma truncate_extend [simp]:
  "approval_request_base.truncate (approval_request_base.extend b x) = (b :: approval_request_base)"
  by (simp add: approval_request_base.extend_def approval_request_base.truncate_def)

lemma distinct_uncovered:
  assumes "acc_ok kind (actions, seen)"
  shows "distinct (uncovered_roots kind actions)"
proof -
  let ?out = "filter (\<lambda>a. pa_action_kind a = kind \<and> pa_path_scope a = Some Non_workspace \<and> \<not> pa_covered a) actions"
  have "distinct (map action_key actions)" using assms by (simp add: acc_ok_def)
  then have "distinct (map action_key ?out)" by (rule distinct_map_filter)
  then have d: "distinct ?out" "inj_on action_key (set ?out)" by (auto simp: distinct_map)
  have some: "\<forall>a \<in> set ?out. pa_root a \<noteq> None \<and> pa_path_scope a = Some Non_workspace"
    using assms by (auto simp: acc_ok_def)
  have "inj_on (\<lambda>a. the (pa_root a)) (set ?out)"
  proof (rule inj_onI)
    fix a b assume ab: "a \<in> set ?out" "b \<in> set ?out" "the (pa_root a) = the (pa_root b)"
    from some ab(1,2) have "pa_root a \<noteq> None" "pa_root b \<noteq> None"
      and sc: "pa_path_scope a = pa_path_scope b" by simp_all
    with ab(3) have "pa_root a = pa_root b" by (cases "pa_root a"; cases "pa_root b") simp_all
    with sc have "action_key a = action_key b" by (simp add: action_key_def)
    with ab d(2) show "a = b" by (meson inj_onD)
  qed
  with d(1) show ?thesis by (simp add: uncovered_roots_def distinct_map)
qed

lemma uncovered_append [simp]:
  "uncovered_roots kind (xs @ ys) = uncovered_roots kind xs @ uncovered_roots kind ys"
  by (simp add: uncovered_roots_def)

lemma uncovered_other:
  "\<forall>a \<in> set actions. pa_action_kind a \<noteq> kind \<Longrightarrow> uncovered_roots kind actions = []"
  by (auto simp: uncovered_roots_def)

lemma shell_roots_distinct:
  assumes "extract_shell_permission_actions fs st command family ws mem = Inr actions"
  shows "distinct (uncovered_roots Filesystem_read actions)"
    and "distinct (uncovered_roots Filesystem_write actions)"
proof -
  obtain net reads writes s t where a: "actions = net @ reads @ writes"
    and n: "\<forall>a \<in> set net. pa_action_kind a = Network_access"
    and r: "acc_ok Filesystem_read (reads, s)" and w: "acc_ok Filesystem_write (writes, t)"
    using assms by (elim extracted_actions) blast
  have "uncovered_roots Filesystem_read net = []" "uncovered_roots Filesystem_write net = []"
    "uncovered_roots Filesystem_write reads = []" "uncovered_roots Filesystem_read writes = []"
    using n r w by (auto intro!: uncovered_other simp: acc_ok_def)
  with a distinct_uncovered [OF r] distinct_uncovered [OF w]
  show "distinct (uncovered_roots Filesystem_read actions)"
    and "distinct (uncovered_roots Filesystem_write actions)" by simp_all
qed

lemma shell_plan_fields:
  assumes "plan_shell_execution fs st command family ws mem = Inr plan"
  obtains actions where "extract_shell_permission_actions fs st command family ws mem = Inr actions"
    and "(sep_disposition plan, sep_requested_permissions plan, sep_normalized_policy plan)
      = shell_plan_spec st actions"
proof -
  have "map_sum id (\<lambda>plan. (sep_disposition plan, sep_requested_permissions plan,
                       sep_normalized_policy plan)) (Inr plan)
    = map_sum id (shell_plan_spec st) (extract_shell_permission_actions fs st command family ws mem)"
    using shell_plan_refines [of fs st command family ws mem] assms by simp
  then show thesis
    by (cases "extract_shell_permission_actions fs st command family ws mem") (auto intro: that)
qed

lemma shell_plan_askable:
  assumes "plan_shell_execution fs st command family ws mem = Inr plan"
    and "sep_requested_permissions plan = Some p"
  shows "askable p"
  using assms(1)
proof (rule shell_plan_fields)
  fix actions
  assume e: "extract_shell_permission_actions fs st command family ws mem = Inr actions"
    and f: "(sep_disposition plan, sep_requested_permissions plan, sep_normalized_policy plan)
      = shell_plan_spec st actions"
  from f assms(2) shell_roots_distinct [OF e] show "askable p"
    by (auto simp: shell_plan_spec_def askable_def valid_permissions_iff Let_def split: if_splits)
qed

lemma shell_option_shape:
  assumes "askable p"
  obtains opts where "build_shell_approval_options command family p = Inr opts"
    and "distinct (map ao_option_id opts)" and "\<forall>opt \<in> set opts. valid_option opt"
proof -
  obtain sl pre where
    b: "build_shell_approval_options command family p = build_permission_approval_options p ''Allow once'' sl pre"
    unfolding build_shell_approval_options_def Let_def by blast
  show thesis
    using built_options_ok [OF assms, of "''Allow once''" sl pre] that b by metis
qed

text \<open>
  A shell approval requirement can always be built from a shell plan, and it fits the plan: an
  allowed plan skips the approval, a prompt asks with a valid request (grants that flatten to the
  requested permissions, distinct option ids, valid options), a plan denied by policy is forbidden.
  No validator of the contract ever rejects a request the planner makes.
\<close>

theorem shell_requirement_fits:
  assumes "plan_shell_execution fs st command family ws mem = Inr plan"
  shows "\<exists>requirement.
    build_shell_approval_requirement fs uuid label plan command ws family = Inr requirement
    \<and> requirement_fits (sep_disposition plan) requirement"
proof (cases "sep_disposition plan = Disp_allowed")
  case True
  then show ?thesis by (simp add: build_shell_approval_requirement_def requirement_fits_def)
next
  case False
  show ?thesis
  proof (cases "sep_requested_permissions plan")
    case None
    with False show ?thesis
      by (cases "sep_disposition plan")
         (simp_all add: build_shell_approval_requirement_def Let_def validated_plain_request
           requirement_fits_def valid_request_def)
  next
    case (Some p)
    with assms have p: "askable p" by (rule shell_plan_askable)
    obtain opts where o: "build_shell_approval_options command family p = Inr opts"
      and d: "distinct (map ao_option_id opts)" and v: "\<forall>opt \<in> set opts. valid_option opt"
      by (rule shell_option_shape [OF p])
    show ?thesis
      using False v d
      by (cases "sep_disposition plan")
         (simp_all add: build_shell_approval_requirement_def Let_def Some o
           validated_request [OF _ p, where ns = Once and fsc = Session and pre = "[]"]
           requirement_fits_def valid_request_def)
  qed
qed

lemma file_plan_fields:
  assumes "plan_file_access fs st tool_path action access ws mem = Inr plan"
  shows "file_access_spec fs st tool_path access ws mem
      = Inr (sep_disposition (fap_sandbox_plan plan), sep_requested_permissions (fap_sandbox_plan plan))"
    and "fap_access_kind plan = access" and "fap_action plan = action" and "fap_tool_path plan = tool_path"
proof -
  show "file_access_spec fs st tool_path access ws mem
      = Inr (sep_disposition (fap_sandbox_plan plan), sep_requested_permissions (fap_sandbox_plan plan))"
    using file_plan_refines [of fs st tool_path action access ws mem] assms by simp
  show "fap_access_kind plan = access" and "fap_action plan = action" and "fap_tool_path plan = tool_path"
    using assms by (auto simp: plan_file_access_def Let_def)
qed

lemma access_askable [simp]: "askable (access_permissions access [r])"
  by (cases access) (simp_all add: askable_def access_permissions_def valid_permissions_iff)

lemma file_plan_askable:
  assumes "plan_file_access fs st tool_path action access ws mem = Inr plan"
    and "sep_requested_permissions (fap_sandbox_plan plan) = Some p"
  shows "askable p"
  using file_plan_fields(1) [OF assms(1)] assms(2)
  by (auto simp: file_access_spec_def Let_def split: option.splits if_splits)

text \<open>The request of a file access, and its options, for a plan that asks for permissions.\<close>

lemma file_request_built:
  assumes "sep_requested_permissions (fap_sandbox_plan plan) = Some p" and "askable p"
  shows "\<exists>request. build_file_access_approval_request uuid label plan = Inr request
    \<and> valid_request (request_base request)"
proof -
  obtain opts where o: "(case (sep_requested_permissions (fap_sandbox_plan plan), fap_approval_scope_root plan) of
           (Some p, Some root) \<Rightarrow>
             build_permission_approval_options p ''Allow once''
               (Some (filesystem_session_option_label (fap_access_kind plan) root)) []
         | _ \<Rightarrow> Inr []) = Inr opts"
    and d: "distinct (map ao_option_id opts)" and v: "\<forall>opt \<in> set opts. valid_option opt"
  proof (cases "fap_approval_scope_root plan")
    case None
    with assms that [of "[]"] show thesis by simp
  next
    case (Some root)
    show thesis
      using built_options_ok [OF assms(2), of "''Allow once''"
          "Some (filesystem_session_option_label (fap_access_kind plan) root)" "[]"] that
      by (simp add: Some assms(1)) blast
  qed
  show ?thesis
    using d v unfolding build_file_access_approval_request_def Let_def o
    by (cases "fap_access_kind plan")
       (simp_all add: assms(1) valid_request_def
         validated_request [OF _ assms(2), where ns = Once and fsc = Session and pre = "[]"])
qed

lemma file_request_plain:
  assumes "sep_requested_permissions (fap_sandbox_plan plan) = None"
  shows "\<exists>request. build_file_access_approval_request uuid label plan = Inr request
    \<and> valid_request (request_base request)"
  unfolding build_file_access_approval_request_def Let_def
  by (cases "fap_access_kind plan"; cases "fap_approval_scope_root plan")
     (simp_all add: assms valid_request_def validated_plain_request)

lemma file_requirement_ok:
  assumes "plan_file_access fs st tool_path action access ws mem = Inr plan"
  shows "\<exists>requirement. build_file_access_approval_requirement uuid label plan = Inr requirement
    \<and> requirement_fits (sep_disposition (fap_sandbox_plan plan)) requirement"
proof -
  obtain request where r: "build_file_access_approval_request uuid label plan = Inr request"
    and v: "valid_request (request_base request)"
    using file_request_built file_request_plain file_plan_askable [OF assms]
    by (cases "sep_requested_permissions (fap_sandbox_plan plan)") blast+
  show ?thesis
    using v by (cases "sep_disposition (fap_sandbox_plan plan)")
      (simp_all add: build_file_access_approval_requirement_def r requirement_fits_def Let_def)
qed

text \<open>
  A file access requirement can always be built from a file access plan, and it fits the plan:
  allowed accesses skip the approval, prompts carry a valid request, and accesses denied by policy
  are forbidden with the request they were denied for.
\<close>

theorem file_requirement_fits:
  assumes "plan_file_access fs st tool_path action access ws mem = Inr plan"
  shows "\<exists>requirement. build_file_access_approval_requirement uuid label plan = Inr requirement
    \<and> requirement_fits (sep_disposition (fap_sandbox_plan plan)) requirement"
  using assms by (rule file_requirement_ok)

section \<open>Concrete plans\<close>

lemma sample_resolved:
  "resolve_workspace_path sample_fs ''/w'' ''/home/u/k'' = Inr (PPath 1 [''home'', ''u'', ''k''])"
  "path_is_within_workspace sample_fs ''/w'' (PPath 1 [''home'', ''u'', ''k'']) = Inr False"
  "approval_scope_root sample_fs (PPath 1 [''home'', ''u'', ''k'']) = ''/home/u''"
  by code_simp+

lemma sample_read_prompts:
  "file_access_spec sample_fs build_default_permission_state (Some ''/home/u/k'') Access_read ''/w''
     empty_memory = Inr (Disp_prompt, Some (access_permissions Access_read [''/home/u'']))"
  by code_simp

lemma sample_read_plan:
  "\<exists>plan. plan_file_access sample_fs build_default_permission_state (Some ''/home/u/k'') ''read''
            Access_read ''/w'' empty_memory = Inr plan
          \<and> sep_disposition (fap_sandbox_plan plan) = Disp_prompt"
  using file_plan_refines [of sample_fs build_default_permission_state "Some ''/home/u/k''" "''read''"
      Access_read "''/w''" empty_memory] sample_read_prompts
  by (cases "plan_file_access sample_fs build_default_permission_state (Some ''/home/u/k'') ''read''
            Access_read ''/w'' empty_memory") auto

theorem file_requirement_fits_witness:
  "\<exists>plan requirement. plan_file_access sample_fs build_default_permission_state (Some ''/home/u/k'')
       ''read'' Access_read ''/w'' empty_memory = Inr plan
     \<and> build_file_access_approval_requirement ''id'' ''/home/u/k'' plan = Inr requirement
     \<and> requirement_fits Disp_prompt requirement"
  using sample_read_plan file_requirement_fits by metis

lemma curl_plan:
  "\<exists>plan. plan_shell_execution sample_fs build_default_permission_state ''curl example.org'' Posix
            ''/w'' empty_memory = Inr plan \<and> sep_disposition plan = Disp_prompt"
proof -
  have "map_sum id sep_disposition (plan_shell_execution sample_fs build_default_permission_state
      ''curl example.org'' Posix ''/w'' empty_memory) = Inr Disp_prompt" by code_simp
  then show ?thesis
    by (cases "plan_shell_execution sample_fs build_default_permission_state
      ''curl example.org'' Posix ''/w'' empty_memory") auto
qed

theorem shell_requirement_fits_witness:
  "\<exists>plan requirement. plan_shell_execution sample_fs build_default_permission_state
       ''curl example.org'' Posix ''/w'' empty_memory = Inr plan
     \<and> build_shell_approval_requirement sample_fs ''id'' ''curl'' plan ''curl example.org'' ''/w'' Posix
         = Inr requirement
     \<and> requirement_fits Disp_prompt requirement"
  using curl_plan shell_requirement_fits by metis

text \<open>
  A file under the user's home directory is asked for when its absolute name is used and read
  without asking when it is written with a tilde, because the words of a command are resolved
  against the workspace without expanding \<open>~\<close>.
\<close>

theorem tilde_reads_are_not_prompted:
  "map_sum id sep_disposition
      (plan_shell_execution sample_fs build_default_permission_state ''cat /home/u/k'' Posix ''/w''
         empty_memory) = Inr Disp_prompt
   \<and> map_sum id sep_disposition
      (plan_shell_execution sample_fs build_default_permission_state ''cat ~/k'' Posix ''/w''
         empty_memory) = Inr Disp_allowed"
  by code_simp

end
