(* ===== verification/Approval_Flow.thy ===== *)
theory Approval_Flow
  imports Permission_Planning
begin

text \<open>
  \<open>tools/_approval_flow.py\<close> and the file access runtime of \<open>tools/_permissions.py\<close>: asking the
  client, denying by policy, and remembering what was approved. The requester of the surrounding
  run is a parameter (a function from the request to an answer or a failure, or none at all); the
  permission memory, an object the code mutates, is passed in and returned.
\<close>

section \<open>The flow\<close>

type_synonym approval_requester = "approval_request \<Rightarrow> (string, approval_decision) result"

datatype flow_error =
    Missing_requester string
  | Requester_failed string
  | Invalid_decision contract_error
  | Approval_denied string request_kind "string option"
  | Policy_denied string request_kind "string option"
  | Invalid_request contract_error
  | Path_failed path_error

definition resolve_tool_approval ::
    "file_system \<Rightarrow> approval_requester option \<Rightarrow> approval_request \<Rightarrow> string \<Rightarrow> string
     \<Rightarrow> permission_memory \<Rightarrow> (flow_error, approval_decision \<times> permission_memory) result" where
  "resolve_tool_approval fs requester request denied_message missing_requester_message mem =
     (case requester of
        None \<Rightarrow> Inl (Missing_requester missing_requester_message)
      | Some ask \<Rightarrow>
          (case ask request of
             Inl e \<Rightarrow> Inl (Requester_failed e)
           | Inr answer \<Rightarrow>
               (case normalize_approval_decision request answer of
                  Inl e \<Rightarrow> Inl (Invalid_decision e)
                | Inr decision \<Rightarrow>
                    if ad_decision decision \<noteq> Approved
                    then Inl (Approval_denied denied_message (request_kind_of request)
                                (approval_request_subject request))
                    else Inr (decision,
                              remember_approved_grants fs (ad_granted_grants decision) mem))))"

definition deny_tool_by_policy ::
    "approval_request \<Rightarrow> string \<Rightarrow> (flow_error, permission_memory) result" where
  "deny_tool_by_policy request denied_message =
     Inl (Policy_denied denied_message (request_kind_of request) (approval_request_subject request))"

definition fulfill_approval_requirement ::
    "file_system \<Rightarrow> approval_requester option \<Rightarrow> exec_approval_requirement \<Rightarrow> permission_memory
     \<Rightarrow> (flow_error, permission_memory) result" where
  "fulfill_approval_requirement fs requester requirement mem =
     (case requirement of
        Skip_approval \<Rightarrow> Inr mem
      | Forbidden_approval request denied_message \<Rightarrow> deny_tool_by_policy request denied_message
      | Needs_approval request denied_message missing_message \<Rightarrow>
          res_bind (resolve_tool_approval fs requester request denied_message missing_message mem)
            (\<lambda>(decision, mem'). Inr mem'))"

definition build_file_access_runtime ::
    "file_system \<Rightarrow> string \<Rightarrow> string \<Rightarrow> permission_state \<Rightarrow> string option \<Rightarrow> string
     \<Rightarrow> file_access_kind \<Rightarrow> string \<Rightarrow> permission_memory
     \<Rightarrow> (flow_error, file_access_plan \<times> exec_approval_requirement) result" where
  "build_file_access_runtime fs uuid label st tool_path action access ws mem =
     res_bind (lift_error Path_failed (plan_file_access fs st tool_path action access ws mem))
       (\<lambda>plan. res_bind
          (lift_error Invalid_request (build_file_access_approval_requirement uuid label plan))
          (\<lambda>requirement. Inr (plan, requirement)))"

definition approved_file_access_plan ::
    "file_system \<Rightarrow> approval_requester option \<Rightarrow> string \<Rightarrow> string \<Rightarrow> permission_state
     \<Rightarrow> string option \<Rightarrow> string \<Rightarrow> file_access_kind \<Rightarrow> string \<Rightarrow> permission_memory
     \<Rightarrow> (flow_error, file_access_plan \<times> permission_memory) result" where
  "approved_file_access_plan fs requester uuid label st tool_path action access ws mem =
     res_bind (build_file_access_runtime fs uuid label st tool_path action access ws mem)
       (\<lambda>(plan, requirement).
          res_bind (fulfill_approval_requirement fs requester requirement mem)
            (\<lambda>mem'. Inr (plan, mem')))"

definition approved_read_only_filesystem_policy ::
    "file_system \<Rightarrow> approval_requester option \<Rightarrow> string \<Rightarrow> string \<Rightarrow> permission_state
     \<Rightarrow> string option \<Rightarrow> string \<Rightarrow> string \<Rightarrow> permission_memory
     \<Rightarrow> (flow_error, filesystem_policy \<times> permission_memory) result" where
  "approved_read_only_filesystem_policy fs requester uuid label st tool_path action ws mem =
     res_bind
       (approved_file_access_plan fs requester uuid label st tool_path action Access_read ws mem)
       (\<lambda>(plan, mem').
          Inr (np_filesystem (derive_normalized_sandbox_policy st (fap_effective_permissions plan)),
               mem'))"

definition maybe_request_file_write_approval ::
    "file_system \<Rightarrow> approval_requester option \<Rightarrow> string \<Rightarrow> string \<Rightarrow> permission_state
     \<Rightarrow> string \<Rightarrow> string \<Rightarrow> string \<Rightarrow> permission_memory
     \<Rightarrow> (flow_error, permission_memory) result" where
  "maybe_request_file_write_approval fs requester uuid label st tool_path action ws mem =
     res_bind
       (approved_file_access_plan fs requester uuid label st (Some tool_path) action Access_write
          ws mem)
       (\<lambda>(plan, mem'). Inr mem')"

section \<open>What an approval leaves behind\<close>

lemma resolved_approval [inversion]:
  assumes "resolve_tool_approval fs requester request dm mm mem = Inr (decision, mem')"
  obtains ask answer where "requester = Some ask" and "ask request = Inr answer"
    and "normalize_approval_decision request answer = Inr decision"
    and "ad_decision decision = Approved"
    and "mem' = remember_approved_grants fs (ad_granted_grants decision) mem"
  using assms
  by (auto simp: resolve_tool_approval_def split: option.splits sum.splits if_splits)

lemma fulfilled [inversion]:
  assumes "fulfill_approval_requirement fs requester requirement mem = Inr mem'"
  obtains "requirement = Skip_approval" and "mem' = mem"
  | request dm mm decision where "requirement = Needs_approval request dm mm"
    and "resolve_tool_approval fs requester request dm mm mem = Inr (decision, mem')"
  using assms
  by (auto simp: fulfill_approval_requirement_def deny_tool_by_policy_def
      split: exec_approval_requirement.splits)

lemma approved_plan [inversion]:
  assumes "approved_file_access_plan fs requester uuid label st tool_path action access ws mem
    = Inr (plan, mem')"
  obtains requirement where "plan_file_access fs st tool_path action access ws mem = Inr plan"
    and "build_file_access_approval_requirement uuid label plan = Inr requirement"
    and "fulfill_approval_requirement fs requester requirement mem = Inr mem'"
  using assms by (auto simp: approved_file_access_plan_def build_file_access_runtime_def)

section \<open>Properties\<close>

lemma access_authority:
  assumes "approved_file_access_plan fs requester uuid label st tool_path action access ws mem
    = Inr (plan, mem')"
  shows "(\<exists>asked. file_access_spec fs st tool_path access ws mem = Inr (Disp_allowed, asked))
      \<and> mem' = mem
    \<or> (\<exists>asked ask request answer decision.
        file_access_spec fs st tool_path access ws mem = Inr (Disp_prompt, asked)
        \<and> requester = Some ask \<and> ask request = Inr answer
        \<and> build_file_access_approval_request uuid label plan = Inr request
        \<and> valid_request (request_base request)
        \<and> normalize_approval_decision request answer = Inr decision
        \<and> ad_decision decision = Approved
        \<and> mem' = remember_approved_grants fs (ad_granted_grants decision) mem)"
  using assms
proof (rule approved_plan)
  fix requirement
  assume p: "plan_file_access fs st tool_path action access ws mem = Inr plan"
    and r: "build_file_access_approval_requirement uuid label plan = Inr requirement"
    and f: "fulfill_approval_requirement fs requester requirement mem = Inr mem'"
  from file_requirement_ok [OF p, of uuid label] r
  have fits: "requirement_fits (sep_disposition (fap_sandbox_plan plan)) requirement" by simp
  note spec = file_plan_fields(1) [OF p]
  from f show ?thesis
  proof (cases rule: fulfilled)
    case 1
    with fits spec show ?thesis by (simp add: requirement_fits_def)
  next
    case (2 request dm mm decision)
    with fits have d: "sep_disposition (fap_sandbox_plan plan) = Disp_prompt"
      and v: "valid_request (request_base request)" by (simp_all add: requirement_fits_def)
    from r 2(1) d have "build_file_access_approval_request uuid label plan = Inr request"
      by (auto simp: build_file_access_approval_requirement_def Let_def)
    with 2(2) v spec d show ?thesis by (elim resolved_approval) auto
  qed
qed

text \<open>
  C3: no file tool gets past the gate on its own authority. When the access runtime lets an access
  through, either the specification allows it without asking, and the memory is unchanged, or the
  specification says to prompt and the client was asked with a valid request for the permissions
  of the plan, its answer was accepted as an approval, and the memory changed by exactly the grants
  of that decision.
\<close>

theorem file_access_needs_authority:
  assumes "approved_file_access_plan fs requester uuid label st tool_path action access ws mem
    = Inr (plan, mem')"
  shows "(\<exists>asked. file_access_spec fs st tool_path access ws mem = Inr (Disp_allowed, asked))
      \<and> mem' = mem
    \<or> (\<exists>asked ask request answer decision.
        file_access_spec fs st tool_path access ws mem = Inr (Disp_prompt, asked)
        \<and> requester = Some ask \<and> ask request = Inr answer
        \<and> build_file_access_approval_request uuid label plan = Inr request
        \<and> valid_request (request_base request)
        \<and> normalize_approval_decision request answer = Inr decision
        \<and> ad_decision decision = Approved
        \<and> mem' = remember_approved_grants fs (ad_granted_grants decision) mem)"
  using assms by (rule access_authority)

definition sample_yes :: "string option \<Rightarrow> approval_requester" where
  "sample_yes option_id request = Inr
     \<lparr>ad_request_id = rq_request_id (request_base request), ad_decision = Approved,
      ad_option_id = option_id, ad_granted_permissions = None, ad_granted_grants = []\<rparr>"

definition sample_access :: "string option \<Rightarrow> (flow_error, file_access_plan \<times> permission_memory) result" where
  "sample_access option_id =
     approved_file_access_plan sample_fs (Some (sample_yes option_id)) ''id'' ''/home/u/k''
       build_default_permission_state (Some ''/home/u/k'') ''read'' Access_read ''/w'' empty_memory"

lemma sample_session_access:
  "map_sum id (\<lambda>(plan, mem). (sep_disposition (fap_sandbox_plan plan), pm_read_roots mem))
     (sample_access (Some ''allow-session'')) = Inr (Disp_prompt, {''/home/u''})"
  unfolding sample_access_def by code_simp

lemma sample_once_access:
  "map_sum id (\<lambda>(plan, mem). (sep_disposition (fap_sandbox_plan plan), pm_read_roots mem))
     (sample_access (Some ''allow-once'')) = Inr (Disp_prompt, {})"
  unfolding sample_access_def by code_simp

section \<open>Approving for the session\<close>

text \<open>An answer that picks the session option, or approves the request as it stands.\<close>

definition session_answer :: "approval_decision \<Rightarrow> bool" where
  "session_answer d \<longleftrightarrow> ad_option_id d = Some ''allow-session''
     \<or> ad_option_id d = None \<and> ad_granted_permissions d = None \<and> ad_granted_grants d = []"

definition once_answer :: "approval_decision \<Rightarrow> bool" where
  "once_answer d \<longleftrightarrow> ad_option_id d = Some ''allow-once''"

lemma found_by_id:
  assumes "approval_option_by_id opts d = Inr opt"
  shows "opt \<in> set opts \<and> Some (ao_option_id opt) = ad_option_id d"
  using option_by_id [OF assms] by simp

lemma answered_with_option:
  assumes "normalize_approval_decision request d = Inr d'" and "ad_decision d' = Approved"
    and "ad_option_id d = Some oid" and "rq_options (request_base request) \<noteq> []"
  obtains opt where "opt \<in> set (rq_options (request_base request))" and "ao_option_id opt = oid"
    and "ad_granted_grants d' = ao_granted_grants opt"
proof -
  from assms obtain opt where o: "approval_option_by_id (rq_options (request_base request)) d = Inr opt"
    and g: "ad_granted_grants d' = ao_granted_grants opt"
    by (auto simp: normalize_approval_decision_def resolve_selected_approval_option_def Let_def
        split: if_splits)
  from found_by_id [OF o] assms(3) g that show thesis by auto
qed

lemma answered_plainly:
  assumes "normalize_approval_decision request d = Inr d'" and "ad_decision d' = Approved"
    and "ad_option_id d = None" and "ad_granted_permissions d = None" and "ad_granted_grants d = []"
    and "rq_requested_permissions (request_base request) = Some p"
  shows "ad_granted_grants d' = rq_requested_grants (request_base request)"
  using assms normalize_cases [OF assms(1)]
  by (auto simp: normalize_approval_decision_def resolve_selected_approval_option_def Let_def
      split: if_splits)

text \<open>The request of a prompted access: what it asks for and what its options grant.\<close>

lemma file_request_shape:
  assumes "build_file_access_approval_request uuid label plan = Inr request"
    and "sep_requested_permissions (fap_sandbox_plan plan) = Some p" and "askable p"
    and "fap_approval_scope_root plan = Some root"
  shows "rq_requested_permissions (request_base request) = Some p
    \<and> rq_requested_grants (request_base request) = build_permission_grants (Some p) Once Session []
    \<and> rq_options (request_base request) \<noteq> []
    \<and> (\<forall>opt \<in> set (rq_options (request_base request)).
         (ao_option_id opt = ''allow-session'' \<longrightarrow>
            ao_granted_grants opt = build_permission_grants (Some p) Session Session [])
         \<and> (ao_option_id opt = ''allow-once'' \<longrightarrow>
            ao_granted_grants opt = build_permission_grants (Some p) Once Once []))"
proof -
  let ?sl = "Some (filesystem_session_option_label (fap_access_kind plan) root)"
  obtain once session deny where
    b: "build_permission_approval_options p ''Allow once'' ?sl [] = Inr ([once] @ session @ [deny])"
    and i: "ao_option_id once = ''allow-once''" "ao_option_id deny = ''deny''"
      "ao_granted_grants once = build_permission_grants (Some p) Once Once []"
      "session = [] \<and> ?sl = None \<or> (\<exists>opt. session = [opt] \<and> ?sl \<noteq> None
           \<and> ao_option_id opt = ''allow-session'' \<and> ao_decision opt = Approved
           \<and> ao_granted_grants opt = build_permission_grants (Some p) Session Session [])"
    by (rule built_options [OF assms(3)])
  have opts: "rq_options (request_base request) = [once] @ session @ [deny]"
    "rq_requested_permissions (request_base request) = Some p"
    "rq_requested_grants (request_base request) = build_permission_grants (Some p) Once Session []"
    using assms(1) b
    by (cases "fap_access_kind plan";
        auto simp: build_file_access_approval_request_def Let_def assms(2,4)
          validate_approval_request_def split: if_splits)+
  show ?thesis using i by (auto simp: opts)
qed

lemma granted_access_remembered:
  assumes "g \<in> set gs" and "pg_scope g = Session"
    and "pg_permissions g = access_permissions access [approval_scope_root fs p]"
    and "fs_ok fs" and "resolve_workspace_path fs ws tool_path = Inr p"
  shows "case access of
      Access_read \<Rightarrow> allows_read_path fs (remember_approved_grants fs gs mem) p
    | Access_write \<Rightarrow> allows_write_path fs (remember_approved_grants fs gs mem) p"
  using assms(1-3) offered_root_covers [OF assms(4,5)]
  by (cases access) (auto simp: allows_after_grants grant_covers_read_def grant_covers_write_def
      access_permissions_def intro!: disjI1 bexI [of _ g])

lemma access_grants [simp]:
  "build_permission_grants (Some (access_permissions access [r])) ns fsc pre
   = [\<lparr>pg_permissions = access_permissions access [r], pg_scope = fsc, pg_command_prefix = []\<rparr>]"
  by (cases access) (simp_all add: build_permission_grants_def access_permissions_def)

lemma spec_asked:
  assumes "file_access_spec fs st (Some path) access ws mem = Inr (disp, Some asked)"
  obtains p where "resolve_workspace_path fs ws path = Inr p"
    and "asked = access_permissions access [approval_scope_root fs p]"
  using assms by (auto simp: file_access_spec_def Let_def split: if_splits)

lemma spec_remembered:
  assumes "file_access_spec fs st (Some path) access ws mem = Inr x"
    and "resolve_workspace_path fs ws path = Inr p"
    and "case access of Access_read \<Rightarrow> allows_read_path fs mem' p
                      | Access_write \<Rightarrow> allows_write_path fs mem' p"
    and "approval_mode_for_request_kind (ps_approval_policy st) (access_request_kind access) \<noteq> Always"
  shows "file_access_spec fs st (Some path) access ws mem' = Inr (Disp_allowed, None)"
proof -
  from assms(1,2) obtain inside where "path_is_within_workspace fs ws p = Inr inside"
    by (auto simp: file_access_spec_def)
  with assms(2-4) show ?thesis
    by (cases access) (simp_all add: file_access_spec_def)
qed

lemma prompted_asks:
  assumes "file_access_spec fs st (Some path) access ws mem = Inr (Disp_prompt, asked)"
    and "approval_mode_for_request_kind (ps_approval_policy st) (access_request_kind access) \<noteq> Always"
  shows "asked \<noteq> None"
  using assms
  by (cases "approval_mode_for_request_kind (ps_approval_policy st) (access_request_kind access)")
     (auto simp: file_access_spec_def gate_def Let_def split: if_splits)

lemma file_plan_scope_root:
  assumes "plan_file_access fs st (Some path) action access ws mem = Inr plan"
    and "sep_requested_permissions (fap_sandbox_plan plan) \<noteq> None"
  shows "\<exists>root. fap_approval_scope_root plan = Some root"
  using assms(1)
  by (auto simp: plan_file_access_def extract_file_permission_actions_def Let_def
      elim: path_action_fields)


lemma sample_access_Inr:
  "\<exists>plan mem'. sample_access (Some ''allow-session'') = Inr (plan, mem') \<and> pm_read_roots mem' = {''/home/u''}"
  using sample_session_access by (cases "sample_access (Some ''allow-session'')") auto


text \<open>
  An approval for once leaves nothing behind: whatever access is let through with the
  once option, the permission memory afterwards is the memory before, so the next access of the
  same path is asked for again.
\<close>

theorem once_approval_forgotten:
  assumes "approved_file_access_plan fs (Some ask) uuid label st (Some path) action access ws mem
      = Inr (plan, mem')"
    and "approval_mode_for_request_kind (ps_approval_policy st) (access_request_kind access) \<noteq> Always"
    and "\<And>request answer. ask request = Inr answer \<Longrightarrow> once_answer answer"
  shows "mem' = mem"
proof -
  obtain requirement where p: "plan_file_access fs st (Some path) action access ws mem = Inr plan"
    and r: "build_file_access_approval_requirement uuid label plan = Inr requirement"
    and f: "fulfill_approval_requirement fs (Some ask) requirement mem = Inr mem'"
    using assms(1) by (rule approved_plan)
  note spec = file_plan_fields(1) [OF p]
  show ?thesis
    using f
  proof (cases rule: fulfilled)
    case 1
    then show ?thesis by simp
  next
    case (2 request dm mm decision)
    with file_requirement_ok [OF p, of uuid label] r
    have d: "sep_disposition (fap_sandbox_plan plan) = Disp_prompt"
      by (simp add: requirement_fits_def)
    with spec assms(2) obtain asked where a: "sep_requested_permissions (fap_sandbox_plan plan) = Some asked"
      by (metis prompted_asks not_None_eq)
    obtain root where root: "fap_approval_scope_root plan = Some root"
      using file_plan_scope_root [OF p] a by auto
    have b: "build_file_access_approval_request uuid label plan = Inr request"
      using r 2(1) d by (auto simp: build_file_access_approval_requirement_def Let_def)
    note shape = file_request_shape [OF b a file_plan_askable [OF p a] root]
    obtain answer where ans: "ask request = Inr answer"
      and n: "normalize_approval_decision request answer = Inr decision"
      and ok: "ad_decision decision = Approved"
      and m: "mem' = remember_approved_grants fs (ad_granted_grants decision) mem"
      using 2(2) by (auto elim: resolved_approval)
    have oid: "ad_option_id answer = Some ''allow-once''"
      using assms(3) [OF ans] by (simp add: once_answer_def)
    have "ad_granted_grants decision = build_permission_grants (Some asked) Once Once []"
      using answered_with_option [OF n ok oid] shape by metis
    then have "\<forall>g \<in> set (ad_granted_grants decision). pg_scope g = Once"
      by (auto simp: build_permission_grants_def split: if_splits)
    then show ?thesis using m once_grants_forgotten by simp
  qed
qed

theorem once_approval_forgotten_witness:
  "\<exists>plan. sample_access (Some ''allow-once'') = Inr (plan, empty_memory)"
proof -
  obtain plan mem' where a: "sample_access (Some ''allow-once'') = Inr (plan, mem')"
    using sample_once_access by (cases "sample_access (Some ''allow-once'')") auto
  have mode: "approval_mode_for_request_kind (ps_approval_policy build_default_permission_state)
      (access_request_kind Access_read) \<noteq> Always"
    by code_simp
  have "mem' = empty_memory"
  proof (rule once_approval_forgotten [OF a [unfolded sample_access_def] mode])
    fix request answer
    assume "sample_yes (Some ''allow-once'') request = Inr answer"
    then show "once_answer answer" by (auto simp: sample_yes_def once_answer_def)
  qed
  with a show ?thesis by (intro exI) simp
qed

theorem file_access_needs_authority_witness:
  "\<exists>plan mem'. sample_access (Some ''allow-session'') = Inr (plan, mem')
     \<and> (\<exists>ask request answer decision. Some (sample_yes (Some ''allow-session'')) = Some ask
          \<and> ask request = Inr answer
          \<and> normalize_approval_decision request answer = Inr decision
          \<and> mem' = remember_approved_grants sample_fs (ad_granted_grants decision) empty_memory)"
proof -
  obtain plan mem' where a: "sample_access (Some ''allow-session'') = Inr (plan, mem')"
    using sample_access_Inr by blast
  have "file_access_spec sample_fs build_default_permission_state (Some ''/home/u/k'') Access_read
      ''/w'' empty_memory \<noteq> Inr (Disp_allowed, asked)" for asked
    by (simp add: sample_read_prompts)
  with file_access_needs_authority [OF a [unfolded sample_access_def]] a show ?thesis by metis
qed

end
