(* ===== verification/Py_Search.thy ===== *)
theory Py_Search
  imports Py_Text
begin

text \<open>
  Searching and replacing in Python strings: \<open>str.find\<close>, \<open>str.count\<close> (occurrences that do not
  overlap) and \<open>str.replace\<close>, for a searched text that is not empty.
\<close>

section \<open>Definitions\<close>

fun find_sub :: "'a list \<Rightarrow> 'a list \<Rightarrow> nat option" where
  "find_sub sub [] = (if sub = [] then Some 0 else None)"
| "find_sub sub (c # s) = (if startswith (c # s) sub then Some 0 else map_option Suc (find_sub sub s))"

function count_sub :: "'a list \<Rightarrow> 'a list \<Rightarrow> nat" where
  "count_sub sub s =
     (if sub = [] then length s + 1
      else if s = [] then 0
      else if startswith s sub then Suc (count_sub sub (drop (length sub) s))
      else count_sub sub (tl s))"
  by pat_completeness auto
termination by (relation "measure (\<lambda>(sub, s). length s)") auto

function replace_all :: "'a list \<Rightarrow> 'a list \<Rightarrow> 'a list \<Rightarrow> 'a list" where
  "replace_all old new s =
     (if old = [] \<or> s = [] then s
      else if startswith s old then new @ replace_all old new (drop (length old) s)
      else hd s # replace_all old new (tl s))"
  by pat_completeness auto
termination by (relation "measure (\<lambda>(old, new, s). length s)") auto

declare count_sub.simps [simp del] replace_all.simps [simp del]

definition replace_first :: "'a list \<Rightarrow> 'a list \<Rightarrow> 'a list \<Rightarrow> 'a list" where
  "replace_first old new s =
     (case find_sub old s of
        None \<Rightarrow> s
      | Some i \<Rightarrow> take i s @ new @ drop (i + length old) s)"

section \<open>Occurrences\<close>

lemma startswith_iff: "startswith s p \<longleftrightarrow> (\<exists>t. s = p @ t)"
  by (auto simp: startswith_def prefix_def)

lemma find_sub_Some:
  assumes "find_sub sub s = Some i"
  shows "take i s @ sub @ drop (i + length sub) s = s \<and> i + length sub \<le> length s"
  using assms
proof (induction s arbitrary: i)
  case Nil
  then show ?case by (simp split: if_splits)
next
  case (Cons c s)
  show ?case
  proof (cases "startswith (c # s) sub")
    case True
    then obtain t where "c # s = sub @ t" by (auto simp: startswith_iff)
    moreover have "i = 0" using Cons.prems True by simp
    ultimately show ?thesis by simp
  next
    case False
    with Cons.prems obtain j where "find_sub sub s = Some j" "i = Suc j" by auto
    with Cons.IH show ?thesis by simp
  qed
qed

lemma find_sub_None: "find_sub sub s = None \<longleftrightarrow> (\<forall>a b. s \<noteq> a @ sub @ b)"
proof (induction s)
  case Nil
  then show ?case by auto
next
  case IH: (Cons c s)
  show ?case
  proof
    assume n: "find_sub sub (c # s) = None"
    show "\<forall>a b. c # s \<noteq> a @ sub @ b"
    proof (intro allI notI)
      fix a b assume e: "c # s = a @ sub @ b"
      show False
      proof (cases a)
        case Nil
        with e have "startswith (c # s) sub" by (auto simp: startswith_iff)
        with n show ?thesis by simp
      next
        case (Cons d a')
        with e have "s = a' @ sub @ b" by simp
        with n IH show ?thesis by (auto split: if_splits)
      qed
    qed
  next
    assume n: "\<forall>a b. c # s \<noteq> a @ sub @ b"
    then have "\<not> startswith (c # s) sub" by (metis append_Nil startswith_iff)
    moreover from n have "\<forall>a b. s \<noteq> a @ sub @ b" by (metis append_Cons)
    ultimately show "find_sub sub (c # s) = None" using IH by simp
  qed
qed

lemma count_sub_pos: "sub \<noteq> [] \<Longrightarrow> 0 < count_sub sub s \<longleftrightarrow> find_sub sub s \<noteq> None"
proof (induction sub s rule: count_sub.induct)
  case (1 sub s)
  show ?case
  proof (cases "s = [] \<or> startswith s sub")
    case True
    with 1(3) show ?thesis by (subst count_sub.simps) (cases s; auto)
  next
    case False
    with 1 show ?thesis by (subst count_sub.simps) (cases s; auto)
  qed
qed

lemma replace_first_occurrence:
  assumes "sub \<noteq> []" and "0 < count_sub sub s"
  obtains a b where "s = a @ sub @ b" and "replace_first sub new s = a @ new @ b"
proof -
  from assms obtain i where i: "find_sub sub s = Some i" by (auto simp: count_sub_pos)
  from find_sub_Some [OF i] that [of "take i s" "drop (i + length sub) s"] i
  show ?thesis by (simp add: replace_first_def)
qed

section \<open>Replacing one character\<close>

lemma replace_all_char: "replace_all [c] new s = concat (map (\<lambda>d. if d = c then new else [d]) s)"
proof (induction s)
  case Nil
  show ?case by (simp add: replace_all.simps)
next
  case (Cons d s)
  then show ?case
    by (subst replace_all.simps) (auto simp: startswith_def)
qed

lemma concat_map_singletons [simp]: "concat (map (\<lambda>d. [f d]) s) = map f s"
  by (induction s) auto

end
