(* ===== verification/Edit_Tool.thy ===== *)
theory Edit_Tool
  imports Py_Search Workspace_Paths
begin

text \<open>
  The engine of \<open>tools/edit.py\<close>: line endings, the exact match and the normalized fallback with its
  map from the normalized view back to the text, and \<open>execute_edit\<close> with \<open>execute_write\<close> of
  \<open>tools/write.py\<close>, over the contents of the files. NFKC normalization (the tables of
  \<open>unicodedata\<close>) and the diff of \<open>difflib\<close> are parameters.
\<close>

section \<open>Line endings\<close>

definition bom :: nat where
  "bom = 65279"

definition strip_bom :: "ustr \<Rightarrow> ustr \<times> ustr" where
  "strip_bom content = (if startswith content [bom] then ([bom], tl content) else ([], content))"

definition crlf :: ustr where
  "crlf = [13, 10]"

definition detect_line_ending :: "ustr \<Rightarrow> ustr" where
  "detect_line_ending content =
     (case find_sub [10] content of
        None \<Rightarrow> [10]
      | Some lf_index \<Rightarrow>
          (case find_sub crlf content of
             None \<Rightarrow> [10]
           | Some crlf_index \<Rightarrow> if crlf_index < lf_index then crlf else [10]))"

definition normalize_to_lf :: "ustr \<Rightarrow> ustr" where
  "normalize_to_lf s = replace_all [13] [10] (replace_all crlf [10] s)"

definition restore_line_endings :: "ustr \<Rightarrow> ustr \<Rightarrow> ustr" where
  "restore_line_endings s ending = (if ending = crlf then replace_all [10] crlf s else s)"

section \<open>The normalized view\<close>

text \<open>Quotes, dashes and spaces that are read as their ASCII forms, replaced one after the other.\<close>

definition unicode_variants :: "(nat \<times> nat) list" where
  "unicode_variants =
     [(8216, 39), (8217, 39), (8218, 39), (8219, 39), (8220, 34), (8221, 34), (8222, 34), (8223, 34),
      (8208, 45), (8209, 45), (8210, 45), (8211, 45), (8212, 45), (8213, 45), (8722, 45),
      (160, 32), (8194, 32), (8195, 32), (8196, 32), (8197, 32), (8198, 32), (8199, 32), (8200, 32),
      (8201, 32), (8202, 32), (8239, 32), (8287, 32), (12288, 32)]"

definition normalize_unicode_variants :: "ustr \<Rightarrow> ustr" where
  "normalize_unicode_variants s = fold (\<lambda>(a, b). replace_all [a] [b]) unicode_variants s"

definition normalize_for_fuzzy_match :: "(ustr \<Rightarrow> ustr) \<Rightarrow> ustr \<Rightarrow> ustr" where
  "normalize_for_fuzzy_match nfkc s = normalize_unicode_variants (nfkc s)"

text \<open>
  The view with the span of the text each of its characters comes from: trailing white space of a
  line has no view, and a character may be viewed as several.
\<close>

type_synonym spanned = "(nat \<times> nat \<times> nat) list"

fun fuzzy_line :: "(ustr \<Rightarrow> ustr) \<Rightarrow> nat \<Rightarrow> ustr \<Rightarrow> spanned" where
  "fuzzy_line nfkc start [] = []"
| "fuzzy_line nfkc start (c # cs) =
     map (\<lambda>d. (d, start, start + 1)) (normalize_for_fuzzy_match nfkc [c])
     @ fuzzy_line nfkc (start + 1) cs"

fun fuzzy_lines :: "(ustr \<Rightarrow> ustr) \<Rightarrow> nat \<Rightarrow> ustr list \<Rightarrow> spanned" where
  "fuzzy_lines nfkc source_index [] = []"
| "fuzzy_lines nfkc source_index [line] = fuzzy_line nfkc source_index (rstrip line)"
| "fuzzy_lines nfkc source_index (line # next # lines) =
     fuzzy_line nfkc source_index (rstrip line)
     @ (10, source_index + length line, source_index + length line + 1)
       # fuzzy_lines nfkc (source_index + length line + 1) (next # lines)"

definition build_fuzzy_view :: "(ustr \<Rightarrow> ustr) \<Rightarrow> ustr \<Rightarrow> ustr \<times> (nat \<times> nat) list" where
  "build_fuzzy_view nfkc s =
     (let view = fuzzy_lines nfkc 0 (split_on 10 s) in (map fst view, map snd view))"

section \<open>The edit of a text\<close>

datatype edit_error =
    Match_count nat | Would_not_change | Span_index_error

text \<open>
  What is replaced, in the text with line feeds only. With an empty view of the searched text and an
  empty view of the file, the code asks for the spans of no character: an \<open>IndexError\<close>.
\<close>

definition text_to_replace ::
    "(ustr \<Rightarrow> ustr) \<Rightarrow> ustr \<Rightarrow> ustr \<Rightarrow> (edit_error, ustr) result" where
  "text_to_replace nfkc content old_text =
     (let exact_occurrences = count_sub old_text content in
      if 1 < exact_occurrences then Inl (Match_count exact_occurrences)
      else if exact_occurrences = 1 then Inr old_text
      else
        (let (fuzzy_content, fuzzy_spans) = build_fuzzy_view nfkc content;
             (fuzzy_old_text, _) = build_fuzzy_view nfkc old_text;
             fuzzy_occurrences = count_sub fuzzy_old_text fuzzy_content
         in if fuzzy_occurrences \<noteq> 1 then Inl (Match_count fuzzy_occurrences)
            else if fuzzy_spans = [] then Inl Span_index_error
            else
              (let match_start = the (find_sub fuzzy_old_text fuzzy_content);
                   match_end = match_start + length fuzzy_old_text;
                   first = fst (fuzzy_spans ! match_start);
                   past = snd (fuzzy_spans ! (match_end - 1))
               in Inr (take (past - first) (drop first content)))))"

record edit_outcome =
  eo_base :: ustr
  eo_updated :: ustr
  eo_final :: ustr

definition edit_text ::
    "(ustr \<Rightarrow> ustr) \<Rightarrow> ustr \<Rightarrow> ustr \<Rightarrow> ustr \<Rightarrow> (edit_error, edit_outcome) result" where
  "edit_text nfkc raw_content old_text new_text =
     (let (mark, content) = strip_bom raw_content;
          original_line_ending = detect_line_ending content;
          base = normalize_to_lf content
      in res_bind (text_to_replace nfkc base (normalize_to_lf old_text))
           (\<lambda>replaced.
              let updated = replace_first replaced (normalize_to_lf new_text) base
              in if updated = base then Inl Would_not_change
                 else Inr \<lparr>eo_base = base, eo_updated = updated,
                           eo_final = mark @ restore_line_endings updated original_line_ending\<rparr>))"

definition is_diff_header :: "ustr \<Rightarrow> bool" where
  "is_diff_header line \<longleftrightarrow>
     startswith line (lit ''--- '') \<or> startswith line (lit ''+++ '') \<or> startswith line (lit ''@@'')"

definition count_changed_lines :: "ustr \<Rightarrow> nat \<times> nat" where
  "count_changed_lines diff_text =
     fold (\<lambda>line (added, removed).
             if is_diff_header line then (added, removed)
             else if startswith line (lit ''+'') then (Suc added, removed)
             else if startswith line (lit ''-'') then (added, Suc removed)
             else (added, removed))
       (splitlines diff_text) (0, 0)"

section \<open>Files\<close>

datatype file_body = Utf8_text ustr | Other_bytes

type_synonym file_store = "ppath \<rightharpoonup> file_body"

datatype tool_failure =
    Tool_path_error | Workspace_path_error path_error | Tool_encoding_error
  | Tool_match_error edit_error | Tool_index_error

text \<open>
  What the operating system lets the process write is a parameter, and so is the diff. A path that
  has no text or is a directory cannot be read.
\<close>

record edit_result =
  er_path :: string
  er_diff :: ustr
  er_added_lines :: nat
  er_removed_lines :: nat

definition execute_edit ::
    "(ustr \<Rightarrow> ustr) \<Rightarrow> (string \<Rightarrow> ustr list \<Rightarrow> ustr list \<Rightarrow> ustr) \<Rightarrow> (ppath \<Rightarrow> bool) \<Rightarrow> file_system
     \<Rightarrow> string \<Rightarrow> string \<Rightarrow> ustr \<Rightarrow> ustr \<Rightarrow> file_store
     \<Rightarrow> file_store \<times> (tool_failure, edit_result) result" where
  "execute_edit nfkc unified_diff writable fs workspace_root path old_text new_text store =
     (case resolve_workspace_path fs workspace_root path of
        Inl e \<Rightarrow> (store, Inl (Workspace_path_error e))
      | Inr resolved \<Rightarrow>
          (case store resolved of
             None \<Rightarrow> (store, Inl Tool_path_error)
           | Some Other_bytes \<Rightarrow> (store, Inl Tool_encoding_error)
           | Some (Utf8_text raw_content) \<Rightarrow>
               (case edit_text nfkc raw_content old_text new_text of
                  Inl Span_index_error \<Rightarrow> (store, Inl Tool_index_error)
                | Inl e \<Rightarrow> (store, Inl (Tool_match_error e))
                | Inr outcome \<Rightarrow>
                    (let diff_text = unified_diff (path_str resolved)
                           (splitlines_keep (eo_base outcome)) (splitlines_keep (eo_updated outcome));
                         (added, removed) = count_changed_lines diff_text
                     in if \<not> writable resolved then (store, Inl Tool_path_error)
                        else (store(resolved \<mapsto> Utf8_text (eo_final outcome)),
                              Inr \<lparr>er_path = path_str resolved, er_diff = diff_text,
                                   er_added_lines = added, er_removed_lines = removed\<rparr>)))))"

definition execute_write ::
    "(ppath \<Rightarrow> bool) \<Rightarrow> file_system \<Rightarrow> string \<Rightarrow> string \<Rightarrow> ustr \<Rightarrow> file_store
     \<Rightarrow> file_store \<times> (tool_failure, string) result" where
  "execute_write writable fs workspace_root path content store =
     (case resolve_workspace_path fs workspace_root path of
        Inl e \<Rightarrow> (store, Inl (Workspace_path_error e))
      | Inr resolved \<Rightarrow>
          if \<not> writable resolved then (store, Inl Tool_path_error)
          else (store(resolved \<mapsto> Utf8_text content), Inr (''Wrote '' @ path_str resolved)))"

section \<open>Line endings come back\<close>

lemma crlf_not_lf [simp]: "crlf \<noteq> [10]" "[10] \<noteq> crlf"
  by (simp_all add: crlf_def)

lemma normalized_chars [simp]: "13 \<notin> set (normalize_to_lf s)"
  by (auto simp: normalize_to_lf_def replace_all_char)

lemma replace_all_absent: "old \<noteq> [] \<Longrightarrow> hd old \<notin> set s \<Longrightarrow> replace_all old new s = s"
proof (induction s)
  case Nil
  show ?case by (simp add: replace_all.simps)
next
  case (Cons c s)
  then have "\<not> startswith (c # s) old" by (cases old) (auto simp: startswith_iff)
  with Cons show ?case by (subst replace_all.simps) simp
qed

lemma normalize_lf_only: "13 \<notin> set s \<Longrightarrow> normalize_to_lf s = s"
  by (simp add: normalize_to_lf_def replace_all_absent crlf_def)

lemma restore_concat:
  "restore_line_endings s ending = (if ending = crlf then concat (map (\<lambda>c. if c = 10 then crlf else [c]) s) else s)"
  by (simp add: restore_line_endings_def replace_all_char)

lemma restore_append [simp]:
  "restore_line_endings (s @ t) ending = restore_line_endings s ending @ restore_line_endings t ending"
  by (simp add: restore_concat)

lemma replace_crlf_restored:
  "13 \<notin> set s \<Longrightarrow> replace_all crlf [10] (concat (map (\<lambda>c. if c = 10 then crlf else [c]) s)) = s"
proof (induction s)
  case Nil
  show ?case by (simp add: replace_all.simps)
next
  case (Cons c s)
  then show ?case
    by (subst replace_all.simps) (auto simp: crlf_def startswith_def)
qed

text \<open>A text has one line ending when it has no carriage return of its own.\<close>

definition uniform :: "ustr \<Rightarrow> ustr \<Rightarrow> bool" where
  "uniform s ending \<longleftrightarrow> 13 \<notin> set s \<and> (ending = [10] \<or> ending = crlf \<and> 10 \<in> set s)"

lemma normalize_restored:
  assumes "uniform s ending"
  shows "normalize_to_lf (restore_line_endings s ending) = s"
proof (cases "ending = crlf")
  case True
  with assms show ?thesis
    by (simp add: uniform_def restore_concat normalize_to_lf_def replace_crlf_restored replace_all_absent)
next
  case False
  with assms show ?thesis by (simp add: uniform_def restore_concat normalize_lf_only)
qed

lemma find_lf_restored:
  "10 \<in> set s \<Longrightarrow> 13 \<notin> set s \<Longrightarrow>
    \<exists>i. find_sub crlf (concat (map (\<lambda>c. if c = 10 then crlf else [c]) s)) = Some i
      \<and> find_sub [10] (concat (map (\<lambda>c. if c = 10 then crlf else [c]) s)) = Some (Suc i)"
proof (induction s)
  case Nil
  then show ?case by simp
next
  case (Cons c s)
  then show ?case by (cases "c = 10") (auto simp: crlf_def startswith_def)
qed

lemma detect_restored:
  assumes "uniform s ending"
  shows "detect_line_ending (restore_line_endings s ending) = ending"
proof (cases "ending = crlf")
  case True
  with assms obtain i where
    "find_sub crlf (restore_line_endings s ending) = Some i"
    "find_sub [10] (restore_line_endings s ending) = Some (Suc i)"
    using find_lf_restored [of s] by (auto simp: uniform_def restore_concat)
  with True show ?thesis by (simp add: detect_line_ending_def)
next
  case False
  with assms have e: "ending = [10]" "restore_line_endings s ending = s" "13 \<notin> set s"
    by (auto simp: uniform_def restore_concat)
  then have "find_sub crlf s = None" by (auto simp: find_sub_None crlf_def)
  with e show ?thesis by (simp add: detect_line_ending_def split: option.split)
qed

section \<open>The spans of the view\<close>

definition spans_between :: "nat \<Rightarrow> nat \<Rightarrow> (nat \<times> nat) list \<Rightarrow> bool" where
  "spans_between lo hi spans \<longleftrightarrow>
     sorted (map fst spans) \<and> (\<forall>(a, b) \<in> set spans. lo \<le> a \<and> b = a + 1 \<and> b \<le> hi)"

lemma spans_append:
  "spans_between lo m xs \<Longrightarrow> spans_between m hi ys \<Longrightarrow> lo \<le> m \<Longrightarrow> m \<le> hi \<Longrightarrow> spans_between lo hi (xs @ ys)"
  by (fastforce simp: spans_between_def sorted_append)

lemma spans_line: "spans_between start (start + length s) (map snd (fuzzy_line nfkc start s))"
proof (induction s arbitrary: start)
  case Nil
  show ?case by (simp add: spans_between_def)
next
  case (Cons c s)
  have "spans_between start (start + 1)
      (map snd (map (\<lambda>d. (d, start, start + 1)) (normalize_for_fuzzy_match nfkc [c])))"
    by (auto simp: spans_between_def sorted_wrt_map comp_def)
  from spans_append [OF this Cons.IH [of "start + 1"]] show ?case by simp
qed

lemma spans_mono: "spans_between lo hi xs \<Longrightarrow> hi \<le> hi' \<Longrightarrow> spans_between lo hi' xs"
  by (fastforce simp: spans_between_def)

lemma spans_lines:
  "spans_between start (start + length (join [10] ls)) (map snd (fuzzy_lines nfkc start ls))"
proof (induction nfkc start ls rule: fuzzy_lines.induct)
  case (1 nfkc start)
  show ?case by (simp add: spans_between_def)
next
  case (2 nfkc start line)
  have "length (rstrip line) \<le> length line" by (simp add: prefix_length_le prefix_rstrip)
  with spans_line [of start "rstrip line" nfkc] show ?case by (auto intro: spans_mono)
next
  case (3 nfkc start line l lines)
  have "length (rstrip line) \<le> length line" by (simp add: prefix_length_le prefix_rstrip)
  with spans_line [of start "rstrip line" nfkc]
  have a: "spans_between start (start + length line) (map snd (fuzzy_line nfkc start (rstrip line)))"
    by (auto intro: spans_mono)
  have b: "spans_between (start + length line) (start + length line + 1)
      [(start + length line, start + length line + 1)]"
    by (simp add: spans_between_def)
  from spans_append [OF spans_append [OF a b] 3] show ?case by (simp add: add.assoc)
qed

lemma view_spans: "spans_between 0 (length s) (snd (build_fuzzy_view nfkc s))"
  using spans_lines [of 0 "split_on 10 s" nfkc] by (simp add: build_fuzzy_view_def Let_def)

lemma view_lengths: "length (snd (build_fuzzy_view nfkc s)) = length (fst (build_fuzzy_view nfkc s))"
  by (simp add: build_fuzzy_view_def Let_def)

lemma replaced_occurs:
  assumes "text_to_replace nfkc content old_text = Inr r" and "old_text \<noteq> []"
  shows "r \<noteq> [] \<and> (\<exists>a b. content = a @ r @ b)"
proof (cases "count_sub old_text content = 1")
  case True
  with assms have "r = old_text" by (simp add: text_to_replace_def)
  moreover obtain a b where "content = a @ old_text @ b"
    using replace_first_occurrence [OF assms(2), of content] True by (metis zero_less_one)
  ultimately show ?thesis using assms(2) by blast
next
  case False
  obtain view spans where v: "build_fuzzy_view nfkc content = (view, spans)" by fastforce
  let ?old = "fst (build_fuzzy_view nfkc old_text)"
  let ?i = "the (find_sub ?old view)"
  let ?first = "fst (spans ! ?i)" and ?past = "snd (spans ! (?i + length ?old - 1))"
  from assms(1) False v have one: "count_sub ?old view = 1" and ne: "spans \<noteq> []"
    and r: "r = take (?past - ?first) (drop ?first content)"
    by (auto simp: text_to_replace_def Let_def split: if_splits prod.splits)
  have len: "length spans = length view" and sp: "spans_between 0 (length content) spans"
    using view_lengths [of nfkc content] view_spans [of content nfkc] v by simp_all
  have old: "?old \<noteq> []"
  proof
    assume "?old = []"
    with one have "view = []" by (simp add: count_sub.simps)
    with len ne show False by simp
  qed
  with one have "find_sub ?old view \<noteq> None" using count_sub_pos [of ?old view] by simp
  then obtain i where i: "find_sub ?old view = Some i" by blast
  from find_sub_Some [OF i] have le: "i + length ?old \<le> length spans" by (simp add: len)
  with old have in1: "i < length spans" and in2: "i + length ?old - 1 < length spans"
    and ord: "i \<le> i + length ?old - 1"
    by (cases ?old; simp)+
  have "fst (spans ! i) \<le> fst (spans ! (i + length ?old - 1))"
    using sp in2 ord sorted_nth_mono [of "map fst spans" i "i + length ?old - 1"]
    by (simp add: spans_between_def)
  moreover have "snd (spans ! (i + length ?old - 1)) = fst (spans ! (i + length ?old - 1)) + 1"
    and "snd (spans ! (i + length ?old - 1)) \<le> length content"
    using sp nth_mem [OF in2] by (fastforce simp: spans_between_def)+
  ultimately have "?first < ?past" "?past \<le> length content" using i by simp_all
  then have "r \<noteq> []" by (simp add: r)
  moreover have "content = take ?first content @ r @ drop (?past - ?first) (drop ?first content)"
    unfolding r by (metis append_take_drop_id)
  ultimately show ?thesis by blast
qed

section \<open>An edit replaces one piece of the file\<close>

definition bom_mark :: "ustr \<Rightarrow> ustr \<Rightarrow> bool" where
  "bom_mark mark body \<longleftrightarrow> mark = [bom] \<or> mark = [] \<and> \<not> startswith body [bom]"

lemma strip_marked: "bom_mark mark body \<Longrightarrow> strip_bom (mark @ body) = (mark, body)"
  by (auto simp: bom_mark_def strip_bom_def startswith_iff)

lemma edit_uniform:
  assumes "uniform t ending" and "bom_mark mark (restore_line_endings t ending)"
  shows "edit_text nfkc (mark @ restore_line_endings t ending) old_text new_text
    = res_bind (text_to_replace nfkc t (normalize_to_lf old_text))
        (\<lambda>r. let u = replace_first r (normalize_to_lf new_text) t
             in if u = t then Inl Would_not_change
                else Inr \<lparr>eo_base = t, eo_updated = u, eo_final = mark @ restore_line_endings u ending\<rparr>)"
  unfolding edit_text_def strip_marked [OF assms(2)] Let_def prod.case normalize_restored [OF assms(1)]
    detect_restored [OF assms(1)] ..

text \<open>
  An edit is surgical. In a file with one line ending (a byte order mark or not), a successful edit
  replaces one piece that is not empty, puts the new text there in the file's line ending, and
  leaves every character before and after it as it was, the mark included; when the old text
  occurs exactly once, the piece is the old text.
\<close>

theorem edit_is_surgical:
  assumes "uniform t ending" and "bom_mark mark (restore_line_endings t ending)"
    and "normalize_to_lf old_text \<noteq> []"
    and "edit_text nfkc (mark @ restore_line_endings t ending) old_text new_text = Inr outcome"
  shows "\<exists>a r b. r \<noteq> [] \<and> t = a @ r @ b
    \<and> mark @ restore_line_endings t ending
      = mark @ restore_line_endings a ending @ restore_line_endings r ending @ restore_line_endings b ending
    \<and> eo_final outcome
      = mark @ restore_line_endings a ending @ restore_line_endings (normalize_to_lf new_text) ending
        @ restore_line_endings b ending
    \<and> (count_sub (normalize_to_lf old_text) t = 1 \<longrightarrow> r = normalize_to_lf old_text)"
proof -
  from assms(4) obtain r where r: "text_to_replace nfkc t (normalize_to_lf old_text) = Inr r"
    and out: "eo_final outcome
      = mark @ restore_line_endings (replace_first r (normalize_to_lf new_text) t) ending"
    by (auto simp: edit_uniform [OF assms(1,2)] Let_def split: if_splits)
  from replaced_occurs [OF r assms(3)] have ne: "r \<noteq> []" and "find_sub r t \<noteq> None"
    by (auto simp: find_sub_None)
  then have "0 < count_sub r t" by (simp add: count_sub_pos)
  from replace_first_occurrence [OF ne this] obtain a b where t: "t = a @ r @ b"
    and u: "replace_first r (normalize_to_lf new_text) t = a @ normalize_to_lf new_text @ b" .
  moreover have "count_sub (normalize_to_lf old_text) t = 1 \<longrightarrow> r = normalize_to_lf old_text"
    using r by (auto simp: text_to_replace_def)
  ultimately show ?thesis
    using ne by (intro exI [of _ a] exI [of _ r] exI [of _ b]) (simp add: out u [unfolded t])
qed

theorem edit_is_surgical_witness:
  "\<exists>outcome. edit_text id ([65279] @ restore_line_endings [97, 10, 98] crlf) [98] [99] = Inr outcome
     \<and> [65279] @ restore_line_endings [97, 10, 98] crlf = [65279, 97, 13, 10, 98]
     \<and> eo_final outcome = [65279, 97, 13, 10, 99]
     \<and> (\<exists>a r b. r \<noteq> [] \<and> [97, 10, 98] = a @ r @ b
          \<and> [65279] @ restore_line_endings [97, 10, 98] crlf
            = [65279] @ restore_line_endings a crlf @ restore_line_endings r crlf @ restore_line_endings b crlf
          \<and> eo_final outcome
            = [65279] @ restore_line_endings a crlf @ restore_line_endings (normalize_to_lf [99]) crlf
              @ restore_line_endings b crlf
          \<and> (count_sub (normalize_to_lf [98]) [97, 10, 98] = 1 \<longrightarrow> r = normalize_to_lf [98]))"
proof -
  have r: "restore_line_endings [97, 10, 98] crlf = [97, 13, 10, 98]"
    by (simp add: restore_concat crlf_def)
  have c: "count_sub [98] [97, 10, 98 :: nat] = 1"
    by (simp add: count_sub.simps startswith_def)
  have u: "uniform [97, 10, 98] crlf" and m: "bom_mark [65279] (restore_line_endings [97, 10, 98] crlf)"
    by (simp_all add: uniform_def bom_mark_def bom_def)
  have n: "normalize_to_lf [98] = [98]" "normalize_to_lf [99] = [99]"
    by (simp_all add: normalize_lf_only)
  let ?out = "\<lparr>eo_base = [97, 10, 98], eo_updated = [97, 10, 99], eo_final = [65279, 97, 13, 10, 99]\<rparr>"
  have e: "edit_text id ([65279] @ restore_line_endings [97, 10, 98] crlf) [98] [99] = Inr ?out"
    unfolding edit_uniform [OF u m]
    by (simp add: n text_to_replace_def c replace_first_def startswith_def restore_concat crlf_def)
  have ne: "normalize_to_lf [98] \<noteq> []" by (simp add: n)
  show ?thesis
    by (rule exI [of _ ?out], intro conjI, rule e, simp add: r, simp, rule edit_is_surgical [OF u m ne e])
qed

section \<open>Where an edit is not what its description says\<close>

text \<open>
  A file whose lines end in different ways has all of them rewritten by an edit of one place,
  although the description promises to preserve the content outside the replaced region: the line
  feed between \<open>b\<close> and \<open>c\<close> becomes a carriage return and a line feed.
\<close>

theorem mixed_endings_are_rewritten:
  "map_sum id eo_final (edit_text nfkc [97, 13, 10, 98, 10, 99] [97] [100])
    = Inr [100, 13, 10, 98, 13, 10, 99]"
  by (simp add: edit_text_def strip_bom_def startswith_def bom_def detect_line_ending_def crlf_def
      normalize_to_lf_def replace_all.simps text_to_replace_def count_sub.simps replace_first_def
      restore_concat Let_def)

text \<open>
  Two overlapping occurrences count as one. The old text \<open>aXa\<close> occurs twice in \<open>aXaXa\<close>, and the
  edit replaces the first although it must match exactly once.
\<close>

theorem overlapping_matches_count_once:
  "map_sum id eo_final (edit_text nfkc [97, 88, 97, 88, 97] [97, 88, 97] [98]) = Inr [98, 88, 97]"
  by (simp add: edit_text_def strip_bom_def startswith_def bom_def detect_line_ending_def crlf_def
      normalize_to_lf_def replace_all.simps text_to_replace_def count_sub.simps replace_first_def
      restore_concat Let_def)

text \<open>
  The normalized match can take more than it matched. A character that is normalized to several,
  such as the ligature U+FB01 (\<open>fi\<close>), is replaced as a whole when only its end is matched: editing
  \<open>ix\<close> to \<open>o\<close> in the ligature followed by \<open>x\<close> deletes the \<open>f\<close> as well.
\<close>

theorem fuzzy_match_takes_whole_character:
  "map_sum id eo_final
     (edit_text (\<lambda>s. concat (map (\<lambda>c. if c = 64257 then [102, 105] else [c]) s)) [64257, 120] [105, 120] [111])
    = Inr [111]"
  by (simp add: edit_text_def strip_bom_def startswith_def bom_def detect_line_ending_def crlf_def
      normalize_to_lf_def text_to_replace_def count_sub.simps replace_first_def replace_all.simps
      restore_concat Let_def build_fuzzy_view_def rstrip_def py_isspace_def normalize_for_fuzzy_match_def
      normalize_unicode_variants_def unicode_variants_def)

text \<open>
  White space searched for in a file of white space asks for the span of a character that does not
  exist: the tool fails with an \<open>IndexError\<close> instead of a message that nothing matches.
\<close>

theorem blank_edit_fails_on_index:
  assumes "\<forall>c \<in> set content. py_isspace c \<and> c \<noteq> 10 \<and> c \<noteq> 13"
    and "\<forall>c \<in> set old_text. py_isspace c \<and> c \<noteq> 10 \<and> c \<noteq> 13"
    and "count_sub old_text content = 0"
  shows "edit_text nfkc content old_text new_text = Inl Span_index_error"
proof -
  have n: "normalize_to_lf s = s \<and> build_fuzzy_view nfkc s = ([], [])"
    if blank: "\<forall>c \<in> set s. py_isspace c \<and> c \<noteq> 10 \<and> c \<noteq> 13" for s
  proof -
    from blank have "split_on 10 s = [s]" by (intro split_on_none) blast
    moreover from blank have "rstrip s = []" by (simp add: rstrip_def)
    moreover from blank have "13 \<notin> set s" by blast
    ultimately show ?thesis by (simp add: build_fuzzy_view_def normalize_lf_only)
  qed
  have "strip_bom content = ([], content)"
    using assms(1) by (auto simp: strip_bom_def startswith_iff bom_def py_isspace_def)
  with n [OF assms(1)] n [OF assms(2)] assms(3) show ?thesis
    by (simp add: edit_text_def text_to_replace_def count_sub.simps [of "[]"])
qed

theorem blank_edit_fails_on_index_witness:
  "edit_text id [] [32] [97] = Inl Span_index_error"
proof -
  have "\<forall>c \<in> set [32]. py_isspace c \<and> c \<noteq> 10 \<and> c \<noteq> 13" by (simp add: py_isspace_def)
  moreover have "\<forall>c \<in> set []. py_isspace c \<and> c \<noteq> 10 \<and> c \<noteq> 13" by simp
  moreover have "count_sub [32] ([] :: ustr) = 0" by (simp add: count_sub.simps)
  ultimately show ?thesis using blank_edit_fails_on_index by blast
qed

end
