(* ===== verification/Json_Value.thy ===== *)
theory Json_Value
  imports Py_Text
begin

text \<open>
  JSON values, as the contracts pass them around (\<open>JsonValue\<close> of \<open>contracts/run_events.py\<close>). A
  finite float is a mantissa and a power of two.
\<close>

datatype pyfloat = Pyfloat (mantissa: int) (exponent: int)

definition float_positive :: "pyfloat \<Rightarrow> bool" where
  "float_positive x \<longleftrightarrow> 0 < mantissa x"

datatype json =
    JNull
  | JBool bool
  | JInt int
  | JFloat pyfloat
  | JStr ustr
  | JList "json list"
  | JObj "(ustr \<times> json) list"

end
