(* ===== verification/Mcp_Contract.thy ===== *)
theory Mcp_Contract
  imports Json_Value
begin

text \<open>
  \<open>contracts/mcp.py\<close>: the names of MCP tools as the model sees them, and the validated models of
  servers, transports, tool identities, call provenance and failures.
\<close>

section \<open>Names\<close>

datatype mcp_error =
    Name_empty | Name_double_underscore | Name_pattern | No_mcp_prefix | Not_server_and_tool
  | Mounted_server_mismatch | Top_level_with_parent | Missing_parent_call | Missing_cell
  | Port_range | Empty_scope | Empty_field | Url_scheme | Bearer_and_oauth
  | Raw_name_empty | Enabled_and_disabled | Timeout_not_positive
  | Bearer_reason | Bearer_env_missing | Bearer_error_code | Env_reason_kind | Oauth_env_var
  | Failure_needs_server | Failure_with_tool | Failure_needs_auth | Failure_with_auth
  | Failure_needs_tool | Failure_needs_resource | Activity_name_mismatch

definition mcp_lower :: "char \<Rightarrow> bool" where
  "mcp_lower c \<longleftrightarrow> (let n = (of_char c :: nat) in 97 \<le> n \<and> n \<le> 122)"

definition mcp_name_char :: "char \<Rightarrow> bool" where
  "mcp_name_char c \<longleftrightarrow> mcp_lower c \<or> c = CHR ''_''
     \<or> (let n = (of_char c :: nat) in 48 \<le> n \<and> n \<le> 57)"

definition mcp_name_pattern :: "string \<Rightarrow> bool" where
  "mcp_name_pattern s = (case s of [] \<Rightarrow> False | c # cs \<Rightarrow> mcp_lower c \<and> list_all mcp_name_char cs)"

definition validate_mcp_name :: "string \<Rightarrow> (mcp_error, string) result" where
  "validate_mcp_name v =
     (if v = [] then Inl Name_empty
      else if contains v ''__'' then Inl Name_double_underscore
      else if \<not> mcp_name_pattern v then Inl Name_pattern
      else Inr v)"

definition mcp_tool_name_prefix :: string where
  "mcp_tool_name_prefix = ''mcp__''"

record mcp_tool_identity =
  mti_server_id :: string
  mti_tool_name :: string

definition make_mcp_tool_identity :: "string \<Rightarrow> string \<Rightarrow> (mcp_error, mcp_tool_identity) result" where
  "make_mcp_tool_identity server tool =
     res_bind (validate_mcp_name server)
       (\<lambda>s. res_bind (validate_mcp_name tool)
       (\<lambda>t. Inr \<lparr>mti_server_id = s, mti_tool_name = t\<rparr>))"

definition make_mcp_model_tool_name :: "string \<Rightarrow> string \<Rightarrow> (mcp_error, string) result" where
  "make_mcp_model_tool_name server tool =
     res_bind (validate_mcp_name server)
       (\<lambda>s. res_bind (validate_mcp_name tool)
       (\<lambda>t. Inr (mcp_tool_name_prefix @ s @ ''__'' @ t)))"

text \<open>\<open>str.split("__")\<close>: at the leftmost double underscore, then in the rest.\<close>

fun split_dunder :: "string \<Rightarrow> string list" where
  "split_dunder [] = [[]]"
| "split_dunder [c] = [[c]]"
| "split_dunder (c # d # s) =
     (if c = CHR ''_'' \<and> d = CHR ''_'' then [] # split_dunder s
      else (case split_dunder (d # s) of [] \<Rightarrow> [[c]] | w # ws \<Rightarrow> (c # w) # ws))"

definition parse_mcp_model_tool_name :: "string \<Rightarrow> (mcp_error, mcp_tool_identity) result" where
  "parse_mcp_model_tool_name name =
     (if \<not> startswith name mcp_tool_name_prefix then Inl No_mcp_prefix
      else (case split_dunder (removeprefix name mcp_tool_name_prefix) of
              [server, tool] \<Rightarrow> make_mcp_tool_identity server tool
            | _ \<Rightarrow> Inl Not_server_and_tool))"

record mcp_mounted_tool_identity =
  mmt_server_id :: string
  mmt_raw_tool_name :: string
  mmt_model_tool_name :: string

definition validate_mounted_identity ::
    "mcp_mounted_tool_identity \<Rightarrow> (mcp_error, mcp_mounted_tool_identity) result" where
  "validate_mounted_identity m =
     (if mmt_server_id m = [] \<or> mmt_raw_tool_name m = [] \<or> mmt_model_tool_name m = []
      then Inl Empty_field
      else res_bind (validate_mcp_name (mmt_server_id m))
        (\<lambda>_. res_bind (parse_mcp_model_tool_name (mmt_model_tool_name m))
        (\<lambda>parsed. if mti_server_id parsed \<noteq> mmt_server_id m then Inl Mounted_server_mismatch
                   else Inr m)))"

section \<open>Provenance\<close>

datatype mcp_call_source = Top_level_model | Code_mode_source

record mcp_tool_call_provenance =
  mtp_source :: mcp_call_source
  mtp_parent_tool_call_id :: "string option"
  mtp_code_mode_cell_id :: "string option"

definition validate_provenance ::
    "mcp_tool_call_provenance \<Rightarrow> (mcp_error, mcp_tool_call_provenance) result" where
  "validate_provenance p =
     (case mtp_source p of
        Top_level_model \<Rightarrow>
          (if mtp_parent_tool_call_id p \<noteq> None \<or> mtp_code_mode_cell_id p \<noteq> None
           then Inl Top_level_with_parent else Inr p)
      | Code_mode_source \<Rightarrow>
          (if mtp_parent_tool_call_id p = None then Inl Missing_parent_call
           else if mtp_code_mode_cell_id p = None then Inl Missing_cell
           else Inr p))"

section \<open>Server configuration\<close>

datatype mcp_approval_mode = Mcp_auto | Mcp_prompt | Mcp_approve

record mcp_oauth_config =
  moc_callback_port :: int
  moc_scopes :: "ustr list"
  moc_client_id :: "ustr option"

definition validate_oauth_config :: "mcp_oauth_config \<Rightarrow> (mcp_error, mcp_oauth_config) result" where
  "validate_oauth_config c =
     (if moc_callback_port c < 1024 \<or> 65535 < moc_callback_port c then Inl Port_range
      else if moc_client_id c = Some [] then Inl Empty_field
      else if \<exists>scope \<in> set (moc_scopes c). strip scope = [] then Inl Empty_scope
      else Inr c)"

record mcp_http_transport =
  mht_url :: string
  mht_bearer_token_env_var :: "string option"
  mht_oauth :: "mcp_oauth_config option"

definition validate_http_transport :: "mcp_http_transport \<Rightarrow> (mcp_error, mcp_http_transport) result" where
  "validate_http_transport t =
     (if mht_url t = [] \<or> mht_bearer_token_env_var t = Some [] then Inl Empty_field
      else if \<not> (startswith (mht_url t) ''http://'' \<or> startswith (mht_url t) ''https://'')
        then Inl Url_scheme
      else if mht_bearer_token_env_var t \<noteq> None \<and> mht_oauth t \<noteq> None then Inl Bearer_and_oauth
      else Inr t)"

record mcp_stdio_transport =
  mst_command :: ustr
  mst_args :: "ustr list"
  mst_env :: "(string \<times> ustr) list"
  mst_cwd :: "ustr option"

datatype mcp_transport = Streamable_http mcp_http_transport | Stdio mcp_stdio_transport

record mcp_server_config =
  msc_server_id :: string
  msc_transport :: mcp_transport
  msc_enabled :: bool
  msc_required :: bool
  msc_startup_timeout_sec :: "pyfloat option"
  msc_tool_timeout_sec :: "pyfloat option"
  msc_enabled_tools :: "string list option"
  msc_disabled_tools :: "string list option"
  msc_default_tool_approval :: "mcp_approval_mode option"
  msc_tools :: "(string \<times> mcp_approval_mode option) list"

definition validate_raw_tool_name :: "string \<Rightarrow> (mcp_error, string) result" where
  "validate_raw_tool_name n = (if n = [] then Inl Raw_name_empty else Inr n)"

definition validate_raw_tool_names :: "string list option \<Rightarrow> (mcp_error, string list) result" where
  "validate_raw_tool_names names =
     (case names of
        None \<Rightarrow> Inr []
      | Some ns \<Rightarrow> if [] \<in> set ns then Inl Raw_name_empty else Inr ns)"

definition validate_server_config :: "mcp_server_config \<Rightarrow> (mcp_error, mcp_server_config) result" where
  "validate_server_config c =
     (if \<not> (\<forall>t. msc_startup_timeout_sec c = Some t \<longrightarrow> float_positive t)
         \<or> \<not> (\<forall>t. msc_tool_timeout_sec c = Some t \<longrightarrow> float_positive t)
      then Inl Timeout_not_positive
      else res_bind (validate_mcp_name (msc_server_id c))
        (\<lambda>_. res_bind (validate_raw_tool_names (msc_enabled_tools c))
        (\<lambda>enabled. res_bind (validate_raw_tool_names (msc_disabled_tools c))
        (\<lambda>disabled.
           if set enabled \<inter> set disabled \<noteq> {} then Inl Enabled_and_disabled
           else if [] \<in> fst ` set (msc_tools c) then Inl Raw_name_empty
           else Inr c))))"

section \<open>Failures\<close>

datatype mcp_auth_kind = Bearer_env | Oauth
datatype mcp_auth_reason =
  Missing_bearer_env | Oauth_login_required | Oauth_refresh_failed | Unsupported_auth
datatype mcp_failure_kind =
  Auth_failed | Config_failed | Startup_failed | Discovery_failed | Tool_failed | Resource_failed

record mcp_auth_failure =
  maf_auth_kind :: mcp_auth_kind
  maf_reason :: mcp_auth_reason
  maf_recovery_hint :: ustr
  maf_env_var :: "ustr option"
  maf_provider_error_code :: "ustr option"

definition validate_auth_failure :: "mcp_auth_failure \<Rightarrow> (mcp_error, mcp_auth_failure) result" where
  "validate_auth_failure f =
     (if maf_recovery_hint f = [] \<or> maf_env_var f = Some [] \<or> maf_provider_error_code f = Some []
        then Inl Empty_field
      else if maf_auth_kind f = Bearer_env then
        (if maf_reason f \<noteq> Missing_bearer_env then Inl Bearer_reason
         else if maf_env_var f = None then Inl Bearer_env_missing
         else if maf_provider_error_code f \<noteq> None then Inl Bearer_error_code
         else Inr f)
      else if maf_reason f = Missing_bearer_env then Inl Env_reason_kind
      else if maf_env_var f \<noteq> None then Inl Oauth_env_var
      else Inr f)"

record mcp_failure =
  mf_kind :: mcp_failure_kind
  mf_error_type :: ustr
  mf_message :: ustr
  mf_server_id :: "string option"
  mf_tool_name :: "string option"
  mf_resource_uri :: "ustr option"
  mf_auth :: "mcp_auth_failure option"

definition validate_optional_name :: "string option \<Rightarrow> (mcp_error, unit) result" where
  "validate_optional_name n =
     (case n of None \<Rightarrow> Inr () | Some s \<Rightarrow> res_bind (validate_mcp_name s) (\<lambda>_. Inr ()))"

definition validate_mcp_failure :: "mcp_failure \<Rightarrow> (mcp_error, mcp_failure) result" where
  "validate_mcp_failure f =
     (if mf_error_type f = [] \<or> mf_message f = [] then Inl Empty_field
      else res_bind (validate_optional_name (mf_server_id f))
       (\<lambda>_. res_bind (validate_optional_name (mf_tool_name f))
       (\<lambda>_.
          if mf_kind f \<in> {Auth_failed, Config_failed, Startup_failed, Discovery_failed} then
            (if mf_server_id f = None then Inl Failure_needs_server
             else if mf_tool_name f \<noteq> None \<or> mf_resource_uri f \<noteq> None then Inl Failure_with_tool
             else if mf_kind f = Auth_failed then
               (if mf_auth f = None then Inl Failure_needs_auth else Inr f)
             else if mf_auth f \<noteq> None then Inl Failure_with_auth
             else Inr f)
          else if mf_kind f = Tool_failed then
            (if mf_server_id f = None \<or> mf_tool_name f = None then Inl Failure_needs_tool
             else if mf_resource_uri f \<noteq> None \<or> mf_auth f \<noteq> None then Inl Failure_with_auth
             else Inr f)
          else
            (if mf_server_id f = None \<or> mf_resource_uri f = None then Inl Failure_needs_resource
             else if mf_tool_name f \<noteq> None \<or> mf_auth f \<noteq> None then Inl Failure_with_auth
             else Inr f))))"

section \<open>Splitting names\<close>

definition mcp_name :: "string \<Rightarrow> bool" where
  "mcp_name s \<longleftrightarrow> validate_mcp_name s = Inr s"

lemma mcp_nameD:
  "mcp_name s \<Longrightarrow> s \<noteq> [] \<and> \<not> contains s ''__'' \<and> mcp_name_pattern s"
  by (auto simp: mcp_name_def validate_mcp_name_def split: if_splits)

lemma validate_name_Inr [simp]: "validate_mcp_name s = Inr t \<longleftrightarrow> t = s \<and> mcp_name s"
  by (auto simp: mcp_name_def validate_mcp_name_def)

lemma validated_name [simp]: "mcp_name s \<Longrightarrow> validate_mcp_name s = Inr s"
  by (simp only: mcp_name_def)

lemma pattern_hd: "mcp_name_pattern s \<Longrightarrow> hd s \<noteq> CHR ''_''"
  by (cases s) (auto simp: mcp_name_pattern_def mcp_lower_def)

lemma split_dunder_not_Nil [simp]: "split_dunder s \<noteq> []"
  by (cases s rule: split_dunder.cases) (auto split: list.splits)

lemma contains_dunder_Cons:
  "contains (c # d # s) ''__'' \<longleftrightarrow> c = CHR ''_'' \<and> d = CHR ''_'' \<or> contains (d # s) ''__''"
  by (auto simp: startswith_def)

lemma split_dunder_none: "\<not> contains s ''__'' \<Longrightarrow> split_dunder s = [s]"
proof (induction s rule: split_dunder.induct)
  case (3 c d s)
  then have n: "\<not> contains (d # s) ''__''" "\<not> (c = CHR ''_'' \<and> d = CHR ''_'')"
    using contains_dunder_Cons [of c d s] by blast+
  from n(2) have "split_dunder (d # s) = [d # s]" using "3.IH"(2) n(1) by blast
  with n(2) show ?case by simp
qed simp_all

lemma split_dunder_append:
  "\<not> contains s ''__'' \<Longrightarrow> s = [] \<or> last s \<noteq> CHR ''_'' \<Longrightarrow>
     split_dunder (s @ ''__'' @ t) = s # split_dunder t"
proof (induction s rule: split_dunder.induct)
  case (3 c d s)
  then have n: "\<not> contains (d # s) ''__''" "\<not> (c = CHR ''_'' \<and> d = CHR ''_'')"
    using contains_dunder_Cons [of c d s] by blast+
  from n "3.prems"(2) have "split_dunder ((d # s) @ ''__'' @ t) = (d # s) # split_dunder t"
    using "3.IH"(2) by simp
  with n(2) show ?case by (simp split: if_splits)
qed simp_all

lemma split_dunder_join: "split_dunder s = [a, b] \<Longrightarrow> s = a @ ''__'' @ b"
proof (induction s arbitrary: a b rule: split_dunder.induct)
  case (3 c d s)
  have one: "split_dunder s = [w] \<Longrightarrow> s = w" for s w
  proof (induction s arbitrary: w rule: split_dunder.induct)
    case (3 c d s)
    then show ?case by (auto split: if_splits list.splits)
  qed auto
  show ?case
  proof (cases "c = CHR ''_'' \<and> d = CHR ''_''")
    case True
    with "3.prems" have "a = []" "split_dunder s = [b]" by auto
    with one [of s b] True show ?thesis by simp
  next
    case False
    with "3.prems" obtain w where w: "split_dunder (d # s) = [w, b]" "a = c # w"
      by (auto split: list.splits if_splits)
    with False "3.IH"(2) have "d # s = w @ ''__'' @ b" by blast
    with w(2) show ?thesis by simp
  qed
qed (auto split: list.splits)

lemma trailing_underscore:
  assumes "mcp_name s" and "last s = CHR ''_''"
  obtains r where "s = r @ ''_''" and "mcp_name r" and "last r \<noteq> CHR ''_''"
proof -
  from mcp_nameD [OF assms(1)] obtain r where r: "s = r @ ''_''"
    using assms(2) by (metis append_butlast_last_id)
  have sub: "contains xs ''__'' \<Longrightarrow> contains (xs @ ys) ''__''" for xs ys
    by (induction xs) (simp_all add: startswith_def, metis Cons_prefix_Cons prefix_prefix)
  have pat: "mcp_name_pattern s" "\<not> contains s ''__''" using mcp_nameD [OF assms(1)] by auto
  from pat(1) r have ne: "r \<noteq> []" by (auto simp: mcp_name_pattern_def mcp_lower_def)
  have "mcp_name_pattern r" using pat(1) r ne by (auto simp: mcp_name_pattern_def split: list.splits)
  moreover have "\<not> contains r ''__''" using pat(2) r sub by blast
  ultimately have "mcp_name r" using ne by (simp add: mcp_name_def validate_mcp_name_def)
  moreover have "last r \<noteq> CHR ''_''"
  proof
    assume "last r = CHR ''_''"
    with ne r obtain q where "s = q @ ''__''" by (metis append_Cons append_Nil append_butlast_last_id append_assoc)
    moreover have "contains (q @ ''__'') ''__''" for q :: string
      by (induction q) (simp_all add: startswith_def)
    ultimately show False using pat(2) by simp
  qed
  ultimately show thesis using that r by blast
qed

section \<open>Properties\<close>

lemma made_name:
  "make_mcp_model_tool_name server tool = Inr name \<longleftrightarrow>
     mcp_name server \<and> mcp_name tool \<and> name = mcp_tool_name_prefix @ server @ ''__'' @ tool"
  by (auto simp: make_mcp_model_tool_name_def)

text \<open>
  A name that parses is the name of what it parsed to: making the model tool name of the parsed
  identity gives the name back. No two identities share a name, and no name is read two ways.
\<close>

theorem parsed_name_is_made:
  assumes "parse_mcp_model_tool_name name = Inr identity"
  shows "make_mcp_model_tool_name (mti_server_id identity) (mti_tool_name identity) = Inr name"
proof -
  from assms obtain server tool where
    p: "startswith name mcp_tool_name_prefix"
    and s: "split_dunder (removeprefix name mcp_tool_name_prefix) = [server, tool]"
    and i: "make_mcp_tool_identity server tool = Inr identity"
    by (auto simp: parse_mcp_model_tool_name_def split: if_splits list.splits)
  from p have "name = mcp_tool_name_prefix @ removeprefix name mcp_tool_name_prefix"
    by (auto simp: removeprefix_def startswith_def prefix_def)
  with split_dunder_join [OF s] i show ?thesis
    by (auto simp: made_name make_mcp_tool_identity_def)
qed

theorem parsed_name_is_made_witness:
  "make_mcp_model_tool_name ''docs'' ''search'' = Inr ''mcp__docs__search''"
proof -
  have "parse_mcp_model_tool_name ''mcp__docs__search''
      = Inr \<lparr>mti_server_id = ''docs'', mti_tool_name = ''search''\<rparr>" by code_simp
  from parsed_name_is_made [OF this] show ?thesis
    by (simp only: mcp_tool_identity.simps)
qed

lemma name_parses:
  assumes "mcp_name server" and "mcp_name tool" and "last server \<noteq> CHR ''_''"
  shows "parse_mcp_model_tool_name (mcp_tool_name_prefix @ server @ ''__'' @ tool)
    = Inr \<lparr>mti_server_id = server, mti_tool_name = tool\<rparr>"
proof -
  note d = mcp_nameD [OF assms(1)] mcp_nameD [OF assms(2)]
  with assms(3) have "split_dunder (server @ ''__'' @ tool) = [server, tool]"
    using split_dunder_append [of server tool] split_dunder_none by simp
  with assms show ?thesis
    by (simp add: parse_mcp_model_tool_name_def make_mcp_tool_identity_def del: append.simps)
qed

text \<open>
  The model tool name of a valid server and tool can always be made, and it parses back to them
  exactly when the server id does not end with an underscore. A server id such as \<open>a_\<close> is
  accepted by the validator, but its tools have names that no parser accepts.
\<close>

theorem made_name_parses:
  assumes "mcp_name server" and "mcp_name tool"
  shows "make_mcp_model_tool_name server tool = Inr (mcp_tool_name_prefix @ server @ ''__'' @ tool)
    \<and> parse_mcp_model_tool_name (mcp_tool_name_prefix @ server @ ''__'' @ tool)
      = (if last server = CHR ''_'' then Inl Name_pattern
         else Inr \<lparr>mti_server_id = server, mti_tool_name = tool\<rparr>)"
proof -
  have made: "make_mcp_model_tool_name server tool = Inr (mcp_tool_name_prefix @ server @ ''__'' @ tool)"
    using assms by (simp add: made_name)
  note d = mcp_nameD [OF assms(1)] mcp_nameD [OF assms(2)]
  show ?thesis
  proof (cases "last server = CHR ''_''")
    case False
    with made name_parses [OF assms] show ?thesis by simp
  next
    case True
    with assms(1) obtain r where r: "server = r @ ''_''" "mcp_name r" "last r \<noteq> CHR ''_''"
      by (rule trailing_underscore)
    have u: "\<not> contains (''_'' @ tool) ''__''"
      using d pattern_hd [of tool] by (cases tool) (auto simp: startswith_def)
    have "split_dunder (r @ ''__'' @ ''_'' @ tool) = [r, ''_'' @ tool]"
      using split_dunder_append [of r "''_'' @ tool"] mcp_nameD [OF r(2)] r(3) split_dunder_none [OF u]
      by simp
    moreover have "validate_mcp_name (''_'' @ tool) = Inl Name_pattern"
      using u by (simp add: validate_mcp_name_def mcp_name_pattern_def mcp_lower_def)
    moreover have "validate_mcp_name r = Inr r" using r(2) by simp
    ultimately have "parse_mcp_model_tool_name (mcp_tool_name_prefix @ r @ ''__'' @ ''_'' @ tool)
        = Inl Name_pattern"
      by (simp add: parse_mcp_model_tool_name_def make_mcp_tool_identity_def del: append.simps)
    with made True r(1) show ?thesis by simp
  qed
qed

theorem made_name_parses_witness:
  "parse_mcp_model_tool_name ''mcp__a___b'' = Inl Name_pattern"
proof -
  have "mcp_name ''a_''" "mcp_name ''b''" by code_simp+
  from made_name_parses [OF this] show ?thesis
    by (simp add: mcp_tool_name_prefix_def)
qed

end
