(* ===== verification/Run_Events.thy ===== *)
theory Run_Events
  imports Mcp_Contract Approval
begin

text \<open>
  \<open>contracts/run_events.py\<close> with the models it uses of \<open>contracts/teaching.py\<close>,
  \<open>contracts/onboarding.py\<close> and \<open>contracts/compaction.py\<close>: the events of a run, with the
  activity details and the transcript summary they carry, and the session lifecycle events.
\<close>

section \<open>Teaching packets and onboarding questions\<close>

datatype lesson_error =
    Blank_statement | Blank_path | Line_span | Blank_text | Blank_title | Blank_concept
  | Too_few_relationships | Snippet_count | Blank_prompt | Blank_option | Option_count
  | Duplicate_options

record teaching_relationship =
  tr_statement :: ustr

definition validate_teaching_relationship ::
    "teaching_relationship \<Rightarrow> (lesson_error, teaching_relationship) result" where
  "validate_teaching_relationship r =
     (if strip (tr_statement r) = [] then Inl Blank_statement else Inr r)"

record teaching_snippet =
  ts_path :: ustr
  ts_start_line :: int
  ts_end_line :: int
  ts_text :: ustr

definition validate_teaching_snippet :: "teaching_snippet \<Rightarrow> (lesson_error, teaching_snippet) result" where
  "validate_teaching_snippet s =
     (if ts_start_line s < 1 \<or> ts_end_line s < 1 then Inl Line_span
      else if strip (ts_path s) = [] then Inl Blank_path
      else if ts_end_line s < ts_start_line s then Inl Line_span
      else if strip (ts_text s) = [] then Inl Blank_text
      else Inr s)"

record teaching_packet =
  tp_title :: ustr
  tp_concept :: ustr
  tp_relationships :: "teaching_relationship list"
  tp_snippets :: "teaching_snippet list"

definition validate_teaching_packet :: "teaching_packet \<Rightarrow> (lesson_error, teaching_packet) result" where
  "validate_teaching_packet p =
     (if tp_relationships p = [] then Inl Too_few_relationships
      else if length (tp_snippets p) < 2 \<or> 5 < length (tp_snippets p) then Inl Snippet_count
      else if strip (tp_title p) = [] then Inl Blank_title
      else if strip (tp_concept p) = [] then Inl Blank_concept
      else Inr p)"

record onboarding_question =
  oq_attempt_id :: string
  oq_prompt :: ustr
  oq_options :: "ustr list"

text \<open>The lower-casing of Unicode texts is the standard library's: a parameter.\<close>

definition validate_onboarding_question ::
    "(ustr \<Rightarrow> ustr) \<Rightarrow> onboarding_question \<Rightarrow> (lesson_error, onboarding_question) result" where
  "validate_onboarding_question lower q =
     (if length (oq_options q) \<noteq> 4 then Inl Option_count
      else if strip (oq_prompt q) = [] then Inl Blank_prompt
      else if \<exists>opt \<in> set (oq_options q). strip opt = [] then Inl Blank_option
      else if \<not> distinct (map (\<lambda>opt. lower (strip opt)) (oq_options q)) then Inl Duplicate_options
      else Inr q)"

section \<open>Activity details\<close>

record shell_activity_details =
  sad_command_preview :: ustr
  sad_shell_family :: shell_family
  sad_timeout :: "int option"
  sad_exit_code :: "int option"

record read_activity_details =
  rad_path :: ustr
  rad_short_path :: "ustr option"
  rad_offset :: "int option"
  rad_limit :: "int option"

record write_activity_details =
  wad_path :: ustr
  wad_bytes_written :: "int option"

record edit_activity_details =
  ead_path :: ustr
  ead_diff :: "ustr option"
  ead_added_lines :: "int option"
  ead_removed_lines :: "int option"

record grep_activity_details =
  gad_pattern :: ustr
  gad_path :: "ustr option"
  gad_short_path :: "ustr option"
  gad_glob :: "ustr option"
  gad_ignore_case :: bool
  gad_literal :: bool
  gad_limit :: "int option"

record ls_activity_details =
  lad_path :: "ustr option"
  lad_short_path :: "ustr option"
  lad_limit :: "int option"

record find_activity_details =
  fad_pattern :: ustr
  fad_path :: "ustr option"
  fad_short_path :: "ustr option"
  fad_limit :: "int option"

datatype subagent_role = Role_general | Role_explore | Role_verification
datatype subagent_spawn_mode = Spawn_fresh | Spawn_fork
datatype subagent_capability = Capability_default | Capability_shell

record subagent_activity_details =
  sub_name :: ustr
  sub_role :: subagent_role
  sub_spawn_mode :: subagent_spawn_mode
  sub_capability :: subagent_capability
  sub_preview_lines :: "ustr list"
  sub_preview_terminal :: bool

datatype nested_status = Nested_started | Nested_succeeded | Nested_failed

record code_mode_activity_details =
  cad_cell_id :: string
  cad_nested_tool :: string
  cad_nested_status :: nested_status
  cad_title :: ustr
  cad_elapsed_ms :: "int option"
  cad_error_type :: "ustr option"
  cad_message :: "ustr option"

record teaching_packet_activity_details =
  tad_concept :: ustr
  tad_relationships :: "teaching_relationship list"
  tad_snippets :: "teaching_snippet list"

datatype wrapped_activity_details =
    Shell_activity shell_activity_details
  | Read_activity read_activity_details
  | Write_activity write_activity_details
  | Edit_activity edit_activity_details
  | Grep_activity grep_activity_details
  | Ls_activity ls_activity_details
  | Find_activity find_activity_details
  | Subagent_activity subagent_activity_details
  | Code_mode_activity code_mode_activity_details
  | Teaching_packet_activity teaching_packet_activity_details

record mcp_activity_details =
  mad_server_id :: string
  mad_tool_name :: string
  mad_model_tool_name :: string
  mad_provenance :: mcp_tool_call_provenance
  mad_failure :: "mcp_failure option"
  mad_wrapped_title :: "ustr option"
  mad_wrapped_display_label :: "ustr option"
  mad_wrapped_summary :: "ustr option"
  mad_wrapped_details :: "wrapped_activity_details option"

definition validate_mcp_activity :: "mcp_activity_details \<Rightarrow> (mcp_error, mcp_activity_details) result" where
  "validate_mcp_activity d =
     res_bind (parse_mcp_model_tool_name (mad_model_tool_name d))
       (\<lambda>identity.
          if mti_server_id identity \<noteq> mad_server_id d \<or> mti_tool_name identity \<noteq> mad_tool_name d
          then Inl Activity_name_mismatch else Inr d)"

datatype tool_activity_details =
    Plain_activity wrapped_activity_details
  | Mcp_activity mcp_activity_details

record tool_activity =
  ta_title :: ustr
  ta_display_label :: "ustr option"
  ta_summary :: "ustr option"
  ta_duration_ms :: "int option"
  ta_details :: "tool_activity_details option"
  ta_group_kind :: "string option"

section \<open>The transcript summary\<close>

record activity_group_counts =
  agc_read :: int
  agc_search :: int
  agc_list :: int
  agc_shell :: int
  agc_write :: int
  agc_edit :: int
  agc_tool :: int

datatype group_kind =
  Group_exploration | Group_execution | Group_editing | Group_compaction | Group_other
datatype group_outcome = Outcome_success | Outcome_denied | Outcome_operational_miss | Outcome_error

record activity_group_summary =
  ags_group_kind :: group_kind
  ags_group_label :: ustr
  ags_group_counts :: activity_group_counts
  ags_display_hint :: "ustr option"
  ags_outcome :: group_outcome
  ags_elapsed_ms :: "int option"

record run_transcript_summary =
  rts_elapsed_ms :: int
  rts_tool_call_count :: int
  rts_tool_duration_ms :: int
  rts_input_tokens :: "int option"
  rts_output_tokens :: "int option"
  rts_total_tokens :: "int option"
  rts_context_window_used :: "pyfloat option"
  rts_next_request_context_window_used :: "pyfloat option"
  rts_had_work_activity :: bool
  rts_should_show_separator :: bool
  rts_activity_groups :: "activity_group_summary list"

section \<open>Run events\<close>

record run_event_base =
  ev_run_id :: string

record assistant_text_delta_event = run_event_base +
  ev_delta :: ustr

record approval_requested_event = run_event_base +
  ev_request :: approval_request
  ev_request_tool_name :: "string option"
  ev_request_tool_call_id :: "string option"

record approval_resolved_event = run_event_base +
  ev_decision :: approval_decision

record onboarding_question_event = run_event_base +
  ev_attempt_id :: string
  ev_prompt :: ustr
  ev_options :: "ustr list"

record tool_event_base = run_event_base +
  ev_tool_call_id :: string
  ev_tool_name :: string
  ev_activity :: "tool_activity option"

record tool_call_started_event = tool_event_base +
  ev_args :: json
  ev_args_valid :: "bool option"

record tool_call_succeeded_event = tool_event_base +
  ev_result :: json

record tool_call_updated_event = tool_event_base +
  ev_partial_result :: json

record tool_call_failed_event = tool_event_base +
  ev_error_type :: ustr
  ev_message :: ustr

record run_succeeded_event = run_event_base +
  ev_output_text :: ustr
  ev_input_tokens :: "int option"
  ev_output_tokens :: "int option"
  ev_total_tokens :: "int option"
  ev_context_window_used :: "pyfloat option"
  ev_next_request_context_window_used :: "pyfloat option"
  ev_transcript_summary :: "run_transcript_summary option"

record run_failed_event = run_event_base +
  ev_failure_type :: ustr
  ev_failure_message :: ustr

record in_run_compaction_event = run_event_base +
  ev_live_message_count :: int
  ev_replacement_message_count :: int

datatype run_event =
    Run_started run_event_base
  | Assistant_text_delta assistant_text_delta_event
  | Approval_requested approval_requested_event
  | Approval_resolved approval_resolved_event
  | Onboarding_question_requested onboarding_question_event
  | Tool_call_started tool_call_started_event
  | Tool_call_updated tool_call_updated_event
  | Tool_call_succeeded tool_call_succeeded_event
  | Tool_call_failed tool_call_failed_event
  | In_run_compaction_completed in_run_compaction_event
  | Run_succeeded run_succeeded_event
  | Run_failed run_failed_event

fun event_run_id :: "run_event \<Rightarrow> string" where
  "event_run_id (Run_started e) = ev_run_id e"
| "event_run_id (Assistant_text_delta e) = ev_run_id e"
| "event_run_id (Approval_requested e) = ev_run_id e"
| "event_run_id (Approval_resolved e) = ev_run_id e"
| "event_run_id (Onboarding_question_requested e) = ev_run_id e"
| "event_run_id (Tool_call_started e) = ev_run_id e"
| "event_run_id (Tool_call_updated e) = ev_run_id e"
| "event_run_id (Tool_call_succeeded e) = ev_run_id e"
| "event_run_id (Tool_call_failed e) = ev_run_id e"
| "event_run_id (In_run_compaction_completed e) = ev_run_id e"
| "event_run_id (Run_succeeded e) = ev_run_id e"
| "event_run_id (Run_failed e) = ev_run_id e"

fun is_text_delta :: "run_event \<Rightarrow> bool" where
  "is_text_delta (Assistant_text_delta _) = True"
| "is_text_delta _ = False"

fun is_run_started :: "run_event \<Rightarrow> bool" where
  "is_run_started (Run_started _) = True"
| "is_run_started _ = False"

definition onboarding_question_from_request ::
    "string \<Rightarrow> onboarding_question \<Rightarrow> onboarding_question_event" where
  "onboarding_question_from_request run_id q =
     \<lparr>ev_run_id = run_id, ev_attempt_id = oq_attempt_id q, ev_prompt = oq_prompt q,
      ev_options = oq_options q\<rparr>"

end
