(* ===== verification/Label_Text.thy ===== *)
theory Label_Text
  imports Py_Text
begin

text \<open>
  Texts on one line: \<open>" ".join(text.split())\<close> and the two places that cut it to a length,
  \<open>truncate_activity_label\<close> of \<open>tools/_activity.py\<close> and \<open>compact_text\<close> of
  \<open>runtime/compaction/source_builder.py\<close>.
\<close>

fun words_loop :: "ustr \<Rightarrow> ustr \<Rightarrow> ustr list" where
  "words_loop word [] = (if word = [] then [] else [word])"
| "words_loop word (c # s) =
     (if py_isspace c then (if word = [] then words_loop [] s else word # words_loop [] s)
      else words_loop (word @ [c]) s)"

definition collapse_spaces :: "ustr \<Rightarrow> ustr" where
  "collapse_spaces s = join [32] (words_loop [] s)"

definition truncate_activity_label :: "ustr \<Rightarrow> nat \<Rightarrow> ustr" where
  "truncate_activity_label s limit =
     (let normalized = collapse_spaces s in
      if length normalized \<le> limit then normalized
      else rstrip (take (limit - 3) normalized) @ [46, 46, 46])"

definition activity_label_limit :: nat where
  "activity_label_limit = 56"

definition max_compaction_text_field_chars :: nat where
  "max_compaction_text_field_chars = 1200"

text \<open>The ellipsis is the character U+2026.\<close>

definition compact_text :: "ustr \<Rightarrow> nat \<Rightarrow> ustr" where
  "compact_text s max_chars =
     (let collapsed = collapse_spaces s in
      if length collapsed \<le> max_chars then collapsed
      else if max_chars \<le> 1 then take max_chars collapsed
      else take (max_chars - 1) collapsed @ [8230])"

section \<open>One line, within the limit\<close>

definition one_line :: "ustr \<Rightarrow> bool" where
  "one_line s \<longleftrightarrow> (\<forall>c \<in> set s. py_isspace c \<longrightarrow> c = 32)"

lemma one_line_simps [simp]:
  "one_line []"
  "one_line (a @ b) \<longleftrightarrow> one_line a \<and> one_line b"
  "one_line (c # s) \<longleftrightarrow> (py_isspace c \<longrightarrow> c = 32) \<and> one_line s"
  by (auto simp: one_line_def)

lemma one_line_take: "one_line s \<Longrightarrow> one_line (take n s)"
  by (auto simp: one_line_def dest: in_set_takeD)

lemma one_line_rstrip: "one_line s \<Longrightarrow> one_line (rstrip s)"
  by (auto simp: one_line_def rstrip_def dest: set_dropWhileD)

lemma one_line_join: "one_line sep \<Longrightarrow> \<forall>s \<in> set ss. one_line s \<Longrightarrow> one_line (join sep ss)"
  by (induction sep ss rule: join.induct) auto

lemma words_plain:
  "list_all (\<lambda>c. \<not> py_isspace c) word \<Longrightarrow> list_all (list_all (\<lambda>c. \<not> py_isspace c)) (words_loop word s)"
proof (induction s arbitrary: word)
  case Nil
  then show ?case by simp
next
  case (Cons c s)
  from Cons.IH [of "[]"] Cons.IH [of "word @ [c]"] Cons.prems show ?case by simp
qed

lemma words_one_line: "w \<in> set (words_loop [] s) \<Longrightarrow> one_line w"
  using words_plain [of "[]" s] by (auto simp: one_line_def list_all_iff)

lemma one_line_collapsed [simp]: "one_line (collapse_spaces s)"
  by (auto simp: collapse_spaces_def one_line_join words_one_line)

lemma not_space_dot [simp]: "\<not> py_isspace 46" "\<not> py_isspace 8230"
  by (simp_all add: py_isspace_def)

lemma label_one_line [simp]: "one_line (truncate_activity_label s n)"
  by (simp add: truncate_activity_label_def Let_def one_line_rstrip one_line_take)

lemma compact_one_line [simp]: "one_line (compact_text s n)"
  by (simp add: compact_text_def Let_def one_line_take)

lemma length_rstrip_le: "length (rstrip s) \<le> length s"
  using length_dropWhile_le [of py_isspace "rev s"] by (simp add: rstrip_def)

lemma label_length: "3 \<le> n \<Longrightarrow> length (truncate_activity_label s n) \<le> n"
  using length_rstrip_le [of "take (n - 3) (collapse_spaces s)"]
  by (auto simp: truncate_activity_label_def Let_def)

lemma compact_length: "length (compact_text s n) \<le> n"
  by (simp add: compact_text_def Let_def)

lemma boundary_space: "line_boundary c \<Longrightarrow> py_isspace c \<and> c \<noteq> 32"
  unfolding line_boundary_def by (elim disjE) (simp_all add: py_isspace_def)

lemma one_line_no_break: "one_line s \<Longrightarrow> c \<in> set s \<Longrightarrow> \<not> line_boundary c"
  by (auto simp: one_line_def dest: boundary_space)

end
