(* ===== verification/File_Tools.thy ===== *)
theory File_Tools
  imports Approval_Flow Edit_Tool Run_Events Label_Text
begin

text \<open>
  The tools \<open>edit\<close> (\<open>tools/edit.py\<close>) and \<open>write\<close> (\<open>tools/write.py\<close>) as the model calls them: the
  approval of the access, then the change of the file, then the result with its activity. The
  wrapper of \<open>tools/errors.py\<close> turns a failure into the result the model sees. The state is the
  permission memory and the contents of the files.
\<close>

section \<open>Results\<close>

datatype tool_error = Not_approved flow_error | Tool_failed tool_failure

record tool_return =
  tr_value :: string
  tr_title :: ustr
  tr_summary :: ustr
  tr_details :: tool_activity_details

definition make_tool_return :: "string \<Rightarrow> ustr \<Rightarrow> ustr \<Rightarrow> tool_activity_details \<Rightarrow> tool_return" where
  "make_tool_return return_value title summary details =
     \<lparr>tr_value = return_value, tr_title = title, tr_summary = summary, tr_details = details\<rparr>"

section \<open>The tools\<close>

type_synonym 'a tool_run = "file_store \<times> permission_memory \<times> (tool_error, 'a) result"

definition write_tool ::
    "(ppath \<Rightarrow> bool) \<Rightarrow> file_system \<Rightarrow> approval_requester option \<Rightarrow> string \<Rightarrow> string
     \<Rightarrow> permission_state \<Rightarrow> string \<Rightarrow> string \<Rightarrow> ustr \<Rightarrow> permission_memory \<Rightarrow> file_store
     \<Rightarrow> tool_return tool_run" where
  "write_tool writable fs requester uuid label st ws path content mem store =
     (case maybe_request_file_write_approval fs requester uuid label st path ''write'' ws mem of
        Inl e \<Rightarrow> (store, mem, Inl (Not_approved e))
      | Inr mem' \<Rightarrow>
          (case execute_write writable fs ws path content store of
             (store', Inl e) \<Rightarrow> (store', mem', Inl (Tool_failed e))
           | (store', Inr message) \<Rightarrow>
               (store', mem', Inr (make_tool_return message
                  (lit ''write '' @ truncate_activity_label (lit path) activity_label_limit)
                  (lit ''wrote file'')
                  (Plain_activity (Write_activity
                     \<lparr>wad_path = lit path, wad_bytes_written = Some (int (utf8_len content))\<rparr>))))))"

definition edit_tool ::
    "(ustr \<Rightarrow> ustr) \<Rightarrow> (string \<Rightarrow> ustr list \<Rightarrow> ustr list \<Rightarrow> ustr) \<Rightarrow> (ppath \<Rightarrow> bool) \<Rightarrow> file_system
     \<Rightarrow> approval_requester option \<Rightarrow> string \<Rightarrow> string \<Rightarrow> permission_state \<Rightarrow> string \<Rightarrow> string
     \<Rightarrow> ustr \<Rightarrow> ustr \<Rightarrow> permission_memory \<Rightarrow> file_store \<Rightarrow> tool_return tool_run" where
  "edit_tool nfkc unified_diff writable fs requester uuid label st ws path old_text new_text mem store =
     (case maybe_request_file_write_approval fs requester uuid label st path ''edit'' ws mem of
        Inl e \<Rightarrow> (store, mem, Inl (Not_approved e))
      | Inr mem' \<Rightarrow>
          (case execute_edit nfkc unified_diff writable fs ws path old_text new_text store of
             (store', Inl e) \<Rightarrow> (store', mem', Inl (Tool_failed e))
           | (store', Inr edited) \<Rightarrow>
               (store', mem', Inr (make_tool_return (''Edited '' @ er_path edited)
                  (lit ''edit '' @ truncate_activity_label (lit path) activity_label_limit)
                  (lit ''edit applied'')
                  (Plain_activity (Edit_activity
                     \<lparr>ead_path = lit path, ead_diff = Some (er_diff edited),
                      ead_added_lines = Some (int (er_added_lines edited)),
                      ead_removed_lines = Some (int (er_removed_lines edited))\<rparr>))))))"

section \<open>What the model sees of a failure\<close>

datatype model_result =
    Tool_result tool_return
  | Denied_result string string "request_kind option" "string option"
  | Error_result tool_error

datatype tool_crash = Crash tool_error

text \<open>
  A denial by the client or by policy is shown as denied, an expected failure of the tool as an error;
  everything else is not caught by the wrapper.
\<close>

fun wrap_tool_call :: "(tool_error, tool_return) result \<Rightarrow> (tool_crash, model_result) result" where
  "wrap_tool_call (Inr r) = Inr (Tool_result r)"
| "wrap_tool_call (Inl (Not_approved (Approval_denied message kind subject))) =
     Inr (Denied_result ''approval_denied'' message (Some kind) subject)"
| "wrap_tool_call (Inl (Not_approved (Policy_denied message kind subject))) =
     Inr (Denied_result ''policy_denied'' message (Some kind) subject)"
| "wrap_tool_call (Inl (Tool_failed Tool_path_error)) = Inr (Error_result (Tool_failed Tool_path_error))"
| "wrap_tool_call (Inl (Tool_failed Tool_encoding_error)) =
     Inr (Error_result (Tool_failed Tool_encoding_error))"
| "wrap_tool_call (Inl (Tool_failed (Tool_match_error e))) =
     Inr (Error_result (Tool_failed (Tool_match_error e)))"
| "wrap_tool_call (Inl (Tool_failed (Workspace_path_error e))) =
     Inr (Error_result (Tool_failed (Workspace_path_error e)))"
| "wrap_tool_call (Inl e) = Inl (Crash e)"

section \<open>No file is changed without authority\<close>

text \<open>
  What stands behind a change of a file by a tool: the gate lets the access through without asking, or
  the client was asked with a valid request for this access and its answer was accepted as an approval.
\<close>

definition write_authorized ::
    "file_system \<Rightarrow> approval_requester option \<Rightarrow> permission_state \<Rightarrow> string \<Rightarrow> string
     \<Rightarrow> permission_memory \<Rightarrow> bool" where
  "write_authorized fs requester st ws path mem \<longleftrightarrow>
     (\<exists>asked. file_access_spec fs st (Some path) Access_write ws mem = Inr (Disp_allowed, asked))
     \<or> (\<exists>asked ask request answer decision.
          file_access_spec fs st (Some path) Access_write ws mem = Inr (Disp_prompt, asked)
          \<and> requester = Some ask \<and> ask request = Inr answer \<and> valid_request (request_base request)
          \<and> normalize_approval_decision request answer = Inr decision
          \<and> ad_decision decision = Approved)"

lemma execute_edit_changes [inversion]:
  assumes "execute_edit nfkc unified_diff writable fs ws path old_text new_text store = (store', r)"
  shows "store' = store \<and> \<not> succeeds r
    \<or> (\<exists>p raw outcome. resolve_workspace_path fs ws path = Inr p \<and> writable p
         \<and> store p = Some (Utf8_text raw) \<and> edit_text nfkc raw old_text new_text = Inr outcome
         \<and> store' = store(p \<mapsto> Utf8_text (eo_final outcome)) \<and> succeeds r)"
  using assms
  by (auto simp: execute_edit_def Let_def split: sum.splits option.splits file_body.splits
      edit_error.splits if_splits prod.splits)

lemma execute_write_changes [inversion]:
  assumes "execute_write writable fs ws path content store = (store', r)"
  shows "store' = store \<and> \<not> succeeds r
    \<or> (\<exists>p. resolve_workspace_path fs ws path = Inr p \<and> writable p
         \<and> store' = store(p \<mapsto> Utf8_text content) \<and> succeeds r)"
  using assms by (auto simp: execute_write_def split: sum.splits if_splits)

lemma write_approval [inversion]:
  assumes "maybe_request_file_write_approval fs requester uuid label st path action ws mem = Inr mem'"
  shows "write_authorized fs requester st ws path mem"
proof -
  from assms obtain plan where
    "approved_file_access_plan fs requester uuid label st (Some path) action Access_write ws mem
      = Inr (plan, mem')"
    by (auto simp: maybe_request_file_write_approval_def)
  from access_authority [OF this] show ?thesis unfolding write_authorized_def by blast
qed


text \<open>
  The same for the write tool: a file is created or overwritten only with authority for its path, it is
  the file the path resolves to, and it holds the given content.
\<close>

theorem write_tool_needs_authority:
  assumes "write_tool writable fs requester uuid label st ws path content mem store = (store', mem', r)"
  shows "store' = store
    \<or> write_authorized fs requester st ws path mem
      \<and> (\<exists>p. resolve_workspace_path fs ws path = Inr p \<and> store' = store(p \<mapsto> Utf8_text content))"
proof (cases "maybe_request_file_write_approval fs requester uuid label st path ''write'' ws mem")
  case (Inl e)
  with assms show ?thesis by (simp add: write_tool_def)
next
  case (Inr m)
  obtain s r' where x: "execute_write writable fs ws path content store = (s, r')" by fastforce
  with Inr assms have "store' = s" by (auto simp: write_tool_def split: sum.splits)
  with execute_write_changes [OF x] write_approval [OF Inr] show ?thesis by blast
qed

section \<open>Concrete calls\<close>

lemma sample_write_allowed:
  "succeeds (maybe_request_file_write_approval sample_fs None ''u'' '''' build_default_permission_state
     ''/w/a.py'' ''edit'' ''/w'' empty_memory)
   \<and> succeeds (maybe_request_file_write_approval sample_fs None ''u'' '''' build_default_permission_state
     ''/w/a.py'' ''write'' ''/w'' empty_memory)"
  by code_simp

lemma sample_target: "resolve_workspace_path sample_fs ''/w'' ''/w/a.py'' = Inr (PPath 1 [''w'', ''a.py''])"
  by code_simp

theorem write_tool_needs_authority_witness:
  "\<exists>mem' r. write_tool (\<lambda>_. True) sample_fs None ''u'' '''' build_default_permission_state ''/w'' ''/w/a.py''
      [104] empty_memory Map.empty = ([PPath 1 [''w'', ''a.py''] \<mapsto> Utf8_text [104]], mem', r)
    \<and> write_authorized sample_fs None build_default_permission_state ''/w'' ''/w/a.py'' empty_memory"
proof -
  obtain mem' where "maybe_request_file_write_approval sample_fs None ''u'' '''' build_default_permission_state
     ''/w/a.py'' ''write'' ''/w'' empty_memory = Inr mem'"
    using sample_write_allowed by (auto simp: succeeds_iff)
  then obtain r where "write_tool (\<lambda>_. True) sample_fs None ''u'' '''' build_default_permission_state ''/w''
      ''/w/a.py'' [104] empty_memory Map.empty = ([PPath 1 [''w'', ''a.py''] \<mapsto> Utf8_text [104]], mem', r)"
    by (simp add: write_tool_def execute_write_def sample_target)
  with write_tool_needs_authority [OF this] show ?thesis by auto
qed


end
