(* ===== verification/Messages.thy ===== *)
theory Messages
  imports Json_Value
begin

text \<open>
  The messages of a model conversation, as far as the repository's code looks into them: which
  kind of message, which kinds of parts, their tool names and call ids, and the texts. They are the
  data of the \<open>pydantic_ai.messages\<close> package; a kind of part the code never tells from the others
  is \<open>Other_part\<close>, a non-text item of a user prompt is \<open>Item_other\<close>, and the arguments or the
  content of a tool part are nothing, a text, or a value with the text \<open>json.dumps\<close> gives for it.
\<close>

datatype prompt_item = Item_text ustr | Item_other

datatype prompt_content = Prompt_text ustr | Prompt_items "prompt_item list"

datatype tool_payload = No_payload | Payload_text ustr | Payload_json ustr

datatype message_part =
    System_prompt_part ustr
  | User_prompt_part prompt_content
  | Tool_return_part (part_tool_name: string) (part_call_id: string) tool_payload
  | Retry_prompt_part (part_call_id: string) ustr
  | Text_part ustr
  | Thinking_part ustr
  | Tool_call_part (part_tool_name: string) (part_call_id: string) tool_payload
  | Other_part

datatype model_message =
    Model_request (message_parts: "message_part list") (message_instructions: "ustr option")
  | Model_response (message_parts: "message_part list")

text \<open>\<open>dataclasses.replace(message, parts=...)\<close>.\<close>

fun with_parts :: "message_part list \<Rightarrow> model_message \<Rightarrow> model_message" where
  "with_parts ps (Model_request _ i) = Model_request ps i"
| "with_parts ps (Model_response _) = Model_response ps"

fun is_request :: "model_message \<Rightarrow> bool" where
  "is_request (Model_request _ _) = True"
| "is_request (Model_response _) = False"

fun is_system_part :: "message_part \<Rightarrow> bool" where
  "is_system_part (System_prompt_part _) = True"
| "is_system_part _ = False"

fun is_tool_call :: "message_part \<Rightarrow> bool" where
  "is_tool_call (Tool_call_part _ _ _) = True"
| "is_tool_call _ = False"

fun is_tool_return :: "message_part \<Rightarrow> bool" where
  "is_tool_return (Tool_return_part _ _ _) = True"
| "is_tool_return _ = False"

fun is_retry_prompt :: "message_part \<Rightarrow> bool" where
  "is_retry_prompt (Retry_prompt_part _ _) = True"
| "is_retry_prompt _ = False"

fun is_thinking :: "message_part \<Rightarrow> bool" where
  "is_thinking (Thinking_part _) = True"
| "is_thinking _ = False"

fun is_user_prompt :: "message_part \<Rightarrow> bool" where
  "is_user_prompt (User_prompt_part _) = True"
| "is_user_prompt _ = False"

lemma message_parts_with_parts [simp]: "message_parts (with_parts ps m) = ps"
  by (cases m) auto

lemma is_request_with_parts [simp]: "is_request (with_parts ps m) = is_request m"
  by (cases m) auto

lemma with_parts_self [simp]: "with_parts (message_parts m) m = m"
  by (cases m) auto

end
