(* ===== verification/Session_Contract.thy ===== *)
theory Session_Contract
  imports Run_Events Messages
begin

text \<open>
  \<open>contracts/session.py\<close>: the entries of a session log, the loaded session, and its metadata. A
  time is the number of its clock tick.
\<close>

section \<open>Entries\<close>

datatype thinking_setting =
    Thinking_bool bool
  | Thinking_minimal | Thinking_low | Thinking_medium | Thinking_high | Thinking_xhigh

datatype run_mode = Mode_coding | Mode_onboarding

definition session_format_version :: int where
  "session_format_version = 11"

definition session_name_char :: "char \<Rightarrow> bool" where
  "session_name_char c \<longleftrightarrow>
     (let n = (of_char c :: nat) in 97 \<le> n \<and> n \<le> 122 \<or> 48 \<le> n \<and> n \<le> 57)"

text \<open>The pattern of a session name: nonempty runs of letters and digits, joined by dashes.\<close>

definition valid_session_name :: "string \<Rightarrow> bool" where
  "valid_session_name s \<longleftrightarrow>
     (\<forall>w \<in> set (split_on CHR ''-'' s). w \<noteq> [] \<and> list_all session_name_char w)"

record session_header_entry =
  sh_version :: int
  sh_workspace_root :: string
  sh_shell_family :: shell_family

record session_run_entry =
  sr_run_id :: string
  sr_prompt :: ustr
  sr_thinking :: "thinking_setting option"

record session_fork_entry =
  sf_forked_from_session_id :: string
  sf_forked_from_run_id :: "string option"

record project_doc_reference =
  pd_short_path :: ustr
  pd_truncated :: bool

record session_messages_entry =
  sm_run_id :: string
  sm_messages :: "model_message list"

record session_event_entry =
  se_run_id :: string
  se_event :: run_event

datatype mcp_exposure = Exposure_direct | Exposure_deferred

record session_mcp_inventory_tool =
  smt_name :: string
  smt_server_id :: string
  smt_tool_name :: string
  smt_raw_tool_name :: string
  smt_title :: ustr
  smt_description :: ustr
  smt_exposure :: mcp_exposure
  smt_activated :: bool

record session_mcp_inventory_entry =
  smi_run_id :: string
  smi_tools :: "session_mcp_inventory_tool list"

record session_turn_context_entry =
  stc_run_id :: string
  stc_model :: string
  stc_thinking :: "thinking_setting option"
  stc_effective_capabilities :: "effective_capabilities option"
  stc_mcp_inventory :: "session_mcp_inventory_tool list option"
  stc_workspace_root :: string
  stc_shell_family :: shell_family
  stc_current_date :: "ustr option"
  stc_timezone :: "ustr option"
  stc_runtime_context_text :: ustr

record session_permission_grants_entry =
  spg_run_id :: string
  spg_grants :: "permission_grant list"

record session_compaction_entry =
  sc_compaction_id :: string
  sc_compacted_through_run_id :: string
  sc_replacement_messages :: "model_message list"

datatype session_entry =
    Header_entry session_header_entry
  | Fork_entry session_fork_entry
  | Info_entry string
  | Project_docs_entry "project_doc_reference list"
  | Run_entry session_run_entry
  | Messages_entry session_messages_entry
  | Mcp_inventory_entry session_mcp_inventory_entry
  | Event_entry session_event_entry
  | Turn_context_entry session_turn_context_entry
  | Permission_grants_entry session_permission_grants_entry
  | Compaction_entry session_compaction_entry

section \<open>The loaded session\<close>

record session_run_record =
  rr_run_id :: string
  rr_prompt :: ustr
  rr_thinking :: "thinking_setting option"
  rr_messages :: "model_message list"
  rr_events :: "run_event list"
  rr_mcp_inventory :: "session_mcp_inventory_entry option"

record loaded_session =
  lo_header :: session_header_entry
  lo_fork :: "session_fork_entry option"
  lo_name :: "string option"
  lo_project_docs :: "project_doc_reference list option"
  lo_runs :: "session_run_record list"
  lo_latest_turn_context :: "session_turn_context_entry option"
  lo_latest_mcp_inventory :: "session_mcp_inventory_entry option"
  lo_latest_permission_grants :: "session_permission_grants_entry option"
  lo_has_turn_context_history :: bool
  lo_compactions :: "session_compaction_entry list"

definition message_history :: "loaded_session \<Rightarrow> model_message list" where
  "message_history l = concat (map rr_messages (lo_runs l))"

definition session_thinking :: "loaded_session \<Rightarrow> thinking_setting option" where
  "session_thinking l =
     (case find (\<lambda>r. rr_thinking r \<noteq> None) (rev (lo_runs l)) of
        None \<Rightarrow> None
      | Some r \<Rightarrow> rr_thinking r)"

definition latest_compaction :: "loaded_session \<Rightarrow> session_compaction_entry option" where
  "latest_compaction l = (if lo_compactions l = [] then None else Some (last (lo_compactions l)))"

record session_metadata =
  md_session_id :: string
  md_name :: "string option"
  md_current_mode :: run_mode
  md_created_at :: nat
  md_updated_at :: nat
  md_forked_from_session_id :: "string option"
  md_consecutive_auto_compaction_failures :: int

definition new_metadata :: "string \<Rightarrow> nat \<Rightarrow> session_metadata" where
  "new_metadata session_id now =
     \<lparr>md_session_id = session_id, md_name = None, md_current_mode = Mode_coding,
      md_created_at = now, md_updated_at = now, md_forked_from_session_id = None,
      md_consecutive_auto_compaction_failures = 0\<rparr>"

end
