(* ===== verification/Mcp_Manager.thy ===== *)
theory Mcp_Manager
  imports Mcp_Contract Session_Contract "HOL-Library.AList" "HOL-Library.Product_Lexorder"
begin

text \<open>
  The MCP tools a session has: \<open>McpToolDefinition\<close>, \<open>McpServerDefinition\<close> and \<open>McpManager\<close> of
  \<open>runtime/mcp.py\<close>, how the tools a server lists become tools the model can name, and
  \<open>runtime/mcp_inventory.py\<close> with the search tool of \<open>tools/mcp_search.py\<close>, which decides which of
  them the model sees. What a server lists is an input.
\<close>

section \<open>Errors\<close>

datatype manager_error =
    Contract mcp_error
  | Normalizes_to_nothing
  | Tool_title_empty | Tool_description_empty | Schema_not_object | Mounted_mismatch
  | Discovered_name_empty | Discovered_title_empty | Discovered_description_empty
  | Discovered_schema_not_object
  | Listed_without_title string | Listed_without_description string | Listed_invalid string manager_error
  | Display_name_empty | Foreign_tool string | Duplicate_tool string
  | Duplicate_server string | Unknown_server string | Unknown_tool string
  | Same_model_tool_name string | Key_mismatch string string | No_discovered_tools string
  | Inventory_key_error string

section \<open>Raw tool names\<close>

text \<open>
  \<open>re.sub("[^a-z0-9_]+", "_", \<dots>)\<close>: every run of characters that no name may hold becomes one
  underscore (the flag says that the run before is already replaced), and \<open>re.sub("_+", "_", \<dots>)\<close>.
\<close>

fun sub_invalid :: "bool \<Rightarrow> string \<Rightarrow> string" where
  "sub_invalid replaced [] = []"
| "sub_invalid replaced (c # s) =
     (if mcp_name_char c then c # sub_invalid False s
      else if replaced then sub_invalid True s
      else CHR ''_'' # sub_invalid True s)"

fun single_underscores :: "bool \<Rightarrow> string \<Rightarrow> string" where
  "single_underscores replaced [] = []"
| "single_underscores replaced (c # s) =
     (if c \<noteq> CHR ''_'' then c # single_underscores False s
      else if replaced then single_underscores True s
      else CHR ''_'' # single_underscores True s)"

definition strip_char :: "(char \<Rightarrow> bool) \<Rightarrow> string \<Rightarrow> string" where
  "strip_char P s = rev (dropWhile P (rev (dropWhile P s)))"

text \<open>
  The white space that is stripped is that of ASCII: any other becomes an underscore, and those at
  the ends are stripped afterwards. Lower-casing is a parameter, as a function on UTF-8 bytes.
\<close>

definition ascii_space :: "char \<Rightarrow> bool" where
  "ascii_space c \<longleftrightarrow> (let n = (of_char c :: nat) in 9 \<le> n \<and> n \<le> 13 \<or> 28 \<le> n \<and> n \<le> 32)"

definition mcp_digit :: "char \<Rightarrow> bool" where
  "mcp_digit c \<longleftrightarrow> (let n = (of_char c :: nat) in 48 \<le> n \<and> n \<le> 57)"

definition normalize_raw_tool_name :: "(string \<Rightarrow> string) \<Rightarrow> string \<Rightarrow> (manager_error, string) result" where
  "normalize_raw_tool_name lower raw_tool_name =
     (let normalized = sub_invalid False (lower (strip_char ascii_space raw_tool_name));
          normalized = strip_char (\<lambda>c. c = CHR ''_'') (single_underscores False normalized)
      in if normalized = [] then Inl Normalizes_to_nothing
         else if mcp_digit (hd normalized) then Inr (''tool_'' @ normalized)
         else Inr normalized)"

definition configured_server_allows_tool :: "mcp_server_config \<Rightarrow> string \<Rightarrow> bool" where
  "configured_server_allows_tool config raw_tool_name =
     (if msc_enabled_tools config \<noteq> None \<and> raw_tool_name \<notin> set (the (msc_enabled_tools config)) then False
      else if msc_disabled_tools config \<noteq> None \<and> raw_tool_name \<in> set (the (msc_disabled_tools config)) then False
      else True)"

section \<open>Tools and servers\<close>

type_synonym json_object = "(ustr \<times> json) list"

record mcp_tool_definition =
  mtd_identity :: mcp_tool_identity
  mtd_title :: ustr
  mtd_description :: ustr
  mtd_input_schema :: json_object
  mtd_sequential :: bool
  mtd_mounted_identity :: "mcp_mounted_tool_identity option"

definition is_object_schema :: "json_object \<Rightarrow> bool" where
  "is_object_schema schema \<longleftrightarrow> map_of schema (lit ''type'') = Some (JStr (lit ''object''))"

definition mounted_model_identity :: "mcp_mounted_tool_identity \<Rightarrow> (manager_error, mcp_tool_identity) result" where
  "mounted_model_identity m = lift_error Contract (parse_mcp_model_tool_name (mmt_model_tool_name m))"

definition validate_tool_definition :: "mcp_tool_definition \<Rightarrow> (manager_error, mcp_tool_definition) result" where
  "validate_tool_definition t =
     (if mtd_title t = [] then Inl Tool_title_empty
      else if mtd_description t = [] then Inl Tool_description_empty
      else if \<not> is_object_schema (mtd_input_schema t) then Inl Schema_not_object
      else (case mtd_mounted_identity t of
              None \<Rightarrow> Inr t
            | Some m \<Rightarrow> res_bind (mounted_model_identity m)
                (\<lambda>identity. if identity \<noteq> mtd_identity t then Inl Mounted_mismatch else Inr t)))"

text \<open>The computed field of an identity, whose parts its validator has accepted.\<close>

definition identity_model_tool_name :: "mcp_tool_identity \<Rightarrow> string" where
  "identity_model_tool_name i = mcp_tool_name_prefix @ mti_server_id i @ ''__'' @ mti_tool_name i"

definition model_tool_name :: "mcp_tool_definition \<Rightarrow> string" where
  "model_tool_name t = identity_model_tool_name (mtd_identity t)"

definition raw_tool_name :: "mcp_tool_definition \<Rightarrow> string" where
  "raw_tool_name t =
     (case mtd_mounted_identity t of Some m \<Rightarrow> mmt_raw_tool_name m | None \<Rightarrow> mti_tool_name (mtd_identity t))"

record mcp_discovered_tool =
  mdt_raw_tool_name :: string
  mdt_title :: ustr
  mdt_description :: ustr
  mdt_input_schema :: json_object
  mdt_sequential :: bool

definition validate_discovered_tool :: "mcp_discovered_tool \<Rightarrow> (manager_error, mcp_discovered_tool) result" where
  "validate_discovered_tool t =
     (if mdt_raw_tool_name t = [] then Inl Discovered_name_empty
      else if mdt_title t = [] then Inl Discovered_title_empty
      else if mdt_description t = [] then Inl Discovered_description_empty
      else if \<not> is_object_schema (mdt_input_schema t) then Inl Discovered_schema_not_object
      else Inr t)"

text \<open>A tool as the protocol's package reports it.\<close>

record mcp_sdk_tool =
  sdk_name :: string
  sdk_title :: "ustr option"
  sdk_description :: "ustr option"
  sdk_input_schema :: json_object

definition discovered_tool_from_mcp_sdk_tool :: "mcp_sdk_tool \<Rightarrow> (manager_error, mcp_discovered_tool) result" where
  "discovered_tool_from_mcp_sdk_tool t =
     (case sdk_title t of
        None \<Rightarrow> Inl (Listed_without_title (sdk_name t))
      | Some title \<Rightarrow>
          if title = [] then Inl (Listed_without_title (sdk_name t))
          else (case sdk_description t of
                  None \<Rightarrow> Inl (Listed_without_description (sdk_name t))
                | Some description \<Rightarrow>
                    if description = [] then Inl (Listed_without_description (sdk_name t))
                    else lift_error (Listed_invalid (sdk_name t))
                      (validate_discovered_tool
                        \<lparr>mdt_raw_tool_name = sdk_name t, mdt_title = title,
                         mdt_description = description, mdt_input_schema = sdk_input_schema t,
                         mdt_sequential = True\<rparr>)))"

fun discover_pydantic_ai_mcp_tools :: "mcp_sdk_tool list \<Rightarrow> (manager_error, mcp_discovered_tool list) result" where
  "discover_pydantic_ai_mcp_tools [] = Inr []"
| "discover_pydantic_ai_mcp_tools (t # ts) =
     res_bind (discovered_tool_from_mcp_sdk_tool t)
       (\<lambda>d. res_bind (discover_pydantic_ai_mcp_tools ts) (\<lambda>ds. Inr (d # ds)))"

record mcp_server_definition =
  msd_server_id :: string
  msd_display_name :: string
  msd_tools :: "mcp_tool_definition list"
  msd_resource_uri_patterns :: "string list"

fun check_server_tools :: "string \<Rightarrow> string set \<Rightarrow> mcp_tool_definition list \<Rightarrow> (manager_error, unit) result" where
  "check_server_tools server_id seen [] = Inr ()"
| "check_server_tools server_id seen (t # ts) =
     (if mti_server_id (mtd_identity t) \<noteq> server_id then Inl (Foreign_tool (model_tool_name t))
      else if mti_tool_name (mtd_identity t) \<in> seen
        then Inl (Duplicate_tool (mti_tool_name (mtd_identity t)))
      else check_server_tools server_id (insert (mti_tool_name (mtd_identity t)) seen) ts)"

definition validate_server_definition ::
    "mcp_server_definition \<Rightarrow> (manager_error, mcp_server_definition) result" where
  "validate_server_definition s =
     res_bind (lift_error Contract (make_mcp_model_tool_name (msd_server_id s) ''server_probe''))
       (\<lambda>_. if msd_display_name s = [] then Inl Display_name_empty
            else res_bind (check_server_tools (msd_server_id s) {} (msd_tools s)) (\<lambda>_. Inr s))"

section \<open>The manager\<close>

text \<open>The servers by id, in the order they were given.\<close>

type_synonym mcp_manager = "(string \<times> mcp_server_definition) list"

definition add_server :: "mcp_manager \<Rightarrow> mcp_server_definition \<Rightarrow> (manager_error, mcp_manager) result" where
  "add_server m s =
     (if msd_server_id s \<in> fst ` set m then Inl (Duplicate_server (msd_server_id s))
      else Inr (m @ [(msd_server_id s, s)]))"

definition make_manager :: "mcp_server_definition list \<Rightarrow> (manager_error, mcp_manager) result" where
  "make_manager servers = run_steps add_server [] servers"

definition get_server :: "mcp_manager \<Rightarrow> string \<Rightarrow> (manager_error, mcp_server_definition) result" where
  "get_server m server_id =
     (case map_of m server_id of None \<Rightarrow> Inl (Unknown_server server_id) | Some s \<Rightarrow> Inr s)"

text \<open>The tools of every server, what \<open>discover_tools\<close> gives without a server id.\<close>

definition all_tools :: "mcp_manager \<Rightarrow> mcp_tool_definition list" where
  "all_tools m = concat (map (msd_tools \<circ> snd) m)"

definition discover_tools ::
    "mcp_manager \<Rightarrow> string option \<Rightarrow> (manager_error, mcp_tool_definition list) result" where
  "discover_tools m server_id =
     (case server_id of
        Some i \<Rightarrow> res_bind (get_server m i) (\<lambda>s. Inr (msd_tools s))
      | None \<Rightarrow> Inr (all_tools m))"

definition get_tool :: "mcp_manager \<Rightarrow> string \<Rightarrow> (manager_error, mcp_tool_definition) result" where
  "get_tool m name =
     res_bind (lift_error Contract (parse_mcp_model_tool_name name))
       (\<lambda>identity. res_bind (get_server m (mti_server_id identity))
       (\<lambda>server.
          case find (\<lambda>t. mti_tool_name (mtd_identity t) = mti_tool_name identity) (msd_tools server) of
            None \<Rightarrow> Inl (Unknown_tool name)
          | Some t \<Rightarrow> Inr t))"

section \<open>Servers of the configuration\<close>

text \<open>One tool a server lists: skipped by the configuration, or added under its model name.\<close>

definition mount_tool ::
    "(string \<Rightarrow> string) \<Rightarrow> mcp_server_config \<Rightarrow> mcp_tool_definition list \<times> string set
     \<Rightarrow> mcp_discovered_tool \<Rightarrow> (manager_error, mcp_tool_definition list \<times> string set) result" where
  "mount_tool lower config st d =
     (case st of (tools, seen) \<Rightarrow>
       if \<not> configured_server_allows_tool config (mdt_raw_tool_name d) then Inr (tools, seen)
       else res_bind (normalize_raw_tool_name lower (mdt_raw_tool_name d))
         (\<lambda>tool_name. res_bind
            (lift_error Contract (make_mcp_model_tool_name (msc_server_id config) tool_name))
         (\<lambda>name.
            if name \<in> seen then Inl (Same_model_tool_name name)
            else res_bind (lift_error Contract (validate_mounted_identity
                \<lparr>mmt_server_id = msc_server_id config, mmt_raw_tool_name = mdt_raw_tool_name d,
                 mmt_model_tool_name = name\<rparr>))
              (\<lambda>mounted. res_bind (mounted_model_identity mounted)
              (\<lambda>identity. res_bind (validate_tool_definition
                \<lparr>mtd_identity = identity, mtd_title = mdt_title d, mtd_description = mdt_description d,
                 mtd_input_schema = mdt_input_schema d, mtd_sequential = mdt_sequential d,
                 mtd_mounted_identity = Some mounted\<rparr>)
              (\<lambda>t. Inr (tools @ [t], insert name seen)))))))"

definition server_definition_from_config ::
    "(string \<Rightarrow> string) \<Rightarrow> mcp_server_config \<Rightarrow> mcp_discovered_tool list
     \<Rightarrow> (manager_error, mcp_server_definition) result" where
  "server_definition_from_config lower config discovered =
     res_bind (run_steps (mount_tool lower config) ([], {}) discovered)
       (\<lambda>(tools, seen). validate_server_definition
          \<lparr>msd_server_id = msc_server_id config, msd_display_name = msc_server_id config,
           msd_tools = tools, msd_resource_uri_patterns = []\<rparr>)"

definition add_configured_server ::
    "(string \<Rightarrow> string) \<Rightarrow> (string \<rightharpoonup> mcp_discovered_tool list) \<Rightarrow> mcp_server_definition list
     \<Rightarrow> string \<times> mcp_server_config \<Rightarrow> (manager_error, mcp_server_definition list) result" where
  "add_configured_server lower discovered servers item =
     (case item of (server_id, config) \<Rightarrow>
       if server_id \<noteq> msc_server_id config then Inl (Key_mismatch server_id (msc_server_id config))
       else if \<not> msc_enabled config then Inr servers
       else (case discovered server_id of
               None \<Rightarrow> Inl (No_discovered_tools server_id)
             | Some tools \<Rightarrow>
                 res_bind (server_definition_from_config lower config tools)
                   (\<lambda>s. Inr (servers @ [s]))))"

definition build_effective_mcp_manager ::
    "(string \<Rightarrow> string) \<Rightarrow> (string \<times> mcp_server_config) list \<Rightarrow> (string \<rightharpoonup> mcp_discovered_tool list)
     \<Rightarrow> mcp_server_definition list \<Rightarrow> (manager_error, mcp_manager) result" where
  "build_effective_mcp_manager lower configured discovered builtin =
     res_bind (run_steps (add_configured_server lower discovered) builtin configured) make_manager"

section \<open>What the model sees\<close>

record mcp_tool_exposure =
  mte_direct_tool_names :: "string list"
  mte_deferred_tool_names :: "string list"

definition search_tool_required :: "mcp_tool_exposure \<Rightarrow> bool" where
  "search_tool_required e \<longleftrightarrow> mte_deferred_tool_names e \<noteq> []"

definition model_visible_tool_names :: "mcp_tool_exposure \<Rightarrow> string list" where
  "model_visible_tool_names e =
     (if search_tool_required e then mte_direct_tool_names e @ [''mcp_search''] else mte_direct_tool_names e)"

definition direct_mcp_tool_exposure_threshold :: nat where
  "direct_mcp_tool_exposure_threshold = 100"

definition build_mcp_tool_exposure :: "nat \<Rightarrow> string list \<Rightarrow> mcp_tool_exposure" where
  "build_mcp_tool_exposure direct_threshold names =
     (if length names \<le> direct_threshold
      then \<lparr>mte_direct_tool_names = names, mte_deferred_tool_names = []\<rparr>
      else \<lparr>mte_direct_tool_names = [], mte_deferred_tool_names = names\<rparr>)"

record mcp_tool_inventory_item =
  mii_name :: string
  mii_server_id :: string
  mii_tool_name :: string
  mii_raw_tool_name :: string
  mii_title :: ustr
  mii_description :: ustr
  mii_deferred :: bool

record mcp_tool_inventory =
  inv_items_by_name :: "(string \<times> mcp_tool_inventory_item) list"
  inv_direct_tool_names :: "string list"
  inv_deferred_tool_names :: "string list"
  inv_activated :: "string set"

definition inventory_item :: "string list \<Rightarrow> mcp_tool_definition \<Rightarrow> mcp_tool_inventory_item" where
  "inventory_item deferred t =
     \<lparr>mii_name = model_tool_name t, mii_server_id = mti_server_id (mtd_identity t),
      mii_tool_name = mti_tool_name (mtd_identity t), mii_raw_tool_name = raw_tool_name t,
      mii_title = mtd_title t, mii_description = mtd_description t,
      mii_deferred = model_tool_name t \<in> set deferred\<rparr>"

definition add_inventory_item ::
    "string list \<Rightarrow> string list \<Rightarrow> mcp_tool_definition
     \<Rightarrow> (string \<times> mcp_tool_inventory_item) list \<Rightarrow> (string \<times> mcp_tool_inventory_item) list" where
  "add_inventory_item direct deferred t items =
     (if model_tool_name t \<notin> set direct \<and> model_tool_name t \<notin> set deferred then items
      else AList.update (model_tool_name t) (inventory_item deferred t) items)"

definition inventory_from_manager :: "mcp_manager \<Rightarrow> string list \<Rightarrow> string list \<Rightarrow> mcp_tool_inventory" where
  "inventory_from_manager m direct deferred =
     \<lparr>inv_items_by_name = fold (add_inventory_item direct deferred) (all_tools m) [],
      inv_direct_tool_names = direct, inv_deferred_tool_names = deferred, inv_activated = {}\<rparr>"

definition visible_deferred_tool_names :: "mcp_tool_inventory \<Rightarrow> string list" where
  "visible_deferred_tool_names iv =
     filter (\<lambda>name. name \<in> inv_activated iv) (inv_deferred_tool_names iv)"

definition activate_tool :: "mcp_tool_inventory \<Rightarrow> string \<Rightarrow> (manager_error, mcp_tool_inventory) result" where
  "activate_tool iv name =
     (if name \<notin> fst ` set (inv_items_by_name iv) then Inl (Inventory_key_error name)
      else if name \<in> set (inv_deferred_tool_names iv)
        then Inr (iv\<lparr>inv_activated := insert name (inv_activated iv)\<rparr>)
      else Inr iv)"

definition to_session_snapshot :: "mcp_tool_inventory \<Rightarrow> session_mcp_inventory_tool list" where
  "to_session_snapshot iv =
     map (\<lambda>(_, item).
       \<lparr>smt_name = mii_name item, smt_server_id = mii_server_id item, smt_tool_name = mii_tool_name item,
        smt_raw_tool_name = mii_raw_tool_name item, smt_title = mii_title item,
        smt_description = mii_description item,
        smt_exposure = (if mii_deferred item then Exposure_deferred else Exposure_direct),
        smt_activated = (mii_name item \<in> inv_activated iv)\<rparr>)
       (inv_items_by_name iv)"

definition to_session_entry :: "string \<Rightarrow> mcp_tool_inventory \<Rightarrow> session_mcp_inventory_entry" where
  "to_session_entry run_id iv = \<lparr>smi_run_id = run_id, smi_tools = to_session_snapshot iv\<rparr>"

section \<open>Searching\<close>

definition haystacks :: "(ustr \<Rightarrow> ustr) \<Rightarrow> mcp_tool_inventory_item \<Rightarrow> ustr list" where
  "haystacks lower item =
     [lower (lit (mii_name item)), lower (lit (mii_server_id item)), lower (lit (mii_tool_name item)),
      lower (mii_title item), lower (mii_description item)]"

definition search_score :: "(ustr \<Rightarrow> ustr) \<Rightarrow> ustr \<Rightarrow> mcp_tool_inventory_item \<Rightarrow> int" where
  "search_score lower q item =
     (if contains (lower (lit (mii_name item))) q then 4 else 0)
     + (if contains (lower (mii_title item)) q then 3 else 0)
     + (if contains (lower (mii_description item)) q then 1 else 0)"

definition inventory_search ::
    "(ustr \<Rightarrow> ustr) \<Rightarrow> ustr \<Rightarrow> nat \<Rightarrow> mcp_tool_inventory \<Rightarrow> mcp_tool_inventory_item list" where
  "inventory_search lower query limit iv =
     (let q = lower (strip query) in
      if q = [] then []
      else (let hits = filter (\<lambda>(index, item). \<exists>h \<in> set (haystacks lower item). contains h q)
                         (List.enumerate 0 (map snd (inv_items_by_name iv)));
                scored = map (\<lambda>(index, item). (- search_score lower q item, index, item)) hits
            in take limit (map (\<lambda>(_, _, item). item)
                 (sort_key (\<lambda>(score, index, _). (score, index)) scored))))"

record mcp_search_result =
  msr_matches :: "mcp_tool_inventory_item list"
  msr_result_count :: nat
  msr_activated_tool_names :: "string list"

definition mcp_search ::
    "(ustr \<Rightarrow> ustr) \<Rightarrow> ustr \<Rightarrow> nat \<Rightarrow> mcp_tool_inventory
     \<Rightarrow> (manager_error, mcp_tool_inventory \<times> mcp_search_result) result" where
  "mcp_search lower query limit iv =
     (let matches = inventory_search lower query limit iv in
      res_bind (run_steps activate_tool iv (map mii_name matches))
        (\<lambda>iv'. Inr (iv', \<lparr>msr_matches = matches, msr_result_count = length matches,
                            msr_activated_tool_names = map mii_name (filter mii_deferred matches)\<rparr>)))"

section \<open>The tools of a toolset\<close>

fun get_tools :: "mcp_manager \<Rightarrow> string list \<Rightarrow> (manager_error, mcp_tool_definition list) result" where
  "get_tools m [] = Inr []"
| "get_tools m (name # names) =
     res_bind (get_tool m name) (\<lambda>t. res_bind (get_tools m names) (\<lambda>ts. Inr (t # ts)))"

definition discover_requested_tools ::
    "mcp_manager \<Rightarrow> string list option \<Rightarrow> string list \<Rightarrow> mcp_tool_inventory
     \<Rightarrow> (manager_error, mcp_tool_definition list) result" where
  "discover_requested_tools m tool_names deferred_tool_names iv =
     (case tool_names of
        None \<Rightarrow> discover_tools m None
      | Some names \<Rightarrow>
          get_tools m (filter (\<lambda>name. name \<notin> set deferred_tool_names \<or> name \<in> inv_activated iv)
            (names @ visible_deferred_tool_names iv)))"

section \<open>Names are valid\<close>

lemma contains_sublist: "contains s w \<longleftrightarrow> sublist w s"
  by (induction s) (auto simp: startswith_def sublist_Cons_right)

lemma sub_invalid_chars: "list_all mcp_name_char (sub_invalid r s)"
  by (induction r s rule: sub_invalid.induct) (auto simp: mcp_name_char_def)

lemma sub_invalid_valid: "list_all mcp_name_char s \<Longrightarrow> sub_invalid r s = s"
  by (induction s arbitrary: r) auto

lemma single_underscores_subset: "set (single_underscores r s) \<subseteq> set s"
  by (induction r s rule: single_underscores.induct) auto

lemma single_underscores_hd: "single_underscores True s \<noteq> [] \<Longrightarrow> hd (single_underscores True s) \<noteq> CHR ''_''"
  by (induction s) auto

lemma single_underscores_single: "\<not> contains (single_underscores r s) ''__''"
proof (induction r s rule: single_underscores.induct)
  case (2 r c s)
  moreover have "\<not> startswith (CHR ''_'' # single_underscores True s) ''__''"
    using single_underscores_hd [of s] by (cases "single_underscores True s") (auto simp: startswith_def)
  ultimately show ?case by (auto simp: startswith_def)
qed (simp add: startswith_def)

lemma single_underscores_id:
  "\<not> contains (if r then CHR ''_'' # s else s) ''__'' \<Longrightarrow> single_underscores r s = s"
proof (induction r s rule: single_underscores.induct)
  case (2 r c s)
  then show ?case by (cases s) (auto simp: startswith_def split: if_splits)
qed simp

lemma strip_char_prefix: "prefix (strip_char P s) (dropWhile P s)"
  by (metis strip_char_def suffix_dropWhile suffix_to_prefix rev_rev_ident)

lemma strip_char_sublist: "sublist (strip_char P s) s"
proof -
  have "suffix (dropWhile P s) s" by (rule suffix_dropWhile)
  with strip_char_prefix show ?thesis by (meson prefix_imp_sublist suffix_imp_sublist sublist_order.order_trans)
qed

lemma strip_char_ends:
  assumes "strip_char P s \<noteq> []"
  shows "\<not> P (hd (strip_char P s)) \<and> \<not> P (last (strip_char P s))"
proof
  from assms have ne: "dropWhile P s \<noteq> []"
    by (metis strip_char_def rev.simps(1) dropWhile.simps(1))
  from assms strip_char_prefix have "hd (strip_char P s) = hd (dropWhile P s)" by (metis hd_append2 prefix_def)
  with ne show "\<not> P (hd (strip_char P s))" by (simp add: hd_dropWhile_not)
  from assms show "\<not> P (last (strip_char P s))"
    by (simp add: strip_char_def last_rev hd_dropWhile_not)
qed

lemma strip_char_id: "s = [] \<or> \<not> P (hd s) \<and> \<not> P (last s) \<Longrightarrow> strip_char P s = s"
  by (cases "s = []") (auto simp: strip_char_def dropWhile_id hd_rev)

lemma normalized_name:
  assumes "normalize_raw_tool_name lower raw = Inr n"
  shows "mcp_name n \<and> last n \<noteq> CHR ''_''"
proof -
  let ?t = "single_underscores False (sub_invalid False (lower (strip_char ascii_space raw)))"
  let ?n = "strip_char (\<lambda>c. c = CHR ''_'') ?t"
  from assms have ne: "?n \<noteq> []" and n: "n = (if mcp_digit (hd ?n) then ''tool_'' @ ?n else ?n)"
    by (auto simp: normalize_raw_tool_name_def Let_def split: if_splits)
  have sub: "sublist ?n ?t" by (rule strip_char_sublist)
  then have "set ?n \<subseteq> set ?t" by (rule set_mono_sublist)
  with single_underscores_subset have chars: "list_all mcp_name_char ?n"
    using sub_invalid_chars by (fastforce simp: list_all_iff)
  have single: "\<not> contains ?n ''__''"
    using sub single_underscores_single sublist_order.order_trans unfolding contains_sublist by blast
  note ends = strip_char_ends [OF ne]
  have lst: "last n \<noteq> CHR ''_''" using ends ne by (auto simp: n)
  have "mcp_name_pattern n \<and> \<not> contains n ''__''"
  proof (cases "mcp_digit (hd ?n)")
    case True
    have "\<not> contains (''_'' @ ?n) ''__''"
      using single ends ne by (cases ?n) (auto simp: startswith_def)
    then have "\<not> contains (''tool_'' @ ?n) ''__''" by (simp add: startswith_def)
    with True chars show ?thesis by (simp add: n mcp_name_pattern_def mcp_lower_def mcp_name_char_def)
  next
    case False
    moreover have "mcp_name_char (hd ?n)" using chars ne by (cases ?n) auto
    ultimately have "mcp_lower (hd ?n)" using ends by (auto simp: mcp_name_char_def mcp_digit_def)
    with False chars single ne show ?thesis
      by (auto simp: n mcp_name_pattern_def split: list.splits)
  qed
  with lst show ?thesis by (auto simp: mcp_name_def validate_mcp_name_def mcp_name_pattern_def)
qed

lemma name_chars: "mcp_name n \<Longrightarrow> list_all mcp_name_char n"
  by (drule mcp_nameD) (auto simp: mcp_name_pattern_def mcp_name_char_def split: list.splits)

lemma normalized_fixed:
  assumes "mcp_name n" and "last n \<noteq> CHR ''_''" and "lower n = n"
  shows "normalize_raw_tool_name lower n = Inr n"
proof -
  note d = mcp_nameD [OF assms(1)]
  from d have ne: "n \<noteq> []" and hd: "mcp_lower (hd n)"
    by (auto simp: mcp_name_pattern_def split: list.splits)
  have "\<not> ascii_space c" if "mcp_name_char c" for c
    using that by (auto simp: ascii_space_def mcp_name_char_def mcp_lower_def Let_def)
  moreover have "mcp_name_char (hd n)" "mcp_name_char (last n)"
    using name_chars [OF assms(1)] ne by (auto simp: list_all_iff)
  ultimately have s: "strip_char ascii_space n = n" by (intro strip_char_id) simp
  have u: "single_underscores False n = n" using d by (intro single_underscores_id) simp
  have "hd n \<noteq> CHR ''_''" using hd by (auto simp: mcp_lower_def)
  with assms(2) have t: "strip_char (\<lambda>c. c = CHR ''_'') n = n" by (intro strip_char_id) simp
  have "\<not> mcp_digit (hd n)" using hd by (auto simp: mcp_lower_def mcp_digit_def Let_def)
  with ne assms(3) show ?thesis
    by (simp add: normalize_raw_tool_name_def s sub_invalid_valid [OF name_chars [OF assms(1)]] u t)
qed

text \<open>
  Whatever a server calls a tool, the name it is normalized to is a valid name that does not end
  with an underscore, and normalizing it again changes nothing, as long as lower-casing leaves
  lower-case names alone.
\<close>

theorem normalized_names_are_valid:
  assumes "normalize_raw_tool_name lower raw = Inr n" and "\<And>s. mcp_name s \<Longrightarrow> lower s = s"
  shows "validate_mcp_name n = Inr n \<and> last n \<noteq> CHR ''_'' \<and> normalize_raw_tool_name lower n = Inr n"
  using normalized_name [OF assms(1)] normalized_fixed [of n lower] assms(2) by simp

section \<open>The shipped servers\<close>

definition json_strings :: "nat \<Rightarrow> nat \<Rightarrow> json" where
  "json_strings least most =
     JObj [(lit ''type'', JStr (lit ''array'')), (lit ''items'', JObj [(lit ''type'', JStr (lit ''string''))]),
           (lit ''minItems'', JInt (int least)), (lit ''maxItems'', JInt (int most))]"

definition json_type :: "string \<Rightarrow> (ustr \<times> json) list \<Rightarrow> json" where
  "json_type name rest = JObj ((lit ''type'', JStr (lit name)) # rest)"

definition object_schema :: "(string \<times> json) list \<Rightarrow> string list \<Rightarrow> json_object" where
  "object_schema properties required =
     [(lit ''type'', JStr (lit ''object'')),
      (lit ''properties'', JObj (map (\<lambda>(name, schema). (lit name, schema)) properties)),
      (lit ''required'', JList (map (JStr \<circ> lit) required)),
      (lit ''additionalProperties'', JBool False)]"

definition jaca_onboarding_mcp_server_id :: string where
  "jaca_onboarding_mcp_server_id = ''jaca_onboarding''"

definition builtin_tool :: "string \<Rightarrow> string \<Rightarrow> string \<Rightarrow> json_object \<Rightarrow> mcp_tool_definition" where
  "builtin_tool name title description schema =
     \<lparr>mtd_identity = \<lparr>mti_server_id = jaca_onboarding_mcp_server_id, mti_tool_name = name\<rparr>,
      mtd_title = lit title, mtd_description = lit description, mtd_input_schema = schema,
      mtd_sequential = True, mtd_mounted_identity = None\<rparr>"

definition ask_mcq_tool :: mcp_tool_definition where
  "ask_mcq_tool =
     builtin_tool ''ask_mcq_question'' ''Ask MCQ question''
       ''Ask one backend-rendered onboarding MCQ question.''
       (object_schema
         [(''question'', json_type ''string'' []), (''packet_ids'', json_strings 1 3),
          (''options'', json_strings 4 4),
          (''correct_index'',
            json_type ''integer'' [(lit ''minimum'', JInt 0), (lit ''maximum'', JInt 3)]),
          (''explanation'', json_type ''string'' [])]
         [''packet_ids'', ''question'', ''options'', ''correct_index'', ''explanation''])"

definition generate_mcq_tool :: mcp_tool_definition where
  "generate_mcq_tool =
     builtin_tool ''generate_mcq_from_teaching_packets'' ''Generate MCQ from teaching packets''
       ''Draft one MCQ from previously published teaching packets.''
       (object_schema [(''packet_ids'', json_strings 1 3)] [''packet_ids''])"

definition publish_teaching_packet_tool :: mcp_tool_definition where
  "publish_teaching_packet_tool =
     builtin_tool ''publish_teaching_packet'' ''Publish teaching packet''
       ''Publish one onboarding teaching packet with code-file snippets only; use docs for grounding, not snippets.''
       (object_schema
         [(''title'', json_type ''string'' []), (''concept'', json_type ''string'' []),
          (''relationships'',
            json_type ''array''
              [(lit ''items'', JObj (object_schema [(''statement'', json_type ''string'' [])] [''statement''])),
               (lit ''minItems'', JInt 1)]),
          (''snippets'',
            json_type ''array''
              [(lit ''items'', JObj (object_schema
                  [(''path'', json_type ''string'' []),
                   (''start_line'', json_type ''integer'' [(lit ''minimum'', JInt 1)]),
                   (''end_line'', json_type ''integer'' [(lit ''minimum'', JInt 1)])]
                  [''path'', ''start_line'', ''end_line''])),
               (lit ''minItems'', JInt 2), (lit ''maxItems'', JInt 5)])]
         [''title'', ''concept'', ''relationships'', ''snippets''])"

definition default_builtin_mcp_servers :: "mcp_server_definition list" where
  "default_builtin_mcp_servers =
     [\<lparr>msd_server_id = jaca_onboarding_mcp_server_id, msd_display_name = ''JACA Onboarding'',
       msd_tools = [ask_mcq_tool, generate_mcq_tool, publish_teaching_packet_tool],
       msd_resource_uri_patterns =
         [''jaca://onboarding/guide'', ''jaca://onboarding/code-mode'', ''jaca://onboarding/tools'',
          ''jaca://teaching-packets/{packet_id}'']\<rparr>]"

definition build_default_mcp_manager :: "(manager_error, mcp_manager) result" where
  "build_default_mcp_manager = make_manager default_builtin_mcp_servers"

section \<open>A tool is found by its name\<close>

definition good_server :: "mcp_server_definition \<Rightarrow> bool" where
  "good_server s \<longleftrightarrow>
     distinct (map (\<lambda>t. mti_tool_name (mtd_identity t)) (msd_tools s))
     \<and> (\<forall>t \<in> set (msd_tools s). mti_server_id (mtd_identity t) = msd_server_id s
          \<and> parse_mcp_model_tool_name (model_tool_name t) = Inr (mtd_identity t))"

lemma parsed_identity_name:
  "parse_mcp_model_tool_name name = Inr i \<Longrightarrow> identity_model_tool_name i = name"
  using parsed_name_is_made [of name i] by (simp add: made_name identity_model_tool_name_def)

lemma checked_tools:
  "succeeds (check_server_tools i seen ts) \<longleftrightarrow>
     distinct (map (\<lambda>t. mti_tool_name (mtd_identity t)) ts)
     \<and> (\<forall>t \<in> set ts. mti_server_id (mtd_identity t) = i \<and> mti_tool_name (mtd_identity t) \<notin> seen)"
proof (induction ts arbitrary: seen)
  case (Cons t ts)
  let ?n = "\<lambda>t. mti_tool_name (mtd_identity t)"
  have "(\<forall>x \<in> set ts. ?n x \<notin> insert (?n t) seen) \<longleftrightarrow> ?n t \<notin> ?n ` set ts \<and> (\<forall>x \<in> set ts. ?n x \<notin> seen)"
    by (simp add: image_iff) metis
  then show ?case by (simp add: Cons.IH) blast
qed simp

lemma validated_server:
  "validate_server_definition s = Inr s' \<longleftrightarrow>
     s' = s \<and> mcp_name (msd_server_id s) \<and> msd_display_name s \<noteq> []
     \<and> distinct (map (\<lambda>t. mti_tool_name (mtd_identity t)) (msd_tools s))
     \<and> (\<forall>t \<in> set (msd_tools s). mti_server_id (mtd_identity t) = msd_server_id s)"
proof -
  have p: "mcp_name ''server_probe''" by code_simp
  have "(\<exists>u. check_server_tools (msd_server_id s) {} (msd_tools s) = Inr u)
      = succeeds (check_server_tools (msd_server_id s) {} (msd_tools s))"
    by (simp add: succeeds_iff)
  with p show ?thesis
    by (auto simp: validate_server_definition_def made_name checked_tools split: if_splits)
qed

lemma default_servers_good: "\<forall>s \<in> set default_builtin_mcp_servers. good_server s"
proof -
  have "parse_mcp_model_tool_name (model_tool_name (builtin_tool n title description schema))
      = Inr (mtd_identity (builtin_tool n title description schema))" if "mcp_name n"
    for n title description schema
  proof -
    have "mcp_name ''jaca_onboarding''" by code_simp
    from name_parses [OF this that] show ?thesis
      by (simp add: builtin_tool_def model_tool_name_def identity_model_tool_name_def
          jaca_onboarding_mcp_server_id_def del: append.simps)
  qed
  moreover have "mcp_name ''ask_mcq_question''"
    "mcp_name ''generate_mcq_from_teaching_packets''" "mcp_name ''publish_teaching_packet''"
    by code_simp+
  moreover have "mti_tool_name (mtd_identity (builtin_tool n title description schema)) = n"
    "mti_server_id (mtd_identity (builtin_tool n title description schema)) = jaca_onboarding_mcp_server_id"
    for n title description schema
    by (simp_all add: builtin_tool_def)
  ultimately show ?thesis
    by (simp add: default_builtin_mcp_servers_def good_server_def ask_mcq_tool_def generate_mcq_tool_def
        publish_teaching_packet_tool_def del: append.simps)
qed

lemma validated_mounted:
  "validate_mounted_identity m = Inr m' \<Longrightarrow> m' = m"
  by (auto simp: validate_mounted_identity_def split: if_splits)

lemma validated_tool:
  "validate_tool_definition t = Inr t' \<Longrightarrow> t' = t"
  by (auto simp: validate_tool_definition_def split: if_splits option.splits)

lemma mounted_step [inversion]:
  assumes "mount_tool lower config (tools, seen) d = Inr st"
  shows "(if configured_server_allows_tool config (mdt_raw_tool_name d)
     then \<exists>t. st = (tools @ [t], insert (model_tool_name t) seen) \<and> raw_tool_name t = mdt_raw_tool_name d
       \<and> parse_mcp_model_tool_name (model_tool_name t) = Inr (mtd_identity t)
     else st = (tools, seen))"
proof (cases "configured_server_allows_tool config (mdt_raw_tool_name d)")
  case False
  with assms show ?thesis by (simp add: mount_tool_def)
next
  case True
  with assms obtain name mounted identity t where
    v: "validate_mounted_identity \<lparr>mmt_server_id = msc_server_id config,
        mmt_raw_tool_name = mdt_raw_tool_name d, mmt_model_tool_name = name\<rparr> = Inr mounted"
    and i: "mounted_model_identity mounted = Inr identity"
    and t: "validate_tool_definition
      \<lparr>mtd_identity = identity, mtd_title = mdt_title d, mtd_description = mdt_description d,
       mtd_input_schema = mdt_input_schema d, mtd_sequential = mdt_sequential d,
       mtd_mounted_identity = Some mounted\<rparr> = Inr t"
    and st: "st = (tools @ [t], insert name seen)"
    by (auto simp: mount_tool_def split: if_splits)
  note eqs = validated_mounted [OF v] validated_tool [OF t]
  from i have p: "parse_mcp_model_tool_name name = Inr identity"
    by (simp add: mounted_model_identity_def eqs)
  then have n: "model_tool_name t = name"
    by (simp add: eqs model_tool_name_def parsed_identity_name)
  with p have "parse_mcp_model_tool_name (model_tool_name t) = Inr (mtd_identity t)"
    by (simp add: eqs)
  moreover have "raw_tool_name t = mdt_raw_tool_name d" by (simp add: eqs raw_tool_name_def)
  ultimately show ?thesis using True st n by auto
qed

interpretation mounting: invariant_machine "mount_tool lower config"
  "\<lambda>(tools, seen). \<forall>t \<in> set tools. parse_mcp_model_tool_name (model_tool_name t) = Inr (mtd_identity t)"
  for lower config
proof
  fix st d st'
  assume "case st of (tools, seen) \<Rightarrow>
      \<forall>t \<in> set tools. parse_mcp_model_tool_name (model_tool_name t) = Inr (mtd_identity t)"
    and "mount_tool lower config st d = Inr st'"
  then show "case st' of (tools, seen) \<Rightarrow>
      \<forall>t \<in> set tools. parse_mcp_model_tool_name (model_tool_name t) = Inr (mtd_identity t)"
    by (cases st) (auto dest!: mounted_step split: if_splits)
qed

lemma mounted_raw_names:
  "run_steps (mount_tool lower config) st ds = Inr st' \<Longrightarrow>
     map raw_tool_name (fst st')
       = map raw_tool_name (fst st) @ filter (configured_server_allows_tool config) (map mdt_raw_tool_name ds)"
proof (induction ds arbitrary: st)
  case (Cons d ds)
  from Cons.prems obtain st1 where s: "mount_tool lower config st d = Inr st1"
    and r: "run_steps (mount_tool lower config) st1 ds = Inr st'" by auto
  from s mounted_step [of lower config "fst st" "snd st" d st1] Cons.IH [OF r] show ?case
    by (auto split: if_splits)
qed simp

lemma configured_server_good:
  assumes "server_definition_from_config lower config ds = Inr s"
  shows "good_server s \<and> msd_server_id s = msc_server_id config
    \<and> map raw_tool_name (msd_tools s)
      = filter (configured_server_allows_tool config) (map mdt_raw_tool_name ds)"
proof -
  from assms obtain tools seen where r: "run_steps (mount_tool lower config) ([], {}) ds = Inr (tools, seen)"
    and v: "validate_server_definition
      \<lparr>msd_server_id = msc_server_id config, msd_display_name = msc_server_id config,
       msd_tools = tools, msd_resource_uri_patterns = []\<rparr> = Inr s"
    by (auto simp: server_definition_from_config_def)
  from mounting.run_keeps [OF _ r]
  have "\<forall>t \<in> set tools. parse_mcp_model_tool_name (model_tool_name t) = Inr (mtd_identity t)" by simp
  with v mounted_raw_names [OF r] show ?thesis by (auto simp: validated_server good_server_def)
qed

interpretation configuring: invariant_machine "add_configured_server lower discovered"
  "\<lambda>servers. \<forall>s \<in> set servers. good_server s" for lower discovered
proof
  fix servers item servers'
  assume good: "\<forall>s \<in> set servers. good_server s"
    and "add_configured_server lower discovered servers item = Inr servers'"
  then consider "servers' = servers" | ds sd where "servers' = servers @ [sd]"
      "server_definition_from_config lower (snd item) ds = Inr sd"
    by (auto simp: add_configured_server_def split: if_splits option.splits prod.splits)
  then show "\<forall>s \<in> set servers'. good_server s"
  proof cases
    case 2
    with configured_server_good [OF 2(2)] good show ?thesis by auto
  qed (use good in simp)
qed

lemma configured_servers_kept:
  "run_steps (add_configured_server lower discovered) servers configured = Inr servers' \<Longrightarrow>
     set servers \<subseteq> set servers'"
proof (induction configured arbitrary: servers)
  case (Cons c cs)
  from Cons.prems obtain servers1 where s: "add_configured_server lower discovered servers c = Inr servers1"
    and r: "run_steps (add_configured_server lower discovered) servers1 cs = Inr servers'" by auto
  from s have "set servers \<subseteq> set servers1"
    by (auto simp: add_configured_server_def split: if_splits option.splits prod.splits)
  with Cons.IH [OF r] show ?case by blast
qed simp

lemma configured_servers_added:
  "run_steps (add_configured_server lower discovered) servers configured = Inr servers' \<Longrightarrow>
     (i, config) \<in> set configured \<Longrightarrow> msc_enabled config \<Longrightarrow>
     \<exists>s ds. s \<in> set servers' \<and> msd_server_id s = i \<and> discovered i = Some ds
       \<and> map raw_tool_name (msd_tools s)
         = filter (configured_server_allows_tool config) (map mdt_raw_tool_name ds)"
proof (induction configured arbitrary: servers)
  case (Cons c cs)
  from Cons.prems(1) obtain servers1 where s: "add_configured_server lower discovered servers c = Inr servers1"
    and r: "run_steps (add_configured_server lower discovered) servers1 cs = Inr servers'" by auto
  show ?case
  proof (cases "c = (i, config)")
    case True
    with s Cons.prems(3) obtain ds sd where "discovered i = Some ds" "i = msc_server_id config"
      "server_definition_from_config lower config ds = Inr sd" "servers1 = servers @ [sd]"
      by (auto simp: add_configured_server_def split: if_splits option.splits)
    with configured_server_good [of lower config ds sd] configured_servers_kept [OF r] show ?thesis
      by (intro exI [of _ sd] exI [of _ ds]) auto
  next
    case False
    with Cons.prems Cons.IH [OF r] show ?thesis by simp
  qed
qed simp

section \<open>The manager finds what it lists\<close>

lemma added_servers:
  "run_steps add_server m servers = Inr m' \<Longrightarrow> m' = m @ map (\<lambda>s. (msd_server_id s, s)) servers
     \<and> (distinct (map fst m) \<longrightarrow> distinct (map fst m'))"
proof (induction servers arbitrary: m)
  case (Cons s ss)
  from Cons.prems obtain m1 where a: "add_server m s = Inr m1"
    and m1: "run_steps add_server m1 ss = Inr m'" by auto
  from a m1 have f: "msd_server_id s \<notin> fst ` set m"
    and r: "run_steps add_server (m @ [(msd_server_id s, s)]) ss = Inr m'"
    by (auto simp: add_server_def split: if_splits)
  show ?case
  proof (intro conjI impI)
    from Cons.IH [OF r] show "m' = m @ map (\<lambda>s. (msd_server_id s, s)) (s # ss)" by simp
    assume "distinct (map fst m)"
    with f have "distinct (map fst (m @ [(msd_server_id s, s)]))" by simp
    with Cons.IH [OF r] show "distinct (map fst m')" by blast
  qed
qed simp

lemma made_manager [inversion]:
  assumes "make_manager servers = Inr m"
  shows "m = map (\<lambda>s. (msd_server_id s, s)) servers" and "distinct (map msd_server_id servers)"
  using added_servers [of "[]" servers m] assms by (auto simp: make_manager_def comp_def)

lemma find_by_key: "distinct (map f xs) \<Longrightarrow> x \<in> set xs \<Longrightarrow> find (\<lambda>y. f y = f x) xs = Some x"
  by (induction xs) auto

lemma manager_server:
  assumes "make_manager servers = Inr m" and "s \<in> set servers"
  shows "get_server m (msd_server_id s) = Inr s"
  using made_manager [OF assms(1)] assms(2)
  by (simp add: get_server_def map_of_is_SomeI comp_def image_iff split: option.splits)

lemma all_tools_made: "make_manager servers = Inr m \<Longrightarrow> all_tools m = concat (map msd_tools servers)"
  by (frule made_manager(1)) (simp add: all_tools_def comp_def)

lemma good_manager_finds:
  assumes "make_manager servers = Inr m" and "\<forall>s \<in> set servers. good_server s"
    and "t \<in> set (all_tools m)"
  shows "get_tool m (model_tool_name t) = Inr t"
proof -
  from assms(1,3) obtain s where s: "s \<in> set servers" "t \<in> set (msd_tools s)"
    by (auto simp: all_tools_made)
  with assms(2) have g: "distinct (map (\<lambda>t. mti_tool_name (mtd_identity t)) (msd_tools s))"
    "mti_server_id (mtd_identity t) = msd_server_id s"
    "parse_mcp_model_tool_name (model_tool_name t) = Inr (mtd_identity t)"
    by (auto simp: good_server_def)
  from find_by_key [OF g(1) s(2)] manager_server [OF assms(1) s(1)] g(2,3) show ?thesis
    by (simp add: get_tool_def)
qed

lemma found_tool:
  assumes "get_tool m name = Inr t" and "make_manager servers = Inr m"
    and "\<forall>s \<in> set servers. good_server s"
  shows "t \<in> set (all_tools m) \<and> model_tool_name t = name"
proof -
  from assms(1) obtain i s where p: "parse_mcp_model_tool_name name = Inr i"
    and s: "get_server m (mti_server_id i) = Inr s"
    and f: "find (\<lambda>t. mti_tool_name (mtd_identity t) = mti_tool_name i) (msd_tools s) = Some t"
    by (auto simp: get_tool_def split: option.splits)
  from find_Some_set [OF f] have t: "t \<in> set (msd_tools s)" "mti_tool_name (mtd_identity t) = mti_tool_name i"
    by simp_all
  from s have "map_of m (mti_server_id i) = Some s" by (auto simp: get_server_def split: option.splits)
  then have "(mti_server_id i, s) \<in> set m" by (rule map_of_SomeD)
  with made_manager(1) [OF assms(2)] have m: "s \<in> set servers" "msd_server_id s = mti_server_id i" by auto
  with assms(3) t(1) have "mti_server_id (mtd_identity t) = mti_server_id i"
    by (auto simp: good_server_def)
  with t(2) have "mtd_identity t = i" by simp
  with parsed_identity_name [OF p] m(1) t(1) assms(2) show ?thesis
    by (auto simp: all_tools_made model_tool_name_def)
qed

lemma effective_manager [inversion]:
  assumes "build_effective_mcp_manager lower configured discovered default_builtin_mcp_servers = Inr m"
  obtains servers where
    "run_steps (add_configured_server lower discovered) default_builtin_mcp_servers configured = Inr servers"
    and "make_manager servers = Inr m" and "\<forall>s \<in> set servers. good_server s"
proof -
  from assms obtain servers where
    r: "run_steps (add_configured_server lower discovered) default_builtin_mcp_servers configured = Inr servers"
    and m: "make_manager servers = Inr m"
    by (auto simp: build_effective_mcp_manager_def)
  show thesis by (rule that [OF r m]) (rule configuring.run_keeps [OF default_servers_good r])
qed

text \<open>
  The manager finds exactly what it lists, by name. In a manager built from a configuration over the
  shipped servers, looking up the model tool name of any listed tool gives that tool, and whatever
  a look-up gives is listed under the name that was asked for; so no two tools share a name.
\<close>

theorem manager_finds_its_tools:
  assumes "build_effective_mcp_manager lower configured discovered default_builtin_mcp_servers = Inr m"
  shows "(\<forall>t \<in> set (all_tools m). get_tool m (model_tool_name t) = Inr t)
    \<and> (\<forall>name t. get_tool m name = Inr t \<longrightarrow> t \<in> set (all_tools m) \<and> model_tool_name t = name)"
proof -
  from assms obtain servers where "make_manager servers = Inr m" "\<forall>s \<in> set servers. good_server s"
    by (rule effective_manager)
  with good_manager_finds found_tool show ?thesis by blast
qed

text \<open>
  What a configuration allows is what is mounted. When the manager is built, every enabled server of
  the configuration is there, its tools were discovered, and the raw names of its tools are the
  discovered ones that the enabled and disabled lists of the configuration let through, in order.
\<close>

theorem allowed_tools_are_mounted:
  assumes "build_effective_mcp_manager lower configured discovered default_builtin_mcp_servers = Inr m"
    and "(i, config) \<in> set configured" and "msc_enabled config"
  shows "\<exists>s ds. get_server m i = Inr s \<and> discovered i = Some ds
    \<and> map raw_tool_name (msd_tools s)
      = filter (configured_server_allows_tool config) (map mdt_raw_tool_name ds)"
proof -
  from assms(1) obtain servers where
    r: "run_steps (add_configured_server lower discovered) default_builtin_mcp_servers configured = Inr servers"
    and m: "make_manager servers = Inr m"
    by (rule effective_manager)
  from configured_servers_added [OF r assms(2,3)] manager_server [OF m] show ?thesis by metis
qed

section \<open>Searching offers what it returns\<close>

fun run_searches ::
    "(ustr \<Rightarrow> ustr) \<Rightarrow> mcp_tool_inventory \<Rightarrow> (ustr \<times> nat) list
     \<Rightarrow> (manager_error, mcp_tool_inventory \<times> mcp_search_result list) result" where
  "run_searches lower iv [] = Inr (iv, [])"
| "run_searches lower iv ((query, limit) # qs) =
     res_bind (mcp_search lower query limit iv)
       (\<lambda>(iv', r). res_bind (run_searches lower iv' qs) (\<lambda>(iv'', rs). Inr (iv'', r # rs)))"

definition inventory_ok :: "mcp_tool_inventory \<Rightarrow> bool" where
  "inventory_ok iv \<longleftrightarrow>
     (\<forall>(name, item) \<in> set (inv_items_by_name iv).
        mii_name item = name \<and> mii_deferred item = (name \<in> set (inv_deferred_tool_names iv)))"

lemma update_subset: "set (AList.update k v ps) \<subseteq> insert (k, v) (set ps)"
  by (induction ps) auto

lemma inventory_items_named:
  "\<forall>(name, item) \<in> set items. mii_name item = name \<and> mii_deferred item = (name \<in> set deferred) \<Longrightarrow>
   \<forall>(name, item) \<in> set (fold (add_inventory_item direct deferred) ts items).
     mii_name item = name \<and> mii_deferred item = (name \<in> set deferred)"
proof (induction ts arbitrary: items)
  case (Cons t ts)
  have "\<forall>(name, item) \<in> set (add_inventory_item direct deferred t items).
      mii_name item = name \<and> mii_deferred item = (name \<in> set deferred)"
    using Cons.prems
    by (auto simp: add_inventory_item_def inventory_item_def dest!: subsetD [OF update_subset])
  with Cons.IH show ?case by simp
qed simp

lemma fresh_inventory_ok: "inventory_ok (inventory_from_manager m direct deferred)"
  using inventory_items_named [of "[]" deferred direct "all_tools m"]
  by (simp add: inventory_ok_def inventory_from_manager_def)

lemma search_finds_items:
  "item \<in> set (inventory_search lower query limit iv) \<Longrightarrow> item \<in> snd ` set (inv_items_by_name iv)"
  by (auto simp: inventory_search_def Let_def dest!: in_set_takeD in_set_enumerate_eq [THEN iffD1]
      split: if_splits)

lemma activated_all:
  "set names \<subseteq> fst ` set (inv_items_by_name iv) \<Longrightarrow>
     run_steps activate_tool iv names
       = Inr (iv\<lparr>inv_activated := inv_activated iv \<union> {n \<in> set names. n \<in> set (inv_deferred_tool_names iv)}\<rparr>)"
proof (induction names arbitrary: iv)
  case (Cons n ns)
  then show ?case by (auto simp: activate_tool_def intro!: mcp_tool_inventory.equality)
qed simp

lemma search_step:
  assumes "inventory_ok iv"
  obtains r where "mcp_search lower query limit iv
      = Inr (iv\<lparr>inv_activated := inv_activated iv \<union> set (msr_activated_tool_names r)\<rparr>, r)"
    and "set (msr_activated_tool_names r) \<subseteq> set (inv_deferred_tool_names iv)"
proof -
  let ?ms = "inventory_search lower query limit iv"
  let ?r = "\<lparr>msr_matches = ?ms, msr_result_count = length ?ms,
    msr_activated_tool_names = map mii_name (filter mii_deferred ?ms)\<rparr>"
  have items: "\<exists>name. (name, item) \<in> set (inv_items_by_name iv) \<and> mii_name item = name
      \<and> mii_deferred item = (name \<in> set (inv_deferred_tool_names iv))" if "item \<in> set ?ms" for item
    using search_finds_items [OF that] assms by (fastforce simp: inventory_ok_def)
  then have sub: "set (map mii_name ?ms) \<subseteq> fst ` set (inv_items_by_name iv)" by force
  have "{n \<in> set (map mii_name ?ms). n \<in> set (inv_deferred_tool_names iv)}
      = set (msr_activated_tool_names ?r)"
    using items by auto
  then have "mcp_search lower query limit iv
      = Inr (iv\<lparr>inv_activated := inv_activated iv \<union> set (msr_activated_tool_names ?r)\<rparr>, ?r)"
    by (simp only: mcp_search_def Let_def activated_all [OF sub] res_bind.simps)
  moreover have "set (msr_activated_tool_names ?r) \<subseteq> set (inv_deferred_tool_names iv)"
    using items by auto
  ultimately show thesis by (rule that)
qed

lemma searches_activate:
  "inventory_ok iv \<Longrightarrow> \<exists>rs. run_searches lower iv qs
     = Inr (iv\<lparr>inv_activated := inv_activated iv \<union> (\<Union>r \<in> set rs. set (msr_activated_tool_names r))\<rparr>, rs)
   \<and> (\<Union>r \<in> set rs. set (msr_activated_tool_names r)) \<subseteq> set (inv_deferred_tool_names iv)"
proof (induction qs arbitrary: iv)
  case (Cons q qs)
  obtain query limit where q: "q = (query, limit)" by fastforce
  from search_step [OF Cons.prems] obtain r where
    r: "mcp_search lower query limit iv
      = Inr (iv\<lparr>inv_activated := inv_activated iv \<union> set (msr_activated_tool_names r)\<rparr>, r)"
    and sub: "set (msr_activated_tool_names r) \<subseteq> set (inv_deferred_tool_names iv)" by blast
  let ?iv = "iv\<lparr>inv_activated := inv_activated iv \<union> set (msr_activated_tool_names r)\<rparr>"
  have "inventory_ok ?iv" using Cons.prems by (simp add: inventory_ok_def)
  from Cons.IH [OF this] obtain rs where
    "run_searches lower ?iv qs = Inr (?iv\<lparr>inv_activated := inv_activated ?iv
      \<union> (\<Union>r \<in> set rs. set (msr_activated_tool_names r))\<rparr>, rs)"
    "(\<Union>r \<in> set rs. set (msr_activated_tool_names r)) \<subseteq> set (inv_deferred_tool_names iv)" by auto
  with q r sub show ?case by (intro exI [of _ "r # rs"]) (simp add: Un_assoc)
qed simp

text \<open>
  The model sees a deferred tool exactly when a search has returned it. Any sequence of searches
  over the inventory of a manager succeeds, and the deferred tools that are visible afterwards are
  the ones its results said were activated.
\<close>

theorem searches_offer_what_they_return:
  "\<exists>iv rs. run_searches lower (inventory_from_manager m direct deferred) qs = Inr (iv, rs)
    \<and> set (visible_deferred_tool_names iv) = (\<Union>r \<in> set rs. set (msr_activated_tool_names r))"
proof -
  from searches_activate [OF fresh_inventory_ok] obtain rs where
    r: "run_searches lower (inventory_from_manager m direct deferred) qs
      = Inr ((inventory_from_manager m direct deferred)\<lparr>inv_activated :=
          inv_activated (inventory_from_manager m direct deferred)
          \<union> (\<Union>r \<in> set rs. set (msr_activated_tool_names r))\<rparr>, rs)"
    and sub: "(\<Union>r \<in> set rs. set (msr_activated_tool_names r))
      \<subseteq> set (inv_deferred_tool_names (inventory_from_manager m direct deferred))" by blast
  show ?thesis
    by (rule exI, rule exI, rule conjI, rule r, use sub in
        \<open>auto simp: visible_deferred_tool_names_def inventory_from_manager_def\<close>)
qed

section \<open>A concrete configuration\<close>

definition sample_mcp_config :: mcp_server_config where
  "sample_mcp_config =
     \<lparr>msc_server_id = ''docs'',
      msc_transport = Stdio \<lparr>mst_command = lit ''docs'', mst_args = [], mst_env = [], mst_cwd = None\<rparr>,
      msc_enabled = True, msc_required = False, msc_startup_timeout_sec = None,
      msc_tool_timeout_sec = None, msc_enabled_tools = None, msc_disabled_tools = Some [''drop''],
      msc_default_tool_approval = Some Mcp_approve, msc_tools = [(''look up'', Some Mcp_prompt)]\<rparr>"

definition sample_listed :: "string \<Rightarrow> mcp_discovered_tool" where
  "sample_listed name =
     \<lparr>mdt_raw_tool_name = name, mdt_title = [84], mdt_description = [68],
      mdt_input_schema = [(lit ''type'', JStr (lit ''object''))], mdt_sequential = True\<rparr>"

definition sample_discovered :: "string \<rightharpoonup> mcp_discovered_tool list" where
  "sample_discovered = [''docs'' \<mapsto> [sample_listed ''look up'', sample_listed ''drop'', sample_listed ''2fa'']]"

definition sample_manager :: "(manager_error, mcp_manager) result" where
  "sample_manager = build_effective_mcp_manager id [(''docs'', sample_mcp_config)] sample_discovered
     default_builtin_mcp_servers"

lemma sample_manager_names:
  "case sample_manager of Inl e \<Rightarrow> False
   | Inr m \<Rightarrow> map (\<lambda>t. (model_tool_name t, raw_tool_name t)) (drop 3 (all_tools m))
       = [(''mcp__docs__look_up'', ''look up''), (''mcp__docs__tool_2fa'', ''2fa'')]"
  by code_simp

lemma sample_manager_built:
  obtains m where "build_effective_mcp_manager id [(''docs'', sample_mcp_config)] sample_discovered
      default_builtin_mcp_servers = Inr m"
    and "(''mcp__docs__tool_2fa'', ''2fa'')
      \<in> set (map (\<lambda>t. (model_tool_name t, raw_tool_name t)) (all_tools m))"
proof -
  have "\<exists>m. r = Inr m \<and> P m" if "case r of Inl e \<Rightarrow> False | Inr m \<Rightarrow> P m" for r :: "'e + 'm" and P
    using that by (cases r) simp_all
  from this [OF sample_manager_names] obtain m where m: "sample_manager = Inr m"
    and "map (\<lambda>t. (model_tool_name t, raw_tool_name t)) (drop 3 (all_tools m))
       = [(''mcp__docs__look_up'', ''look up''), (''mcp__docs__tool_2fa'', ''2fa'')]"
    by (elim exE conjE) (rule that)
  then have "(''mcp__docs__tool_2fa'', ''2fa'')
      \<in> set (map (\<lambda>t. (model_tool_name t, raw_tool_name t)) (drop 3 (all_tools m)))"
    by (simp del: list.set_map)
  then have "(''mcp__docs__tool_2fa'', ''2fa'')
      \<in> set (map (\<lambda>t. (model_tool_name t, raw_tool_name t)) (all_tools m))"
    by (auto dest: in_set_dropD)
  with m show thesis by (intro that [of m]) (simp_all only: sample_manager_def)
qed

theorem manager_finds_its_tools_witness:
  "\<exists>m t. build_effective_mcp_manager id [(''docs'', sample_mcp_config)] sample_discovered
      default_builtin_mcp_servers = Inr m
    \<and> get_tool m ''mcp__docs__tool_2fa'' = Inr t \<and> raw_tool_name t = ''2fa''"
proof -
  obtain m where m: "build_effective_mcp_manager id [(''docs'', sample_mcp_config)] sample_discovered
      default_builtin_mcp_servers = Inr m"
    and names: "(''mcp__docs__tool_2fa'', ''2fa'') \<in> set (map (\<lambda>t. (model_tool_name t, raw_tool_name t)) (all_tools m))"
    by (rule sample_manager_built)
  then obtain t where "t \<in> set (all_tools m)" "model_tool_name t = ''mcp__docs__tool_2fa''" "raw_tool_name t = ''2fa''"
    by (auto simp del: list.map)
  with m manager_finds_its_tools [OF m] show ?thesis by metis
qed

theorem allowed_tools_are_mounted_witness:
  "\<exists>m s. build_effective_mcp_manager id [(''docs'', sample_mcp_config)] sample_discovered
      default_builtin_mcp_servers = Inr m
    \<and> get_server m ''docs'' = Inr s \<and> map raw_tool_name (msd_tools s) = [''look up'', ''2fa'']"
proof -
  obtain m where m: "build_effective_mcp_manager id [(''docs'', sample_mcp_config)] sample_discovered
      default_builtin_mcp_servers = Inr m" by (rule sample_manager_built)
  moreover have "msc_enabled sample_mcp_config" by (simp add: sample_mcp_config_def)
  ultimately obtain s ds where "get_server m ''docs'' = Inr s" "sample_discovered ''docs'' = Some ds"
    "map raw_tool_name (msd_tools s)
      = filter (configured_server_allows_tool sample_mcp_config) (map mdt_raw_tool_name ds)"
    using allowed_tools_are_mounted [OF m, of "''docs''" sample_mcp_config] by auto
  with m show ?thesis
    by (auto simp: sample_discovered_def sample_listed_def configured_server_allows_tool_def
        sample_mcp_config_def)
qed

theorem normalized_names_are_valid_witness:
  "normalize_raw_tool_name id ''tool_2fa'' = Inr ''tool_2fa''"
proof -
  have "normalize_raw_tool_name id ''2fa!'' = Inr ''tool_2fa''" by code_simp
  from normalized_names_are_valid [OF this] show ?thesis by simp
qed

end
