(* ===== verification/Mcp_Execution.thy ===== *)
theory Mcp_Execution
  imports Mcp_Manager Approval_Flow Run_Events
begin

text \<open>
  Calling MCP tools: the rest of \<open>runtime/mcp.py\<close>. \<open>PydanticAiMcpExecutor\<close> asks for the approval
  its configuration demands before it calls a server, \<open>McpToolset.call_tool\<close> turns whatever happens
  into a result with its activity, and \<open>build_configured_mcp_runtime\<close> starts the servers and closes
  them again. What a server answers is a parameter, which may depend on the calls made before.
\<close>

section \<open>Approval\<close>

definition mcp_tool_approval_mode :: "mcp_server_config option \<Rightarrow> string \<Rightarrow> mcp_approval_mode" where
  "mcp_tool_approval_mode config raw =
     (case config of
        None \<Rightarrow> Mcp_auto
      | Some c \<Rightarrow>
          (case map_of (msc_tools c) raw of
             Some (Some mode) \<Rightarrow> mode
           | _ \<Rightarrow> (case msc_default_tool_approval c of Some mode \<Rightarrow> mode | None \<Rightarrow> Mcp_auto)))"

definition mcp_approval_request ::
    "string \<Rightarrow> effective_capabilities \<Rightarrow> mcp_tool_definition \<Rightarrow> approval_request" where
  "mcp_approval_request uuid capabilities t =
     Permission_grant_request
       \<lparr>rq_request_id = uuid, rq_reason = ''allow MCP tool '' @ model_tool_name t,
        rq_requested_capabilities = capabilities, rq_requested_permissions = None,
        rq_requested_grants = [], rq_display_subject = Some (model_tool_name t), rq_options = [],
        rq_grant_kind = Grant_network_access,
        rq_target = Some (mti_server_id (mtd_identity t) @ '':'' @ raw_tool_name t)\<rparr>"

text \<open>The approved names of the executor, the permission memory of the run, and the calls made.\<close>

type_synonym remote_call = "string \<times> string \<times> json_object"

record mcp_state =
  mx_approved :: "string set"
  mx_memory :: permission_memory
  mx_calls :: "remote_call list"

type_synonym py_exception = "ustr \<times> ustr"

text \<open>The context of one call: the requester and the fresh id of a request.\<close>

record mcp_call_context =
  mcc_requester :: "approval_requester option"
  mcc_uuid :: string
  mcc_capabilities :: effective_capabilities

definition denied_mcp_message :: "mcp_tool_definition \<Rightarrow> string" where
  "denied_mcp_message t =
     ''Approval denied: allow MCP tool '' @ model_tool_name t
       @ ''. The MCP tool was not called. Choose another approach or stop.''"

definition ensure_approved ::
    "file_system \<Rightarrow> (string \<rightharpoonup> mcp_server_config) \<Rightarrow> mcp_call_context \<Rightarrow> mcp_tool_definition
     \<Rightarrow> mcp_state \<Rightarrow> (flow_error, mcp_state) result" where
  "ensure_approved fs configs ctx t s =
     (let mode = mcp_tool_approval_mode (configs (mti_server_id (mtd_identity t))) (raw_tool_name t) in
      if mode = Mcp_auto then Inr s
      else if mode = Mcp_approve \<and> model_tool_name t \<in> mx_approved s then Inr s
      else res_bind
        (resolve_tool_approval fs (mcc_requester ctx)
          (mcp_approval_request (mcc_uuid ctx) (mcc_capabilities ctx) t) (denied_mcp_message t)
          ''MCP tool approval is required, but no approval requester is available.'' (mx_memory s))
        (\<lambda>(decision, mem).
          Inr (s\<lparr>mx_memory := mem,
                 mx_approved := (if mode = Mcp_approve then insert (model_tool_name t) (mx_approved s)
                                 else mx_approved s)\<rparr>)))"

section \<open>Execution\<close>

text \<open>
  What a tool gives back: its value, with the metadata a tool return may carry. A title, summary or
  label that is not a text and details that are not a dictionary count as absent.
\<close>

record executor_value =
  ev_value :: json
  ev_title :: "ustr option"
  ev_summary :: "ustr option"
  ev_display_label :: "ustr option"
  ev_details :: "wrapped_activity_details option"

datatype exec_error =
    Manager_failed manager_error
  | Not_mounted
  | Approval_failed flow_error
  | No_remote_server string
  | Tool_raised py_exception

type_synonym remote_servers =
  "string \<rightharpoonup> (remote_call list \<Rightarrow> string \<Rightarrow> json_object \<Rightarrow> (py_exception, executor_value) result)"

definition execute_tool ::
    "file_system \<Rightarrow> mcp_manager \<Rightarrow> remote_servers \<Rightarrow> (string \<rightharpoonup> mcp_server_config)
     \<Rightarrow> mcp_call_context \<Rightarrow> mcp_tool_identity \<Rightarrow> json_object \<Rightarrow> mcp_state
     \<Rightarrow> mcp_state \<times> (exec_error, executor_value) result" where
  "execute_tool fs m servers configs ctx identity args s =
     (case get_tool m (identity_model_tool_name identity) of
        Inl e \<Rightarrow> (s, Inl (Manager_failed e))
      | Inr t \<Rightarrow>
          (case mtd_mounted_identity t of
             None \<Rightarrow> (s, Inl Not_mounted)
           | Some mounted \<Rightarrow>
               (case ensure_approved fs configs ctx t s of
                  Inl e \<Rightarrow> (s, Inl (Approval_failed e))
                | Inr s' \<Rightarrow>
                    (case servers (mti_server_id identity) of
                       None \<Rightarrow> (s', Inl (No_remote_server (mti_server_id identity)))
                     | Some call \<Rightarrow>
                         (s'\<lparr>mx_calls := mx_calls s'
                              @ [(mti_server_id identity, mmt_raw_tool_name mounted, args)]\<rparr>,
                          map_sum Tool_raised id (call (mx_calls s') (mmt_raw_tool_name mounted) args))))))"

text \<open>The route: servers of the configuration are called remotely, others by the fallback.\<close>

type_synonym fallback_executor =
  "mcp_tool_identity \<Rightarrow> json_object \<Rightarrow> (exec_error, executor_value) result"

definition route_tool ::
    "file_system \<Rightarrow> mcp_manager \<Rightarrow> remote_servers \<Rightarrow> (string \<rightharpoonup> mcp_server_config)
     \<Rightarrow> fallback_executor \<Rightarrow> mcp_call_context \<Rightarrow> mcp_tool_identity \<Rightarrow> json_object \<Rightarrow> mcp_state
     \<Rightarrow> mcp_state \<times> (exec_error, executor_value) result" where
  "route_tool fs m servers configs fallback ctx identity args s =
     (if servers (mti_server_id identity) \<noteq> None
      then execute_tool fs m servers configs ctx identity args s
      else (s, fallback identity args))"

section \<open>What the model is told\<close>

datatype mcp_return_value =
    Mcp_denied string string request_kind "string option"
  | Mcp_failed ustr ustr
  | Mcp_value json

record mcp_tool_return =
  mtr_value :: mcp_return_value
  mtr_title :: ustr
  mtr_summary :: "ustr option"
  mtr_display_label :: ustr
  mtr_details :: mcp_activity_details

definition top_level_provenance :: mcp_tool_call_provenance where
  "top_level_provenance =
     \<lparr>mtp_source = Top_level_model, mtp_parent_tool_call_id = None, mtp_code_mode_cell_id = None\<rparr>"

definition call_activity :: "mcp_tool_definition \<Rightarrow> mcp_failure option \<Rightarrow> mcp_activity_details" where
  "call_activity t failure =
     \<lparr>mad_server_id = mti_server_id (mtd_identity t), mad_tool_name = mti_tool_name (mtd_identity t),
      mad_model_tool_name = model_tool_name t, mad_provenance = top_level_provenance,
      mad_failure = failure, mad_wrapped_title = None, mad_wrapped_display_label = None,
      mad_wrapped_summary = None, mad_wrapped_details = None\<rparr>"

definition message_or_type :: "py_exception \<Rightarrow> ustr" where
  "message_or_type e = (if snd e = [] then fst e else snd e)"

definition tool_failure_of :: "mcp_tool_definition \<Rightarrow> py_exception \<Rightarrow> mcp_failure" where
  "tool_failure_of t e =
     \<lparr>mf_kind = Tool_failed, mf_error_type = fst e, mf_message = message_or_type e,
      mf_server_id = Some (mti_server_id (mtd_identity t)),
      mf_tool_name = Some (mti_tool_name (mtd_identity t)), mf_resource_uri = None, mf_auth = None\<rparr>"

definition denied_return ::
    "mcp_tool_definition \<Rightarrow> string \<Rightarrow> string \<Rightarrow> request_kind \<Rightarrow> string option
     \<Rightarrow> (mcp_error, mcp_tool_return) result" where
  "denied_return t message denial_type kind subject =
     res_bind (validate_mcp_activity (call_activity t None))
       (\<lambda>details. Inr
         \<lparr>mtr_value = Mcp_denied denial_type message kind subject, mtr_title = mtd_title t,
          mtr_summary = Some (lit message), mtr_display_label = lit ''MCP'', mtr_details = details\<rparr>)"

definition failed_return ::
    "mcp_tool_definition \<Rightarrow> py_exception \<Rightarrow> (mcp_error, mcp_tool_return) result" where
  "failed_return t e =
     res_bind (validate_mcp_failure (tool_failure_of t e))
       (\<lambda>failure. res_bind (validate_mcp_activity (call_activity t (Some failure)))
       (\<lambda>details. Inr
         \<lparr>mtr_value = Mcp_failed (mf_error_type failure) (mf_message failure), mtr_title = mtd_title t,
          mtr_summary = Some (mf_message failure), mtr_display_label = lit ''MCP'', mtr_details = details\<rparr>))"

definition value_return ::
    "mcp_tool_definition \<Rightarrow> executor_value \<Rightarrow> (mcp_error, mcp_tool_return) result" where
  "value_return t v =
     res_bind (validate_mcp_activity
         ((call_activity t None)\<lparr>mad_wrapped_title := ev_title v, mad_wrapped_summary := ev_summary v,
            mad_wrapped_display_label := ev_display_label v, mad_wrapped_details := ev_details v\<rparr>))
       (\<lambda>details. Inr
         \<lparr>mtr_value = Mcp_value (ev_value v),
          mtr_title = (case ev_title v of Some w \<Rightarrow> w | None \<Rightarrow> mtd_title t),
          mtr_summary = ev_summary v,
          mtr_display_label = (case ev_display_label v of Some w \<Rightarrow> w | None \<Rightarrow> lit ''MCP''),
          mtr_details = details\<rparr>)"

datatype call_failure = Tool_not_found manager_error | Invalid_report mcp_error

text \<open>
  \<open>call_tool\<close>. A denial and a refusal by policy are told as such, every other exception as a failure
  with the name of its type and its message (\<open>describe\<close>, a parameter).
\<close>

definition mcp_call_tool ::
    "file_system \<Rightarrow> (exec_error \<Rightarrow> py_exception) \<Rightarrow> mcp_manager \<Rightarrow> remote_servers
     \<Rightarrow> (string \<rightharpoonup> mcp_server_config) \<Rightarrow> fallback_executor \<Rightarrow> mcp_call_context \<Rightarrow> string
     \<Rightarrow> json_object \<Rightarrow> mcp_state \<Rightarrow> mcp_state \<times> (call_failure, mcp_tool_return) result" where
  "mcp_call_tool fs describe m servers configs fallback ctx name args s =
     (case get_tool m name of
        Inl e \<Rightarrow> (s, Inl (Tool_not_found e))
      | Inr t \<Rightarrow>
          (case route_tool fs m servers configs fallback ctx (mtd_identity t) args s of
             (s', Inr v) \<Rightarrow> (s', lift_error Invalid_report (value_return t v))
           | (s', Inl (Approval_failed (Approval_denied message kind subject))) \<Rightarrow>
               (s', lift_error Invalid_report
                      (denied_return t message ''approval_denied'' kind subject))
           | (s', Inl (Approval_failed (Policy_denied message kind subject))) \<Rightarrow>
               (s', lift_error Invalid_report
                      (denied_return t message ''policy_denied'' kind subject))
           | (s', Inl e) \<Rightarrow> (s', lift_error Invalid_report (failed_return t (describe e)))))"

section \<open>No remote call without consent\<close>

text \<open>The client would approve the call: its answer to the request for this tool is an approval.\<close>

definition consented :: "mcp_call_context \<Rightarrow> mcp_tool_definition \<Rightarrow> bool" where
  "consented ctx t \<longleftrightarrow>
     (let request = mcp_approval_request (mcc_uuid ctx) (mcc_capabilities ctx) t in
      \<exists>ask answer decision. mcc_requester ctx = Some ask \<and> ask request = Inr answer
        \<and> normalize_approval_decision request answer = Inr decision \<and> ad_decision decision = Approved)"

inductive mcp_trace ::
    "file_system \<Rightarrow> (exec_error \<Rightarrow> py_exception) \<Rightarrow> mcp_manager \<Rightarrow> remote_servers
     \<Rightarrow> (string \<rightharpoonup> mcp_server_config) \<Rightarrow> fallback_executor \<Rightarrow> permission_memory
     \<Rightarrow> (mcp_call_context \<times> string) list \<Rightarrow> mcp_state \<Rightarrow> bool"
  for fs describe m servers configs fallback mem where
  mcp_start: "mcp_trace fs describe m servers configs fallback mem []
    \<lparr>mx_approved = {}, mx_memory = mem, mx_calls = []\<rparr>"
| mcp_step: "mcp_trace fs describe m servers configs fallback mem h s
    \<Longrightarrow> mcp_call_tool fs describe m servers configs fallback ctx name args s = (s', r)
    \<Longrightarrow> mcp_trace fs describe m servers configs fallback mem (h @ [(ctx, name)]) s'"

inductive_cases mcp_startE: "mcp_trace fs describe m servers configs fallback mem [] s"

definition calls_of :: "string \<Rightarrow> string \<Rightarrow> mcp_state \<Rightarrow> remote_call list" where
  "calls_of i raw s = filter (\<lambda>(j, r, _). j = i \<and> r = raw) (mx_calls s)"

definition consents ::
    "mcp_manager \<Rightarrow> string \<Rightarrow> string \<Rightarrow> (mcp_call_context \<times> string) list \<Rightarrow> (mcp_call_context \<times> string) list" where
  "consents m i raw h =
     filter (\<lambda>(ctx, name). \<exists>t. get_tool m name = Inr t \<and> mti_server_id (mtd_identity t) = i
       \<and> raw_tool_name t = raw \<and> consented ctx t) h"

text \<open>An approval of an MCP tool carries no grants, so the permission memory stays as it is.\<close>

lemma mcp_approval_grants_nothing:
  assumes "resolve_tool_approval fs requester (mcp_approval_request uuid capabilities t) dm mm mem
    = Inr (decision, mem')"
  shows "mem' = mem"
proof -
  let ?request = "mcp_approval_request uuid capabilities t"
  from assms obtain ask answer where
    n: "normalize_approval_decision ?request answer = Inr decision"
    and a: "ad_decision decision = Approved"
    and m: "mem' = remember_approved_grants fs (ad_granted_grants decision) mem"
    by (rule resolved_approval)
  have "rq_options (request_base ?request) = []" "rq_requested_grants (request_base ?request) = []"
    by (simp_all add: mcp_approval_request_def approval_request_base.truncate_def)
  with normalize_cases [OF n] a have "ad_granted_grants decision = []" by auto
  with m show ?thesis by simp
qed

lemma ensured [inversion]:
  assumes "ensure_approved fs configs ctx t s = Inr s'"
  shows "mx_memory s' = mx_memory s \<and> mx_calls s' = mx_calls s
    \<and> (let mode = mcp_tool_approval_mode (configs (mti_server_id (mtd_identity t))) (raw_tool_name t) in
       (mode = Mcp_auto \<or> mode = Mcp_approve \<and> model_tool_name t \<in> mx_approved s) \<and> s' = s
       \<or> consented ctx t
         \<and> mx_approved s' = (if mode = Mcp_approve then insert (model_tool_name t) (mx_approved s)
                             else mx_approved s))"
proof (cases "s' = s \<and> (let mode = mcp_tool_approval_mode (configs (mti_server_id (mtd_identity t)))
    (raw_tool_name t) in mode = Mcp_auto \<or> mode = Mcp_approve \<and> model_tool_name t \<in> mx_approved s)")
  case False
  with assms obtain decision mem where
    r: "resolve_tool_approval fs (mcc_requester ctx)
      (mcp_approval_request (mcc_uuid ctx) (mcc_capabilities ctx) t) (denied_mcp_message t)
      ''MCP tool approval is required, but no approval requester is available.'' (mx_memory s)
      = Inr (decision, mem)"
    and s': "s' = s\<lparr>mx_memory := mem, mx_approved :=
      (if mcp_tool_approval_mode (configs (mti_server_id (mtd_identity t))) (raw_tool_name t) = Mcp_approve
       then insert (model_tool_name t) (mx_approved s) else mx_approved s)\<rparr>"
    by (auto simp: ensure_approved_def Let_def split: if_splits)
  have "consented ctx t"
    using resolved_approval [OF r] unfolding consented_def Let_def by metis
  with s' mcp_approval_grants_nothing [OF r] show ?thesis by (simp add: Let_def)
next
  case True
  then show ?thesis by (auto simp: Let_def)
qed

text \<open>One call of the toolset: what it does to the state.\<close>

lemma mcp_call_effect:
  assumes call: "mcp_call_tool fs describe m servers configs fallback ctx name args s = (s', r)"
    and names: "\<forall>n t. get_tool m n = Inr t \<longrightarrow> model_tool_name t = n"
  shows "s' = s \<or> (\<exists>t s1. get_tool m name = Inr t \<and> ensure_approved fs configs ctx t s = Inr s1
    \<and> (s' = s1 \<or> s' = s1\<lparr>mx_calls := mx_calls s1
        @ [(mti_server_id (mtd_identity t), raw_tool_name t, args)]\<rparr>))"
proof (cases "get_tool m name")
  case (Inl e)
  with call show ?thesis by (simp add: mcp_call_tool_def)
next
  case (Inr t)
  let ?routed = "route_tool fs m servers configs fallback ctx (mtd_identity t) args s"
  have s': "s' = fst ?routed"
    using call Inr by (auto simp: mcp_call_tool_def split: prod.splits sum.splits exec_error.splits flow_error.splits)
  have again: "get_tool m (identity_model_tool_name (mtd_identity t)) = Inr t"
    using Inr names by (simp add: model_tool_name_def)
  show ?thesis
  proof (cases "s' = s")
    case False
    with s' Inr again show ?thesis
      by (auto simp: route_tool_def execute_tool_def raw_tool_name_def
          split: if_splits option.splits sum.splits)
  qed simp
qed

lemma mcp_trace_consents:
  assumes "mcp_trace fs describe m servers configs fallback mem h s"
    and names: "\<forall>n t. get_tool m n = Inr t \<longrightarrow> model_tool_name t = n"
  shows "mx_memory s = mem
    \<and> (\<forall>n t. n \<in> mx_approved s \<longrightarrow> get_tool m n = Inr t \<longrightarrow>
         consents m (mti_server_id (mtd_identity t)) (raw_tool_name t) h \<noteq> [])
    \<and> (mcp_tool_approval_mode (configs i) raw = Mcp_prompt \<longrightarrow>
         length (calls_of i raw s) \<le> length (consents m i raw h))
    \<and> (mcp_tool_approval_mode (configs i) raw = Mcp_approve \<longrightarrow> calls_of i raw s \<noteq> [] \<longrightarrow>
         consents m i raw h \<noteq> [])"
  using assms(1)
proof (induction rule: mcp_trace.induct)
  case mcp_start
  show ?case by (simp add: calls_of_def)
next
  case (mcp_step h s ctx name args s' r)
  have grow: "consents m j w (h @ [(ctx, name)])
      = consents m j w h @ consents m j w [(ctx, name)]" for j w
    by (simp add: consents_def)
  from mcp_call_effect [OF mcp_step.hyps(2) names] show ?case
  proof (elim disjE exE conjE)
    assume "s' = s"
    with mcp_step.IH show ?thesis by (auto simp: grow)
  next
    fix t s1
    assume t: "get_tool m name = Inr t" and e: "ensure_approved fs configs ctx t s = Inr s1"
      and s': "s' = s1"
    note n = ensured [OF e]
    have one: "consents m (mti_server_id (mtd_identity t)) (raw_tool_name t) [(ctx, name)] \<noteq> []"
      if "consented ctx t" using t that by (simp add: consents_def)
    from n s' mcp_step.IH have "mx_memory s' = mem" "calls_of i raw s' = calls_of i raw s"
      by (simp_all add: calls_of_def)
    moreover have "consents m (mti_server_id (mtd_identity u)) (raw_tool_name u) (h @ [(ctx, name)]) \<noteq> []"
      if "k \<in> mx_approved s'" "get_tool m k = Inr u" for k u
    proof (cases "k \<in> mx_approved s")
      case True
      with that(2) mcp_step.IH show ?thesis by (simp add: grow)
    next
      case False
      with that(1) n s' have "k = model_tool_name t" "consented ctx t"
        by (auto simp: Let_def split: if_splits)
      with names t that(2) one show ?thesis by (simp add: grow)
    qed
    ultimately show ?thesis using mcp_step.IH by (auto simp: grow)
  next
    fix t s1
    assume t: "get_tool m name = Inr t" and e: "ensure_approved fs configs ctx t s = Inr s1"
      and s': "s' = s1\<lparr>mx_calls := mx_calls s1
        @ [(mti_server_id (mtd_identity t), raw_tool_name t, args)]\<rparr>"
    note n = ensured [OF e]
    have one: "length (consents m (mti_server_id (mtd_identity t)) (raw_tool_name t) [(ctx, name)]) = 1"
      if "consented ctx t" using t that by (simp add: consents_def)
    have approved: "consents m (mti_server_id (mtd_identity u)) (raw_tool_name u) (h @ [(ctx, name)]) \<noteq> []"
      if "k \<in> mx_approved s'" "get_tool m k = Inr u" for k u
    proof (cases "k \<in> mx_approved s")
      case True
      with that(2) mcp_step.IH show ?thesis by (simp add: grow)
    next
      case False
      with that(1) n s' have "k = model_tool_name t" "consented ctx t"
        by (auto simp: Let_def split: if_splits)
      with names t that(2) one show ?thesis by (auto simp: grow)
    qed
    show ?thesis
    proof (cases "mti_server_id (mtd_identity t) = i \<and> raw_tool_name t = raw")
      case False
      with n s' have "calls_of i raw s' = calls_of i raw s" by (auto simp: calls_of_def)
      with n s' approved mcp_step.IH show ?thesis by (auto simp: grow)
    next
      case True
      note here = True
      with n s' have c: "length (calls_of i raw s') = Suc (length (calls_of i raw s))"
        by (auto simp: calls_of_def)
      have p: "length (calls_of i raw s') \<le> length (consents m i raw (h @ [(ctx, name)]))"
        if "mcp_tool_approval_mode (configs i) raw = Mcp_prompt"
      proof -
        from that True n have "consented ctx t" by (simp add: Let_def)
        with one True c mcp_step.IH that show ?thesis by (simp add: grow)
      qed
      have a: "consents m i raw (h @ [(ctx, name)]) \<noteq> []"
        if "mcp_tool_approval_mode (configs i) raw = Mcp_approve"
      proof (cases "consented ctx t")
        case True
        with one here show ?thesis by (auto simp: grow)
      next
        case False
        with n here that have "name \<in> mx_approved s'" using names t s' by (auto simp: Let_def)
        from approved [OF this t] here show ?thesis by simp
      qed
      from n s' mcp_step.IH have "mx_memory s' = mem" by simp
      with approved p a show ?thesis by blast
    qed
  qed
qed

text \<open>
  C6: No MCP tool is called without the consent its configuration demands, and consent grants nothing
  else. Over any sequence of calls, a tool whose mode is \<open>prompt\<close> is called at most as often as the
  client approved it, a tool whose mode is \<open>approve\<close> is called only if the client approved it at or
  before its first call, and the permission memory of the run is never changed.
\<close>

theorem mcp_calls_have_consent:
  assumes "build_effective_mcp_manager lower configured discovered default_builtin_mcp_servers = Inr m"
    and "mcp_trace fs describe m servers configs fallback mem h s"
  shows "mx_memory s = mem
    \<and> (mcp_tool_approval_mode (configs i) raw = Mcp_prompt \<longrightarrow>
         length (calls_of i raw s) \<le> length (consents m i raw h))
    \<and> (mcp_tool_approval_mode (configs i) raw = Mcp_approve \<longrightarrow> calls_of i raw s \<noteq> [] \<longrightarrow>
         consents m i raw h \<noteq> [])"
proof -
  from assms(1) obtain made where "make_manager made = Inr m" "\<forall>s \<in> set made. good_server s"
    by (rule effective_manager)
  then have "\<forall>n t. get_tool m n = Inr t \<longrightarrow> model_tool_name t = n"
    using found_tool by blast
  from mcp_trace_consents [OF assms(2) this] show ?thesis by blast
qed

section \<open>Every call is reported\<close>

lemma parsed_names: "parse_mcp_model_tool_name name = Inr i \<Longrightarrow> mcp_name (mti_server_id i) \<and> mcp_name (mti_tool_name i)"
  using parsed_name_is_made [of name i] by (simp add: made_name)

text \<open>
  A call of a tool the manager lists always returns to the model. Whatever the server, the client or
  the approval does, \<open>call_tool\<close> gives a result whose activity is valid and names the tool that was
  called, with the value of the tool when it gave one; no exception escapes.
\<close>

theorem mcp_calls_are_reported:
  assumes "build_effective_mcp_manager lower configured discovered default_builtin_mcp_servers = Inr m"
    and "get_tool m name = Inr t" and "\<forall>e. fst (describe e) \<noteq> []"
  shows "\<exists>s' ret. mcp_call_tool fs describe m servers configs fallback ctx name args s = (s', Inr ret)
    \<and> validate_mcp_activity (mtr_details ret) = Inr (mtr_details ret)
    \<and> mad_model_tool_name (mtr_details ret) = name
    \<and> (\<forall>v. route_tool fs m servers configs fallback ctx (mtd_identity t) args s = (s', Inr v)
         \<longrightarrow> mtr_value ret = Mcp_value (ev_value v))"
proof -
  from assms(1) obtain made where made: "make_manager made = Inr m" and good: "\<forall>s \<in> set made. good_server s"
    by (rule effective_manager)
  from found_tool [OF assms(2) made good] have n: "model_tool_name t = name" and t: "t \<in> set (all_tools m)"
    by simp_all
  from t made good have "parse_mcp_model_tool_name (model_tool_name t) = Inr (mtd_identity t)"
    by (auto simp: all_tools_made good_server_def)
  then have p: "parse_mcp_model_tool_name name = Inr (mtd_identity t)" using n by simp
  have names: "mcp_name (mti_server_id (mtd_identity t))" "mcp_name (mti_tool_name (mtd_identity t))"
    using parsed_names [OF p] by simp_all
  have valid: "validate_mcp_activity d = Inr d"
    if "mad_model_tool_name d = name" "mad_server_id d = mti_server_id (mtd_identity t)"
      "mad_tool_name d = mti_tool_name (mtd_identity t)" for d
    using that by (simp add: validate_mcp_activity_def p)
  have activity: "mad_model_tool_name (call_activity t f) = name"
    "mad_server_id (call_activity t f) = mti_server_id (mtd_identity t)"
    "mad_tool_name (call_activity t f) = mti_tool_name (mtd_identity t)" for f
    by (simp_all add: call_activity_def n)
  have failure: "validate_mcp_failure (tool_failure_of t (describe e)) = Inr (tool_failure_of t (describe e))" for e
    using assms(3) names
    by (simp add: validate_mcp_failure_def tool_failure_of_def message_or_type_def validate_optional_name_def)
  obtain s' r where routed: "route_tool fs m servers configs fallback ctx (mtd_identity t) args s = (s', r)"
    by fastforce
  have "\<exists>ret. mcp_call_tool fs describe m servers configs fallback ctx name args s = (s', Inr ret)
    \<and> validate_mcp_activity (mtr_details ret) = Inr (mtr_details ret)
    \<and> mad_model_tool_name (mtr_details ret) = name
    \<and> (\<forall>v. r = Inr v \<longrightarrow> mtr_value ret = Mcp_value (ev_value v))"
    using assms(2) routed activity valid failure
    by (auto simp: mcp_call_tool_def denied_return_def failed_return_def value_return_def
        split: sum.splits exec_error.splits flow_error.splits)
  with routed show ?thesis by auto
qed

section \<open>Starting and closing the servers\<close>

text \<open>
  What the outside does for one configured server: whether building it, entering it and leaving it
  raise, and what it lists. Building may raise a runtime failure of its own.
\<close>

datatype enter_failure = Enter_oauth py_exception | Enter_other py_exception

record server_behaviour =
  sb_factory :: "(mcp_failure + py_exception) option"
  sb_enter :: "enter_failure option"
  sb_list :: "(py_exception, mcp_sdk_tool list) result"
  sb_exit :: "py_exception option"

datatype start_error =
    Runtime_failed mcp_failure
  | Start_key_mismatch string string
  | Failure_invalid mcp_error
  | Exit_raised py_exception

definition runtime_failure :: "mcp_failure_kind \<Rightarrow> string \<Rightarrow> py_exception \<Rightarrow> start_error" where
  "runtime_failure kind server_id e =
     (case validate_mcp_failure
        \<lparr>mf_kind = kind, mf_error_type = fst e, mf_message = message_or_type e,
         mf_server_id = Some server_id, mf_tool_name = None, mf_resource_uri = None, mf_auth = None\<rparr> of
        Inl c \<Rightarrow> Failure_invalid c
      | Inr f \<Rightarrow> Runtime_failed f)"

definition oauth_recovery_hint :: "mcp_auth_reason \<Rightarrow> string \<Rightarrow> ustr" where
  "oauth_recovery_hint reason server_id =
     (if reason = Oauth_login_required
      then lit ''Run `jaca mcp login '' @ lit server_id @ lit ''` and retry the MCP server.''
      else lit ''Run `jaca mcp login '' @ lit server_id @ lit ''` again and retry the MCP server.'')"

definition oauth_runtime_failure :: "mcp_auth_reason \<Rightarrow> string \<Rightarrow> py_exception \<Rightarrow> start_error" where
  "oauth_runtime_failure reason server_id e =
     (case validate_auth_failure
        \<lparr>maf_auth_kind = Oauth, maf_reason = reason, maf_recovery_hint = oauth_recovery_hint reason server_id,
         maf_env_var = None, maf_provider_error_code = None\<rparr> of
        Inl c \<Rightarrow> Failure_invalid c
      | Inr auth \<Rightarrow>
          (case validate_mcp_failure
             \<lparr>mf_kind = Auth_failed, mf_error_type = fst e, mf_message = message_or_type e,
              mf_server_id = Some server_id, mf_tool_name = None, mf_resource_uri = None,
              mf_auth = Some auth\<rparr> of
             Inl c \<Rightarrow> Failure_invalid c
           | Inr f \<Rightarrow> Runtime_failed f))"

section \<open>Building the client of a server\<close>

definition mcp_timeout :: "pyfloat option \<Rightarrow> pyfloat \<Rightarrow> pyfloat" where
  "mcp_timeout value default_value = (case value of None \<Rightarrow> default_value | Some v \<Rightarrow> v)"

text \<open>The \<open>repr\<close> of a name without quotes and backslashes.\<close>

definition quoted :: "string \<Rightarrow> ustr" where
  "quoted s = [39] @ lit s @ [39]"

definition bearer_env_failure :: "string \<Rightarrow> string \<Rightarrow> mcp_failure" where
  "bearer_env_failure server_id env_var =
     \<lparr>mf_kind = Auth_failed, mf_error_type = lit ''McpBearerEnvMissingError'',
      mf_message = lit ''MCP server '' @ quoted server_id @ lit '' requires environment variable '' @ quoted env_var,
      mf_server_id = Some server_id, mf_tool_name = None, mf_resource_uri = None,
      mf_auth = Some \<lparr>maf_auth_kind = Bearer_env, maf_reason = Missing_bearer_env,
        maf_recovery_hint = lit ''Set '' @ lit env_var @ lit '' and retry the MCP server.'',
        maf_env_var = Some (lit env_var), maf_provider_error_code = None\<rparr>\<rparr>"

definition bearer_headers_from_env ::
    "string \<Rightarrow> string option \<Rightarrow> (string \<rightharpoonup> ustr) \<Rightarrow> (mcp_failure, (string \<times> ustr) list option) result" where
  "bearer_headers_from_env server_id env_var env =
     (case env_var of
        None \<Rightarrow> Inr None
      | Some v \<Rightarrow>
          (case env v of
             None \<Rightarrow> Inl (bearer_env_failure server_id v)
           | Some token \<Rightarrow>
               if token = [] then Inl (bearer_env_failure server_id v)
               else Inr (Some [(''Authorization'', lit ''Bearer '' @ token)])))"

text \<open>What the code passes to the constructors of the protocol's package.\<close>

record remote_client =
  rc_id :: string
  rc_timeout :: pyfloat
  rc_read_timeout :: pyfloat

datatype remote_spec =
    Remote_stdio mcp_stdio_transport remote_client
  | Remote_http string "(string \<times> ustr) list option" remote_client
  | Remote_oauth_http string remote_client

text \<open>The login is checked by \<open>mcp_oauth.py\<close>: a parameter that says what it raises.\<close>

definition build_pydantic_ai_mcp_server ::
    "(mcp_server_config \<rightharpoonup> mcp_auth_reason \<times> py_exception) \<Rightarrow> (string \<rightharpoonup> ustr) \<Rightarrow> mcp_server_config
     \<Rightarrow> (start_error, remote_spec) result" where
  "build_pydantic_ai_mcp_server require_login env config =
     (let client = \<lparr>rc_id = msc_server_id config,
            rc_timeout = mcp_timeout (msc_startup_timeout_sec config) (Pyfloat 5 0),
            rc_read_timeout = mcp_timeout (msc_tool_timeout_sec config) (Pyfloat 300 0)\<rparr>
      in case msc_transport config of
           Stdio t \<Rightarrow> Inr (Remote_stdio t client)
         | Streamable_http t \<Rightarrow>
             (if mht_oauth t \<noteq> None then
                (case require_login config of
                   Some (reason, e) \<Rightarrow> Inl (oauth_runtime_failure reason (msc_server_id config) e)
                 | None \<Rightarrow> Inr (Remote_oauth_http (mht_url t) client))
              else res_bind
                (lift_error Runtime_failed
                  (bearer_headers_from_env (msc_server_id config) (mht_bearer_token_env_var t) env))
                (\<lambda>headers. Inr (Remote_http (mht_url t) headers client))))"

text \<open>A missing credential is reported as a valid failure.\<close>

lemma bearer_failure_valid:
  "mcp_name server_id \<Longrightarrow> env_var \<noteq> [] \<Longrightarrow>
     validate_mcp_failure (bearer_env_failure server_id env_var) = Inr (bearer_env_failure server_id env_var)"
  by (simp add: validate_mcp_failure_def bearer_env_failure_def validate_optional_name_def lit_def)

type_synonym configured_server = "string \<times> mcp_server_config"

text \<open>The loop that builds, enters and asks the servers; it says which ones it has entered.\<close>

fun start_servers ::
    "(manager_error \<Rightarrow> py_exception) \<Rightarrow> (mcp_server_config \<Rightarrow> server_behaviour) \<Rightarrow> configured_server list
     \<Rightarrow> configured_server list \<Rightarrow> (string \<times> mcp_discovered_tool list) list
     \<Rightarrow> configured_server list \<times> (start_error, (string \<times> mcp_discovered_tool list) list) result" where
  "start_servers describe behaviour [] entered discovered = (entered, Inr discovered)"
| "start_servers describe behaviour ((server_id, config) # configured) entered discovered =
     (if server_id \<noteq> msc_server_id config
        then (entered, Inl (Start_key_mismatch server_id (msc_server_id config)))
      else if \<not> msc_enabled config then start_servers describe behaviour configured entered discovered
      else (case sb_factory (behaviour config) of
              Some (Inl failure) \<Rightarrow> (entered, Inl (Runtime_failed failure))
            | Some (Inr e) \<Rightarrow> (entered, Inl (runtime_failure Config_failed server_id e))
            | None \<Rightarrow>
                (case sb_enter (behaviour config) of
                   Some (Enter_oauth e) \<Rightarrow>
                     (entered, Inl (oauth_runtime_failure Oauth_refresh_failed server_id e))
                 | Some (Enter_other e) \<Rightarrow> (entered, Inl (runtime_failure Startup_failed server_id e))
                 | None \<Rightarrow>
                     (let entered = entered @ [(server_id, config)] in
                      case sb_list (behaviour config) of
                        Inl e \<Rightarrow> (entered, Inl (runtime_failure Discovery_failed server_id e))
                      | Inr listed \<Rightarrow>
                          (case discover_pydantic_ai_mcp_tools listed of
                             Inl e \<Rightarrow>
                               (entered, Inl (runtime_failure Discovery_failed server_id (describe e)))
                           | Inr tools \<Rightarrow>
                               start_servers describe behaviour configured entered
                                 (discovered @ [(server_id, tools)]))))))"

text \<open>Leaving the servers one after the other, up to the first one that raises.\<close>

fun exit_servers ::
    "(mcp_server_config \<Rightarrow> server_behaviour) \<Rightarrow> configured_server list
     \<Rightarrow> configured_server list \<times> py_exception option" where
  "exit_servers behaviour [] = ([], None)"
| "exit_servers behaviour (c # cs) =
     (case sb_exit (behaviour (snd c)) of
        Some e \<Rightarrow> ([c], Some e)
      | None \<Rightarrow> (let (left, e) = exit_servers behaviour cs in (c # left, e)))"

record configured_mcp_runtime =
  cmr_manager :: mcp_manager
  cmr_servers :: "configured_server list"
  cmr_configured_tool_names :: "string list"
  cmr_exposure :: mcp_tool_exposure
  cmr_inventory :: mcp_tool_inventory
  cmr_closed :: bool

definition configured_tools :: "mcp_manager \<Rightarrow> configured_server list \<Rightarrow> mcp_tool_definition list" where
  "configured_tools m servers =
     filter (\<lambda>t. mti_server_id (mtd_identity t) \<in> fst ` set servers) (all_tools m)"

definition new_configured_mcp_runtime :: "mcp_manager \<Rightarrow> configured_server list \<Rightarrow> configured_mcp_runtime" where
  "new_configured_mcp_runtime m servers =
     (let names = map model_tool_name (configured_tools m servers);
          exposure = build_mcp_tool_exposure direct_mcp_tool_exposure_threshold names
      in \<lparr>cmr_manager = m, cmr_servers = servers, cmr_configured_tool_names = names,
          cmr_exposure = exposure,
          cmr_inventory = inventory_from_manager m (mte_direct_tool_names exposure)
            (mte_deferred_tool_names exposure),
          cmr_closed = False\<rparr>)"

definition assemble_runtime ::
    "(string \<Rightarrow> string) \<Rightarrow> (manager_error \<Rightarrow> py_exception) \<Rightarrow> configured_server list
     \<Rightarrow> configured_server list \<Rightarrow> (string \<times> mcp_discovered_tool list) list
     \<Rightarrow> (start_error, configured_mcp_runtime) result" where
  "assemble_runtime lower describe configured entered discovered =
     (case build_effective_mcp_manager lower configured (map_of discovered) default_builtin_mcp_servers of
        Inl e \<Rightarrow> Inl (runtime_failure Discovery_failed
          (case discovered of [] \<Rightarrow> ''unknown'' | d # _ \<Rightarrow> fst d) (describe e))
      | Inr m \<Rightarrow> Inr (new_configured_mcp_runtime m entered))"

definition build_configured_mcp_runtime ::
    "(string \<Rightarrow> string) \<Rightarrow> (manager_error \<Rightarrow> py_exception) \<Rightarrow> (mcp_server_config \<Rightarrow> server_behaviour)
     \<Rightarrow> configured_server list
     \<Rightarrow> configured_server list \<times> configured_server list \<times> (start_error, configured_mcp_runtime) result" where
  "build_configured_mcp_runtime lower describe behaviour configured =
     (let (entered, started) = start_servers describe behaviour configured [] [];
          outcome = res_bind started (assemble_runtime lower describe configured entered)
      in case outcome of
           Inr runtime \<Rightarrow> (entered, [], Inr runtime)
         | Inl e \<Rightarrow>
             (let (left, raised) = exit_servers behaviour (rev entered)
              in (entered, left, Inl (case raised of None \<Rightarrow> e | Some x \<Rightarrow> Exit_raised x))))"

definition close_runtime ::
    "(mcp_server_config \<Rightarrow> server_behaviour) \<Rightarrow> configured_mcp_runtime
     \<Rightarrow> configured_mcp_runtime \<times> configured_server list \<times> py_exception option" where
  "close_runtime behaviour runtime =
     (if cmr_closed runtime then (runtime, [], None)
      else (runtime\<lparr>cmr_closed := True\<rparr>, exit_servers behaviour (rev (cmr_servers runtime))))"

lemma exited_servers:
  "prefix (fst (exit_servers behaviour cs)) cs
   \<and> (snd (exit_servers behaviour cs) = None \<longrightarrow> fst (exit_servers behaviour cs) = cs)
   \<and> ((\<forall>c \<in> set cs. sb_exit (behaviour (snd c)) = None) \<longrightarrow> snd (exit_servers behaviour cs) = None)"
  by (induction cs) (auto split: option.splits prod.splits)

lemma started_servers:
  "snd (start_servers describe behaviour configured entered discovered) = Inr d \<Longrightarrow>
     fst (start_servers describe behaviour configured entered discovered)
       = entered @ filter (\<lambda>c. msc_enabled (snd c)) configured"
  by (induction describe behaviour configured entered discovered rule: start_servers.induct)
    (auto simp: Let_def split: if_splits option.splits sum.splits enter_failure.splits)

text \<open>
  Starting up is all or nothing. When it succeeds, every enabled server of the configuration was
  entered, in order, and none was left. When it fails, the servers it had entered are left in the
  reverse order, each at most once, and all of them when leaving does not raise. A runtime that
  started leaves each of its servers once, however often it is closed.
\<close>

theorem startup_is_all_or_nothing:
  assumes "build_configured_mcp_runtime lower describe behaviour configured = (entered, left, r)"
  shows "(case r of
      Inl e \<Rightarrow> prefix left (rev entered)
        \<and> ((\<forall>c \<in> set entered. sb_exit (behaviour (snd c)) = None) \<longrightarrow> left = rev entered)
    | Inr runtime \<Rightarrow> left = [] \<and> entered = filter (\<lambda>c. msc_enabled (snd c)) configured
        \<and> fst (snd (close_runtime behaviour runtime)) = fst (exit_servers behaviour (rev entered))
        \<and> close_runtime behaviour (fst (close_runtime behaviour runtime))
          = (fst (close_runtime behaviour runtime), [], None))"
proof -
  obtain entered' started where s: "start_servers describe behaviour configured [] [] = (entered', started)"
    by fastforce
  show ?thesis
  proof (cases r)
    case (Inl e)
    with assms s have "entered' = entered" "left = fst (exit_servers behaviour (rev entered))"
      by (auto simp: build_configured_mcp_runtime_def Let_def split: sum.splits prod.splits)
    with exited_servers [of behaviour "rev entered"] Inl show ?thesis by auto
  next
    case (Inr runtime)
    with assms s have e: "entered' = entered" "left = []"
      and o: "res_bind started (assemble_runtime lower describe configured entered') = Inr runtime"
      by (auto simp: build_configured_mcp_runtime_def Let_def split: sum.splits prod.splits)
    from o obtain d where d: "started = Inr d"
      and b: "assemble_runtime lower describe configured entered' d = Inr runtime" by auto
    from b obtain m where m: "runtime = new_configured_mcp_runtime m entered"
      using e(1) by (auto simp: assemble_runtime_def split: sum.splits)
    from e d m started_servers [of describe behaviour configured "[]" "[]" d] s Inr show ?thesis
      by (simp add: close_runtime_def new_configured_mcp_runtime_def Let_def)
  qed
qed

text \<open>
  A server that raises when it is left keeps the others open for good: closing marks the runtime
  as closed before it leaves the first server, stops at the one that raises, and does nothing when
  it is called again.
\<close>

theorem close_failure_leaks:
  assumes "\<not> cmr_closed runtime" and "cmr_servers runtime = others @ [c]"
    and "sb_exit (behaviour (snd c)) = Some e"
  shows "\<exists>runtime'. close_runtime behaviour runtime = (runtime', [c], Some e)
    \<and> close_runtime behaviour runtime' = (runtime', [], None)"
  using assms by (simp add: close_runtime_def)

section \<open>Concrete calls and start-ups\<close>

definition sample_context :: mcp_call_context where
  "sample_context =
     \<lparr>mcc_requester = Some (\<lambda>request. Inr \<lparr>ad_request_id = ''u'', ad_decision = Approved, ad_option_id = None,
        ad_granted_permissions = None, ad_granted_grants = []\<rparr>),
      mcc_uuid = ''u'', mcc_capabilities = ps_effective_capabilities build_default_permission_state\<rparr>"

definition sample_value :: executor_value where
  "sample_value = \<lparr>ev_value = JNull, ev_title = None, ev_summary = None, ev_display_label = None, ev_details = None\<rparr>"

definition sample_servers :: remote_servers where
  "sample_servers = [''docs'' \<mapsto> (\<lambda>calls raw args. Inr sample_value)]"

definition sample_configs :: "string \<rightharpoonup> mcp_server_config" where
  "sample_configs = [''docs'' \<mapsto> sample_mcp_config]"

definition sample_fallback :: fallback_executor where
  "sample_fallback identity args = Inl (No_remote_server (mti_server_id identity))"

definition sample_describe :: "exec_error \<Rightarrow> py_exception" where
  "sample_describe e = (lit ''Error'', [])"

lemma sample_tool:
  obtains m t where "build_effective_mcp_manager id [(''docs'', sample_mcp_config)] sample_discovered
      default_builtin_mcp_servers = Inr m"
    and "get_tool m ''mcp__docs__tool_2fa'' = Inr t" and "raw_tool_name t = ''2fa''"
    and "mtd_identity t = \<lparr>mti_server_id = ''docs'', mti_tool_name = ''tool_2fa''\<rparr>"
proof -
  obtain m where m: "build_effective_mcp_manager id [(''docs'', sample_mcp_config)] sample_discovered
      default_builtin_mcp_servers = Inr m"
    and names: "(''mcp__docs__tool_2fa'', ''2fa'') \<in> set (map (\<lambda>t. (model_tool_name t, raw_tool_name t)) (all_tools m))"
    by (rule sample_manager_built)
  from names obtain t where t: "t \<in> set (all_tools m)" "model_tool_name t = ''mcp__docs__tool_2fa''" "raw_tool_name t = ''2fa''"
    by (auto simp del: list.map)
  from m obtain made where made: "make_manager made = Inr m" and good: "\<forall>s \<in> set made. good_server s"
    by (rule effective_manager)
  from t(1) made good have "parse_mcp_model_tool_name (model_tool_name t) = Inr (mtd_identity t)"
    by (auto simp: all_tools_made good_server_def)
  moreover have "parse_mcp_model_tool_name ''mcp__docs__tool_2fa''
      = Inr \<lparr>mti_server_id = ''docs'', mti_tool_name = ''tool_2fa''\<rparr>" by code_simp
  ultimately have "mtd_identity t = \<lparr>mti_server_id = ''docs'', mti_tool_name = ''tool_2fa''\<rparr>"
    using t(2) by simp
  with that [OF m _ t(3)] good_manager_finds [OF made good t(1)] t(2) show thesis by simp
qed

lemma sample_mode: "mcp_tool_approval_mode (sample_configs ''docs'') ''2fa'' = Mcp_approve"
  by (simp add: sample_configs_def mcp_tool_approval_mode_def sample_mcp_config_def)

lemma sample_call:
  assumes "get_tool m ''mcp__docs__tool_2fa'' = Inr t" and "raw_tool_name t = ''2fa''"
    and "mtd_identity t = \<lparr>mti_server_id = ''docs'', mti_tool_name = ''tool_2fa''\<rparr>"
  shows "fst (mcp_call_tool sample_fs sample_describe m sample_servers sample_configs sample_fallback
      sample_context ''mcp__docs__tool_2fa'' [] \<lparr>mx_approved = {}, mx_memory = empty_memory, mx_calls = []\<rparr>)
    = \<lparr>mx_approved = {''mcp__docs__tool_2fa''}, mx_memory = empty_memory, mx_calls = [(''docs'', ''2fa'', [])]\<rparr>"
proof -
  have n: "model_tool_name t = ''mcp__docs__tool_2fa''" "identity_model_tool_name (mtd_identity t) = ''mcp__docs__tool_2fa''"
    by (simp_all add: model_tool_name_def assms(3) identity_model_tool_name_def mcp_tool_name_prefix_def)
  obtain mounted where mounted: "mtd_mounted_identity t = Some mounted"
    using assms(2,3) by (cases "mtd_mounted_identity t") (auto simp: raw_tool_name_def)
  with assms(2) have raw: "mmt_raw_tool_name mounted = ''2fa''" by (simp add: raw_tool_name_def)
  have "resolve_tool_approval sample_fs (mcc_requester sample_context)
      (mcp_approval_request (mcc_uuid sample_context) (mcc_capabilities sample_context) t) dm mm empty_memory
    = Inr (\<lparr>ad_request_id = ''u'', ad_decision = Approved, ad_option_id = None,
        ad_granted_permissions = None, ad_granted_grants = []\<rparr>, empty_memory)" for dm mm
    by (simp add: resolve_tool_approval_def sample_context_def mcp_approval_request_def
        normalize_approval_decision_def resolve_selected_approval_option_def
        approval_request_base.truncate_def valid_decision_def validate_approval_decision_def
        validate_granted_def Let_def)
  then have e: "ensure_approved sample_fs sample_configs sample_context t
      \<lparr>mx_approved = {}, mx_memory = empty_memory, mx_calls = []\<rparr>
    = Inr \<lparr>mx_approved = {''mcp__docs__tool_2fa''}, mx_memory = empty_memory, mx_calls = []\<rparr>"
    using sample_mode by (simp add: ensure_approved_def assms n)
  have "execute_tool sample_fs m sample_servers sample_configs sample_context (mtd_identity t) []
      \<lparr>mx_approved = {}, mx_memory = empty_memory, mx_calls = []\<rparr>
    = (\<lparr>mx_approved = {''mcp__docs__tool_2fa''}, mx_memory = empty_memory, mx_calls = [(''docs'', ''2fa'', [])]\<rparr>,
       Inr sample_value)"
    by (simp only: execute_tool_def n assms(1) sum.case mounted option.case e)
      (simp add: sample_servers_def assms(3) raw)
  then show ?thesis
    by (simp add: mcp_call_tool_def assms(1) route_tool_def) (simp add: sample_servers_def assms(3))
qed

theorem mcp_calls_have_consent_witness:
  "\<exists>m s. mcp_trace sample_fs sample_describe m sample_servers sample_configs sample_fallback empty_memory
        [(sample_context, ''mcp__docs__tool_2fa'')] s
      \<and> calls_of ''docs'' ''2fa'' s = [(''docs'', ''2fa'', [])]
      \<and> consents m ''docs'' ''2fa'' [(sample_context, ''mcp__docs__tool_2fa'')] \<noteq> []"
proof -
  obtain m t where m: "build_effective_mcp_manager id [(''docs'', sample_mcp_config)] sample_discovered
      default_builtin_mcp_servers = Inr m"
    and t: "get_tool m ''mcp__docs__tool_2fa'' = Inr t" "raw_tool_name t = ''2fa''"
      "mtd_identity t = \<lparr>mti_server_id = ''docs'', mti_tool_name = ''tool_2fa''\<rparr>"
    by (rule sample_tool)
  define s where "s = \<lparr>mx_approved = {''mcp__docs__tool_2fa''}, mx_memory = empty_memory,
    mx_calls = [(''docs'', ''2fa'', [])]\<rparr>"
  from sample_call [OF t] obtain r where
    "mcp_call_tool sample_fs sample_describe m sample_servers sample_configs sample_fallback
      sample_context ''mcp__docs__tool_2fa'' [] \<lparr>mx_approved = {}, mx_memory = empty_memory, mx_calls = []\<rparr>
    = (s, r)" by (metis s_def prod.collapse)
  from mcp_step [OF mcp_start this]
  have tr: "mcp_trace sample_fs sample_describe m sample_servers sample_configs sample_fallback empty_memory
      [(sample_context, ''mcp__docs__tool_2fa'')] s" by simp
  have c: "calls_of ''docs'' ''2fa'' s = [(''docs'', ''2fa'', [])]" by (simp add: s_def calls_of_def)
  with mcp_calls_have_consent [OF m tr, of "''docs''" "''2fa''"] sample_mode
  have "consents m ''docs'' ''2fa'' [(sample_context, ''mcp__docs__tool_2fa'')] \<noteq> []" by simp
  with tr c show ?thesis by blast
qed

theorem mcp_calls_are_reported_witness:
  "\<exists>m s ret. mcp_call_tool sample_fs sample_describe m sample_servers sample_configs sample_fallback
      sample_context ''mcp__docs__tool_2fa'' [] \<lparr>mx_approved = {}, mx_memory = empty_memory, mx_calls = []\<rparr>
    = (s, Inr ret) \<and> mad_model_tool_name (mtr_details ret) = ''mcp__docs__tool_2fa''"
proof -
  obtain m t where m: "build_effective_mcp_manager id [(''docs'', sample_mcp_config)] sample_discovered
      default_builtin_mcp_servers = Inr m"
    and t: "get_tool m ''mcp__docs__tool_2fa'' = Inr t" by (rule sample_tool)
  have "\<forall>e. fst (sample_describe e) \<noteq> []" by (simp add: sample_describe_def lit_def)
  from mcp_calls_are_reported [OF m t this] obtain s ret where
    "mcp_call_tool sample_fs sample_describe m sample_servers sample_configs sample_fallback
      sample_context ''mcp__docs__tool_2fa'' [] \<lparr>mx_approved = {}, mx_memory = empty_memory, mx_calls = []\<rparr>
    = (s, Inr ret)" and "mad_model_tool_name (mtr_details ret) = ''mcp__docs__tool_2fa''" by blast
  then show ?thesis by (intro exI conjI)
qed

text \<open>Two servers, the second of which cannot be entered.\<close>

definition sample_behaviour :: "mcp_server_config \<Rightarrow> server_behaviour" where
  "sample_behaviour config =
     \<lparr>sb_factory = None,
      sb_enter = (if msc_server_id config = ''docs'' then None else Some (Enter_other (lit ''OSError'', []))),
      sb_list = Inr [], sb_exit = None\<rparr>"

theorem startup_is_all_or_nothing_witness:
  "\<exists>entered left e. build_configured_mcp_runtime id (\<lambda>e. (lit ''Error'', [])) sample_behaviour
      [(''docs'', sample_mcp_config), (''wiki'', sample_mcp_config\<lparr>msc_server_id := ''wiki''\<rparr>)]
    = (entered, left, Inl e) \<and> entered = [(''docs'', sample_mcp_config)] \<and> left = rev entered"
proof -
  have "start_servers (\<lambda>e. (lit ''Error'', [])) sample_behaviour
      [(''docs'', sample_mcp_config), (''wiki'', sample_mcp_config\<lparr>msc_server_id := ''wiki''\<rparr>)] [] []
    = ([(''docs'', sample_mcp_config)], Inl (runtime_failure Startup_failed ''wiki'' (lit ''OSError'', [])))"
    by (simp add: sample_behaviour_def sample_mcp_config_def)
  then obtain left e where b: "build_configured_mcp_runtime id (\<lambda>e. (lit ''Error'', [])) sample_behaviour
      [(''docs'', sample_mcp_config), (''wiki'', sample_mcp_config\<lparr>msc_server_id := ''wiki''\<rparr>)]
    = ([(''docs'', sample_mcp_config)], left, Inl e)"
    by (simp add: build_configured_mcp_runtime_def sample_behaviour_def)
  from startup_is_all_or_nothing [OF b] have "left = rev [(''docs'', sample_mcp_config)]"
    by (simp add: sample_behaviour_def)
  with b show ?thesis by blast
qed

theorem close_failure_leaks_witness:
  "\<exists>runtime. close_runtime (\<lambda>config. \<lparr>sb_factory = None, sb_enter = None, sb_list = Inr [],
        sb_exit = (if msc_server_id config = ''docs'' then None else Some (lit ''OSError'', []))\<rparr>)
      (new_configured_mcp_runtime []
        [(''docs'', sample_mcp_config), (''wiki'', sample_mcp_config\<lparr>msc_server_id := ''wiki''\<rparr>)])
    = (runtime, [(''wiki'', sample_mcp_config\<lparr>msc_server_id := ''wiki''\<rparr>)], Some (lit ''OSError'', []))"
proof -
  let ?c = "(''wiki'', sample_mcp_config\<lparr>msc_server_id := ''wiki''\<rparr>)"
  let ?b = "\<lambda>config. \<lparr>sb_factory = None, sb_enter = None, sb_list = Inr [],
    sb_exit = (if msc_server_id config = ''docs'' then None else Some (lit ''OSError'', []))\<rparr>"
  let ?r = "new_configured_mcp_runtime [] [(''docs'', sample_mcp_config), ?c]"
  have "\<not> cmr_closed ?r" "cmr_servers ?r = [(''docs'', sample_mcp_config)] @ [?c]"
    by (simp_all add: new_configured_mcp_runtime_def Let_def)
  moreover have "sb_exit (?b (snd ?c)) = Some (lit ''OSError'', [])" by simp
  ultimately show ?thesis using close_failure_leaks [of ?r _ ?c ?b] by blast
qed

end
