(* ===== verification/Run_Validation.thy ===== *)
theory Run_Validation
  imports Session_Contract
begin

text \<open>
  The validators of \<open>session/jsonl.py\<close> for the events and the messages of one run: the batch
  validator a session is loaded with, the incremental one a run is appended with, and the messages
  validator. A dictionary of pending tool calls is an association list with distinct ids.
\<close>

datatype event_error =
    No_events | Empty_run_id | Run_not_started | Wrong_event_run_id | After_terminal | Started_twice
  | Tool_call_reused | Update_without_call | Update_wrong_name | Result_without_call
  | Result_wrong_name | Unresolved_tool_calls | No_terminal

datatype message_error =
    Instructions_persisted | System_prompt_persisted | Message_call_reused
  | Message_return_wrong_name | Message_calls_unresolved

datatype run_error = Bad_events event_error | Bad_messages message_error

section \<open>Pending calls\<close>

type_synonym pending_calls = "(string \<times> string) list"

definition drop_call :: "string \<Rightarrow> pending_calls \<Rightarrow> pending_calls" where
  "drop_call i ps = filter (\<lambda>p. fst p \<noteq> i) ps"

lemma map_of_drop_call [simp]: "map_of (drop_call i ps) j = (if j = i then None else map_of ps j)"
  by (induction ps) (auto simp: drop_call_def)

lemma pending_empty_iff: "ps = [] \<longleftrightarrow> (\<forall>i. map_of ps i = None)"
  by (cases ps) (auto simp: fun_upd_def split: if_splits)

section \<open>Events of a run, all at once\<close>

record batch_state =
  bs_index :: nat
  bs_terminal :: bool
  bs_pending :: pending_calls

definition batch_event_step :: "string \<Rightarrow> batch_state \<Rightarrow> run_event \<Rightarrow> (event_error, batch_state) result" where
  "batch_event_step run_id s event =
     (let next = s\<lparr>bs_index := Suc (bs_index s)\<rparr>; pending = bs_pending s in
      if event_run_id event \<noteq> run_id then Inl Wrong_event_run_id
      else if bs_terminal s then Inl After_terminal
      else (case event of
          Run_started _ \<Rightarrow> if bs_index s \<noteq> 0 then Inl Started_twice else Inr next
        | Tool_call_started e \<Rightarrow>
            if map_of pending (ev_tool_call_id e) \<noteq> None then Inl Tool_call_reused
            else Inr (next\<lparr>bs_pending := (ev_tool_call_id e, ev_tool_name e) # pending\<rparr>)
        | Tool_call_updated e \<Rightarrow>
            (case map_of pending (ev_tool_call_id e) of
               None \<Rightarrow> Inl Update_without_call
             | Some n \<Rightarrow> if n \<noteq> ev_tool_name e then Inl Update_wrong_name else Inr next)
        | Tool_call_succeeded e \<Rightarrow>
            (case map_of pending (ev_tool_call_id e) of
               None \<Rightarrow> Inl Result_without_call
             | Some n \<Rightarrow>
                 if n \<noteq> ev_tool_name e then Inl Result_wrong_name
                 else Inr (next\<lparr>bs_pending := drop_call (ev_tool_call_id e) pending\<rparr>))
        | Tool_call_failed e \<Rightarrow>
            (case map_of pending (ev_tool_call_id e) of
               None \<Rightarrow> Inl Result_without_call
             | Some n \<Rightarrow>
                 if n \<noteq> ev_tool_name e then Inl Result_wrong_name
                 else Inr (next\<lparr>bs_pending := drop_call (ev_tool_call_id e) pending\<rparr>))
        | Run_succeeded _ \<Rightarrow>
            if pending \<noteq> [] then Inl Unresolved_tool_calls else Inr (next\<lparr>bs_terminal := True\<rparr>)
        | Run_failed _ \<Rightarrow>
            if pending \<noteq> [] then Inl Unresolved_tool_calls else Inr (next\<lparr>bs_terminal := True\<rparr>)
        | _ \<Rightarrow> Inr next))"

definition batch_start :: batch_state where
  "batch_start = \<lparr>bs_index = 0, bs_terminal = False, bs_pending = []\<rparr>"

definition validate_run_events :: "string \<Rightarrow> run_event list \<Rightarrow> bool \<Rightarrow> (event_error, unit) result" where
  "validate_run_events run_id events require_terminal =
     (case events of
        [] \<Rightarrow> Inl No_events
      | first # _ \<Rightarrow>
          if \<not> is_run_started first then Inl Run_not_started
          else res_bind (run_steps (batch_event_step run_id) batch_start events)
            (\<lambda>s. ensure (bs_terminal s \<or> \<not> require_terminal) No_terminal))"

section \<open>Events of a run, one at a time\<close>

record appender_state =
  as_started :: bool
  as_pending :: pending_calls
  as_terminal :: bool

definition appender_start :: appender_state where
  "appender_start = \<lparr>as_started = False, as_pending = [], as_terminal = False\<rparr>"

definition validate_run_event_incremental ::
    "string \<Rightarrow> appender_state \<Rightarrow> run_event \<Rightarrow> (event_error, appender_state) result" where
  "validate_run_event_incremental run_id s event =
     (let pending = as_pending s in
      if event_run_id event \<noteq> run_id then Inl Wrong_event_run_id
      else if as_terminal s then Inl After_terminal
      else if is_run_started event then
        (if as_started s then Inl Started_twice else Inr (s\<lparr>as_started := True\<rparr>))
      else if \<not> as_started s then Inl Run_not_started
      else (case event of
          Tool_call_started e \<Rightarrow>
            if map_of pending (ev_tool_call_id e) \<noteq> None then Inl Tool_call_reused
            else Inr (s\<lparr>as_pending := (ev_tool_call_id e, ev_tool_name e) # pending\<rparr>)
        | Tool_call_updated e \<Rightarrow>
            (case map_of pending (ev_tool_call_id e) of
               None \<Rightarrow> Inl Update_without_call
             | Some n \<Rightarrow> if n \<noteq> ev_tool_name e then Inl Update_wrong_name else Inr s)
        | Tool_call_succeeded e \<Rightarrow>
            (case map_of pending (ev_tool_call_id e) of
               None \<Rightarrow> Inl Result_without_call
             | Some n \<Rightarrow>
                 if n \<noteq> ev_tool_name e then Inl Result_wrong_name
                 else Inr (s\<lparr>as_pending := drop_call (ev_tool_call_id e) pending\<rparr>))
        | Tool_call_failed e \<Rightarrow>
            (case map_of pending (ev_tool_call_id e) of
               None \<Rightarrow> Inl Result_without_call
             | Some n \<Rightarrow>
                 if n \<noteq> ev_tool_name e then Inl Result_wrong_name
                 else Inr (s\<lparr>as_pending := drop_call (ev_tool_call_id e) pending\<rparr>))
        | Run_succeeded _ \<Rightarrow>
            if pending \<noteq> [] then Inl Unresolved_tool_calls else Inr (s\<lparr>as_terminal := True\<rparr>)
        | Run_failed _ \<Rightarrow>
            if pending \<noteq> [] then Inl Unresolved_tool_calls else Inr (s\<lparr>as_terminal := True\<rparr>)
        | _ \<Rightarrow> Inr s))"

section \<open>Messages of a run\<close>

definition message_part_step :: "pending_calls \<Rightarrow> message_part \<Rightarrow> (message_error, pending_calls) result" where
  "message_part_step pending part =
     (case part of
        Tool_call_part name i _ \<Rightarrow>
          if map_of pending i \<noteq> None then Inl Message_call_reused else Inr ((i, name) # pending)
      | Tool_return_part name i _ \<Rightarrow>
          (case map_of pending i of
             None \<Rightarrow> Inr pending
           | Some n \<Rightarrow> if n \<noteq> name then Inl Message_return_wrong_name else Inr (drop_call i pending))
      | Retry_prompt_part i _ \<Rightarrow> Inr (drop_call i pending)
      | _ \<Rightarrow> Inr pending)"

definition message_step :: "pending_calls \<Rightarrow> model_message \<Rightarrow> (message_error, pending_calls) result" where
  "message_step pending message =
     (if is_request message \<and> message_instructions message \<noteq> None then Inl Instructions_persisted
      else if is_request message \<and> (\<exists>p \<in> set (message_parts message). is_system_part p)
        then Inl System_prompt_persisted
      else run_steps message_part_step pending (message_parts message))"

definition validate_run_messages :: "model_message list \<Rightarrow> (message_error, unit) result" where
  "validate_run_messages messages =
     res_bind (run_steps message_step [] messages)
       (\<lambda>pending. ensure (pending = []) Message_calls_unresolved)"

definition validate_run_record :: "session_run_record \<Rightarrow> (run_error, string) result" where
  "validate_run_record run =
     res_bind (lift_error Bad_events (validate_run_events (rr_run_id run) (rr_events run) True))
       (\<lambda>_. res_bind (lift_error Bad_messages (validate_run_messages (rr_messages run)))
       (\<lambda>_. Inr (rr_run_id run)))"

section \<open>The two event validators agree\<close>

definition validators_related :: "batch_state \<Rightarrow> appender_state \<Rightarrow> bool" where
  "validators_related b a \<longleftrightarrow>
     bs_index b \<noteq> 0 \<and> as_started a \<and> bs_pending b = as_pending a \<and> bs_terminal b = as_terminal a"

interpretation event_validators: step_simulation "batch_event_step run_id"
    "validate_run_event_incremental run_id" validators_related for run_id
proof unfold_locales
  fix a c i
  assume "validators_related a c"
  then show "succeeds (batch_event_step run_id a i) = succeeds (validate_run_event_incremental run_id c i)"
    by (cases i) (auto simp: validators_related_def batch_event_step_def
        validate_run_event_incremental_def Let_def split: option.splits)
next
  fix a c i a' c'
  assume "validators_related a c" and "batch_event_step run_id a i = Inr a'"
    and "validate_run_event_incremental run_id c i = Inr c'"
  then show "validators_related a' c'"
    by (cases i) (auto simp: validators_related_def batch_event_step_def
        validate_run_event_incremental_def Let_def split: option.splits if_splits)
qed

lemma validators_agree:
  "succeeds (validate_run_events run_id events False) \<longleftrightarrow>
     events \<noteq> [] \<and> succeeds (run_steps (validate_run_event_incremental run_id) appender_start events)"
proof (cases events)
  case Nil
  then show ?thesis by (simp add: validate_run_events_def)
next
  case (Cons e es)
  show ?thesis
  proof (cases "is_run_started e \<and> event_run_id e = run_id")
    case False
    then have "\<not> succeeds (validate_run_event_incremental run_id appender_start e)"
      by (auto simp: validate_run_event_incremental_def appender_start_def)
    moreover have "\<not> succeeds (validate_run_events run_id events False)"
      using False by (auto simp: Cons validate_run_events_def batch_event_step_def succeeds_iff)
    ultimately show ?thesis by (auto simp: Cons succeeds_iff)
  next
    case True
    then obtain x where e: "e = Run_started x" by (cases e) auto
    let ?b = "batch_start\<lparr>bs_index := Suc 0\<rparr>" and ?a = "appender_start\<lparr>as_started := True\<rparr>"
    have b: "batch_event_step run_id batch_start e = Inr ?b"
      using True e by (simp add: batch_event_step_def batch_start_def)
    have a: "validate_run_event_incremental run_id appender_start e = Inr ?a"
      using True e by (simp add: validate_run_event_incremental_def appender_start_def)
    have "validators_related ?b ?a"
      by (simp add: validators_related_def batch_start_def appender_start_def)
    from event_validators.sim_run [OF this, of run_id es] show ?thesis
      using True by (simp add: Cons validate_run_events_def a b) (auto simp: succeeds_iff)
  qed
qed

text \<open>
  C13: a run appended event by event is accepted exactly when loading the session would accept its
  events so far: the incremental validator and the batch validator, written separately and with
  their checks in a different order, accept the same event lists.
\<close>

theorem incremental_validation_is_batch:
  "succeeds (validate_run_events run_id events False) \<longleftrightarrow>
     events \<noteq> [] \<and> succeeds (run_steps (validate_run_event_incremental run_id) appender_start events)"
  by (rule validators_agree)

section \<open>What an accepted run looks like\<close>

datatype tool_mark = Mark_start string | Mark_update string | Mark_result string

fun event_mark :: "run_event \<Rightarrow> (string \<times> tool_mark) option" where
  "event_mark (Tool_call_started e) = Some (ev_tool_call_id e, Mark_start (ev_tool_name e))"
| "event_mark (Tool_call_updated e) = Some (ev_tool_call_id e, Mark_update (ev_tool_name e))"
| "event_mark (Tool_call_succeeded e) = Some (ev_tool_call_id e, Mark_result (ev_tool_name e))"
| "event_mark (Tool_call_failed e) = Some (ev_tool_call_id e, Mark_result (ev_tool_name e))"
| "event_mark _ = None"

fun is_terminal_event :: "run_event \<Rightarrow> bool" where
  "is_terminal_event (Run_succeeded _) = True"
| "is_terminal_event (Run_failed _) = True"
| "is_terminal_event _ = False"

text \<open>The marks of one tool call id, and the open call (if any) after a list of marks.\<close>

definition marks_of :: "string \<Rightarrow> run_event list \<Rightarrow> tool_mark list" where
  "marks_of i events =
     concat (map (\<lambda>e. case event_mark e of Some (j, m) \<Rightarrow> if j = i then [m] else [] | None \<Rightarrow> []) events)"

fun track :: "string option \<Rightarrow> tool_mark list \<Rightarrow> string option option" where
  "track cur [] = Some cur"
| "track cur (Mark_start n # ms) = (if cur = None then track (Some n) ms else None)"
| "track cur (Mark_update n # ms) = (if cur = Some n then track cur ms else None)"
| "track cur (Mark_result n # ms) = (if cur = Some n then track None ms else None)"

definition call_ids :: "run_event list \<Rightarrow> string list" where
  "call_ids events = map fst (List.map_filter event_mark events)"

text \<open>
  A complete run: every event is the run's, the first is \<open>run_started\<close> and no other is, the last
  is a terminal outcome and no other is, and every tool call id is opened, updated and closed in
  turn, under one tool name, with no call left open.
\<close>

definition complete_run :: "string \<Rightarrow> run_event list \<Rightarrow> bool" where
  "complete_run run_id events \<longleftrightarrow>
     events \<noteq> [] \<and> list_all (\<lambda>e. event_run_id e = run_id) events
     \<and> is_run_started (hd events) \<and> list_all (\<lambda>e. \<not> is_run_started e) (tl events)
     \<and> is_terminal_event (last events) \<and> list_all (\<lambda>e. \<not> is_terminal_event e) (butlast events)
     \<and> (\<forall>i \<in> set (call_ids events). track None (marks_of i events) = Some None)"

lemma track_append: "track cur (xs @ ys) = Option.bind (track cur xs) (\<lambda>c. track c ys)"
  by (induction cur xs rule: track.induct) auto

lemma marks_of_simps [simp]:
  "marks_of i [] = []"
  "marks_of i (xs @ ys) = marks_of i xs @ marks_of i ys"
  "marks_of i [e] = (case event_mark e of Some (j, m) \<Rightarrow> if j = i then [m] else [] | None \<Rightarrow> [])"
  by (simp_all add: marks_of_def)

lemma marks_of_other: "i \<notin> set (call_ids events) \<Longrightarrow> marks_of i events = []"
  by (induction events) (auto simp: marks_of_def call_ids_def map_filter_simps split: option.splits)

definition batch_describes :: "batch_state \<Rightarrow> run_event list \<Rightarrow> bool" where
  "batch_describes s es \<longleftrightarrow> bs_index s = length es
     \<and> bs_terminal s = (es \<noteq> [] \<and> is_terminal_event (last es))
     \<and> (\<forall>i. track None (marks_of i es) = Some (map_of (bs_pending s) i))"

lemma describes_start [simp]: "batch_describes batch_start []"
  by (simp add: batch_describes_def batch_start_def)

lemma describes_step:
  assumes "batch_describes s es" and "batch_event_step run_id s e = Inr s'"
  shows "batch_describes s' (es @ [e])"
  using assms
  by (cases e) (auto simp: batch_describes_def batch_event_step_def track_append Let_def
      split: if_splits option.splits)

lemma step_succeeds:
  assumes "batch_describes s es"
  shows "succeeds (batch_event_step run_id s e) \<longleftrightarrow>
     event_run_id e = run_id \<and> \<not> (es \<noteq> [] \<and> is_terminal_event (last es))
     \<and> (is_run_started e \<longrightarrow> es = [])
     \<and> (\<forall>i. track None (marks_of i (es @ [e])) \<noteq> None)
     \<and> (is_terminal_event e \<longrightarrow> (\<forall>i. track None (marks_of i es) = Some None))"
  using assms
  by (cases e) (auto simp: batch_describes_def batch_event_step_def track_append Let_def
      pending_empty_iff split: if_splits option.splits)

lemma run_described:
  "run_steps (batch_event_step run_id) batch_start es = Inr s \<Longrightarrow> batch_describes s es"
proof (induction es arbitrary: s rule: rev_induct)
  case Nil
  then show ?case using describes_start by auto
next
  case (snoc e es)
  then obtain u where "run_steps (batch_event_step run_id) batch_start es = Inr u"
    and "batch_event_step run_id u e = Inr s" by auto
  with snoc.IH show ?case by (blast intro: describes_step)
qed

definition run_so_far :: "string \<Rightarrow> run_event list \<Rightarrow> bool" where
  "run_so_far run_id es \<longleftrightarrow>
     list_all (\<lambda>e. event_run_id e = run_id) es \<and> list_all (\<lambda>e. \<not> is_run_started e) (tl es)
     \<and> list_all (\<lambda>e. \<not> is_terminal_event e) (butlast es)
     \<and> (\<forall>i. track None (marks_of i es) \<noteq> None)
     \<and> (es \<noteq> [] \<and> is_terminal_event (last es) \<longrightarrow> (\<forall>i. track None (marks_of i es) = Some None))"

lemma terminal_has_no_mark: "is_terminal_event e \<Longrightarrow> event_mark e = None"
  by (cases e) auto

lemma run_so_far_snoc:
  "run_so_far run_id (es @ [e]) \<longleftrightarrow>
     run_so_far run_id es \<and> event_run_id e = run_id \<and> \<not> (es \<noteq> [] \<and> is_terminal_event (last es))
     \<and> (is_run_started e \<longrightarrow> es = [])
     \<and> (\<forall>i. track None (marks_of i (es @ [e])) \<noteq> None)
     \<and> (is_terminal_event e \<longrightarrow> (\<forall>i. track None (marks_of i es) = Some None))"
proof -
  have b: "list_all P es \<longleftrightarrow> list_all P (butlast es) \<and> (es \<noteq> [] \<longrightarrow> P (last es))" for P
    by (cases es rule: rev_cases) auto
  have t: "list_all P (tl (es @ [e])) \<longleftrightarrow> list_all P (tl es) \<and> (es \<noteq> [] \<longrightarrow> P e)" for P
    by (cases es) auto
  have m: "(\<forall>i. track None (marks_of i (es @ [e])) \<noteq> None) \<Longrightarrow> (\<forall>i. track None (marks_of i es) \<noteq> None)"
    by (auto simp: track_append bind_eq_None_conv)
  show ?thesis
    unfolding run_so_far_def t butlast_snoc b [of "\<lambda>e. \<not> is_terminal_event e"]
    using m terminal_has_no_mark [of e] by (auto simp del: not_None_eq)
qed

lemma run_succeeds:
  "succeeds (run_steps (batch_event_step run_id) batch_start es) \<longleftrightarrow> run_so_far run_id es"
proof (induction es rule: rev_induct)
  case Nil
  show ?case by (simp add: run_so_far_def)
next
  case (snoc e es)
  show ?case
  proof (cases "run_steps (batch_event_step run_id) batch_start es")
    case (Inl x)
    with snoc have "\<not> run_so_far run_id es" by simp
    with Inl show ?thesis by (simp add: run_so_far_snoc)
  next
    case (Inr u)
    with snoc have "run_so_far run_id es" by simp
    with Inr step_succeeds [OF run_described [OF Inr], of run_id e]
    show ?thesis by (simp add: run_so_far_snoc)
  qed
qed

lemma complete_run_iff:
  "complete_run run_id es \<longleftrightarrow>
     es \<noteq> [] \<and> is_run_started (hd es) \<and> is_terminal_event (last es) \<and> run_so_far run_id es"
proof -
  have "track None (marks_of i es) = Some None" if "i \<notin> set (call_ids es)" for i
    using marks_of_other [OF that] by simp
  then have "(\<forall>i \<in> set (call_ids es). track None (marks_of i es) = Some None)
      \<longleftrightarrow> (\<forall>i. track None (marks_of i es) = Some None)" by blast
  then show ?thesis by (auto simp: complete_run_def run_so_far_def)
qed

lemma accepted_iff_complete:
  "validate_run_events run_id events True = Inr () \<longleftrightarrow> complete_run run_id events"
proof (cases events)
  case Nil
  then show ?thesis by (simp add: validate_run_events_def complete_run_def)
next
  case (Cons e es)
  have "validate_run_events run_id events True = Inr () \<longleftrightarrow>
      is_run_started e \<and> (\<exists>s. run_steps (batch_event_step run_id) batch_start events = Inr s \<and> bs_terminal s)"
    by (auto simp: Cons validate_run_events_def simp del: run_steps.simps)
  also have "\<dots> \<longleftrightarrow> is_run_started e \<and> is_terminal_event (last events)
      \<and> succeeds (run_steps (batch_event_step run_id) batch_start events)"
    using run_described [of run_id events] by (auto simp: batch_describes_def succeeds_iff Cons simp del: run_steps.simps)
  finally show ?thesis
    unfolding run_succeeds complete_run_iff by (simp add: Cons)
qed

text \<open>
  C39: loading accepts exactly the complete runs: the loop of the batch validator, with its dictionary
  of pending calls, is equivalent to the declarative description of a run that speaks of each tool
  call id on its own.
\<close>

theorem accepted_runs_are_complete:
  "validate_run_events run_id events True = Inr () \<longleftrightarrow> complete_run run_id events"
  by (rule accepted_iff_complete)

end
