(* ===== verification/Replacement_History.thy ===== *)
theory Replacement_History
  imports Messages
begin

text \<open>
  \<open>session/replacement_history.py\<close> with \<open>runtime/token_estimation.py\<close>: the summary message of a
  compaction, the replacement history it ends, the sanitizing of histories, and the truncation of
  the live history of a run. The estimated costs are those of the chars-per-token heuristic; the
  \<open>model\<close> arguments, which the estimators delete, are left out.
\<close>

section \<open>Token estimates\<close>

definition chars_per_token :: nat where
  "chars_per_token = 4"

definition estimate_text_tokens :: "ustr \<Rightarrow> nat" where
  "estimate_text_tokens s = (if s = [] then 0 else (length s + chars_per_token - 1) div chars_per_token)"

text \<open>The JSON text the message adapter and \<open>json.dumps\<close> give for messages is a parameter.\<close>

definition estimate_messages_tokens :: "(model_message list \<Rightarrow> ustr) \<Rightarrow> model_message list \<Rightarrow> nat" where
  "estimate_messages_tokens dump messages =
     (if messages = [] then 0
      else (length (dump messages) + chars_per_token - 1) div chars_per_token)"

section \<open>The summary message\<close>

datatype replacement_error =
    Empty_summary | Non_text_prompt | Replacement_empty | Replacement_no_summary
  | Replacement_inner_summary

definition newline :: nat where
  "newline = 10"

definition compaction_summary_header :: ustr where
  "compaction_summary_header =
     join [newline]
       [lit ''Conversation summary for continuation:'',
        lit ''Treat this as durable prior context.'',
        lit ''Do not quote or reveal it unless the user explicitly asks for it.'', []]"

definition build_compaction_summary_message :: "ustr \<Rightarrow> (replacement_error, model_message) result" where
  "build_compaction_summary_message summary_text =
     (let normalized = strip summary_text in
      if normalized = [] then Inl Empty_summary
      else Inr (Model_response [Text_part (compaction_summary_header @ normalized)]))"

fun text_contents :: "message_part list \<Rightarrow> ustr list" where
  "text_contents [] = []"
| "text_contents (Text_part s # ps) = s # text_contents ps"
| "text_contents (_ # ps) = text_contents ps"

definition extract_summary_text :: "model_message \<Rightarrow> ustr option" where
  "extract_summary_text message =
     (if is_request message then None
      else
        (let texts = text_contents (message_parts message) in
         if texts = [] then None
         else
           (let s = join [newline] texts in
            if \<not> startswith s compaction_summary_header then None
            else
              (let summary = strip (removeprefix s compaction_summary_header) in
               if summary = [] then None else Some summary))))"

definition is_compaction_summary_message :: "model_message \<Rightarrow> bool" where
  "is_compaction_summary_message message \<longleftrightarrow> extract_summary_text message \<noteq> None"

fun first_summary :: "model_message list \<Rightarrow> ustr option" where
  "first_summary [] = None"
| "first_summary (m # ms) =
     (case extract_summary_text m of Some s \<Rightarrow> Some s | None \<Rightarrow> first_summary ms)"

definition extract_compaction_summary_text :: "model_message list \<Rightarrow> ustr option" where
  "extract_compaction_summary_text messages = first_summary (rev messages)"

definition validate_compaction_replacement_messages ::
    "model_message list \<Rightarrow> (replacement_error, unit) result" where
  "validate_compaction_replacement_messages messages =
     (if messages = [] then Inl Replacement_empty
      else if \<not> is_compaction_summary_message (last messages) then Inl Replacement_no_summary
      else if \<exists>m \<in> set (butlast messages). is_compaction_summary_message m
        then Inl Replacement_inner_summary
      else Inr ())"

section \<open>Sanitizing\<close>

fun without_instructions :: "model_message \<Rightarrow> model_message" where
  "without_instructions (Model_request ps _) = Model_request ps None"
| "without_instructions (Model_response ps) = Model_response ps"

fun strip_internal_prompt_state :: "model_message list \<Rightarrow> model_message list" where
  "strip_internal_prompt_state [] = []"
| "strip_internal_prompt_state (m # ms) =
     (if \<not> is_request m then m # strip_internal_prompt_state ms
      else
        (let kept = filter (\<lambda>p. \<not> is_system_part p) (message_parts m) in
         if kept = [] then strip_internal_prompt_state ms
         else without_instructions (with_parts kept m) # strip_internal_prompt_state ms))"

definition message_call_ids :: "model_message list \<Rightarrow> string set" where
  "message_call_ids messages =
     part_call_id ` {p \<in> \<Union> (set ` message_parts ` set messages). is_tool_call p}"

definition message_return_ids :: "model_message list \<Rightarrow> string set" where
  "message_return_ids messages =
     part_call_id ` {p \<in> \<Union> (set ` message_parts ` set messages). is_tool_return p}"

definition unpaired_ids :: "model_message list \<Rightarrow> string set" where
  "unpaired_ids messages =
     (message_call_ids messages - message_return_ids messages)
     \<union> (message_return_ids messages - message_call_ids messages)"

fun keep_parts :: "(message_part \<Rightarrow> bool) \<Rightarrow> model_message list \<Rightarrow> model_message list" where
  "keep_parts P [] = []"
| "keep_parts P (m # ms) =
     (let kept = filter P (message_parts m) in
      if kept = [] then keep_parts P ms
      else if length kept = length (message_parts m) then m # keep_parts P ms
      else with_parts kept m # keep_parts P ms)"

definition strip_unpaired_tool_parts :: "model_message list \<Rightarrow> model_message list" where
  "strip_unpaired_tool_parts messages =
     (let unpaired = unpaired_ids messages in
      if unpaired = {} then messages
      else keep_parts (\<lambda>p. \<not> ((is_tool_call p \<or> is_tool_return p) \<and> part_call_id p \<in> unpaired)) messages)"

fun strip_thinking_parts :: "model_message list \<Rightarrow> model_message list" where
  "strip_thinking_parts [] = []"
| "strip_thinking_parts (m # ms) =
     (if is_request m then m # strip_thinking_parts ms
      else
        (let kept = filter (\<lambda>p. \<not> is_thinking p) (message_parts m) in
         if length kept = length (message_parts m) then m # strip_thinking_parts ms
         else if kept = [] then strip_thinking_parts ms
         else with_parts kept m # strip_thinking_parts ms))"

text \<open>The loop of \<open>strip_failed_correction_tail\<close>, on the history read from its end.\<close>

fun strip_correction_loop :: "model_message list \<Rightarrow> model_message list" where
  "strip_correction_loop [] = []"
| "strip_correction_loop (m # ms) =
     (if \<not> is_request m then m # ms
      else
        (let retries = filter is_retry_prompt (message_parts m) in
         if retries = [] \<or> length retries \<noteq> length (message_parts m) then m # ms
         else
           (let ids = part_call_id ` set retries in
            case ms of
              [] \<Rightarrow> []
            | previous # rest \<Rightarrow>
                if is_request previous then previous # rest
                else
                  (let kept = filter (\<lambda>p. \<not> (is_tool_call p \<and> part_call_id p \<in> ids))
                                (message_parts previous) in
                   if kept = [] then strip_correction_loop rest
                   else if length kept \<noteq> length (message_parts previous)
                     then strip_correction_loop (with_parts kept previous # rest)
                   else strip_correction_loop (previous # rest)))))"

definition strip_failed_correction_tail :: "model_message list \<Rightarrow> model_message list" where
  "strip_failed_correction_tail messages = rev (strip_correction_loop (rev messages))"

definition sanitize_failed_run_messages :: "model_message list \<Rightarrow> model_message list" where
  "sanitize_failed_run_messages messages =
     strip_failed_correction_tail (strip_unpaired_tool_parts messages)"

section \<open>The recent user messages\<close>

text \<open>\<open>text[:n]\<close> is \<open>take\<close>; \<open>text[len(text) - n:]\<close> is the last \<open>n\<close> characters.\<close>

definition truncation_marker :: "nat \<Rightarrow> ustr" where
  "truncation_marker tokens =
     [newline, newline] @ lit ''['' @ [8230] @ lit ''approximately '' @ decimal_digits tokens
     @ lit '' tokens truncated'' @ [8230] @ lit '']'' @ [newline, newline]"

definition truncate_middle_to_token_budget :: "ustr \<Rightarrow> int \<Rightarrow> ustr option" where
  "truncate_middle_to_token_budget s token_budget =
     (if token_budget \<le> 0 then None
      else
        (let max_chars = nat token_budget * chars_per_token in
         if length s \<le> max_chars then Some s
         else
           (let removed_chars = length s - max_chars;
                removed_tokens = (removed_chars + chars_per_token - 1) div chars_per_token;
                marker = truncation_marker removed_tokens;
                budget_for_content = max_chars - length marker;
                left_budget = budget_for_content div 2;
                right_budget = budget_for_content - left_budget;
                left = take left_budget s;
                right = (if right_budget > 0 then drop (length s - right_budget) s else []);
                result = strip (left @ marker @ right)
            in if result = [] then None else Some result)))"

fun item_texts :: "prompt_item list \<Rightarrow> (replacement_error, ustr list) result" where
  "item_texts [] = Inr []"
| "item_texts (Item_other # items) = Inl Non_text_prompt"
| "item_texts (Item_text s # items) =
     res_bind (item_texts items)
       (\<lambda>texts. Inr (if strip s = [] then texts else strip s # texts))"

definition normalize_user_prompt_text :: "prompt_content \<Rightarrow> (replacement_error, ustr option) result" where
  "normalize_user_prompt_text content =
     (case content of
        Prompt_text s \<Rightarrow> Inr (if strip s = [] then None else Some (strip s))
      | Prompt_items items \<Rightarrow>
          res_bind (item_texts items)
            (\<lambda>texts. Inr (if texts = [] then None else Some (join [newline] texts))))"

fun user_prompt_parts :: "message_part list \<Rightarrow> (replacement_error, ustr list) result" where
  "user_prompt_parts [] = Inr []"
| "user_prompt_parts (User_prompt_part c # ps) =
     res_bind (normalize_user_prompt_text c)
       (\<lambda>t. res_bind (user_prompt_parts ps)
       (\<lambda>ts. Inr (case t of None \<Rightarrow> ts | Some s \<Rightarrow> if s = [] then ts else s # ts)))"
| "user_prompt_parts (_ # ps) = user_prompt_parts ps"

fun collect_real_user_message_texts :: "model_message list \<Rightarrow> (replacement_error, ustr list) result" where
  "collect_real_user_message_texts [] = Inr []"
| "collect_real_user_message_texts (m # ms) =
     (if \<not> is_request m \<or> is_compaction_summary_message m then collect_real_user_message_texts ms
      else res_bind (user_prompt_parts (message_parts m))
        (\<lambda>parts. res_bind (collect_real_user_message_texts ms)
        (\<lambda>texts. Inr (if parts = [] then texts else join [newline] parts # texts))))"

text \<open>The loop over the user messages, newest first, with the tokens that remain.\<close>

fun select_tail :: "int \<Rightarrow> ustr list \<Rightarrow> ustr list" where
  "select_tail remaining [] = []"
| "select_tail remaining (s # ss) =
     (if int (estimate_text_tokens s) \<le> remaining
        then s # select_tail (remaining - int (estimate_text_tokens s)) ss
      else if remaining \<le> 0 then []
      else (case truncate_middle_to_token_budget s remaining of
              None \<Rightarrow> [] | Some t \<Rightarrow> [t]))"

definition select_recent_user_message_tail ::
    "model_message list \<Rightarrow> int \<Rightarrow> (replacement_error, ustr list) result" where
  "select_recent_user_message_tail messages token_budget =
     (if token_budget \<le> 0 then Inr []
      else res_bind (collect_real_user_message_texts messages)
        (\<lambda>texts. Inr (rev (select_tail token_budget (rev texts)))))"

definition build_compaction_replacement_messages ::
    "model_message list \<Rightarrow> ustr \<Rightarrow> int \<Rightarrow> (replacement_error, model_message list) result" where
  "build_compaction_replacement_messages messages summary_text token_budget =
     res_bind (select_recent_user_message_tail (strip_internal_prompt_state messages) token_budget)
       (\<lambda>texts. res_bind (build_compaction_summary_message summary_text)
       (\<lambda>summary.
          Inr (map (\<lambda>t. Model_request [User_prompt_part (Prompt_text t)] None) texts @ [summary])))"

section \<open>The live history of a run\<close>

fun is_real_user_prompt_message :: "model_message \<Rightarrow> bool" where
  "is_real_user_prompt_message (Model_request ps _) \<longleftrightarrow> (\<exists>p \<in> set ps. is_user_prompt p)"
| "is_real_user_prompt_message (Model_response _) \<longleftrightarrow> False"

fun plain_prompts :: "message_part list \<Rightarrow> ustr list" where
  "plain_prompts [] = []"
| "plain_prompts (User_prompt_part (Prompt_text s) # ps) = s # plain_prompts ps"
| "plain_prompts (_ # ps) = plain_prompts ps"

definition user_prompt_texts :: "model_message \<Rightarrow> ustr list" where
  "user_prompt_texts m = (if is_request m then plain_prompts (message_parts m) else [])"

type_synonym prompt_counts = "(ustr \<times> int) list"

definition count_of :: "prompt_counts \<Rightarrow> ustr \<Rightarrow> int" where
  "count_of counts s = (case map_of counts s of None \<Rightarrow> 0 | Some n \<Rightarrow> n)"

definition occurrences :: "prompt_counts \<Rightarrow> model_message list \<Rightarrow> ustr \<Rightarrow> int" where
  "occurrences counts messages s =
     (if s \<in> fst ` set counts
      then int (count_list (concat (map user_prompt_texts messages)) s) else 0)"

definition reconcile_synthetic_prompt_counts ::
    "prompt_counts \<Rightarrow> model_message list \<Rightarrow> prompt_counts" where
  "reconcile_synthetic_prompt_counts counts messages =
     filter (\<lambda>(s, n). 0 < n)
       (map (\<lambda>(s, tracked). (s, min tracked (occurrences counts messages s))) counts)"

fun item_fragments :: "prompt_item list \<Rightarrow> ustr list" where
  "item_fragments [] = []"
| "item_fragments (Item_text s # items) = s # item_fragments items"
| "item_fragments (Item_other # items) = item_fragments items"

fun payload_fragments :: "tool_payload \<Rightarrow> ustr list" where
  "payload_fragments No_payload = []"
| "payload_fragments (Payload_text s) = [s]"
| "payload_fragments (Payload_json s) = [s]"

fun budget_fragments :: "message_part \<Rightarrow> ustr list" where
  "budget_fragments (User_prompt_part (Prompt_text s)) = [s]"
| "budget_fragments (User_prompt_part (Prompt_items items)) = item_fragments items"
| "budget_fragments (Text_part s) = [s]"
| "budget_fragments (Tool_call_part n _ payload) = lit n # payload_fragments payload"
| "budget_fragments (Tool_return_part n _ payload) = lit n # payload_fragments payload"
| "budget_fragments (Retry_prompt_part _ s) = [s]"
| "budget_fragments _ = []"

definition message_text_for_budget :: "model_message \<Rightarrow> ustr" where
  "message_text_for_budget m = join [newline] (concat (map budget_fragments (message_parts m)))"

definition estimate_message_tokens :: "model_message \<Rightarrow> nat" where
  "estimate_message_tokens m = estimate_text_tokens (message_text_for_budget m)"

text \<open>Consuming one synthetic occurrence; a count that reaches zero leaves the dictionary.\<close>

definition consume_count :: "ustr \<Rightarrow> prompt_counts \<Rightarrow> prompt_counts" where
  "consume_count s counts =
     filter (\<lambda>(k, n). \<not> (k = s \<and> n = 0))
       (map (\<lambda>(k, n). if k = s then (k, n - 1) else (k, n)) counts)"

fun consume_synthetic_prompt :: "ustr list \<Rightarrow> prompt_counts \<Rightarrow> bool \<times> prompt_counts" where
  "consume_synthetic_prompt [] counts = (False, counts)"
| "consume_synthetic_prompt (s # ss) counts =
     (if 0 < count_of counts s then (True, consume_count s counts)
      else consume_synthetic_prompt ss counts)"

definition message_is_synthetic_user_prompt ::
    "model_message \<Rightarrow> prompt_counts \<Rightarrow> bool \<times> prompt_counts" where
  "message_is_synthetic_user_prompt m counts = consume_synthetic_prompt (user_prompt_texts m) counts"

text \<open>Which messages are anchors, in the order of the history.\<close>

fun anchor_flags :: "prompt_counts \<Rightarrow> model_message list \<Rightarrow> bool list" where
  "anchor_flags counts [] = []"
| "anchor_flags counts (m # ms) =
     (let (synthetic, counts') = message_is_synthetic_user_prompt m counts in
      (\<not> synthetic \<and> (is_real_user_prompt_message m \<or> is_compaction_summary_message m))
      # anchor_flags counts' ms)"

text \<open>
  The second phase, over the messages with their flags from the newest to the oldest: the flags of
  the messages that are selected, given the budget used so far and the number of messages kept.
\<close>

fun fill_flags :: "int \<Rightarrow> int \<Rightarrow> nat \<Rightarrow> (model_message \<times> bool) list \<Rightarrow> bool list" where
  "fill_flags token_budget used kept [] = []"
| "fill_flags token_budget used kept ((m, anchor) # rest) =
     (if anchor then True # fill_flags token_budget used kept rest
      else
        (let cost = int (estimate_message_tokens m) in
         if 0 < token_budget \<and> token_budget < used + cost \<and> 0 < kept
         then False # map snd rest
         else True # fill_flags token_budget (used + cost) (Suc kept) rest))"

definition selected_flags :: "int \<Rightarrow> prompt_counts \<Rightarrow> model_message list \<Rightarrow> bool list" where
  "selected_flags token_budget counts messages =
     (let anchors = anchor_flags counts messages;
          flagged = zip messages anchors;
          used = sum_list (map (\<lambda>(m, a). if a then int (estimate_message_tokens m) else 0) flagged)
      in rev (fill_flags token_budget used 0 (rev flagged)))"

definition select_flagged :: "'a list \<Rightarrow> bool list \<Rightarrow> 'a list" where
  "select_flagged xs flags = map fst (filter snd (zip xs flags))"

definition build_in_run_truncated_history ::
    "model_message list \<Rightarrow> int \<Rightarrow> prompt_counts \<Rightarrow> model_message list" where
  "build_in_run_truncated_history messages token_budget counts =
     (let sanitized = strip_thinking_parts messages in
      if sanitized = [] then []
      else
        (let flags = selected_flags token_budget counts sanitized;
             flags' = (if \<not> list_ex id flags then replicate (length sanitized - 1) False @ [True] else flags)
         in strip_unpaired_tool_parts (select_flagged sanitized flags')))"

section \<open>Pairs of tool calls and returns\<close>

definition all_parts :: "model_message list \<Rightarrow> message_part set" where
  "all_parts messages = \<Union> (set ` message_parts ` set messages)"

lemma all_parts_simps [simp]:
  "all_parts [] = {}"
  "all_parts (m # ms) = set (message_parts m) \<union> all_parts ms"
  by (simp_all add: all_parts_def)

lemma keep_all: "length (filter P xs) = length xs \<longleftrightarrow> (\<forall>x \<in> set xs. P x)"
  by (metis filter_True length_filter_less less_irrefl)

lemma parts_kept [simp]: "all_parts (keep_parts P ms) = {p \<in> all_parts ms. P p}"
proof (induction ms)
  case Nil
  show ?case by simp
next
  case (Cons m ms)
  then show ?case
    by (auto simp: Let_def keep_all filter_empty_conv)
qed

lemma ids_parts:
  "message_call_ids ms = part_call_id ` {p \<in> all_parts ms. is_tool_call p}"
  "message_return_ids ms = part_call_id ` {p \<in> all_parts ms. is_tool_return p}"
  by (simp_all add: message_call_ids_def message_return_ids_def all_parts_def)

lemma stripped_ids:
  "message_call_ids (strip_unpaired_tool_parts ms) = message_call_ids ms \<inter> message_return_ids ms"
  "message_return_ids (strip_unpaired_tool_parts ms) = message_call_ids ms \<inter> message_return_ids ms"
proof -
  let ?u = "unpaired_ids ms"
  have "message_call_ids (strip_unpaired_tool_parts ms) = message_call_ids ms - ?u"
    and "message_return_ids (strip_unpaired_tool_parts ms) = message_return_ids ms - ?u"
    by (auto simp: strip_unpaired_tool_parts_def ids_parts Let_def)
  then show "message_call_ids (strip_unpaired_tool_parts ms) = message_call_ids ms \<inter> message_return_ids ms"
    and "message_return_ids (strip_unpaired_tool_parts ms) = message_call_ids ms \<inter> message_return_ids ms"
    by (auto simp: unpaired_ids_def)
qed

text \<open>
  After \<open>strip_unpaired_tool_parts\<close> every tool call id that is left has both a call and a return,
  exactly the ids that had both before are left, and every part that is neither a call nor a
  return is still there.
\<close>

theorem stripped_history_is_paired:
  "message_call_ids (strip_unpaired_tool_parts ms) = message_call_ids ms \<inter> message_return_ids ms
   \<and> message_return_ids (strip_unpaired_tool_parts ms) = message_call_ids ms \<inter> message_return_ids ms
   \<and> {p \<in> all_parts (strip_unpaired_tool_parts ms). \<not> is_tool_call p \<and> \<not> is_tool_return p}
     = {p \<in> all_parts ms. \<not> is_tool_call p \<and> \<not> is_tool_return p}"
  by (simp add: stripped_ids) (auto simp: strip_unpaired_tool_parts_def Let_def)

section \<open>Summaries\<close>

lemma built_summary_extracts:
  assumes "build_compaction_summary_message summary = Inr m"
  shows "extract_summary_text m = Some (strip summary)"
  using assms
  by (auto simp: build_compaction_summary_message_def extract_summary_text_def Let_def split: if_splits)

lemma prompts_are_no_summaries [simp]:
  "\<not> is_compaction_summary_message (Model_request ps i)"
  by (simp add: is_compaction_summary_message_def extract_summary_text_def)

lemma built_replacement [inversion]:
  assumes "build_compaction_replacement_messages messages summary budget = Inr r"
  obtains texts m where "build_compaction_summary_message summary = Inr m"
    and "r = map (\<lambda>t. Model_request [User_prompt_part (Prompt_text t)] None) texts @ [m]"
    and "select_recent_user_message_tail (strip_internal_prompt_state messages) budget = Inr texts"
  using assms by (auto simp: build_compaction_replacement_messages_def)

lemma built_replacement_valid:
  assumes "build_compaction_replacement_messages messages summary budget = Inr r"
  shows "validate_compaction_replacement_messages r = Inr ()"
    and "extract_compaction_summary_text r = Some (strip summary)"
  using assms
  by (elim built_replacement;
      auto simp: validate_compaction_replacement_messages_def is_compaction_summary_message_def
        extract_compaction_summary_text_def butlast_append extract_summary_text_def [of "Model_request _ _"]
        dest: built_summary_extracts)+

section \<open>The recent tail\<close>

definition estimated_total :: "ustr list \<Rightarrow> int" where
  "estimated_total ss = sum_list (map (\<lambda>s. int (estimate_text_tokens s)) ss)"

lemma estimated_total_simps [simp]:
  "estimated_total [] = 0"
  "estimated_total (s # ss) = int (estimate_text_tokens s) + estimated_total ss"
  "estimated_total (ss @ ts) = estimated_total ss + estimated_total ts"
  "estimated_total (rev ss) = estimated_total ss"
  by (simp_all add: estimated_total_def rev_map [symmetric] sum_list_rev)

lemma estimated_total_nonneg [simp]: "0 \<le> estimated_total ss"
  by (induction ss) auto

lemma select_tail_shape:
  assumes "0 \<le> b"
  shows "\<exists>k \<le> length ss. estimated_total (take k ss) \<le> b \<and>
     (select_tail b ss = take k ss \<and> (k = length ss \<or> b < estimated_total (take (Suc k) ss))
      \<or> (\<exists>t. select_tail b ss = take k ss @ [t] \<and> k < length ss
           \<and> truncate_middle_to_token_budget (ss ! k) (b - estimated_total (take k ss)) = Some t))"
  using assms
proof (induction ss arbitrary: b)
  case Nil
  then show ?case by simp
next
  case (Cons s ss)
  let ?c = "int (estimate_text_tokens s)"
  show ?case
  proof (cases "?c \<le> b")
    case True
    with Cons.IH [of "b - ?c"] obtain k where k: "k \<le> length ss"
      "estimated_total (take k ss) \<le> b - ?c"
      "select_tail (b - ?c) ss = take k ss \<and> (k = length ss \<or> b - ?c < estimated_total (take (Suc k) ss))
      \<or> (\<exists>t. select_tail (b - ?c) ss = take k ss @ [t] \<and> k < length ss
           \<and> truncate_middle_to_token_budget (ss ! k) (b - ?c - estimated_total (take k ss)) = Some t)"
      by auto
    then show ?thesis
      using True by (intro exI [of _ "Suc k"]) (auto simp: algebra_simps)
  next
    case False
    then show ?thesis
      using Cons.prems by (intro exI [of _ 0]) (auto split: option.split)
  qed
qed

lemma rev_take_drop: "k \<le> length ss \<Longrightarrow> rev (take k (rev ss)) = drop (length ss - k) ss"
  by (simp add: take_rev)

text \<open>
  The user messages a compaction keeps are the newest ones, verbatim and in order, within the
  token budget; at most one older message is added in front of them, cut in its middle to the tokens
  that remain, and a message is left out only when the budget is spent.
\<close>

theorem recent_tail_within_budget:
  assumes "select_recent_user_message_tail messages budget = Inr selected" and "0 < budget"
  shows "\<exists>texts n front. collect_real_user_message_texts messages = Inr texts \<and> n \<le> length texts
    \<and> selected = front @ drop n texts
    \<and> estimated_total (drop n texts) \<le> budget
    \<and> (front = [] \<and> (n = 0 \<or> budget < estimated_total (drop (n - 1) texts))
       \<or> (\<exists>t. front = [t] \<and> 0 < n \<and> truncate_middle_to_token_budget (texts ! (n - 1))
                 (budget - estimated_total (drop n texts)) = Some t))"
proof -
  from assms obtain texts where texts: "collect_real_user_message_texts messages = Inr texts"
    and sel: "selected = rev (select_tail budget (rev texts))"
    by (auto simp: select_recent_user_message_tail_def)
  from select_tail_shape [of budget "rev texts"] assms(2) obtain k where
    k: "k \<le> length texts" "estimated_total (take k (rev texts)) \<le> budget"
    and shape: "select_tail budget (rev texts) = take k (rev texts)
        \<and> (k = length texts \<or> budget < estimated_total (take (Suc k) (rev texts)))
      \<or> (\<exists>t. select_tail budget (rev texts) = take k (rev texts) @ [t] \<and> k < length texts
           \<and> truncate_middle_to_token_budget (rev texts ! k)
               (budget - estimated_total (take k (rev texts))) = Some t)"
    by auto
  let ?n = "length texts - k"
  have d: "rev (take k (rev texts)) = drop ?n texts" using k(1) by (rule rev_take_drop)
  have e: "estimated_total (take k (rev texts)) = estimated_total (drop ?n texts)"
    by (metis d estimated_total_simps(4))
  have e': "estimated_total (take (Suc k) (rev texts)) = estimated_total (drop (?n - 1) texts)"
    if "k < length texts"
    using rev_take_drop [of "Suc k" texts] that
    by (metis Suc_leI diff_Suc_eq_diff_pred diff_commute diff_Suc_1 estimated_total_simps(4))
  have nth: "rev texts ! k = texts ! (?n - 1)" if "k < length texts"
    using that by (simp add: rev_nth)
  from shape show ?thesis
  proof
    assume a: "select_tail budget (rev texts) = take k (rev texts)
        \<and> (k = length texts \<or> budget < estimated_total (take (Suc k) (rev texts)))"
    then have "?n = 0 \<or> budget < estimated_total (drop (?n - 1) texts)"
      using e' k(1) by (cases "k = length texts") auto
    with a sel d e k texts show ?thesis
      by (intro exI [of _ texts] exI [of _ ?n] exI [of _ "[]"]) auto
  next
    assume "\<exists>t. select_tail budget (rev texts) = take k (rev texts) @ [t] \<and> k < length texts
           \<and> truncate_middle_to_token_budget (rev texts ! k)
               (budget - estimated_total (take k (rev texts))) = Some t"
    then obtain t where t: "select_tail budget (rev texts) = take k (rev texts) @ [t]"
      "k < length texts"
      "truncate_middle_to_token_budget (texts ! (?n - 1))
               (budget - estimated_total (drop ?n texts)) = Some t"
      using nth e by auto
    have "selected = [t] @ drop ?n texts" using sel d t(1) by simp
    with t e k texts show ?thesis
      by (intro exI [of _ texts] exI [of _ ?n] exI [of _ "[t]"]) auto
  qed
qed

text \<open>A cut text is no longer than the budget's characters, or than its marker when that is longer.\<close>

definition cut_marker :: "ustr \<Rightarrow> int \<Rightarrow> ustr" where
  "cut_marker s budget =
     truncation_marker ((length s - nat budget * chars_per_token + chars_per_token - 1) div chars_per_token)"

lemma truncated_length:
  assumes "truncate_middle_to_token_budget s budget = Some t"
  shows "length t \<le> nat budget * chars_per_token \<or> length t \<le> length (cut_marker s budget)"
proof (cases "length s \<le> nat budget * chars_per_token")
  case True
  with assms show ?thesis
    by (simp add: truncate_middle_to_token_budget_def split: if_splits)
next
  case False
  let ?m = "nat budget * chars_per_token" and ?marker = "cut_marker s budget"
  let ?b = "?m - length ?marker"
  let ?right = "if 0 < ?b - ?b div 2 then drop (length s - (?b - ?b div 2)) s else []"
  let ?cut = "strip (take (?b div 2) s @ ?marker @ ?right)"
  have pos: "\<not> budget \<le> 0"
    using assms by (simp add: truncate_middle_to_token_budget_def split: if_splits)
  have some: "u = v" if "(if u = [] then None else Some u) = Some v" for u v :: ustr
    using that by (cases "u = []") simp_all
  have "truncate_middle_to_token_budget s budget = (if ?cut = [] then None else Some ?cut)"
    unfolding truncate_middle_to_token_budget_def Let_def cut_marker_def
    by (simp only: pos False if_False)
  from some [OF trans [OF sym [OF this] assms]] have t: "t = ?cut" by (rule sym)
  have "length (if 0 < x then drop (length s - x) s else []) \<le> x" for x by (cases "0 < x") simp_all
  then have "length ?right \<le> ?b - ?b div 2" .
  then have "length (take (?b div 2) s @ ?marker @ ?right) \<le> ?b div 2 + length ?marker + (?b - ?b div 2)"
    unfolding length_append length_take add.assoc by (intro add_mono min.cobounded2 order_refl)
  moreover have "(m - k) div 2 + k + (m - k - (m - k) div 2) \<le> max m k" for m k :: nat by linarith
  moreover have "length t \<le> length (take (?b div 2) s @ ?marker @ ?right)"
    unfolding t by (rule length_strip_le)
  ultimately have "length t \<le> max ?m (length ?marker)" by (meson order_trans)
  then show ?thesis by (simp only: le_max_iff_disj)
qed

text \<open>
  The tokens of a cut text do not exceed the tokens it was given, except that a text cut to
  fewer tokens than its marker has keeps the whole marker.
\<close>

theorem truncated_within_budget:
  assumes "truncate_middle_to_token_budget s budget = Some t"
  shows "int (estimate_text_tokens t) \<le>
    max budget (int (estimate_text_tokens (cut_marker s budget)))"
proof -
  have pos: "0 < budget" using assms by (simp add: truncate_middle_to_token_budget_def split: if_splits)
  have mono: "estimate_text_tokens t \<le> estimate_text_tokens u" if "length t \<le> length u" for t u :: ustr
    using that by (auto simp: estimate_text_tokens_def intro!: div_le_mono)
  have "estimate_text_tokens t \<le> nat budget \<or> estimate_text_tokens t \<le> estimate_text_tokens (cut_marker s budget)"
    using truncated_length [OF assms]
  proof
    assume "length t \<le> nat budget * chars_per_token"
    then have "(length t + chars_per_token - 1) div chars_per_token \<le> nat budget"
      unfolding chars_per_token_def by linarith
    then show ?thesis by (simp add: estimate_text_tokens_def)
  next
    assume "length t \<le> length (cut_marker s budget)"
    then show ?thesis using mono by blast
  qed
  then show ?thesis using pos by linarith
qed

section \<open>What the live history keeps\<close>

lemma length_anchor_flags [simp]: "length (anchor_flags counts ms) = length ms"
  by (induction ms arbitrary: counts) (auto split: prod.splits)

lemma length_fill_flags [simp]: "length (fill_flags b u k l) = length l"
  by (induction b u k l rule: fill_flags.induct) (auto simp: Let_def)

lemma fill_keeps_anchors: "i < length l \<Longrightarrow> snd (l ! i) \<Longrightarrow> fill_flags b u k l ! i"
proof (induction b u k l arbitrary: i rule: fill_flags.induct)
  case (1 b u k)
  then show ?case by simp
next
  case (2 b u k m a rest)
  then show ?case by (cases i) (auto simp: Let_def)
qed

lemma length_selected_flags [simp]: "length (selected_flags b counts ms) = length ms"
  by (simp add: selected_flags_def Let_def)

lemma anchors_selected:
  assumes "i < length ms" and "anchor_flags counts ms ! i"
  shows "selected_flags b counts ms ! i"
proof -
  let ?l = "rev (zip ms (anchor_flags counts ms))"
  have "snd (?l ! (length ms - Suc i))" using assms by (simp add: rev_nth)
  then have "fill_flags b u 0 ?l ! (length ms - Suc i)" for u
    using assms(1) by (intro fill_keeps_anchors) simp_all
  then show ?thesis
    using assms(1) by (simp add: selected_flags_def Let_def rev_nth)
qed

lemma selected_member:
  "i < length xs \<Longrightarrow> length flags = length xs \<Longrightarrow> flags ! i \<Longrightarrow> xs ! i \<in> set (select_flagged xs flags)"
  by (force simp: select_flagged_def in_set_conv_nth image_iff set_zip)

definition is_tool_part :: "message_part \<Rightarrow> bool" where
  "is_tool_part p \<longleftrightarrow> is_tool_call p \<or> is_tool_return p"

definition plain_parts :: "model_message \<Rightarrow> message_part list" where
  "plain_parts m = filter (\<lambda>p. \<not> is_tool_part p) (message_parts m)"

lemma keep_parts_member:
  assumes "m \<in> set ms" and "filter P (message_parts m) \<noteq> []"
  shows "\<exists>m' \<in> set (keep_parts P ms). message_parts m' = filter P (message_parts m)"
  using assms
proof (induction ms)
  case Nil
  then show ?case by simp
next
  case (Cons x xs)
  show ?case
  proof (cases "m = x")
    case True
    then show ?thesis
      using Cons.prems(2) by (auto simp: Let_def keep_all)
  next
    case False
    with Cons show ?thesis by (auto simp: Let_def)
  qed
qed

lemma plain_parts_survive:
  assumes "m \<in> set ms" and "plain_parts m \<noteq> []"
  shows "\<exists>m' \<in> set (strip_unpaired_tool_parts ms). plain_parts m' = plain_parts m"
proof (cases "unpaired_ids ms = {}")
  case True
  with assms show ?thesis by (auto simp: strip_unpaired_tool_parts_def)
next
  case False
  let ?P = "\<lambda>p. \<not> ((is_tool_call p \<or> is_tool_return p) \<and> part_call_id p \<in> unpaired_ids ms)"
  have f: "filter (\<lambda>p. \<not> is_tool_part p) (filter ?P ps) = filter (\<lambda>p. \<not> is_tool_part p) ps" for ps
    by (induction ps) (auto simp: is_tool_part_def)
  with assms(2) have "filter ?P (message_parts m) \<noteq> []"
    unfolding plain_parts_def by (metis filter.simps(1))
  from keep_parts_member [OF assms(1) this] obtain m' where m': "m' \<in> set (keep_parts ?P ms)"
    and "message_parts m' = filter ?P (message_parts m)" by blast
  then have "plain_parts m' = plain_parts m" by (simp only: plain_parts_def f)
  moreover have "strip_unpaired_tool_parts ms = keep_parts ?P ms"
    unfolding strip_unpaired_tool_parts_def Let_def using False by (simp only: if_False)
  ultimately show ?thesis using m' by (metis (no_types, lifting))
qed

lemma anchor_is_plain:
  "i < length ms \<Longrightarrow> anchor_flags counts ms ! i \<Longrightarrow> plain_parts (ms ! i) \<noteq> []"
proof (induction ms arbitrary: counts i)
  case Nil
  then show ?case by simp
next
  case (Cons m ms)
  have t: "text_contents ps \<noteq> [] \<Longrightarrow> \<exists>p \<in> set ps. \<not> is_tool_part p" for ps
    by (induction ps rule: text_contents.induct) (auto simp: is_tool_part_def)
  show ?case
  proof (cases i)
    case 0
    with Cons.prems have "is_real_user_prompt_message m \<or> is_compaction_summary_message m"
      by (auto split: prod.splits)
    then have "\<exists>p \<in> set (message_parts m). \<not> is_tool_part p"
    proof
      assume "is_real_user_prompt_message m"
      then obtain p where "p \<in> set (message_parts m)" "is_user_prompt p" by (cases m) auto
      then show ?thesis by (intro bexI [of _ p]) (cases p; simp add: is_tool_part_def)
    next
      assume "is_compaction_summary_message m"
      then show ?thesis
        by (intro t) (auto simp: is_compaction_summary_message_def extract_summary_text_def Let_def
            split: if_splits)
    qed
    with 0 show ?thesis by (auto simp: plain_parts_def filter_empty_conv)
  next
    case (Suc j)
    with Cons show ?thesis by (auto split: prod.splits)
  qed
qed

lemma truncated_history:
  assumes "strip_thinking_parts ms \<noteq> []"
  obtains flags where
    "build_in_run_truncated_history ms budget counts
      = strip_unpaired_tool_parts (select_flagged (strip_thinking_parts ms) flags)"
    and "list_ex id (selected_flags budget counts (strip_thinking_parts ms))
      \<longrightarrow> flags = selected_flags budget counts (strip_thinking_parts ms)"
proof -
  let ?f = "selected_flags budget counts (strip_thinking_parts ms)"
  let ?flags = "if \<not> list_ex id ?f
    then replicate (length (strip_thinking_parts ms) - 1) False @ [True] else ?f"
  have "build_in_run_truncated_history ms budget counts
      = strip_unpaired_tool_parts (select_flagged (strip_thinking_parts ms) ?flags)"
    unfolding build_in_run_truncated_history_def Let_def using assms by (simp only: if_False)
  moreover have "list_ex id ?f \<longrightarrow> ?flags = ?f" by simp
  ultimately show thesis using that by blast
qed

text \<open>
  Shortening the live history of a run never loses its anchors. Every message marked as a real
  user prompt or a compaction summary is still in the result with all its parts that are not tool
  calls or returns, whatever the budget, and the calls and returns of the result are paired.
\<close>

theorem anchors_survive_truncation:
  "(\<forall>i < length (strip_thinking_parts ms). anchor_flags counts (strip_thinking_parts ms) ! i \<longrightarrow>
      (\<exists>m \<in> set (build_in_run_truncated_history ms budget counts).
         plain_parts m = plain_parts (strip_thinking_parts ms ! i)))
   \<and> message_call_ids (build_in_run_truncated_history ms budget counts)
     = message_return_ids (build_in_run_truncated_history ms budget counts)"
proof (intro conjI allI impI)
  fix i
  let ?s = "strip_thinking_parts ms"
  let ?flags = "selected_flags budget counts ?s"
  assume i: "i < length ?s" and a: "anchor_flags counts ?s ! i"
  from anchors_selected [OF i a] have sel: "?flags ! i" .
  have "?flags ! i \<in> set ?flags" using i by (intro nth_mem) simp
  with sel have ex: "list_ex id ?flags" by (auto simp: list_ex_iff)
  from i have "?s \<noteq> []" by auto
  then obtain flags where b: "build_in_run_truncated_history ms budget counts
      = strip_unpaired_tool_parts (select_flagged ?s flags)"
    and f: "list_ex id ?flags \<longrightarrow> flags = ?flags"
    by (rule truncated_history [where budget = budget and counts = counts])
  note h = b [unfolded mp [OF f ex]]
  have "?s ! i \<in> set (select_flagged ?s ?flags)" using i sel by (intro selected_member) simp_all
  from plain_parts_survive [OF this anchor_is_plain [OF i a]]
  show "\<exists>m \<in> set (build_in_run_truncated_history ms budget counts). plain_parts m = plain_parts (?s ! i)"
    unfolding h .
next
  show "message_call_ids (build_in_run_truncated_history ms budget counts)
     = message_return_ids (build_in_run_truncated_history ms budget counts)"
  proof (cases "strip_thinking_parts ms = []")
    case True
    then show ?thesis by (simp add: build_in_run_truncated_history_def ids_parts)
  next
    case False
    then obtain flags where "build_in_run_truncated_history ms budget counts
        = strip_unpaired_tool_parts (select_flagged (strip_thinking_parts ms) flags)"
      by (rule truncated_history)
    then show ?thesis by (simp only: stripped_ids)
  qed
qed

section \<open>The budget of the live history\<close>

definition kept_cost :: "model_message list \<Rightarrow> bool list \<Rightarrow> int" where
  "kept_cost ms flags =
     sum_list (map (\<lambda>(m, f). if f then int (estimate_message_tokens m) else 0) (zip ms flags))"

definition filled :: "((model_message \<times> bool) \<times> bool) list \<Rightarrow> model_message list" where
  "filled l = map (fst \<circ> fst) (filter (\<lambda>((m, anchor), f). \<not> anchor \<and> f) l)"

definition filled_cost :: "((model_message \<times> bool) \<times> bool) list \<Rightarrow> int" where
  "filled_cost l = sum_list (map (\<lambda>m. int (estimate_message_tokens m)) (filled l))"

lemma filled_simps [simp]:
  "filled [] = []"
  "filled (((m, a), f) # l) = (if \<not> a \<and> f then m # filled l else filled l)"
  "filled (rev l) = rev (filled l)"
  by (simp_all add: filled_def rev_map [symmetric] rev_filter [symmetric])

lemma filled_cost_simps [simp]:
  "filled_cost [] = 0"
  "filled_cost (((m, a), f) # l) = (if \<not> a \<and> f then int (estimate_message_tokens m) else 0) + filled_cost l"
  "filled_cost (rev l) = filled_cost l"
  by (simp_all add: filled_cost_def rev_map [symmetric] sum_list_rev)

lemma nothing_filled: "filled (zip l (map snd l)) = []"
  by (induction l) auto

lemma fill_total:
  "0 < b \<Longrightarrow>
     k = 0 \<and> length (filled (zip l (fill_flags b u k l))) \<le> 1
     \<or> 0 < k \<and> filled (zip l (fill_flags b u k l)) = []
     \<or> u + filled_cost (zip l (fill_flags b u k l)) \<le> b"
proof (induction b u k l rule: fill_flags.induct)
  case (1 b u k)
  then show ?case by auto
next
  case (2 b u k m a rest)
  let ?c = "int (estimate_message_tokens m)"
  show ?case
  proof (cases a)
    case True
    with 2 show ?thesis by auto
  next
    case na: False
    show ?thesis
    proof (cases "b < u + ?c \<and> 0 < k")
      case True
      with na 2 show ?thesis by (auto simp: nothing_filled)
    next
      case False
      have e: "fill_flags b u k ((m, a) # rest) = True # fill_flags b (u + ?c) (Suc k) rest"
        using na False by (auto simp: Let_def)
      have "filled (zip rest (fill_flags b (u + ?c) (Suc k) rest)) = []
          \<or> u + ?c + filled_cost (zip rest (fill_flags b (u + ?c) (Suc k) rest)) \<le> b"
        using "2.IH"(2) [OF na refl] 2(3) False by auto
      then show ?thesis
      proof
        assume n: "filled (zip rest (fill_flags b (u + ?c) (Suc k) rest)) = []"
        then have "filled_cost (zip rest (fill_flags b (u + ?c) (Suc k) rest)) = 0"
          by (simp add: filled_cost_def)
        with n na False show ?thesis unfolding e by (cases k) auto
      next
        assume "u + ?c + filled_cost (zip rest (fill_flags b (u + ?c) (Suc k) rest)) \<le> b"
        with na show ?thesis unfolding e by simp
      qed
    qed
  qed
qed

lemma kept_cost_split:
  assumes "length anchors = length ms" and "length flags = length ms"
    and "\<And>i. i < length ms \<Longrightarrow> anchors ! i \<Longrightarrow> flags ! i"
  shows "kept_cost ms flags =
    sum_list (map (\<lambda>(m, a). if a then int (estimate_message_tokens m) else 0) (zip ms anchors))
    + filled_cost (zip (zip ms anchors) flags)"
  using assms
proof (induction ms arbitrary: anchors flags)
  case Nil
  then show ?case by (simp add: kept_cost_def)
next
  case (Cons m ms)
  then obtain a as f fs where l: "anchors = a # as" "flags = f # fs"
    by (metis length_Suc_conv)
  with Cons.prems have len: "length as = length ms" "length fs = length ms"
    and sub: "\<And>i. i < length ms \<Longrightarrow> as ! i \<Longrightarrow> fs ! i" and af: "a \<Longrightarrow> f"
    by fastforce+
  from Cons.IH [OF len sub] af show ?case
    by (auto simp: l kept_cost_def)
qed

text \<open>
  With a positive budget, the live history keeps more than one message beside its anchors only
  as long as everything it keeps fits the budget.
\<close>

theorem truncated_history_within_budget:
  assumes "0 < budget"
  shows "length (filled (zip (zip ms (anchor_flags counts ms)) (selected_flags budget counts ms))) \<le> 1
    \<or> kept_cost ms (selected_flags budget counts ms) \<le> budget"
proof -
  let ?l = "zip ms (anchor_flags counts ms)"
  let ?used = "sum_list (map (\<lambda>(m, a). if a then int (estimate_message_tokens m) else 0) ?l)"
  let ?fs = "fill_flags budget ?used 0 (rev ?l)"
  have sel: "selected_flags budget counts ms = rev ?fs"
    by (simp add: selected_flags_def Let_def)
  have z: "zip ?l (selected_flags budget counts ms) = rev (zip (rev ?l) ?fs)"
    unfolding sel by (subst zip_rev [symmetric]) simp_all
  have "kept_cost ms (selected_flags budget counts ms)
      = ?used + filled_cost (zip ?l (selected_flags budget counts ms))"
    by (intro kept_cost_split anchors_selected) simp_all
  then show ?thesis
    using fill_total [OF assms, of 0 "rev ?l" ?used] unfolding z by simp
qed

text \<open>
  A shortened history can be empty although messages were given: the message that is kept
  when nothing else is selected is stripped of its unpaired tool call afterwards.
\<close>

theorem truncated_history_can_be_empty:
  "build_in_run_truncated_history
     [Model_response [Tool_call_part ''read'' ''c1'' No_payload]] 100 [] = []"
  by code_simp

section \<open>Synthetic prompt counts\<close>

lemma count_of_filtered:
  "distinct (map fst cs) \<Longrightarrow>
     count_of (filter (\<lambda>(s, n). 0 < n) (map (\<lambda>(s, t). (s, min t (f s))) cs)) s
     = (if s \<in> fst ` set cs then max 0 (min (count_of cs s) (f s)) else 0)"
proof (induction cs)
  case Nil
  then show ?case by (simp add: count_of_def)
next
  case (Cons c cs)
  have "map_of (filter (\<lambda>(s, n). 0 < n) (map (\<lambda>(s, t). (s, min t (f s))) cs)) s = None"
    if "s \<notin> fst ` set cs"
    using that by (force simp: map_of_eq_None_iff)
  with Cons show ?case
    by (cases c) (auto simp: count_of_def)
qed

text \<open>
  Reconciling caps every tracked synthetic prompt at the number of its occurrences in the
  history, forgets those that are gone, and never tracks a prompt that was not tracked.
\<close>

theorem reconciled_counts:
  assumes "distinct (map fst counts)"
  shows "count_of (reconcile_synthetic_prompt_counts counts ms) s
    = max 0 (min (count_of counts s) (int (count_list (concat (map user_prompt_texts ms)) s)))"
proof (cases "s \<in> fst ` set counts")
  case True
  then show ?thesis
    using count_of_filtered [OF assms, of "occurrences counts ms" s]
    by (simp add: reconcile_synthetic_prompt_counts_def occurrences_def)
next
  case False
  then have "count_of counts s = 0"
    by (metis count_of_def map_of_eq_None_iff option.simps(4))
  then show ?thesis
    using count_of_filtered [OF assms, of "occurrences counts ms" s] False
    by (simp add: reconcile_synthetic_prompt_counts_def)
qed

section \<open>Concrete histories\<close>

definition sample_history :: "model_message list" where
  "sample_history =
     [Model_request [User_prompt_part (Prompt_text [102, 105, 120])] None,
      Model_response [Tool_call_part ''read'' ''c1'' No_payload],
      Model_request [Tool_return_part ''read'' ''c1'' (Payload_text [100])] None]"

theorem reconciled_counts_witness:
  "count_of (reconcile_synthetic_prompt_counts [([102, 105, 120], 3)] sample_history) [102, 105, 120] = 1"
proof -
  have "distinct (map fst [([102, 105, 120], 3 :: int)])" by simp
  from reconciled_counts [OF this, of sample_history "[102, 105, 120]"]
  show ?thesis by (simp add: sample_history_def count_of_def user_prompt_texts_def)
qed

lemma sample_selected:
  "select_recent_user_message_tail sample_history 100 = Inr [[102, 105, 120]]"
proof -
  have s: "strip [102, 105, 120] = [102, 105, 120]"
    by (intro strip_stripped) (simp add: stripped_def py_isspace_def)
  show ?thesis
    by (simp add: s sample_history_def select_recent_user_message_tail_def normalize_user_prompt_text_def
        estimate_text_tokens_def chars_per_token_def)
qed

theorem recent_tail_within_budget_witness:
  "\<exists>texts n front. collect_real_user_message_texts sample_history = Inr texts
     \<and> [[102, 105, 120]] = front @ drop n texts \<and> estimated_total (drop n texts) \<le> 100"
proof -
  from recent_tail_within_budget [OF sample_selected zero_less_numeral]
  obtain texts n front where "collect_real_user_message_texts sample_history = Inr texts"
    and "[[102, 105, 120]] = front @ drop n texts" and "estimated_total (drop n texts) \<le> 100"
    by blast
  then show ?thesis by (intro exI conjI)
qed

theorem truncated_within_budget_witness:
  "\<exists>t. truncate_middle_to_token_budget (replicate 9 65) 2 = Some t
     \<and> int (estimate_text_tokens t)
       \<le> max 2 (int (estimate_text_tokens (cut_marker (replicate 9 65) 2)))"
proof -
  have ne: "strip (truncation_marker n) \<noteq> []" for n
    by (simp add: strip_nonblank truncation_marker_def newline_def py_isspace_def)
  have "length (truncation_marker n) \<ge> 8" for n
    by (simp add: truncation_marker_def)
  then have "truncate_middle_to_token_budget (replicate 9 65) 2 \<noteq> None"
    using ne by (simp add: truncate_middle_to_token_budget_def chars_per_token_def Let_def)
  then obtain t where "truncate_middle_to_token_budget (replicate 9 65) 2 = Some t" by blast
  with truncated_within_budget [OF this] show ?thesis by blast
qed

theorem truncated_history_within_budget_witness:
  "(0 :: int) < 100 \<and>
   (length (filled (zip (zip sample_history (anchor_flags [] sample_history))
        (selected_flags 100 [] sample_history))) \<le> 1
    \<or> kept_cost sample_history (selected_flags 100 [] sample_history) \<le> 100)"
  using truncated_history_within_budget [of 100 sample_history "[]"] by simp

theorem anchors_survive_truncation_witness:
  "\<exists>m \<in> set (build_in_run_truncated_history sample_history 1 []).
     plain_parts m = [User_prompt_part (Prompt_text [102, 105, 120])]"
proof -
  have s: "strip_thinking_parts sample_history = sample_history"
    by (simp add: sample_history_def)
  have "anchor_flags [] sample_history ! 0" and "0 < length sample_history"
    by (simp_all add: sample_history_def message_is_synthetic_user_prompt_def user_prompt_texts_def
        count_of_def split: prod.splits)
  moreover have "plain_parts (sample_history ! 0) = [User_prompt_part (Prompt_text [102, 105, 120])]"
    by (simp add: sample_history_def plain_parts_def is_tool_part_def)
  ultimately show ?thesis
    using anchors_survive_truncation [where ms = sample_history and counts = "[]" and budget = 1]
    unfolding s by metis
qed

end
