(* ===== verification/Session_Log.thy ===== *)
theory Session_Log
  imports Run_Validation Replacement_History Workspace_Paths
begin

text \<open>
  Loading a session: \<open>load_session\<close> of \<open>session/jsonl.py\<close> as a machine that reads one entry at a
  time. The state is the function's local variables; each kind of entry has its own step, and the
  checks of a step are in the order of the source. Decoding a line (\<open>json.loads\<close> and the pydantic
  adapter of \<open>SessionEntry\<close>) is a parameter.
\<close>

section \<open>Errors and state\<close>

datatype suffix_kind = Inventory_suffix | Context_suffix | Grants_suffix

datatype entry_error =
    Header_misplaced | Workspace_root_mismatch | Header_missing
  | Fork_inside_run | Fork_misplaced | Incomplete_run | Duplicate_run_id
  | Info_inside_run | Docs_inside_run | Docs_misplaced
  | Messages_outside_run | Messages_wrong_run
  | Suffix_misplaced suffix_kind | Suffix_wrong_run suffix_kind | Suffix_twice suffix_kind
  | Context_wrong_root
  | Compaction_misplaced | Compaction_unknown_run | Compaction_backward
  | Bad_replacement replacement_error | Bad_run run_error
  | Event_outside_run | Event_wrong_run | Event_run_id_mismatch

datatype line_error = Invalid_json | Unsupported_version | Invalid_session_entry

datatype session_error =
    Empty_file | Bad_line nat line_error | Bad_entry entry_error | Workspace_failed path_error

record load_state =
  ls_line :: nat
  ls_header :: "session_header_entry option"
  ls_fork :: "session_fork_entry option"
  ls_name :: "string option"
  ls_project_docs :: "project_doc_reference list option"
  ls_runs :: "session_run_record list"
  ls_turn_context :: "session_turn_context_entry option"
  ls_mcp_inventory :: "session_mcp_inventory_entry option"
  ls_permission_grants :: "session_permission_grants_entry option"
  ls_context_history :: bool
  ls_compactions :: "session_compaction_entry list"
  ls_current :: "session_run_record option"
  ls_known :: "string set"
  ls_order :: "string list"
  ls_boundary :: int

definition load_start :: load_state where
  "load_start =
     \<lparr>ls_line = 0, ls_header = None, ls_fork = None, ls_name = None, ls_project_docs = None,
      ls_runs = [], ls_turn_context = None, ls_mcp_inventory = None, ls_permission_grants = None,
      ls_context_history = False, ls_compactions = [], ls_current = None, ls_known = {},
      ls_order = [], ls_boundary = - 1\<rparr>"

section \<open>One step per kind of entry\<close>

definition load_header :: "string \<Rightarrow> session_header_entry \<Rightarrow> load_state \<Rightarrow> (entry_error, load_state) result" where
  "load_header root h s =
     (if ls_line s \<noteq> 1 \<or> ls_header s \<noteq> None then Inl Header_misplaced
      else if sh_workspace_root h \<noteq> root then Inl Workspace_root_mismatch
      else Inr (s\<lparr>ls_header := Some h\<rparr>))"

definition load_fork :: "session_fork_entry \<Rightarrow> load_state \<Rightarrow> (entry_error, load_state) result" where
  "load_fork f s =
     (if ls_current s \<noteq> None then Inl Fork_inside_run
      else if ls_fork s \<noteq> None \<or> ls_runs s \<noteq> [] \<or> ls_compactions s \<noteq> [] \<or> ls_name s \<noteq> None
        then Inl Fork_misplaced
      else Inr (s\<lparr>ls_fork := Some f\<rparr>))"

definition load_run :: "session_run_entry \<Rightarrow> load_state \<Rightarrow> (entry_error, load_state) result" where
  "load_run r s =
     (if ls_current s \<noteq> None then Inl Incomplete_run
      else if sr_run_id r \<in> ls_known s then Inl Duplicate_run_id
      else Inr (s\<lparr>ls_current :=
                   Some \<lparr>rr_run_id = sr_run_id r, rr_prompt = sr_prompt r, rr_thinking = sr_thinking r,
                         rr_messages = [], rr_events = [], rr_mcp_inventory = None\<rparr>,
                 ls_known := insert (sr_run_id r) (ls_known s)\<rparr>))"

definition load_info :: "string \<Rightarrow> load_state \<Rightarrow> (entry_error, load_state) result" where
  "load_info name s =
     (if ls_current s \<noteq> None then Inl Info_inside_run else Inr (s\<lparr>ls_name := Some name\<rparr>))"

definition load_project_docs ::
    "project_doc_reference list \<Rightarrow> load_state \<Rightarrow> (entry_error, load_state) result" where
  "load_project_docs docs s =
     (if ls_current s \<noteq> None then Inl Docs_inside_run
      else if ls_project_docs s \<noteq> None \<or> ls_runs s \<noteq> [] \<or> ls_compactions s \<noteq> [] then Inl Docs_misplaced
      else Inr (s\<lparr>ls_project_docs := Some docs\<rparr>))"

definition load_messages :: "session_messages_entry \<Rightarrow> load_state \<Rightarrow> (entry_error, load_state) result" where
  "load_messages m s =
     (case ls_current s of
        None \<Rightarrow> Inl Messages_outside_run
      | Some current \<Rightarrow>
          if sm_run_id m \<noteq> rr_run_id current then Inl Messages_wrong_run
          else
            (let run = current\<lparr>rr_messages := rr_messages current @ sm_messages m\<rparr> in
             res_bind (lift_error Bad_run (validate_run_record run))
               (\<lambda>_. Inr (s\<lparr>ls_runs := ls_runs s @ [run], ls_order := ls_order s @ [rr_run_id run],
                          ls_current := None\<rparr>))))"

text \<open>The three checks that the entries written after a run share.\<close>

definition check_suffix :: "suffix_kind \<Rightarrow> string \<Rightarrow> load_state \<Rightarrow> (entry_error, unit) result" where
  "check_suffix kind run_id s =
     (if ls_current s \<noteq> None then Inl (Suffix_misplaced kind)
      else if ls_runs s = [] then Inl (Suffix_misplaced kind)
      else if run_id \<noteq> rr_run_id (last (ls_runs s)) then Inl (Suffix_wrong_run kind)
      else Inr ())"

definition load_mcp_inventory ::
    "session_mcp_inventory_entry \<Rightarrow> load_state \<Rightarrow> (entry_error, load_state) result" where
  "load_mcp_inventory e s =
     res_bind (check_suffix Inventory_suffix (smi_run_id e) s)
       (\<lambda>_. if \<exists>l. ls_mcp_inventory s = Some l \<and> smi_run_id l = smi_run_id e
             then Inl (Suffix_twice Inventory_suffix)
             else Inr (s\<lparr>ls_runs := butlast (ls_runs s)
                                      @ [(last (ls_runs s))\<lparr>rr_mcp_inventory := Some e\<rparr>],
                         ls_mcp_inventory := Some e\<rparr>))"

definition load_turn_context ::
    "session_turn_context_entry \<Rightarrow> load_state \<Rightarrow> (entry_error, load_state) result" where
  "load_turn_context e s =
     res_bind (check_suffix Context_suffix (stc_run_id e) s)
       (\<lambda>_. if Some (stc_workspace_root e) \<noteq> map_option sh_workspace_root (ls_header s)
             then Inl Context_wrong_root
             else if ls_context_history s
                  \<and> (\<exists>l. ls_turn_context s = Some l \<and> stc_run_id l = stc_run_id e)
             then Inl (Suffix_twice Context_suffix)
             else Inr (s\<lparr>ls_context_history := True, ls_turn_context := Some e\<rparr>))"

definition load_permission_grants ::
    "session_permission_grants_entry \<Rightarrow> load_state \<Rightarrow> (entry_error, load_state) result" where
  "load_permission_grants e s =
     res_bind (check_suffix Grants_suffix (spg_run_id e) s)
       (\<lambda>_. if \<exists>l. ls_permission_grants s = Some l \<and> spg_run_id l = spg_run_id e
             then Inl (Suffix_twice Grants_suffix)
             else Inr (s\<lparr>ls_permission_grants := Some e\<rparr>))"

definition run_position :: "string list \<Rightarrow> string \<Rightarrow> nat option" where
  "run_position order run_id = index_where (\<lambda>r. r = run_id) order"

definition load_compaction :: "session_compaction_entry \<Rightarrow> load_state \<Rightarrow> (entry_error, load_state) result" where
  "load_compaction e s =
     (if ls_current s \<noteq> None then Inl Compaction_misplaced
      else if ls_runs s = [] then Inl Compaction_misplaced
      else
        (case run_position (ls_order s) (sc_compacted_through_run_id e) of
           None \<Rightarrow> Inl Compaction_unknown_run
         | Some i \<Rightarrow>
             res_bind (lift_error Bad_replacement
                         (validate_compaction_replacement_messages (sc_replacement_messages e)))
               (\<lambda>_. res_bind (lift_error (\<lambda>m. Bad_run (Bad_messages m))
                                (validate_run_messages (sc_replacement_messages e)))
               (\<lambda>_. if int i < ls_boundary s then Inl Compaction_backward
                    else Inr (s\<lparr>ls_boundary := int i, ls_compactions := ls_compactions s @ [e],
                                ls_turn_context := None\<rparr>)))))"

definition load_event :: "session_event_entry \<Rightarrow> load_state \<Rightarrow> (entry_error, load_state) result" where
  "load_event e s =
     (case ls_current s of
        None \<Rightarrow> Inl Event_outside_run
      | Some current \<Rightarrow>
          if se_run_id e \<noteq> rr_run_id current then Inl Event_wrong_run
          else if event_run_id (se_event e) \<noteq> se_run_id e then Inl Event_run_id_mismatch
          else
            (let run = current\<lparr>rr_events := rr_events current @ [se_event e]\<rparr> in
             res_bind (lift_error (\<lambda>v. Bad_run (Bad_events v))
                         (validate_run_events (rr_run_id run) (rr_events run) False))
               (\<lambda>_. Inr (s\<lparr>ls_current := Some run\<rparr>))))"

section \<open>The loop\<close>

definition load_body :: "session_entry \<Rightarrow> load_state \<Rightarrow> (entry_error, load_state) result" where
  "load_body entry s =
     (case entry of
        Header_entry h \<Rightarrow> Inl Header_misplaced
      | Fork_entry f \<Rightarrow> load_fork f s
      | Run_entry r \<Rightarrow> load_run r s
      | Info_entry name \<Rightarrow> load_info name s
      | Project_docs_entry docs \<Rightarrow> load_project_docs docs s
      | Messages_entry m \<Rightarrow> load_messages m s
      | Mcp_inventory_entry e \<Rightarrow> load_mcp_inventory e s
      | Turn_context_entry e \<Rightarrow> load_turn_context e s
      | Permission_grants_entry e \<Rightarrow> load_permission_grants e s
      | Compaction_entry e \<Rightarrow> load_compaction e s
      | Event_entry e \<Rightarrow> load_event e s)"

definition load_step :: "string \<Rightarrow> load_state \<Rightarrow> session_entry \<Rightarrow> (entry_error, load_state) result" where
  "load_step root s entry =
     (let s' = s\<lparr>ls_line := Suc (ls_line s)\<rparr> in
      case entry of
        Header_entry h \<Rightarrow> load_header root h s'
      | _ \<Rightarrow> if ls_header s' = None then Inl Header_missing else load_body entry s')"

definition loaded_of :: "load_state \<Rightarrow> session_header_entry \<Rightarrow> loaded_session" where
  "loaded_of s h =
     \<lparr>lo_header = h, lo_fork = ls_fork s, lo_name = ls_name s, lo_project_docs = ls_project_docs s,
      lo_runs = ls_runs s, lo_latest_turn_context = ls_turn_context s,
      lo_latest_mcp_inventory = ls_mcp_inventory s,
      lo_latest_permission_grants = ls_permission_grants s,
      lo_has_turn_context_history = ls_context_history s, lo_compactions = ls_compactions s\<rparr>"

definition load_finish :: "load_state \<Rightarrow> (entry_error, loaded_session) result" where
  "load_finish s =
     (case ls_header s of
        None \<Rightarrow> Inl Header_missing
      | Some h \<Rightarrow> if ls_current s \<noteq> None then Inl Incomplete_run else Inr (loaded_of s h))"

definition load_entries :: "string \<Rightarrow> session_entry list \<Rightarrow> (entry_error, loaded_session) result" where
  "load_entries root entries = res_bind (run_steps (load_step root) load_start entries) load_finish"

definition load_line ::
    "(ustr \<Rightarrow> (line_error, session_entry) result) \<Rightarrow> string \<Rightarrow> load_state \<Rightarrow> ustr
     \<Rightarrow> (session_error, load_state) result" where
  "load_line decode root s line =
     res_bind (lift_error (Bad_line (Suc (ls_line s))) (decode line))
       (\<lambda>entry. lift_error Bad_entry (load_step root s entry))"

definition load_session ::
    "(ustr \<Rightarrow> (line_error, session_entry) result) \<Rightarrow> file_system \<Rightarrow> string \<Rightarrow> ustr
     \<Rightarrow> (session_error, loaded_session) result" where
  "load_session decode fs workspace_root contents =
     (let lines = splitlines contents in
      if lines = [] then Inl Empty_file
      else res_bind (lift_error Workspace_failed (normalize_workspace_root fs workspace_root))
        (\<lambda>root. res_bind (run_steps (load_line decode (path_str root)) load_start lines)
        (\<lambda>s. lift_error Bad_entry (load_finish s))))"

section \<open>The invariant of the loop\<close>

definition compaction_position :: "string list \<Rightarrow> session_compaction_entry \<Rightarrow> int" where
  "compaction_position order c =
     (case run_position order (sc_compacted_through_run_id c) of None \<Rightarrow> - 1 | Some i \<Rightarrow> int i)"

definition runs_ok :: "session_run_record list \<Rightarrow> bool" where
  "runs_ok runs \<longleftrightarrow> distinct (map rr_run_id runs)
     \<and> (\<forall>r \<in> set runs. validate_run_record r = Inr (rr_run_id r)
          \<and> (\<forall>e. rr_mcp_inventory r = Some e \<longrightarrow> smi_run_id e = rr_run_id r))"

definition compactions_ok :: "string list \<Rightarrow> session_compaction_entry list \<Rightarrow> bool" where
  "compactions_ok order cs \<longleftrightarrow>
     (\<forall>c \<in> set cs. sc_compacted_through_run_id c \<in> set order
        \<and> validate_compaction_replacement_messages (sc_replacement_messages c) = Inr ()
        \<and> validate_run_messages (sc_replacement_messages c) = Inr ())
     \<and> sorted (map (compaction_position order) cs)"

definition boundary_of :: "string list \<Rightarrow> session_compaction_entry list \<Rightarrow> int" where
  "boundary_of order cs = (if cs = [] then - 1 else compaction_position order (last cs))"

definition log_ok :: "string \<Rightarrow> load_state \<Rightarrow> bool" where
  "log_ok root s \<longleftrightarrow>
     (\<forall>h. ls_header s = Some h \<longrightarrow> sh_workspace_root h = root)
     \<and> ls_order s = map rr_run_id (ls_runs s)
     \<and> ls_known s = set (ls_order s) \<union> rr_run_id ` set_option (ls_current s)
     \<and> runs_ok (ls_runs s)
     \<and> (\<forall>r. ls_current s = Some r \<longrightarrow>
          rr_run_id r \<notin> set (ls_order s) \<and> rr_messages r = [] \<and> rr_mcp_inventory r = None)
     \<and> compactions_ok (ls_order s) (ls_compactions s)
     \<and> (\<forall>c \<in> set (ls_compactions s). compaction_position (ls_order s) c \<le> ls_boundary s)
     \<and> ls_boundary s = boundary_of (ls_order s) (ls_compactions s)
     \<and> (\<forall>c. ls_turn_context s = Some c \<longrightarrow>
          stc_run_id c \<in> set (ls_order s) \<and> stc_workspace_root c = root)
     \<and> (\<forall>e. ls_mcp_inventory s = Some e \<longrightarrow> smi_run_id e \<in> set (ls_order s))
     \<and> (\<forall>g. ls_permission_grants s = Some g \<longrightarrow> spg_run_id g \<in> set (ls_order s))"

lemma log_ok_start [simp]: "log_ok root load_start"
  by (simp add: log_ok_def load_start_def runs_ok_def compactions_ok_def boundary_of_def)

lemma validate_record_inventory [simp]:
  "validate_run_record (r\<lparr>rr_mcp_inventory := x\<rparr>) = validate_run_record r"
  by (simp add: validate_run_record_def)

lemma validated_record_id: "validate_run_record r = Inr i \<Longrightarrow> i = rr_run_id r"
  by (auto simp: validate_run_record_def)

lemma position_of_member: "i \<in> set order \<longleftrightarrow> (\<exists>n. run_position order i = Some n)"
  using index_where_None [of "\<lambda>r. r = i" order] by (auto simp: run_position_def)

lemma position_append:
  "i \<in> set order \<Longrightarrow> run_position (order @ later) i = run_position order i"
  using position_of_member [of i order]
  by (auto simp: run_position_def intro: index_where_append_Some)

lemma compactions_ok_append:
  assumes "compactions_ok order cs"
  shows "compactions_ok (order @ later) cs"
    and "\<forall>c \<in> set cs. compaction_position (order @ later) c = compaction_position order c"
    and "boundary_of (order @ later) cs = boundary_of order cs"
proof -
  show pos: "\<forall>c \<in> set cs. compaction_position (order @ later) c = compaction_position order c"
    using assms by (auto simp: compactions_ok_def compaction_position_def position_append)
  then have m: "map (compaction_position (order @ later)) cs = map (compaction_position order) cs" by simp
  from assms show "compactions_ok (order @ later) cs"
    unfolding compactions_ok_def m by auto
  show "boundary_of (order @ later) cs = boundary_of order cs"
    using pos by (simp add: boundary_of_def)
qed

lemma log_ok_line [simp]: "log_ok root (s\<lparr>ls_line := n\<rparr>) = log_ok root s"
  by (simp add: log_ok_def)

lemma suffix_checked [inversion]:
  "check_suffix kind i s = Inr u \<longleftrightarrow>
     ls_current s = None \<and> ls_runs s \<noteq> [] \<and> i = rr_run_id (last (ls_runs s))"
  by (auto simp: check_suffix_def)

lemma messages_keep_log:
  assumes "log_ok root s" and "load_messages m s = Inr s'"
  shows "log_ok root s'"
proof -
  from assms(2) obtain r i where r: "ls_current s = Some r"
    and i: "validate_run_record (r\<lparr>rr_messages := rr_messages r @ sm_messages m\<rparr>) = Inr i"
    and s': "s' = s\<lparr>ls_runs := ls_runs s @ [r\<lparr>rr_messages := rr_messages r @ sm_messages m\<rparr>],
                  ls_order := ls_order s @ [rr_run_id r], ls_current := None\<rparr>"
    by (auto simp: load_messages_def Let_def split: option.splits if_splits)
  from validated_record_id [OF i] i
  have v: "validate_run_record (r\<lparr>rr_messages := rr_messages r @ sm_messages m\<rparr>) = Inr (rr_run_id r)"
    by simp
  show ?thesis
    using assms(1) r v compactions_ok_append [of "ls_order s" "ls_compactions s" "[rr_run_id r]"]
    unfolding s' log_ok_def by (auto simp: runs_ok_def)
qed

lemma inventory_keeps_log:
  assumes "log_ok root s" and "load_mcp_inventory e s = Inr s'"
  shows "log_ok root s'"
proof -
  from assms(2) obtain rs r where runs: "ls_runs s = rs @ [r]" and e: "smi_run_id e = rr_run_id r"
    and c: "ls_current s = None"
    and s': "s' = s\<lparr>ls_runs := rs @ [r\<lparr>rr_mcp_inventory := Some e\<rparr>], ls_mcp_inventory := Some e\<rparr>"
    by (cases "ls_runs s" rule: rev_cases) (auto simp: load_mcp_inventory_def suffix_checked split: if_splits)
  from assms(1) show ?thesis
    unfolding s' log_ok_def runs e by (auto simp: runs e c runs_ok_def)
qed

lemma suffixes_keep_log:
  assumes "log_ok root s"
  shows "load_turn_context e s = Inr s' \<Longrightarrow> log_ok root s'"
    and "load_permission_grants g s = Inr s' \<Longrightarrow> log_ok root s'"
proof -
  have last: "ls_runs s \<noteq> [] \<Longrightarrow> rr_run_id (last (ls_runs s)) \<in> set (ls_order s)"
    using assms by (simp add: log_ok_def)
  show "load_turn_context e s = Inr s' \<Longrightarrow> log_ok root s'"
    using assms last
    by (cases "ls_header s") (auto simp: load_turn_context_def suffix_checked log_ok_def split: if_splits)
  show "load_permission_grants g s = Inr s' \<Longrightarrow> log_ok root s'"
    using assms last
    by (auto simp: load_permission_grants_def suffix_checked log_ok_def split: if_splits)
qed

lemma compaction_keeps_log:
  assumes "log_ok root s" and "load_compaction e s = Inr s'"
  shows "log_ok root s'"
proof -
  from assms(2) obtain i where i: "run_position (ls_order s) (sc_compacted_through_run_id e) = Some i"
    and v: "validate_compaction_replacement_messages (sc_replacement_messages e) = Inr ()"
      "validate_run_messages (sc_replacement_messages e) = Inr ()"
    and b: "ls_boundary s \<le> int i"
    and s': "s' = s\<lparr>ls_boundary := int i, ls_compactions := ls_compactions s @ [e], ls_turn_context := None\<rparr>"
    by (auto simp: load_compaction_def split: option.splits if_splits)
  have p: "compaction_position (ls_order s) e = int i" using i by (simp add: compaction_position_def)
  have m: "sc_compacted_through_run_id e \<in> set (ls_order s)" using i position_of_member by blast
  from assms(1) have "\<forall>c \<in> set (ls_compactions s). compaction_position (ls_order s) c \<le> int i"
    using b by (fastforce simp: log_ok_def)
  with assms(1) p m v show ?thesis
    unfolding s' log_ok_def by (auto simp: compactions_ok_def sorted_append boundary_of_def)
qed

lemma log_ok_parts:
  assumes "log_ok root s" and "ls_order s' = ls_order s" and "ls_runs s' = ls_runs s" and "ls_compactions s' = ls_compactions s"
    and "ls_boundary s' = ls_boundary s" and "ls_turn_context s' = ls_turn_context s"
    and "ls_mcp_inventory s' = ls_mcp_inventory s" and "ls_permission_grants s' = ls_permission_grants s"
    and "\<forall>h. ls_header s' = Some h \<longrightarrow> sh_workspace_root h = root"
    and "ls_known s' = set (ls_order s) \<union> rr_run_id ` set_option (ls_current s')"
    and "\<forall>r. ls_current s' = Some r \<longrightarrow> rr_run_id r \<notin> set (ls_order s) \<and> rr_messages r = [] \<and> rr_mcp_inventory r = None"
  shows "log_ok root s'"
  using assms(1) unfolding log_ok_def assms(2-8) by (intro conjI assms(9-11)) blast+

lemma others_keep_log:
  assumes "log_ok root s"
  shows "load_fork f s = Inr s' \<Longrightarrow> log_ok root s'"
    and "load_run r s = Inr s' \<Longrightarrow> log_ok root s'"
    and "load_info n s = Inr s' \<Longrightarrow> log_ok root s'"
    and "load_project_docs d s = Inr s' \<Longrightarrow> log_ok root s'"
    and "load_event e s = Inr s' \<Longrightarrow> log_ok root s'"
    and "load_header root h s = Inr s' \<Longrightarrow> log_ok root s'"
proof -
  have known: "ls_known s = set (ls_order s) \<union> rr_run_id ` set_option (ls_current s)"
    and header: "\<forall>h. ls_header s = Some h \<longrightarrow> sh_workspace_root h = root"
    and open_run: "\<forall>r. ls_current s = Some r \<longrightarrow> rr_run_id r \<notin> set (ls_order s) \<and> rr_messages r = [] \<and> rr_mcp_inventory r = None"
    using assms unfolding log_ok_def by blast+
  note kept = log_ok_parts [OF assms]
  show "load_fork f s = Inr s' \<Longrightarrow> log_ok root s'"
    by (rule kept) (use known header open_run in \<open>auto simp: load_fork_def split: if_splits\<close>)
  show "load_run r s = Inr s' \<Longrightarrow> log_ok root s'"
    by (rule kept) (use known header open_run in \<open>auto simp: load_run_def split: if_splits\<close>)
  show "load_info n s = Inr s' \<Longrightarrow> log_ok root s'"
    by (rule kept) (use known header open_run in \<open>auto simp: load_info_def split: if_splits\<close>)
  show "load_project_docs d s = Inr s' \<Longrightarrow> log_ok root s'"
    by (rule kept) (use known header open_run in \<open>auto simp: load_project_docs_def split: if_splits\<close>)
  show "load_event e s = Inr s' \<Longrightarrow> log_ok root s'"
    by (rule kept) (use known header open_run in \<open>auto simp: load_event_def Let_def split: if_splits option.splits\<close>)
  show "load_header root h s = Inr s' \<Longrightarrow> log_ok root s'"
    by (rule kept) (use known header open_run in \<open>auto simp: load_header_def split: if_splits\<close>)
qed

interpretation loader: invariant_machine "load_step root" "log_ok root" for root
proof unfold_locales
  fix s i s'
  assume "log_ok root s" and step: "load_step root s i = Inr s'"
  then have "log_ok root (s\<lparr>ls_line := Suc (ls_line s)\<rparr>)" by simp
  note keeps = others_keep_log [OF this] messages_keep_log [OF this] inventory_keeps_log [OF this]
    suffixes_keep_log [OF this] compaction_keeps_log [OF this]
  from step show "log_ok root s'"
    by (cases i) (auto simp: load_step_def load_body_def Let_def split: if_splits intro: keeps)
qed

section \<open>What a loaded session is\<close>

text \<open>
  The specification of a loaded session: the log belongs to the workspace, run ids are distinct,
  every run is complete and its messages are valid, every compaction replaces the history through
  an existing run with a valid replacement, the boundaries never move backward, and what is
  remembered of the latest run belongs to a run of the session.
\<close>

definition session_consistent :: "string \<Rightarrow> loaded_session \<Rightarrow> bool" where
  "session_consistent root l \<longleftrightarrow>
     (let order = map rr_run_id (lo_runs l) in
      sh_workspace_root (lo_header l) = root
      \<and> distinct order
      \<and> (\<forall>r \<in> set (lo_runs l). complete_run (rr_run_id r) (rr_events r)
           \<and> validate_run_messages (rr_messages r) = Inr ())
      \<and> (\<forall>c \<in> set (lo_compactions l). sc_compacted_through_run_id c \<in> set order
           \<and> validate_compaction_replacement_messages (sc_replacement_messages c) = Inr ()
           \<and> validate_run_messages (sc_replacement_messages c) = Inr ())
      \<and> sorted (map (compaction_position order) (lo_compactions l))
      \<and> (\<forall>c. lo_latest_turn_context l = Some c \<longrightarrow>
           stc_run_id c \<in> set order \<and> stc_workspace_root c = root)
      \<and> (\<forall>e. lo_latest_mcp_inventory l = Some e \<longrightarrow> smi_run_id e \<in> set order)
      \<and> (\<forall>g. lo_latest_permission_grants l = Some g \<longrightarrow> spg_run_id g \<in> set order))"

lemma loaded_entries [inversion]:
  "load_entries root es = Inr l \<longleftrightarrow>
     (\<exists>s h. run_steps (load_step root) load_start es = Inr s \<and> ls_header s = Some h
        \<and> ls_current s = None \<and> l = loaded_of s h)"
  by (auto simp: load_entries_def load_finish_def split: option.splits)

lemma loaded_of_fields [simp]:
  "lo_header (loaded_of s h) = h" "lo_fork (loaded_of s h) = ls_fork s"
  "lo_name (loaded_of s h) = ls_name s" "lo_project_docs (loaded_of s h) = ls_project_docs s"
  "lo_runs (loaded_of s h) = ls_runs s" "lo_latest_turn_context (loaded_of s h) = ls_turn_context s"
  "lo_latest_mcp_inventory (loaded_of s h) = ls_mcp_inventory s"
  "lo_latest_permission_grants (loaded_of s h) = ls_permission_grants s"
  "lo_has_turn_context_history (loaded_of s h) = ls_context_history s"
  "lo_compactions (loaded_of s h) = ls_compactions s"
  by (simp_all add: loaded_of_def)

lemma validated_record:
  "validate_run_record r = Inr i \<longleftrightarrow>
     i = rr_run_id r \<and> complete_run (rr_run_id r) (rr_events r)
     \<and> validate_run_messages (rr_messages r) = Inr ()"
  using accepted_iff_complete [of "rr_run_id r" "rr_events r"]
  by (auto simp: validate_run_record_def)

lemma loaded_consistent:
  assumes "load_entries root es = Inr l"
  shows "session_consistent root l"
proof -
  from assms obtain s h where run: "run_steps (load_step root) load_start es = Inr s"
    and h: "ls_header s = Some h" and l: "l = loaded_of s h" by (auto simp: loaded_entries)
  from loader.run_keeps [OF log_ok_start run] have "log_ok root s" .
  then show ?thesis
    using h by (auto simp: l log_ok_def session_consistent_def runs_ok_def compactions_ok_def
        validated_record Let_def)
qed

text \<open>
  C2: every session that loads is consistent: whatever entries a log holds, \<open>load_session\<close> either
  reports an error or returns a session with the specified invariant, and so every reader of a
  loaded session can rely on it.
\<close>

theorem loaded_sessions_are_consistent:
  assumes "load_entries root es = Inr l"
  shows "session_consistent root l"
  using assms by (rule loaded_consistent)

definition sample_header :: session_header_entry where
  "sample_header = \<lparr>sh_version = session_format_version, sh_workspace_root = ''/w'', sh_shell_family = Posix\<rparr>"

definition sample_run_events :: "run_event list" where
  "sample_run_events =
     [Run_started \<lparr>ev_run_id = ''r1''\<rparr>,
      Run_failed \<lparr>ev_run_id = ''r1'', ev_failure_type = [69], ev_failure_message = [69]\<rparr>]"

definition sample_log :: "session_entry list" where
  "sample_log =
     [Header_entry sample_header,
      Run_entry \<lparr>sr_run_id = ''r1'', sr_prompt = [65], sr_thinking = None\<rparr>]
     @ map (\<lambda>e. Event_entry \<lparr>se_run_id = ''r1'', se_event = e\<rparr>) sample_run_events
     @ [Messages_entry \<lparr>sm_run_id = ''r1'', sm_messages = []\<rparr>]"

definition sample_run_record :: session_run_record where
  "sample_run_record =
     \<lparr>rr_run_id = ''r1'', rr_prompt = [65], rr_thinking = None, rr_messages = [],
      rr_events = sample_run_events, rr_mcp_inventory = None\<rparr>"

lemma sample_loads:
  "\<exists>l. load_entries ''/w'' sample_log = Inr l \<and> lo_runs l = [sample_run_record]"
  by (simp add: sample_log_def sample_run_events_def sample_header_def sample_run_record_def
      load_entries_def load_step_def load_body_def load_start_def load_header_def load_run_def
      load_event_def load_messages_def load_finish_def validate_run_record_def validate_run_events_def
      batch_event_step_def batch_start_def validate_run_messages_def Let_def ensure_def)

theorem loaded_sessions_are_consistent_witness:
  "\<exists>l. load_entries ''/w'' sample_log = Inr l \<and> session_consistent ''/w'' l
     \<and> lo_runs l = [sample_run_record]"
  using sample_loads loaded_sessions_are_consistent by blast

section \<open>Lines and entries\<close>

lemma load_lines:
  assumes "\<forall>e \<in> set es. decode (encode e) = Inr e"
  shows "run_steps (load_line decode root) s (map encode es)
    = lift_error Bad_entry (run_steps (load_step root) s es)"
  using assms
proof (induction es arbitrary: s)
  case Nil
  then show ?case by simp
next
  case (Cons e es)
  then show ?case
    by (cases "load_step root s e") (simp_all add: load_line_def)
qed

definition session_text :: "(session_entry \<Rightarrow> ustr) \<Rightarrow> session_entry list \<Rightarrow> ustr" where
  "session_text encode es = concat (map (\<lambda>e. encode e @ [newline]) es)"

lemma session_text_lines:
  "\<forall>e \<in> set es. \<forall>c \<in> set (encode e). \<not> line_boundary c \<Longrightarrow>
     splitlines (session_text encode es @ rest) = map encode es @ splitlines rest"
  by (induction es) (simp_all add: session_text_def newline_def splitlines_line)

text \<open>
  Reading the text of a session is reading its entries, when decoding undoes encoding and no
  encoded entry holds a character that \<open>str.splitlines\<close> takes for a line break: writing every entry
  as a line and loading the file is the same as running the loader over the entries.
\<close>

theorem session_text_loads:
  assumes "\<forall>e \<in> set es. decode (encode e) = Inr e"
    and "\<forall>e \<in> set es. \<forall>c \<in> set (encode e). \<not> line_boundary c"
    and "es \<noteq> []" and "normalize_workspace_root fs ws = Inr r"
  shows "load_session decode fs ws (session_text encode es)
    = lift_error Bad_entry (load_entries (path_str r) es)"
proof -
  have lines: "splitlines (session_text encode es) = map encode es"
    using session_text_lines [OF assms(2), of "[]"] by simp
  show ?thesis
    using assms(3,4) load_lines [OF assms(1), of "path_str r" load_start]
    by (cases "run_steps (load_step (path_str r)) load_start es")
       (simp_all add: load_session_def lines load_entries_def)
qed

definition sample_encode :: "session_entry \<Rightarrow> ustr" where
  "sample_encode e = (case e of Header_entry _ \<Rightarrow> [65] | Info_entry _ \<Rightarrow> [66, 8232, 67] | _ \<Rightarrow> [68])"

definition sample_decode :: "ustr \<Rightarrow> (line_error, session_entry) result" where
  "sample_decode line =
     (if line = [65] then Inr (Header_entry sample_header)
      else if line = [66, 8232, 67] then Inr (Info_entry ''a'') else Inl Invalid_json)"

lemma sample_root: "normalize_workspace_root sample_fs ''/w'' = Inr (PPath 1 [''w''])"
  by code_simp

theorem session_text_loads_witness:
  "\<exists>l. load_session sample_decode sample_fs ''/w'' (session_text sample_encode [Header_entry sample_header])
       = Inr l \<and> lo_header l = sample_header"
proof -
  have codec: "\<forall>e \<in> set [Header_entry sample_header]. sample_decode (sample_encode e) = Inr e"
    and plain: "\<forall>e \<in> set [Header_entry sample_header]. \<forall>c \<in> set (sample_encode e). \<not> line_boundary c"
    by (simp_all add: sample_decode_def sample_encode_def line_boundary_def)
  have "\<exists>l. load_entries ''/w'' [Header_entry sample_header] = Inr l \<and> lo_header l = sample_header"
    by (simp add: load_entries_def load_step_def load_start_def load_header_def load_finish_def
        sample_header_def Let_def)
  with session_text_loads [OF codec plain _ sample_root] show ?thesis by auto
qed

text \<open>
  One line break character inside an encoded entry makes the whole session unreadable. The JSON
  of an entry escapes line feeds but not the Unicode separators (U+2028, U+2029, U+0085), which
  \<open>str.splitlines\<close> takes for line breaks; since a cut entry is not an entry, the file that holds it
  cannot be loaded again, whatever the entries before and after it.
\<close>

theorem line_separator_breaks_session:
  assumes "encode e = front @ c # back" and "line_boundary c" and "c \<noteq> 13"
    and "\<forall>d \<in> set front. \<not> line_boundary d"
    and "decode front = Inl broken"
    and "\<forall>e \<in> set es. \<forall>c \<in> set (encode e). \<not> line_boundary c"
  shows "\<not> succeeds (load_session decode fs ws (session_text encode (es @ e # later)))"
proof -
  have f: "splitlines (front @ c # rest) = front # splitlines rest" for rest
    using assms(2-4)
  proof (induction front)
    case Nil
    then show ?case by simp
  next
    case (Cons d ds)
    then have "\<not> line_boundary d" "d \<noteq> 13" by auto
    with Cons show ?case by simp
  qed
  let ?rest = "back @ [newline] @ session_text encode later"
  have "session_text encode (es @ e # later) = session_text encode es @ front @ c # ?rest"
    by (simp add: session_text_def assms(1))
  then have lines: "splitlines (session_text encode (es @ e # later))
      = map encode es @ front # splitlines ?rest"
    using session_text_lines [OF assms(6)] f by simp
  have "\<not> succeeds (run_steps (load_line decode root) s (map encode es @ front # splitlines ?rest))"
    for root s
    by (auto simp: run_steps_append succeeds_iff load_line_def assms(5))
  then show ?thesis
    unfolding load_session_def Let_def lines by (auto simp: succeeds_iff)
qed

theorem line_separator_breaks_session_witness:
  "sample_decode (sample_encode (Info_entry ''a'')) = Inr (Info_entry ''a'')
   \<and> \<not> succeeds (load_session sample_decode sample_fs ''/w''
       (session_text sample_encode ([Header_entry sample_header] @ Info_entry ''a'' # [])))"
proof -
  have e: "sample_encode (Info_entry ''a'') = [66] @ 8232 # [67]"
    and c: "line_boundary 8232" "(8232 :: nat) \<noteq> 13" "\<forall>d \<in> set [66]. \<not> line_boundary d"
    and d: "sample_decode [66] = Inl Invalid_json"
    and p: "\<forall>e \<in> set [Header_entry sample_header]. \<forall>c \<in> set (sample_encode e). \<not> line_boundary c"
    by (simp_all add: sample_encode_def sample_decode_def line_boundary_def)
  have "\<not> succeeds (load_session sample_decode sample_fs ''/w''
       (session_text sample_encode ([Header_entry sample_header] @ Info_entry ''a'' # [])))"
    by (rule line_separator_breaks_session) (rule e c d p)+
  then show ?thesis by (simp add: sample_encode_def sample_decode_def)
qed

end
