(* ===== verification/Session_Append.thy ===== *)
theory Session_Append
  imports Session_Log
begin

text \<open>
  Writing a session: the appender, the functions that append to a log, forking, and the metadata
  file of \<open>session/jsonl.py\<close>. A session on disk is the list of its log entries and its metadata,
  either of which may be missing; every operation takes the files and returns them, so that what is
  written before a failure stays written. The workspace root is the one
  \<open>normalize_workspace_root\<close> returned; times, ids and the project documents found are arguments.
\<close>

section \<open>Files\<close>

record session_files =
  sfl_log :: "session_entry list option"
  sfl_metadata :: "session_metadata option"

datatype append_error =
    Log_unreadable entry_error | Metadata_missing | Run_finalized | Appender_closed
  | Bad_event event_error | Bad_final_run run_error | Entry_of_other_run suffix_kind
  | Context_root_mismatch | Context_shell_mismatch | Log_missing | Session_exists
  | No_completed_runs | Unusable_replacement replacement_error
  | Unusable_replacement_messages message_error | Unknown_compaction_run | Boundary_backward
  | Name_without_letters | Name_invalid | Name_in_use | Negative_failures

type_synonym 'a written = "session_files \<times> (append_error, 'a) result"

definition write_entry :: "session_entry \<Rightarrow> session_files \<Rightarrow> session_files" where
  "write_entry e f = f\<lparr>sfl_log := map_option (\<lambda>es. es @ [e]) (sfl_log f)\<rparr>"

definition initialize_session ::
    "string \<Rightarrow> shell_family \<Rightarrow> string \<Rightarrow> nat \<Rightarrow> session_files \<Rightarrow> unit written" where
  "initialize_session root shell session_id now f =
     (if sfl_log f \<noteq> None then (f, Inl Session_exists)
      else
        (\<lparr>sfl_log = Some [Header_entry \<lparr>sh_version = session_format_version,
                                        sh_workspace_root = root, sh_shell_family = shell\<rparr>],
          sfl_metadata = Some (new_metadata session_id now)\<rparr>, Inr ()))"

definition load_log :: "string \<Rightarrow> session_files \<Rightarrow> (append_error, loaded_session) result" where
  "load_log root f =
     (case sfl_log f of
        None \<Rightarrow> Inl Log_missing
      | Some es \<Rightarrow> lift_error Log_unreadable (load_entries root es))"

definition ensure_session_is_appendable ::
    "string \<Rightarrow> shell_family \<Rightarrow> string \<Rightarrow> nat \<Rightarrow> session_files \<Rightarrow> unit written" where
  "ensure_session_is_appendable root shell session_id now f =
     (if sfl_log f \<noteq> None then
        (case load_log root f of
           Inl e \<Rightarrow> (f, Inl e)
         | Inr _ \<Rightarrow> (f, if sfl_metadata f = None then Inl Metadata_missing else Inr ()))
      else initialize_session root shell session_id now f)"

definition update_session_metadata ::
    "(session_metadata \<Rightarrow> session_metadata) \<Rightarrow> session_files \<Rightarrow> session_metadata written" where
  "update_session_metadata change f =
     (case sfl_metadata f of
        None \<Rightarrow> (f, Inl Metadata_missing)
      | Some md \<Rightarrow> (f\<lparr>sfl_metadata := Some (change md)\<rparr>, Inr (change md)))"

definition update_session_auto_compaction_failures ::
    "int \<Rightarrow> session_files \<Rightarrow> session_metadata written" where
  "update_session_auto_compaction_failures n f =
     (if n < 0 then (f, Inl Negative_failures)
      else update_session_metadata (\<lambda>md. md\<lparr>md_consecutive_auto_compaction_failures := n\<rparr>) f)"

definition update_session_mode :: "run_mode \<Rightarrow> session_files \<Rightarrow> session_metadata written" where
  "update_session_mode mode f = update_session_metadata (\<lambda>md. md\<lparr>md_current_mode := mode\<rparr>) f"

section \<open>The appender of a run\<close>

record run_appender =
  ra_root :: string
  ra_shell :: shell_family
  ra_run_id :: string
  ra_events :: "run_event list"
  ra_finalized :: bool
  ra_open :: bool
  ra_validator :: appender_state

definition start_run_to_session ::
    "string \<Rightarrow> shell_family \<Rightarrow> string \<Rightarrow> nat \<Rightarrow> string \<Rightarrow> ustr \<Rightarrow> thinking_setting option
     \<Rightarrow> session_files \<Rightarrow> run_appender written" where
  "start_run_to_session root shell session_id now run_id prompt thinking f =
     (case ensure_session_is_appendable root shell session_id now f of
        (f', Inl e) \<Rightarrow> (f', Inl e)
      | (f', Inr _) \<Rightarrow>
          (write_entry (Run_entry \<lparr>sr_run_id = run_id, sr_prompt = prompt, sr_thinking = thinking\<rparr>) f',
           Inr \<lparr>ra_root = root, ra_shell = shell, ra_run_id = run_id, ra_events = [],
                ra_finalized = False, ra_open = True, ra_validator = appender_start\<rparr>))"

definition append_event ::
    "session_files \<times> run_appender \<Rightarrow> run_event
     \<Rightarrow> (append_error, session_files \<times> run_appender) result" where
  "append_event fa event =
     (let (f, a) = fa in
      if ra_finalized a then Inl Run_finalized
      else if event_run_id event \<noteq> ra_run_id a then Inl (Bad_event Wrong_event_run_id)
      else if is_text_delta event then Inr (f, a)
      else if \<not> ra_open a then Inl Appender_closed
      else res_bind (lift_error Bad_event
                       (validate_run_event_incremental (ra_run_id a) (ra_validator a) event))
        (\<lambda>v. Inr (write_entry (Event_entry \<lparr>se_run_id = ra_run_id a, se_event = event\<rparr>) f,
                  a\<lparr>ra_validator := v, ra_events := ra_events a @ [event]\<rparr>)))"

text \<open>The entries a finalized run is closed with, written one after the other.\<close>

definition finalize_messages ::
    "model_message list \<Rightarrow> run_appender \<Rightarrow> session_files \<Rightarrow> unit written" where
  "finalize_messages messages a f =
     (case validate_run_record
             \<lparr>rr_run_id = ra_run_id a, rr_prompt = [], rr_thinking = None, rr_messages = messages,
              rr_events = ra_events a, rr_mcp_inventory = None\<rparr> of
        Inl e \<Rightarrow> (f, Inl (Bad_final_run e))
      | Inr _ \<Rightarrow>
          (write_entry (Messages_entry \<lparr>sm_run_id = ra_run_id a, sm_messages = messages\<rparr>) f, Inr ()))"

definition finalize_inventory ::
    "session_mcp_inventory_entry option \<Rightarrow> run_appender \<Rightarrow> session_files \<Rightarrow> unit written" where
  "finalize_inventory inventory a f =
     (case inventory of
        None \<Rightarrow> (f, Inr ())
      | Some e \<Rightarrow>
          if smi_run_id e \<noteq> ra_run_id a then (f, Inl (Entry_of_other_run Inventory_suffix))
          else (write_entry (Mcp_inventory_entry e) f, Inr ()))"

definition finalize_context ::
    "session_turn_context_entry option \<Rightarrow> run_appender \<Rightarrow> session_files \<Rightarrow> unit written" where
  "finalize_context context a f =
     (case context of
        None \<Rightarrow> (f, Inr ())
      | Some e \<Rightarrow>
          if stc_run_id e \<noteq> ra_run_id a then (f, Inl (Entry_of_other_run Context_suffix))
          else if stc_workspace_root e \<noteq> ra_root a then (f, Inl Context_root_mismatch)
          else if stc_shell_family e \<noteq> ra_shell a then (f, Inl Context_shell_mismatch)
          else (write_entry (Turn_context_entry e) f, Inr ()))"

definition finalize_grants ::
    "session_permission_grants_entry option \<Rightarrow> run_appender \<Rightarrow> session_files \<Rightarrow> unit written" where
  "finalize_grants grants a f =
     (case grants of
        None \<Rightarrow> (f, Inr ())
      | Some e \<Rightarrow>
          if spg_run_id e \<noteq> ra_run_id a then (f, Inl (Entry_of_other_run Grants_suffix))
          else (write_entry (Permission_grants_entry e) f, Inr ()))"

definition and_then :: "'a written \<Rightarrow> (session_files \<Rightarrow> 'b written) \<Rightarrow> 'b written" where
  "and_then w g = (case w of (f, Inl e) \<Rightarrow> (f, Inl e) | (f, Inr _) \<Rightarrow> g f)"

record run_closing =
  rc_messages :: "model_message list"
  rc_inventory :: "session_mcp_inventory_entry option"
  rc_context :: "session_turn_context_entry option"
  rc_grants :: "session_permission_grants_entry option"

definition finalize :: "run_closing \<Rightarrow> nat \<Rightarrow> run_appender \<Rightarrow> session_files \<Rightarrow> run_appender \<times> unit written" where
  "finalize c now a f =
     (if ra_finalized a then (a, f, Inl Run_finalized)
      else if \<not> ra_open a then (a, f, Inl Appender_closed)
      else
        (let (f', r) =
           and_then (finalize_messages (rc_messages c) a f)
            (\<lambda>f. and_then (finalize_inventory (rc_inventory c) a f)
            (\<lambda>f. and_then (finalize_context (rc_context c) a f)
            (\<lambda>f. and_then (finalize_grants (rc_grants c) a f)
            (\<lambda>f. and_then (update_session_metadata (\<lambda>md. md\<lparr>md_updated_at := now\<rparr>) f)
            (\<lambda>f. (f, Inr ()))))))
         in (a\<lparr>ra_open := False, ra_finalized := succeeds r\<rparr>, f', r)))"

definition extract_run_id :: "run_event list \<Rightarrow> (append_error, string) result" where
  "extract_run_id events =
     (case events of
        [] \<Rightarrow> Inl (Bad_event No_events)
      | e # _ \<Rightarrow> if event_run_id e = [] then Inl (Bad_event Empty_run_id) else Inr (event_run_id e))"

fun append_events ::
    "run_event list \<Rightarrow> run_appender \<Rightarrow> session_files \<Rightarrow> run_appender written" where
  "append_events [] a f = (f, Inr a)"
| "append_events (e # es) a f =
     (case append_event (f, a) e of
        Inl x \<Rightarrow> (f, Inl x)
      | Inr (f', a') \<Rightarrow> append_events es a' f')"

definition append_run_to_session ::
    "string \<Rightarrow> shell_family \<Rightarrow> string \<Rightarrow> nat \<Rightarrow> ustr \<Rightarrow> thinking_setting option \<Rightarrow> run_event list
     \<Rightarrow> run_closing \<Rightarrow> session_files \<Rightarrow> unit written" where
  "append_run_to_session root shell session_id now prompt thinking events closing f =
     (case extract_run_id events of
        Inl e \<Rightarrow> (f, Inl e)
      | Inr run_id \<Rightarrow>
          (case start_run_to_session root shell session_id now run_id prompt thinking f of
             (f1, Inl e) \<Rightarrow> (f1, Inl e)
           | (f1, Inr a) \<Rightarrow>
               (case append_events events a f1 of
                  (f2, Inl e) \<Rightarrow> (f2, Inl e)
                | (f2, Inr a') \<Rightarrow> snd (finalize closing now a' f2))))"

section \<open>Compactions, documents, names and forks\<close>

definition run_index_for_id :: "loaded_session \<Rightarrow> string \<Rightarrow> nat option" where
  "run_index_for_id l run_id = index_where (\<lambda>r. rr_run_id r = run_id) (lo_runs l)"

definition touch_metadata :: "nat \<Rightarrow> 'a \<Rightarrow> session_files \<Rightarrow> 'a written" where
  "touch_metadata now x f =
     and_then (update_session_metadata (\<lambda>md. md\<lparr>md_updated_at := now\<rparr>) f) (\<lambda>f. (f, Inr x))"

definition append_compaction_to_session ::
    "string \<Rightarrow> nat \<Rightarrow> string \<Rightarrow> model_message list \<Rightarrow> string option \<Rightarrow> session_files
     \<Rightarrow> session_compaction_entry written" where
  "append_compaction_to_session root now uuid replacement through f =
     (case load_log root f of
        Inl e \<Rightarrow> (f, Inl e)
      | Inr l \<Rightarrow>
          if lo_runs l = [] then (f, Inl No_completed_runs)
          else
            (let run_id = (case through of Some r \<Rightarrow> r | None \<Rightarrow> rr_run_id (last (lo_runs l))) in
             case validate_compaction_replacement_messages replacement of
               Inl e \<Rightarrow> (f, Inl (Unusable_replacement e))
             | Inr _ \<Rightarrow>
             (case validate_run_messages replacement of
               Inl e \<Rightarrow> (f, Inl (Unusable_replacement_messages e))
             | Inr _ \<Rightarrow>
             (case run_index_for_id l run_id of
               None \<Rightarrow> (f, Inl Unknown_compaction_run)
             | Some i \<Rightarrow>
                 (case latest_compaction l of
                    Some c \<Rightarrow>
                      (case run_index_for_id l (sc_compacted_through_run_id c) of
                         None \<Rightarrow> (f, Inl Unknown_compaction_run)
                       | Some j \<Rightarrow>
                           if i < j then (f, Inl Boundary_backward)
                           else
                             (let entry = \<lparr>sc_compaction_id = uuid, sc_compacted_through_run_id = run_id,
                                           sc_replacement_messages = replacement\<rparr>
                              in touch_metadata now entry (write_entry (Compaction_entry entry) f)))
                  | None \<Rightarrow>
                      (let entry = \<lparr>sc_compaction_id = uuid, sc_compacted_through_run_id = run_id,
                                    sc_replacement_messages = replacement\<rparr>
                       in touch_metadata now entry (write_entry (Compaction_entry entry) f)))))))"

definition append_project_docs_to_session ::
    "string \<Rightarrow> nat \<Rightarrow> project_doc_reference list \<Rightarrow> session_files
     \<Rightarrow> project_doc_reference list option written" where
  "append_project_docs_to_session root now docs f =
     (case load_log root f of
        Inl e \<Rightarrow> (f, Inl e)
      | Inr _ \<Rightarrow>
          if docs = [] then (f, Inr None)
          else touch_metadata now (Some docs) (write_entry (Project_docs_entry docs) f))"

definition name_code :: "nat \<Rightarrow> bool" where
  "name_code c \<longleftrightarrow> 97 \<le> c \<and> c \<le> 122 \<or> 48 \<le> c \<and> c \<le> 57"

text \<open>Every run of other characters becomes one dash.\<close>

fun dash_runs :: "bool \<Rightarrow> ustr \<Rightarrow> string" where
  "dash_runs inside [] = []"
| "dash_runs inside (c # s) =
     (if name_code c then char_of c # dash_runs False s
      else if inside then dash_runs True s
      else CHR ''-'' # dash_runs True s)"

definition strip_dashes :: "string \<Rightarrow> string" where
  "strip_dashes s =
     rev (dropWhile (\<lambda>c. c = CHR ''-'') (rev (dropWhile (\<lambda>c. c = CHR ''-'') s)))"

text \<open>The lower-casing of Unicode texts is a parameter.\<close>

definition normalize_session_name :: "(ustr \<Rightarrow> ustr) \<Rightarrow> ustr \<Rightarrow> (append_error, string) result" where
  "normalize_session_name lower name =
     (let normalized = strip_dashes (dash_runs False (lower (strip name))) in
      if normalized = [] then Inl Name_without_letters
      else if \<not> valid_session_name normalized then Inl Name_invalid
      else Inr normalized)"

definition append_session_name_to_session ::
    "(ustr \<Rightarrow> ustr) \<Rightarrow> string \<Rightarrow> nat \<Rightarrow> ustr \<Rightarrow> session_metadata list \<Rightarrow> session_files
     \<Rightarrow> string written" where
  "append_session_name_to_session lower root now name workspace_metadata f =
     (case load_log root f of
        Inl e \<Rightarrow> (f, Inl e)
      | Inr _ \<Rightarrow>
          (case normalize_session_name lower name of
             Inl e \<Rightarrow> (f, Inl e)
           | Inr normalized \<Rightarrow>
               (case sfl_metadata f of
                  None \<Rightarrow> (f, Inl Metadata_missing)
                | Some md \<Rightarrow>
                    if md_name md = Some normalized then (f, Inr normalized)
                    else if \<exists>other \<in> set workspace_metadata.
                              md_session_id other \<noteq> md_session_id md
                              \<and> md_name other = Some normalized
                      then (f, Inl Name_in_use)
                    else and_then
                      (update_session_metadata
                         (\<lambda>md. md\<lparr>md_name := Some normalized, md_updated_at := now\<rparr>)
                         (write_entry (Info_entry normalized) f))
                      (\<lambda>f. (f, Inr normalized)))))"

fun kept_in_fork :: "session_entry \<Rightarrow> bool" where
  "kept_in_fork (Header_entry _) = False"
| "kept_in_fork (Fork_entry _) = False"
| "kept_in_fork (Info_entry _) = False"
| "kept_in_fork (Turn_context_entry _) = False"
| "kept_in_fork _ = True"

definition fork_entries ::
    "string \<Rightarrow> string \<Rightarrow> loaded_session \<Rightarrow> session_entry list \<Rightarrow> session_entry list" where
  "fork_entries root forked_from l source =
     [Header_entry \<lparr>sh_version = session_format_version, sh_workspace_root = root,
                    sh_shell_family = sh_shell_family (lo_header l)\<rparr>,
      Fork_entry \<lparr>sf_forked_from_session_id = forked_from,
                  sf_forked_from_run_id =
                    (if lo_runs l \<noteq> [] then Some (rr_run_id (last (lo_runs l))) else None)\<rparr>]
     @ filter kept_in_fork (tl source)"

definition fork_session ::
    "string \<Rightarrow> string \<Rightarrow> string \<Rightarrow> nat \<Rightarrow> session_files \<Rightarrow> session_files \<Rightarrow> unit written" where
  "fork_session root forked_from target_id now source target =
     (case load_log root source of
        Inl e \<Rightarrow> (target, Inl e)
      | Inr l \<Rightarrow>
          if sfl_log target \<noteq> None then (target, Inl Session_exists)
          else
            (let written = target\<lparr>sfl_log :=
                   Some (fork_entries root forked_from l (the (sfl_log source)))\<rparr>
             in case sfl_metadata source of
                  None \<Rightarrow> (written, Inl Metadata_missing)
                | Some md \<Rightarrow>
                    (written\<lparr>sfl_metadata := Some ((new_metadata target_id now)
                        \<lparr>md_current_mode := md_current_mode md,
                         md_forked_from_session_id := Some forked_from\<rparr>)\<rparr>, Inr ())))"

section \<open>Loading what was appended\<close>

text \<open>A state between two runs, as a log that loads leaves it.\<close>

definition resting :: "string \<Rightarrow> load_state \<Rightarrow> bool" where
  "resting root s \<longleftrightarrow> log_ok root s \<and> ls_header s \<noteq> None \<and> ls_current s = None"

lemma resting_loaded:
  assumes "load_entries root es = Inr l"
  obtains s h where "run_steps (load_step root) load_start es = Inr s" and "resting root s"
    and "ls_header s = Some h" and "l = loaded_of s h"
  using assms loader.run_keeps [OF log_ok_start [of root]]
  by (auto simp: loaded_entries resting_def)

lemma resting_known:
  "resting root s \<Longrightarrow> ls_known s = rr_run_id ` set (ls_runs s)"
  "resting root s \<Longrightarrow> ls_order s = map rr_run_id (ls_runs s)"
  by (auto simp: resting_def log_ok_def)

lemma started_run:
  assumes "resting root s" and "sr_run_id r \<notin> rr_run_id ` set (ls_runs s)"
  shows "load_step root s (Run_entry r) = Inr
    (s\<lparr>ls_line := Suc (ls_line s),
       ls_current := Some \<lparr>rr_run_id = sr_run_id r, rr_prompt = sr_prompt r, rr_thinking = sr_thinking r,
                         rr_messages = [], rr_events = [], rr_mcp_inventory = None\<rparr>,
       ls_known := insert (sr_run_id r) (ls_known s)\<rparr>)"
  using assms resting_known(1) [OF assms(1)]
  by (simp add: load_step_def load_body_def load_run_def resting_def)

lemma incremental_run_id:
  "validate_run_event_incremental run_id v e = Inr v' \<Longrightarrow> event_run_id e = run_id"
  by (rule ccontr) (simp add: validate_run_event_incremental_def Let_def)

lemma loaded_event:
  assumes "ls_header s \<noteq> None" and "ls_current s = Some r"
    and "run_steps (validate_run_event_incremental (rr_run_id r)) appender_start (rr_events r @ [e]) = Inr v"
  shows "load_step root s (Event_entry \<lparr>se_run_id = rr_run_id r, se_event = e\<rparr>)
    = Inr (s\<lparr>ls_line := Suc (ls_line s), ls_current := Some (r\<lparr>rr_events := rr_events r @ [e]\<rparr>)\<rparr>)"
proof -
  have "succeeds (run_steps (validate_run_event_incremental (rr_run_id r)) appender_start (rr_events r @ [e]))"
    unfolding assms(3) by simp
  then have "succeeds (validate_run_events (rr_run_id r) (rr_events r @ [e]) False)"
    unfolding validators_agree by blast
  moreover have "event_run_id e = rr_run_id r"
    using assms(3) by (auto dest: incremental_run_id)
  ultimately show ?thesis
    using assms(1,2) by (auto simp: load_step_def load_body_def load_event_def succeeds_iff)
qed

lemma loaded_events:
  assumes "ls_header s \<noteq> None" and "ls_current s = Some r"
    and "run_steps (validate_run_event_incremental (rr_run_id r)) appender_start (rr_events r @ es) = Inr v"
  shows "run_steps (load_step root) s (map (\<lambda>e. Event_entry \<lparr>se_run_id = rr_run_id r, se_event = e\<rparr>) es)
    = Inr (s\<lparr>ls_line := ls_line s + length es, ls_current := Some (r\<lparr>rr_events := rr_events r @ es\<rparr>)\<rparr>)"
  using assms(3)
proof (induction es arbitrary: v rule: rev_induct)
  case Nil
  with assms(2) show ?case by simp
next
  case (snoc e es)
  then obtain u where u: "run_steps (validate_run_event_incremental (rr_run_id r)) appender_start
      (rr_events r @ es) = Inr u"
    by (metis append_assoc run_steps_prefix)
  let ?s = "s\<lparr>ls_line := ls_line s + length es, ls_current := Some (r\<lparr>rr_events := rr_events r @ es\<rparr>)\<rparr>"
  have "load_step root ?s (Event_entry \<lparr>se_run_id = rr_run_id r, se_event = e\<rparr>)
      = Inr (?s\<lparr>ls_line := Suc (ls_line ?s),
               ls_current := Some (r\<lparr>rr_events := rr_events r @ es @ [e]\<rparr>)\<rparr>)"
    using loaded_event [of ?s "r\<lparr>rr_events := rr_events r @ es\<rparr>" e v root] snoc.prems assms(1) by simp
  with snoc.IH [OF u] show ?case by simp
qed

definition run_record ::
    "string \<Rightarrow> ustr \<Rightarrow> thinking_setting option \<Rightarrow> model_message list \<Rightarrow> run_event list \<Rightarrow> session_run_record" where
  "run_record run_id prompt thinking messages events =
     \<lparr>rr_run_id = run_id, rr_prompt = prompt, rr_thinking = thinking, rr_messages = messages,
      rr_events = events, rr_mcp_inventory = None\<rparr>"

definition run_entries ::
    "string \<Rightarrow> ustr \<Rightarrow> thinking_setting option \<Rightarrow> model_message list \<Rightarrow> run_event list \<Rightarrow> session_entry list" where
  "run_entries run_id prompt thinking messages events =
     [Run_entry \<lparr>sr_run_id = run_id, sr_prompt = prompt, sr_thinking = thinking\<rparr>]
     @ map (\<lambda>e. Event_entry \<lparr>se_run_id = run_id, se_event = e\<rparr>) events
     @ [Messages_entry \<lparr>sm_run_id = run_id, sm_messages = messages\<rparr>]"

lemma loaded_run:
  assumes "resting root s" and "run_id \<notin> rr_run_id ` set (ls_runs s)"
    and "run_steps (validate_run_event_incremental run_id) appender_start events = Inr v"
    and "validate_run_record (run_record run_id prompt thinking messages events) = Inr i"
  shows "\<exists>n. run_steps (load_step root) s (run_entries run_id prompt thinking messages events)
    = Inr (s\<lparr>ls_line := n, ls_runs := ls_runs s @ [run_record run_id prompt thinking messages events],
             ls_order := ls_order s @ [run_id], ls_known := insert run_id (ls_known s)\<rparr>)"
proof -
  let ?r = "run_record run_id prompt thinking [] []"
  let ?s1 = "s\<lparr>ls_line := Suc (ls_line s), ls_current := Some ?r, ls_known := insert run_id (ls_known s)\<rparr>"
  have h: "ls_header s \<noteq> None" "ls_current s = None" using assms(1) by (simp_all add: resting_def)
  have 1: "load_step root s (Run_entry \<lparr>sr_run_id = run_id, sr_prompt = prompt, sr_thinking = thinking\<rparr>)
      = Inr ?s1"
    using started_run [OF assms(1)] assms(2) by (simp add: run_record_def)
  have 2: "run_steps (load_step root) ?s1 (map (\<lambda>e. Event_entry \<lparr>se_run_id = run_id, se_event = e\<rparr>) events)
      = Inr (?s1\<lparr>ls_line := ls_line ?s1 + length events,
                ls_current := Some (run_record run_id prompt thinking [] events)\<rparr>)"
    using loaded_events [of ?s1 ?r events v root] h(1) assms(3) by (simp add: run_record_def)
  have 3: "load_step root (?s1\<lparr>ls_line := n, ls_current := Some (run_record run_id prompt thinking [] events)\<rparr>)
        (Messages_entry \<lparr>sm_run_id = run_id, sm_messages = messages\<rparr>)
      = Inr (?s1\<lparr>ls_line := Suc n, ls_runs := ls_runs s @ [run_record run_id prompt thinking messages events],
               ls_order := ls_order s @ [run_id], ls_current := None\<rparr>)" for n
    using h(1) assms(4) by (simp add: load_step_def load_body_def load_messages_def run_record_def)
  have "run_steps (load_step root) s (run_entries run_id prompt thinking messages events)
      = Inr (?s1\<lparr>ls_line := Suc (ls_line ?s1 + length events),
               ls_runs := ls_runs s @ [run_record run_id prompt thinking messages events],
               ls_order := ls_order s @ [run_id], ls_current := None\<rparr>)"
    unfolding run_entries_def
    by (simp only: run_steps_append append.simps run_steps.simps res_bind.simps 1 2 3)
  then show ?thesis
    using h(2) by (intro exI [of _ "Suc (ls_line ?s1 + length events)"]) (cases s, simp)
qed

definition closing_entries :: "run_closing \<Rightarrow> session_entry list" where
  "closing_entries c =
     (case rc_inventory c of None \<Rightarrow> [] | Some e \<Rightarrow> [Mcp_inventory_entry e])
     @ (case rc_context c of None \<Rightarrow> [] | Some e \<Rightarrow> [Turn_context_entry e])
     @ (case rc_grants c of None \<Rightarrow> [] | Some e \<Rightarrow> [Permission_grants_entry e])"

definition or_else :: "'a option \<Rightarrow> 'a option \<Rightarrow> 'a option" where
  "or_else new old = (case new of None \<Rightarrow> old | Some x \<Rightarrow> Some x)"

text \<open>A state whose last run is fresh: nothing of it is remembered yet.\<close>

definition fresh_run :: "string \<Rightarrow> session_run_record \<Rightarrow> load_state \<Rightarrow> bool" where
  "fresh_run root r s \<longleftrightarrow> map_option sh_workspace_root (ls_header s) = Some root \<and> ls_current s = None
     \<and> (\<exists>rs. ls_runs s = rs @ [r]) \<and> rr_mcp_inventory r = None
     \<and> (\<forall>e. ls_mcp_inventory s = Some e \<longrightarrow> smi_run_id e \<noteq> rr_run_id r)
     \<and> (\<forall>e. ls_turn_context s = Some e \<longrightarrow> stc_run_id e \<noteq> rr_run_id r)
     \<and> (\<forall>e. ls_permission_grants s = Some e \<longrightarrow> spg_run_id e \<noteq> rr_run_id r)"

definition closing_fits :: "string \<Rightarrow> string \<Rightarrow> run_closing \<Rightarrow> bool" where
  "closing_fits root run_id c \<longleftrightarrow>
     (\<forall>e. rc_inventory c = Some e \<longrightarrow> smi_run_id e = run_id)
     \<and> (\<forall>e. rc_context c = Some e \<longrightarrow> stc_run_id e = run_id \<and> stc_workspace_root e = root)
     \<and> (\<forall>e. rc_grants c = Some e \<longrightarrow> spg_run_id e = run_id)"

lemma inventory_loads:
  assumes "ls_header s \<noteq> None" and "ls_current s = None" and "ls_runs s = rs @ [r]"
    and "smi_run_id e = rr_run_id r"
    and "\<not> (\<exists>l. ls_mcp_inventory s = Some l \<and> smi_run_id l = rr_run_id r)"
  shows "load_step root s (Mcp_inventory_entry e) = Inr
    (s\<lparr>ls_line := Suc (ls_line s), ls_runs := rs @ [r\<lparr>rr_mcp_inventory := Some e\<rparr>],
       ls_mcp_inventory := Some e\<rparr>)"
proof -
  have "check_suffix Inventory_suffix (smi_run_id e) (s\<lparr>ls_line := n\<rparr>) = Inr ()" for n
    using assms(2-4) by (simp add: check_suffix_def)
  then show ?thesis
    using assms(1,5) by (simp add: load_step_def load_body_def load_mcp_inventory_def assms(3,4))
qed

lemma context_loads:
  assumes "map_option sh_workspace_root (ls_header s) = Some root" and "ls_current s = None"
    and "ls_runs s = rs @ [r]" and "stc_run_id e = rr_run_id r" and "stc_workspace_root e = root"
    and "\<not> (\<exists>l. ls_turn_context s = Some l \<and> stc_run_id l = rr_run_id r)"
  shows "load_step root s (Turn_context_entry e) = Inr
    (s\<lparr>ls_line := Suc (ls_line s), ls_context_history := True, ls_turn_context := Some e\<rparr>)"
proof -
  have "check_suffix Context_suffix (stc_run_id e) (s\<lparr>ls_line := n\<rparr>) = Inr ()" for n
    using assms(2-4) by (simp add: check_suffix_def)
  moreover have "ls_header s \<noteq> None" using assms(1) by auto
  ultimately show ?thesis
    using assms(6) by (simp add: load_step_def load_body_def load_turn_context_def assms(1,4,5))
qed

lemma grants_load:
  assumes "ls_header s \<noteq> None" and "ls_current s = None"
    and "ls_runs s = rs @ [r]" and "spg_run_id e = rr_run_id r"
    and "\<not> (\<exists>l. ls_permission_grants s = Some l \<and> spg_run_id l = rr_run_id r)"
  shows "load_step root s (Permission_grants_entry e) = Inr
    (s\<lparr>ls_line := Suc (ls_line s), ls_permission_grants := Some e\<rparr>)"
proof -
  have "check_suffix Grants_suffix (spg_run_id e) (s\<lparr>ls_line := n\<rparr>) = Inr ()" for n
    using assms(2-4) by (simp add: check_suffix_def)
  then show ?thesis
    using assms(1,5) by (simp add: load_step_def load_body_def load_permission_grants_def assms(4))
qed

text \<open>The three optional entries, one after the other.\<close>

lemma optional_inventory:
  assumes "fresh_run root r s" and "\<forall>e. i = Some e \<longrightarrow> smi_run_id e = rr_run_id r"
  shows "\<exists>n. run_steps (load_step root) s (case i of None \<Rightarrow> [] | Some e \<Rightarrow> [Mcp_inventory_entry e])
    = Inr (s\<lparr>ls_line := n, ls_runs := butlast (ls_runs s) @ [r\<lparr>rr_mcp_inventory := i\<rparr>],
             ls_mcp_inventory := or_else i (ls_mcp_inventory s)\<rparr>)"
proof -
  from assms(1) obtain rs where rs: "ls_runs s = rs @ [r]" and h: "ls_header s \<noteq> None"
    and c: "ls_current s = None" and n: "rr_mcp_inventory r = None"
    and f: "\<not> (\<exists>l. ls_mcp_inventory s = Some l \<and> smi_run_id l = rr_run_id r)"
    by (auto simp: fresh_run_def)
  show ?thesis
  proof (cases i)
    case None
    have "r\<lparr>rr_mcp_inventory := None\<rparr> = r" using n by (cases r) simp
    then have "ls_runs s = butlast (ls_runs s) @ [r\<lparr>rr_mcp_inventory := None\<rparr>]" using rs by simp
    then show ?thesis
      by (intro exI [of _ "ls_line s"]) (cases s, simp add: None or_else_def)
  next
    case (Some e)
    then show ?thesis
      using inventory_loads [OF h c rs _ f, of e root] assms(2)
      by (intro exI [of _ "Suc (ls_line s)"]) (simp add: or_else_def rs)
  qed
qed

lemma optional_context:
  assumes "map_option sh_workspace_root (ls_header s) = Some root" and "ls_current s = None"
    and "ls_runs s = rs @ [r]"
    and "\<not> (\<exists>l. ls_turn_context s = Some l \<and> stc_run_id l = rr_run_id r)"
    and "\<forall>e. x = Some e \<longrightarrow> stc_run_id e = rr_run_id r \<and> stc_workspace_root e = root"
  shows "\<exists>n. run_steps (load_step root) s (case x of None \<Rightarrow> [] | Some e \<Rightarrow> [Turn_context_entry e])
    = Inr (s\<lparr>ls_line := n, ls_context_history := (ls_context_history s \<or> x \<noteq> None),
             ls_turn_context := or_else x (ls_turn_context s)\<rparr>)"
proof (cases x)
  case None
  then show ?thesis by (intro exI [of _ "ls_line s"]) (simp add: or_else_def)
next
  case (Some e)
  then show ?thesis
    using context_loads [OF assms(1-3) _ _ assms(4), of e] assms(5)
    by (intro exI [of _ "Suc (ls_line s)"]) (simp add: or_else_def)
qed

lemma optional_grants:
  assumes "ls_header s \<noteq> None" and "ls_current s = None" and "ls_runs s = rs @ [r]"
    and "\<not> (\<exists>l. ls_permission_grants s = Some l \<and> spg_run_id l = rr_run_id r)"
    and "\<forall>e. g = Some e \<longrightarrow> spg_run_id e = rr_run_id r"
  shows "\<exists>n. run_steps (load_step root) s (case g of None \<Rightarrow> [] | Some e \<Rightarrow> [Permission_grants_entry e])
    = Inr (s\<lparr>ls_line := n, ls_permission_grants := or_else g (ls_permission_grants s)\<rparr>)"
proof (cases g)
  case None
  then show ?thesis by (intro exI [of _ "ls_line s"]) (simp add: or_else_def)
next
  case (Some e)
  then show ?thesis
    using grants_load [OF assms(1-3) _ assms(4), of e root] assms(5)
    by (intro exI [of _ "Suc (ls_line s)"]) (simp add: or_else_def)
qed

lemma closing_loads:
  assumes "fresh_run root r s" and "closing_fits root (rr_run_id r) c"
  shows "\<exists>n. run_steps (load_step root) s (closing_entries c) = Inr
    (s\<lparr>ls_line := n,
       ls_runs := butlast (ls_runs s) @ [r\<lparr>rr_mcp_inventory := rc_inventory c\<rparr>],
       ls_mcp_inventory := or_else (rc_inventory c) (ls_mcp_inventory s),
       ls_context_history := (ls_context_history s \<or> rc_context c \<noteq> None),
       ls_turn_context := or_else (rc_context c) (ls_turn_context s),
       ls_permission_grants := or_else (rc_grants c) (ls_permission_grants s)\<rparr>)"
proof -
  from assms(1) have f: "map_option sh_workspace_root (ls_header s) = Some root" "ls_header s \<noteq> None"
      "ls_current s = None"
      "\<not> (\<exists>l. ls_turn_context s = Some l \<and> stc_run_id l = rr_run_id r)"
      "\<not> (\<exists>l. ls_permission_grants s = Some l \<and> spg_run_id l = rr_run_id r)"
    by (auto simp: fresh_run_def)
  let ?r = "r\<lparr>rr_mcp_inventory := rc_inventory c\<rparr>"
  from assms(2) have ids: "\<forall>e. rc_inventory c = Some e \<longrightarrow> smi_run_id e = rr_run_id r"
    "\<forall>e. rc_context c = Some e \<longrightarrow> stc_run_id e = rr_run_id ?r \<and> stc_workspace_root e = root"
    "\<forall>e. rc_grants c = Some e \<longrightarrow> spg_run_id e = rr_run_id ?r"
    by (simp_all add: closing_fits_def)
  obtain n1 where 1: "run_steps (load_step root) s
        (case rc_inventory c of None \<Rightarrow> [] | Some e \<Rightarrow> [Mcp_inventory_entry e])
      = Inr (s\<lparr>ls_line := n1, ls_runs := butlast (ls_runs s) @ [?r],
               ls_mcp_inventory := or_else (rc_inventory c) (ls_mcp_inventory s)\<rparr>)"
    (is "_ = Inr ?s1")
    using optional_inventory [OF assms(1) ids(1)] by blast
  obtain n2 where 2: "run_steps (load_step root) ?s1
        (case rc_context c of None \<Rightarrow> [] | Some e \<Rightarrow> [Turn_context_entry e])
      = Inr (?s1\<lparr>ls_line := n2, ls_context_history := (ls_context_history s \<or> rc_context c \<noteq> None),
             ls_turn_context := or_else (rc_context c) (ls_turn_context s)\<rparr>)"
    (is "_ = Inr ?s2")
    using optional_context [of ?s1 root "butlast (ls_runs s)" ?r "rc_context c"] f ids(2) by auto
  obtain n3 where 3: "run_steps (load_step root) ?s2
        (case rc_grants c of None \<Rightarrow> [] | Some e \<Rightarrow> [Permission_grants_entry e])
      = Inr (?s2\<lparr>ls_line := n3,
             ls_permission_grants := or_else (rc_grants c) (ls_permission_grants s)\<rparr>)"
    using optional_grants [of ?s2 "butlast (ls_runs s)" ?r "rc_grants c" root] f ids(3) by auto
  show ?thesis
    unfolding closing_entries_def run_steps_append 1 res_bind.simps 2 3 by (intro exI [of _ n3]) simp
qed

section \<open>What the appender writes\<close>

definition persisted :: "run_event list \<Rightarrow> run_event list" where
  "persisted es = filter (\<lambda>e. \<not> is_text_delta e) es"

lemma appended_events [inversion]:
  assumes "append_events es a f = (f', Inr a')" and "sfl_log f = Some log"
  shows "sfl_log f' = Some (log @ map (\<lambda>e. Event_entry \<lparr>se_run_id = ra_run_id a, se_event = e\<rparr>) (persisted es))
    \<and> sfl_metadata f' = sfl_metadata f
    \<and> run_steps (validate_run_event_incremental (ra_run_id a)) (ra_validator a) (persisted es)
       = Inr (ra_validator a')
    \<and> ra_events a' = ra_events a @ persisted es
    \<and> ra_run_id a' = ra_run_id a \<and> ra_root a' = ra_root a \<and> ra_shell a' = ra_shell a
    \<and> ra_open a' = ra_open a \<and> ra_finalized a' = ra_finalized a"
  using assms
proof (induction es arbitrary: a f log)
  case Nil
  then show ?case by (simp add: persisted_def)
next
  case (Cons e es)
  then obtain f1 a1 where s: "append_event (f, a) e = Inr (f1, a1)"
    and rest: "append_events es a1 f1 = (f', Inr a')" by (auto split: sum.splits)
  show ?case
  proof (cases "is_text_delta e")
    case True
    with s have "f1 = f" "a1 = a" by (auto simp: append_event_def split: if_splits)
    with True rest Cons show ?thesis by (simp add: persisted_def)
  next
    case False
    with s Cons.prems(2) obtain v where
      l: "sfl_log f1 = Some (log @ [Event_entry \<lparr>se_run_id = ra_run_id a, se_event = e\<rparr>])"
      and m: "sfl_metadata f1 = sfl_metadata f"
      and v: "validate_run_event_incremental (ra_run_id a) (ra_validator a) e = Inr v"
      and a1: "a1 = a\<lparr>ra_validator := v, ra_events := ra_events a @ [e]\<rparr>"
      by (auto simp: append_event_def write_entry_def split: if_splits)
    from Cons.IH [OF rest l] False show ?thesis
      by (simp add: a1 v m persisted_def)
  qed
qed

lemma and_then_Inr [simp]:
  "and_then w g = (f', Inr b) \<longleftrightarrow> (\<exists>f a. w = (f, Inr a) \<and> g f = (f', Inr b))"
  by (auto simp: and_then_def split: prod.splits sum.splits)

lemma finalized [inversion]:
  assumes "finalize c now a f = (a', f', Inr u)" and "sfl_log f = Some log"
  shows "sfl_log f' = Some (log @ [Messages_entry \<lparr>sm_run_id = ra_run_id a, sm_messages = rc_messages c\<rparr>]
           @ closing_entries c)
    \<and> validate_run_record (run_record (ra_run_id a) [] None (rc_messages c) (ra_events a)) = Inr (ra_run_id a)
    \<and> closing_fits (ra_root a) (ra_run_id a) c"
proof -
  let ?m = "Messages_entry \<lparr>sm_run_id = ra_run_id a, sm_messages = rc_messages c\<rparr>"
  from assms(1) obtain f1 f2 f3 f4 u1 u2 u3 u4 where
    m: "finalize_messages (rc_messages c) a f = (f1, Inr u1)"
    and i: "finalize_inventory (rc_inventory c) a f1 = (f2, Inr u2)"
    and x: "finalize_context (rc_context c) a f2 = (f3, Inr u3)"
    and g: "finalize_grants (rc_grants c) a f3 = (f4, Inr u4)"
    and md: "sfl_log f' = sfl_log f4"
    by (auto simp: finalize_def update_session_metadata_def Let_def split: if_splits prod.splits option.splits)
  have 1: "sfl_log f1 = Some (log @ [?m])"
    and v: "validate_run_record (run_record (ra_run_id a) [] None (rc_messages c) (ra_events a)) = Inr (ra_run_id a)"
    using m assms(2)
    by (auto simp: finalize_messages_def write_entry_def run_record_def split: sum.splits
        dest: validated_record_id)
  have "sfl_log f2 = Some (log @ [?m]
        @ (case rc_inventory c of None \<Rightarrow> [] | Some e \<Rightarrow> [Mcp_inventory_entry e]))
      \<and> (\<forall>e. rc_inventory c = Some e \<longrightarrow> smi_run_id e = ra_run_id a)"
    using i 1 by (auto simp: finalize_inventory_def write_entry_def split: option.splits if_splits)
  moreover from calculation x have "sfl_log f3 = Some (the (sfl_log f2)
        @ (case rc_context c of None \<Rightarrow> [] | Some e \<Rightarrow> [Turn_context_entry e]))
      \<and> (\<forall>e. rc_context c = Some e \<longrightarrow> stc_run_id e = ra_run_id a \<and> stc_workspace_root e = ra_root a)"
    by (auto simp: finalize_context_def write_entry_def split: option.splits if_splits)
  moreover from calculation g have "sfl_log f4 = Some (the (sfl_log f3)
        @ (case rc_grants c of None \<Rightarrow> [] | Some e \<Rightarrow> [Permission_grants_entry e]))
      \<and> (\<forall>e. rc_grants c = Some e \<longrightarrow> spg_run_id e = ra_run_id a)"
    by (auto simp: finalize_grants_def write_entry_def split: option.splits if_splits)
  ultimately show ?thesis
    using md v by (simp add: closing_entries_def closing_fits_def)
qed

section \<open>Appending a run\<close>

definition run_added :: "run_closing \<Rightarrow> session_run_record \<Rightarrow> loaded_session \<Rightarrow> loaded_session" where
  "run_added c r l =
     l\<lparr>lo_runs := lo_runs l @ [r\<lparr>rr_mcp_inventory := rc_inventory c\<rparr>],
       lo_latest_mcp_inventory := or_else (rc_inventory c) (lo_latest_mcp_inventory l),
       lo_latest_turn_context := or_else (rc_context c) (lo_latest_turn_context l),
       lo_has_turn_context_history := (lo_has_turn_context_history l \<or> rc_context c \<noteq> None),
       lo_latest_permission_grants := or_else (rc_grants c) (lo_latest_permission_grants l)\<rparr>"

lemma record_validation_ignores:
  "validate_run_record (run_record i prompt thinking ms es) = validate_run_record (run_record i [] None ms es)"
  by (simp add: validate_run_record_def run_record_def)

lemma loaded_closed_run:
  assumes "load_entries root log = Inr l" and "run_id \<notin> rr_run_id ` set (lo_runs l)"
    and "run_steps (validate_run_event_incremental run_id) appender_start events = Inr v"
    and "validate_run_record (run_record run_id [] None (rc_messages c) events) = Inr run_id"
    and "closing_fits root run_id c"
  shows "load_entries root (log @ run_entries run_id prompt thinking (rc_messages c) events @ closing_entries c)
    = Inr (run_added c (run_record run_id prompt thinking (rc_messages c) events) l)"
proof -
  let ?r = "run_record run_id prompt thinking (rc_messages c) events"
  obtain s h where s: "run_steps (load_step root) load_start log = Inr s" and rest: "resting root s"
    and h: "ls_header s = Some h" and l: "l = loaded_of s h"
    using assms(1) by (rule resting_loaded)
  have new: "run_id \<notin> rr_run_id ` set (ls_runs s)" using assms(2) l by simp
  obtain n where run: "run_steps (load_step root) s (run_entries run_id prompt thinking (rc_messages c) events)
    = Inr (s\<lparr>ls_line := n, ls_runs := ls_runs s @ [?r],
             ls_order := ls_order s @ [run_id], ls_known := insert run_id (ls_known s)\<rparr>)"
    (is "_ = Inr ?s1")
    using loaded_run [OF rest new assms(3) trans [OF record_validation_ignores assms(4)]] by blast
  have ok: "log_ok root s" "ls_current s = None" using rest by (simp_all add: resting_def)
  have order: "set (ls_order s) = rr_run_id ` set (ls_runs s)" using resting_known(2) [OF rest] by simp
  have "fresh_run root ?r ?s1"
    using ok h new order by (auto simp: fresh_run_def log_ok_def run_record_def)
  then obtain m where close: "run_steps (load_step root) ?s1 (closing_entries c) = Inr
    (?s1\<lparr>ls_line := m,
       ls_runs := butlast (ls_runs ?s1) @ [?r\<lparr>rr_mcp_inventory := rc_inventory c\<rparr>],
       ls_mcp_inventory := or_else (rc_inventory c) (ls_mcp_inventory ?s1),
       ls_context_history := (ls_context_history ?s1 \<or> rc_context c \<noteq> None),
       ls_turn_context := or_else (rc_context c) (ls_turn_context ?s1),
       ls_permission_grants := or_else (rc_grants c) (ls_permission_grants ?s1)\<rparr>)"
    using closing_loads [of root ?r ?s1 c] assms(5) by (auto simp: run_record_def)
  show ?thesis
    unfolding load_entries_def run_steps_append s res_bind.simps run close
    using ok(2) h by (simp add: load_finish_def l loaded_of_def run_added_def)
qed

lemma appended_run [inversion]:
  assumes "append_run_to_session root shell sid now prompt thinking events c f = (f', Inr ())"
    and "sfl_log f = Some log"
  shows "sfl_log f' = Some (log @ run_entries (event_run_id (hd events)) prompt thinking (rc_messages c)
           (persisted events) @ closing_entries c)
    \<and> (\<exists>v. run_steps (validate_run_event_incremental (event_run_id (hd events))) appender_start
           (persisted events) = Inr v)
    \<and> validate_run_record (run_record (event_run_id (hd events)) [] None (rc_messages c) (persisted events))
        = Inr (event_run_id (hd events))
    \<and> closing_fits root (event_run_id (hd events)) c"
proof -
  let ?id = "event_run_id (hd events)"
  from assms(1) have "extract_run_id events = Inr ?id"
    by (auto simp: append_run_to_session_def extract_run_id_def split: list.splits if_splits)
  with assms(1) obtain f1 a f2 a' where
    st: "start_run_to_session root shell sid now ?id prompt thinking f = (f1, Inr a)"
    and ev: "append_events events a f1 = (f2, Inr a')"
    and fin: "snd (finalize c now a' f2) = (f', Inr ())"
    by (auto simp: append_run_to_session_def split: prod.splits sum.splits)
  let ?run = "Run_entry \<lparr>sr_run_id = ?id, sr_prompt = prompt, sr_thinking = thinking\<rparr>"
  have f1: "sfl_log f1 = Some (log @ [?run])"
    and a: "ra_run_id a = ?id" "ra_root a = root" "ra_events a = []" "ra_validator a = appender_start"
    using st assms(2)
    by (auto simp: start_run_to_session_def ensure_session_is_appendable_def write_entry_def
        split: prod.splits sum.splits if_splits)
  note ev' = appended_events [OF ev f1]
  from ev' have f2: "sfl_log f2 = Some ((log @ [?run])
      @ map (\<lambda>e. Event_entry \<lparr>se_run_id = ?id, se_event = e\<rparr>) (persisted events))"
    and a': "ra_run_id a' = ?id" "ra_root a' = root" "ra_events a' = persisted events"
    using a by simp_all
  obtain a'' where fin': "finalize c now a' f2 = (a'', f', Inr ())"
    using fin by (cases "finalize c now a' f2") auto
  from finalized [OF fin' f2] ev' a a' show ?thesis
    by (auto simp: run_entries_def)
qed


section \<open>Failures that strand a session\<close>

lemma started_log:
  assumes "start_run_to_session root shell sid now run_id prompt thinking f = (f1, Inr a)"
    and "sfl_log f = Some log"
  shows "sfl_log f1 = Some (log @ [Run_entry \<lparr>sr_run_id = run_id, sr_prompt = prompt, sr_thinking = thinking\<rparr>])
    \<and> ra_run_id a = run_id \<and> ra_root a = root \<and> ra_events a = [] \<and> ra_validator a = appender_start
    \<and> ra_open a \<and> \<not> ra_finalized a"
  using assms
  by (auto simp: start_run_to_session_def ensure_session_is_appendable_def write_entry_def
      split: prod.splits sum.splits if_splits)

lemma unfinished_run_unloadable:
  assumes "load_entries root log = Inr l" and "run_id \<notin> rr_run_id ` set (lo_runs l)"
    and "run_steps (validate_run_event_incremental run_id) appender_start events = Inr v"
  shows "load_entries root (log @ [Run_entry \<lparr>sr_run_id = run_id, sr_prompt = prompt, sr_thinking = thinking\<rparr>]
      @ map (\<lambda>e. Event_entry \<lparr>se_run_id = run_id, se_event = e\<rparr>) events) = Inl Incomplete_run"
proof -
  obtain s h where s: "run_steps (load_step root) load_start log = Inr s" and rest: "resting root s"
    and h: "ls_header s = Some h" and l: "l = loaded_of s h"
    using assms(1) by (rule resting_loaded)
  have new: "run_id \<notin> rr_run_id ` set (ls_runs s)" using assms(2) l by simp
  let ?run = "\<lparr>sr_run_id = run_id, sr_prompt = prompt, sr_thinking = thinking\<rparr>"
  let ?r = "run_record run_id prompt thinking [] []"
  let ?s1 = "s\<lparr>ls_line := Suc (ls_line s), ls_current := Some ?r, ls_known := insert run_id (ls_known s)\<rparr>"
  have 1: "load_step root s (Run_entry ?run) = Inr ?s1"
    using started_run [OF rest, of ?run] new by (simp add: run_record_def)
  have 2: "run_steps (load_step root) ?s1 (map (\<lambda>e. Event_entry \<lparr>se_run_id = run_id, se_event = e\<rparr>) events)
      = Inr (?s1\<lparr>ls_line := ls_line ?s1 + length events,
                ls_current := Some (run_record run_id prompt thinking [] events)\<rparr>)"
    using loaded_events [of ?s1 ?r events v root] h assms(3) by (simp add: run_record_def)
  show ?thesis
    unfolding load_entries_def run_steps_append s res_bind.simps append.simps run_steps.simps 1 2
    using h by (simp add: load_finish_def)
qed

text \<open>
  A run that cannot be closed takes its session with it. When \<open>append_run_to_session\<close> reports
  that the finished run is not valid (for example, that a tool call has no return), the run entry
  and the events it has already written stay in the log, and the session cannot be loaded any more.
\<close>

theorem rejected_run_strands_session:
  assumes "sfl_log f = Some log" and "load_entries root log = Inr l"
    and "append_run_to_session root shell sid now prompt thinking events c f = (f', Inl (Bad_final_run x))"
    and "event_run_id (hd events) \<notin> rr_run_id ` set (lo_runs l)"
  shows "load_log root f' = Inl (Log_unreadable Incomplete_run)"
proof -
  let ?id = "event_run_id (hd events)"
  have no_event: "append_event (f, a) e \<noteq> Inl (Bad_final_run x)" for f a e
    by (auto simp: append_event_def lift_error_def map_sum_def split: sum.splits)
  then have no_events: "append_events es a f \<noteq> (f2, Inl (Bad_final_run x))" for es a f f2
    by (induction es arbitrary: a f) (auto split: sum.splits)
  have no_start: "start_run_to_session root shell sid now ?id prompt thinking f \<noteq> (f1, Inl (Bad_final_run x))" for f1
    using assms(1,2) by (auto simp: start_run_to_session_def ensure_session_is_appendable_def load_log_def
        split: if_splits)
  have "extract_run_id events = Inr ?id"
    using assms(3) by (auto simp: append_run_to_session_def extract_run_id_def split: list.splits if_splits)
  then obtain f1 a f2 a' where
    st: "start_run_to_session root shell sid now ?id prompt thinking f = (f1, Inr a)"
    and ev: "append_events events a f1 = (f2, Inr a')"
    and fin: "snd (finalize c now a' f2) = (f', Inl (Bad_final_run x))"
    using assms(3) no_start no_events
    by (auto simp: append_run_to_session_def split: prod.splits sum.splits)
  note a = started_log [OF st assms(1)]
  from a have l1: "sfl_log f1 = Some (log @ [Run_entry \<lparr>sr_run_id = ?id, sr_prompt = prompt, sr_thinking = thinking\<rparr>])"
    by simp
  note e = appended_events [OF ev l1]
  have "f' = f2"
    using fin e a
    by (auto simp: finalize_def finalize_messages_def finalize_inventory_def finalize_context_def
        finalize_grants_def update_session_metadata_def and_then_def Let_def
        split: sum.splits option.splits if_splits)
  with e a have "sfl_log f' = Some (log @ [Run_entry \<lparr>sr_run_id = ?id, sr_prompt = prompt, sr_thinking = thinking\<rparr>]
      @ map (\<lambda>e. Event_entry \<lparr>se_run_id = ?id, se_event = e\<rparr>) (persisted events))" by simp
  moreover have "run_steps (validate_run_event_incremental ?id) appender_start (persisted events)
      = Inr (ra_validator a')"
    using e a by simp
  ultimately show ?thesis
    using unfinished_run_unloadable [OF assms(2,4)] by (simp add: load_log_def)
qed

text \<open>
  The appender does not look for a run id in the session it appends to. Appending a second run
  under an id the session already has is reported as a success, and the log it leaves cannot be
  loaded.
\<close>

theorem reused_run_id_strands_session:
  assumes "sfl_log f = Some log" and "load_entries root log = Inr l"
    and "append_run_to_session root shell sid now prompt thinking events c f = (f', Inr ())"
    and "event_run_id (hd events) \<in> rr_run_id ` set (lo_runs l)"
  shows "load_log root f' = Inl (Log_unreadable Duplicate_run_id)"
proof -
  obtain s h where s: "run_steps (load_step root) load_start log = Inr s" and rest: "resting root s"
    and h: "ls_header s = Some h" and l: "l = loaded_of s h"
    using assms(2) by (rule resting_loaded)
  have "load_step root s (Run_entry \<lparr>sr_run_id = event_run_id (hd events), sr_prompt = prompt,
      sr_thinking = thinking\<rparr>) = Inl Duplicate_run_id"
    using rest resting_known(1) [OF rest] h assms(4) l
    by (simp add: load_step_def load_body_def load_run_def resting_def)
  with appended_run [OF assms(3,1)] show ?thesis
    by (simp add: load_log_def load_entries_def run_steps_append s run_entries_def)
qed

section \<open>Appending a compaction\<close>

lemma run_index_position:
  "run_index_for_id (loaded_of s h) i = run_position (map rr_run_id (ls_runs s)) i"
proof -
  have "index_where (\<lambda>r. rr_run_id r = i) rs = index_where (\<lambda>r. r = i) (map rr_run_id rs)" for rs
    by (induction rs) auto
  then show ?thesis by (simp add: run_index_for_id_def run_position_def)
qed

definition compaction_added :: "session_compaction_entry \<Rightarrow> loaded_session \<Rightarrow> loaded_session" where
  "compaction_added e l =
     l\<lparr>lo_compactions := lo_compactions l @ [e], lo_latest_turn_context := None\<rparr>"

lemma loaded_compaction:
  assumes "load_entries root log = Inr l"
    and "run_index_for_id l (sc_compacted_through_run_id e) = Some i"
    and "\<forall>c j. latest_compaction l = Some c
        \<and> run_index_for_id l (sc_compacted_through_run_id c) = Some j \<longrightarrow> j \<le> i"
    and "validate_compaction_replacement_messages (sc_replacement_messages e) = Inr ()"
    and "validate_run_messages (sc_replacement_messages e) = Inr ()"
  shows "load_entries root (log @ [Compaction_entry e]) = Inr (compaction_added e l)"
proof -
  obtain s h where s: "run_steps (load_step root) load_start log = Inr s" and rest: "resting root s"
    and h: "ls_header s = Some h" and l: "l = loaded_of s h"
    using assms(1) by (rule resting_loaded)
  have ok: "log_ok root s" and cur: "ls_current s = None" using rest by (simp_all add: resting_def)
  have pos: "run_position (ls_order s) (sc_compacted_through_run_id e) = Some i"
    using assms(2) resting_known(2) [OF rest] by (simp add: l run_index_position)
  have ne: "ls_runs s \<noteq> []"
    using pos resting_known(2) [OF rest] by (auto simp: run_position_def)
  have b: "\<not> int i < ls_boundary s"
  proof (cases "ls_compactions s = []")
    case True
    then show ?thesis using ok by (simp add: log_ok_def boundary_of_def)
  next
    case False
    let ?c = "last (ls_compactions s)"
    have m: "sc_compacted_through_run_id ?c \<in> set (ls_order s)"
      using ok last_in_set [OF False] unfolding log_ok_def compactions_ok_def by blast
    from m have "\<exists>j. run_position (ls_order s) (sc_compacted_through_run_id ?c) = Some j"
      unfolding position_of_member .
    then obtain j where j: "run_position (ls_order s) (sc_compacted_through_run_id ?c) = Some j" ..
    have "latest_compaction l = Some ?c" using False by (simp add: latest_compaction_def l)
    moreover have "run_index_for_id l (sc_compacted_through_run_id ?c) = Some j"
      using j resting_known(2) [OF rest] by (simp add: l run_index_position)
    ultimately have "j \<le> i" using assms(3) by blast
    moreover have "ls_boundary s = int j"
      using ok False j by (simp add: log_ok_def boundary_of_def compaction_position_def)
    ultimately show ?thesis by simp
  qed
  have "load_step root s (Compaction_entry e) = Inr (s\<lparr>ls_line := Suc (ls_line s), ls_boundary := int i,
      ls_compactions := ls_compactions s @ [e], ls_turn_context := None\<rparr>)"
    using h cur ne pos b by (simp add: load_step_def load_body_def load_compaction_def assms(4,5))
  then show ?thesis
    using h cur by (simp add: load_entries_def run_steps_append s load_finish_def l loaded_of_def
        compaction_added_def)
qed

lemma appended_compaction [inversion]:
  assumes "append_compaction_to_session root now uuid r through f = (f', Inr e)"
    and "sfl_log f = Some log" and "load_entries root log = Inr l"
  obtains i where "sfl_log f' = Some (log @ [Compaction_entry e])" and "sc_replacement_messages e = r"
    and "run_index_for_id l (sc_compacted_through_run_id e) = Some i"
    and "\<forall>c j. latest_compaction l = Some c
        \<and> run_index_for_id l (sc_compacted_through_run_id c) = Some j \<longrightarrow> j \<le> i"
    and "validate_compaction_replacement_messages r = Inr ()" and "validate_run_messages r = Inr ()"
  using assms
  by (auto simp: append_compaction_to_session_def load_log_def touch_metadata_def write_entry_def
      update_session_metadata_def Let_def split: if_splits sum.splits option.splits)

text \<open>
  A compaction that is appended is loaded. When \<open>append_compaction_to_session\<close> returns an entry
  for a session that loads, the session still loads, with the same runs, the entry as its latest
  compaction, and no turn context left from before it.
\<close>

theorem appended_compaction_loads:
  assumes "sfl_log f = Some log" and "load_entries root log = Inr l"
    and "append_compaction_to_session root now uuid r through f = (f', Inr e)"
  shows "\<exists>log'. sfl_log f' = Some log' \<and> load_entries root log' = Inr (compaction_added e l)
    \<and> latest_compaction (compaction_added e l) = Some e"
proof -
  obtain i where "sfl_log f' = Some (log @ [Compaction_entry e])" and r: "sc_replacement_messages e = r"
    and i: "run_index_for_id l (sc_compacted_through_run_id e) = Some i"
    and b: "\<forall>c j. latest_compaction l = Some c
        \<and> run_index_for_id l (sc_compacted_through_run_id c) = Some j \<longrightarrow> j \<le> i"
    and v: "validate_compaction_replacement_messages r = Inr ()" "validate_run_messages r = Inr ()"
    using assms(3,1,2) by (rule appended_compaction)
  moreover have "load_entries root (log @ [Compaction_entry e]) = Inr (compaction_added e l)"
    using loaded_compaction [OF assms(2) i b] v r by simp
  ultimately show ?thesis by (auto simp: latest_compaction_def compaction_added_def)
qed

section \<open>Replacements that were built are accepted\<close>

lemma built_messages_valid:
  assumes "build_compaction_replacement_messages messages summary budget = Inr r"
  shows "validate_run_messages r = Inr ()"
proof -
  obtain texts m where m: "build_compaction_summary_message summary = Inr m"
    and r: "r = map (\<lambda>t. Model_request [User_prompt_part (Prompt_text t)] None) texts @ [m]"
    using assms by (rule built_replacement)
  from m obtain t where "m = Model_response [Text_part t]"
    by (auto simp: build_compaction_summary_message_def Let_def split: if_splits)
  then have "message_step [] m = Inr []"
    by (simp add: message_step_def message_part_step_def)
  moreover have "run_steps message_step [] (map (\<lambda>t. Model_request [User_prompt_part (Prompt_text t)] None) texts)
      = Inr []"
    by (induction texts) (simp_all add: message_step_def message_part_step_def)
  ultimately show ?thesis by (simp add: validate_run_messages_def r)
qed

lemma last_run_index:
  assumes "distinct (map rr_run_id rs)" and "rs \<noteq> []"
  shows "index_where (\<lambda>r. rr_run_id r = rr_run_id (last rs)) rs = Some (length rs - 1)"
proof -
  from assms(2) obtain qs r where rs: "rs = qs @ [r]" by (cases rs rule: rev_cases) auto
  with assms(1) have "rr_run_id r \<notin> rr_run_id ` set qs" by simp
  then have "\<forall>q \<in> set qs. rr_run_id q \<noteq> rr_run_id r" by (metis imageI)
  then have "index_where (\<lambda>q. rr_run_id q = rr_run_id r) (qs @ [r]) = Some (length qs)"
    by (induction qs) auto
  then show ?thesis by (simp add: rs)
qed

lemma appendable_replacement:
  assumes "sfl_log f = Some log" and "load_entries root log = Inr l" and "lo_runs l \<noteq> []"
    and "sfl_metadata f \<noteq> None"
    and "build_compaction_replacement_messages messages summary budget = Inr r"
  shows "succeeds (snd (append_compaction_to_session root now uuid r None f))"
proof -
  have d: "distinct (map rr_run_id (lo_runs l))"
    using loaded_consistent [OF assms(2)] by (simp add: session_consistent_def Let_def)
  have i: "run_index_for_id l (rr_run_id (last (lo_runs l))) = Some (length (lo_runs l) - 1)"
    using last_run_index [OF d assms(3)] by (simp add: run_index_for_id_def)
  have v: "validate_compaction_replacement_messages r = Inr ()" "validate_run_messages r = Inr ()"
    using built_replacement_valid(1) [OF assms(5)] built_messages_valid [OF assms(5)] by simp_all
  obtain md where md: "sfl_metadata f = Some md" using assms(4) by auto
  show ?thesis
  proof (cases "latest_compaction l")
    case None
    then show ?thesis
      using assms(1-3) i v md
      by (simp add: append_compaction_to_session_def load_log_def touch_metadata_def and_then_def
          update_session_metadata_def write_entry_def Let_def)
  next
    case (Some c)
    then have "c \<in> set (lo_compactions l)"
      by (auto simp: latest_compaction_def split: if_splits)
    then have "sc_compacted_through_run_id c \<in> rr_run_id ` set (lo_runs l)"
      using loaded_consistent [OF assms(2)] by (simp add: session_consistent_def Let_def)
    then have "run_index_for_id l (sc_compacted_through_run_id c) \<noteq> None"
      by (auto simp: run_index_for_id_def index_where_None)
    then obtain j where j: "run_index_for_id l (sc_compacted_through_run_id c) = Some j" by blast
    then have "\<not> length (lo_runs l) - 1 < j"
      using index_where_Some [of _ "lo_runs l" j] by (fastforce simp: run_index_for_id_def)
    then show ?thesis
      using assms(1-3) i v md Some j
      by (simp add: append_compaction_to_session_def load_log_def touch_metadata_def and_then_def
          update_session_metadata_def write_entry_def Let_def)
  qed
qed

text \<open>
  The replacement history the compactor builds is never rejected. For any session that loads and
  has a run, and any replacement \<open>build_compaction_replacement_messages\<close> returns, whatever the
  messages, the summary and the budget, appending it through the latest run succeeds.
\<close>

theorem built_replacement_is_appendable:
  assumes "sfl_log f = Some log" and "load_entries root log = Inr l" and "lo_runs l \<noteq> []"
    and "sfl_metadata f \<noteq> None"
    and "build_compaction_replacement_messages messages summary budget = Inr r"
  shows "succeeds (snd (append_compaction_to_session root now uuid r None f))"
  using assms by (rule appendable_replacement)

section \<open>Concrete sessions\<close>

definition sample_files :: session_files where
  "sample_files = \<lparr>sfl_log = Some sample_log, sfl_metadata = Some (new_metadata ''s'' 0)\<rparr>"

definition failing_run :: "string \<Rightarrow> run_event list" where
  "failing_run i =
     [Run_started \<lparr>ev_run_id = i\<rparr>,
      Run_failed \<lparr>ev_run_id = i, ev_failure_type = [69], ev_failure_message = [69]\<rparr>]"

definition closing_with :: "model_message list \<Rightarrow> run_closing" where
  "closing_with messages =
     \<lparr>rc_messages = messages, rc_inventory = None, rc_context = None, rc_grants = None\<rparr>"

definition unanswered_call :: "model_message list" where
  "unanswered_call = [Model_response [Tool_call_part ''read'' ''c1'' No_payload]]"

lemma sample_started:
  assumes "i \<noteq> []"
  shows "\<exists>log a. start_run_to_session ''/w'' Posix ''s'' 7 i [66] None sample_files
    = (sample_files\<lparr>sfl_log := Some log\<rparr>, Inr a)
    \<and> a = \<lparr>ra_root = ''/w'', ra_shell = Posix, ra_run_id = i, ra_events = [], ra_finalized = False,
           ra_open = True, ra_validator = appender_start\<rparr>"
  using sample_loads
  by (auto simp: start_run_to_session_def ensure_session_is_appendable_def load_log_def sample_files_def
      write_entry_def)

lemma failing_run_appended:
  assumes "ra_run_id a = i" and "\<not> ra_finalized a" and "ra_open a" and "ra_validator a = appender_start"
  shows "\<exists>f' v. append_events (failing_run i) a f = (f', Inr (a\<lparr>ra_validator := v,
      ra_events := ra_events a @ failing_run i\<rparr>)) \<and> sfl_metadata f' = sfl_metadata f"
  using assms
  by (simp add: failing_run_def append_event_def validate_run_event_incremental_def appender_start_def
      write_entry_def Let_def) blast

lemma sample_run_appended:
  assumes "i \<noteq> []"
  shows "\<exists>f'. append_run_to_session ''/w'' Posix ''s'' 7 [66] None (failing_run i) (closing_with ms) sample_files
    = (f', case validate_run_messages ms of Inl e \<Rightarrow> Inl (Bad_final_run (Bad_messages e)) | Inr _ \<Rightarrow> Inr ())"
proof -
  have x: "extract_run_id (failing_run i) = Inr i"
    using assms by (simp add: extract_run_id_def failing_run_def)
  obtain log a where s: "start_run_to_session ''/w'' Posix ''s'' 7 i [66] None sample_files
      = (sample_files\<lparr>sfl_log := Some log\<rparr>, Inr a)"
    and a: "a = \<lparr>ra_root = ''/w'', ra_shell = Posix, ra_run_id = i, ra_events = [], ra_finalized = False,
           ra_open = True, ra_validator = appender_start\<rparr>"
    using sample_started [OF assms] by blast
  obtain f2 v where e: "append_events (failing_run i) a (sample_files\<lparr>sfl_log := Some log\<rparr>)
      = (f2, Inr (a\<lparr>ra_validator := v, ra_events := failing_run i\<rparr>))"
    and m: "sfl_metadata f2 = Some (new_metadata ''s'' 0)"
    using failing_run_appended [of a i "sample_files\<lparr>sfl_log := Some log\<rparr>"]
    by (auto simp: a sample_files_def)
  have v: "validate_run_events i (failing_run i) True = Inr ()"
    by (simp add: validate_run_events_def failing_run_def batch_event_step_def batch_start_def Let_def
        ensure_def)
  show ?thesis
    using m
    by (cases "validate_run_messages ms")
      (simp_all add: append_run_to_session_def x s [unfolded a] e [unfolded a] finalize_def Let_def closing_with_def finalize_messages_def
        finalize_inventory_def finalize_context_def finalize_grants_def validate_run_record_def v
        and_then_def update_session_metadata_def write_entry_def)
qed


theorem rejected_run_strands_session_witness:
  "\<exists>f'. append_run_to_session ''/w'' Posix ''s'' 7 [66] None (failing_run ''r2'') (closing_with unanswered_call)
       sample_files = (f', Inl (Bad_final_run (Bad_messages Message_calls_unresolved)))
     \<and> load_log ''/w'' f' = Inl (Log_unreadable Incomplete_run)"
proof -
  obtain l where l: "load_entries ''/w'' sample_log = Inr l" and r: "lo_runs l = [sample_run_record]"
    using sample_loads by blast
  have "validate_run_messages unanswered_call = Inl Message_calls_unresolved"
    by (simp add: validate_run_messages_def unanswered_call_def message_step_def message_part_step_def
        ensure_def)
  then obtain f' where a: "append_run_to_session ''/w'' Posix ''s'' 7 [66] None (failing_run ''r2'')
      (closing_with unanswered_call) sample_files = (f', Inl (Bad_final_run (Bad_messages Message_calls_unresolved)))"
    using sample_run_appended [of "''r2''" unanswered_call] by auto
  have f: "sfl_log sample_files = Some sample_log" by (simp add: sample_files_def)
  have "event_run_id (hd (failing_run ''r2'')) \<notin> rr_run_id ` set (lo_runs l)"
    by (simp add: r sample_run_record_def failing_run_def)
  from rejected_run_strands_session [OF f l a this] a show ?thesis by blast
qed

theorem reused_run_id_strands_session_witness:
  "\<exists>f'. append_run_to_session ''/w'' Posix ''s'' 7 [66] None (failing_run ''r1'') (closing_with [])
       sample_files = (f', Inr ())
     \<and> load_log ''/w'' f' = Inl (Log_unreadable Duplicate_run_id)"
proof -
  obtain l where l: "load_entries ''/w'' sample_log = Inr l" and r: "lo_runs l = [sample_run_record]"
    using sample_loads by blast
  obtain f' where a: "append_run_to_session ''/w'' Posix ''s'' 7 [66] None (failing_run ''r1'')
      (closing_with []) sample_files = (f', Inr ())"
    using sample_run_appended [of "''r1''" "[]"] by (auto simp: validate_run_messages_def)
  have f: "sfl_log sample_files = Some sample_log" by (simp add: sample_files_def)
  have "event_run_id (hd (failing_run ''r1'')) \<in> rr_run_id ` set (lo_runs l)"
    by (simp add: r sample_run_record_def failing_run_def)
  from reused_run_id_strands_session [OF f l a this] a show ?thesis by blast
qed

lemma sample_replacement:
  "build_compaction_replacement_messages [] [65] 0
    = Inr [Model_response [Text_part (compaction_summary_header @ [65])]]"
proof -
  have "strip [65] = [65]"
    by (intro strip_stripped) (simp add: stripped_def py_isspace_def)
  then show ?thesis
    by (simp add: build_compaction_replacement_messages_def select_recent_user_message_tail_def
        build_compaction_summary_message_def)
qed

lemma sample_appendable:
  obtains l where "sfl_log sample_files = Some sample_log" and "load_entries ''/w'' sample_log = Inr l"
    and "lo_runs l = [sample_run_record]" and "lo_runs l \<noteq> []" and "sfl_metadata sample_files \<noteq> None"
  using sample_loads by (auto simp: sample_files_def)

theorem appended_compaction_loads_witness:
  "\<exists>r f' e log' l. append_compaction_to_session ''/w'' 7 ''c1'' r None sample_files = (f', Inr e)
     \<and> sfl_log f' = Some log' \<and> load_entries ''/w'' log' = Inr l \<and> latest_compaction l = Some e"
proof -
  obtain l where f: "sfl_log sample_files = Some sample_log" and l: "load_entries ''/w'' sample_log = Inr l"
    and r: "lo_runs l \<noteq> []" and m: "sfl_metadata sample_files \<noteq> None"
    by (rule sample_appendable)
  obtain f' e where a: "append_compaction_to_session ''/w'' 7 ''c1''
      [Model_response [Text_part (compaction_summary_header @ [65])]] None sample_files = (f', Inr e)"
    using appendable_replacement [OF f l r m sample_replacement, of 7 "''c1''"]
    by (auto simp: succeeds_iff prod_eq_iff)
  from appended_compaction_loads [OF f l a] a show ?thesis by blast
qed

theorem built_replacement_is_appendable_witness:
  "\<exists>r. build_compaction_replacement_messages [] [65] 0 = Inr r
     \<and> succeeds (snd (append_compaction_to_session ''/w'' 7 ''c1'' r None sample_files))"
proof -
  obtain l where f: "sfl_log sample_files = Some sample_log" and l: "load_entries ''/w'' sample_log = Inr l"
    and r: "lo_runs l \<noteq> []" and m: "sfl_metadata sample_files \<noteq> None"
    by (rule sample_appendable)
  from built_replacement_is_appendable [OF f l r m sample_replacement] sample_replacement show ?thesis by auto
qed

end
