(* ===== verification/Truncation.thy ===== *)
theory Truncation
  imports Py_Text Prelude
begin

text \<open>
  \<open>tools/truncation.py\<close>: the windows that bound what a tool shows of a long output, by lines and by
  UTF-8 bytes, from the head, from the tail and item by item. All three are the longest part that
  fits; the locale \<open>budget\<close> says why there is exactly one.
\<close>

section \<open>The longest part that fits\<close>

definition longest_fit :: "('a list \<Rightarrow> bool) \<Rightarrow> 'a list \<Rightarrow> nat \<Rightarrow> bool" where
  "longest_fit fits xs k \<longleftrightarrow>
     k \<le> length xs \<and> fits (take k xs) \<and> (k < length xs \<longrightarrow> \<not> fits (take (Suc k) xs))"

locale budget =
  fixes fits :: "'a list \<Rightarrow> bool"
  assumes fits_shorter: "fits (xs @ ys) \<Longrightarrow> fits xs"
begin

lemma fits_take: "fits (take j xs) \<Longrightarrow> i \<le> j \<Longrightarrow> fits (take i xs)"
  using fits_shorter [of "take i xs" "drop i (take j xs)"]
  by (metis append_take_drop_id min.absorb1 take_take)

lemma longest_greatest: "longest_fit fits xs k \<Longrightarrow> fits (take j xs) \<Longrightarrow> j \<le> length xs \<Longrightarrow> j \<le> k"
  by (rule ccontr) (auto simp: longest_fit_def dest: fits_take [of j xs "Suc k"])

lemma longest_unique: "longest_fit fits xs j \<Longrightarrow> longest_fit fits xs k \<Longrightarrow> j = k"
  by (meson antisym longest_fit_def longest_greatest)

lemma longest_all: "fits xs \<Longrightarrow> longest_fit fits xs k \<longleftrightarrow> k = length xs"
  using longest_greatest [of xs k "length xs"] by (auto simp: longest_fit_def)

end

text \<open>Lines fit when there are few enough of them and of their bytes.\<close>

definition lines_fit :: "int \<Rightarrow> int \<Rightarrow> ustr list \<Rightarrow> bool" where
  "lines_fit max_lines max_bytes ls \<longleftrightarrow>
     int (length ls) \<le> max_lines \<and> int (utf8_len (concat ls)) \<le> max_bytes"

text \<open>An item takes one byte more, for the line break after it.\<close>

definition items_fit :: "int \<Rightarrow> int \<Rightarrow> ustr list \<Rightarrow> bool" where
  "items_fit item_limit max_bytes is \<longleftrightarrow>
     int (length is) \<le> item_limit \<and> int (\<Sum>i\<leftarrow>is. utf8_len i + 1) \<le> max_bytes"

definition chars_fit :: "int \<Rightarrow> ustr \<Rightarrow> bool" where
  "chars_fit max_bytes s \<longleftrightarrow> int (utf8_len s) \<le> max_bytes"

interpretation line_budget: budget "lines_fit max_lines max_bytes" for max_lines max_bytes
  by unfold_locales (auto simp: lines_fit_def)

interpretation item_budget: budget "items_fit item_limit max_bytes" for item_limit max_bytes
  by unfold_locales (auto simp: items_fit_def)

interpretation char_budget: budget "chars_fit max_bytes" for max_bytes
  by unfold_locales (auto simp: chars_fit_def)

section \<open>Notes and heads\<close>

definition append_tool_note :: "ustr \<Rightarrow> ustr \<Rightarrow> ustr" where
  "append_tool_note s note =
     (if s = [] then note else rev (dropWhile (\<lambda>c. c = 10) (rev s)) @ [10, 10] @ note)"

record head_line_window =
  hlw_text :: ustr
  hlw_line_count :: nat
  hlw_truncated :: bool
  hlw_first_line_exceeds_limit :: bool

fun head_line_loop :: "int \<Rightarrow> int \<Rightarrow> ustr list \<Rightarrow> nat \<Rightarrow> ustr list \<Rightarrow> head_line_window" where
  "head_line_loop max_lines max_bytes out used [] =
     \<lparr>hlw_text = concat out, hlw_line_count = length out, hlw_truncated = False,
      hlw_first_line_exceeds_limit = False\<rparr>"
| "head_line_loop max_lines max_bytes out used (line # lines) =
     (if max_lines \<le> int (length out) then
        \<lparr>hlw_text = concat out, hlw_line_count = length out, hlw_truncated = True,
         hlw_first_line_exceeds_limit = False\<rparr>
      else if out = [] \<and> max_bytes < int (utf8_len line) then
        \<lparr>hlw_text = [], hlw_line_count = 0, hlw_truncated = True, hlw_first_line_exceeds_limit = True\<rparr>
      else if max_bytes < int (used + utf8_len line) then
        \<lparr>hlw_text = concat out, hlw_line_count = length out, hlw_truncated = True,
         hlw_first_line_exceeds_limit = False\<rparr>
      else head_line_loop max_lines max_bytes (out @ [line]) (used + utf8_len line) lines)"

definition truncate_head_line_window :: "ustr list \<Rightarrow> int \<Rightarrow> int \<Rightarrow> head_line_window" where
  "truncate_head_line_window lines max_lines max_bytes = head_line_loop max_lines max_bytes [] 0 lines"

section \<open>Bounded items\<close>

record bounded_items =
  bi_items :: "ustr list"
  bi_limit_hit :: bool
  bi_byte_limit_hit :: bool

fun bounded_items_loop :: "int \<Rightarrow> int \<Rightarrow> ustr list \<Rightarrow> nat \<Rightarrow> ustr list \<Rightarrow> bounded_items" where
  "bounded_items_loop item_limit max_bytes out used [] =
     \<lparr>bi_items = out, bi_limit_hit = False, bi_byte_limit_hit = False\<rparr>"
| "bounded_items_loop item_limit max_bytes out used (item # items) =
     (if item_limit \<le> int (length out) then
        \<lparr>bi_items = out, bi_limit_hit = True, bi_byte_limit_hit = False\<rparr>
      else if max_bytes < int (used + utf8_len item + 1) then
        \<lparr>bi_items = out, bi_limit_hit = False, bi_byte_limit_hit = True\<rparr>
      else bounded_items_loop item_limit max_bytes (out @ [item]) (used + utf8_len item + 1) items)"

definition collect_bounded_items :: "ustr list \<Rightarrow> int \<Rightarrow> int \<Rightarrow> bounded_items" where
  "collect_bounded_items items item_limit max_bytes = bounded_items_loop item_limit max_bytes [] 0 items"

section \<open>Tails\<close>

fun last_bytes_loop :: "int \<Rightarrow> ustr \<Rightarrow> nat \<Rightarrow> ustr \<Rightarrow> ustr" where
  "last_bytes_loop max_bytes chars used [] = chars"
| "last_bytes_loop max_bytes chars used (c # cs) =
     (if max_bytes < int (used + utf8_width c) then chars
      else last_bytes_loop max_bytes (chars @ [c]) (used + utf8_width c) cs)"

definition truncate_last_bytes :: "ustr \<Rightarrow> int \<Rightarrow> ustr" where
  "truncate_last_bytes s max_bytes = rev (last_bytes_loop max_bytes [] 0 (rev s))"

datatype truncation_cause = By_lines | By_bytes | By_line_bytes

record tail_text_window =
  ttw_text :: ustr
  ttw_start_line :: nat
  ttw_end_line :: nat
  ttw_total_lines :: nat
  ttw_truncated_by :: "truncation_cause option"
  ttw_last_line_partial :: bool

text \<open>The collected lines, newest first, whether the last line was cut, and why the loop stopped.\<close>

fun tail_line_loop ::
    "int \<Rightarrow> int \<Rightarrow> ustr list \<Rightarrow> nat \<Rightarrow> ustr list \<Rightarrow> ustr list \<times> bool \<times> truncation_cause" where
  "tail_line_loop max_lines max_bytes out used [] = (out, False, By_lines)"
| "tail_line_loop max_lines max_bytes out used (line # lines) =
     (if max_lines \<le> int (length out) then (out, False, By_lines)
      else if out = [] \<and> max_bytes < int (utf8_len line) then
        ([truncate_last_bytes line max_bytes], True, By_line_bytes)
      else if max_bytes < int (used + utf8_len line) then (out, False, By_bytes)
      else tail_line_loop max_lines max_bytes (out @ [line]) (used + utf8_len line) lines)"

definition truncate_tail_text :: "ustr \<Rightarrow> int \<Rightarrow> int \<Rightarrow> tail_text_window" where
  "truncate_tail_text s max_lines max_bytes =
     (let lines = splitlines_keep s in
      if int (length lines) \<le> max_lines \<and> int (utf8_len s) \<le> max_bytes then
        \<lparr>ttw_text = s, ttw_start_line = (if lines \<noteq> [] then 1 else 0), ttw_end_line = length lines,
         ttw_total_lines = length lines, ttw_truncated_by = None, ttw_last_line_partial = False\<rparr>
      else
        (let (tail, partial, cause) = tail_line_loop max_lines max_bytes [] 0 (rev lines);
             displayed = rev tail
         in \<lparr>ttw_text = concat displayed,
             ttw_start_line = (if displayed \<noteq> [] then length lines - length displayed + 1 else 0),
             ttw_end_line = length lines, ttw_total_lines = length lines,
             ttw_truncated_by = Some cause, ttw_last_line_partial = partial\<rparr>))"

section \<open>Each window is the longest that fits\<close>

lemma longest_fit_cons:
  "longest_fit (\<lambda>xs. fits (out @ xs)) (x # xs) (Suc k)
    \<longleftrightarrow> fits (out @ x # take k xs) \<and> k \<le> length xs \<and> (k < length xs \<longrightarrow> \<not> fits (out @ x # take (Suc k) xs))"
  by (auto simp: longest_fit_def)

lemma head_loop_longest:
  assumes "lines_fit max_lines max_bytes out" and "used = utf8_len (concat out)"
  shows "\<exists>k. longest_fit (\<lambda>ls. lines_fit max_lines max_bytes (out @ ls)) lines k
    \<and> (let w = head_line_loop max_lines max_bytes out used lines in
        hlw_text w = concat (out @ take k lines) \<and> hlw_line_count w = length out + k
        \<and> hlw_truncated w = (k < length lines)
        \<and> hlw_first_line_exceeds_limit w
            = (out = [] \<and> lines \<noteq> [] \<and> 0 < max_lines \<and> max_bytes < int (utf8_len (hd lines))))"
  using assms
proof (induction lines arbitrary: out used)
  case Nil
  then show ?case by (intro exI [of _ 0]) (simp add: longest_fit_def)
next
  case (Cons line lines)
  show ?case
  proof (cases "max_lines \<le> int (length out) \<or> max_bytes < int (used + utf8_len line)")
    case True
    with Cons.prems show ?thesis
      by (intro exI [of _ 0]) (auto simp: longest_fit_def lines_fit_def)
  next
    case False
    with Cons.prems have "lines_fit max_lines max_bytes (out @ [line])"
      and "used + utf8_len line = utf8_len (concat (out @ [line]))" by (auto simp: lines_fit_def)
    from Cons.IH [OF this] obtain k where
      k: "longest_fit (\<lambda>ls. lines_fit max_lines max_bytes ((out @ [line]) @ ls)) lines k"
      and w: "let w = head_line_loop max_lines max_bytes (out @ [line]) (used + utf8_len line) lines in
        hlw_text w = concat ((out @ [line]) @ take k lines) \<and> hlw_line_count w = length (out @ [line]) + k
        \<and> hlw_truncated w = (k < length lines) \<and> \<not> hlw_first_line_exceeds_limit w"
      by auto
    from k have "longest_fit (\<lambda>ls. lines_fit max_lines max_bytes (out @ ls)) (line # lines) (Suc k)"
      by (simp add: longest_fit_cons) (simp add: longest_fit_def)
    with w False Cons.prems show ?thesis
      by (intro exI [of _ "Suc k"]) (auto simp: Let_def)
  qed
qed

lemma items_loop_longest:
  assumes "items_fit item_limit max_bytes out" and "used = (\<Sum>i\<leftarrow>out. utf8_len i + 1)"
  shows "\<exists>k. longest_fit (\<lambda>is. items_fit item_limit max_bytes (out @ is)) items k
    \<and> (let b = bounded_items_loop item_limit max_bytes out used items in
        bi_items b = out @ take k items
        \<and> bi_limit_hit b = (k < length items \<and> item_limit \<le> int (length (bi_items b)))
        \<and> bi_byte_limit_hit b = (k < length items \<and> \<not> bi_limit_hit b))"
  using assms
proof (induction items arbitrary: out used)
  case Nil
  then show ?case by (intro exI [of _ 0]) (simp add: longest_fit_def)
next
  case (Cons item items)
  show ?case
  proof (cases "item_limit \<le> int (length out) \<or> max_bytes < int (used + utf8_len item + 1)")
    case True
    with Cons.prems show ?thesis
      by (intro exI [of _ 0]) (auto simp: longest_fit_def items_fit_def)
  next
    case False
    with Cons.prems have "items_fit item_limit max_bytes (out @ [item])"
      and "used + utf8_len item + 1 = (\<Sum>i\<leftarrow>out @ [item]. utf8_len i + 1)" by (auto simp: items_fit_def)
    from Cons.IH [OF this] obtain k where
      k: "longest_fit (\<lambda>is. items_fit item_limit max_bytes ((out @ [item]) @ is)) items k"
      and b: "let b = bounded_items_loop item_limit max_bytes (out @ [item]) (used + utf8_len item + 1) items in
        bi_items b = (out @ [item]) @ take k items
        \<and> bi_limit_hit b = (k < length items \<and> item_limit \<le> int (length (bi_items b)))
        \<and> bi_byte_limit_hit b = (k < length items \<and> \<not> bi_limit_hit b)"
      by auto
    from k have "longest_fit (\<lambda>is. items_fit item_limit max_bytes (out @ is)) (item # items) (Suc k)"
      by (simp add: longest_fit_cons) (simp add: longest_fit_def)
    with b False show ?thesis
      by (intro exI [of _ "Suc k"]) (simp add: Let_def)
  qed
qed

lemma last_bytes_longest:
  assumes "chars_fit max_bytes chars" and "used = utf8_len chars"
  shows "\<exists>k. longest_fit (\<lambda>cs. chars_fit max_bytes (chars @ cs)) cs k
    \<and> last_bytes_loop max_bytes chars used cs = chars @ take k cs"
  using assms
proof (induction cs arbitrary: chars used)
  case Nil
  then show ?case by (intro exI [of _ 0]) (simp add: longest_fit_def)
next
  case (Cons c cs)
  show ?case
  proof (cases "max_bytes < int (used + utf8_width c)")
    case True
    with Cons.prems show ?thesis
      by (intro exI [of _ 0]) (auto simp: longest_fit_def chars_fit_def)
  next
    case False
    with Cons.prems have "chars_fit max_bytes (chars @ [c])"
      and "used + utf8_width c = utf8_len (chars @ [c])" by (auto simp: chars_fit_def)
    from Cons.IH [OF this] obtain k where
      k: "longest_fit (\<lambda>cs. chars_fit max_bytes ((chars @ [c]) @ cs)) cs k"
      and l: "last_bytes_loop max_bytes (chars @ [c]) (used + utf8_width c) cs = (chars @ [c]) @ take k cs"
      by auto
    from k have "longest_fit (\<lambda>cs. chars_fit max_bytes (chars @ cs)) (c # cs) (Suc k)"
      by (simp add: longest_fit_cons) (simp add: longest_fit_def)
    with l False show ?thesis by (intro exI [of _ "Suc k"]) simp
  qed
qed

lemma last_bytes_suffix:
  assumes "0 \<le> max_bytes"
  shows "\<exists>k. longest_fit (chars_fit max_bytes) (rev s) k
    \<and> truncate_last_bytes s max_bytes = drop (length s - k) s"
proof -
  have "chars_fit max_bytes []" using assms by (simp add: chars_fit_def)
  from last_bytes_longest [OF this, of 0 "rev s"] obtain k where
    "longest_fit (chars_fit max_bytes) (rev s) k" and "last_bytes_loop max_bytes [] 0 (rev s) = take k (rev s)"
    by auto
  then show ?thesis by (auto simp: truncate_last_bytes_def rev_take intro!: exI [of _ k])
qed

lemma tail_loop_longest:
  assumes "lines_fit max_lines max_bytes out" and "used = utf8_len (concat out)"
  shows "if out = [] \<and> lines \<noteq> [] \<and> 0 < max_lines \<and> max_bytes < int (utf8_len (hd lines))
    then tail_line_loop max_lines max_bytes out used lines
      = ([truncate_last_bytes (hd lines) max_bytes], True, By_line_bytes)
    else \<exists>k. longest_fit (\<lambda>ls. lines_fit max_lines max_bytes (out @ ls)) lines k
      \<and> tail_line_loop max_lines max_bytes out used lines
        = (out @ take k lines, False,
           if k < length lines \<and> int (length out + k) < max_lines then By_bytes else By_lines)"
  using assms
proof (induction lines arbitrary: out used)
  case Nil
  then show ?case by (simp add: longest_fit_def)
next
  case (Cons line lines)
  show ?case
  proof (cases "max_lines \<le> int (length out) \<or> max_bytes < int (used + utf8_len line)")
    case True
    with Cons.prems show ?thesis
      by (auto simp: longest_fit_def lines_fit_def intro!: exI [of _ 0])
  next
    case False
    with Cons.prems have "lines_fit max_lines max_bytes (out @ [line])"
      and "used + utf8_len line = utf8_len (concat (out @ [line]))" by (auto simp: lines_fit_def)
    from Cons.IH [OF this] obtain k where
      k: "longest_fit (\<lambda>ls. lines_fit max_lines max_bytes ((out @ [line]) @ ls)) lines k"
      and t: "tail_line_loop max_lines max_bytes (out @ [line]) (used + utf8_len line) lines
        = ((out @ [line]) @ take k lines, False,
           if k < length lines \<and> int (length (out @ [line]) + k) < max_lines then By_bytes else By_lines)"
      by auto
    from k have "longest_fit (\<lambda>ls. lines_fit max_lines max_bytes (out @ ls)) (line # lines) (Suc k)"
      by (simp add: longest_fit_cons) (simp add: longest_fit_def)
    with t False Cons.prems show ?thesis
      by (auto intro!: exI [of _ "Suc k"])
  qed
qed

lemma concat_rev_take: "concat (rev (take k (rev ls))) = concat (drop (length ls - k) ls)"
  by (simp add: rev_take)

text \<open>
  The head window is the longest run of whole lines, from the first, that fits both limits; it
  says truncated exactly when a line is left out, and says that the first line exceeds the limit
  exactly when that line alone has too many bytes.
\<close>

theorem head_window_is_longest:
  assumes "0 \<le> max_lines" and "0 \<le> max_bytes"
  shows "\<exists>k. longest_fit (lines_fit max_lines max_bytes) lines k
    \<and> hlw_text (truncate_head_line_window lines max_lines max_bytes) = concat (take k lines)
    \<and> hlw_line_count (truncate_head_line_window lines max_lines max_bytes) = k
    \<and> hlw_truncated (truncate_head_line_window lines max_lines max_bytes) = (k < length lines)
    \<and> hlw_first_line_exceeds_limit (truncate_head_line_window lines max_lines max_bytes)
      = (lines \<noteq> [] \<and> 0 < max_lines \<and> max_bytes < int (utf8_len (hd lines)))"
proof -
  have "lines_fit max_lines max_bytes []" using assms by (simp add: lines_fit_def)
  from head_loop_longest [OF this, of 0 lines] show ?thesis
    by (auto simp: truncate_head_line_window_def Let_def)
qed

theorem head_window_is_longest_witness:
  "(0 :: int) \<le> 2 \<and> (\<exists>k. longest_fit (lines_fit 2 100) [[65, 10], [66, 10], [67]] k
     \<and> hlw_text (truncate_head_line_window [[65, 10], [66, 10], [67]] 2 100) = [65, 10, 66, 10])"
proof -
  have "hlw_text (truncate_head_line_window [[65, 10], [66, 10], [67]] 2 100) = [65, 10, 66, 10]"
    by (simp add: truncate_head_line_window_def utf8_width_def)
  with head_window_is_longest [of 2 100 "[[65, 10], [66, 10], [67]]"] show ?thesis by auto
qed

text \<open>
  The items shown are the longest run from the first that fits the item limit and the byte limit,
  and when one is left out exactly one flag says which limit stopped it.
\<close>

theorem bounded_items_are_longest:
  assumes "0 \<le> item_limit" and "0 \<le> max_bytes"
  shows "\<exists>k. longest_fit (items_fit item_limit max_bytes) items k
    \<and> bi_items (collect_bounded_items items item_limit max_bytes) = take k items
    \<and> bi_limit_hit (collect_bounded_items items item_limit max_bytes)
      = (k < length items \<and> item_limit = int k)
    \<and> bi_byte_limit_hit (collect_bounded_items items item_limit max_bytes)
      = (k < length items \<and> int k < item_limit)"
proof -
  have "items_fit item_limit max_bytes []" using assms by (simp add: items_fit_def)
  from items_loop_longest [OF this, of 0 items] obtain k where
    k: "longest_fit (items_fit item_limit max_bytes) items k"
    and b: "let b = collect_bounded_items items item_limit max_bytes in bi_items b = take k items
      \<and> bi_limit_hit b = (k < length items \<and> item_limit \<le> int (length (bi_items b)))
      \<and> bi_byte_limit_hit b = (k < length items \<and> \<not> bi_limit_hit b)"
    by (auto simp: collect_bounded_items_def)
  moreover from k have "int k \<le> item_limit" "k \<le> length items"
    by (auto simp: longest_fit_def items_fit_def)
  ultimately show ?thesis by (intro exI [of _ k]) (auto simp: Let_def)
qed

theorem bounded_items_are_longest_witness:
  "(0 :: int) \<le> 5 \<and> (\<exists>k. longest_fit (items_fit 5 5) [[65], [66, 67], [68]] k
     \<and> bi_items (collect_bounded_items [[65], [66, 67], [68]] 5 5) = take k [[65], [66, 67], [68]]
     \<and> bi_byte_limit_hit (collect_bounded_items [[65], [66, 67], [68]] 5 5))"
proof -
  have "bi_byte_limit_hit (collect_bounded_items [[65], [66, 67], [68]] 5 5)"
    by (simp add: collect_bounded_items_def utf8_width_def)
  moreover have "(0 :: int) \<le> 5" by simp
  ultimately show ?thesis
    using bounded_items_are_longest [of 5 5 "[[65], [66, 67], [68]]"] by blast
qed

lemma splitlines_keep_Nil [simp]: "splitlines_keep s = [] \<longleftrightarrow> s = []"
  by (metis concat.simps(1) concat_splitlines_keep splitlines_keep.simps(1))

lemma lines_fit_split:
  "lines_fit max_lines max_bytes (splitlines_keep s)
    \<longleftrightarrow> int (length (splitlines_keep s)) \<le> max_lines \<and> int (utf8_len s) \<le> max_bytes"
  by (simp add: lines_fit_def)

lemma lines_fit_rev [simp]: "lines_fit max_lines max_bytes (rev ls) = lines_fit max_lines max_bytes ls"
  by (simp add: lines_fit_def utf8_len_concat rev_map [symmetric])

lemma drop_from_last:
  assumes "ls \<noteq> []" and "j \<le> length (last ls)"
  shows "drop (length (concat ls) - j) (concat ls) = drop (length (last ls) - j) (last ls)"
proof -
  from assms(1) obtain ks l where "ls = ks @ [l]" by (cases ls rule: rev_cases) auto
  with assms(2) show ?thesis by simp
qed

lemma drop_whole_lines:
  "drop (length (concat (take i ls))) (concat ls) = concat (drop i ls)"
proof -
  have "concat ls = concat (take i ls) @ concat (drop i ls)"
    by (metis append_take_drop_id concat_append)
  then show ?thesis by simp
qed

text \<open>
  The tail window is the end of the text. It never has more bytes than allowed; it consists of the
  longest run of whole lines up to the last that fits both limits, numbered from 1, unless the
  last line alone has too many bytes: then it is the longest end of that line that fits, marked as
  partial. A text that fits is shown as it is, and only then nothing is marked as truncated.
\<close>

theorem tail_window_is_longest:
  assumes "0 \<le> max_lines" and "0 \<le> max_bytes"
  shows "\<exists>k. ttw_text (truncate_tail_text s max_lines max_bytes) = drop k s
    \<and> int (utf8_len (ttw_text (truncate_tail_text s max_lines max_bytes))) \<le> max_bytes
    \<and> ttw_end_line (truncate_tail_text s max_lines max_bytes) = length (splitlines_keep s)
    \<and> (ttw_truncated_by (truncate_tail_text s max_lines max_bytes) = None
       \<longleftrightarrow> lines_fit max_lines max_bytes (splitlines_keep s))
    \<and> (if ttw_last_line_partial (truncate_tail_text s max_lines max_bytes)
       then s \<noteq> [] \<and> max_bytes < int (utf8_len (last (splitlines_keep s)))
         \<and> ttw_start_line (truncate_tail_text s max_lines max_bytes) = length (splitlines_keep s)
         \<and> (\<exists>j. longest_fit (chars_fit max_bytes) (rev (last (splitlines_keep s))) j
              \<and> k = length s - j)
       else \<exists>n. longest_fit (lines_fit max_lines max_bytes) (rev (splitlines_keep s)) n
         \<and> drop k s = concat (drop (length (splitlines_keep s) - n) (splitlines_keep s))
         \<and> ttw_start_line (truncate_tail_text s max_lines max_bytes)
           = (if n = 0 then 0 else length (splitlines_keep s) - n + 1))"
proof -
  let ?ls = "splitlines_keep s" and ?w = "truncate_tail_text s max_lines max_bytes"
  have s: "concat ?ls = s" by simp
  consider (fits) "lines_fit max_lines max_bytes ?ls"
    | (partial) "\<not> lines_fit max_lines max_bytes ?ls" "?ls \<noteq> []" "0 < max_lines"
        "max_bytes < int (utf8_len (last ?ls))"
    | (lines) "\<not> lines_fit max_lines max_bytes ?ls"
        "\<not> (?ls \<noteq> [] \<and> 0 < max_lines \<and> max_bytes < int (utf8_len (last ?ls)))"
    by blast
  then show ?thesis
  proof cases
    case fits
    then have "longest_fit (lines_fit max_lines max_bytes) (rev ?ls) (length ?ls)"
      by (simp add: line_budget.longest_all)
    with fits show ?thesis
      by (intro exI [of _ 0]) (auto simp: truncate_tail_text_def lines_fit_split Let_def
          intro!: exI [of _ "length ?ls"])
  next
    case partial
    have "lines_fit max_lines max_bytes []" using assms by (simp add: lines_fit_def)
    from tail_loop_longest [OF this, of 0 "rev ?ls"] partial
    have t: "tail_line_loop max_lines max_bytes [] 0 (rev ?ls)
        = ([truncate_last_bytes (last ?ls) max_bytes], True, By_line_bytes)"
      by (simp add: hd_rev)
    obtain j where j: "longest_fit (chars_fit max_bytes) (rev (last ?ls)) j"
      and d: "truncate_last_bytes (last ?ls) max_bytes = drop (length (last ?ls) - j) (last ?ls)"
      using last_bytes_suffix [OF assms(2)] by blast
    have fit: "int (utf8_len (truncate_last_bytes (last ?ls) max_bytes)) \<le> max_bytes"
    proof -
      have "chars_fit max_bytes (rev (take j (rev (last ?ls))))"
        using j by (simp add: longest_fit_def chars_fit_def)
      then show ?thesis by (simp add: d chars_fit_def rev_take)
    qed
    have "j \<le> length (last ?ls)" using j by (simp add: longest_fit_def)
    from drop_from_last [OF partial(2) this] have "drop (length s - j) s = drop (length (last ?ls) - j) (last ?ls)"
      by (simp only: s)
    with partial t fit j d show ?thesis
      by (intro exI [of _ "length s - j"]) (auto simp: truncate_tail_text_def lines_fit_split Let_def)
  next
    case lines
    have "lines_fit max_lines max_bytes []" using assms by (simp add: lines_fit_def)
    from tail_loop_longest [OF this, of 0 "rev ?ls"] lines
    obtain n cause where n: "longest_fit (lines_fit max_lines max_bytes) (rev ?ls) n"
      and t: "tail_line_loop max_lines max_bytes [] 0 (rev ?ls) = (take n (rev ?ls), False, cause)"
      by (auto simp: hd_rev)
    have le: "n \<le> length ?ls" using n by (simp add: longest_fit_def)
    have w: "ttw_text ?w = concat (drop (length ?ls - n) ?ls)"
      and p: "\<not> ttw_last_line_partial ?w" and e: "ttw_end_line ?w = length ?ls"
      and c: "ttw_truncated_by ?w \<noteq> None"
      and st: "ttw_start_line ?w = (if n = 0 then 0 else length ?ls - n + 1)"
      using lines(1) t le by (auto simp: truncate_tail_text_def lines_fit_split Let_def rev_take)
    have "lines_fit max_lines max_bytes (rev (take n (rev ?ls)))"
      using n by (simp add: longest_fit_def)
    then have "int (utf8_len (concat (drop (length ?ls - n) ?ls))) \<le> max_bytes"
      by (simp add: lines_fit_def rev_take)
    moreover have "drop (length (concat (take (length ?ls - n) ?ls))) s = concat (drop (length ?ls - n) ?ls)"
      using drop_whole_lines [of "length ?ls - n" ?ls] by (simp only: s)
    ultimately show ?thesis
      using lines(1) n w p e c st
      by (intro exI [of _ "length (concat (take (length ?ls - n) ?ls))"]) auto
  qed
qed

theorem tail_window_is_longest_witness:
  "(0 :: int) \<le> 1 \<and> ttw_text (truncate_tail_text [65, 10, 66] 1 10) = [66]
    \<and> (\<exists>k. [66] = drop k [65, 10, 66 :: nat] \<and> int (utf8_len [66]) \<le> 10)"
proof -
  have "ttw_text (truncate_tail_text [65, 10, 66] 1 10) = [66]"
    by (simp add: truncate_tail_text_def line_boundary_def utf8_width_def)
  with tail_window_is_longest [of 1 10 "[65, 10, 66]"] show ?thesis by auto
qed

end
