(* ===== verification/Follow_Up_Queue.thy ===== *)
theory Follow_Up_Queue
  imports Py_Text Prelude "HOL-Library.Multiset" "HOL-Library.Sublist"
begin

text \<open>
  \<open>_FollowUpState\<close> of \<open>rpc/state.py\<close>: the prompts a client queues while a run is active. A prompt for
  \<open>next\<close> waits for the next steer boundary of the run, one for \<open>later\<close> for the end of the run. Every
  operation holds the lock while it changes the state and sends its events after it, so the model
  is a machine whose steps are the operations, each with its reply and the effects it has: the
  queue state shown to the client, the prompts handed to the run, the task cancelled. Tasks, steer
  targets and emitters are known by a number; calling one is an effect.
\<close>

section \<open>State\<close>

datatype queue_mode = Next | Later

record queued_prompt_batch =
  qb_kind :: queue_mode
  qb_prompts :: "ustr list"

text \<open>The payload of a \<open>SessionQueueStateEvent\<close>.\<close>

record queue_view =
  qv_next_prompts :: "ustr list"
  qv_later_prompts :: "ustr list"

record follow_up_state =
  fus_active_sessions :: "string set"
  fus_active_run_tasks :: "string \<rightharpoonup> nat"
  fus_follow_up_queues :: "string \<rightharpoonup> queued_prompt_batch list"
  fus_steer_queues :: "string \<rightharpoonup> ustr list"
  fus_active_steer_targets :: "string \<rightharpoonup> nat"
  fus_queue_event_emitters :: "string \<rightharpoonup> nat"
  fus_submitted_prompt_emitters :: "string \<rightharpoonup> nat"

definition new_follow_up_state :: follow_up_state where
  "new_follow_up_state =
     \<lparr>fus_active_sessions = {}, fus_active_run_tasks = Map.empty, fus_follow_up_queues = Map.empty,
      fus_steer_queues = Map.empty, fus_active_steer_targets = Map.empty,
      fus_queue_event_emitters = Map.empty, fus_submitted_prompt_emitters = Map.empty\<rparr>"

datatype queue_error =
    Queueing_needs_run | Steer_boundary_active | Steer_boundary_not_active | Interrupt_needs_run

datatype queue_effect =
    Queue_state_sent nat queue_view
  | Prompts_submitted nat queue_mode "ustr list"
  | Prompts_attached nat "ustr list"
  | Run_cancelled nat

datatype queue_reply = Reply_none | Reply_count nat | Reply_batch "ustr list option"

type_synonym queue_outcome =
  "(queue_error, queue_reply) result \<times> queue_effect list \<times> follow_up_state"

definition queued :: "(string \<rightharpoonup> 'a list) \<Rightarrow> string \<Rightarrow> 'a list" where
  "queued queues i = (case queues i of None \<Rightarrow> [] | Some q \<Rightarrow> q)"

definition build_queue_state_event :: "follow_up_state \<Rightarrow> string \<Rightarrow> queue_view" where
  "build_queue_state_event s i =
     \<lparr>qv_next_prompts = queued (fus_steer_queues s) i,
      qv_later_prompts =
        concat (map qb_prompts
          (filter (\<lambda>b. qb_kind b = Later) (queued (fus_follow_up_queues s) i)))\<rparr>"

definition view_empty :: "queue_view \<Rightarrow> bool" where
  "view_empty v \<longleftrightarrow> qv_next_prompts v = [] \<and> qv_later_prompts v = []"

definition empty_view :: queue_view where
  "empty_view = \<lparr>qv_next_prompts = [], qv_later_prompts = []\<rparr>"

text \<open>The event after an operation is sent when there is an emitter and the queues have changed.\<close>

definition send_view :: "follow_up_state \<Rightarrow> string \<Rightarrow> follow_up_state \<Rightarrow> queue_effect list" where
  "send_view s i s' =
     (case fus_queue_event_emitters s' i of
        None \<Rightarrow> []
      | Some m \<Rightarrow>
          if build_queue_state_event s i \<noteq> build_queue_state_event s' i
          then [Queue_state_sent m (build_queue_state_event s' i)] else [])"

section \<open>Operations\<close>

definition activate ::
    "string \<Rightarrow> nat \<Rightarrow> nat \<Rightarrow> nat option \<Rightarrow> follow_up_state \<Rightarrow> queue_outcome" where
  "activate i run_task emitter submitted s =
     (let s' = s\<lparr>fus_active_sessions := insert i (fus_active_sessions s),
                 fus_active_run_tasks := (fus_active_run_tasks s)(i \<mapsto> run_task),
                 fus_queue_event_emitters := (fus_queue_event_emitters s)(i \<mapsto> emitter),
                 fus_submitted_prompt_emitters :=
                   (case submitted of None \<Rightarrow> fus_submitted_prompt_emitters s
                    | Some m \<Rightarrow> (fus_submitted_prompt_emitters s)(i \<mapsto> m))\<rparr>;
          event = build_queue_state_event s' i
      in (Inr Reply_none, if view_empty event then [] else [Queue_state_sent emitter event], s'))"

text \<open>An empty queue is forgotten; one that still holds something is kept for the next run.\<close>

definition drop_if_empty :: "(string \<rightharpoonup> 'a list) \<Rightarrow> string \<Rightarrow> (string \<rightharpoonup> 'a list)" where
  "drop_if_empty queues i = (if queued queues i = [] then queues(i := None) else queues)"

definition deactivate :: "string \<Rightarrow> follow_up_state \<Rightarrow> queue_outcome" where
  "deactivate i s =
     (let previous = build_queue_state_event s i;
          effects = (case fus_queue_event_emitters s i of
                       None \<Rightarrow> []
                     | Some m \<Rightarrow> if view_empty previous then [] else [Queue_state_sent m empty_view])
      in (Inr Reply_none, effects,
          s\<lparr>fus_active_sessions := fus_active_sessions s - {i},
            fus_active_run_tasks := (fus_active_run_tasks s)(i := None),
            fus_active_steer_targets := (fus_active_steer_targets s)(i := None),
            fus_queue_event_emitters := (fus_queue_event_emitters s)(i := None),
            fus_submitted_prompt_emitters := (fus_submitted_prompt_emitters s)(i := None),
            fus_follow_up_queues := drop_if_empty (fus_follow_up_queues s) i,
            fus_steer_queues := drop_if_empty (fus_steer_queues s) i\<rparr>))"

definition append_follow_up ::
    "string \<Rightarrow> ustr \<Rightarrow> queue_mode \<Rightarrow> follow_up_state \<Rightarrow> nat \<times> follow_up_state" where
  "append_follow_up i prompt kind s =
     (let q = queued (fus_follow_up_queues s) i in
      if q \<noteq> [] \<and> qb_kind (last q) = kind then
        (let grown = (last q)\<lparr>qb_prompts := qb_prompts (last q) @ [prompt]\<rparr> in
         (length (qb_prompts grown),
          s\<lparr>fus_follow_up_queues := (fus_follow_up_queues s)(i \<mapsto> butlast q @ [grown])\<rparr>))
      else
        (1, s\<lparr>fus_follow_up_queues := (fus_follow_up_queues s)
                 (i \<mapsto> q @ [\<lparr>qb_kind = kind, qb_prompts = [prompt]\<rparr>])\<rparr>))"

definition prepend_follow_ups :: "string \<Rightarrow> ustr list \<Rightarrow> follow_up_state \<Rightarrow> follow_up_state" where
  "prepend_follow_ups i prompts s =
     s\<lparr>fus_follow_up_queues := (fus_follow_up_queues s)
         (i \<mapsto> \<lparr>qb_kind = Next, qb_prompts = prompts\<rparr> # queued (fus_follow_up_queues s) i)\<rparr>"

definition drain_pending_steers :: "string \<Rightarrow> follow_up_state \<Rightarrow> ustr list \<times> follow_up_state" where
  "drain_pending_steers i s =
     (let q = queued (fus_steer_queues s) i in
      if q = [] then ([], s)
      else (q, s\<lparr>fus_steer_queues := (fus_steer_queues s)(i := None)\<rparr>))"

definition enqueue :: "string \<Rightarrow> ustr \<Rightarrow> queue_mode \<Rightarrow> follow_up_state \<Rightarrow> queue_outcome" where
  "enqueue i prompt mode s =
     (if i \<notin> fus_active_sessions s then (Inl Queueing_needs_run, [], s)
      else
        (let (count, s') =
           (case mode of
              Next \<Rightarrow>
                (let q = queued (fus_steer_queues s) i @ [prompt]
                 in (length q, s\<lparr>fus_steer_queues := (fus_steer_queues s)(i \<mapsto> q)\<rparr>))
            | Later \<Rightarrow> append_follow_up i prompt Later s)
         in (Inr (Reply_count count), send_view s i s', s')))"

definition activate_steer_boundary :: "string \<Rightarrow> nat \<Rightarrow> follow_up_state \<Rightarrow> queue_outcome" where
  "activate_steer_boundary i attach s =
     (if fus_active_steer_targets s i \<noteq> None then (Inl Steer_boundary_active, [], s)
      else
        (let s' = s\<lparr>fus_active_steer_targets := (fus_active_steer_targets s)(i \<mapsto> attach)\<rparr>
         in (Inr Reply_none, send_view s i s', s')))"

definition submit_active_steer_boundary :: "string \<Rightarrow> follow_up_state \<Rightarrow> queue_outcome" where
  "submit_active_steer_boundary i s =
     (case fus_active_steer_targets s i of
        None \<Rightarrow> (Inl Steer_boundary_not_active, [], s)
      | Some attach \<Rightarrow>
          (let q = queued (fus_steer_queues s) i;
               s' = (if q = [] then s
                     else s\<lparr>fus_steer_queues := (fus_steer_queues s)(i := None)\<rparr>)
           in (Inr Reply_none,
               (if q = [] then [] else [Prompts_attached attach q])
               @ send_view s i s'
               @ (case fus_submitted_prompt_emitters s i of
                    None \<Rightarrow> []
                  | Some m \<Rightarrow> if q = [] then [] else [Prompts_submitted m Next q]),
               s')))"

definition deactivate_steer_boundary :: "string \<Rightarrow> follow_up_state \<Rightarrow> queue_outcome" where
  "deactivate_steer_boundary i s =
     (let s' = s\<lparr>fus_active_steer_targets := (fus_active_steer_targets s)(i := None)\<rparr>
      in (Inr Reply_none, send_view s i s', s'))"

definition downgrade_pending_steers_to_follow_ups :: "string \<Rightarrow> follow_up_state \<Rightarrow> queue_outcome" where
  "downgrade_pending_steers_to_follow_ups i s =
     (let (prompts, drained) = drain_pending_steers i s in
      if prompts = [] then (Inr Reply_none, [], drained)
      else
        (let s' = prepend_follow_ups i prompts drained
         in (Inr Reply_none, send_view s i s', s')))"

definition take_next_follow_up_batch :: "string \<Rightarrow> follow_up_state \<Rightarrow> queue_outcome" where
  "take_next_follow_up_batch i s =
     (case queued (fus_follow_up_queues s) i of
        [] \<Rightarrow> (Inr (Reply_batch None), [], s)
      | batch # rest \<Rightarrow>
          (let s' = s\<lparr>fus_follow_up_queues :=
                        (fus_follow_up_queues s)(i := (if rest = [] then None else Some rest))\<rparr>
           in (Inr (Reply_batch (Some (qb_prompts batch))), send_view s i s', s')))"

definition interrupt :: "string \<Rightarrow> bool \<Rightarrow> follow_up_state \<Rightarrow> queue_outcome" where
  "interrupt i promote_queued_steer s =
     (if i \<notin> fus_active_sessions s then (Inl Interrupt_needs_run, [], s)
      else
        (case fus_active_run_tasks s i of
           None \<Rightarrow> (Inl Interrupt_needs_run, [], s)
         | Some run_task \<Rightarrow>
             (let (prompts, drained) =
                    (if promote_queued_steer then drain_pending_steers i s else ([], s));
                  s' = (if prompts = [] then drained else prepend_follow_ups i prompts drained)
              in (Inr (Reply_count (length prompts)), Run_cancelled run_task # send_view s i s', s'))))"

section \<open>The machine\<close>

datatype queue_action =
    Activate string nat nat "nat option"
  | Deactivate string
  | Enqueue string ustr queue_mode
  | Activate_steer_boundary string nat
  | Submit_active_steer_boundary string
  | Deactivate_steer_boundary string
  | Downgrade_pending_steers string
  | Take_next_follow_up_batch string
  | Interrupt string bool

fun queue_apply :: "queue_action \<Rightarrow> follow_up_state \<Rightarrow> queue_outcome" where
  "queue_apply (Activate i run_task emitter submitted) s = activate i run_task emitter submitted s"
| "queue_apply (Deactivate i) s = deactivate i s"
| "queue_apply (Enqueue i prompt mode) s = enqueue i prompt mode s"
| "queue_apply (Activate_steer_boundary i attach) s = activate_steer_boundary i attach s"
| "queue_apply (Submit_active_steer_boundary i) s = submit_active_steer_boundary i s"
| "queue_apply (Deactivate_steer_boundary i) s = deactivate_steer_boundary i s"
| "queue_apply (Downgrade_pending_steers i) s = downgrade_pending_steers_to_follow_ups i s"
| "queue_apply (Take_next_follow_up_batch i) s = take_next_follow_up_batch i s"
| "queue_apply (Interrupt i promote) s = interrupt i promote s"

type_synonym queue_turn =
  "queue_action \<times> (queue_error, queue_reply) result \<times> queue_effect list"

text \<open>The traces of the machine: what was asked, answered and sent so far, and the state reached.\<close>

inductive queue_trace :: "queue_turn list \<Rightarrow> follow_up_state \<Rightarrow> bool" where
  trace_start: "queue_trace [] new_follow_up_state"
| trace_step: "queue_trace tr s \<Longrightarrow> queue_apply a s = (reply, effects, s')
    \<Longrightarrow> queue_trace (tr @ [(a, reply, effects)]) s'"

inductive_cases trace_Nil [elim!]: "queue_trace [] s"
inductive_cases trace_snoc [elim!]: "queue_trace (tr @ [turn]) s"

text \<open>Running a list of actions gives a trace.\<close>

fun queue_run :: "queue_turn list \<Rightarrow> follow_up_state \<Rightarrow> queue_action list \<Rightarrow> queue_turn list \<times> follow_up_state" where
  "queue_run tr s [] = (tr, s)"
| "queue_run tr s (a # as) =
     (case queue_apply a s of (reply, effects, s') \<Rightarrow> queue_run (tr @ [(a, reply, effects)]) s' as)"

lemma run_is_trace: "queue_trace tr s \<Longrightarrow> queue_run tr s as = (tr', s') \<Longrightarrow> queue_trace tr' s'"
proof (induction "as" arbitrary: tr s)
  case Nil
  then show ?case by simp
next
  case (Cons a "as")
  obtain reply effects t where a: "queue_apply a s = (reply, effects, t)" by (cases "queue_apply a s") auto
  from Cons.IH [OF trace_step [OF Cons.prems(1) a]] Cons.prems(2) a show ?case by simp
qed

section \<open>Queues of a session\<close>

lemma queued_simps [simp]:
  "queued (m(i \<mapsto> q)) j = (if j = i then q else queued m j)"
  "queued (m(i := None)) j = (if j = i then [] else queued m j)"
  "queued Map.empty i = []"
  "queued (drop_if_empty m i) j = queued m j"
  by (auto simp: queued_def drop_if_empty_def)

definition pending_later :: "follow_up_state \<Rightarrow> string \<Rightarrow> ustr list" where
  "pending_later s i = qv_later_prompts (build_queue_state_event s i)"

definition promoted :: "follow_up_state \<Rightarrow> string \<Rightarrow> ustr list" where
  "promoted s i =
     concat (map qb_prompts (filter (\<lambda>b. qb_kind b = Next) (queued (fus_follow_up_queues s) i)))"

definition pending_next :: "follow_up_state \<Rightarrow> string \<Rightarrow> ustr list" where
  "pending_next s i = promoted s i @ queued (fus_steer_queues s) i"

text \<open>What a turn put into the queues of a session, and what it handed to its run.\<close>

fun turn_enqueued :: "string \<Rightarrow> queue_mode \<Rightarrow> queue_turn \<Rightarrow> ustr list" where
  "turn_enqueued i mode (Enqueue j prompt m, Inr _, _) = (if j = i \<and> m = mode then [prompt] else [])"
| "turn_enqueued i mode _ = []"

fun attached :: "queue_effect \<Rightarrow> ustr list" where
  "attached (Prompts_attached _ prompts) = prompts"
| "attached _ = []"

fun turn_delivered :: "string \<Rightarrow> queue_turn \<Rightarrow> ustr list" where
  "turn_delivered i (Take_next_follow_up_batch j, Inr (Reply_batch (Some prompts)), _) =
     (if j = i then prompts else [])"
| "turn_delivered i (Submit_active_steer_boundary j, Inr _, effects) =
     (if j = i then concat (map attached effects) else [])"
| "turn_delivered i _ = []"

definition enqueued :: "string \<Rightarrow> queue_mode \<Rightarrow> queue_turn list \<Rightarrow> ustr list" where
  "enqueued i mode tr = concat (map (turn_enqueued i mode) tr)"

definition delivered :: "string \<Rightarrow> queue_turn list \<Rightarrow> ustr list" where
  "delivered i tr = concat (map (turn_delivered i) tr)"

text \<open>The prompts of a tagged list that have a mode.\<close>

definition of_mode :: "queue_mode \<Rightarrow> (queue_mode \<times> 'a) list \<Rightarrow> 'a list" where
  "of_mode mode xs = map snd (filter (\<lambda>(m, _). m = mode) xs)"

lemma of_mode_simps [simp]:
  "of_mode mode [] = []"
  "of_mode mode (xs @ ys) = of_mode mode xs @ of_mode mode ys"
  "of_mode mode (map (Pair m) ps) = (if m = mode then ps else [])"
  by (auto simp: of_mode_def filter_map comp_def)

text \<open>
  One turn: for some tagging of what it delivers, the later prompts stay in order, and the next
  prompts are neither lost nor doubled.
\<close>

definition turn_flows :: "string \<Rightarrow> follow_up_state \<Rightarrow> queue_turn \<Rightarrow> follow_up_state \<Rightarrow> bool" where
  "turn_flows i s turn s' \<longleftrightarrow>
     (\<exists>tagged. map snd tagged = turn_delivered i turn
        \<and> pending_later s i @ turn_enqueued i Later turn = of_mode Later tagged @ pending_later s' i
        \<and> mset (pending_next s i) + mset (turn_enqueued i Next turn)
          = mset (of_mode Next tagged) + mset (pending_next s' i))"

lemma flows_silently:
  assumes "turn_delivered i turn = []" and "pending_later s i @ turn_enqueued i Later turn = pending_later s' i"
    and "mset (pending_next s i) + mset (turn_enqueued i Next turn) = mset (pending_next s' i)"
  shows "turn_flows i s turn s'"
  unfolding turn_flows_def using assms by (intro exI [of _ "[]"]) simp

lemmas pending_defs = pending_later_def pending_next_def promoted_def build_queue_state_event_def

lemma append_follow_up_flows:
  assumes "append_follow_up j prompt Later s = (n, s')"
  shows "pending_later s' i = pending_later s i @ (if j = i then [prompt] else [])"
    and "pending_next s' i = pending_next s i"
    and "fus_queue_event_emitters s' = fus_queue_event_emitters s"
proof -
  have "pending_later s' i = pending_later s i @ (if j = i then [prompt] else [])
      \<and> pending_next s' i = pending_next s i"
  proof (cases "queued (fus_follow_up_queues s) j" rule: rev_cases)
    case Nil
    with assms show ?thesis by (auto simp: append_follow_up_def pending_defs Let_def)
  next
    case (snoc front b)
    with assms show ?thesis
      by (cases "qb_kind b") (auto simp: append_follow_up_def pending_defs Let_def)
  qed
  then show "pending_later s' i = pending_later s i @ (if j = i then [prompt] else [])"
    and "pending_next s' i = pending_next s i" by simp_all
  show "fus_queue_event_emitters s' = fus_queue_event_emitters s"
    using assms by (auto simp: append_follow_up_def Let_def split: if_splits)
qed

lemma take_flows:
  assumes "take_next_follow_up_batch j s = (reply, effects, s')"
  shows "turn_flows i s (Take_next_follow_up_batch j, reply, effects) s'"
proof (cases "queued (fus_follow_up_queues s) j")
  case Nil
  with assms show ?thesis
    by (intro flows_silently) (auto simp: take_next_follow_up_batch_def)
next
  case (Cons b rest)
  with assms show ?thesis
    unfolding turn_flows_def
    by (cases "qb_kind b"; cases "j = i")
      (auto simp: take_next_follow_up_batch_def Let_def pending_defs comp_def
        intro!: exI [of _ "if j = i then map (Pair (qb_kind b)) (qb_prompts b) else []"])
qed

lemma send_view_attaches [simp]: "e \<in> set (send_view s j t) \<Longrightarrow> attached e = []"
  by (auto simp: send_view_def split: option.splits if_splits)

lemma submit_flows:
  assumes "submit_active_steer_boundary j s = (reply, effects, s')"
  shows "turn_flows i s (Submit_active_steer_boundary j, reply, effects) s'"
proof (cases "fus_active_steer_targets s j")
  case None
  with assms show ?thesis
    by (intro flows_silently) (auto simp: submit_active_steer_boundary_def)
next
  case (Some attach)
  let ?q = "queued (fus_steer_queues s) j"
  from assms Some show ?thesis
    unfolding turn_flows_def
    by (intro exI [of _ "if j = i then map (Pair Next) ?q else []"])
      (auto simp: submit_active_steer_boundary_def Let_def pending_defs comp_def split: option.splits)
qed

lemma queue_apply_flows:
  assumes "queue_apply a s = (reply, effects, s')"
  shows "turn_flows i s (a, reply, effects) s'"
proof (cases a)
  case (Enqueue j prompt mode)
  show ?thesis
  proof (cases mode)
    case Next
    with Enqueue assms show ?thesis
      by (intro flows_silently) (auto simp: enqueue_def pending_defs Let_def split: if_splits)
  next
    case Later
    with Enqueue assms show ?thesis
      by (intro flows_silently)
        (auto simp: enqueue_def append_follow_up_flows split: if_splits prod.splits)
  qed
next
  case (Take_next_follow_up_batch j)
  with assms show ?thesis by (auto intro: take_flows)
next
  case (Submit_active_steer_boundary j)
  with assms show ?thesis by (auto intro: submit_flows)
next
  case (Downgrade_pending_steers j)
  with assms show ?thesis
    by (intro flows_silently)
      (auto simp: downgrade_pending_steers_to_follow_ups_def drain_pending_steers_def
        prepend_follow_ups_def pending_defs Let_def split: if_splits)
next
  case (Interrupt j promote)
  with assms show ?thesis
    by (intro flows_silently)
      (auto simp: interrupt_def drain_pending_steers_def prepend_follow_ups_def pending_defs Let_def
        split: if_splits option.splits)
qed (use assms in \<open>intro flows_silently; auto simp: activate_def deactivate_def activate_steer_boundary_def
       deactivate_steer_boundary_def pending_defs Let_def split: if_splits\<close>)+

section \<open>Prompts are neither lost, doubled nor reordered\<close>

lemma queue_conserves:
  assumes "queue_trace tr s"
  shows "\<exists>tagged. map snd tagged = delivered i tr
    \<and> enqueued i Later tr = of_mode Later tagged @ pending_later s i
    \<and> mset (enqueued i Next tr) = mset (of_mode Next tagged) + mset (pending_next s i)"
  using assms
proof (induction rule: queue_trace.induct)
  case trace_start
  show ?case
    by (simp add: delivered_def enqueued_def pending_defs new_follow_up_state_def)
next
  case (trace_step tr s a reply effects s')
  let ?turn = "(a, reply, effects)"
  from trace_step.IH obtain T where T: "map snd T = delivered i tr"
    "enqueued i Later tr = of_mode Later T @ pending_later s i"
    "mset (enqueued i Next tr) = mset (of_mode Next T) + mset (pending_next s i)" by blast
  from queue_apply_flows [OF trace_step.hyps(2)] obtain U where U: "map snd U = turn_delivered i ?turn"
    "pending_later s i @ turn_enqueued i Later ?turn = of_mode Later U @ pending_later s' i"
    "mset (pending_next s i) + mset (turn_enqueued i Next ?turn)
      = mset (of_mode Next U) + mset (pending_next s' i)"
    unfolding turn_flows_def by blast
  have "map snd (T @ U) = delivered i (tr @ [?turn])"
    using T(1) U(1) by (simp add: delivered_def)
  moreover have "enqueued i Later (tr @ [?turn]) = of_mode Later (T @ U) @ pending_later s' i"
    using T(2) U(2) by (simp add: enqueued_def)
  moreover have "mset (enqueued i Next (tr @ [?turn])) = mset (of_mode Next (T @ U)) + mset (pending_next s' i)"
    using T(3) U(3) by (simp add: enqueued_def add.assoc)
  ultimately show ?case by blast
qed


section \<open>The client sees the queues as they are\<close>

fun turn_session :: "queue_action \<Rightarrow> string" where
  "turn_session (Activate i _ _ _) = i"
| "turn_session (Deactivate i) = i"
| "turn_session (Enqueue i _ _) = i"
| "turn_session (Activate_steer_boundary i _) = i"
| "turn_session (Submit_active_steer_boundary i) = i"
| "turn_session (Deactivate_steer_boundary i) = i"
| "turn_session (Downgrade_pending_steers i) = i"
| "turn_session (Take_next_follow_up_batch i) = i"
| "turn_session (Interrupt i _) = i"

fun shown :: "queue_effect \<Rightarrow> queue_view list" where
  "shown (Queue_state_sent _ v) = [v]"
| "shown _ = []"

definition views_sent :: "string \<Rightarrow> queue_turn list \<Rightarrow> queue_view list" where
  "views_sent i tr =
     concat (map (\<lambda>(a, _, effects). if turn_session a = i then concat (map shown effects) else []) tr)"

text \<open>What the client should believe: the queues of a session that runs, nothing of one that does not.\<close>

definition true_view :: "follow_up_state \<Rightarrow> string \<Rightarrow> queue_view" where
  "true_view s i = (if i \<in> fus_active_sessions s then build_queue_state_event s i else empty_view)"

definition queues_ok :: "follow_up_state \<Rightarrow> bool" where
  "queues_ok s \<longleftrightarrow>
     (\<forall>i. (fus_queue_event_emitters s i = None) = (i \<notin> fus_active_sessions s))
     \<and> (\<forall>i. (fus_active_run_tasks s i = None) = (i \<notin> fus_active_sessions s))"

text \<open>An operation that leaves the registrations of a session alone.\<close>

definition same_registrations :: "follow_up_state \<Rightarrow> follow_up_state \<Rightarrow> bool" where
  "same_registrations s s' \<longleftrightarrow> fus_active_sessions s' = fus_active_sessions s
     \<and> fus_queue_event_emitters s' = fus_queue_event_emitters s
     \<and> fus_active_run_tasks s' = fus_active_run_tasks s"

fun changes_registrations :: "queue_action \<Rightarrow> bool" where
  "changes_registrations (Activate _ _ _ _) = True"
| "changes_registrations (Deactivate _) = True"
| "changes_registrations _ = False"

lemma append_follow_up_registrations:
  "append_follow_up j prompt kind s = (n, s') \<Longrightarrow> same_registrations s s'"
  by (auto simp: append_follow_up_def same_registrations_def Let_def split: if_splits)

lemma apply_registrations:
  assumes "queue_apply a s = (reply, effects, s')" and "\<not> changes_registrations a"
  shows "same_registrations s s'"
proof (cases a)
  case (Enqueue j prompt mode)
  with assms show ?thesis
    by (cases mode) (auto simp: enqueue_def Let_def same_registrations_def split: if_splits prod.splits
        dest: append_follow_up_registrations [unfolded same_registrations_def])
qed (use assms in \<open>auto simp: activate_steer_boundary_def submit_active_steer_boundary_def
       deactivate_steer_boundary_def downgrade_pending_steers_to_follow_ups_def drain_pending_steers_def
       prepend_follow_ups_def take_next_follow_up_batch_def interrupt_def same_registrations_def Let_def
       split: if_splits option.splits list.splits\<close>)

lemma apply_keeps_ok:
  assumes "queues_ok s" and "queue_apply a s = (reply, effects, s')"
  shows "queues_ok s'"
proof (cases "changes_registrations a")
  case True
  with assms show ?thesis
    by (cases a) (auto simp: queues_ok_def activate_def deactivate_def Let_def split: if_splits)
next
  case False
  with apply_registrations [OF assms(2)] assms(1) show ?thesis
    by (simp add: queues_ok_def same_registrations_def)
qed

lemma trace_ok: "queue_trace tr s \<Longrightarrow> queues_ok s"
proof (induction rule: queue_trace.induct)
  case trace_start
  show ?case by (simp add: queues_ok_def new_follow_up_state_def)
next
  case (trace_step tr s a reply effects s')
  then show ?case by (blast intro: apply_keeps_ok)
qed

lemma apply_other_view:
  assumes "queue_apply a s = (reply, effects, s')" and "turn_session a \<noteq> i"
  shows "build_queue_state_event s' i = build_queue_state_event s i
    \<and> (i \<in> fus_active_sessions s' \<longleftrightarrow> i \<in> fus_active_sessions s)"
proof (cases a)
  case (Enqueue j prompt mode)
  with assms show ?thesis
    by (cases mode) (auto simp: enqueue_def append_follow_up_def build_queue_state_event_def Let_def
        split: if_splits prod.splits)
qed (use assms in \<open>auto simp: activate_def deactivate_def activate_steer_boundary_def
       submit_active_steer_boundary_def deactivate_steer_boundary_def
       downgrade_pending_steers_to_follow_ups_def drain_pending_steers_def prepend_follow_ups_def
       take_next_follow_up_batch_def interrupt_def build_queue_state_event_def Let_def
       split: if_splits option.splits list.splits\<close>)

text \<open>Sending the view when it has changed brings the client's view up to date.\<close>

lemma send_view_updates:
  assumes "queues_ok s" and "same_registrations s s'"
  shows "last (true_view s i # concat (map shown (send_view s i s'))) = true_view s' i"
proof (cases "i \<in> fus_active_sessions s")
  case True
  then have "fus_queue_event_emitters s' i \<noteq> None"
    using assms unfolding queues_ok_def same_registrations_def by metis
  then obtain m where "fus_queue_event_emitters s' i = Some m" by blast
  with True assms(2) show ?thesis
    by (simp add: send_view_def true_view_def same_registrations_def)
next
  case False
  then have "fus_queue_event_emitters s' i = None"
    using assms unfolding queues_ok_def same_registrations_def by metis
  with False assms(2) show ?thesis
    by (simp add: send_view_def true_view_def same_registrations_def)
qed

lemma same_view_silent:
  "same_registrations s s' \<Longrightarrow> build_queue_state_event s' i = build_queue_state_event s i
    \<Longrightarrow> true_view s' i = true_view s i"
  by (simp add: true_view_def same_registrations_def)

lemma registration_sends:
  assumes "queues_ok s" and "queue_apply a s = (reply, effects, s')" and "\<not> changes_registrations a"
    and "turn_session a = i"
  shows "concat (map shown effects) = concat (map shown (send_view s i s'))"
proof (cases a)
  case (Enqueue j prompt mode)
  with assms show ?thesis
    by (auto simp: enqueue_def send_view_def split: if_splits prod.splits)
next
  case (Downgrade_pending_steers j)
  with assms show ?thesis
    by (auto simp: downgrade_pending_steers_to_follow_ups_def drain_pending_steers_def send_view_def Let_def
        split: if_splits option.splits)
qed (use assms in \<open>auto simp: activate_steer_boundary_def submit_active_steer_boundary_def
       deactivate_steer_boundary_def take_next_follow_up_batch_def interrupt_def send_view_def Let_def
       split: if_splits option.splits list.splits prod.splits\<close>)

lemma apply_view:
  assumes "queues_ok s" and "queue_apply a s = (reply, effects, s')" and "turn_session a = i"
  shows "last (true_view s i # concat (map shown effects)) = true_view s' i"
proof (cases "changes_registrations a")
  case False
  from send_view_updates [OF assms(1) apply_registrations [OF assms(2) this], of i]
    registration_sends [OF assms(1,2) False assms(3)] show ?thesis by simp
next
  case True
  then consider (on) t m sm where "a = Activate i t m sm" | (off) "a = Deactivate i"
    using assms(3) by (cases a) auto
  then show ?thesis
  proof cases
    case on
    have v: "build_queue_state_event s' i = build_queue_state_event s i"
      using assms(2) on by (auto simp: activate_def build_queue_state_event_def Let_def)
    have e: "view_empty w \<longleftrightarrow> w = empty_view" for w
      by (cases w) (auto simp: view_empty_def empty_view_def)
    have t: "true_view s' i = build_queue_state_event s' i"
      using assms(2) on by (auto simp: activate_def Let_def true_view_def)
    have f: "concat (map shown effects)
        = (if build_queue_state_event s' i = empty_view then [] else [build_queue_state_event s' i])"
      using assms(2) on by (auto simp: activate_def Let_def e)
    show ?thesis unfolding t f using v by (auto simp: true_view_def)
  next
    case off
    have e: "view_empty w \<longleftrightarrow> w = empty_view" for w
      by (cases w) (auto simp: view_empty_def empty_view_def)
    show ?thesis
    proof (cases "fus_queue_event_emitters s i")
      case None
      then have "i \<notin> fus_active_sessions s" using assms(1) by (simp add: queues_ok_def)
      with None off assms(2) show ?thesis by (auto simp: deactivate_def Let_def true_view_def)
    next
      case (Some m)
      then have "i \<in> fus_active_sessions s" using assms(1) unfolding queues_ok_def by force
      with Some off assms(2) show ?thesis
        by (auto simp: deactivate_def Let_def true_view_def e split: if_splits)
    qed
  qed
qed

lemma last_last: "last (x # xs @ ys) = last (last (x # xs) # ys)"
  by (cases ys rule: rev_cases) auto


section \<open>Concrete traces\<close>

definition sample_actions :: "queue_action list" where
  "sample_actions =
     [Activate ''s'' 1 2 None, Enqueue ''s'' [65] Later, Enqueue ''s'' [66] Next, Interrupt ''s'' True,
      Enqueue ''s'' [67] Next, Downgrade_pending_steers ''s'', Take_next_follow_up_batch ''s'',
      Take_next_follow_up_batch ''s'', Take_next_follow_up_batch ''s'']"

definition sample_trace :: "queue_turn list" where
  "sample_trace = fst (queue_run [] new_follow_up_state sample_actions)"

definition sample_end :: follow_up_state where
  "sample_end = snd (queue_run [] new_follow_up_state sample_actions)"

lemma sample_is_trace: "queue_trace sample_trace sample_end"
  using run_is_trace [OF trace_start, of sample_actions sample_trace sample_end]
  by (simp add: sample_trace_def sample_end_def)

lemmas queue_ops = new_follow_up_state_def activate_def enqueue_def interrupt_def append_follow_up_def
  downgrade_pending_steers_to_follow_ups_def drain_pending_steers_def prepend_follow_ups_def
  take_next_follow_up_batch_def send_view_def build_queue_state_event_def view_empty_def

text \<open>Steers promoted later are put in front of those promoted earlier: \<open>[67]\<close> overtakes \<open>[66]\<close>.\<close>

lemma promoted_steers_overtake:
  "enqueued ''s'' Next sample_trace = [[66], [67]]
   \<and> delivered ''s'' sample_trace = [[67], [66], [65]]"
  by (simp add: sample_trace_def sample_actions_def queue_ops enqueued_def delivered_def Let_def)



end
