(* ===== verification/Activity.thy ===== *)
theory Activity
  imports Run_Events Label_Text
begin

text \<open>
  \<open>runtime/activity.py\<close>: the title, the label, the group and the summary that the client is shown of
  a tool call, when it starts, reports progress, succeeds or fails, and the failures that are made up
  for the calls still pending when a run ends early. Clock readings are whole milliseconds; whether a
  dictionary is a valid \<open>ToolActivityDetails\<close> is decided by a parameter.
\<close>

section \<open>Tables\<close>

definition title_key_by_tool :: "(string \<times> string) list" where
  "title_key_by_tool =
     [(''ask_mcq_question'', ''question''), (''exec'', ''source''),
      (''generate_mcq_from_teaching_packets'', ''packet_ids''), (''publish_teaching_packet'', ''title''),
      (''read'', ''path''), (''write'', ''path''), (''edit'', ''path''), (''grep'', ''pattern''),
      (''find'', ''pattern''), (''wait'', ''cell_id'')]"

definition display_label_by_tool :: "(string \<times> string) list" where
  "display_label_by_tool =
     [(''ask_mcq_question'', ''Onboard''), (''generate_mcq_from_teaching_packets'', ''Onboard''),
      (''publish_teaching_packet'', ''Teach''), (''read'', ''Read''), (''write'', ''Write''),
      (''edit'', ''Edit''), (''exec'', ''Code''), (''shell'', ''Shell''), (''grep'', ''Search''),
      (''ls'', ''List''), (''find'', ''Find''), (''subagent'', ''Subagent''), (''wait'', ''Code'')]"

definition exploration_tool_names :: "string list" where
  "exploration_tool_names = [''read'', ''grep'', ''ls'', ''find'']"

definition subagent_display_label_by_role :: "(string \<times> string) list" where
  "subagent_display_label_by_role =
     [(''general'', ''Subagent''), (''explore'', ''Explore''), (''verification'', ''Verify'')]"

definition fallback_summaries :: "(string \<times> string) list" where
  "fallback_summaries =
     [(''read'', ''read completed''), (''write'', ''wrote file''), (''edit'', ''edit applied''),
      (''exec'', ''code cell completed''), (''grep'', ''search completed''), (''ls'', ''listing completed''),
      (''find'', ''find completed''), (''subagent'', ''subagent completed''),
      (''wait'', ''code cell wait completed''),
      (''generate_mcq_from_teaching_packets'', ''generated MCQ draft'')]"

section \<open>Reading arguments and results\<close>

fun is_dict :: "json \<Rightarrow> bool" where
  "is_dict (JObj _) = True"
| "is_dict _ = False"

fun dict_get :: "json \<Rightarrow> string \<Rightarrow> json" where
  "dict_get (JObj kvs) k = (case map_of kvs (lit k) of None \<Rightarrow> JNull | Some v \<Rightarrow> v)"
| "dict_get _ k = JNull"

fun nonblank :: "json \<Rightarrow> ustr option" where
  "nonblank (JStr s) = (if strip s \<noteq> [] then Some s else None)"
| "nonblank _ = None"

fun nonempty_text :: "json \<Rightarrow> ustr option" where
  "nonempty_text (JStr s) = (if s \<noteq> [] then Some s else None)"
| "nonempty_text _ = None"

text \<open>\<open>isinstance(v, int)\<close> holds of booleans, which are written by their names.\<close>

fun int_text :: "json \<Rightarrow> ustr option" where
  "int_text (JInt n) = Some (if n < 0 then 45 # decimal_digits (nat (- n)) else decimal_digits (nat n))"
| "int_text (JBool b) = Some (if b then lit ''True'' else lit ''False'')"
| "int_text _ = None"

section \<open>Titles, labels and groups\<close>

definition group_kind_for_tool :: "string \<Rightarrow> string option" where
  "group_kind_for_tool tool_name =
     (if tool_name \<in> set exploration_tool_names then Some ''exploration'' else None)"

definition display_label_for_tool :: "string \<Rightarrow> string option" where
  "display_label_for_tool tool_name = map_of display_label_by_tool tool_name"

text \<open>A role is looked up in the table as text; the keys are ASCII.\<close>

definition role_label :: "ustr \<Rightarrow> string option" where
  "role_label role = map_option snd (find (\<lambda>(k, _). lit k = role) subagent_display_label_by_role)"

definition display_label_for_subagent :: "json \<Rightarrow> bool option \<Rightarrow> string option" where
  "display_label_for_subagent args args_valid =
     (let fallback = map_of display_label_by_tool ''subagent'' in
      if args_valid = Some False \<or> \<not> is_dict args then fallback
      else (case dict_get args ''role'' of
              JStr role \<Rightarrow> (case role_label role of Some l \<Rightarrow> Some l | None \<Rightarrow> fallback)
            | _ \<Rightarrow> fallback))"

definition tool_label :: "string \<Rightarrow> json \<Rightarrow> bool option \<Rightarrow> ustr option" where
  "tool_label tool_name args args_valid =
     map_option lit
       (if tool_name = ''subagent'' then display_label_for_subagent args args_valid
        else display_label_for_tool tool_name)"

definition short_label :: "ustr \<Rightarrow> ustr" where
  "short_label s = truncate_activity_label s activity_label_limit"

definition build_tool_title :: "string \<Rightarrow> json \<Rightarrow> bool option \<Rightarrow> ustr" where
  "build_tool_title tool_name args args_valid =
     (if args_valid = Some False \<or> \<not> is_dict args then lit tool_name
      else if tool_name = ''subagent'' then
        (case nonblank (dict_get args ''name'') of
           Some s \<Rightarrow> lit ''subagent '' @ short_label s
         | None \<Rightarrow>
             (case nonblank (dict_get args ''task'') of
                Some s \<Rightarrow> lit ''subagent '' @ short_label s
              | None \<Rightarrow> lit ''subagent''))
      else if tool_name = ''shell'' then
        (case nonblank (dict_get args ''command'') of
           Some s \<Rightarrow> lit ''shell '' @ short_label s | None \<Rightarrow> lit ''shell'')
      else if tool_name = ''ls'' then
        (case nonblank (dict_get args ''path'') of
           Some s \<Rightarrow> lit ''ls '' @ short_label s | None \<Rightarrow> lit ''ls .'')
      else
        (case map_of title_key_by_tool tool_name of
           None \<Rightarrow> lit tool_name
         | Some key \<Rightarrow>
             (case nonblank (dict_get args key) of
                Some s \<Rightarrow> lit tool_name @ [32] @ short_label s
              | None \<Rightarrow> lit tool_name)))"

definition build_fallback_success_summary :: "string \<Rightarrow> json \<Rightarrow> ustr option" where
  "build_fallback_success_summary tool_name result =
     (if is_dict result \<and> dict_get result ''outcome'' = JStr (lit ''denied'') then
        (case nonempty_text (dict_get result ''message'') of
           Some m \<Rightarrow> Some m | None \<Rightarrow> Some (lit ''tool denied''))
      else if is_dict result \<and> dict_get result ''ok'' = JBool False then
        (case nonempty_text (dict_get result ''message'') of
           Some m \<Rightarrow> Some m | None \<Rightarrow> Some (lit ''tool error''))
      else if tool_name = ''shell'' \<and> is_dict result \<and> int_text (dict_get result ''exit_code'') \<noteq> None then
        map_option (\<lambda>n. lit ''command exited '' @ n) (int_text (dict_get result ''exit_code''))
      else map_option lit (map_of fallback_summaries tool_name))"

definition duration_ms_since :: "int \<Rightarrow> int \<Rightarrow> int" where
  "duration_ms_since now started_at = (if started_at \<le> 0 then 0 else max 0 (now - started_at))"

section \<open>Activities\<close>

definition build_started_tool_activity :: "string \<Rightarrow> json \<Rightarrow> bool option \<Rightarrow> tool_activity" where
  "build_started_tool_activity tool_name args args_valid =
     \<lparr>ta_title = build_tool_title tool_name args args_valid,
      ta_display_label = tool_label tool_name args args_valid, ta_summary = None, ta_duration_ms = None,
      ta_details = None, ta_group_kind = group_kind_for_tool tool_name\<rparr>"

datatype activity_error =
    Metadata_not_dict | Metadata_title | Metadata_summary | Metadata_label | Metadata_details

text \<open>An optional text of the metadata; the inner option is None for a missing text.\<close>

fun optional_text :: "json \<Rightarrow> ustr option option" where
  "optional_text JNull = Some None"
| "optional_text (JStr s) = Some (Some s)"
| "optional_text _ = None"

definition optional_details ::
    "(json \<Rightarrow> tool_activity_details option) \<Rightarrow> json \<Rightarrow> (activity_error, tool_activity_details option) result" where
  "optional_details validate d =
     (if d = JNull then Inr None
      else (case validate d of None \<Rightarrow> Inl Metadata_details | Some v \<Rightarrow> Inr (Some v)))"

definition build_tool_activity_from_metadata ::
    "(json \<Rightarrow> tool_activity_details option) \<Rightarrow> json \<Rightarrow> int \<Rightarrow> (activity_error, tool_activity) result" where
  "build_tool_activity_from_metadata validate metadata duration_ms =
     (if \<not> is_dict metadata then Inl Metadata_not_dict
      else (case nonempty_text (dict_get metadata ''title'') of
        None \<Rightarrow> Inl Metadata_title
      | Some title \<Rightarrow>
          (case optional_text (dict_get metadata ''summary'') of
             None \<Rightarrow> Inl Metadata_summary
           | Some summary \<Rightarrow>
               (case optional_text (dict_get metadata ''display_label'') of
                  None \<Rightarrow> Inl Metadata_label
                | Some label \<Rightarrow>
                    res_bind (optional_details validate (dict_get metadata ''details''))
                      (\<lambda>details. Inr
                        \<lparr>ta_title = title, ta_display_label = label, ta_summary = summary,
                         ta_duration_ms = Some duration_ms, ta_details = details, ta_group_kind = None\<rparr>)))))"

definition build_succeeded_tool_activity ::
    "(json \<Rightarrow> tool_activity_details option) \<Rightarrow> string \<Rightarrow> json \<Rightarrow> bool option \<Rightarrow> json \<Rightarrow> json \<Rightarrow> int
     \<Rightarrow> (activity_error, tool_activity) result" where
  "build_succeeded_tool_activity validate tool_name args args_valid outcome metadata duration_ms =
     (let label = tool_label tool_name args args_valid; group = group_kind_for_tool tool_name in
      if metadata \<noteq> JNull then
        res_bind (build_tool_activity_from_metadata validate metadata duration_ms)
          (\<lambda>a. Inr (a\<lparr>ta_display_label := (if ta_display_label a = None then label else ta_display_label a),
                      ta_group_kind := (if ta_group_kind a = None then group else ta_group_kind a)\<rparr>))
      else Inr
        \<lparr>ta_title = build_tool_title tool_name args args_valid, ta_display_label = label,
         ta_summary = build_fallback_success_summary tool_name outcome,
         ta_duration_ms = Some duration_ms, ta_details = None, ta_group_kind = group\<rparr>)"

definition build_updated_tool_activity ::
    "(json \<Rightarrow> tool_activity_details option) \<Rightarrow> string \<Rightarrow> json \<Rightarrow> bool option \<Rightarrow> json \<Rightarrow> int
     \<Rightarrow> (activity_error, tool_activity) result" where
  "build_updated_tool_activity validate tool_name args args_valid partial duration_ms =
     (let reports = (tool_name = ''exec'' \<or> tool_name = ''subagent'') \<and> is_dict partial in
      res_bind (if reports then optional_details validate (dict_get partial ''details'') else Inr None)
        (\<lambda>details. Inr
          \<lparr>ta_title = build_tool_title tool_name args args_valid,
           ta_display_label = tool_label tool_name args args_valid,
           ta_summary = (if tool_name = ''shell'' then Some (lit ''command still running'')
                         else if reports then nonblank (dict_get partial ''summary'') else None),
           ta_duration_ms = Some duration_ms, ta_details = details,
           ta_group_kind = group_kind_for_tool tool_name\<rparr>))"

definition build_failed_tool_activity ::
    "string \<Rightarrow> json \<Rightarrow> bool option \<Rightarrow> ustr \<Rightarrow> int \<Rightarrow> tool_activity" where
  "build_failed_tool_activity tool_name args args_valid message duration_ms =
     \<lparr>ta_title = build_tool_title tool_name args args_valid,
      ta_display_label = tool_label tool_name args args_valid, ta_summary = Some message,
      ta_duration_ms = Some duration_ms, ta_details = None, ta_group_kind = group_kind_for_tool tool_name\<rparr>"

record pending_tool_call =
  ptc_tool_call_id :: string
  ptc_tool_name :: string
  ptc_args :: json
  ptc_args_valid :: "bool option"
  ptc_started_at :: int

definition synthesize_tool_failed_events_for_pending ::
    "int \<Rightarrow> string \<Rightarrow> pending_tool_call list \<Rightarrow> ustr \<Rightarrow> ustr \<Rightarrow> run_event list" where
  "synthesize_tool_failed_events_for_pending now run_id pending error_type message =
     map (\<lambda>p. Tool_call_failed
       \<lparr>ev_run_id = run_id, ev_tool_call_id = ptc_tool_call_id p, ev_tool_name = ptc_tool_name p,
        ev_activity = Some (build_failed_tool_activity (ptc_tool_name p) (ptc_args p) (ptc_args_valid p)
          message (duration_ms_since now (ptc_started_at p))),
        ev_error_type = error_type, ev_message = message\<rparr>) pending"

section \<open>What is shown fits on one line\<close>

lemma of_char_space: "(of_char c :: nat) = 32 \<longleftrightarrow> c = CHR '' ''"
proof -
  have "(32 :: nat) = of_char CHR '' ''" by simp
  then show ?thesis by (simp only: of_char_eq_iff)
qed

lemma lit_one_line: "one_line (lit s) \<longleftrightarrow> list_all (\<lambda>c. \<not> py_isspace (of_char c) \<or> c = CHR '' '') s"
  by (induction s) (auto simp: lit_def of_char_space)

lemma short_label_one_line [simp]: "one_line (short_label s)"
  by (simp add: short_label_def)

lemma short_label_length: "length (short_label s) \<le> 56"
  using label_length [of activity_label_limit s] by (simp add: short_label_def activity_label_limit_def)

text \<open>
  The title of a tool call is one line, at most the name of the tool, a space and 56 characters long,
  whatever the model put into the arguments.
\<close>

theorem titles_are_short_lines:
  assumes "one_line (lit tool_name)"
  shows "one_line (build_tool_title tool_name args args_valid)
    \<and> length (build_tool_title tool_name args args_valid) \<le> length tool_name + 57"
proof -
  have fixed: "one_line (lit ''subagent '')" "one_line (lit ''subagent'')" "one_line (lit ''shell '')"
    "one_line (lit ''shell'')" "one_line (lit ''ls '')" "one_line (lit ''ls .'')"
    by (simp_all add: lit_one_line py_isspace_def)
  have "length (short_label s) \<le> 56" for s by (rule short_label_length)
  then show ?thesis using assms fixed
    by (auto simp: build_tool_title_def split: option.splits)
qed

theorem titles_are_short_lines_witness:
  "one_line (build_tool_title ''read'' (JObj [(lit ''path'', JStr (lit ''a b''))]) None)"
proof -
  have "one_line (lit ''read'')" by (simp add: lit_one_line py_isspace_def)
  from titles_are_short_lines [OF this] show ?thesis by blast
qed

end
