(* ===== verification/Tool_Tracking.thy ===== *)
theory Tool_Tracking
  imports Activity Run_Validation "HOL-Library.AList"
begin

text \<open>
  The tracking of tool calls in \<open>runtime/run.py\<close>: calls that the agent starts, updates and results for them,
  and corrections of malformed calls, with the events each of them emits. \<open>json.loads\<close>, the checks of
  values that are no JSON and the validation of activity details are parameters; times are milliseconds.
  The spans of the tracing package are left out.
\<close>

section \<open>Arguments\<close>

text \<open>What \<open>json.loads\<close> says of a text it does not accept.\<close>

record json_decode_error =
  jde_msg :: ustr
  jde_lineno :: nat
  jde_colno :: nat

type_synonym json_loads = "ustr \<Rightarrow> (json_decode_error, json) result"

text \<open>The arguments as the model sent them; a dictionary may hold what is no JSON value.\<close>

datatype tool_args = Args_missing | Args_text ustr | Args_dict "json option"

record normalized_tool_args =
  nta_args :: json
  nta_args_valid :: "bool option"

datatype tracking_error =
    Duplicate_tool_call_mismatch string
  | No_pending_tool_call string
  | Result_tool_name_mismatch string string string
  | Completed_update_mismatch string string string
  | Update_tool_name_mismatch string string string
  | Stale_tool_updates string
  | Value_not_json
  | Activity_invalid activity_error

definition normalize_json_value :: "json option \<Rightarrow> (tracking_error, json) result" where
  "normalize_json_value value = (case value of None \<Rightarrow> Inl Value_not_json | Some v \<Rightarrow> Inr v)"

definition normalize_tool_args ::
    "json_loads \<Rightarrow> tool_args \<Rightarrow> bool option \<Rightarrow> (tracking_error, normalized_tool_args) result" where
  "normalize_tool_args loads value args_valid =
     (case value of
        Args_missing \<Rightarrow> Inr \<lparr>nta_args = JNull, nta_args_valid = args_valid\<rparr>
      | Args_text s \<Rightarrow>
          (case loads s of
             Inl _ \<Rightarrow> Inr \<lparr>nta_args = JNull, nta_args_valid = Some False\<rparr>
           | Inr v \<Rightarrow> Inr \<lparr>nta_args = v, nta_args_valid = args_valid\<rparr>)
      | Args_dict v \<Rightarrow>
          res_bind (normalize_json_value v) (\<lambda>v. Inr \<lparr>nta_args = v, nta_args_valid = args_valid\<rparr>))"

text \<open>Equality of values as Python has it: booleans are numbers, and the order of keys does not matter.\<close>

fun json_number :: "json \<Rightarrow> pyfloat option" where
  "json_number (JBool b) = Some (Pyfloat (if b then 1 else 0) 0)"
| "json_number (JInt n) = Some (Pyfloat n 0)"
| "json_number (JFloat x) = Some x"
| "json_number _ = None"

definition number_equal :: "pyfloat \<Rightarrow> pyfloat \<Rightarrow> bool" where
  "number_equal x y \<longleftrightarrow>
     (let e = min (exponent x) (exponent y)
      in mantissa x * 2 ^ nat (exponent x - e) = mantissa y * 2 ^ nat (exponent y - e))"

fun json_equal :: "json \<Rightarrow> json \<Rightarrow> bool" where
  "json_equal JNull y = (y = JNull)"
| "json_equal (JStr s) y = (y = JStr s)"
| "json_equal (JList xs) y = (case y of JList ys \<Rightarrow> list_all2 json_equal xs ys | _ \<Rightarrow> False)"
| "json_equal (JObj xs) y =
     (case y of
        JObj ys \<Rightarrow> length xs = length ys \<and>
          list_all (\<lambda>(k, v). case map_of ys k of None \<Rightarrow> False | Some w \<Rightarrow> json_equal v w) xs
      | _ \<Rightarrow> False)"
| "json_equal x y =
     (case (json_number x, json_number y) of (Some m, Some n) \<Rightarrow> number_equal m n | _ \<Rightarrow> False)"

section \<open>The state\<close>

record tracked_call =
  tk_tool_name :: string
  tk_args :: json
  tk_args_valid :: "bool option"
  tk_started_at :: int

record queued_tool_update =
  qtu_tool_call_id :: string
  qtu_tool_name :: string
  qtu_partial_result :: json

record call_tracking =
  ct_pending :: "(string \<times> tracked_call) list"
  ct_buffered :: "(string \<times> queued_tool_update list) list"
  ct_completed :: "(string \<times> string) list"

definition no_calls :: call_tracking where
  "no_calls = \<lparr>ct_pending = [], ct_buffered = [], ct_completed = []\<rparr>"

text \<open>\<open>pending_tool_calls.clear()\<close> and \<open>completed_tool_calls.clear()\<close>.\<close>

definition clear_calls :: "call_tracking \<Rightarrow> call_tracking" where
  "clear_calls t = t\<lparr>ct_pending := [], ct_completed := []\<rparr>"

definition elapsed_ms :: "int \<Rightarrow> int \<Rightarrow> int" where
  "elapsed_ms now started_at = max 0 (now - started_at)"

type_synonym details_check = "json \<Rightarrow> tool_activity_details option"

section \<open>Updates\<close>

definition build_tool_updated_event ::
    "details_check \<Rightarrow> int \<Rightarrow> string \<Rightarrow> queued_tool_update \<Rightarrow> tracked_call \<Rightarrow> (tracking_error, run_event) result" where
  "build_tool_updated_event validate now run_id u p =
     res_bind (lift_error Activity_invalid
         (build_updated_tool_activity validate (tk_tool_name p) (tk_args p) (tk_args_valid p) (qtu_partial_result u)
           (elapsed_ms now (tk_started_at p))))
       (\<lambda>a. Inr (Tool_call_updated
         \<lparr>ev_run_id = run_id, ev_tool_call_id = qtu_tool_call_id u, ev_tool_name = tk_tool_name p,
          ev_activity = Some a, ev_partial_result = qtu_partial_result u\<rparr>))"

fun map_results :: "('a \<Rightarrow> ('e, 'b) result) \<Rightarrow> 'a list \<Rightarrow> ('e, 'b list) result" where
  "map_results f [] = Inr []"
| "map_results f (x # xs) = res_bind (f x) (\<lambda>y. res_bind (map_results f xs) (\<lambda>ys. Inr (y # ys)))"

text \<open>The updates that came before the call, which are forgotten even when one of them is refused.\<close>

definition buffered_for :: "call_tracking \<Rightarrow> string \<Rightarrow> queued_tool_update list" where
  "buffered_for t i = (case map_of (ct_buffered t) i of None \<Rightarrow> [] | Some us \<Rightarrow> us)"

definition drain_buffered_tool_updates ::
    "details_check \<Rightarrow> int \<Rightarrow> string \<Rightarrow> tracked_call \<Rightarrow> string \<Rightarrow> call_tracking
     \<Rightarrow> call_tracking \<times> (tracking_error, run_event list) result" where
  "drain_buffered_tool_updates validate now run_id p i t =
     (t\<lparr>ct_buffered := AList.delete i (ct_buffered t)\<rparr>,
      map_results (\<lambda>u. build_tool_updated_event validate now run_id u p) (buffered_for t i))"

definition raise_if_buffered_tool_updates_remain :: "call_tracking \<Rightarrow> (tracking_error, unit) result" where
  "raise_if_buffered_tool_updates_remain t =
     (case ct_buffered t of [] \<Rightarrow> Inr () | (i, _) # _ \<Rightarrow> Inl (Stale_tool_updates i))"

definition resolve_tool_update ::
    "queued_tool_update \<Rightarrow> call_tracking \<Rightarrow> (tracking_error, call_tracking \<times> tracked_call option) result" where
  "resolve_tool_update u t =
     (let i = qtu_tool_call_id u; name = qtu_tool_name u in
      case map_of (ct_pending t) i of
        None \<Rightarrow>
          (case map_of (ct_completed t) i of
             Some completed \<Rightarrow>
               if name \<noteq> completed then Inl (Completed_update_mismatch i completed name) else Inr (t, None)
           | None \<Rightarrow>
               Inr (t\<lparr>ct_buffered := AList.update i (buffered_for t i @ [u]) (ct_buffered t)\<rparr>, None))
      | Some p \<Rightarrow>
          if name \<noteq> tk_tool_name p then Inl (Update_tool_name_mismatch i (tk_tool_name p) name)
          else Inr (t, Some p))"

section \<open>Corrections\<close>

definition canonical_agent_tool_correction_retries :: nat where
  "canonical_agent_tool_correction_retries = 2"

text \<open>The \<open>repr\<close> of a name: quoted with apostrophes unless only those occur in it.\<close>

definition hex_digit :: "nat \<Rightarrow> nat" where
  "hex_digit n = (if n < 10 then 48 + n else 87 + n)"

definition repr_code :: "nat \<Rightarrow> nat \<Rightarrow> ustr" where
  "repr_code quote c =
     (if c = quote \<or> c = 92 then [92, c]
      else if c = 10 then [92, 110] else if c = 13 then [92, 114] else if c = 9 then [92, 116]
      else if c < 32 \<or> 127 \<le> c \<and> c \<le> 160 \<or> c = 173
        then [92, 120, hex_digit (c div 16), hex_digit (c mod 16)]
      else [c])"

definition py_repr :: "string \<Rightarrow> ustr" where
  "py_repr s =
     (let q = (if CHR 0x27 \<in> set s \<and> CHR 0x22 \<notin> set s then 34 else 39)
      in [q] @ concat (map (repr_code q) (lit s)) @ [q])"

definition tool_correction_exhausted_message :: "string \<Rightarrow> ustr" where
  "tool_correction_exhausted_message tool_name =
     lit ''Tool '' @ py_repr tool_name @ lit '' exceeded max retries count of ''
       @ decimal_digits canonical_agent_tool_correction_retries"

definition malformed_tool_correction_message ::
    "json_loads \<Rightarrow> string \<Rightarrow> tool_args \<Rightarrow> bool option \<Rightarrow> string list \<Rightarrow> ustr option" where
  "malformed_tool_correction_message loads tool_name raw_args args_valid available =
     (let invalid = Some (lit ''Invalid arguments for tool '' @ py_repr tool_name
                            @ lit ''. Fix the errors and try again.'') in
      if tool_name \<notin> set available then
        Some (lit ''Unknown tool name: '' @ py_repr tool_name @ lit ''. Available tools: ''
                @ join (lit '', '') (map py_repr available))
      else if args_valid \<noteq> Some False then None
      else (case raw_args of
          Args_text s \<Rightarrow>
            (case loads s of
               Inl e \<Rightarrow>
                 Some (lit ''Invalid JSON for tool '' @ py_repr tool_name @ lit '': '' @ jde_msg e
                   @ lit '' at line '' @ decimal_digits (jde_lineno e)
                   @ lit '' column '' @ decimal_digits (jde_colno e)
                   @ lit ''. Fix the errors and try again.'')
             | Inr _ \<Rightarrow> invalid)
        | _ \<Rightarrow> invalid))"

definition tool_error_result :: "ustr \<Rightarrow> ustr \<Rightarrow> json" where
  "tool_error_result error_type message =
     JObj [(lit ''ok'', JBool False), (lit ''error_type'', JStr error_type), (lit ''message'', JStr message)]"

section \<open>A call\<close>

record function_call =
  fc_tool_call_id :: string
  fc_tool_name :: string
  fc_args :: tool_args
  fc_args_valid :: "bool option"

text \<open>
  What processing a call gives: nothing for a call that is open already, its events, its events with the
  end of the run, or its events with a correction that restarts the run.
\<close>

datatype tool_call_result =
    Call_duplicate
  | Call_open "run_event list"
  | Call_exhausted "run_event list"
  | Call_corrected ustr "run_event list"

definition started_event :: "string \<Rightarrow> string \<Rightarrow> tracked_call \<Rightarrow> run_event" where
  "started_event run_id i p =
     Tool_call_started
       \<lparr>ev_run_id = run_id, ev_tool_call_id = i, ev_tool_name = tk_tool_name p,
        ev_activity = Some (build_started_tool_activity (tk_tool_name p) (tk_args p) (tk_args_valid p)),
        ev_args = tk_args p, ev_args_valid = tk_args_valid p\<rparr>"

definition succeeded_event ::
    "details_check \<Rightarrow> int \<Rightarrow> string \<Rightarrow> string \<Rightarrow> tracked_call \<Rightarrow> json \<Rightarrow> json \<Rightarrow> (tracking_error, run_event) result" where
  "succeeded_event validate now run_id i p outcome metadata =
     res_bind (lift_error Activity_invalid
         (build_succeeded_tool_activity validate (tk_tool_name p) (tk_args p) (tk_args_valid p) outcome metadata
           (elapsed_ms now (tk_started_at p))))
       (\<lambda>a. Inr (Tool_call_succeeded
         \<lparr>ev_run_id = run_id, ev_tool_call_id = i, ev_tool_name = tk_tool_name p, ev_activity = Some a,
          ev_result = outcome\<rparr>))"

definition failed_event :: "int \<Rightarrow> string \<Rightarrow> string \<Rightarrow> tracked_call \<Rightarrow> ustr \<Rightarrow> ustr \<Rightarrow> run_event" where
  "failed_event now run_id i p error_type message =
     Tool_call_failed
       \<lparr>ev_run_id = run_id, ev_tool_call_id = i, ev_tool_name = tk_tool_name p,
        ev_activity = Some (build_failed_tool_activity (tk_tool_name p) (tk_args p) (tk_args_valid p) message
          (elapsed_ms now (tk_started_at p))),
        ev_error_type = error_type, ev_message = message\<rparr>"

definition run_failure :: "string \<Rightarrow> ustr \<Rightarrow> ustr \<Rightarrow> run_event" where
  "run_failure run_id error_type message =
     Run_failed \<lparr>ev_run_id = run_id, ev_failure_type = error_type, ev_failure_message = message\<rparr>"

definition retry_prompt_type :: ustr where
  "retry_prompt_type = lit ''RetryPromptPart''"

text \<open>The correction of a malformed call, once its first events are there.\<close>

definition correct_tool_call ::
    "details_check \<Rightarrow> int \<Rightarrow> string \<Rightarrow> nat \<Rightarrow> string \<Rightarrow> tracked_call \<Rightarrow> ustr \<Rightarrow> run_event list \<Rightarrow> call_tracking
     \<Rightarrow> call_tracking \<times> (tracking_error, tool_call_result) result" where
  "correct_tool_call validate now run_id attempts i p message events t =
     (let t = t\<lparr>ct_pending := AList.delete i (ct_pending t),
                ct_completed := AList.update i (tk_tool_name p) (ct_completed t)\<rparr> in
      if canonical_agent_tool_correction_retries \<le> attempts then
        (let exhausted = tool_correction_exhausted_message (tk_tool_name p); kind = lit ''RuntimeError'' in
         (t, Inr (Call_exhausted
               (events @ [failed_event now run_id i p kind exhausted, run_failure run_id kind exhausted]))))
      else
        (t, res_bind (succeeded_event validate now run_id i p (tool_error_result retry_prompt_type message) JNull)
              (\<lambda>e. Inr (Call_corrected message (events @ [e])))))"

definition process_tool_call_event ::
    "json_loads \<Rightarrow> details_check \<Rightarrow> int \<Rightarrow> string \<Rightarrow> string list \<Rightarrow> nat \<Rightarrow> function_call \<Rightarrow> call_tracking
     \<Rightarrow> call_tracking \<times> (tracking_error, tool_call_result) result" where
  "process_tool_call_event loads validate now run_id available attempts call t =
     (let i = fc_tool_call_id call; name = fc_tool_name call in
      case normalize_tool_args loads (fc_args call) (fc_args_valid call) of
        Inl e \<Rightarrow> (t, Inl e)
      | Inr a \<Rightarrow>
          (case map_of (ct_pending t) i of
             Some p \<Rightarrow>
               if tk_tool_name p \<noteq> name \<or> \<not> json_equal (tk_args p) (nta_args a)
               then (t, Inl (Duplicate_tool_call_mismatch i)) else (t, Inr Call_duplicate)
           | None \<Rightarrow>
               (let p = \<lparr>tk_tool_name = name, tk_args = nta_args a, tk_args_valid = nta_args_valid a,
                         tk_started_at = now\<rparr>;
                    t = t\<lparr>ct_pending := AList.update i p (ct_pending t)\<rparr> in
                case drain_buffered_tool_updates validate now run_id p i t of
                  (t, Inl e) \<Rightarrow> (t, Inl e)
                | (t, Inr updates) \<Rightarrow>
                    (let events = started_event run_id i p # updates in
                     case malformed_tool_correction_message loads name (fc_args call) (nta_args_valid a) available of
                       None \<Rightarrow> (t, Inr (Call_open events))
                     | Some message \<Rightarrow>
                         correct_tool_call validate now run_id attempts i p message events t))))"

section \<open>A result\<close>

text \<open>A retry prompt has a text, or errors that the agent package renders as a text.\<close>

datatype tool_result_part =
    Retry_text ustr
  | Retry_errors ustr
  | Returned "json option" json

record function_result =
  fr_tool_call_id :: string
  fr_tool_name :: "string option"
  fr_part :: tool_result_part

datatype tool_result_outcome =
    Result_events "run_event list"
  | Result_corrected ustr "run_event list"

fun retry_prompt_message :: "tool_result_part \<Rightarrow> ustr option" where
  "retry_prompt_message (Retry_text s) = Some s"
| "retry_prompt_message (Retry_errors s) = Some s"
| "retry_prompt_message (Returned _ _) = None"

definition resolve_pending_tool_call ::
    "string \<Rightarrow> string option \<Rightarrow> call_tracking \<Rightarrow> (tracking_error, call_tracking \<times> tracked_call) result" where
  "resolve_pending_tool_call i result_tool_name t =
     (case map_of (ct_pending t) i of
        None \<Rightarrow> Inl (No_pending_tool_call i)
      | Some p \<Rightarrow>
          (case result_tool_name of
             Some name \<Rightarrow>
               if name \<noteq> tk_tool_name p then Inl (Result_tool_name_mismatch i (tk_tool_name p) name)
               else Inr (t\<lparr>ct_pending := AList.delete i (ct_pending t)\<rparr>, p)
           | None \<Rightarrow> Inr (t\<lparr>ct_pending := AList.delete i (ct_pending t)\<rparr>, p)))"

definition process_tool_result_event ::
    "details_check \<Rightarrow> int \<Rightarrow> string \<Rightarrow> function_result \<Rightarrow> call_tracking
     \<Rightarrow> call_tracking \<times> (tracking_error, tool_result_outcome) result" where
  "process_tool_result_event validate now run_id r t =
     (let i = fr_tool_call_id r in
      case resolve_pending_tool_call i (fr_tool_name r) t of
        Inl e \<Rightarrow> (t, Inl e)
      | Inr (t, p) \<Rightarrow>
          (let t = t\<lparr>ct_completed := AList.update i (tk_tool_name p) (ct_completed t)\<rparr> in
           (t, case retry_prompt_message (fr_part r) of
                 Some message \<Rightarrow>
                   res_bind (succeeded_event validate now run_id i p
                       (tool_error_result retry_prompt_type message) JNull)
                     (\<lambda>e. Inr (Result_corrected message [e]))
               | None \<Rightarrow>
                   (case fr_part r of
                      Returned content metadata \<Rightarrow>
                        res_bind (normalize_json_value content)
                          (\<lambda>v. res_bind (succeeded_event validate now run_id i p v metadata)
                            (\<lambda>e. Inr (Result_events [e])))
                    | _ \<Rightarrow> Inr (Result_events [])))))"

end
