(* ===== verification/Error_Chain.thy ===== *)
theory Error_Chain
  imports Prelude
begin

text \<open>
  \<open>runtime/recovery.py\<close>: when a run that failed before it streamed anything is tried again. Exceptions are
  the nodes of a graph: an exception group leads to its members, any exception to its cause and to its
  context; an exception is the number of its node, as \<open>id\<close> is in the source.
\<close>

section \<open>Exceptions\<close>

text \<open>\<open>en_classes\<close> names the classes an exception is an instance of, with their packages.\<close>

record exception_node =
  en_classes :: "string list"
  en_exceptions :: "nat list"
  en_cause :: "nat option"
  en_context :: "nat option"

type_synonym exception_graph = "exception_node list"

definition get_retryable_run_error_types :: "(string \<Rightarrow> bool) \<Rightarrow> string list" where
  "get_retryable_run_error_types installed =
     [''TimeoutError'']
     @ (if installed ''httpx'' then [''httpx.TransportError''] else [])
     @ (if installed ''openai''
        then [''openai.APIConnectionError'', ''openai.APITimeoutError'', ''openai.InternalServerError'']
        else [])"

text \<open>What is pushed on the stack, with the top first: the context was pushed last.\<close>

definition pushed :: "exception_node \<Rightarrow> nat list" where
  "pushed e = (case en_context e of None \<Rightarrow> [] | Some c \<Rightarrow> [c])
     @ (case en_cause e of None \<Rightarrow> [] | Some c \<Rightarrow> [c]) @ en_exceptions e"

text \<open>A number that is no node of the graph is passed over; a graph of exceptions has none.\<close>

function chain_loop :: "exception_graph \<Rightarrow> nat list \<Rightarrow> nat list \<Rightarrow> nat list" where
  "chain_loop g seen [] = []"
| "chain_loop g seen (x # stack) =
     (if x \<in> set seen \<or> length g \<le> x then chain_loop g seen stack
      else x # chain_loop g (x # seen) (pushed (g ! x) @ stack))"
  by pat_completeness auto
termination
proof (relation "measures [\<lambda>(g, seen, _). card ({..<length g} - set seen), \<lambda>(_, _, stack). length stack]")
  fix g :: exception_graph and seen :: "nat list" and x :: nat and stack :: "nat list"
  assume "\<not> (x \<in> set seen \<or> length g \<le> x)"
  then have "x \<in> {..<length g} - set seen" and "x \<notin> {..<length g} - set (x # seen)" by simp_all
  moreover have "{..<length g} - set (x # seen) \<subseteq> {..<length g} - set seen" by (intro Diff_mono subset_refl set_subset_Cons)
  ultimately have "{..<length g} - set (x # seen) \<subset> {..<length g} - set seen" by blast
  then have "card ({..<length g} - set (x # seen)) < card ({..<length g} - set seen)"
    by (rule psubset_card_mono [OF finite_Diff [OF finite_lessThan]])
  then show "((g, x # seen, pushed (g ! x) @ stack), (g, seen, x # stack))
    \<in> measures [\<lambda>(g, seen, _). card ({..<length g} - set seen), \<lambda>(_, _, stack). length stack]"
    by simp
qed (simp, simp)

definition iter_error_chain :: "exception_graph \<Rightarrow> nat \<Rightarrow> nat list" where
  "iter_error_chain g e = chain_loop g [] [e]"

definition is_retryable_run_error :: "(string \<Rightarrow> bool) \<Rightarrow> exception_graph \<Rightarrow> nat \<Rightarrow> bool" where
  "is_retryable_run_error installed g e =
     list_ex (\<lambda>i. list_ex (\<lambda>t. t \<in> set (en_classes (g ! i))) (get_retryable_run_error_types installed))
       (iter_error_chain g e)"

definition canonical_run_recovery_retry_limit :: nat where
  "canonical_run_recovery_retry_limit = 1"

definition should_retry_run_error :: "(string \<Rightarrow> bool) \<Rightarrow> exception_graph \<Rightarrow> nat \<Rightarrow> bool \<Rightarrow> nat \<Rightarrow> bool" where
  "should_retry_run_error installed g e saw_streamed_event attempts \<longleftrightarrow>
     \<not> saw_streamed_event \<and> attempts < canonical_run_recovery_retry_limit \<and> is_retryable_run_error installed g e"

section \<open>The walk finds what can be reached\<close>

definition leads_to :: "exception_graph \<Rightarrow> (nat \<times> nat) set" where
  "leads_to g = {(x, y). x < length g \<and> y < length g \<and> y \<in> set (pushed (g ! x))}"

text \<open>What is reached from the stack without passing through what was seen.\<close>

definition closed_under :: "exception_graph \<Rightarrow> nat set \<Rightarrow> nat set \<Rightarrow> bool" where
  "closed_under g seen stack \<longleftrightarrow>
     (\<forall>x \<in> seen. \<forall>y. (x, y) \<in> leads_to g \<longrightarrow> y \<in> seen \<or> y \<in> stack)"

lemma chain_sound:
  "y \<in> set (chain_loop g seen stack) \<Longrightarrow> \<exists>x \<in> set stack. x < length g \<and> (x, y) \<in> (leads_to g)\<^sup>* \<and> y < length g"
proof (induction g seen stack rule: chain_loop.induct)
  case (2 g seen x stack)
  show ?case
  proof (cases "x \<in> set seen \<or> length g \<le> x \<or> y = x")
    case True
    with 2 show ?thesis by (auto split: if_splits)
  next
    case False
    with 2 obtain z where z: "z \<in> set (pushed (g ! x) @ stack)" "z < length g" "(z, y) \<in> (leads_to g)\<^sup>*" "y < length g"
      by auto
    show ?thesis
    proof (cases "z \<in> set stack")
      case False
      with z have "(x, z) \<in> leads_to g" using \<open>\<not> (x \<in> set seen \<or> length g \<le> x \<or> y = x)\<close>
        by (auto simp: leads_to_def)
      then have "(x, y) \<in> (leads_to g)\<^sup>*" using z(3) by (rule converse_rtrancl_into_rtrancl)
      with z(4) \<open>\<not> (x \<in> set seen \<or> length g \<le> x \<or> y = x)\<close> show ?thesis by auto
    qed (use z in auto)
  qed
qed simp

lemma chain_complete:
  assumes "closed_under g (set seen) (set stack)"
  shows "closed_under g (set seen \<union> set (chain_loop g seen stack)) {}
    \<and> {x \<in> set stack. x < length g} \<subseteq> set seen \<union> set (chain_loop g seen stack)"
  using assms
proof (induction g seen stack rule: chain_loop.induct)
  case (1 g seen)
  then show ?case by (simp add: closed_under_def)
next
  case (2 g seen x stack)
  show ?case
  proof (cases "x \<in> set seen \<or> length g \<le> x")
    case True
    have "closed_under g (set seen) (set stack)"
      using 2(3) True by (fastforce simp: closed_under_def leads_to_def)
    from 2(1) [OF True this] True show ?thesis by auto
  next
    case False
    have "closed_under g (set (x # seen)) (set (pushed (g ! x) @ stack))"
      using 2(3) by (fastforce simp: closed_under_def leads_to_def)
    from 2(2) [OF False this] False show ?thesis by auto
  qed
qed

lemma chain_distinct: "distinct (chain_loop g seen stack) \<and> set seen \<inter> set (chain_loop g seen stack) = {}"
  by (induction g seen stack rule: chain_loop.induct) auto

lemma iterated:
  assumes "e < length g"
  shows "set (iter_error_chain g e) = {y. (e, y) \<in> (leads_to g)\<^sup>*} \<and> distinct (iter_error_chain g e)"
proof
  let ?c = "iter_error_chain g e"
  have c: "closed_under g (set ?c) {} \<and> {e} \<subseteq> set ?c"
    using chain_complete [of g "[]" "[e]"] assms by (auto simp: closed_under_def iter_error_chain_def)
  have "y \<in> set ?c" if "(e, y) \<in> (leads_to g)\<^sup>*" for y
    using that by induction (use c in \<open>auto simp: closed_under_def\<close>)
  moreover have "(e, y) \<in> (leads_to g)\<^sup>*" if "y \<in> set ?c" for y
    using chain_sound [of y g "[]" "[e]"] that by (simp add: iter_error_chain_def)
  ultimately show "set ?c = {y. (e, y) \<in> (leads_to g)\<^sup>*}" by blast
  show "distinct ?c" using chain_distinct [of g "[]" "[e]"] by (simp add: iter_error_chain_def)
qed

text \<open>
  C32: A failure is tried again exactly when it may be: nothing was streamed, it is the first time, and an
  exception of a transient kind can be reached from the failure through members of groups, causes and
  contexts. The walk ends on every graph, cycles included.
\<close>

theorem retried_iff_transient_cause:
  assumes "e < length g"
  shows "should_retry_run_error installed g e saw attempts \<longleftrightarrow>
    \<not> saw \<and> attempts = 0 \<and>
    (\<exists>i. (e, i) \<in> (leads_to g)\<^sup>* \<and>
       (\<exists>t \<in> set (get_retryable_run_error_types installed). t \<in> set (en_classes (g ! i))))"
  using iterated [OF assms]
  by (auto simp: should_retry_run_error_def is_retryable_run_error_def canonical_run_recovery_retry_limit_def
      list_ex_iff)

text \<open>A group whose member was caused by a time-out that has the group as its context.\<close>

definition sample_errors :: exception_graph where
  "sample_errors =
     [\<lparr>en_classes = [''ExceptionGroup''], en_exceptions = [1], en_cause = None, en_context = None\<rparr>,
      \<lparr>en_classes = [''RuntimeError''], en_exceptions = [], en_cause = Some 2, en_context = None\<rparr>,
      \<lparr>en_classes = [''TimeoutError''], en_exceptions = [], en_cause = None, en_context = Some 0\<rparr>]"

theorem retried_iff_transient_cause_witness:
  "should_retry_run_error (\<lambda>_. False) sample_errors 0 False 0 \<and> iter_error_chain sample_errors 0 = [0, 1, 2]"
proof
  have "(0, 1) \<in> leads_to sample_errors" "(1, 2) \<in> leads_to sample_errors"
    by (simp_all add: leads_to_def pushed_def sample_errors_def numeral_eq_Suc)
  then have "(0, 2) \<in> (leads_to sample_errors)\<^sup>*" by (meson rtrancl.simps)
  moreover have "''TimeoutError'' \<in> set (en_classes (sample_errors ! 2))"
    and "''TimeoutError'' \<in> set (get_retryable_run_error_types (\<lambda>_. False))"
    by (simp_all add: sample_errors_def get_retryable_run_error_types_def numeral_eq_Suc)
  moreover have "0 < length sample_errors" by (simp add: sample_errors_def)
  ultimately show "should_retry_run_error (\<lambda>_. False) sample_errors 0 False 0"
    using retried_iff_transient_cause [of 0 sample_errors "\<lambda>_. False" False 0] by blast
  show "iter_error_chain sample_errors 0 = [0, 1, 2]"
    by (simp add: iter_error_chain_def sample_errors_def pushed_def numeral_eq_Suc)
qed

end
