(* ===== verification/Failed_Runs.thy ===== *)
theory Failed_Runs
  imports Session_Log
begin

text \<open>
  What a failed run is persisted with: the messages \<open>sanitize_failed_run_messages\<close> and
  \<open>strip_internal_prompt_state\<close> leave of a conversation that stopped anywhere, against the validator
  of \<open>session/jsonl.py\<close> that the session is closed and loaded with.
\<close>

section \<open>Conversations\<close>

text \<open>
  A conversation as the runtime records it: responses hold no tool returns, every call has an id of its
  own, and a return follows the call it answers, under the same name.
\<close>

definition message_parts_of :: "model_message list \<Rightarrow> message_part list" where
  "message_parts_of ms = concat (map message_parts ms)"

fun calls_ordered :: "pending_calls \<Rightarrow> message_part list \<Rightarrow> bool" where
  "calls_ordered known [] = True"
| "calls_ordered known (p # ps) =
     (case p of
        Tool_call_part n i _ \<Rightarrow> i \<notin> fst ` set known \<and> calls_ordered ((i, n) # known) ps
      | Tool_return_part n i _ \<Rightarrow> (i, n) \<in> set known \<and> calls_ordered known ps
      | _ \<Rightarrow> calls_ordered known ps)"

definition typed_message :: "model_message \<Rightarrow> bool" where
  "typed_message m \<longleftrightarrow> is_request m \<or> list_all (\<lambda>p. \<not> is_tool_return p) (message_parts m)"

definition recorded_conversation :: "model_message list \<Rightarrow> bool" where
  "recorded_conversation ms \<longleftrightarrow> list_all typed_message ms \<and> calls_ordered [] (message_parts_of ms)"

text \<open>Every call has a return later on.\<close>

fun answered :: "message_part list \<Rightarrow> bool" where
  "answered [] = True"
| "answered (p # ps) =
     ((is_tool_call p \<longrightarrow> (\<exists>r \<in> set ps. is_tool_return r \<and> part_call_id r = part_call_id p)) \<and> answered ps)"

lemma message_parts_of_simps [simp]:
  "message_parts_of [] = []"
  "message_parts_of (m # ms) = message_parts m @ message_parts_of ms"
  "message_parts_of (as @ bs) = message_parts_of as @ message_parts_of bs"
  by (simp_all add: message_parts_of_def)

section \<open>Calls and returns that are left\<close>

lemma later_calls_new: "calls_ordered known ps \<Longrightarrow> c \<in> set ps \<Longrightarrow> is_tool_call c \<Longrightarrow> part_call_id c \<notin> fst ` set known"
  by (induction known ps rule: calls_ordered.induct) (force split: message_part.splits)+

definition kept_part :: "string set \<Rightarrow> message_part \<Rightarrow> bool" where
  "kept_part unpaired p \<longleftrightarrow> \<not> ((is_tool_call p \<or> is_tool_return p) \<and> part_call_id p \<in> unpaired)"

lemma kept_ordered:
  "calls_ordered known ps \<Longrightarrow>
     calls_ordered (filter (\<lambda>k. fst k \<notin> unpaired) known) (filter (kept_part unpaired) ps)"
  by (induction known ps rule: calls_ordered.induct) (auto simp: kept_part_def split: message_part.splits)

lemma kept_answered:
  assumes "calls_ordered known ps"
    and "\<forall>c \<in> set ps. is_tool_call c \<and> kept_part unpaired c \<longrightarrow>
      (\<exists>r \<in> set ps. is_tool_return r \<and> part_call_id r = part_call_id c)"
  shows "answered (filter (kept_part unpaired) ps)"
  using assms
proof (induction ps arbitrary: known)
  case Nil
  then show ?case by simp
next
  case (Cons p ps)
  from Cons.prems(1) obtain known' where ordered: "calls_ordered known' ps"
    and grows: "set known \<subseteq> set known'"
    and ret: "is_tool_return p \<Longrightarrow> part_call_id p \<in> fst ` set known'"
    by (cases p) force+
  have "\<exists>r \<in> set ps. is_tool_return r \<and> part_call_id r = part_call_id c"
    if c: "c \<in> set ps" "is_tool_call c" "kept_part unpaired c" for c
  proof -
    obtain r where r: "r \<in> set (p # ps)" "is_tool_return r" "part_call_id r = part_call_id c"
      using Cons.prems(2) c by (meson list.set_intros(2))
    have "r \<noteq> p" using ret later_calls_new [OF ordered c(1,2)] r by auto
    with r show ?thesis by auto
  qed
  then have "answered (filter (kept_part unpaired) ps)" using Cons.IH [OF ordered] by blast
  moreover have "\<exists>r \<in> set (filter (kept_part unpaired) ps). is_tool_return r \<and> part_call_id r = part_call_id p"
    if p: "is_tool_call p" "kept_part unpaired p"
  proof -
    obtain r where r: "r \<in> set (p # ps)" "is_tool_return r" "part_call_id r = part_call_id p"
      using Cons.prems(2) p by (meson list.set_intros(1))
    then have "kept_part unpaired r" using p by (simp add: kept_part_def)
    moreover have "r \<noteq> p" using r(2) p(1) by (cases p) auto
    ultimately show ?thesis using r by auto
  qed
  ultimately show ?case by simp
qed

lemma part_steps:
  "message_part_step pending (Tool_call_part n i a) =
     (if map_of pending i \<noteq> None then Inl Message_call_reused else Inr ((i, n) # pending))"
  "message_part_step pending (Tool_return_part n i a) =
     (case map_of pending i of
        None \<Rightarrow> Inr pending
      | Some m \<Rightarrow> if m \<noteq> n then Inl Message_return_wrong_name else Inr (drop_call i pending))"
  "message_part_step pending (Retry_prompt_part i s) = Inr (drop_call i pending)"
  "\<not> is_tool_call p \<Longrightarrow> \<not> is_tool_return p \<Longrightarrow> \<not> is_retry_prompt p \<Longrightarrow> message_part_step pending p = Inr pending"
  by (cases p; simp add: message_part_step_def)+

lemma answered_accepted:
  assumes "calls_ordered known ps" and "answered ps" and "set pending \<subseteq> set known" and "distinct (map fst known)"
    and "\<forall>i \<in> fst ` set pending. \<exists>r \<in> set ps. is_tool_return r \<and> part_call_id r = i"
  shows "run_steps message_part_step pending ps = Inr []"
  using assms
proof (induction ps arbitrary: known pending)
  case Nil
  then show ?case by auto
next
  case (Cons p ps)
  note IH = Cons.IH and ord = Cons.prems(1) and sub = Cons.prems(3) and dis = Cons.prems(4)
  note due = Cons.prems(5)
  have later: "\<forall>i \<in> fst ` set q. \<exists>r \<in> set ps. is_tool_return r \<and> part_call_id r = i"
    if "fst ` set q \<subseteq> fst ` set pending" "is_tool_return p \<longrightarrow> part_call_id p \<notin> fst ` set q" for q
  proof
    fix i
    assume i: "i \<in> fst ` set q"
    with that(1) have "i \<in> fst ` set pending" ..
    with due obtain r where r: "r \<in> set (p # ps)" "is_tool_return r" "part_call_id r = i" by metis
    with that(2) i have "r \<noteq> p" by auto
    with r show "\<exists>r \<in> set ps. is_tool_return r \<and> part_call_id r = i" by auto
  qed
  have ans: "answered ps" using Cons.prems(2) by simp
  have dropped: "set (drop_call i pending) \<subseteq> set pending" "i \<notin> fst ` set (drop_call i pending)" for i
    by (auto simp: drop_call_def)
  have drop: "run_steps message_part_step (drop_call i pending) ps = Inr []"
    if "calls_ordered known ps" "is_tool_return p \<longrightarrow> part_call_id p = i" for i
  proof (rule IH [OF that(1) ans _ dis])
    show "set (drop_call i pending) \<subseteq> set known" using dropped(1) [of i] sub by (rule subset_trans)
    show "\<forall>j \<in> fst ` set (drop_call i pending). \<exists>r \<in> set ps. is_tool_return r \<and> part_call_id r = j"
      using dropped [of i] that(2) by (intro later image_mono) simp_all
  qed
  have keep: "run_steps message_part_step pending ps = Inr []"
    if "calls_ordered known ps" "is_tool_return p \<longrightarrow> part_call_id p \<notin> fst ` set pending"
    by (rule IH [OF that(1) ans sub dis later [OF subset_refl that(2)]])
  show ?case
  proof (cases p)
    case (Tool_call_part n i a)
    then have new: "i \<notin> fst ` set known" and rest: "calls_ordered ((i, n) # known) ps"
      and r: "\<exists>r \<in> set ps. is_tool_return r \<and> part_call_id r = i"
      using ord Cons.prems(2) by simp_all
    from new sub have "i \<notin> fst ` set pending" by blast
    then have "map_of pending i = None" by (simp add: map_of_eq_None_iff)
    moreover have "run_steps message_part_step ((i, n) # pending) ps = Inr []"
    proof (rule IH [OF rest ans])
      show "set ((i, n) # pending) \<subseteq> set ((i, n) # known)" using sub by auto
      show "distinct (map fst ((i, n) # known))" using dis new by simp
      have "\<not> is_tool_return p" by (simp add: Tool_call_part)
      then show "\<forall>j \<in> fst ` set ((i, n) # pending). \<exists>r \<in> set ps. is_tool_return r \<and> part_call_id r = j"
        using later [OF subset_refl] r by simp
    qed
    ultimately show ?thesis by (simp add: part_steps Tool_call_part)
  next
    case (Tool_return_part n i a)
    then have known: "(i, n) \<in> set known" and rest: "calls_ordered known ps" using ord by simp_all
    show ?thesis
    proof (cases "map_of pending i")
      case None
      then have "i \<notin> fst ` set pending" by (simp add: map_of_eq_None_iff)
      with keep [OF rest] None show ?thesis by (simp add: part_steps Tool_return_part)
    next
      case (Some m)
      then have "(i, m) \<in> set known" using sub by (meson map_of_SomeD subsetD)
      then have "m = n" using known dis by (metis eq_key_imp_eq_value)
      with drop [OF rest, of i] Some show ?thesis by (simp add: part_steps Tool_return_part)
    qed
  next
    case (Retry_prompt_part i s)
    with drop [of i] ord show ?thesis by (simp add: part_steps)
  qed (use keep ord in \<open>simp_all add: part_steps\<close>)
qed

section \<open>The tail of corrections\<close>

declare strip_correction_loop.simps(2) [simp del]

lemma answered_member:
  "answered ps \<Longrightarrow> ps = as @ c # bs \<Longrightarrow> is_tool_call c \<Longrightarrow> \<exists>r \<in> set bs. is_tool_return r \<and> part_call_id r = part_call_id c"
  by (induction as arbitrary: ps) auto

lemma answered_prefix:
  "answered (as @ bs) \<Longrightarrow> list_all (\<lambda>p. \<not> is_tool_return p) bs \<Longrightarrow> answered as"
  by (induction as) (auto simp: list_all_iff)

lemma retry_no_return: "is_retry_prompt p \<Longrightarrow> \<not> is_tool_return p"
  by (cases p) auto

lemma correction_loop_stops:
  "\<not> (is_request m \<and> filter is_retry_prompt (message_parts m) \<noteq> []
      \<and> length (filter is_retry_prompt (message_parts m)) = length (message_parts m))
     \<Longrightarrow> strip_correction_loop (m # ms) = m # ms"
  unfolding strip_correction_loop.simps(2) [of m] Let_def by auto

lemma correction_loop_last:
  assumes "is_request m" and "filter is_retry_prompt (message_parts m) \<noteq> []"
    and "length (filter is_retry_prompt (message_parts m)) = length (message_parts m)"
  shows "strip_correction_loop [m] = []"
    and "is_request previous \<Longrightarrow> strip_correction_loop (m # previous # rest) = previous # rest"
  using assms unfolding strip_correction_loop.simps(2) [of m] Let_def by simp_all

lemma correction_loop_step:
  assumes "is_request m" and "filter is_retry_prompt (message_parts m) \<noteq> []"
    and "length (filter is_retry_prompt (message_parts m)) = length (message_parts m)"
    and "\<not> is_request previous" and "\<forall>p \<in> set (message_parts previous). \<not> is_tool_call p"
  shows "strip_correction_loop (m # previous # rest) =
    strip_correction_loop (if message_parts previous = [] then rest else previous # rest)"
proof -
  have "filter (\<lambda>p. \<not> (is_tool_call p \<and> part_call_id p \<in> ids)) (message_parts previous) = message_parts previous" for ids
    using assms(5) by (intro filter_True) blast
  with assms(1-4) show ?thesis
    unfolding strip_correction_loop.simps(2) [of m] Let_def by simp
qed

lemma corrections_stripped:
  assumes "answered (message_parts_of (rev ms))" and "list_all typed_message ms"
  shows "\<exists>rs. list_all is_retry_prompt rs
    \<and> message_parts_of (rev ms) = message_parts_of (rev (strip_correction_loop ms)) @ rs"
  using assms
proof (induction ms rule: length_induct)
  case (1 l)
  show ?case
  proof (cases l)
    case Nil
    then show ?thesis by simp
  next
    case (Cons m ms)
    let ?retries = "filter is_retry_prompt (message_parts m)"
    show ?thesis
    proof (cases "is_request m \<and> ?retries \<noteq> [] \<and> length ?retries = length (message_parts m)")
      case False
      then have "strip_correction_loop l = l" unfolding Cons by (rule correction_loop_stops)
      then show ?thesis by simp
    next
      case m: True
      then have m': "is_request m" "?retries \<noteq> []" "length ?retries = length (message_parts m)" by blast+
      then have retries: "list_all is_retry_prompt (message_parts m)"
        using keep_all [of is_retry_prompt "message_parts m"] by (simp add: list_all_iff)
      have noret: "\<forall>p \<in> set (message_parts m). \<not> is_tool_return p"
        using retries by (auto simp: list_all_iff retry_no_return)
      show ?thesis
      proof (cases ms)
        case Nil
        have "strip_correction_loop l = []" unfolding Cons Nil by (rule correction_loop_last(1) [OF m'])
        then show ?thesis using retries by (simp add: Cons Nil)
      next
        case ms: (Cons previous rest)
        show ?thesis
        proof (cases "is_request previous")
          case True
          then have "strip_correction_loop l = ms"
            unfolding Cons ms by (intro correction_loop_last(2) [OF m'])
          then show ?thesis using retries by (simp add: Cons)
        next
          case response: False
          have noprev: "\<forall>p \<in> set (message_parts previous). \<not> is_tool_return p"
            using 1(3) response by (simp add: Cons ms typed_message_def list_all_iff)
          have "\<not> is_tool_call p" if "p \<in> set (message_parts previous)" for p
          proof
            assume c: "is_tool_call p"
            from that obtain as bs where parts: "message_parts previous = as @ p # bs"
              by (auto simp: in_set_conv_decomp)
            have "message_parts_of (rev l) = (message_parts_of (rev rest) @ as) @ p # (bs @ message_parts m)"
              by (simp add: Cons ms parts)
            from answered_member [OF 1(2) this c] obtain r where "r \<in> set (bs @ message_parts m)" "is_tool_return r"
              by blast
            moreover have "set (bs @ message_parts m) \<subseteq> set (message_parts previous) \<union> set (message_parts m)"
              by (auto simp: parts)
            ultimately show False using noret noprev by blast
          qed
          then have loop: "strip_correction_loop l =
              strip_correction_loop (if message_parts previous = [] then rest else ms)"
            unfolding Cons ms using response by (intro correction_loop_step [OF m']) blast+
          let ?l = "if message_parts previous = [] then rest else ms"
          have parts: "message_parts_of (rev l) = message_parts_of (rev ?l) @ message_parts m"
            by (simp add: Cons ms)
          have "answered (message_parts_of (rev ?l))"
          proof (rule answered_prefix)
            show "answered (message_parts_of (rev ?l) @ message_parts m)" using 1(2) by (simp only: parts)
            show "list_all (\<lambda>p. \<not> is_tool_return p) (message_parts m)" using noret by (simp only: list_all_iff)
          qed
          moreover have "length ?l < length l" "list_all typed_message ?l"
            using 1(3) by (simp_all add: Cons ms)
          ultimately obtain rs where rs: "list_all is_retry_prompt rs"
            and eq: "message_parts_of (rev ?l) = message_parts_of (rev (strip_correction_loop ?l)) @ rs"
            using 1(1) by blast
          show ?thesis
            unfolding parts loop eq
            by (intro exI [of _ "rs @ message_parts m"] conjI) (simp_all only: list_all_append rs retries append_assoc)
        qed
      qed
    qed
  qed
qed

section \<open>A failed run can be closed\<close>

lemma keep_parts_step:
  "keep_parts P (m # ms) =
     (if filter P (message_parts m) = [] then [] else [with_parts (filter P (message_parts m)) m]) @ keep_parts P ms"
proof (cases "length (filter P (message_parts m)) = length (message_parts m)")
  case True
  then have "filter P (message_parts m) = message_parts m" by (simp only: keep_all filter_True)
  then show ?thesis by (simp add: Let_def)
qed (simp add: Let_def)

lemma parts_filtered: "message_parts_of (keep_parts P ms) = filter P (message_parts_of ms)"
proof (induction ms)
  case (Cons m ms)
  then show ?case by (simp del: keep_parts.simps add: keep_parts_step)
qed simp

lemma typed_filtered: "list_all typed_message ms \<Longrightarrow> list_all typed_message (keep_parts P ms)"
proof (induction ms)
  case (Cons m ms)
  then have "typed_message (with_parts (filter P (message_parts m)) m)"
    by (auto simp: typed_message_def list_all_iff)
  with Cons show ?case by (simp del: keep_parts.simps add: keep_parts_step)
qed simp

lemma internal_state_ignored:
  "run_steps message_step pending (strip_internal_prompt_state ms) = run_steps message_part_step pending (message_parts_of ms)"
proof (induction ms arbitrary: pending)
  case Nil
  then show ?case by simp
next
  case (Cons m ms)
  have sys: "run_steps message_part_step q (filter (\<lambda>p. \<not> is_system_part p) ps) = run_steps message_part_step q ps" for q ps
  proof (induction ps arbitrary: q)
    case (Cons p ps)
    then show ?case by (cases p) (simp_all add: part_steps)
  qed simp
  show ?case
  proof (cases m)
    case (Model_request ps i)
    let ?kept = "filter (\<lambda>p. \<not> is_system_part p) ps"
    have "message_step pending (Model_request ?kept None) = run_steps message_part_step pending ps"
      by (simp add: message_step_def sys)
    moreover have "?kept = [] \<Longrightarrow> run_steps message_part_step pending ps = Inr pending"
      using sys [of pending ps] by simp
    ultimately show ?thesis
      using Cons.IH by (simp add: Model_request Let_def run_steps_append)
  next
    case (Model_response ps)
    then show ?thesis using Cons.IH by (simp add: message_step_def run_steps_append)
  qed
qed

lemma stripped_unpaired:
  "strip_unpaired_tool_parts ms =
     (if unpaired_ids ms = {} then ms else keep_parts (kept_part (unpaired_ids ms)) ms)"
  unfolding strip_unpaired_tool_parts_def Let_def kept_part_def [abs_def] by (rule refl)

lemma paired_conversation:
  assumes "recorded_conversation ms"
  shows "answered (message_parts_of (strip_unpaired_tool_parts ms))"
    and "calls_ordered [] (message_parts_of (strip_unpaired_tool_parts ms))"
    and "list_all typed_message (strip_unpaired_tool_parts ms)"
proof -
  let ?u = "unpaired_ids ms" and ?ps = "message_parts_of ms"
  have ord: "calls_ordered [] ?ps" and typed: "list_all typed_message ms"
    using assms by (simp_all add: recorded_conversation_def)
  have "filter (kept_part {}) ?ps = ?ps" by (simp add: kept_part_def)
  then have parts: "message_parts_of (strip_unpaired_tool_parts ms) = filter (kept_part ?u) ?ps"
    unfolding stripped_unpaired by (cases "?u = {}") (simp_all only: if_True if_False parts_filtered simp_thms)
  have all: "all_parts ms = set ?ps" by (simp add: all_parts_def message_parts_of_def)
  have "\<exists>r \<in> set ?ps. is_tool_return r \<and> part_call_id r = part_call_id c"
    if "c \<in> set ?ps" "is_tool_call c" "kept_part ?u c" for c
  proof -
    from that(1,2) have "part_call_id c \<in> message_call_ids ms" by (auto simp: ids_parts all)
    moreover from that(2,3) have "part_call_id c \<notin> ?u" by (simp add: kept_part_def)
    ultimately have "part_call_id c \<in> message_return_ids ms" by (simp add: unpaired_ids_def)
    then obtain r where "r \<in> set ?ps" "is_tool_return r" "part_call_id c = part_call_id r"
      unfolding ids_parts all by blast
    then show ?thesis by metis
  qed
  then show "answered (message_parts_of (strip_unpaired_tool_parts ms))"
    unfolding parts by (intro kept_answered [OF ord]) blast
  show "calls_ordered [] (message_parts_of (strip_unpaired_tool_parts ms))"
    using kept_ordered [OF ord, of ?u] by (simp only: parts filter.simps)
  from typed typed_filtered [OF typed] show "list_all typed_message (strip_unpaired_tool_parts ms)"
    unfolding stripped_unpaired by (cases "?u = {}") (simp_all only: if_True if_False simp_thms)
qed

lemma calls_ordered_prefix: "calls_ordered known (as @ bs) \<Longrightarrow> calls_ordered known as"
  by (induction known as rule: calls_ordered.induct) (auto split: message_part.splits)

lemma sanitized_accepted:
  assumes "recorded_conversation ms"
  shows "validate_run_messages (strip_internal_prompt_state (sanitize_failed_run_messages ms)) = Inr ()"
proof -
  let ?p = "strip_unpaired_tool_parts ms"
  note paired = paired_conversation [OF assms]
  have san: "sanitize_failed_run_messages ms = rev (strip_correction_loop (rev ?p))"
    by (simp add: sanitize_failed_run_messages_def strip_failed_correction_tail_def)
  have "answered (message_parts_of (rev (rev ?p)))" "list_all typed_message (rev ?p)"
    using paired by (simp_all only: rev_rev_ident list.pred_set set_rev)
  from corrections_stripped [OF this] obtain rs where rs: "list_all is_retry_prompt rs"
    and parts: "message_parts_of ?p = message_parts_of (sanitize_failed_run_messages ms) @ rs"
    unfolding san rev_rev_ident by blast
  have "list_all (\<lambda>p. \<not> is_tool_return p) rs"
    using rs by (simp add: list_all_iff retry_no_return)
  then have "answered (message_parts_of (sanitize_failed_run_messages ms))"
    using paired(1) answered_prefix unfolding parts by blast
  moreover have "calls_ordered [] (message_parts_of (sanitize_failed_run_messages ms))"
    using paired(2) unfolding parts by (rule calls_ordered_prefix)
  ultimately have "run_steps message_part_step [] (message_parts_of (sanitize_failed_run_messages ms)) = Inr []"
    using answered_accepted [of "[]" _ "[]"] by simp
  then show ?thesis by (simp add: validate_run_messages_def internal_state_ignored)
qed

text \<open>
  Wherever a run stops, what is persisted of it is valid: for a conversation as the runtime records it,
  cut off anywhere (calls without a return, corrections pending, instructions and system prompts in
  it), the sanitized messages pass the validation of the session log.
\<close>

theorem failed_runs_can_be_closed:
  assumes "recorded_conversation ms"
  shows "validate_run_messages (strip_internal_prompt_state (sanitize_failed_run_messages ms)) = Inr ()"
  using assms by (rule sanitized_accepted)

section \<open>Corrections that stay\<close>

text \<open>
  A tool call that failed is answered with a retry prompt and made again: the messages of such
  corrections, and a last call that was not answered any more.
\<close>

type_synonym failed_call = "string \<times> string \<times> tool_payload \<times> ustr"

fun correction_messages :: "failed_call list \<Rightarrow> model_message list" where
  "correction_messages [] = []"
| "correction_messages ((n, i, a, s) # cs) =
     Model_response [Tool_call_part n i a] # Model_request [Retry_prompt_part i s] None # correction_messages cs"

fun retry_message :: "failed_call \<Rightarrow> model_message" where
  "retry_message (_, i, _, s) = Model_request [Retry_prompt_part i s] None"

definition last_call :: "(string \<times> string \<times> tool_payload) option \<Rightarrow> model_message list" where
  "last_call t = (case t of None \<Rightarrow> [] | Some (n, i, a) \<Rightarrow> [Model_response [Tool_call_part n i a]])"

definition open_ids :: "failed_call list \<Rightarrow> (string \<times> string \<times> tool_payload) option \<Rightarrow> string set" where
  "open_ids cs t = (\<lambda>(_, i, _, _). i) ` set cs \<union> (\<lambda>(_, i, _). i) ` set_option t"

lemma ids_simps:
  "message_call_ids [] = {}" "message_return_ids [] = {}"
  "message_call_ids (m # ms) = part_call_id ` set (filter is_tool_call (message_parts m)) \<union> message_call_ids ms"
  "message_return_ids (m # ms) = part_call_id ` set (filter is_tool_return (message_parts m)) \<union> message_return_ids ms"
  by (auto simp: ids_parts)

lemma ids_append:
  "message_call_ids (as @ bs) = message_call_ids as \<union> message_call_ids bs"
  "message_return_ids (as @ bs) = message_return_ids as \<union> message_return_ids bs"
  by (induction as) (auto simp: ids_simps)

lemma correction_ids:
  "message_call_ids (correction_messages cs @ last_call t) = open_ids cs t"
  "message_return_ids (correction_messages cs @ last_call t) = {}"
proof -
  have "message_call_ids (last_call t) = (\<lambda>(_, i, _). i) ` set_option t" "message_return_ids (last_call t) = {}"
    by (cases t; simp add: last_call_def ids_simps split: prod.splits)+
  moreover have "message_call_ids (correction_messages cs) = (\<lambda>(_, i, _, _). i) ` set cs"
    "message_return_ids (correction_messages cs) = {}"
    by (induction cs rule: correction_messages.induct) (simp_all add: ids_simps)
  ultimately show "message_call_ids (correction_messages cs @ last_call t) = open_ids cs t"
    "message_return_ids (correction_messages cs @ last_call t) = {}"
    by (simp_all add: ids_append open_ids_def)
qed

lemma keep_parts_append: "keep_parts P (as @ bs) = keep_parts P as @ keep_parts P bs"
  by (induction as) (simp_all add: keep_parts_step del: keep_parts.simps(2))

lemma keep_parts_all:
  "\<forall>m \<in> set ms. message_parts m \<noteq> [] \<Longrightarrow> \<forall>p \<in> all_parts ms. P p \<Longrightarrow> keep_parts P ms = ms"
  by (induction ms) (auto simp: keep_parts_step filter_empty_conv filter_id_conv simp del: keep_parts.simps(2))

lemma corrections_kept:
  "open_ids cs t \<subseteq> unpaired \<Longrightarrow>
     keep_parts (kept_part unpaired) (correction_messages cs @ last_call t) = map retry_message cs"
  by (induction cs rule: correction_messages.induct; cases t)
    (auto simp: keep_parts_step kept_part_def open_ids_def last_call_def simp del: keep_parts.simps(2))

text \<open>
  The tail of corrections is not removed: the calls are stripped first, so that the loop meets a request
  before the last retry prompt and stops. Of the retry prompts of a run that failed in its second or a later
  correction only the last is dropped; the others stay, without the calls they answer.
\<close>

theorem retry_prompts_outlive_their_calls:
  assumes "\<forall>m \<in> set ms. message_parts m \<noteq> []" and "unpaired_ids ms = {}"
    and "open_ids cs t \<inter> message_call_ids ms = {}" and "2 \<le> length cs"
  shows "sanitize_failed_run_messages (ms @ correction_messages cs @ last_call t) = ms @ map retry_message (butlast cs)"
proof -
  let ?t = "correction_messages cs @ last_call t"
  have ids: "message_call_ids ms = message_return_ids ms" using assms(2) by (auto simp: unpaired_ids_def)
  then have unpaired: "unpaired_ids (ms @ ?t) = open_ids cs t"
    using assms(3) unfolding unpaired_ids_def ids_append [of ms] correction_ids by blast
  have "open_ids cs t \<noteq> {}" using assms(4) by (cases cs) (auto simp: open_ids_def)
  have "part_call_id p \<in> message_call_ids ms" if "p \<in> all_parts ms" "is_tool_call p \<or> is_tool_return p" for p
    using that ids by (cases "is_tool_call p") (auto simp: ids_parts)
  then have "\<forall>p \<in> all_parts ms. kept_part (open_ids cs t) p"
    using assms(3) by (auto simp: kept_part_def)
  with assms(1) have "keep_parts (kept_part (open_ids cs t)) ms = ms" by (rule keep_parts_all)
  then have stripped: "strip_unpaired_tool_parts (ms @ ?t) = ms @ map retry_message cs"
    using \<open>open_ids cs t \<noteq> {}\<close>
    by (simp add: stripped_unpaired unpaired keep_parts_append [of _ ms] corrections_kept)
  obtain ds c d where cs: "cs = ds @ [c, d]"
    using assms(4) by (cases cs rule: rev_cases; cases "butlast cs" rule: rev_cases) (auto simp: butlast_append)
  have "strip_correction_loop (retry_message d # retry_message c # map retry_message (rev ds) @ rev ms)
      = retry_message c # map retry_message (rev ds) @ rev ms"
    by (cases c; cases d) (simp add: correction_loop_last)
  then show ?thesis
    unfolding sanitize_failed_run_messages_def strip_failed_correction_tail_def stripped
    by (simp add: cs rev_map butlast_append)
qed

section \<open>Concrete conversations\<close>

definition sample_conversation :: "model_message list" where
  "sample_conversation =
     [Model_request [System_prompt_part [83], User_prompt_part (Prompt_text [81])] (Some [73]),
      Model_response [Text_part [65], Tool_call_part ''read'' ''c1'' No_payload],
      Model_request [Tool_return_part ''read'' ''c1'' (Payload_text [79])] None]"

definition sample_corrections :: "failed_call list" where
  "sample_corrections = [(''edit'', ''c2'', No_payload, [82]), (''edit'', ''c3'', No_payload, [82])]"

definition sample_last :: "(string \<times> string \<times> tool_payload) option" where
  "sample_last = Some (''edit'', ''c4'', No_payload)"

theorem failed_runs_can_be_closed_witness:
  "recorded_conversation (sample_conversation @ correction_messages sample_corrections @ last_call sample_last)
   \<and> validate_run_messages (strip_internal_prompt_state (sanitize_failed_run_messages
       (sample_conversation @ correction_messages sample_corrections @ last_call sample_last))) = Inr ()"
proof -
  have "recorded_conversation (sample_conversation @ correction_messages sample_corrections @ last_call sample_last)"
    by (simp add: recorded_conversation_def sample_conversation_def sample_corrections_def sample_last_def
        last_call_def typed_message_def)
  with failed_runs_can_be_closed [OF this] show ?thesis by blast
qed

theorem retry_prompts_outlive_their_calls_witness:
  "sanitize_failed_run_messages (sample_conversation @ correction_messages sample_corrections @ last_call sample_last)
   = sample_conversation @ [Model_request [Retry_prompt_part ''c2'' [82]] None]"
proof -
  have ids: "message_call_ids sample_conversation = {''c1''}" "message_return_ids sample_conversation = {''c1''}"
    by (simp_all add: ids_simps sample_conversation_def)
  have "sanitize_failed_run_messages (sample_conversation @ correction_messages sample_corrections @ last_call sample_last)
      = sample_conversation @ map retry_message (butlast sample_corrections)"
    by (rule retry_prompts_outlive_their_calls)
      (simp_all add: unpaired_ids_def ids, simp_all add: sample_conversation_def open_ids_def sample_corrections_def sample_last_def)
  then show ?thesis by (simp add: sample_corrections_def)
qed

end
