(* ===== verification/Turn_Context.thy ===== *)
theory Turn_Context
  imports Session_Contract Workspace_Paths "HOL-Library.AList" "HOL-Library.Char_ord" "HOL-Library.List_Lexorder"
begin

text \<open>
  \<open>runtime/turn_context.py\<close> with the context text of \<open>runtime/agent.py\<close>: what the model is told of
  its surroundings, whether what an earlier run was told still holds, and what is injected into the
  history when it does not. The label of the model, the present day, the platform's shell and time
  zone, and the decoding of paths are inputs.
\<close>

section \<open>The surroundings of a run\<close>

record turn_environment =
  te_fs :: file_system
  te_today :: ustr
  te_shell_family :: shell_family
  te_timezone :: ustr
  te_text :: "string \<Rightarrow> ustr"

text \<open>
  An inventory is a snapshot or, a subclass of it, the entry of a session log. Two models are equal
  only when they have the same class, so an entry never equals a snapshot.
\<close>

datatype inventory_value =
    Inventory_snapshot "session_mcp_inventory_tool list"
  | Inventory_entry session_mcp_inventory_entry

fun inventory_tools :: "inventory_value \<Rightarrow> session_mcp_inventory_tool list" where
  "inventory_tools (Inventory_snapshot tools) = tools"
| "inventory_tools (Inventory_entry e) = smi_tools e"

record turn_request =
  tq_model :: string
  tq_workspace_root :: string
  tq_current_date :: "ustr option"
  tq_shell_family :: "shell_family option"
  tq_timezone :: "ustr option"
  tq_thinking :: "thinking_setting option"
  tq_effective_capabilities :: "effective_capabilities option"
  tq_mcp_inventory :: "inventory_value option"

definition or_default :: "'a option \<Rightarrow> 'a \<Rightarrow> 'a" where
  "or_default x d = (case x of None \<Rightarrow> d | Some v \<Rightarrow> v)"

definition resolve_effective_capabilities :: "effective_capabilities option \<Rightarrow> effective_capabilities" where
  "resolve_effective_capabilities c =
     or_default c (ps_effective_capabilities build_default_permission_state)"

text \<open>Equality of capabilities: the overrides by kind are a dictionary.\<close>

definition same_capabilities :: "effective_capabilities \<Rightarrow> effective_capabilities \<Rightarrow> bool" where
  "same_capabilities a b \<longleftrightarrow>
     ec_filesystem_access a = ec_filesystem_access b \<and> ec_network_access a = ec_network_access b
     \<and> ec_execution_isolation a = ec_execution_isolation b \<and> ec_approval_mode a = ec_approval_mode b
     \<and> list_all (\<lambda>k. map_of (ec_approval_by_kind a) k = map_of (ec_approval_by_kind b) k) request_kind_order"

section \<open>The context text\<close>

fun filesystem_access_name :: "filesystem_access \<Rightarrow> string" where
  "filesystem_access_name Read_only = ''read_only''"
| "filesystem_access_name Workspace_write = ''workspace_write''"
| "filesystem_access_name Full_access = ''full_access''"

fun network_access_name :: "network_access \<Rightarrow> string" where
  "network_access_name Restricted = ''restricted''"
| "network_access_name Enabled = ''enabled''"

fun execution_isolation_name :: "execution_isolation \<Rightarrow> string" where
  "execution_isolation_name Sandboxed = ''sandboxed''"
| "execution_isolation_name Unsandboxed = ''unsandboxed''"

fun shell_family_prompt_label :: "shell_family \<Rightarrow> string" where
  "shell_family_prompt_label Powershell = ''powershell''"
| "shell_family_prompt_label Posix = ''posix (bash)''"

fun thinking_prompt_label :: "thinking_setting option \<Rightarrow> string" where
  "thinking_prompt_label None = ''provider default''"
| "thinking_prompt_label (Some (Thinking_bool b)) = (if b then ''enabled'' else ''disabled'')"
| "thinking_prompt_label (Some Thinking_minimal) = ''minimal''"
| "thinking_prompt_label (Some Thinking_low) = ''low''"
| "thinking_prompt_label (Some Thinking_medium) = ''medium''"
| "thinking_prompt_label (Some Thinking_high) = ''high''"
| "thinking_prompt_label (Some Thinking_xhigh) = ''xhigh''"

definition plural :: "nat \<Rightarrow> ustr" where
  "plural n = (if n \<noteq> 1 then lit ''s'' else [])"

definition server_counts :: "session_mcp_inventory_tool list \<Rightarrow> (string \<times> nat) list" where
  "server_counts tools = fold (\<lambda>t. AList.map_default (smt_server_id t) 1 Suc) tools []"

definition server_summary :: "session_mcp_inventory_tool list \<Rightarrow> ustr" where
  "server_summary tools =
     join (lit '', '')
       (map (\<lambda>(server_id, n). lit server_id @ lit '' ('' @ decimal_digits n @ lit '' tool'' @ plural n @ lit '')'')
         (sort_key fst (server_counts tools)))"

definition mcp_inventory_context_lines :: "inventory_value option \<Rightarrow> ustr list" where
  "mcp_inventory_context_lines inventory =
     (case inventory of
        None \<Rightarrow> [lit ''Current MCP tools: none.'']
      | Some v \<Rightarrow>
          (let tools = inventory_tools v;
               direct = map smt_name (filter (\<lambda>t. smt_exposure t = Exposure_direct) tools);
               deferred = length (filter (\<lambda>t. smt_exposure t \<noteq> Exposure_direct) tools);
               activated = map smt_name (filter smt_activated tools);
               servers = length (server_counts tools)
           in if tools = [] then [lit ''Current MCP tools: none.'']
              else
                [lit ''Current MCP tools: '' @ decimal_digits (length tools) @ lit '' discovered across ''
                   @ decimal_digits servers @ lit '' server'' @ plural servers @ lit ''; ''
                   @ decimal_digits (length direct) @ lit '' direct, '' @ decimal_digits deferred
                   @ lit '' deferred, '' @ decimal_digits (length activated) @ lit '' activated deferred.'',
                 lit ''Current MCP servers: '' @ server_summary tools @ lit ''.'']
                @ (if direct = [] then []
                   else [lit ''Current direct MCP tools: '' @ join (lit '', '') (map lit direct) @ lit ''.''])
                @ (if deferred = 0 then []
                   else [lit ''Use mcp_search to discover deferred MCP tools before calling exact ''
                           @ lit ''mcp__server__tool names.''])
                @ (if activated = [] then []
                   else [lit ''Current activated deferred MCP tools: ''
                           @ join (lit '', '') (map lit activated) @ lit ''.''])))"

definition capability_lines :: "effective_capabilities \<Rightarrow> ustr list" where
  "capability_lines c =
     [lit ''Current filesystem access: '' @ lit (filesystem_access_name (ec_filesystem_access c)),
      lit ''Current network access: '' @ lit (network_access_name (ec_network_access c)),
      lit ''Current execution isolation: '' @ lit (execution_isolation_name (ec_execution_isolation c)),
      lit ''Current approval policy: ''
        @ lit (describe_approval_policy (ec_approval_mode c) (ec_approval_by_kind c))]"

text \<open>The values a run is told, resolved; the root is the text of the normalized path.\<close>

record turn_values =
  tv_root :: string
  tv_date :: ustr
  tv_shell_family :: shell_family
  tv_timezone :: ustr
  tv_model :: string
  tv_thinking :: "thinking_setting option"
  tv_capabilities :: effective_capabilities
  tv_inventory :: "inventory_value option"

definition resolve_values :: "turn_environment \<Rightarrow> turn_request \<Rightarrow> (path_error, turn_values) result" where
  "resolve_values env q =
     res_bind (normalize_workspace_root (te_fs env) (tq_workspace_root q))
       (\<lambda>root. Inr
         \<lparr>tv_root = path_str root, tv_date = or_default (tq_current_date q) (te_today env),
          tv_shell_family = or_default (tq_shell_family q) (te_shell_family env),
          tv_timezone = or_default (tq_timezone q) (te_timezone env), tv_model = tq_model q,
          tv_thinking = tq_thinking q,
          tv_capabilities = resolve_effective_capabilities (tq_effective_capabilities q),
          tv_inventory = tq_mcp_inventory q\<rparr>)"

definition runtime_context_text :: "turn_environment \<Rightarrow> turn_values \<Rightarrow> ustr" where
  "runtime_context_text env v =
     join [10]
       ([lit ''Current date: '' @ tv_date v, lit ''Current timezone: '' @ tv_timezone v,
         lit ''Current workspace root: '' @ te_text env (tv_root v),
         lit ''Current shell family: '' @ lit (shell_family_prompt_label (tv_shell_family v)),
         lit ''Current model: '' @ te_text env (tv_model v),
         lit ''Current thinking setting: '' @ lit (thinking_prompt_label (tv_thinking v))]
        @ capability_lines (tv_capabilities v) @ mcp_inventory_context_lines (tv_inventory v))"

text \<open>\<open>build_runtime_context_text\<close> normalizes the root it is given again.\<close>

definition build_runtime_context_text ::
    "turn_environment \<Rightarrow> turn_values \<Rightarrow> (path_error, ustr) result" where
  "build_runtime_context_text env v =
     res_bind (normalize_workspace_root (te_fs env) (tv_root v))
       (\<lambda>root. Inr (runtime_context_text env (v\<lparr>tv_root := path_str root\<rparr>)))"

section \<open>Is the baseline still true?\<close>

datatype baseline_status = Status_missing | Status_reused | Status_cleared
datatype baseline_reason =
    No_active_turn_context | Missing_turn_context | Matched
  | Workspace_root_mismatch | Model_mismatch | Thinking_mismatch | Shell_family_mismatch
  | Current_date_mismatch | Timezone_mismatch | Effective_capabilities_mismatch
  | Mcp_inventory_mismatch | Runtime_context_mismatch

record baseline_decision =
  bd_status :: baseline_status
  bd_reason :: baseline_reason
  bd_entry :: "session_turn_context_entry option"

definition diffable_clear_reasons :: "baseline_reason list" where
  "diffable_clear_reasons =
     [Model_mismatch, Thinking_mismatch, Workspace_root_mismatch, Shell_family_mismatch,
      Current_date_mismatch, Timezone_mismatch, Effective_capabilities_mismatch,
      Mcp_inventory_mismatch, Runtime_context_mismatch]"

definition cleared :: "session_turn_context_entry \<Rightarrow> baseline_reason \<Rightarrow> baseline_decision" where
  "cleared e reason = \<lparr>bd_status = Status_cleared, bd_reason = reason, bd_entry = Some e\<rparr>"

fun same_inventory :: "session_mcp_inventory_tool list option \<Rightarrow> inventory_value option \<Rightarrow> bool" where
  "same_inventory None None = True"
| "same_inventory (Some a) (Some (Inventory_snapshot b)) = (a = b)"
| "same_inventory _ _ = False"

definition entry_capabilities_match :: "session_turn_context_entry \<Rightarrow> turn_values \<Rightarrow> bool" where
  "entry_capabilities_match e v \<longleftrightarrow>
     (case stc_effective_capabilities e of None \<Rightarrow> False | Some c \<Rightarrow> same_capabilities c (tv_capabilities v))"

definition evaluate_turn_context_baseline ::
    "turn_environment \<Rightarrow> session_turn_context_entry option \<Rightarrow> turn_request \<Rightarrow> bool
     \<Rightarrow> (path_error, baseline_decision) result" where
  "evaluate_turn_context_baseline env entry q has_persisted_history =
     (case entry of
        None \<Rightarrow> Inr \<lparr>bd_status = Status_missing,
          bd_reason = (if has_persisted_history then No_active_turn_context else Missing_turn_context),
          bd_entry = None\<rparr>
      | Some e \<Rightarrow>
          res_bind (resolve_values env q)
            (\<lambda>v. res_bind (build_runtime_context_text env v)
            (\<lambda>expected. Inr
              (if stc_workspace_root e \<noteq> tv_root v then cleared e Workspace_root_mismatch
               else if stc_model e \<noteq> tv_model v then cleared e Model_mismatch
               else if stc_thinking e \<noteq> tv_thinking v then cleared e Thinking_mismatch
               else if stc_shell_family e \<noteq> tv_shell_family v then cleared e Shell_family_mismatch
               else if stc_current_date e \<noteq> Some (tv_date v) then cleared e Current_date_mismatch
               else if stc_timezone e \<noteq> Some (tv_timezone v) then cleared e Timezone_mismatch
               else if \<not> entry_capabilities_match e v then cleared e Effective_capabilities_mismatch
               else if \<not> same_inventory (stc_mcp_inventory e) (tv_inventory v)
                 then cleared e Mcp_inventory_mismatch
               else if stc_runtime_context_text e \<noteq> expected then cleared e Runtime_context_mismatch
               else \<lparr>bd_status = Status_reused, bd_reason = Matched, bd_entry = Some e\<rparr>))))"

definition build_session_turn_context_entry ::
    "turn_environment \<Rightarrow> string \<Rightarrow> turn_request \<Rightarrow> (path_error, session_turn_context_entry) result" where
  "build_session_turn_context_entry env run_id q =
     res_bind (resolve_values env q)
       (\<lambda>v. res_bind (build_runtime_context_text env v)
       (\<lambda>context. Inr
         \<lparr>stc_run_id = run_id, stc_model = tv_model v, stc_thinking = tv_thinking v,
          stc_effective_capabilities = Some (tv_capabilities v),
          stc_mcp_inventory = map_option inventory_tools (tv_inventory v),
          stc_workspace_root = tv_root v, stc_shell_family = tv_shell_family v,
          stc_current_date = Some (tv_date v), stc_timezone = Some (tv_timezone v),
          stc_runtime_context_text = context\<rparr>))"

section \<open>What is injected\<close>

datatype turn_error = Bad_root path_error | No_change | Entry_missing

definition runtime_context_message_header :: ustr where
  "runtime_context_message_header = lit ''Runtime context for this turn:''"

definition runtime_context_update_message_header :: ustr where
  "runtime_context_update_message_header = lit ''Runtime context update for this turn:''"

definition build_runtime_context_message :: "ustr \<Rightarrow> model_message" where
  "build_runtime_context_message context =
     Model_response [Text_part (runtime_context_message_header @ [10] @ context)]"

definition build_runtime_context_update_message :: "ustr \<Rightarrow> model_message" where
  "build_runtime_context_update_message changes =
     Model_response [Text_part (runtime_context_update_message_header @ [10] @ changes)]"

definition line_if :: "bool \<Rightarrow> ustr \<Rightarrow> ustr list" where
  "line_if c s = (if c then [s] else [])"

definition capability_update_lines ::
    "effective_capabilities option \<Rightarrow> effective_capabilities \<Rightarrow> ustr list" where
  "capability_update_lines before now =
     (case before of
        None \<Rightarrow> [lit ''Execution capability posture changed'']
      | Some c \<Rightarrow>
          line_if (ec_filesystem_access c \<noteq> ec_filesystem_access now)
            (lit ''Current filesystem access changed to ''
               @ lit (filesystem_access_name (ec_filesystem_access now)))
          @ line_if (ec_network_access c \<noteq> ec_network_access now)
            (lit ''Current network access changed to '' @ lit (network_access_name (ec_network_access now)))
          @ line_if (ec_execution_isolation c \<noteq> ec_execution_isolation now)
            (lit ''Current execution isolation changed to ''
               @ lit (execution_isolation_name (ec_execution_isolation now)))
          @ line_if (ec_approval_mode c \<noteq> ec_approval_mode now
              \<or> \<not> list_all (\<lambda>k. map_of (ec_approval_by_kind c) k = map_of (ec_approval_by_kind now) k)
                  request_kind_order)
            (lit ''Current approval policy changed to ''
               @ lit (describe_approval_policy (ec_approval_mode now) (ec_approval_by_kind now))))"

definition update_lines ::
    "turn_environment \<Rightarrow> session_turn_context_entry \<Rightarrow> turn_values \<Rightarrow> ustr list" where
  "update_lines env e v =
     line_if (stc_current_date e \<noteq> Some (tv_date v)) (lit ''Current date changed to '' @ tv_date v)
     @ line_if (stc_timezone e \<noteq> Some (tv_timezone v)) (lit ''Current timezone changed to '' @ tv_timezone v)
     @ line_if (stc_workspace_root e \<noteq> tv_root v)
         (lit ''Current workspace root changed to '' @ te_text env (tv_root v))
     @ line_if (stc_shell_family e \<noteq> tv_shell_family v)
         (lit ''Current shell family changed to '' @ lit (shell_family_prompt_label (tv_shell_family v)))
     @ line_if (stc_model e \<noteq> tv_model v) (lit ''Current model changed to '' @ te_text env (tv_model v))
     @ line_if (stc_thinking e \<noteq> tv_thinking v)
         (lit ''Current thinking setting changed to '' @ lit (thinking_prompt_label (tv_thinking v)))
     @ (if \<not> entry_capabilities_match e v
        then capability_update_lines (stc_effective_capabilities e) (tv_capabilities v) else [])
     @ line_if (\<not> same_inventory (stc_mcp_inventory e) (tv_inventory v))
         (lit ''Current MCP tool inventory changed'')"

definition build_runtime_context_update_text ::
    "turn_environment \<Rightarrow> session_turn_context_entry \<Rightarrow> turn_request \<Rightarrow> (turn_error, ustr) result" where
  "build_runtime_context_update_text env e q =
     res_bind (lift_error Bad_root (resolve_values env q))
       (\<lambda>v. let lines = update_lines env e v;
                lines = (if lines = [] \<and> stc_runtime_context_text e \<noteq> runtime_context_text env v
                         then [lit ''Runtime context framing changed''] else lines)
            in if lines = [] then Inl No_change else Inr (join [10] lines))"

record injection_plan =
  ip_before_history :: "model_message list"
  ip_after_history :: "model_message list"

definition build_runtime_context_injection_plan ::
    "turn_environment \<Rightarrow> baseline_decision option \<Rightarrow> turn_request \<Rightarrow> (turn_error, injection_plan) result" where
  "build_runtime_context_injection_plan env decision q =
     res_bind (lift_error Bad_root (resolve_values env q))
       (\<lambda>v. let current = \<lparr>ip_before_history = [build_runtime_context_message (runtime_context_text env v)],
                            ip_after_history = []\<rparr>
            in case decision of
                 None \<Rightarrow> Inr current
               | Some d \<Rightarrow>
                   if bd_status d = Status_missing then Inr current
                   else (case bd_entry d of
                           None \<Rightarrow> Inl Entry_missing
                         | Some e \<Rightarrow>
                             (let previous = build_runtime_context_message (stc_runtime_context_text e) in
                              if bd_status d = Status_reused
                                then Inr \<lparr>ip_before_history = [previous], ip_after_history = []\<rparr>
                              else if bd_reason d \<notin> set diffable_clear_reasons then Inr current
                              else res_bind (build_runtime_context_update_text env e q)
                                (\<lambda>changes. Inr \<lparr>ip_before_history = [previous],
                                   ip_after_history = [build_runtime_context_update_message changes]\<rparr>))))"

section \<open>A baseline holds exactly when it would be written again\<close>

lemma values_resolved:
  assumes "resolve_values env q = Inr v"
  obtains root where "normalize_workspace_root (te_fs env) (tq_workspace_root q) = Inr root"
    and "tv_root v = path_str root" and "tv_inventory v = tq_mcp_inventory q"
  using assms by (auto simp: resolve_values_def)

text \<open>Normalizing the root of an existing workspace once more changes nothing.\<close>

lemma normalized_again:
  assumes "fs_ok fs" and "fs_exists fs (parse_path ws)" and "normalize_workspace_root fs ws = Inr root"
  shows "normalize_workspace_root fs (path_str root) = Inr root"
proof -
  from assms(3) have r: "root = fs_resolve fs (parse_path ws)" "fs_exists fs root" "fs_is_dir fs root"
    by (auto simp: normalize_workspace_root_def Let_def split: if_splits)
  have c: "canonical root" using assms(1) by (simp add: r(1) fs_ok_def)
  then have p: "path_root root = 1" "wf_path root" by (auto simp: canonical_def wf_path_def)
  have "fs_resolve fs (PPath 1 (take (length (path_parts root)) (path_parts root)))
      = PPath 1 (take (length (path_parts root)) (path_parts root))"
    using assms(1,2) unfolding fs_ok_def r(1) by blast
  moreover have "root = PPath 1 (path_parts root)" using p(1) by (cases root) simp
  ultimately have "fs_resolve fs root = root" by simp
  with r(2,3) show ?thesis by (simp add: normalize_workspace_root_def parse_path_str [OF c] Let_def)
qed

lemma text_again:
  assumes "fs_ok (te_fs env)" and "fs_exists (te_fs env) (parse_path (tq_workspace_root q))"
    and "resolve_values env q = Inr v"
  shows "build_runtime_context_text env v = Inr (runtime_context_text env v)"
proof -
  from assms(3) obtain root where "normalize_workspace_root (te_fs env) (tq_workspace_root q) = Inr root"
    and "tv_root v = path_str root" by (rule values_resolved)
  with normalized_again [OF assms(1,2)] show ?thesis
    by (simp add: build_runtime_context_text_def) (metis turn_values.surjective turn_values.update_convs(1))
qed

lemma same_capabilities_refl [simp]: "same_capabilities c c"
  by (simp add: same_capabilities_def list_all_iff)

text \<open>Two entries say the same when they differ at most in the order of the overrides by kind.\<close>

definition same_entry :: "session_turn_context_entry \<Rightarrow> session_turn_context_entry \<Rightarrow> bool" where
  "same_entry a b \<longleftrightarrow>
     (\<exists>c d. stc_effective_capabilities a = Some c \<and> stc_effective_capabilities b = Some d
        \<and> same_capabilities c d \<and> a\<lparr>stc_effective_capabilities := Some d\<rparr> = b)"

lemma same_snapshot:
  "\<forall>x. i \<noteq> Some (Inventory_entry x) \<Longrightarrow> same_inventory a i \<longleftrightarrow> a = map_option inventory_tools i"
  by (cases "(a, i)" rule: same_inventory.cases) auto

text \<open>
  A baseline is reused exactly when it would be written again. For a workspace that exists and an
  inventory that is a snapshot, the evaluation of a persisted entry says that it is still true if
  and only if the entry that would be built now for its run says the same.
\<close>

theorem reused_iff_rebuilt:
  assumes "fs_ok (te_fs env)" and "fs_exists (te_fs env) (parse_path (tq_workspace_root q))"
    and "\<forall>x. tq_mcp_inventory q \<noteq> Some (Inventory_entry x)"
    and "build_session_turn_context_entry env (stc_run_id e) q = Inr e'"
  shows "evaluate_turn_context_baseline env (Some e) q persisted
      = Inr \<lparr>bd_status = Status_reused, bd_reason = Matched, bd_entry = Some e\<rparr> \<longleftrightarrow> same_entry e e'"
proof -
  from assms(4) obtain v where v: "resolve_values env q = Inr v" by (auto simp: build_session_turn_context_entry_def)
  note t = text_again [OF assms(1,2) v]
  from assms(4) have e': "e' = \<lparr>stc_run_id = stc_run_id e, stc_model = tv_model v, stc_thinking = tv_thinking v,
      stc_effective_capabilities = Some (tv_capabilities v),
      stc_mcp_inventory = map_option inventory_tools (tv_inventory v),
      stc_workspace_root = tv_root v, stc_shell_family = tv_shell_family v,
      stc_current_date = Some (tv_date v), stc_timezone = Some (tv_timezone v),
      stc_runtime_context_text = runtime_context_text env v\<rparr>"
    by (simp add: build_session_turn_context_entry_def v t)
  from v have "tv_inventory v = tq_mcp_inventory q" by (rule values_resolved)
  with assms(3) have i: "same_inventory (stc_mcp_inventory e) (tv_inventory v)
      \<longleftrightarrow> stc_mcp_inventory e = map_option inventory_tools (tv_inventory v)"
    by (simp add: same_snapshot)
  have "evaluate_turn_context_baseline env (Some e) q persisted
      = Inr \<lparr>bd_status = Status_reused, bd_reason = Matched, bd_entry = Some e\<rparr>
    \<longleftrightarrow> stc_workspace_root e = tv_root v \<and> stc_model e = tv_model v \<and> stc_thinking e = tv_thinking v
      \<and> stc_shell_family e = tv_shell_family v \<and> stc_current_date e = Some (tv_date v)
      \<and> stc_timezone e = Some (tv_timezone v) \<and> entry_capabilities_match e v
      \<and> stc_mcp_inventory e = map_option inventory_tools (tv_inventory v)
      \<and> stc_runtime_context_text e = runtime_context_text env v"
    by (simp add: evaluate_turn_context_baseline_def v t cleared_def i)
  also have "\<dots> \<longleftrightarrow> same_entry e e'"
    by (cases e) (auto simp: same_entry_def e' entry_capabilities_match_def split: option.splits)
  finally show ?thesis .
qed

lemma capability_update_nonempty:
  "\<not> entry_capabilities_match e v \<Longrightarrow>
     capability_update_lines (stc_effective_capabilities e) (tv_capabilities v) \<noteq> []"
  by (auto simp: entry_capabilities_match_def capability_update_lines_def same_capabilities_def line_if_def
      split: option.splits)

lemma update_lines_empty:
  "update_lines env e v = [] \<longleftrightarrow> stc_workspace_root e = tv_root v \<and> stc_model e = tv_model v
     \<and> stc_thinking e = tv_thinking v \<and> stc_shell_family e = tv_shell_family v
     \<and> stc_current_date e = Some (tv_date v) \<and> stc_timezone e = Some (tv_timezone v)
     \<and> entry_capabilities_match e v \<and> same_inventory (stc_mcp_inventory e) (tv_inventory v)"
  using capability_update_nonempty [of e v] by (auto simp: update_lines_def line_if_def)

lemma evaluated:
  assumes "fs_ok (te_fs env)" and "fs_exists (te_fs env) (parse_path (tq_workspace_root q))"
    and "evaluate_turn_context_baseline env entry q persisted = Inr d"
    and "resolve_values env q = Inr v"
  shows "bd_status d = Status_missing \<and> entry = None
    \<or> (\<exists>e. entry = Some e \<and> bd_entry d = Some e
        \<and> (bd_status d = Status_reused \<and> stc_runtime_context_text e = runtime_context_text env v
           \<or> bd_status d = Status_cleared \<and> bd_reason d \<in> set diffable_clear_reasons
             \<and> (update_lines env e v \<noteq> [] \<or> stc_runtime_context_text e \<noteq> runtime_context_text env v)))"
  using assms(3)
  by (cases entry)
    (auto simp: evaluate_turn_context_baseline_def assms(4) text_again [OF assms(1,2,4)] cleared_def
      diffable_clear_reasons_def update_lines_empty split: if_splits)


text \<open>
  The inventory that the compaction trigger passes is the entry of the session log, which never
  equals a snapshot: with an inventory in the log, every persisted baseline is found to be stale.
\<close>

theorem logged_inventory_clears_baseline:
  assumes "tq_mcp_inventory q = Some (Inventory_entry x)"
    and "evaluate_turn_context_baseline env (Some e) q persisted = Inr d"
  shows "bd_status d = Status_cleared"
proof -
  from assms(2) obtain v where v: "resolve_values env q = Inr v"
    by (auto simp: evaluate_turn_context_baseline_def)
  then have "tv_inventory v = Some (Inventory_entry x)" using assms(1) by (auto elim: values_resolved)
  then have "\<not> same_inventory (stc_mcp_inventory e) (tv_inventory v)"
    by (cases "stc_mcp_inventory e") simp_all
  with assms(2) v show ?thesis
    by (auto simp: evaluate_turn_context_baseline_def cleared_def split: if_splits)
qed

section \<open>A concrete run\<close>

definition sample_environment :: turn_environment where
  "sample_environment =
     \<lparr>te_fs = sample_fs, te_today = lit ''2026-01-02'', te_shell_family = Posix, te_timezone = lit ''UTC'',
      te_text = lit\<rparr>"

definition sample_request :: turn_request where
  "sample_request =
     \<lparr>tq_model = ''m'', tq_workspace_root = ''/w'', tq_current_date = None, tq_shell_family = None,
      tq_timezone = None, tq_thinking = None, tq_effective_capabilities = None, tq_mcp_inventory = None\<rparr>"

lemma sample_surroundings:
  shows "fs_ok (te_fs sample_environment)"
    and "fs_exists (te_fs sample_environment) (parse_path (tq_workspace_root sample_request))"
    and "succeeds (resolve_values sample_environment sample_request)"
proof -
  show "fs_ok (te_fs sample_environment)" by (simp add: sample_environment_def fs_ok_sample)
  show "fs_exists (te_fs sample_environment) (parse_path (tq_workspace_root sample_request))" by code_simp
  have "succeeds (normalize_workspace_root sample_fs ''/w'')" by code_simp
  then show "succeeds (resolve_values sample_environment sample_request)"
    by (auto simp: succeeds_iff resolve_values_def sample_environment_def sample_request_def)
qed

lemma sample_entry:
  obtains e v where "resolve_values sample_environment sample_request = Inr v"
    and "build_session_turn_context_entry sample_environment (stc_run_id e) sample_request = Inr e"
    and "same_entry e e"
proof -
  from sample_surroundings(3) obtain v where v: "resolve_values sample_environment sample_request = Inr v"
    by (auto simp: succeeds_iff)
  from text_again [OF sample_surroundings(1,2) v]
  obtain e where e: "build_session_turn_context_entry sample_environment ''r1'' sample_request = Inr e"
    by (simp add: build_session_turn_context_entry_def v)
  then have "stc_run_id e = ''r1''" "stc_effective_capabilities e = Some (tv_capabilities v)"
    by (auto simp: build_session_turn_context_entry_def v)
  moreover from this have "same_entry e e" by (simp add: same_entry_def)
  ultimately have "build_session_turn_context_entry sample_environment (stc_run_id e) sample_request = Inr e"
    "same_entry e e" using e by simp_all
  then show thesis by (rule that [OF v])
qed

theorem reused_iff_rebuilt_witness:
  "\<exists>e. build_session_turn_context_entry sample_environment (stc_run_id e) sample_request = Inr e
     \<and> evaluate_turn_context_baseline sample_environment (Some e) sample_request True
       = Inr \<lparr>bd_status = Status_reused, bd_reason = Matched, bd_entry = Some e\<rparr>"
proof -
  obtain e where e: "build_session_turn_context_entry sample_environment (stc_run_id e) sample_request = Inr e"
    and same: "same_entry e e" by (rule sample_entry)
  have "\<forall>x. tq_mcp_inventory sample_request \<noteq> Some (Inventory_entry x)" by (simp add: sample_request_def)
  from reused_iff_rebuilt [OF sample_surroundings(1,2) this e] same e show ?thesis by blast
qed


theorem logged_inventory_clears_baseline_witness:
  "\<exists>e d. evaluate_turn_context_baseline sample_environment (Some e)
       (sample_request\<lparr>tq_mcp_inventory := Some (Inventory_entry \<lparr>smi_run_id = ''r1'', smi_tools = []\<rparr>)\<rparr>) True = Inr d
     \<and> bd_status d = Status_cleared"
proof -
  let ?q = "sample_request\<lparr>tq_mcp_inventory := Some (Inventory_entry \<lparr>smi_run_id = ''r1'', smi_tools = []\<rparr>)\<rparr>"
  have s: "succeeds (resolve_values sample_environment ?q)"
    using sample_surroundings(3) by (auto simp: succeeds_iff resolve_values_def)
  then obtain v where v: "resolve_values sample_environment ?q = Inr v" by (auto simp: succeeds_iff)
  obtain e :: session_turn_context_entry where True by blast
  have "fs_exists (te_fs sample_environment) (parse_path (tq_workspace_root ?q))"
    using sample_surroundings(2) by simp
  from text_again [OF sample_surroundings(1) this v]
  obtain d where "evaluate_turn_context_baseline sample_environment (Some e) ?q True = Inr d"
    by (simp add: evaluate_turn_context_baseline_def v)
  with logged_inventory_clears_baseline [of ?q _ sample_environment e True d] show ?thesis by auto
qed

end
