(* ===== verification/Models.thy ===== *)
theory Models
  imports Session_Contract "HOL-Library.AList"
begin

text \<open>
  \<open>contracts/model_catalog.py\<close> and the deciding parts of \<open>runtime/models.py\<close>: the models that are
  shipped, how a model id becomes a model of a provider, how large its context window is, and which
  settings a request of it carries. The credentials that are there and the inference of models with
  foreign ids are inputs; the clients and their transports are not modelled.
\<close>

section \<open>The catalog\<close>

datatype provider_name = Provider_openai | Provider_anthropic

record shipped_model =
  shm_provider :: provider_name
  shm_model_id :: string
  shm_description :: string
  shm_default_for_provider :: bool

definition canonical_provider_order :: "provider_name list" where
  "canonical_provider_order = [Provider_openai, Provider_anthropic]"

definition removed_openai_model_names :: "string list" where
  "removed_openai_model_names =
     [''gpt-5-codex'', ''gpt-5-chatgpt'', ''gpt-5-mini-chatgpt'', ''gpt-5.1-chatgpt'',
      ''gpt-5.1-codex-chatgpt'', ''gpt-5.1-codex-mini-chatgpt'', ''gpt-5.1-codex-max-chatgpt'',
      ''gpt-5.2-codex-chatgpt'']"

definition all_shipped_models :: "shipped_model list" where
  "all_shipped_models =
     [\<lparr>shm_provider = Provider_openai, shm_model_id = ''openai-responses:gpt-5.4'',
       shm_description = ''Default GPT-5.4 Responses path'', shm_default_for_provider = True\<rparr>,
      \<lparr>shm_provider = Provider_openai, shm_model_id = ''openai-responses:gpt-5.4-mini'',
       shm_description = ''Faster GPT-5.4 mini Responses path'', shm_default_for_provider = False\<rparr>,
      \<lparr>shm_provider = Provider_openai, shm_model_id = ''openai-responses:gpt-5.3-codex'',
       shm_description = ''Codex-optimized GPT-5.3 Responses path'', shm_default_for_provider = False\<rparr>,
      \<lparr>shm_provider = Provider_openai, shm_model_id = ''openai-responses:gpt-5.2-chatgpt'',
       shm_description = ''OAuth GPT-5.2 path'', shm_default_for_provider = False\<rparr>,
      \<lparr>shm_provider = Provider_openai, shm_model_id = ''openai-responses:gpt-5.3-codex-chatgpt'',
       shm_description = ''OAuth GPT-5.3 Codex path'', shm_default_for_provider = False\<rparr>,
      \<lparr>shm_provider = Provider_openai, shm_model_id = ''openai-responses:gpt-5.4-chatgpt'',
       shm_description = ''OAuth GPT-5.4 path'', shm_default_for_provider = False\<rparr>,
      \<lparr>shm_provider = Provider_openai, shm_model_id = ''openai-responses:gpt-5.4-mini-chatgpt'',
       shm_description = ''OAuth GPT-5.4 mini path'', shm_default_for_provider = False\<rparr>,
      \<lparr>shm_provider = Provider_anthropic, shm_model_id = ''anthropic:claude-sonnet-4-5'',
       shm_description = ''Balanced Claude Sonnet'', shm_default_for_provider = True\<rparr>,
      \<lparr>shm_provider = Provider_anthropic, shm_model_id = ''anthropic:claude-opus-4-1'',
       shm_description = ''Stronger Claude Opus'', shm_default_for_provider = False\<rparr>]"

definition is_removed_openai_model_name :: "string \<Rightarrow> bool" where
  "is_removed_openai_model_name n \<longleftrightarrow> n \<in> set removed_openai_model_names"

text \<open>\<open>model_id.split(":", 1)[1]\<close>, for ids that have a colon.\<close>

definition model_name_of :: "string \<Rightarrow> string" where
  "model_name_of model_id = tl (dropWhile (\<lambda>c. c \<noteq> CHR '':'') model_id)"

definition is_removed_openai_model_id :: "string \<Rightarrow> bool" where
  "is_removed_openai_model_id model_id \<longleftrightarrow>
     (startswith model_id ''openai:'' \<or> startswith model_id ''openai-chat:''
      \<or> startswith model_id ''openai-responses:'')
     \<and> is_removed_openai_model_name (model_name_of model_id)"

section \<open>Context windows\<close>

definition openai_codex_model_name_by_id :: "(string \<times> string) list" where
  "openai_codex_model_name_by_id =
     [(''gpt-5.2-chatgpt'', ''gpt-5.2''), (''gpt-5.3-codex-chatgpt'', ''gpt-5.3-codex''),
      (''gpt-5.4-chatgpt'', ''gpt-5.4''), (''gpt-5.4-mini-chatgpt'', ''gpt-5.4-mini'')]"

definition openai_context_window_tokens_by_prefix :: "(string \<times> int) list" where
  "openai_context_window_tokens_by_prefix =
     [(''gpt-5.4-mini-chatgpt'', 400000), (''gpt-5.4-chatgpt'', 400000),
      (''gpt-5.3-codex-chatgpt'', 400000), (''gpt-5.2-chatgpt'', 264000), (''gpt-5.4-mini'', 400000),
      (''gpt-5.4'', 1050000), (''gpt-5-mini'', 264000), (''gpt-5.3-codex'', 400000),
      (''gpt-4o'', 128000)]"

definition anthropic_context_window_tokens_by_prefix :: "(string \<times> int) list" where
  "anthropic_context_window_tokens_by_prefix =
     [(''claude-haiku-4-5'', 200000), (''claude-sonnet-4-5'', 200000), (''claude-opus-4-1'', 200000)]"

fun match_model_name_prefix :: "string \<Rightarrow> (string \<times> int) list \<Rightarrow> int option" where
  "match_model_name_prefix model_name [] = None"
| "match_model_name_prefix model_name ((p, tokens) # candidates) =
     (if startswith model_name p then Some tokens
      else match_model_name_prefix model_name candidates)"

definition is_copilot :: "string \<Rightarrow> bool" where
  "is_copilot n \<longleftrightarrow> suffix ''-copilot'' n"

definition model_id_context_window :: "string \<Rightarrow> int option" where
  "model_id_context_window model_id =
     (if is_removed_openai_model_id model_id then None
      else if is_copilot model_id then None
      else if startswith model_id ''openai-responses:''
        then match_model_name_prefix (model_name_of model_id) openai_context_window_tokens_by_prefix
      else if startswith model_id ''openai:'' \<or> startswith model_id ''openai-chat:''
        then match_model_name_prefix (model_name_of model_id) openai_context_window_tokens_by_prefix
      else if startswith model_id ''anthropic:''
        then match_model_name_prefix (model_name_of model_id) anthropic_context_window_tokens_by_prefix
      else None)"

definition validate_context_windows :: "(string list, unit) result" where
  "validate_context_windows =
     (let missing = filter (\<lambda>i. model_id_context_window i = None) (map shm_model_id all_shipped_models)
      in if missing \<noteq> [] then Inl missing else Inr ())"

definition shipped_models :: "(string list, shipped_model list) result" where
  "shipped_models = res_bind validate_context_windows (\<lambda>_. Inr all_shipped_models)"

definition shipped_models_for_provider :: "provider_name \<Rightarrow> (string list, shipped_model list) result" where
  "shipped_models_for_provider p =
     res_bind shipped_models (\<lambda>ms. Inr (filter (\<lambda>m. shm_provider m = p) ms))"

text \<open>The inner option is None where the code raises for a provider without a default.\<close>

definition default_model_for_provider :: "provider_name \<Rightarrow> (string list, string option) result" where
  "default_model_for_provider p =
     res_bind (shipped_models_for_provider p)
       (\<lambda>ms. Inr (map_option shm_model_id (find shm_default_for_provider ms)))"

section \<open>From ids to models\<close>

datatype model_class =
    Openai_responses (on_codex_backend: bool)
  | Openai_chat
  | Anthropic_messages
  | Foreign_class

text \<open>
  A model object, under any number of wrappers; each may be tagged with the id it was made for. The
  providers of the models of the two OpenAI classes are those the code builds.
\<close>

datatype model_object =
    Base_model (model_class: model_class) (model_name: string) (external_tag: "string option")
      (own_settings: "(string \<times> json) list")
  | Wrapper_model (external_tag: "string option") (own_settings: "(string \<times> json) list") model_object

record model_environment =
  me_openai_ready :: bool
  me_openai_url_is_codex :: bool
  me_anthropic_ready :: bool
  me_codex_credentials :: bool
  me_tracing :: bool
  me_infer_model :: "string \<Rightarrow> model_object option"

datatype model_error = Unsupported_model_id | Provider_not_ready | Unknown_model

definition reject_removed_model_variant :: "string \<Rightarrow> (model_error, unit) result" where
  "reject_removed_model_variant n =
     (if is_removed_openai_model_name n then Inl Unsupported_model_id
      else if is_copilot n then Inl Unsupported_model_id else Inr ())"

definition openai_codex_model_name :: "string \<Rightarrow> string option" where
  "openai_codex_model_name n = map_of openai_codex_model_name_by_id n"

definition build_openai_responses_model ::
    "model_environment \<Rightarrow> string \<Rightarrow> (model_error, model_object) result" where
  "build_openai_responses_model env model_id =
     (let n = model_name_of model_id in
      res_bind (reject_removed_model_variant n)
        (\<lambda>_. case openai_codex_model_name n of
               Some codex \<Rightarrow>
                 if me_codex_credentials env then Inr (Base_model (Openai_responses True) codex None [])
                 else Inl Provider_not_ready
             | None \<Rightarrow>
                 if me_openai_ready env then
                   Inr (Base_model (Openai_responses (me_openai_url_is_codex env)) n None [])
                 else Inl Provider_not_ready))"

definition build_openai_chat_model ::
    "model_environment \<Rightarrow> string \<Rightarrow> (model_error, model_object) result" where
  "build_openai_chat_model env model_id =
     (let n = model_name_of model_id in
      res_bind (reject_removed_model_variant n)
        (\<lambda>_. if me_openai_ready env then Inr (Base_model Openai_chat n None []) else Inl Provider_not_ready))"

definition build_anthropic_model ::
    "model_environment \<Rightarrow> string \<Rightarrow> (model_error, model_object) result" where
  "build_anthropic_model env model_id =
     (let n = model_name_of model_id in
      res_bind (reject_removed_model_variant n)
        (\<lambda>_. if me_anthropic_ready env then Inr (Base_model Anthropic_messages n None [])
             else Inl Provider_not_ready))"

fun tag_external_model_id :: "string \<Rightarrow> model_object \<Rightarrow> model_object" where
  "tag_external_model_id i (Base_model c n _ s) = Base_model c n (Some i) s"
| "tag_external_model_id i (Wrapper_model _ s m) = Wrapper_model (Some i) s m"

text \<open>The only wrapper the code adds is the one for tracing; it passes the settings on.\<close>

definition maybe_instrument_model :: "model_environment \<Rightarrow> model_object \<Rightarrow> model_object" where
  "maybe_instrument_model env m =
     (if me_tracing env then Wrapper_model None (own_settings m) m else m)"

definition resolve_model_id :: "model_environment \<Rightarrow> string \<Rightarrow> (model_error, model_object) result" where
  "resolve_model_id env model_id =
     (let tagged = (\<lambda>r. res_bind r
            (\<lambda>m. Inr (maybe_instrument_model env (tag_external_model_id model_id m))))
      in if startswith model_id ''openai-responses:'' then tagged (build_openai_responses_model env model_id)
         else if startswith model_id ''openai:'' \<or> startswith model_id ''openai-chat:''
           then tagged (build_openai_chat_model env model_id)
         else if startswith model_id ''anthropic:'' then tagged (build_anthropic_model env model_id)
         else (case me_infer_model env model_id of
                 None \<Rightarrow> Inl Unknown_model
               | Some m \<Rightarrow> Inr (maybe_instrument_model env m)))"

fun unwrap_policy_model :: "model_object \<Rightarrow> model_object" where
  "unwrap_policy_model (Wrapper_model _ _ m) = unwrap_policy_model m"
| "unwrap_policy_model m = m"

text \<open>A tag counts when it is a nonempty string.\<close>

fun get_external_model_id :: "model_object \<Rightarrow> string option" where
  "get_external_model_id (Base_model _ _ e _) = (if e = Some [] then None else e)"
| "get_external_model_id (Wrapper_model e _ m) =
     (if e = None \<or> e = Some [] then get_external_model_id m else e)"

definition model_object_context_window :: "model_object \<Rightarrow> int option" where
  "model_object_context_window m =
     (let policy = unwrap_policy_model m in
      case get_external_model_id policy of
        Some model_id \<Rightarrow> model_id_context_window model_id
      | None \<Rightarrow>
          (case model_class policy of
             Openai_responses _ \<Rightarrow>
               match_model_name_prefix (model_name policy) openai_context_window_tokens_by_prefix
           | Openai_chat \<Rightarrow>
               match_model_name_prefix (model_name policy) openai_context_window_tokens_by_prefix
           | Anthropic_messages \<Rightarrow>
               match_model_name_prefix (model_name policy) anthropic_context_window_tokens_by_prefix
           | Foreign_class \<Rightarrow> None))"

section \<open>The settings of a request\<close>

datatype settings_error = Parallel_not_bool | Parallel_conflict

fun supports_parallel_tool_calls :: "model_class \<Rightarrow> bool" where
  "supports_parallel_tool_calls Foreign_class = False"
| "supports_parallel_tool_calls _ = True"

definition apply_parallel_tool_call_policy ::
    "model_class \<Rightarrow> (string \<times> json) list \<Rightarrow> (settings_error, (string \<times> json) list) result" where
  "apply_parallel_tool_call_policy c settings =
     (let supported = supports_parallel_tool_calls c in
      case map_of settings ''parallel_tool_calls'' of
        Some (JBool b) \<Rightarrow> if b \<noteq> supported then Inl Parallel_conflict else Inr settings
      | Some JNull \<Rightarrow>
          Inr (if supported then AList.update ''parallel_tool_calls'' (JBool True) settings else settings)
      | Some _ \<Rightarrow> Inl Parallel_not_bool
      | None \<Rightarrow>
          Inr (if supported then AList.update ''parallel_tool_calls'' (JBool True) settings else settings))"

definition apply_openai_codex_policy :: "model_class \<Rightarrow> (string \<times> json) list \<Rightarrow> (string \<times> json) list" where
  "apply_openai_codex_policy c settings =
     (if c = Openai_responses True
      then AList.update ''openai_store'' (JBool False)
             (AList.delete ''openai_previous_response_id'' settings)
      else settings)"

fun thinking_value :: "thinking_setting \<Rightarrow> json" where
  "thinking_value (Thinking_bool b) = JBool b"
| "thinking_value Thinking_minimal = JStr (lit ''minimal'')"
| "thinking_value Thinking_low = JStr (lit ''low'')"
| "thinking_value Thinking_medium = JStr (lit ''medium'')"
| "thinking_value Thinking_high = JStr (lit ''high'')"
| "thinking_value Thinking_xhigh = JStr (lit ''xhigh'')"

definition build_canonical_model_settings ::
    "model_object option \<Rightarrow> thinking_setting option
     \<Rightarrow> (settings_error, (string \<times> json) list option) result" where
  "build_canonical_model_settings resolved thinking =
     res_bind
       (case resolved of
          None \<Rightarrow> Inr []
        | Some m \<Rightarrow>
            (let c = model_class (unwrap_policy_model m) in
             res_bind (apply_parallel_tool_call_policy c (own_settings m))
               (\<lambda>s. Inr (apply_openai_codex_policy c s))))
       (\<lambda>s. let s = (case thinking of None \<Rightarrow> s | Some t \<Rightarrow> AList.update ''thinking'' (thinking_value t) s)
            in Inr (if s = [] then None else Some s))"


section \<open>The longest prefix decides\<close>

fun longest_first :: "(string \<times> int) list \<Rightarrow> bool" where
  "longest_first [] = True"
| "longest_first ((p, _) # rest) \<longleftrightarrow> (\<forall>(q, _) \<in> set rest. \<not> prefix p q) \<and> longest_first rest"

definition longest_match :: "string \<Rightarrow> (string \<times> int) list \<Rightarrow> string \<times> int \<Rightarrow> bool" where
  "longest_match n table e \<longleftrightarrow>
     e \<in> set table \<and> prefix (fst e) n
     \<and> (\<forall>f \<in> set table. prefix (fst f) n \<longrightarrow> length (fst f) \<le> length (fst e))"

lemma startswith_prefix: "startswith s p \<longleftrightarrow> prefix p s"
  by (simp add: startswith_def)

lemma match_longest:
  "longest_first table \<Longrightarrow> match_model_name_prefix n table = Some k \<longleftrightarrow> (\<exists>p. longest_match n table (p, k))"
proof (induction n table rule: match_model_name_prefix.induct)
  case (1 n)
  show ?case by (simp add: longest_match_def)
next
  case (2 n p t rest)
  show ?case
  proof (cases "prefix p n")
    case True
    have shorter: "length (fst f) \<le> length p" if "f \<in> set rest" "prefix (fst f) n" for f
      using 2(2) that True by (cases f) (auto dest: prefix_same_cases prefix_length_le)
    have "longest_match n ((p, t) # rest) (q, k) \<longleftrightarrow> (q, k) = (p, t)" for q
    proof
      assume m: "longest_match n ((p, t) # rest) (q, k)"
      then have q: "prefix q n" "length p \<le> length q" using True by (auto simp: longest_match_def)
      then have "prefix p q" using True by (metis prefix_length_prefix)
      with m 2(2) show "(q, k) = (p, t)" by (auto simp: longest_match_def)
    next
      assume "(q, k) = (p, t)"
      then show "longest_match n ((p, t) # rest) (q, k)" using True shorter by (auto simp: longest_match_def)
    qed
    then show ?thesis using True by (auto simp: startswith_prefix)
  next
    case False
    then have "longest_match n ((p, t) # rest) e = longest_match n rest e" for e
      by (auto simp: longest_match_def)
    with False 2 show ?thesis by (simp add: startswith_prefix)
  qed
qed

lemma tables_longest_first:
  "longest_first openai_context_window_tokens_by_prefix"
  "longest_first anthropic_context_window_tokens_by_prefix"
  by code_simp+

text \<open>
  The context window of a model is that of the longest name prefix in the table of its provider:
  the tables are searched from the top, and their order makes the first hit the longest one.
\<close>

theorem context_window_of_longest_prefix:
  assumes "table = openai_context_window_tokens_by_prefix \<or> table = anthropic_context_window_tokens_by_prefix"
  shows "match_model_name_prefix n table = Some k \<longleftrightarrow> (\<exists>p. longest_match n table (p, k))"
  using assms tables_longest_first by (auto simp: match_longest)

theorem context_window_of_longest_prefix_witness:
  "\<exists>p. longest_match ''gpt-5.4-mini-2026'' openai_context_window_tokens_by_prefix (p, 400000)"
proof -
  have "match_model_name_prefix ''gpt-5.4-mini-2026'' openai_context_window_tokens_by_prefix = Some 400000"
    by code_simp
  then show ?thesis using context_window_of_longest_prefix [of openai_context_window_tokens_by_prefix] by blast
qed

section \<open>Ids and the models made for them\<close>

definition canonical_id :: "string \<Rightarrow> bool" where
  "canonical_id i \<longleftrightarrow>
     startswith i ''openai-responses:'' \<or> startswith i ''openai:'' \<or> startswith i ''openai-chat:''
     \<or> startswith i ''anthropic:''"

lemma canonical_nonempty: "canonical_id i \<Longrightarrow> i \<noteq> []"
  by (auto simp: canonical_id_def startswith_prefix)

lemma instrumented [simp]:
  "unwrap_policy_model (maybe_instrument_model env m) = unwrap_policy_model m"
  "own_settings (maybe_instrument_model env m) = own_settings m"
  by (simp_all add: maybe_instrument_model_def)

lemma window_of_tagged:
  "i \<noteq> [] \<Longrightarrow> model_object_context_window (maybe_instrument_model env (Base_model c n (Some i) s))
     = model_id_context_window i"
  by (simp add: model_object_context_window_def)

lemma resolved_base:
  assumes "resolve_model_id env i = Inr m" and "canonical_id i"
  obtains c n where "m = maybe_instrument_model env (tag_external_model_id i (Base_model c n None []))"
  using assms
  by (auto simp: resolve_model_id_def canonical_id_def build_openai_responses_model_def
      build_openai_chat_model_def build_anthropic_model_def Let_def split: if_splits option.splits)

text \<open>
  A model object has the context window of the id it was made for, whatever name it has at its
  provider and whatever wraps it.
\<close>

theorem resolved_model_keeps_its_window:
  assumes "canonical_id i" and "resolve_model_id env i = Inr m"
  shows "model_object_context_window m = model_id_context_window i"
  by (rule resolved_base [OF assms(2,1)]) (simp add: window_of_tagged canonical_nonempty [OF assms(1)])

lemma removed_names_unmatched:
  "list_all (\<lambda>r. match_model_name_prefix r anthropic_context_window_tokens_by_prefix = None)
     removed_openai_model_names"
  by code_simp

lemma model_name_suffix: "suffix (model_name_of i) i"
  unfolding model_name_of_def by (metis suffix_dropWhile suffix_order.trans suffix_tl)

lemma accepted_resolves:
  assumes "canonical_id i" and "reject_removed_model_variant (model_name_of i) = Inr ()"
  shows "resolve_model_id env i \<noteq> Inl Unsupported_model_id"
    and "me_openai_ready env \<and> me_anthropic_ready env \<and> me_codex_credentials env
      \<Longrightarrow> succeeds (resolve_model_id env i)"
proof -
  let ?r = "build_openai_responses_model env i" and ?c = "build_openai_chat_model env i"
    and ?a = "build_anthropic_model env i"
  have built: "r \<in> {?r, ?c, ?a} \<Longrightarrow> r \<noteq> Inl Unsupported_model_id
      \<and> (me_openai_ready env \<and> me_anthropic_ready env \<and> me_codex_credentials env \<longrightarrow> succeeds r)" for r
    by (auto simp: build_openai_responses_model_def build_openai_chat_model_def build_anthropic_model_def
        assms(2) Let_def split: option.splits if_splits)
  have "\<exists>r \<in> {?r, ?c, ?a}. resolve_model_id env i
      = res_bind r (\<lambda>m. Inr (maybe_instrument_model env (tag_external_model_id i m)))"
    using assms(1) unfolding resolve_model_id_def canonical_id_def Let_def by (elim disjE) simp_all
  then obtain r where r: "r \<in> {?r, ?c, ?a}" and eqn: "resolve_model_id env i
      = res_bind r (\<lambda>m. Inr (maybe_instrument_model env (tag_external_model_id i m)))" by blast
  from built [OF r] show "resolve_model_id env i \<noteq> Inl Unsupported_model_id"
    unfolding eqn by (cases r) auto
  assume "me_openai_ready env \<and> me_anthropic_ready env \<and> me_codex_credentials env"
  with built [OF r] show "succeeds (resolve_model_id env i)"
    unfolding eqn by (cases r) auto
qed

definition openai_prefixed :: "string \<Rightarrow> bool" where
  "openai_prefixed i \<longleftrightarrow>
     startswith i ''openai:'' \<or> startswith i ''openai-chat:'' \<or> startswith i ''openai-responses:''"

lemma window_known [inversion]:
  assumes "model_id_context_window i = Some n"
  shows "\<not> is_removed_openai_model_id i" and "\<not> is_copilot i" and "canonical_id i"
    and "openai_prefixed i
      \<or> match_model_name_prefix (model_name_of i) anthropic_context_window_tokens_by_prefix = Some n"
  using assms unfolding model_id_context_window_def canonical_id_def openai_prefixed_def
  by (simp_all split: if_split_asm) (elim disjE; simp)+

lemma removed_id: "is_removed_openai_model_id i \<longleftrightarrow>
    openai_prefixed i \<and> is_removed_openai_model_name (model_name_of i)"
  by (simp only: is_removed_openai_model_id_def openai_prefixed_def)

lemma known_window_accepted:
  assumes "model_id_context_window i = Some n"
  shows "reject_removed_model_variant (model_name_of i) = Inr ()"
proof -
  have c: "\<not> is_copilot (model_name_of i)"
  proof
    assume "is_copilot (model_name_of i)"
    then have "is_copilot i"
      unfolding is_copilot_def by (rule suffix_order.trans) (rule model_name_suffix)
    with window_known(2) [OF assms] show False ..
  qed
  have r: "\<not> is_removed_openai_model_name (model_name_of i)"
  proof
    assume n: "is_removed_openai_model_name (model_name_of i)"
    with window_known(1,4) [OF assms]
    have "match_model_name_prefix (model_name_of i) anthropic_context_window_tokens_by_prefix = Some n"
      unfolding removed_id by iprover
    with removed_names_unmatched n show False
      unfolding is_removed_openai_model_name_def list_all_iff by (metis option.distinct(1))
  qed
  from c r show ?thesis by (simp only: reject_removed_model_variant_def if_False)
qed

text \<open>
  A model whose context window is known is one the providers are asked for: its id is canonical and
  never rejected as unsupported, so with every provider ready it resolves.
\<close>

theorem known_windows_resolve:
  assumes "model_id_context_window i = Some n"
    and "me_openai_ready env" and "me_anthropic_ready env" and "me_codex_credentials env"
  shows "canonical_id i \<and> succeeds (resolve_model_id env i)"
  using window_known(3) known_window_accepted accepted_resolves(2) [of i env] assms by blast

text \<open>
  Every shipped model has a context window, is canonical and not removed, and every provider ships
  exactly one default.
\<close>

lemma shipped_complete:
  "shipped_models = Inr all_shipped_models"
  "list_all (\<lambda>m. model_id_context_window (shm_model_id m) \<noteq> None \<and> canonical_id (shm_model_id m))
     all_shipped_models"
  "list_all (\<lambda>p. length (filter (\<lambda>m. shm_provider m = p \<and> shm_default_for_provider m) all_shipped_models) = 1)
     canonical_provider_order"
  by code_simp+

text \<open>
  The ChatGPT backend is never asked to continue a stored response, whatever settings the model
  object carries.
\<close>

theorem codex_requests_are_not_stored:
  assumes "model_class (unwrap_policy_model m) = Openai_responses True"
    and "build_canonical_model_settings (Some m) thinking = Inr settings"
  shows "\<exists>s. settings = Some s \<and> map_of s ''openai_store'' = Some (JBool False)
    \<and> map_of s ''openai_previous_response_id'' = None
    \<and> map_of s ''parallel_tool_calls'' = Some (JBool True)"
proof -
  let ?c = "Openai_responses True"
  from assms obtain s where s: "apply_parallel_tool_call_policy ?c (own_settings m) = Inr s"
    and set: "settings = (let t = (case thinking of None \<Rightarrow> apply_openai_codex_policy ?c s
        | Some t \<Rightarrow> AList.update ''thinking'' (thinking_value t) (apply_openai_codex_policy ?c s))
      in if t = [] then None else Some t)"
    by (auto simp: build_canonical_model_settings_def Let_def)
  have "map_of s ''parallel_tool_calls'' = Some (JBool True)"
    using s by (auto simp: apply_parallel_tool_call_policy_def update_conv' split: option.splits json.splits if_splits)
  then show ?thesis
    by (auto simp: set apply_openai_codex_policy_def update_conv' delete_conv' Let_def split: option.splits
        dest: arg_cong [where f = "\<lambda>t. map_of t ''openai_store''"])
qed


definition sample_model_environment :: model_environment where
  "sample_model_environment =
     \<lparr>me_openai_ready = True, me_openai_url_is_codex = False, me_anthropic_ready = True,
      me_codex_credentials = True, me_tracing = True, me_infer_model = \<lambda>_. None\<rparr>"

lemma sample_window: "model_id_context_window ''openai-responses:gpt-5.4-chatgpt'' = Some 400000"
  by code_simp

theorem known_windows_resolve_witness:
  "succeeds (resolve_model_id sample_model_environment ''openai-responses:gpt-5.4-chatgpt'')"
  using known_windows_resolve [OF sample_window, of sample_model_environment]
  by (simp add: sample_model_environment_def)

theorem resolved_model_keeps_its_window_witness:
  "\<exists>m. resolve_model_id sample_model_environment ''openai-responses:gpt-5.4-chatgpt'' = Inr m
     \<and> model_object_context_window m = Some 400000"
proof -
  have c: "canonical_id ''openai-responses:gpt-5.4-chatgpt''" by code_simp
  have "succeeds (resolve_model_id sample_model_environment ''openai-responses:gpt-5.4-chatgpt'')"
    using accepted_resolves(2) [OF window_known(3) known_window_accepted, OF sample_window sample_window, of sample_model_environment]
    by (simp add: sample_model_environment_def)
  then obtain m where m: "resolve_model_id sample_model_environment ''openai-responses:gpt-5.4-chatgpt'' = Inr m"
    by (auto simp: succeeds_iff)
  from resolved_model_keeps_its_window [OF c m] m show ?thesis by (simp only: sample_window) blast
qed

theorem codex_requests_are_not_stored_witness:
  "\<exists>s. build_canonical_model_settings
      (Some (Base_model (Openai_responses True) ''gpt-5.4'' None
         [(''openai_previous_response_id'', JStr (lit ''r''))])) None = Inr (Some s)
    \<and> map_of s ''openai_previous_response_id'' = None"
proof -
  let ?m = "Base_model (Openai_responses True) ''gpt-5.4'' None [(''openai_previous_response_id'', JStr (lit ''r''))]"
  obtain o' where r: "build_canonical_model_settings (Some ?m) None = Inr o'"
    by (auto simp: build_canonical_model_settings_def apply_parallel_tool_call_policy_def)
  have "model_class (unwrap_policy_model ?m) = Openai_responses True" by simp
  from codex_requests_are_not_stored [OF this r] r show ?thesis by auto
qed

end
