(* ===== verification/Compaction_Source.thy ===== *)
theory Compaction_Source
  imports Turn_Context Session_Append Replacement_History Label_Text Models
begin

text \<open>
  The text a session is summarized from: \<open>runtime/compaction/constants.py\<close>, \<open>budget.py\<close>,
  \<open>boundary.py\<close> and \<open>source_builder.py\<close>. The runs since the last compaction are rendered, each
  within fixed bounds, and the oldest are left out until the text fits the model that summarizes.
\<close>

section \<open>Budgets\<close>

definition session_compaction_output_reserve_tokens :: int where
  "session_compaction_output_reserve_tokens = 8000"

definition default_session_compaction_source_char_limit :: int where
  "default_session_compaction_source_char_limit = 120000"

definition max_compaction_tool_activity_lines :: nat where
  "max_compaction_tool_activity_lines = 8"

definition build_compaction_output_headroom_tokens :: "int \<Rightarrow> int" where
  "build_compaction_output_headroom_tokens context_window_tokens =
     min session_compaction_output_reserve_tokens (max (context_window_tokens div 4) 1)"

definition build_effective_compaction_context_window_tokens :: "int \<Rightarrow> int" where
  "build_effective_compaction_context_window_tokens context_window_tokens =
     max (context_window_tokens - build_compaction_output_headroom_tokens context_window_tokens) 0"

text \<open>
  \<open>int(tokens * 0.8 * 4)\<close>: the product of a token count and the double 0.8 is off by less than half a
  unit in the last place, so its integer part is that of sixteen fifths.
\<close>

definition compaction_source_char_limit :: "int option \<Rightarrow> int" where
  "compaction_source_char_limit window =
     (case window of
        None \<Rightarrow> default_session_compaction_source_char_limit
      | Some tokens \<Rightarrow> build_effective_compaction_context_window_tokens tokens * 16 div 5)"

section \<open>The boundary of the last compaction\<close>

datatype compaction_error =
    Unknown_run_id | Source_does_not_fit | No_completed_runs_to_compact | Compaction_summary_empty

definition run_index_or_fail :: "loaded_session \<Rightarrow> string \<Rightarrow> (compaction_error, nat) result" where
  "run_index_or_fail l run_id =
     (case run_index_for_id l run_id of None \<Rightarrow> Inl Unknown_run_id | Some i \<Rightarrow> Inr i)"

definition runs_since_latest_compaction_boundary ::
    "loaded_session \<Rightarrow> (compaction_error, session_run_record list) result" where
  "runs_since_latest_compaction_boundary l =
     (case latest_compaction l of
        None \<Rightarrow> Inr (lo_runs l)
      | Some c \<Rightarrow> res_bind (run_index_or_fail l (sc_compacted_through_run_id c))
          (\<lambda>i. Inr (drop (i + 1) (lo_runs l))))"

definition runs_since_latest_compaction :: "loaded_session \<Rightarrow> (compaction_error, nat) result" where
  "runs_since_latest_compaction l =
     (case latest_compaction l of
        None \<Rightarrow> Inr (length (lo_runs l))
      | Some c \<Rightarrow> res_bind (run_index_or_fail l (sc_compacted_through_run_id c))
          (\<lambda>i. Inr (length (drop (i + 1) (lo_runs l)))))"

section \<open>Rendering a run\<close>

definition compact_field :: "ustr \<Rightarrow> ustr" where
  "compact_field s = compact_text s max_compaction_text_field_chars"

definition bullet :: "ustr \<Rightarrow> ustr" where
  "bullet s = lit ''- '' @ s"

fun thinking_text :: "thinking_setting \<Rightarrow> string" where
  "thinking_text (Thinking_bool b) = (if b then ''True'' else ''False'')"
| "thinking_text Thinking_minimal = ''minimal''"
| "thinking_text Thinking_low = ''low''"
| "thinking_text Thinking_medium = ''medium''"
| "thinking_text Thinking_high = ''high''"
| "thinking_text Thinking_xhigh = ''xhigh''"

fun terminal_outcome :: "run_event list \<Rightarrow> ustr list" where
  "terminal_outcome [] = []"
| "terminal_outcome (Run_succeeded e # es) =
     [lit ''Current state:'', lit ''- succeeded'']
     @ (if ev_output_text e \<noteq> [] then [lit ''Completed work:'', bullet (compact_field (ev_output_text e))] else [])"
| "terminal_outcome (Run_failed e # es) =
     [lit ''Current state:'', lit ''- failed ('' @ ev_failure_type e @ lit '')'',
      lit ''Failures / Open Issues:'', bullet (compact_field (ev_failure_message e))]"
| "terminal_outcome (_ # es) = terminal_outcome es"

definition render_terminal_run_outcome :: "session_run_record \<Rightarrow> ustr list" where
  "render_terminal_run_outcome run = terminal_outcome (rev (rr_events run))"

definition format_tool_activity_line :: "ustr \<Rightarrow> ustr option \<Rightarrow> ustr option" where
  "format_tool_activity_line title summary =
     (let t = compact_field title; plain = (if t = [] then None else Some t) in
      case summary of
        None \<Rightarrow> plain
      | Some s \<Rightarrow>
          (let c = compact_field s in
           if c = [] then plain else if c = t then plain else Some (t @ lit '': '' @ c)))"

fun tool_activity_line :: "run_event \<Rightarrow> ustr option" where
  "tool_activity_line (Tool_call_succeeded e) =
     (case ev_activity e of
        None \<Rightarrow> None
      | Some a \<Rightarrow>
          if ta_group_kind a = Some ''exploration'' then None
          else format_tool_activity_line (ta_title a) (ta_summary a))"
| "tool_activity_line (Tool_call_failed e) =
     Some (compact_field
       ((case ev_activity e of None \<Rightarrow> lit (ev_tool_name e) | Some a \<Rightarrow> ta_title a)
        @ lit '': failed - '' @ ev_message e))"
| "tool_activity_line _ = None"

definition last_of :: "nat \<Rightarrow> 'a list \<Rightarrow> 'a list" where
  "last_of n xs = drop (length xs - n) xs"

definition render_tool_activity_lines :: "session_run_record \<Rightarrow> ustr list" where
  "render_tool_activity_lines run =
     last_of max_compaction_tool_activity_lines (List.map_filter tool_activity_line (rr_events run))"

definition render_mcp_inventory_lines :: "session_run_record \<Rightarrow> ustr list" where
  "render_mcp_inventory_lines run =
     (case rr_mcp_inventory run of
        None \<Rightarrow> []
      | Some inventory \<Rightarrow>
          (let tools = smi_tools inventory;
               direct = length (filter (\<lambda>t. smt_exposure t = Exposure_direct) tools);
               deferred = length (filter (\<lambda>t. smt_exposure t \<noteq> Exposure_direct) tools);
               activated = map smt_name (filter smt_activated tools);
               servers = join (lit '', '')
                 (map (\<lambda>(server_id, n). lit server_id @ lit '' ('' @ decimal_digits n @ lit '')'')
                   (sort_key fst (server_counts tools)))
           in if tools = [] then []
              else [compact_field (decimal_digits (length tools) @ lit '' discovered MCP tool(s) across ''
                      @ servers @ lit ''; '' @ decimal_digits direct @ lit '' direct, ''
                      @ decimal_digits deferred @ lit '' deferred'')]
                @ (if activated = [] then []
                   else [compact_field (lit ''Activated deferred MCP tools: ''
                           @ join (lit '', '') (map lit activated))])))"

definition render_run_lines :: "session_run_record \<Rightarrow> ustr list" where
  "render_run_lines run =
     [lit ''Run '' @ lit (rr_run_id run), lit ''Primary intent:'', bullet (compact_field (rr_prompt run))]
     @ (case rr_thinking run of None \<Rightarrow> [] | Some t \<Rightarrow> [lit ''Thinking: '' @ lit (thinking_text t)])
     @ render_terminal_run_outcome run
     @ (if render_mcp_inventory_lines run = [] then []
        else lit ''MCP tool inventory:'' # map bullet (render_mcp_inventory_lines run))
     @ (if render_tool_activity_lines run = [] then []
        else lit ''Tool evidence:'' # map bullet (render_tool_activity_lines run))"

definition render_run :: "session_run_record \<Rightarrow> ustr" where
  "render_run run = join [10] (render_run_lines run)"

section \<open>The source\<close>

definition candidate_source :: "ustr list \<Rightarrow> nat \<Rightarrow> ustr list \<Rightarrow> ustr" where
  "candidate_source sections omitted_runs run_sections =
     join [10, 10]
       (sections @ [lit ''Runs since the latest compaction boundary:'']
        @ (if omitted_runs \<noteq> 0
           then [lit ''(omitted '' @ decimal_digits omitted_runs
                   @ lit '' oldest run(s) to fit the model context window)'']
           else [])
        @ (if run_sections \<noteq> [] then run_sections else [lit ''(no new runs)'']))"

fun source_loop :: "int \<Rightarrow> ustr list \<Rightarrow> nat \<Rightarrow> ustr list \<Rightarrow> (compaction_error, ustr) result" where
  "source_loop max_chars sections omitted_runs run_sections =
     (let source = candidate_source sections omitted_runs run_sections in
      if int (length source) \<le> max_chars then Inr source
      else (case run_sections of
              r # r' # rest \<Rightarrow> source_loop max_chars sections (omitted_runs + 1) (r' # rest)
            | _ \<Rightarrow> Inl Source_does_not_fit))"

declare source_loop.simps [simp del]

definition previous_summary_sections :: "loaded_session \<Rightarrow> ustr list" where
  "previous_summary_sections l =
     (case latest_compaction l of
        None \<Rightarrow> []
      | Some c \<Rightarrow>
          (case extract_compaction_summary_text (sc_replacement_messages c) of
             None \<Rightarrow> []
           | Some summary \<Rightarrow> [lit ''Previous compaction summary:'', summary]))"

definition build_bounded_compaction_source :: "loaded_session \<Rightarrow> int \<Rightarrow> (compaction_error, ustr) result" where
  "build_bounded_compaction_source l max_chars =
     (if max_chars \<le> 0 then Inl Source_does_not_fit
      else res_bind (runs_since_latest_compaction_boundary l)
        (\<lambda>runs. source_loop max_chars (previous_summary_sections l) 0 (map render_run runs)))"

definition build_compaction_source :: "loaded_session \<Rightarrow> int option \<Rightarrow> (compaction_error, ustr) result" where
  "build_compaction_source l window =
     build_bounded_compaction_source l (compaction_source_char_limit window)"


section \<open>The newest runs that fit\<close>

definition source_without :: "ustr list \<Rightarrow> nat \<Rightarrow> nat \<Rightarrow> ustr list \<Rightarrow> ustr" where
  "source_without sections omitted d runs = candidate_source sections (omitted + d) (drop d runs)"

lemma source_loop_shape:
  "source_loop max_chars sections omitted runs =
     (if int (length (candidate_source sections omitted runs)) \<le> max_chars
      then Inr (candidate_source sections omitted runs)
      else if length runs \<le> 1 then Inl Source_does_not_fit
      else source_loop max_chars sections (omitted + 1) (tl runs))"
  by (subst source_loop.simps) (cases runs; cases "tl runs"; simp add: Let_def)

lemma source_found:
  assumes "source_loop max_chars sections omitted runs = Inr s"
  obtains d where "d < length runs \<or> d = 0" and "s = source_without sections omitted d runs"
    and "int (length s) \<le> max_chars"
    and "\<forall>d' < d. max_chars < int (length (source_without sections omitted d' runs))"
  using assms
proof (induction runs arbitrary: omitted thesis)
  case Nil
  from Nil(2) show ?case
    by (intro Nil(1) [of 0]) (auto simp: source_loop_shape source_without_def split: if_splits)
next
  case (Cons r runs)
  show ?case
  proof (cases "int (length (candidate_source sections omitted (r # runs))) \<le> max_chars")
    case True
    with Cons.prems(2) show ?thesis
      by (intro Cons.prems(1) [of 0]) (auto simp: source_loop_shape [of _ _ omitted] source_without_def)
  next
    case False
    with Cons.prems(2) have ne: "runs \<noteq> []" and step: "source_loop max_chars sections (omitted + 1) runs = Inr s"
      by (auto simp: source_loop_shape [of _ _ omitted] split: if_splits)
    from step obtain d where d: "d < length runs \<or> d = 0" "s = source_without sections (omitted + 1) d runs"
      "int (length s) \<le> max_chars"
      "\<forall>d' < d. max_chars < int (length (source_without sections (omitted + 1) d' runs))"
      by (rule Cons.IH [rotated])
    have shift: "source_without sections omitted (Suc k) (r # runs) = source_without sections (omitted + 1) k runs" for k
      by (simp add: source_without_def)
    have "max_chars < int (length (source_without sections omitted d' (r # runs)))" if "d' < Suc d" for d'
      using that d(4) False shift by (cases d') (auto simp: source_without_def)
    with d ne shift show ?thesis by (intro Cons.prems(1) [of "Suc d"]) auto
  qed
qed

lemma source_exists:
  assumes "runs \<noteq> []"
    and "int (length (source_without sections omitted (length runs - 1) runs)) \<le> max_chars"
  shows "succeeds (source_loop max_chars sections omitted runs)"
  using assms
proof (induction runs arbitrary: omitted)
  case Nil
  then show ?case by simp
next
  case (Cons r runs)
  show ?case
  proof (cases "runs = []")
    case True
    with Cons.prems(2) show ?thesis by (simp add: source_loop_shape source_without_def)
  next
    case False
    have "source_without sections omitted (length runs) (r # runs)
        = source_without sections (omitted + 1) (length runs - 1) runs"
      using False by (cases "length runs") (auto simp: source_without_def)
    with Cons.IH [OF False, of "omitted + 1"] Cons.prems(2)
    show ?thesis using False by (simp add: source_loop_shape [of _ _ omitted])
  qed
qed

text \<open>
  The source that is summarized fits its limit and keeps the newest runs since the last compaction:
  it is what is left when the fewest oldest runs are omitted, and at least the newest run is there.
\<close>

theorem source_keeps_the_newest_runs:
  assumes "build_bounded_compaction_source l max_chars = Inr s"
  shows "\<exists>runs d. runs_since_latest_compaction_boundary l = Inr runs \<and> (d < length runs \<or> d = 0)
    \<and> s = candidate_source (previous_summary_sections l) d (map render_run (drop d runs))
    \<and> int (length s) \<le> max_chars
    \<and> (\<forall>d' < d. max_chars <
          int (length (candidate_source (previous_summary_sections l) d' (map render_run (drop d' runs)))))"
proof -
  from assms obtain runs where runs: "runs_since_latest_compaction_boundary l = Inr runs"
    and "source_loop max_chars (previous_summary_sections l) 0 (map render_run runs) = Inr s"
    by (auto simp: build_bounded_compaction_source_def split: if_splits)
  from this(2) obtain d where "d < length runs \<or> d = 0"
    "s = source_without (previous_summary_sections l) 0 d (map render_run runs)" "int (length s) \<le> max_chars"
    "\<forall>d' < d. max_chars < int (length (source_without (previous_summary_sections l) 0 d' (map render_run runs)))"
    by (rule source_found) auto
  then show ?thesis by (intro exI [of _ runs] exI [of _ d]) (simp add: runs source_without_def drop_map)
qed

section \<open>A run takes bounded space\<close>

definition lines_cost :: "ustr list \<Rightarrow> nat" where
  "lines_cost ls = sum_list (map (\<lambda>s. length s + 1) ls)"

lemma lines_cost_simps [simp]:
  "lines_cost [] = 0" "lines_cost (s # ls) = length s + 1 + lines_cost ls"
  "lines_cost (a @ b) = lines_cost a + lines_cost b"
  by (simp_all add: lines_cost_def)

lemma joined_cost: "length (join [c] ls) \<le> lines_cost ls"
  by (induction "[c]" ls rule: join.induct) auto

lemma lines_cost_each: "\<forall>s \<in> set ls. length s \<le> n \<Longrightarrow> lines_cost ls \<le> length ls * (n + 1)"
  by (induction ls) auto

lemma compact_field_length: "length (compact_field s) \<le> 1200"
  using compact_length [of s 1200] by (simp add: compact_field_def max_compaction_text_field_chars_def)

lemma bullet_length [simp]: "length (bullet s) = length s + 2"
  by (simp add: bullet_def)

text \<open>The type of the failure is the one text of a run that is written out whole.\<close>

fun failure_type_length :: "run_event list \<Rightarrow> nat" where
  "failure_type_length (Run_failed e # es) = length (ev_failure_type e)"
| "failure_type_length (Run_succeeded e # es) = 0"
| "failure_type_length (_ # es) = failure_type_length es"
| "failure_type_length [] = 0"

lemma terminal_cost: "lines_cost (terminal_outcome es) \<le> 1300 + failure_type_length es"
proof (induction es rule: terminal_outcome.induct)
  case (2 e es)
  have "length (compact_field (ev_output_text e)) \<le> 1254"
    by (rule order_trans [OF compact_field_length]) simp
  then show ?case by simp
next
  case (3 e es)
  have "length (compact_field (ev_failure_message e)) \<le> 1200" by (rule compact_field_length)
  then show ?case by simp
qed simp_all

lemma tool_line_length: "tool_activity_line e = Some s \<Longrightarrow> length s \<le> 2402"
proof -
  have two: "length (compact_field a) + length (compact_field b) \<le> 2400" for a b
    using compact_field_length [of a] compact_field_length [of b] by linarith
  have one: "length (compact_field a) \<le> 2402" for a
    using compact_field_length [of a] by linarith
  show "tool_activity_line e = Some s \<Longrightarrow> length s \<le> 2402"
    by (cases e) (auto simp: format_tool_activity_line_def Let_def one two split: option.splits if_splits)
qed

lemma tool_lines_cost: "lines_cost (map bullet (render_tool_activity_lines run)) \<le> 8 * 2405"
proof -
  let ?ls = "map bullet (render_tool_activity_lines run)"
  have "\<forall>s \<in> set (List.map_filter tool_activity_line (rr_events run)). length s \<le> 2402"
    by (force simp: map_filter_def intro: tool_line_length)
  then have "\<forall>s \<in> set (render_tool_activity_lines run). length s \<le> 2402"
    by (auto simp: render_tool_activity_lines_def last_of_def dest: in_set_dropD)
  then have "\<forall>s \<in> set ?ls. length s \<le> 2404" by auto
  then have "lines_cost ?ls \<le> length ?ls * 2405" using lines_cost_each [of ?ls 2404] by simp
  also have "\<dots> \<le> 8 * 2405"
    by (intro mult_right_mono)
      (simp_all add: render_tool_activity_lines_def last_of_def max_compaction_tool_activity_lines_def)
  finally show ?thesis .
qed

lemma inventory_lines_cost: "lines_cost (map bullet (render_mcp_inventory_lines run)) \<le> 2 * 1203"
proof -
  let ?ls = "map bullet (render_mcp_inventory_lines run)"
  have "\<forall>s \<in> set (render_mcp_inventory_lines run). length s \<le> 1200" and "length ?ls \<le> 2"
    by (auto simp: render_mcp_inventory_lines_def compact_field_length Let_def split: option.splits if_splits)
  then have "\<forall>s \<in> set ?ls. length s \<le> 1202" by auto
  then have "lines_cost ?ls \<le> length ?ls * 1203" using lines_cost_each [of ?ls 1202] by simp
  also have "\<dots> \<le> 2 * 1203" using \<open>length ?ls \<le> 2\<close> by (intro mult_right_mono) simp_all
  finally show ?thesis .
qed

lemma thinking_text_length: "length (thinking_text t) \<le> 7"
  by (cases t) auto

lemma render_run_length:
  "length (render_run run) \<le> 24500 + length (rr_run_id run) + failure_type_length (rev (rr_events run))"
proof -
  note parts = terminal_cost [of "rev (rr_events run)"] tool_lines_cost [of run] inventory_lines_cost [of run]
    compact_field_length [of "rr_prompt run"]
  have "lines_cost (case rr_thinking run of None \<Rightarrow> [] | Some t \<Rightarrow> [lit ''Thinking: '' @ lit (thinking_text t)]) \<le> 20"
    using order_trans [OF thinking_text_length, of 9] by (simp split: option.split)
  with parts have "lines_cost (render_run_lines run)
      \<le> 24500 + length (rr_run_id run) + failure_type_length (rev (rr_events run))"
    by (simp add: render_run_lines_def render_terminal_run_outcome_def)
  with joined_cost [of 10 "render_run_lines run"] show ?thesis by (simp add: render_run_def)
qed

section \<open>A session can always be summarized\<close>

definition summary_length :: "loaded_session \<Rightarrow> nat" where
  "summary_length l = sum_list (map length (previous_summary_sections l))"

lemma pair_joined: "length (join ([10, 10] :: ustr) ls) \<le> sum_list (map (\<lambda>s. length s + 2) ls)"
  by (induction "[10, 10] :: ustr" ls rule: join.induct) auto

lemma sections_cost:
  "sum_list (map (\<lambda>s. length s + 2) (previous_summary_sections l)) \<le> summary_length l + 4"
  by (simp add: summary_length_def previous_summary_sections_def split: option.split)

lemma last_candidate_length:
  "length (candidate_source (previous_summary_sections l) d [section])
    \<le> 200 + summary_length l + length (decimal_digits d) + length section"
proof -
  let ?ls = "previous_summary_sections l @ [lit ''Runs since the latest compaction boundary:'']
    @ (if d \<noteq> 0 then [lit ''(omitted '' @ decimal_digits d
         @ lit '' oldest run(s) to fit the model context window)''] else []) @ [section]"
  have "sum_list (map (\<lambda>s. length s + 2) ?ls) \<le> 200 + summary_length l + length (decimal_digits d) + length section"
    using sections_cost [of l] by simp
  with pair_joined [of ?ls] show ?thesis by (simp add: candidate_source_def)
qed

lemma known_windows:
  assumes "model_id_context_window i = Some w"
  shows "128000 \<le> w"
proof -
  have "list_all (\<lambda>(p, w). 128000 \<le> w) (openai_context_window_tokens_by_prefix
      @ anthropic_context_window_tokens_by_prefix)"
    by (simp add: openai_context_window_tokens_by_prefix_def anthropic_context_window_tokens_by_prefix_def)
  moreover have "match_model_name_prefix n t = Some w \<Longrightarrow> \<exists>p. (p, w) \<in> set t" for n t
    by (induction n t rule: match_model_name_prefix.induct) (auto split: if_splits)
  ultimately show ?thesis
    using assms unfolding model_id_context_window_def by (fastforce simp: list_all_iff split: if_splits)
qed

lemma source_limit_large: "120000 \<le> compaction_source_char_limit (model_id_context_window i)"
proof (cases "model_id_context_window i")
  case None
  then show ?thesis by (simp add: compaction_source_char_limit_def default_session_compaction_source_char_limit_def)
next
  case (Some w)
  then have w: "128000 \<le> w" by (rule known_windows)
  then have "120000 \<le> build_effective_compaction_context_window_tokens w"
    by (simp add: build_effective_compaction_context_window_tokens_def
        build_compaction_output_headroom_tokens_def session_compaction_output_reserve_tokens_def)
  then show ?thesis by (simp add: Some compaction_source_char_limit_def)
qed

text \<open>
  A session can always be summarized, by every model: as the texts of a run are cut, the source for
  the newest run alone fits the window of every model the program knows, and the limit for unknown
  models, unless the previous summary, the id of the run, the type of its failure and the number of
  omitted runs take some ninety thousand characters.
\<close>

theorem compaction_source_exists:
  assumes "runs_since_latest_compaction_boundary l = Inr runs" and "runs \<noteq> []"
    and "summary_length l + length (rr_run_id (last runs)) + failure_type_length (rev (rr_events (last runs)))
      + length (decimal_digits (length runs - 1)) \<le> 95000"
  shows "succeeds (build_compaction_source l (model_id_context_window i))"
proof -
  let ?max = "compaction_source_char_limit (model_id_context_window i)"
  let ?k = "length runs - 1"
  have "drop ?k runs = [last runs]"
    using assms(2) by (metis append_butlast_last_id append_eq_conv_conj length_butlast)
  then have last: "drop ?k (map render_run runs) = [render_run (last runs)]" by (simp add: drop_map)
  have "length (candidate_source (previous_summary_sections l) ?k [render_run (last runs)]) \<le> 120000"
    using last_candidate_length [of l ?k "render_run (last runs)"] render_run_length [of "last runs"] assms(3)
    by linarith
  then have "int (length (source_without (previous_summary_sections l) 0 ?k (map render_run runs))) \<le> ?max"
    using source_limit_large [of i] last by (simp add: source_without_def)
  then have "succeeds (source_loop ?max (previous_summary_sections l) 0 (map render_run runs))"
    by (intro source_exists) (simp_all add: assms(2))
  then show ?thesis
    using source_limit_large [of i] assms(1)
    by (auto simp: build_compaction_source_def build_bounded_compaction_source_def)
qed

definition sample_session :: loaded_session where
  "sample_session =
     \<lparr>lo_header = sample_header, lo_fork = None, lo_name = None, lo_project_docs = None,
      lo_runs = [sample_run_record], lo_latest_turn_context = None, lo_latest_mcp_inventory = None,
      lo_latest_permission_grants = None, lo_has_turn_context_history = False, lo_compactions = []\<rparr>"

lemma sample_boundary: "runs_since_latest_compaction_boundary sample_session = Inr [sample_run_record]"
  by (simp add: runs_since_latest_compaction_boundary_def latest_compaction_def sample_session_def)

theorem compaction_source_exists_witness:
  "succeeds (build_compaction_source sample_session (model_id_context_window ''anthropic:claude-opus-4-1''))"
proof (rule compaction_source_exists [OF sample_boundary])
  show "[sample_run_record] \<noteq> []" by simp
  have "length (decimal_digits (length [sample_run_record] - 1)) = 1" by (simp add: decimal_digits.simps)
  then show "summary_length sample_session + length (rr_run_id (last [sample_run_record]))
      + failure_type_length (rev (rr_events (last [sample_run_record])))
      + length (decimal_digits (length [sample_run_record] - 1)) \<le> 95000"
    by (simp add: summary_length_def previous_summary_sections_def latest_compaction_def sample_session_def
        sample_run_record_def sample_run_events_def)
qed

theorem source_keeps_the_newest_runs_witness:
  "\<exists>s. build_bounded_compaction_source sample_session 120000 = Inr s
     \<and> s = candidate_source [] 0 [render_run sample_run_record]"
proof -
  have prev: "previous_summary_sections sample_session = []"
    by (simp add: previous_summary_sections_def latest_compaction_def sample_session_def)
  have one: "source_loop m [] 0 [r] = Inr s \<Longrightarrow> s = candidate_source [] 0 [r]" for m r s
    by (simp add: source_loop_shape split: if_splits)
  have "int (length (candidate_source [] 0 [render_run sample_run_record])) \<le> 120000"
    using last_candidate_length [of sample_session 0 "render_run sample_run_record"]
      render_run_length [of sample_run_record]
    by (simp add: prev summary_length_def sample_run_record_def sample_run_events_def decimal_digits.simps)
  then obtain s where s: "build_bounded_compaction_source sample_session 120000 = Inr s"
    by (simp add: build_bounded_compaction_source_def sample_boundary prev source_loop_shape)
  from source_keeps_the_newest_runs [OF s] sample_boundary prev
  obtain d where "d < length [sample_run_record] \<or> d = 0"
    and "s = candidate_source [] d (map render_run (drop d [sample_run_record]))" by auto
  then have "s = candidate_source [] 0 [render_run sample_run_record]" by auto
  with s show ?thesis by blast
qed

end
