(* ===== verification/Project_Docs.thy ===== *)
theory Project_Docs
  imports Workspace_Paths Messages
begin

text \<open>
  \<open>runtime/project_docs.py\<close>: the instruction files of a workspace that are put before the history,
  within a budget of bytes. What reading a file gives is a parameter.
\<close>

section \<open>Loading\<close>

definition project_doc_filenames :: "string list" where
  "project_doc_filenames = [''AGENTS.md'', ''CLAUDE.md'']"

definition project_doc_total_byte_budget :: int where
  "project_doc_total_byte_budget = 24 * 1024"

definition project_doc_message_header :: ustr where
  "project_doc_message_header = lit ''Project instructions for this workspace''"

record loaded_project_doc =
  lpd_path :: ppath
  lpd_workspace_root :: ppath
  lpd_contents :: ustr
  lpd_truncated :: bool

datatype doc_error = Bad_workspace path_error | Doc_is_directory ppath | Doc_unreadable ppath

definition short_path :: "loaded_project_doc \<Rightarrow> string" where
  "short_path doc =
     (if is_relative_to (lpd_path doc) (lpd_workspace_root doc)
      then path_str (PPath 0 (drop (length (path_parts (lpd_workspace_root doc))) (path_parts (lpd_path doc))))
      else path_str (lpd_path doc))"

text \<open>
  The longest part of the text whose encoding is within the limit: a prefix of the bytes that ends
  inside a character does not decode.
\<close>

fun take_utf8 :: "nat \<Rightarrow> ustr \<Rightarrow> ustr" where
  "take_utf8 limit [] = []"
| "take_utf8 limit (c # s) =
     (if utf8_width c \<le> limit then c # take_utf8 (limit - utf8_width c) s else [])"

definition truncate_utf8_text_to_bytes :: "ustr \<Rightarrow> nat \<Rightarrow> ustr" where
  "truncate_utf8_text_to_bytes s limit = (if utf8_len s \<le> limit then s else take_utf8 limit s)"

fun load_docs ::
    "file_system \<Rightarrow> (ppath \<Rightarrow> ustr option) \<Rightarrow> ppath \<Rightarrow> int \<Rightarrow> string list
     \<Rightarrow> (doc_error, loaded_project_doc list) result" where
  "load_docs fs read_text root remaining [] = Inr []"
| "load_docs fs read_text root remaining (filename # names) =
     (let path = path_join root (parse_path filename) in
      if remaining \<le> 0 then Inr []
      else if \<not> fs_exists fs path then load_docs fs read_text root remaining names
      else if fs_is_dir fs path then Inl (Doc_is_directory path)
      else (case read_text path of
        None \<Rightarrow> Inl (Doc_unreadable path)
      | Some contents \<Rightarrow>
          if strip contents = [] then load_docs fs read_text root remaining names
          else
            (let truncated = remaining < int (utf8_len contents);
                 kept = (if truncated then rstrip (truncate_utf8_text_to_bytes contents (nat remaining))
                         else contents)
             in if strip kept = [] then Inr []
                else res_bind (load_docs fs read_text root (remaining - int (utf8_len kept)) names)
                  (\<lambda>docs. Inr (\<lparr>lpd_path = path, lpd_workspace_root = root, lpd_contents = kept,
                                lpd_truncated = truncated\<rparr> # docs)))))"

definition load_workspace_project_docs ::
    "file_system \<Rightarrow> (ppath \<Rightarrow> ustr option) \<Rightarrow> string \<Rightarrow> int \<Rightarrow> (doc_error, loaded_project_doc list) result" where
  "load_workspace_project_docs fs read_text workspace_root total_byte_budget =
     res_bind (lift_error Bad_workspace (normalize_workspace_root fs workspace_root))
       (\<lambda>root. load_docs fs read_text root total_byte_budget project_doc_filenames)"

section \<open>Messages and the notice\<close>

definition project_doc_note :: ustr where
  "project_doc_note =
     [10, 10] @ lit ''[Note: this project doc was truncated to fit the current runtime context budget.]''"

definition project_doc_message :: "loaded_project_doc \<Rightarrow> model_message" where
  "project_doc_message doc =
     Model_response [Text_part (project_doc_message_header @ lit '' from '' @ lit (short_path doc) @ lit '':''
       @ [10, 10] @ lit ''<INSTRUCTIONS>'' @ [10] @ lpd_contents doc @ [10] @ lit ''</INSTRUCTIONS>''
       @ (if lpd_truncated doc then project_doc_note else []))]"

definition build_project_doc_prefix_messages ::
    "file_system \<Rightarrow> (ppath \<Rightarrow> ustr option) \<Rightarrow> string \<Rightarrow> int
     \<Rightarrow> (doc_error, loaded_project_doc list \<times> model_message list) result" where
  "build_project_doc_prefix_messages fs read_text workspace_root total_byte_budget =
     res_bind (load_workspace_project_docs fs read_text workspace_root total_byte_budget)
       (\<lambda>docs. Inr (docs, map project_doc_message docs))"

definition build_project_doc_notice_line :: "(ustr \<times> bool) list \<Rightarrow> ustr option" where
  "build_project_doc_notice_line docs =
     (if docs = [] then None
      else Some (lit ''loaded project instructions: ''
        @ join (lit '', '') (map (\<lambda>(p, truncated). p @ (if truncated then lit '' (truncated)'' else [])) docs)))"

section \<open>Within the budget, and nothing else is cut\<close>

lemma take_utf8_prefix: "prefix (take_utf8 n s) s"
  by (induction n s rule: take_utf8.induct) auto

lemma take_utf8_len: "utf8_len (take_utf8 n s) \<le> n"
  by (induction n s rule: take_utf8.induct) auto

lemma take_utf8_longest:
  "prefix p s \<Longrightarrow> utf8_len p \<le> n \<Longrightarrow> prefix p (take_utf8 n s)"
proof (induction n s arbitrary: p rule: take_utf8.induct)
  case (2 n c s)
  then show ?case by (cases p) auto
qed simp

lemma utf8_len_prefix: "prefix p s \<Longrightarrow> utf8_len p \<le> utf8_len s"
  by (auto simp: prefix_def)

text \<open>A document as it is loaded: the whole file, or a nonblank cut of it when it does not fit.\<close>

definition doc_of_file :: "(ppath \<Rightarrow> ustr option) \<Rightarrow> loaded_project_doc \<Rightarrow> bool" where
  "doc_of_file read_text doc \<longleftrightarrow>
     (\<exists>contents. read_text (lpd_path doc) = Some contents \<and> strip (lpd_contents doc) \<noteq> []
        \<and> prefix (lpd_contents doc) contents \<and> (lpd_contents doc = contents \<or> lpd_truncated doc))"

definition docs_fit ::
    "(ppath \<Rightarrow> ustr option) \<Rightarrow> ppath \<Rightarrow> int \<Rightarrow> string list \<Rightarrow> loaded_project_doc list \<Rightarrow> bool" where
  "docs_fit read_text root remaining names docs \<longleftrightarrow>
     (\<forall>doc \<in> set docs. doc_of_file read_text doc)
     \<and> (docs \<noteq> [] \<longrightarrow> (\<Sum>doc\<leftarrow>docs. int (utf8_len (lpd_contents doc))) \<le> remaining)
     \<and> subseq (map lpd_path docs) (map (\<lambda>n. path_join root (parse_path n)) names)"

lemma docs_fit_Nil [simp]: "docs_fit read_text root remaining names []"
  by (simp add: docs_fit_def)

lemma docs_fit_skip: "docs_fit read_text root remaining names docs \<Longrightarrow> docs_fit read_text root remaining (n # names) docs"
  by (auto simp: docs_fit_def)

lemma kept_fits:
  assumes "0 < remaining" and "kept = (if remaining < int (utf8_len contents)
      then rstrip (truncate_utf8_text_to_bytes contents (nat remaining)) else contents)"
  shows "prefix kept contents" and "int (utf8_len kept) \<le> remaining"
    and "kept = contents \<or> remaining < int (utf8_len contents)"
proof -
  have cut: "prefix (rstrip (take_utf8 (nat remaining) contents)) (take_utf8 (nat remaining) contents)"
    by (rule prefix_rstrip)
  have p: "prefix (rstrip (take_utf8 (nat remaining) contents)) contents"
    by (rule prefix_order.trans [OF cut take_utf8_prefix])
  have l: "utf8_len (rstrip (take_utf8 (nat remaining) contents)) \<le> nat remaining"
    using utf8_len_prefix [OF cut] take_utf8_len [of "nat remaining" contents] by (rule order_trans)
  have t: "remaining < int (utf8_len contents) \<Longrightarrow>
      truncate_utf8_text_to_bytes contents (nat remaining) = take_utf8 (nat remaining) contents"
    using assms(1) by (auto simp: truncate_utf8_text_to_bytes_def)
  show "prefix kept contents" using p t by (simp add: assms(2))
  show "int (utf8_len kept) \<le> remaining" using l t assms(1) by (simp add: assms(2)) linarith
  show "kept = contents \<or> remaining < int (utf8_len contents)" by (simp add: assms(2))
qed

lemma docs_fit_Cons:
  assumes "0 < remaining" and "read_text path = Some contents" and "strip kept \<noteq> []"
    and "kept = (if remaining < int (utf8_len contents)
      then rstrip (truncate_utf8_text_to_bytes contents (nat remaining)) else contents)"
    and "path = path_join root (parse_path n)"
    and "docs_fit read_text root (remaining - int (utf8_len kept)) names rest"
  shows "docs_fit read_text root remaining (n # names)
    (\<lparr>lpd_path = path, lpd_workspace_root = root, lpd_contents = kept,
      lpd_truncated = remaining < int (utf8_len contents)\<rparr> # rest)"
  using assms(2,3,5,6) kept_fits [OF assms(1,4)]
  by (cases "rest = []") (auto simp: docs_fit_def doc_of_file_def)

lemma loaded_docs:
  "load_docs fs read_text root remaining names = Inr docs \<Longrightarrow> docs_fit read_text root remaining names docs"
proof (induction names arbitrary: remaining docs)
  case Nil
  then show ?case by simp
next
  case (Cons n names)
  let ?path = "path_join root (parse_path n)"
  show ?case
  proof (cases "remaining \<le> 0")
    case True
    with Cons.prems show ?thesis by simp
  next
    case False
    note step = Cons.prems [simplified load_docs.simps Let_def, simplified False, simplified]
    show ?thesis
    proof (cases "\<not> fs_exists fs ?path")
      case True
      with step Cons.IH show ?thesis by (auto intro: docs_fit_skip)
    next
      case exists: False
      with step obtain contents where r: "read_text ?path = Some contents"
        by (auto split: if_splits option.splits)
      define kept where "kept = (if remaining < int (utf8_len contents)
          then rstrip (truncate_utf8_text_to_bytes contents (nat remaining)) else contents)"
      show ?thesis
      proof (cases "strip contents = []")
        case True
        with step exists r Cons.IH show ?thesis by (auto intro: docs_fit_skip split: if_splits)
      next
        case False
        with step exists r consider "docs = []" | rest where "strip kept \<noteq> []"
            "load_docs fs read_text root (remaining - int (utf8_len kept)) names = Inr rest"
            "docs = \<lparr>lpd_path = ?path, lpd_workspace_root = root, lpd_contents = kept,
               lpd_truncated = remaining < int (utf8_len contents)\<rparr> # rest"
          unfolding kept_def by (simp only: if_False if_True option.case) (auto split: if_split_asm)
        then show ?thesis
        proof cases
          case 1
          then show ?thesis by simp
        next
          case 2
          from 2(2) have "docs_fit read_text root (remaining - int (utf8_len kept)) names rest" by (rule Cons.IH)
          with 2(1) \<open>\<not> remaining \<le> 0\<close> r show ?thesis
            unfolding 2(3) by (intro docs_fit_Cons) (simp_all add: kept_def)
        qed
      qed
    qed
  qed
qed


definition sample_docs :: "ppath \<Rightarrow> ustr option" where
  "sample_docs p = (if p = PPath 1 [''w'', ''AGENTS.md''] then Some (lit ''use tabs'') else None)"

definition docs_fs :: file_system where
  "docs_fs =
     \<lparr>fs_cwd = PPath 1 [], fs_exists = (\<lambda>p. p = PPath 1 [''w''] \<or> p = PPath 1 [''w'', ''AGENTS.md'']),
      fs_is_dir = (\<lambda>p. p = PPath 1 [''w'']), fs_resolve = (\<lambda>p. p)\<rparr>"


end
