(* ===== verification/Prompt_Layers.thy ===== *)
theory Prompt_Layers
  imports Turn_Context Project_Docs Mcp_Contract
begin

text \<open>
  \<open>runtime/prompt_layers.py\<close> with the tool names of \<open>contracts/tools.py\<close>: the sections of the base
  prompt, the guidance it gives for the tools of a run, and the messages put before and after the
  history. The texts are those of the source.
\<close>

section \<open>Tool names and sections\<close>

definition canonical_tool_names :: "string list" where
  "canonical_tool_names = [''read'', ''write'', ''edit'', ''shell'', ''grep'', ''ls'', ''find'', ''subagent'']"

definition onboarding_tool_names :: "string list" where
  "onboarding_tool_names =
     [''ask_mcq_question'', ''generate_mcq_from_teaching_packets'', ''publish_teaching_packet'']"

definition mcp_discovery_tool_names :: "string list" where
  "mcp_discovery_tool_names = [''mcp_search'']"

definition known_tool_names :: "string list" where
  "known_tool_names = canonical_tool_names @ onboarding_tool_names @ mcp_discovery_tool_names"

record prompt_section =
  prs_name :: string
  prs_lines :: "string list"

definition identity_section :: prompt_section where
  "identity_section =
     \<lparr>prs_name = ''identity'', prs_lines =
       [''You are a headless coding assistant operating inside one configured workspace.'']\<rparr>"

definition tool_failure_policy_section :: prompt_section where
  "tool_failure_policy_section =
     \<lparr>prs_name = ''tool_failure_policy'', prs_lines =
       [''If a tool returns an object with ok: false, treat it as an operational error and ''
        @ ''decide the next corrective step yourself.'']\<rparr>"

definition failure_semantics_section :: prompt_section where
  "failure_semantics_section =
     \<lparr>prs_name = ''failure_semantics'', prs_lines =
       [''Do not invent tools or alternate behaviors.'',
        ''Do not rely on fallbacks.'',
        ''Only uncaught tool failures end the run automatically.'']\<rparr>"

definition response_style_section :: prompt_section where
  "response_style_section =
     \<lparr>prs_name = ''response_style'', prs_lines =
       [''Default response style: brief, direct, and outcome-first.'',
        ''Do not restate the user's request or narrate routine process unless that context ''
        @ ''is necessary.'',
        ''During work, keep progress updates to one short sentence focused on the next ''
        @ ''action or concrete finding.'',
        ''Final answers should usually be one short paragraph: state what changed or what ''
        @ ''you found, then mention verification or blockers.'',
        ''Use bullets only when there are multiple distinct findings, steps, or options.'',
        ''If no files changed, answer the question directly without a change-style summary.'']\<rparr>"

definition filesystem_truth_section :: prompt_section where
  "filesystem_truth_section =
     \<lparr>prs_name = ''filesystem_truth'', prs_lines =
       [''Refer to files clearly by path.'',
        ''For read, write, and edit, relative paths resolve from the workspace root.'',
        ''shell runs in the workspace root and no tool is a filesystem sandbox.'']\<rparr>"

definition onboarding_mode_section :: prompt_section where
  "onboarding_mode_section =
     \<lparr>prs_name = ''onboarding_mode'', prs_lines =
       [''This run is in onboarding mode.'',
        ''Teach the user this codebase intentionally using docs, code, and recent changes ''
        @ ''when useful.'',
        ''Use documentation as grounding and explanation material, but do not pass ''
        @ ''documentation paths as teaching packet snippets.'',
        ''Use the jaca_onboarding MCP tools only when structured teaching or a quiz will ''
        @ ''help; teaching in normal assistant text remains the default.'',
        ''Use mcp__jaca_onboarding__publish_teaching_packet when a compact, code-grounded ''
        @ ''packet would help the user understand an implementation detail.'',
        ''A teaching packet should teach one concept using 2 to 5 snippets from code files ''
        @ ''only and explicit relationship statements among them.'',
        ''If you use mcp__jaca_onboarding__ask_mcq_question, first call ''
        @ ''mcp__jaca_onboarding__publish_teaching_packet in the same run. You may also ''
        @ ''generate an MCQ draft from those packet ids before asking the question.'',
        ''You control pacing and ordering. You may explain before, after, or around any ''
        @ ''onboarding tool usage.'']\<rparr>"


section \<open>Guidance for tools\<close>

definition tool_guidance_by_name :: "(string \<times> string list) list" where
  "tool_guidance_by_name =
     [(''read'',
        [''Prefer read to examine files instead of shelling out just to view files.'',
         ''Use read with offset and limit for large files instead of pulling everything at ''
         @ ''once.'']),
      (''write'',
        [''Use write only for new files or complete rewrites.'']),
      (''edit'',
        [''Use edit for precise surgical changes; it tries exact matching first and then a ''
         @ ''normalized fallback for minor formatting differences.'']),
      (''shell'',
        [''Use shell for builds, commands, and verification.'']),
      (''grep'',
        [''Use grep for content search across files.'']),
      (''ls'',
        [''Use ls for bounded directory listings.'']),
      (''find'',
        [''Use find for file discovery by glob pattern.'']),
      (''mcp_search'',
        [''Use mcp_search to find deferred MCP tools when the exact mcp__server__tool name ''
         @ ''is not already listed.'',
         ''After mcp_search returns relevant matches, call the exact returned ''
         @ ''mcp__server__tool name instead of guessing.'']),
      (''exec'',
        [''Use exec only when Code Mode is explicitly available and a small deterministic ''
         @ ''orchestration cell is clearer than another model reasoning step.'',
         ''exec source is async Python; top-level await is allowed, and results should be ''
         @ ''returned with emit(...) or return_result(...).'',
         ''Code Mode cells must call tools through the provided bridge: tools.read, ''
         @ ''tools.grep, tools.ls, tools.find, tools.write, tools.edit, and tools.shell.'',
         ''Use keyword arguments or the simple positional order shown by the tool name, for ''
         @ ''example tools.read(path='README.md'), tools.ls(path='.'), and ''
         @ ''tools.write('solution.sparql', query).'',
         ''Allowed imports are json, re, math, collections, statistics, itertools, ''
         @ ''functools, and decimal. Do not use open, subprocess, or direct filesystem access ''
         @ ''inside Code Mode cells.'',
         ''Write Python parsing and computation directly in the Code Mode cell; do not ''
         @ ''generate Python and run it through tools.shell. Use tools.shell only for external ''
         @ ''CLI commands, tests, and builds.'']),
      (''wait'',
        [''Use wait only for a yielded Code Mode cell when you need more output, completion, ''
         @ ''or termination.'']),
      (''mcp__jaca_onboarding__ask_mcq_question'',
        [''Use mcp__jaca_onboarding__ask_mcq_question only when you are ready to quiz the ''
         @ ''user with one concrete multiple-choice question.'',
         ''Before mcp__jaca_onboarding__ask_mcq_question, publish at least one teaching ''
         @ ''packet in this same run and pass the returned packet_ids to the question.'',
         ''Do not reveal the correct answer in assistant text before calling the tool; let ''
         @ ''the tool present the question and wait for the user's selection.'']),
      (''mcp__jaca_onboarding__generate_mcq_from_teaching_packets'',
        [''Use mcp__jaca_onboarding__generate_mcq_from_teaching_packets to draft one ''
         @ ''grounded MCQ from teaching packet ids published earlier in this same run.'',
         ''Pass the returned packet_ids, question, options, correct_index, and explanation ''
         @ ''directly into mcp__jaca_onboarding__ask_mcq_question when the draft is good.'']),
      (''mcp__jaca_onboarding__publish_teaching_packet'',
        [''Use mcp__jaca_onboarding__publish_teaching_packet when a curated set of code ''
         @ ''excerpts would help teach a concept in the codebase.'',
         ''Use docs for grounding if helpful, but every snippet reference must point to a ''
         @ ''code file; documentation paths are rejected.'',
         ''Provide a short title, one concept, one or more relationship statements, and 2 to ''
         @ ''5 snippet references using path, start_line, and end_line. The backend reads ''
         @ ''canonical file text.'']),
      (''ask_mcq_question'',
        [''Use ask_mcq_question only when you are ready to quiz the user with one concrete ''
         @ ''multiple-choice question.'',
         ''Before ask_mcq_question, publish at least one teaching packet in this same run ''
         @ ''and pass the returned packet_ids to the question.'',
         ''You may use ask_mcq_question multiple times across the same session when the user ''
         @ ''asks for another question, but use it at most once per quiz turn.'',
         ''Do not reveal the correct answer in assistant text before calling the tool; let ''
         @ ''the tool present the question and wait for the user's selection.'']),
      (''generate_mcq_from_teaching_packets'',
        [''Use generate_mcq_from_teaching_packets to draft one grounded MCQ from teaching ''
         @ ''packet ids published earlier in this same run.'',
         ''Pass the returned packet_ids, question, options, correct_index, and explanation ''
         @ ''directly into ask_mcq_question when the draft is good.'']),
      (''publish_teaching_packet'',
        [''Use publish_teaching_packet when a curated set of code excerpts would help teach ''
         @ ''a concept in the codebase.'',
         ''Use docs for grounding if helpful, but every snippet reference must point to a ''
         @ ''code file; documentation paths are rejected.'',
         ''Provide a short title, one concept, one or more relationship statements, and 2 to ''
         @ ''5 snippet references using path, start_line, and end_line. The backend reads ''
         @ ''canonical file text.'']),
      (''subagent'',
        [''Use subagent for one bounded side task when either a fresh or forked child pass ''
         @ ''would help.'',
         ''Good fits: locating relevant files or evidence, checking one claim against ''
         @ ''repository state, or inspecting one large artifact for the parent.'',
         ''Prefer spawn_mode='fork' so the child can build on the parent's current ''
         @ ''conversation or tool context; use spawn_mode='fresh' only for an independent repo ''
         @ ''or artifact pass.'',
         ''By default the child gets read, grep, find, and ls only; request shell capability ''
         @ ''only when the child needs local commands or scripts.'',
         ''Do not use subagent for broad multi-step work or when the next local command is ''
         @ ''already obvious.'',
         ''When you spawn a child, make the task detailed enough to succeed: state the exact ''
         @ ''goal, relevant files or artifacts, constraints, stop condition, and desired ''
         @ ''report shape when needed.''])]"

datatype prompt_error = Tools_not_unique | Unknown_tool string

definition dedupe_tool_names :: "string list \<Rightarrow> (prompt_error, string list) result" where
  "dedupe_tool_names names = (if \<not> distinct names then Inl Tools_not_unique else Inr names)"

definition no_tools_line :: string where
  "no_tools_line = ''No tools are available in this run.''"

definition mcp_guidance_line :: string where
  "mcp_guidance_line =
     ''MCP tools are backend-mounted external tools; call the exact listed ''
     @ ''mcp__server__tool name and let the backend enforce server routing, policy, and provenance.''"

fun guidance_lines :: "bool \<Rightarrow> string list \<Rightarrow> (prompt_error, string list) result" where
  "guidance_lines mcp_guidance_added [] = Inr []"
| "guidance_lines mcp_guidance_added (n # ns) =
     (if startswith n mcp_tool_name_prefix then
        res_bind (guidance_lines True ns)
          (\<lambda>ls. Inr (if mcp_guidance_added then ls else mcp_guidance_line # ls))
      else (case map_of tool_guidance_by_name n of
              None \<Rightarrow> Inl (Unknown_tool n)
            | Some g \<Rightarrow> res_bind (guidance_lines mcp_guidance_added ns) (\<lambda>ls. Inr (g @ ls))))"

definition build_tool_policy_lines :: "string list \<Rightarrow> (prompt_error, string list) result" where
  "build_tool_policy_lines names =
     res_bind (dedupe_tool_names names)
       (\<lambda>ns. if ns = [] then Inr [no_tools_line]
             else res_bind (guidance_lines False ns)
               (\<lambda>ls. Inr ((''Use only these tools: '' @ join '', '' ns @ ''.'') # ls)))"

definition build_verification_policy_lines :: "string list \<Rightarrow> (prompt_error, string list) result" where
  "build_verification_policy_lines names =
     res_bind (dedupe_tool_names names)
       (\<lambda>ns. let can_mutate = ''write'' \<in> set ns \<or> ''edit'' \<in> set ns; can_shell = ''shell'' \<in> set ns in
          Inr (if \<not> can_mutate \<and> \<not> can_shell then
                 [''This run is inspection-only. Do not claim you created, edited, or saved files.'']
               else if \<not> can_mutate then
                 [''You do not have write or edit tools in this run.'',
                  ''Do not claim file changes unless you actually changed files through shell ''
                  @ ''and verified the result with read or shell.'']
               else
                 [''Do not claim you created, edited, or saved a file unless you actually used ''
                  @ ''write or edit, or verified the result with ''
                  @ (if can_shell then ''read or shell'' else ''read'') @ ''.'',
                  ''After code changes or required file outputs, run the smallest relevant ''
                  @ ''verification step before concluding.'',
                  ''When the user asks to run tests, lint, or another obvious verification step, ''
                  @ ''run the narrowest relevant command directly; inspect first only if the ''
                  @ ''command or scope is ambiguous.'']))"

definition build_sections_with_layout ::
    "string list \<Rightarrow> run_mode \<Rightarrow> prompt_section list \<Rightarrow> (prompt_error, prompt_section list) result" where
  "build_sections_with_layout names mode extra =
     res_bind (build_tool_policy_lines names)
       (\<lambda>tools. res_bind (build_verification_policy_lines names)
       (\<lambda>checks. Inr
         ([identity_section, \<lparr>prs_name = ''tool_policy'', prs_lines = tools\<rparr>, tool_failure_policy_section,
           \<lparr>prs_name = ''verification_policy'', prs_lines = checks\<rparr>]
          @ (case mode of Mode_coding \<Rightarrow> [] | Mode_onboarding \<Rightarrow> [onboarding_mode_section])
          @ extra @ [failure_semantics_section, response_style_section, filesystem_truth_section])))"

text \<open>
  The prompt of the default layout is built once and reused; that it is the prompt the layout gives
  for the canonical tools is how it is initialized.
\<close>

definition build_base_product_prompt ::
    "string list \<Rightarrow> run_mode \<Rightarrow> prompt_section list \<Rightarrow> (prompt_error, string) result" where
  "build_base_product_prompt names mode extra =
     res_bind (build_sections_with_layout names mode extra)
       (\<lambda>sections. Inr (join [CHR 0x0A] (concat (map prs_lines sections))))"

section \<open>The layers around the history\<close>

datatype layers_error = Layers_docs doc_error | Layers_turn turn_error | Layers_prompt prompt_error

record prompt_context_layers =
  pcl_base_instructions :: string
  pcl_project_messages :: "model_message list"
  pcl_runtime_before :: "model_message list"
  pcl_runtime_after :: "model_message list"
  pcl_mode_messages :: "model_message list"

definition before_history_messages :: "prompt_context_layers \<Rightarrow> model_message list" where
  "before_history_messages l = pcl_project_messages l @ pcl_runtime_before l @ pcl_mode_messages l"

definition after_history_messages :: "prompt_context_layers \<Rightarrow> model_message list" where
  "after_history_messages l = pcl_runtime_after l"

definition build_default_mode_messages :: "model_message list" where
  "build_default_mode_messages = []"

definition build_prompt_context_layers ::
    "turn_environment \<Rightarrow> (ppath \<Rightarrow> ustr option) \<Rightarrow> baseline_decision option \<Rightarrow> turn_request \<Rightarrow> string list
     \<Rightarrow> run_mode \<Rightarrow> int \<Rightarrow> (layers_error, prompt_context_layers) result" where
  "build_prompt_context_layers env read_text decision q names mode doc_budget =
     res_bind (lift_error Layers_docs
         (build_project_doc_prefix_messages (te_fs env) read_text (tq_workspace_root q) doc_budget))
       (\<lambda>(_, project). res_bind (lift_error Layers_turn (build_runtime_context_injection_plan env decision q))
       (\<lambda>plan. res_bind (lift_error Layers_prompt (build_base_product_prompt names mode []))
       (\<lambda>base. Inr \<lparr>pcl_base_instructions = base, pcl_project_messages = project,
                    pcl_runtime_before = ip_before_history plan, pcl_runtime_after = ip_after_history plan,
                    pcl_mode_messages = build_default_mode_messages\<rparr>)))"


section \<open>What a run with tools is told\<close>

definition guided :: "string \<Rightarrow> bool" where
  "guided n \<longleftrightarrow> startswith n mcp_tool_name_prefix \<or> map_of tool_guidance_by_name n \<noteq> None"

lemma guidance_exists: "succeeds (guidance_lines b ns) \<longleftrightarrow> list_all guided ns"
  by (induction b ns rule: guidance_lines.induct) (auto simp: guided_def succeeds_iff split: option.splits)

lemma policy_exists: "succeeds (build_tool_policy_lines ns) \<longleftrightarrow> distinct ns \<and> list_all guided ns"
  using guidance_exists [of False ns]
  by (auto simp: build_tool_policy_lines_def dedupe_tool_names_def succeeds_iff)

lemma verification_exists: "succeeds (build_verification_policy_lines ns) \<longleftrightarrow> distinct ns"
  by (simp add: build_verification_policy_lines_def dedupe_tool_names_def Let_def)

lemma prompt_exists:
  "succeeds (build_base_product_prompt ns mode extra) \<longleftrightarrow> distinct ns \<and> list_all guided ns"
  using policy_exists [of ns] verification_exists [of ns]
  by (auto simp: build_base_product_prompt_def build_sections_with_layout_def succeeds_iff)

lemma known_tools_guided: "list_all guided known_tool_names"
  by code_simp

lemma no_tool_repeats_mcp_line:
  "list_all (\<lambda>(_, g). mcp_guidance_line \<notin> set g) tool_guidance_by_name"
  by code_simp

definition all_given :: "string list \<Rightarrow> string list \<Rightarrow> bool" where
  "all_given ns ls \<longleftrightarrow>
     (\<forall>n \<in> set ns. \<not> startswith n mcp_tool_name_prefix \<longrightarrow>
        (\<exists>g. map_of tool_guidance_by_name n = Some g \<and> set g \<subseteq> set ls))"

lemma all_given_mono: "all_given ns ls \<Longrightarrow> set ls \<subseteq> set ls' \<Longrightarrow> all_given ns ls'"
  unfolding all_given_def by (meson subset_trans)

lemma all_given_Cons:
  "all_given (n # ns) ls \<longleftrightarrow> all_given ns ls \<and> (\<not> startswith n mcp_tool_name_prefix \<longrightarrow>
     (\<exists>g. map_of tool_guidance_by_name n = Some g \<and> set g \<subseteq> set ls))"
  by (auto simp: all_given_def)

lemma guidance_given:
  "guidance_lines b ns = Inr ls \<Longrightarrow>
     all_given ns ls \<and> count_list ls mcp_guidance_line
       = (if \<not> b \<and> (\<exists>n \<in> set ns. startswith n mcp_tool_name_prefix) then 1 else 0)"
proof (induction ns arbitrary: b ls)
  case Nil
  then show ?case by (simp add: all_given_def)
next
  case (Cons n ns)
  show ?case
  proof (cases "startswith n mcp_tool_name_prefix")
    case True
    with Cons.prems obtain ls' where rest: "guidance_lines True ns = Inr ls'"
      and ls: "ls = (if b then ls' else mcp_guidance_line # ls')" by auto
    have "all_given ns ls" using Cons.IH [OF rest] ls by (auto intro: all_given_mono)
    with Cons.IH [OF rest] True ls show ?thesis by (auto simp: all_given_Cons)
  next
    case False
    with Cons.prems obtain g ls' where g: "map_of tool_guidance_by_name n = Some g"
      and rest: "guidance_lines b ns = Inr ls'" and ls: "ls = g @ ls'"
      by (auto split: option.splits)
    from g have "mcp_guidance_line \<notin> set g"
      using no_tool_repeats_mcp_line by (auto simp: list_all_iff dest: map_of_SomeD)
    then have "count_list g mcp_guidance_line = 0" by simp
    moreover have "all_given ns ls" using Cons.IH [OF rest] ls by (auto intro: all_given_mono)
    ultimately show ?thesis using Cons.IH [OF rest] g ls False by (auto simp: all_given_Cons)
  qed
qed

lemma policy_shape:
  assumes "build_tool_policy_lines ns = Inr ls" and "ns \<noteq> []"
  obtains guidance where "guidance_lines False ns = Inr guidance"
    and "ls = (''Use only these tools: '' @ join '', '' ns @ ''.'') # guidance"
  using assms unfolding build_tool_policy_lines_def dedupe_tool_names_def
  by (simp split: if_splits) (elim exE conjE, simp)

text \<open>
  The tool policy of a prompt names the tools of the run, gives the guidance of every tool that is
  not an MCP tool, and the line about MCP tools once, when there is one.
\<close>

theorem prompt_guides_every_tool:
  assumes "build_tool_policy_lines ns = Inr ls" and "ns \<noteq> []"
  shows "hd ls = ''Use only these tools: '' @ join '', '' ns @ ''.''
    \<and> (\<forall>n \<in> set ns. \<not> startswith n mcp_tool_name_prefix \<longrightarrow>
        (\<exists>g. map_of tool_guidance_by_name n = Some g \<and> set g \<subseteq> set (tl ls)))
    \<and> count_list (tl ls) mcp_guidance_line
      = (if \<exists>n \<in> set ns. startswith n mcp_tool_name_prefix then 1 else 0)"
proof -
  from assms obtain guidance where g: "guidance_lines False ns = Inr guidance"
    and ls: "ls = (''Use only these tools: '' @ join '', '' ns @ ''.'') # guidance"
    by (rule policy_shape)
  from guidance_given [OF g] show ?thesis unfolding ls list.sel all_given_def by simp
qed

definition jaca_onboarding_mcp_tool_names :: "string list" where
  "jaca_onboarding_mcp_tool_names =
     [''mcp__jaca_onboarding__ask_mcq_question'',
      ''mcp__jaca_onboarding__generate_mcq_from_teaching_packets'',
      ''mcp__jaca_onboarding__publish_teaching_packet'']"

text \<open>
  The guidance for the onboarding tools under their MCP names is in the table, and never reaches a
  prompt: a run with these tools is told their names and the line about MCP tools.
\<close>

theorem onboarding_guidance_is_unreachable:
  "list_all (\<lambda>n. map_of tool_guidance_by_name n \<noteq> None) jaca_onboarding_mcp_tool_names
   \<and> build_tool_policy_lines jaca_onboarding_mcp_tool_names
     = Inr [''Use only these tools: '' @ join '', '' jaca_onboarding_mcp_tool_names @ ''.'', mcp_guidance_line]"
  by code_simp

theorem prompt_guides_every_tool_witness:
  "\<exists>ls g. build_tool_policy_lines [''read''] = Inr ls \<and> map_of tool_guidance_by_name ''read'' = Some g
     \<and> set g \<subseteq> set (tl ls)"
proof -
  have d: "succeeds (build_tool_policy_lines [''read''])" unfolding policy_exists by code_simp
  then obtain ls where ls: "build_tool_policy_lines [''read''] = Inr ls" by (auto simp: succeeds_iff)
  have "\<not> startswith ''read'' mcp_tool_name_prefix" by code_simp
  with prompt_guides_every_tool [OF ls] ls show ?thesis by (simp only: list.set) blast
qed

end
