(* ===== verification/Compaction.thy ===== *)
theory Compaction
  imports Compaction_Source Prompt_Layers Shell_Permissions
begin

text \<open>
  When and how a session is compacted: \<open>runtime/compaction/token_counting.py\<close>, \<open>resume.py\<close>,
  \<open>trigger.py\<close>, \<open>session_summary.py\<close> and the report of \<open>contracts/compaction.py\<close>. The tokenizer, the
  JSON text of messages, what the summarizing model answers and the context window of the model are
  inputs.
\<close>

section \<open>Constants\<close>

definition session_auto_compaction_prompt_reserve_tokens :: int where
  "session_auto_compaction_prompt_reserve_tokens = 24000"

definition session_auto_compaction_retained_tail_tokens :: int where
  "session_auto_compaction_retained_tail_tokens = 20000"

definition static_provider_overhead_tokens :: int where
  "static_provider_overhead_tokens = 2000"

definition pending_prompt_framing_tokens :: int where
  "pending_prompt_framing_tokens = 4"

text \<open>
  The utilization is a fraction, numerator and denominator; \<open>float()\<close> of the variable's text is a
  parameter, None where it raises or is not finite.
\<close>

definition load_context_window_utilization ::
    "(ustr \<Rightarrow> (int \<times> int) option) \<Rightarrow> ustr option \<Rightarrow> (unit, int \<times> int) result" where
  "load_context_window_utilization parse_float raw_value =
     (case raw_value of
        None \<Rightarrow> Inr (7, 10)
      | Some raw \<Rightarrow>
          (case parse_float raw of
             None \<Rightarrow> Inl ()
           | Some (n, d) \<Rightarrow> if \<not> (0 < n \<and> n \<le> d) then Inl () else Inr (n, d)))"

text \<open>
  \<open>math.floor(tokens * utilization + 1e-6)\<close>, exactly: the rounding of the product is far below the
  millionth that is added.
\<close>

definition trigger_budget :: "int \<times> int \<Rightarrow> int \<Rightarrow> int" where
  "trigger_budget u effective =
     (effective * fst u * 1000000 + snd u) div (snd u * 1000000)"

section \<open>Counting tokens\<close>

definition openai_prefix_to_encoding :: "(string \<times> string) list" where
  "openai_prefix_to_encoding =
     [(''gpt-5'', ''o200k_base''), (''gpt-4.1'', ''o200k_base''), (''gpt-4o'', ''o200k_base''),
      (''o1'', ''o200k_base''), (''o3'', ''o200k_base''), (''o4'', ''o200k_base''),
      (''gpt-4'', ''cl100k_base''), (''gpt-3.5'', ''cl100k_base'')]"

definition is_claude_model :: "string \<Rightarrow> bool" where
  "is_claude_model model_id \<longleftrightarrow> contains (map ascii_lower model_id) ''claude''"

definition encoding_for_model :: "string \<Rightarrow> string" where
  "encoding_for_model model_id =
     (case find (\<lambda>(p, _). contains (map ascii_lower model_id) p) openai_prefix_to_encoding of
        Some (_, encoding) \<Rightarrow> encoding
      | None \<Rightarrow> ''o200k_base'')"

text \<open>\<open>int(count * 1.1)\<close>; the double 1.1 is just above eleven tenths.\<close>

definition apply_provider_bias :: "int \<Rightarrow> string \<Rightarrow> int" where
  "apply_provider_bias count model_id = (if is_claude_model model_id then count * 11 div 10 else count)"

text \<open>A tokenizer: the number of tokens a text has in an encoding.\<close>

type_synonym tokenizer = "string \<Rightarrow> ustr \<Rightarrow> nat"

definition count_text_tokens :: "tokenizer \<Rightarrow> string \<Rightarrow> ustr \<Rightarrow> int" where
  "count_text_tokens encode model_id s =
     (if s = [] then 0
      else apply_provider_bias (int (encode (encoding_for_model model_id) s)) model_id)"

fun count_json_tokens :: "tokenizer \<Rightarrow> string \<Rightarrow> tool_payload \<Rightarrow> int" where
  "count_json_tokens encode model_id No_payload = 0"
| "count_json_tokens encode model_id (Payload_text s) = count_text_tokens encode model_id s"
| "count_json_tokens encode model_id (Payload_json s) = count_text_tokens encode model_id s"

fun count_item_tokens :: "tokenizer \<Rightarrow> string \<Rightarrow> prompt_item \<Rightarrow> int" where
  "count_item_tokens encode model_id (Item_text s) = count_text_tokens encode model_id s"
| "count_item_tokens encode model_id Item_other = 0"

definition thinking_part_placeholder_tokens :: int where
  "thinking_part_placeholder_tokens = 16"

definition per_message_framing_tokens :: int where
  "per_message_framing_tokens = 4"

fun count_part_tokens :: "tokenizer \<Rightarrow> string \<Rightarrow> message_part \<Rightarrow> int" where
  "count_part_tokens encode model_id (User_prompt_part (Prompt_text s)) = count_text_tokens encode model_id s"
| "count_part_tokens encode model_id (User_prompt_part (Prompt_items items)) =
     (\<Sum>i\<leftarrow>items. count_item_tokens encode model_id i)"
| "count_part_tokens encode model_id (System_prompt_part s) = count_text_tokens encode model_id s"
| "count_part_tokens encode model_id (Text_part s) = count_text_tokens encode model_id s"
| "count_part_tokens encode model_id (Tool_call_part n _ p) =
     count_text_tokens encode model_id (lit n) + count_json_tokens encode model_id p"
| "count_part_tokens encode model_id (Tool_return_part n _ p) =
     count_text_tokens encode model_id (lit n) + count_json_tokens encode model_id p"
| "count_part_tokens encode model_id (Retry_prompt_part _ s) = count_text_tokens encode model_id s"
| "count_part_tokens encode model_id (Thinking_part s) =
     max (count_text_tokens encode model_id s) thinking_part_placeholder_tokens"
| "count_part_tokens encode model_id Other_part = 0"

definition count_message_tokens :: "tokenizer \<Rightarrow> string \<Rightarrow> model_message list \<Rightarrow> int" where
  "count_message_tokens encode model_id messages =
     (\<Sum>m\<leftarrow>messages. (\<Sum>p\<leftarrow>message_parts m. count_part_tokens encode model_id p) + per_message_framing_tokens)"

section \<open>The history a session is resumed with\<close>

definition build_resume_message_history :: "loaded_session \<Rightarrow> (compaction_error, model_message list) result" where
  "build_resume_message_history l =
     (case latest_compaction l of
        None \<Rightarrow> Inr (strip_internal_prompt_state (message_history l))
      | Some c \<Rightarrow> res_bind (run_index_or_fail l (sc_compacted_through_run_id c))
          (\<lambda>i. Inr (strip_internal_prompt_state
             (sc_replacement_messages c @ concat (map rr_messages (drop (i + 1) (lo_runs l)))))))"

text \<open>What the environment gives a run, beside its session.\<close>

record prompt_environment =
  pe_turn :: turn_environment
  pe_read_text :: "ppath \<Rightarrow> ustr option"
  pe_dump :: "model_message list \<Rightarrow> ustr"

datatype trigger_error =
    Trigger_compaction compaction_error | Trigger_layers layers_error | Trigger_path path_error

definition build_runtime_framed_resume_message_history ::
    "prompt_environment \<Rightarrow> loaded_session option \<Rightarrow> baseline_decision option \<Rightarrow> turn_request \<Rightarrow> string list
     \<Rightarrow> (trigger_error, model_message list) result" where
  "build_runtime_framed_resume_message_history env loaded decision q names =
     res_bind (case loaded of
                 None \<Rightarrow> Inr []
               | Some l \<Rightarrow> lift_error Trigger_compaction (build_resume_message_history l))
       (\<lambda>resume. res_bind (lift_error Trigger_layers (build_prompt_context_layers (pe_turn env) (pe_read_text env)
           decision q names Mode_coding project_doc_total_byte_budget))
       (\<lambda>layers. Inr (before_history_messages layers @ resume @ after_history_messages layers)))"

section \<open>The trigger\<close>

record resume_history_budget_estimate =
  rhe_runtime_context_tokens :: int
  rhe_resume_message_tokens :: int
  rhe_replacement_messages_tokens :: int
  rhe_replacement_summary_tokens :: int

record budget_request =
  br_model :: string
  br_workspace_root :: "string option"
  br_current_date :: "ustr option"
  br_shell_family :: "shell_family option"
  br_thinking :: "thinking_setting option"

definition estimate_request :: "loaded_session \<Rightarrow> budget_request \<Rightarrow> turn_request" where
  "estimate_request l r =
     \<lparr>tq_model = br_model r,
      tq_workspace_root = or_default (br_workspace_root r) (sh_workspace_root (lo_header l)),
      tq_current_date = br_current_date r,
      tq_shell_family = Some (or_default (br_shell_family r) (sh_shell_family (lo_header l))),
      tq_timezone = None, tq_thinking = br_thinking r, tq_effective_capabilities = None,
      tq_mcp_inventory = map_option Inventory_entry (lo_latest_mcp_inventory l)\<rparr>"

definition message_tokens :: "prompt_environment \<Rightarrow> model_message list \<Rightarrow> int" where
  "message_tokens env messages = int (estimate_messages_tokens (pe_dump env) messages)"

definition estimate_resume_history_budget_components ::
    "prompt_environment \<Rightarrow> loaded_session \<Rightarrow> budget_request
     \<Rightarrow> (trigger_error, resume_history_budget_estimate) result" where
  "estimate_resume_history_budget_components env l r =
     (let q = estimate_request l r in
      res_bind (lift_error Trigger_path (evaluate_turn_context_baseline (pe_turn env) (lo_latest_turn_context l) q
          (lo_has_turn_context_history l)))
       (\<lambda>decision. res_bind (build_runtime_framed_resume_message_history env None (Some decision) q canonical_tool_names)
       (\<lambda>context. res_bind (lift_error Trigger_compaction (build_resume_message_history l))
       (\<lambda>resume.
          Inr (case latest_compaction l of
            None \<Rightarrow> \<lparr>rhe_runtime_context_tokens = message_tokens env context,
                      rhe_resume_message_tokens = message_tokens env resume,
                      rhe_replacement_messages_tokens = 0, rhe_replacement_summary_tokens = 0\<rparr>
          | Some c \<Rightarrow>
              (let replacement = sc_replacement_messages c in
               \<lparr>rhe_runtime_context_tokens = message_tokens env context,
                rhe_resume_message_tokens = message_tokens env resume,
                rhe_replacement_messages_tokens = message_tokens env replacement,
                rhe_replacement_summary_tokens =
                  (if extract_compaction_summary_text replacement = None then 0
                   else message_tokens env (last_of 1 replacement))\<rparr>))))))"

datatype compaction_budget_reason =
  No_runs | Unknown_context_window | Within_budget | No_new_work | Over_budget

record compaction_budget_report =
  cbr_should_compact :: bool
  cbr_reason :: compaction_budget_reason
  cbr_context_window_tokens :: "int option"
  cbr_effective_context_window_tokens :: "int option"
  cbr_output_headroom_tokens :: "int option"
  cbr_trigger_budget_tokens :: "int option"
  cbr_prompt_reserve_tokens :: int
  cbr_estimate :: resume_history_budget_estimate
  cbr_estimated_pre_run_tokens :: int
  cbr_estimated_post_compaction_headroom_tokens :: "int option"
  cbr_runs_since_latest_compaction :: nat

definition pre_run_tokens :: "resume_history_budget_estimate \<Rightarrow> int" where
  "pre_run_tokens e = rhe_runtime_context_tokens e + rhe_resume_message_tokens e
     + session_auto_compaction_prompt_reserve_tokens"

definition report_without_window ::
    "resume_history_budget_estimate \<Rightarrow> nat \<Rightarrow> compaction_budget_reason \<Rightarrow> compaction_budget_report" where
  "report_without_window e runs reason =
     \<lparr>cbr_should_compact = False, cbr_reason = reason, cbr_context_window_tokens = None,
      cbr_effective_context_window_tokens = None, cbr_output_headroom_tokens = None,
      cbr_trigger_budget_tokens = None,
      cbr_prompt_reserve_tokens = session_auto_compaction_prompt_reserve_tokens, cbr_estimate = e,
      cbr_estimated_pre_run_tokens = pre_run_tokens e,
      cbr_estimated_post_compaction_headroom_tokens = None, cbr_runs_since_latest_compaction = runs\<rparr>"

definition report_with_window ::
    "int \<times> int \<Rightarrow> int \<Rightarrow> resume_history_budget_estimate \<Rightarrow> nat \<Rightarrow> compaction_budget_report" where
  "report_with_window u window e runs =
     (let effective = build_effective_compaction_context_window_tokens window;
          trigger = trigger_budget u effective;
          reason = (if runs = 0 then No_new_work
                    else if pre_run_tokens e < trigger then Within_budget else Over_budget)
      in (report_without_window e runs reason)
           \<lparr>cbr_should_compact := (reason = Over_budget), cbr_context_window_tokens := Some window,
            cbr_effective_context_window_tokens := Some effective,
            cbr_output_headroom_tokens := Some (build_compaction_output_headroom_tokens window),
            cbr_trigger_budget_tokens := Some trigger,
            cbr_estimated_post_compaction_headroom_tokens := Some (effective - pre_run_tokens e)\<rparr>)"

definition build_auto_compact_session_budget_report ::
    "prompt_environment \<Rightarrow> int \<times> int \<Rightarrow> int option \<Rightarrow> loaded_session \<Rightarrow> budget_request
     \<Rightarrow> (trigger_error, compaction_budget_report) result" where
  "build_auto_compact_session_budget_report env u window l r =
     res_bind (lift_error Trigger_compaction (runs_since_latest_compaction l))
       (\<lambda>runs. res_bind (estimate_resume_history_budget_components env l r)
       (\<lambda>e. Inr
          (if lo_runs l = [] then report_without_window e runs No_runs
           else (case window of
                   None \<Rightarrow> report_without_window e runs Unknown_context_window
                 | Some w \<Rightarrow> report_with_window u w e runs))))"

definition should_auto_compact_session ::
    "prompt_environment \<Rightarrow> int \<times> int \<Rightarrow> int option \<Rightarrow> loaded_session \<Rightarrow> budget_request
     \<Rightarrow> (trigger_error, bool) result" where
  "should_auto_compact_session env u window l r =
     res_bind (build_auto_compact_session_budget_report env u window l r) (\<lambda>b. Inr (cbr_should_compact b))"

section \<open>The trigger inside a run\<close>

record last_response_usage =
  lru_input_tokens :: int
  lru_output_tokens :: int
  lru_messages_prefix_count :: nat

definition estimate_next_request_input_tokens ::
    "tokenizer \<Rightarrow> string \<Rightarrow> model_message list \<Rightarrow> last_response_usage option \<Rightarrow> ustr option \<Rightarrow> int" where
  "estimate_next_request_input_tokens encode model_id messages usage pending_prompt =
     (let base = (case usage of
            None \<Rightarrow> count_message_tokens encode model_id messages + static_provider_overhead_tokens
          | Some u \<Rightarrow> lru_input_tokens u + lru_output_tokens u
              + count_message_tokens encode model_id (drop (lru_messages_prefix_count u) messages))
      in case pending_prompt of
           None \<Rightarrow> base
         | Some s \<Rightarrow>
             if s = [] then base
             else base + (count_text_tokens encode model_id s + pending_prompt_framing_tokens))"

definition check_in_run_compaction_needed ::
    "tokenizer \<Rightarrow> int \<times> int \<Rightarrow> int option \<Rightarrow> string \<Rightarrow> model_message list \<Rightarrow> last_response_usage option
     \<Rightarrow> ustr option \<Rightarrow> bool" where
  "check_in_run_compaction_needed encode u window model_id messages usage pending_prompt =
     (case window of
        None \<Rightarrow> False
      | Some w \<Rightarrow> trigger_budget u (build_effective_compaction_context_window_tokens w)
          \<le> estimate_next_request_input_tokens encode model_id messages usage pending_prompt)"

section \<open>Summarizing\<close>

definition normalize_compaction_summary_text :: "ustr \<Rightarrow> ustr" where
  "normalize_compaction_summary_text s = join [10] (filter (\<lambda>l. l \<noteq> []) (map strip (splitlines s)))"

text \<open>The summarizing model, for a source; it may fail.\<close>

type_synonym summarizer = "ustr \<Rightarrow> (unit, ustr) result"

datatype summary_error =
    Summary_compaction compaction_error | Summary_model_failed | Summary_append append_error
  | Summary_replacement replacement_error

definition summarize_compaction_source :: "summarizer \<Rightarrow> ustr \<Rightarrow> (summary_error, ustr) result" where
  "summarize_compaction_source model source =
     res_bind (lift_error (\<lambda>_. Summary_model_failed) (model source))
       (\<lambda>text. let normalized = normalize_compaction_summary_text text in
          if normalized = [] then Inl (Summary_compaction Compaction_summary_empty) else Inr normalized)"

definition summarize_session_for_compaction ::
    "summarizer \<Rightarrow> int option \<Rightarrow> loaded_session \<Rightarrow> (summary_error, ustr) result" where
  "summarize_session_for_compaction model window l =
     (if lo_runs l = [] then Inl (Summary_compaction No_completed_runs_to_compact)
      else res_bind (lift_error Summary_compaction (build_compaction_source l window))
        (summarize_compaction_source model))"

text \<open>The files that are left, and the entry or the error.\<close>

definition summarize_and_append_compaction_to_session ::
    "summarizer \<Rightarrow> int option \<Rightarrow> string \<Rightarrow> nat \<Rightarrow> string \<Rightarrow> session_files
     \<Rightarrow> session_files \<times> (summary_error, session_compaction_entry) result" where
  "summarize_and_append_compaction_to_session model window root now uuid f =
     (case load_log root f of
        Inl e \<Rightarrow> (f, Inl (Summary_append e))
      | Inr l \<Rightarrow>
          if lo_runs l = [] then (f, Inl (Summary_compaction No_completed_runs_to_compact))
          else (case
            res_bind (summarize_session_for_compaction model window l)
              (\<lambda>summary. res_bind (lift_error Summary_compaction (build_resume_message_history l))
              (\<lambda>messages. lift_error Summary_replacement
                 (build_compaction_replacement_messages messages summary
                    session_auto_compaction_retained_tail_tokens))) of
              Inl e \<Rightarrow> (f, Inl e)
            | Inr replacement \<Rightarrow>
                (case append_compaction_to_session root now uuid replacement None f of
                   (f', r) \<Rightarrow> (f', lift_error Summary_append r))))"


section \<open>Resuming a session that loads never fails\<close>

lemma known_boundary:
  assumes "load_entries root es = Inr l" and "latest_compaction l = Some c"
  obtains i where "run_index_or_fail l (sc_compacted_through_run_id c) = Inr i" and "i < length (lo_runs l)"
proof -
  have "c \<in> set (lo_compactions l)"
    using assms(2) by (auto simp: latest_compaction_def split: if_splits)
  then have "sc_compacted_through_run_id c \<in> rr_run_id ` set (lo_runs l)"
    using loaded_consistent [OF assms(1)] by (simp add: session_consistent_def Let_def)
  then have "run_index_for_id l (sc_compacted_through_run_id c) \<noteq> None"
    by (auto simp: run_index_for_id_def index_where_None)
  then obtain i where "run_index_for_id l (sc_compacted_through_run_id c) = Some i" by blast
  then show ?thesis
    using that index_where_Some [of _ "lo_runs l" i]
    by (auto simp: run_index_or_fail_def run_index_for_id_def)
qed

definition kept_replacement :: "loaded_session \<Rightarrow> model_message list" where
  "kept_replacement l = (case latest_compaction l of None \<Rightarrow> [] | Some c \<Rightarrow> sc_replacement_messages c)"

lemma resumed:
  assumes "load_entries root es = Inr l"
  obtains runs where "suffix runs (lo_runs l)" and "runs_since_latest_compaction_boundary l = Inr runs"
    and "runs_since_latest_compaction l = Inr (length runs)"
    and "build_resume_message_history l
      = Inr (strip_internal_prompt_state (kept_replacement l @ concat (map rr_messages runs)))"
proof (cases "latest_compaction l")
  case None
  then show ?thesis
    by (intro that [of "lo_runs l"])
      (simp_all add: runs_since_latest_compaction_boundary_def runs_since_latest_compaction_def
        build_resume_message_history_def kept_replacement_def message_history_def)
next
  case (Some c)
  obtain i where i: "run_index_or_fail l (sc_compacted_through_run_id c) = Inr i"
    using assms Some by (rule known_boundary)
  show ?thesis
    by (rule that [of "drop (i + 1) (lo_runs l)"])
      (simp_all add: suffix_drop runs_since_latest_compaction_boundary_def runs_since_latest_compaction_def
        build_resume_message_history_def kept_replacement_def Some i)
qed

text \<open>
  Every session that loads can be resumed: the history is the replacement of the latest compaction and
  the messages of every run after it, in order, without the internal prompt state, and the run
  counted and rendered for the next compaction are these same runs.
\<close>

theorem loaded_sessions_resume:
  assumes "load_entries root es = Inr l"
  shows "\<exists>runs. suffix runs (lo_runs l) \<and> runs_since_latest_compaction_boundary l = Inr runs
    \<and> runs_since_latest_compaction l = Inr (length runs)
    \<and> build_resume_message_history l
      = Inr (strip_internal_prompt_state (kept_replacement l @ concat (map rr_messages runs)))"
  by (rule resumed [OF assms]) blast

section \<open>A compaction settles\<close>

lemma appended_through_last:
  assumes "append_compaction_to_session root now uuid r None f = (f', Inr e)"
    and "sfl_log f = Some log" and "load_entries root log = Inr l"
  shows "lo_runs l \<noteq> []" and "sc_compacted_through_run_id e = rr_run_id (last (lo_runs l))"
  using assms
  by (auto simp: append_compaction_to_session_def load_log_def touch_metadata_def write_entry_def
      update_session_metadata_def Let_def split: if_splits sum.splits option.splits)

lemma settled:
  assumes "load_entries root log' = Inr l'" and "latest_compaction l' = Some e" and "lo_runs l' \<noteq> []"
    and "sc_compacted_through_run_id e = rr_run_id (last (lo_runs l'))"
  shows "runs_since_latest_compaction l' = Inr 0"
    and "build_resume_message_history l' = Inr (strip_internal_prompt_state (sc_replacement_messages e))"
proof -
  have "distinct (map rr_run_id (lo_runs l'))"
    using loaded_consistent [OF assms(1)] by (simp add: session_consistent_def Let_def)
  then have i: "run_index_or_fail l' (sc_compacted_through_run_id e) = Inr (length (lo_runs l') - 1)"
    using last_run_index [of "lo_runs l'"] assms(3,4)
    by (simp add: run_index_or_fail_def run_index_for_id_def)
  then show "runs_since_latest_compaction l' = Inr 0"
    "build_resume_message_history l' = Inr (strip_internal_prompt_state (sc_replacement_messages e))"
    using assms(2) by (simp_all add: runs_since_latest_compaction_def build_resume_message_history_def)
qed

lemma reported: "cbr_should_compact (report_with_window u w e 0) = False" "cbr_should_compact (report_without_window e n x) = False"
  by (simp_all add: report_with_window_def report_without_window_def Let_def)

lemma no_work_no_compaction:
  assumes "runs_since_latest_compaction l = Inr 0"
    and "build_auto_compact_session_budget_report env u w l r = Inr b" shows "\<not> cbr_should_compact b"
  using assms by (cases w) (auto simp: build_auto_compact_session_budget_report_def reported split: if_splits)

lemma summarized [inversion]:
  assumes "summarize_and_append_compaction_to_session model window root now uuid f = (f', Inr e)"
    and "sfl_log f = Some log"
  obtains l r where "load_entries root log = Inr l"
    and "append_compaction_to_session root now uuid r None f = (f', Inr e)"
  using assms
  by (auto simp: summarize_and_append_compaction_to_session_def load_log_def
      split: sum.splits if_splits prod.splits)

lemma compaction_settled:
  assumes "summarize_and_append_compaction_to_session model window root now uuid f = (f', Inr e)"
    and "sfl_log f = Some log"
  shows "\<exists>log' l'. sfl_log f' = Some log' \<and> load_entries root log' = Inr l'
    \<and> latest_compaction l' = Some e
    \<and> build_resume_message_history l' = Inr (strip_internal_prompt_state (sc_replacement_messages e))
    \<and> (\<forall>env u w r b. build_auto_compact_session_budget_report env u w l' r = Inr b \<longrightarrow> \<not> cbr_should_compact b)"
proof -
  obtain l r where l: "load_entries root log = Inr l"
    and a: "append_compaction_to_session root now uuid r None f = (f', Inr e)"
    using assms by (rule summarized)
  obtain i where log': "sfl_log f' = Some (log @ [Compaction_entry e])" and r: "sc_replacement_messages e = r"
    and i: "run_index_for_id l (sc_compacted_through_run_id e) = Some i"
    and b: "\<forall>c j. latest_compaction l = Some c
        \<and> run_index_for_id l (sc_compacted_through_run_id c) = Some j \<longrightarrow> j \<le> i"
    and v: "validate_compaction_replacement_messages r = Inr ()" "validate_run_messages r = Inr ()"
    using a assms(2) l by (rule appended_compaction)
  have l': "load_entries root (log @ [Compaction_entry e]) = Inr (compaction_added e l)"
    using loaded_compaction [OF l i b] v r by simp
  have e: "latest_compaction (compaction_added e l) = Some e"
    by (simp add: latest_compaction_def compaction_added_def)
  moreover have "lo_runs (compaction_added e l) = lo_runs l" by (simp add: compaction_added_def)
  ultimately have s: "runs_since_latest_compaction (compaction_added e l) = Inr 0"
    "build_resume_message_history (compaction_added e l)
      = Inr (strip_internal_prompt_state (sc_replacement_messages e))"
    using settled [OF l'] appended_through_last [OF a assms(2) l] by simp_all
  have "\<forall>env u w r b. build_auto_compact_session_budget_report env u w (compaction_added e l) r = Inr b
      \<longrightarrow> \<not> cbr_should_compact b"
    using no_work_no_compaction [OF s(1)] by blast
  with log' l' s(2) e show ?thesis by blast
qed

text \<open>
  C35: A compaction settles the matter: when summarizing and appending succeeds, the session loads, it is
  resumed with the replacement alone, and no budget, window or utilization asks for another
  compaction before the next run.
\<close>

theorem compaction_settles:
  assumes "summarize_and_append_compaction_to_session model window root now uuid f = (f', Inr e)"
    and "sfl_log f = Some log"
  shows "\<exists>log' l'. sfl_log f' = Some log' \<and> load_entries root log' = Inr l'
    \<and> build_resume_message_history l' = Inr (strip_internal_prompt_state (sc_replacement_messages e))
    \<and> (\<forall>env u w r b. build_auto_compact_session_budget_report env u w l' r = Inr b \<longrightarrow> \<not> cbr_should_compact b)"
  using compaction_settled [OF assms] by blast

section \<open>An answer of the summarizing model is enough\<close>

lemma char_in_line: "c \<in> set s \<Longrightarrow> \<not> line_boundary c \<Longrightarrow> \<exists>l \<in> set (splitlines s). c \<in> set l"
proof (induction s rule: splitlines.induct)
  case 1
  then show ?case by simp
next
  case (2 d s)
  show ?case
  proof (cases "d = 13 \<and> s \<noteq> [] \<and> hd s = 10")
    case True
    with 2(4,5) have "c \<in> set (tl s)" by (cases s) auto
    with 2(1) [OF True] 2(5) True show ?thesis by auto
  next
    case False
    show ?thesis
    proof (cases "line_boundary d")
      case True
      with 2(4,5) have "c \<in> set s" by auto
      with 2(2) [OF False True] 2(5) False True show ?thesis by auto
    next
      case nb: False
      show ?thesis
      proof (cases "c \<in> set s")
        case True
        with 2(3) [OF False nb] 2(5) False nb show ?thesis by (auto split: list.splits)
      next
        case out: False
        with 2(4) False nb show ?thesis by (auto split: list.splits)
      qed
    qed
  qed
qed

lemma space_join: "(\<exists>l \<in> set ls. c \<in> set l) \<Longrightarrow> c \<in> set (join sep ls)"
  by (induction sep ls rule: join.induct) auto

lemma strip_keeps: "c \<in> set s \<Longrightarrow> \<not> py_isspace c \<Longrightarrow> c \<in> set (strip s)"
proof -
  have l: "c \<in> set s \<Longrightarrow> \<not> py_isspace c \<Longrightarrow> c \<in> set (dropWhile py_isspace s)" for s :: ustr
    by (induction s) auto
  assume "c \<in> set s" "\<not> py_isspace c"
  with l [of "rev (lstrip s)"] l [of s] show "c \<in> set (strip s)"
    by (simp add: strip_def rstrip_def lstrip_def)
qed

lemma normalized_summary_nonblank:
  assumes "strip s \<noteq> []"
  shows "strip (normalize_compaction_summary_text s) \<noteq> []"
proof -
  from assms obtain c where c: "c \<in> set s" "\<not> py_isspace c" by (auto simp: strip_nonblank)
  then obtain l where "l \<in> set (splitlines s)" "c \<in> set l"
    using char_in_line [of c s] boundary_space by blast
  then have "strip l \<in> set (filter (\<lambda>l. l \<noteq> []) (map strip (splitlines s)))" and "c \<in> set (strip l)"
    using strip_keeps [of c l] c(2) by auto
  then have "c \<in> set (normalize_compaction_summary_text s)"
    unfolding normalize_compaction_summary_text_def by (blast intro: space_join)
  with c(2) show ?thesis by (auto simp: strip_nonblank)
qed

text \<open>The user prompts of a history are texts, which the replacement can be made of.\<close>

definition text_prompts :: "model_message list \<Rightarrow> bool" where
  "text_prompts messages \<longleftrightarrow>
     succeeds (collect_real_user_message_texts (strip_internal_prompt_state messages))"

lemma answered_compaction:
  assumes "sfl_log f = Some log" and "load_entries root log = Inr l" and "lo_runs l \<noteq> []"
    and "sfl_metadata f \<noteq> None"
    and "build_compaction_source l window = Inr source" and "model source = Inr answer"
    and "strip answer \<noteq> []"
    and "build_resume_message_history l = Inr history" and "text_prompts history"
  shows "succeeds (snd (summarize_and_append_compaction_to_session model window root now uuid f))"
proof -
  let ?s = "normalize_compaction_summary_text answer"
  have s: "strip ?s \<noteq> []" using assms(7) by (rule normalized_summary_nonblank)
  then have "?s \<noteq> []" by auto
  then have sum: "summarize_session_for_compaction model window l = Inr ?s"
    using assms(3,5,6) by (simp add: summarize_session_for_compaction_def summarize_compaction_source_def)
  from assms(9) obtain texts where "collect_real_user_message_texts (strip_internal_prompt_state history) = Inr texts"
    by (auto simp: text_prompts_def succeeds_iff)
  then have "succeeds (build_compaction_replacement_messages history ?s session_auto_compaction_retained_tail_tokens)"
    using s by (simp add: build_compaction_replacement_messages_def select_recent_user_message_tail_def
        build_compaction_summary_message_def Let_def)
  then obtain r where r: "build_compaction_replacement_messages history ?s
      session_auto_compaction_retained_tail_tokens = Inr r" by (auto simp: succeeds_iff)
  have ok: "succeeds (snd (append_compaction_to_session root now uuid r None f))"
    using assms(1-4) r by (rule appendable_replacement)
  have "load_log root f = Inr l" by (simp add: load_log_def assms(1,2))
  then show ?thesis
    using ok assms(3,8) sum r
    by (cases "append_compaction_to_session root now uuid r None f")
      (simp add: summarize_and_append_compaction_to_session_def)
qed

text \<open>
  C36: An answer of the summarizing model is enough: for a session that loads, has a run, metadata, and
  text prompts, and whose source fits the model, any answer that is not blank becomes a compaction.
\<close>

theorem answered_compaction_succeeds:
  assumes "sfl_log f = Some log" and "load_entries root log = Inr l" and "lo_runs l \<noteq> []"
    and "sfl_metadata f \<noteq> None"
    and "build_compaction_source l window = Inr source" and "model source = Inr answer"
    and "strip answer \<noteq> []"
    and "build_resume_message_history l = Inr history" and "text_prompts history"
  shows "succeeds (snd (summarize_and_append_compaction_to_session model window root now uuid f))"
  using assms by (rule answered_compaction)

section \<open>Quiet triggers leave room for the answer\<close>

definition utilization_ok :: "int \<times> int \<Rightarrow> bool" where
  "utilization_ok u \<longleftrightarrow> 0 < fst u \<and> fst u \<le> snd u"

lemma loaded_utilization: "load_context_window_utilization parse raw = Inr u \<Longrightarrow> utilization_ok u"
  by (auto simp: load_context_window_utilization_def utilization_ok_def split: option.splits if_splits)

lemma int_div_less:
  fixes a b c :: int
  assumes "0 < b" and "a < c * b"
  shows "a div b < c"
proof (rule ccontr)
  assume "\<not> a div b < c"
  then have "c * b \<le> a div b * b" using assms(1) by (intro mult_right_mono) simp_all
  also have "\<dots> \<le> a" using div_mult_mod_eq [of a b] pos_mod_sign [OF assms(1), of a] by linarith
  finally show False using assms(2) by simp
qed

lemma trigger_below:
  assumes "utilization_ok u" and "0 \<le> e"
  shows "trigger_budget u e \<le> e"
proof -
  obtain n d where u: "u = (n, d)" by (cases u)
  with assms(1) have d: "0 < d" "n \<le> d" by (auto simp: utilization_ok_def)
  have "e * n \<le> e * d" using d(2) assms(2) by (rule mult_left_mono)
  then have "e * n * 1000000 + d < (e + 1) * (d * 1000000)" using d(1) by (simp add: algebra_simps)
  then have "(e * n * 1000000 + d) div (d * 1000000) < e + 1"
    using d(1) by (intro int_div_less) simp_all
  then show ?thesis by (simp add: trigger_budget_def u)
qed

lemma window_split:
  assumes "1 \<le> w"
  shows "build_effective_compaction_context_window_tokens w + build_compaction_output_headroom_tokens w = w"
    and "0 \<le> build_effective_compaction_context_window_tokens w"
  using assms
  by (auto simp: build_effective_compaction_context_window_tokens_def
      build_compaction_output_headroom_tokens_def session_compaction_output_reserve_tokens_def)

text \<open>
  Quiet triggers leave room: while the check inside a run does not ask for a compaction, the estimated
  request and the headroom for the answer fit the context window together; and so they do, with the
  reserve for the next prompt, when the check before a run finds the session within its budget.
\<close>

theorem quiet_triggers_leave_headroom:
  assumes "utilization_ok u" and "1 \<le> w"
  shows "(\<not> check_in_run_compaction_needed encode u (Some w) model_id messages usage pending_prompt \<longrightarrow>
      estimate_next_request_input_tokens encode model_id messages usage pending_prompt
        + build_compaction_output_headroom_tokens w < w)
    \<and> (build_auto_compact_session_budget_report env u (Some w) l r = Inr b \<and> cbr_reason b = Within_budget \<longrightarrow>
      cbr_estimated_pre_run_tokens b + build_compaction_output_headroom_tokens w < w)"
proof -
  let ?e = "build_effective_compaction_context_window_tokens w"
  have t: "trigger_budget u ?e \<le> ?e" using assms(1) window_split(2) [OF assms(2)] by (rule trigger_below)
  have "cbr_estimated_pre_run_tokens b < trigger_budget u ?e"
    if "build_auto_compact_session_budget_report env u (Some w) l r = Inr b" "cbr_reason b = Within_budget"
    using that
    by (auto simp: build_auto_compact_session_budget_report_def report_without_window_def
        report_with_window_def Let_def split: if_splits)
  with t window_split(1) [OF assms(2)] show ?thesis
    by (auto simp: check_in_run_compaction_needed_def)
qed

section \<open>Counts add up\<close>

lemma count_append [simp]:
  "count_message_tokens encode model_id (a @ b)
    = count_message_tokens encode model_id a + count_message_tokens encode model_id b"
  by (simp add: count_message_tokens_def)

text \<open>
  Continuing from the usage the provider reported differs from counting the whole history by exactly
  what the two say of the messages up to that response.
\<close>

lemma usage_replaces_prefix:
  "estimate_next_request_input_tokens encode model_id messages (Some u) prompt
    = estimate_next_request_input_tokens encode model_id messages None prompt
      + (lru_input_tokens u + lru_output_tokens u
         - count_message_tokens encode model_id (take (lru_messages_prefix_count u) messages)
         - static_provider_overhead_tokens)"
proof -
  have "count_message_tokens encode model_id messages
      = count_message_tokens encode model_id (take (lru_messages_prefix_count u) messages)
        + count_message_tokens encode model_id (drop (lru_messages_prefix_count u) messages)"
    by (metis append_take_drop_id count_append)
  then show ?thesis by (simp add: estimate_next_request_input_tokens_def Let_def split: option.split)
qed

section \<open>A concrete session\<close>

lemma sample_loaded:
  obtains l where "load_entries ''/w'' sample_log = Inr l" and "lo_runs l = [sample_run_record]"
    and "latest_compaction l = None"
proof -
  have "\<exists>l. load_entries ''/w'' sample_log = Inr l \<and> lo_runs l = [sample_run_record] \<and> lo_compactions l = []"
    by (simp add: sample_log_def sample_run_events_def sample_header_def sample_run_record_def
        load_entries_def load_step_def load_body_def load_start_def load_header_def load_run_def
        load_event_def load_messages_def load_finish_def validate_run_record_def validate_run_events_def
        batch_event_step_def batch_start_def validate_run_messages_def Let_def ensure_def)
  then show thesis using that by (auto simp: latest_compaction_def)
qed

theorem loaded_sessions_resume_witness:
  "\<exists>l runs. load_entries ''/w'' sample_log = Inr l \<and> runs_since_latest_compaction_boundary l = Inr runs
     \<and> build_resume_message_history l
       = Inr (strip_internal_prompt_state (kept_replacement l @ concat (map rr_messages runs)))"
  using sample_loads loaded_sessions_resume by blast

lemma sample_source:
  assumes "lo_runs l = [sample_run_record]" and "latest_compaction l = None"
  obtains s where "build_compaction_source l None = Inr s"
proof -
  have prev: "previous_summary_sections l = []" by (simp add: previous_summary_sections_def assms(2))
  have "int (length (candidate_source [] 0 [render_run sample_run_record])) \<le> 120000"
    using last_candidate_length [of l 0 "render_run sample_run_record"] render_run_length [of sample_run_record]
    by (simp add: prev summary_length_def sample_run_record_def sample_run_events_def decimal_digits.simps)
  then have "succeeds (build_compaction_source l None)"
    by (simp add: build_compaction_source_def build_bounded_compaction_source_def source_loop_shape prev
        runs_since_latest_compaction_boundary_def assms compaction_source_char_limit_def
        default_session_compaction_source_char_limit_def)
  then show thesis using that by (auto simp: succeeds_iff)
qed

definition sample_summarizer :: summarizer where
  "sample_summarizer source = Inr (lit ''done'')"

lemma sample_answer: "strip (lit ''done'') \<noteq> []"
  by (simp add: strip_nonblank lit_def py_isspace_def)

lemma sample_history:
  assumes "lo_runs l = [sample_run_record]" and "latest_compaction l = None"
  shows "build_resume_message_history l = Inr []" and "text_prompts []"
  by (simp_all add: build_resume_message_history_def assms message_history_def sample_run_record_def
      text_prompts_def)

theorem answered_compaction_succeeds_witness:
  "succeeds (snd (summarize_and_append_compaction_to_session sample_summarizer None ''/w'' 7 ''c1'' sample_files))"
proof -
  obtain l where l: "load_entries ''/w'' sample_log = Inr l" and r: "lo_runs l = [sample_run_record]"
    and c: "latest_compaction l = None" by (rule sample_loaded)
  obtain s where s: "build_compaction_source l None = Inr s" using r c by (rule sample_source)
  show ?thesis
    by (rule answered_compaction_succeeds [OF _ l _ _ s _ sample_answer sample_history(1) [OF r c]])
      (simp_all add: sample_files_def r sample_summarizer_def sample_history(2) [OF r c])
qed

theorem compaction_settles_witness:
  "\<exists>f' e log' l'. summarize_and_append_compaction_to_session sample_summarizer None ''/w'' 7 ''c1'' sample_files
       = (f', Inr e) \<and> sfl_log f' = Some log' \<and> load_entries ''/w'' log' = Inr l'
     \<and> build_resume_message_history l' = Inr (strip_internal_prompt_state (sc_replacement_messages e))"
proof -
  obtain l where l: "load_entries ''/w'' sample_log = Inr l" and r: "lo_runs l = [sample_run_record]"
    and c: "latest_compaction l = None" by (rule sample_loaded)
  obtain s where s: "build_compaction_source l None = Inr s" using r c by (rule sample_source)
  have f: "sfl_log sample_files = Some sample_log" by (simp add: sample_files_def)
  have "succeeds (snd (summarize_and_append_compaction_to_session sample_summarizer None ''/w'' 7 ''c1'' sample_files))"
    by (rule answered_compaction [OF f l _ _ s _ sample_answer sample_history(1) [OF r c]])
      (simp_all add: sample_files_def r sample_summarizer_def sample_history(2) [OF r c])
  then obtain f' e where a: "summarize_and_append_compaction_to_session sample_summarizer None ''/w'' 7 ''c1''
      sample_files = (f', Inr e)"
    by (cases "summarize_and_append_compaction_to_session sample_summarizer None ''/w'' 7 ''c1'' sample_files")
      (auto simp: succeeds_iff)
  from compaction_settles [OF a f] a show ?thesis by blast
qed

theorem quiet_triggers_leave_headroom_witness:
  "estimate_next_request_input_tokens (\<lambda>_ _. 1) ''m'' [Model_response [Text_part [65]]] None (Some [65])
     + build_compaction_output_headroom_tokens 200000 < 200000"
proof -
  let ?n = "check_in_run_compaction_needed (\<lambda>_ _. 1) (7, 10) (Some 200000) ''m''
      [Model_response [Text_part [65]]] None (Some [65])"
  have claude: "\<not> is_claude_model ''m''" by code_simp
  have "\<not> ?n"
    by (simp add: check_in_run_compaction_needed_def trigger_budget_def estimate_next_request_input_tokens_def
        build_effective_compaction_context_window_tokens_def build_compaction_output_headroom_tokens_def
        session_compaction_output_reserve_tokens_def count_message_tokens_def count_text_tokens_def
        apply_provider_bias_def claude per_message_framing_tokens_def static_provider_overhead_tokens_def
        pending_prompt_framing_tokens_def)
  moreover have "utilization_ok (7, 10)" by (simp add: utilization_ok_def)
  ultimately show ?thesis
    using quiet_triggers_leave_headroom [of "(7, 10)" 200000 "\<lambda>_ _. 1" "''m''"
        "[Model_response [Text_part [65]]]" None "Some [65]"] by simp
qed

end
