(* ===== verification/Transcript_Summary.thy ===== *)
theory Transcript_Summary
  imports Activity
begin

text \<open>
  \<open>runtime/transcript_summary.py\<close>: the tool calls of a run, folded into groups, with their counts
  and durations, and the decision whether the client draws a separator after the run.
\<close>

section \<open>One finished tool call\<close>

definition no_counts :: activity_group_counts where
  "no_counts =
     \<lparr>agc_read = 0, agc_search = 0, agc_list = 0, agc_shell = 0, agc_write = 0, agc_edit = 0, agc_tool = 0\<rparr>"

definition add_counts ::
    "activity_group_counts \<Rightarrow> activity_group_counts \<Rightarrow> activity_group_counts" where
  "add_counts a b =
     \<lparr>agc_read = agc_read a + agc_read b, agc_search = agc_search a + agc_search b,
      agc_list = agc_list a + agc_list b, agc_shell = agc_shell a + agc_shell b,
      agc_write = agc_write a + agc_write b, agc_edit = agc_edit a + agc_edit b,
      agc_tool = agc_tool a + agc_tool b\<rparr>"

text \<open>\<open>a or b\<close> of an optional text and a text.\<close>

definition text_or :: "ustr option \<Rightarrow> ustr \<Rightarrow> ustr" where
  "text_or a b = (case a of None \<Rightarrow> b | Some s \<Rightarrow> if s = [] then b else s)"

fun named_group_kind :: "string option \<Rightarrow> group_kind option" where
  "named_group_kind (Some k) =
     map_of [(''execution'', Group_execution), (''editing'', Group_editing),
             (''compaction'', Group_compaction), (''other'', Group_other)] k"
| "named_group_kind None = None"

definition group_identity :: "tool_activity \<Rightarrow> string \<Rightarrow> group_kind \<times> ustr" where
  "group_identity a tool_name =
     (case ta_details a of
        Some (Plain_activity (Shell_activity _)) \<Rightarrow> (Group_execution, text_or (ta_display_label a) (lit ''Shell''))
      | Some (Plain_activity (Write_activity _)) \<Rightarrow> (Group_editing, lit ''Edited files'')
      | Some (Plain_activity (Edit_activity _)) \<Rightarrow> (Group_editing, lit ''Edited files'')
      | _ \<Rightarrow>
          if ta_group_kind a = Some ''exploration'' then (Group_exploration, lit ''Read/Searched'')
          else (case named_group_kind (ta_group_kind a) of
                  Some k \<Rightarrow> (k, text_or (ta_display_label a) (ta_title a))
                | None \<Rightarrow> (Group_other, text_or (ta_display_label a) (lit tool_name))))"

datatype tool_detail =
  Kind_shell | Kind_read | Kind_grep | Kind_ls | Kind_find | Kind_write | Kind_edit | Kind_none

fun detail_kind :: "tool_activity_details option \<Rightarrow> tool_detail" where
  "detail_kind (Some (Plain_activity (Shell_activity _))) = Kind_shell"
| "detail_kind (Some (Plain_activity (Read_activity _))) = Kind_read"
| "detail_kind (Some (Plain_activity (Grep_activity _))) = Kind_grep"
| "detail_kind (Some (Plain_activity (Ls_activity _))) = Kind_ls"
| "detail_kind (Some (Plain_activity (Find_activity _))) = Kind_find"
| "detail_kind (Some (Plain_activity (Write_activity _))) = Kind_write"
| "detail_kind (Some (Plain_activity (Edit_activity _))) = Kind_edit"
| "detail_kind _ = Kind_none"

definition group_counts :: "tool_activity \<Rightarrow> string \<Rightarrow> activity_group_counts" where
  "group_counts a tool_name =
     (let k = detail_kind (ta_details a); one = no_counts\<lparr>agc_tool := 1\<rparr> in
      if k = Kind_shell \<or> tool_name = ''shell'' then one\<lparr>agc_shell := 1\<rparr>
      else if k = Kind_read \<or> tool_name = ''read'' then one\<lparr>agc_read := 1\<rparr>
      else if k = Kind_grep \<or> tool_name = ''grep'' then one\<lparr>agc_search := 1\<rparr>
      else if k = Kind_ls \<or> tool_name = ''ls'' then one\<lparr>agc_list := 1\<rparr>
      else if k = Kind_find \<or> tool_name = ''find'' then one\<lparr>agc_search := 1\<rparr>
      else if k = Kind_write \<or> tool_name = ''write'' then one\<lparr>agc_write := 1\<rparr>
      else if k = Kind_edit \<or> tool_name = ''edit'' then one\<lparr>agc_edit := 1\<rparr>
      else one)"

definition display_hint :: "tool_activity \<Rightarrow> ustr option" where
  "display_hint a =
     (case ta_details a of
        Some (Plain_activity (Shell_activity d)) \<Rightarrow> Some (sad_command_preview d)
      | Some (Plain_activity (Read_activity d)) \<Rightarrow> Some (text_or (rad_short_path d) (rad_path d))
      | Some (Plain_activity (Grep_activity d)) \<Rightarrow> Some (gad_pattern d)
      | Some (Plain_activity (Ls_activity d)) \<Rightarrow>
          Some (text_or (lad_short_path d) (text_or (lad_path d) (lit ''.'')))
      | Some (Plain_activity (Find_activity d)) \<Rightarrow> Some (fad_pattern d)
      | Some (Plain_activity (Write_activity d)) \<Rightarrow> Some (wad_path d)
      | Some (Plain_activity (Edit_activity d)) \<Rightarrow> Some (ead_path d)
      | _ \<Rightarrow> Some (text_or (ta_summary a) (ta_title a)))"

definition result_outcome :: "json \<Rightarrow> group_outcome" where
  "result_outcome r =
     (if is_dict r \<and> dict_get r ''outcome'' = JStr (lit ''denied'') then Outcome_denied
      else if is_dict r \<and> dict_get r ''ok'' = JBool False then Outcome_operational_miss
      else Outcome_success)"

section \<open>Groups\<close>

record group_accumulator =
  ga_group_kind :: group_kind
  ga_group_label :: ustr
  ga_group_counts :: activity_group_counts
  ga_display_hint :: "ustr option"
  ga_outcome :: group_outcome
  ga_elapsed_ms :: int

definition can_absorb :: "group_accumulator \<Rightarrow> group_accumulator \<Rightarrow> bool" where
  "can_absorb g h \<longleftrightarrow> ga_group_kind g = ga_group_kind h \<and> ga_group_label g = ga_group_label h
     \<and> ga_outcome g = ga_outcome h"

definition add_to_group :: "group_accumulator \<Rightarrow> group_accumulator \<Rightarrow> group_accumulator" where
  "add_to_group g h =
     g\<lparr>ga_group_counts := add_counts (ga_group_counts g) (ga_group_counts h),
       ga_display_hint := (if ga_display_hint h = None \<or> ga_display_hint h = Some [] then ga_display_hint g
                           else ga_display_hint h),
       ga_elapsed_ms := ga_elapsed_ms g + ga_elapsed_ms h\<rparr>"

definition finish_group :: "group_accumulator \<Rightarrow> activity_group_summary" where
  "finish_group g =
     \<lparr>ags_group_kind = ga_group_kind g, ags_group_label = ga_group_label g,
      ags_group_counts = ga_group_counts g, ags_display_hint = ga_display_hint g,
      ags_outcome = ga_outcome g,
      ags_elapsed_ms = (if ga_elapsed_ms g = 0 then None else Some (ga_elapsed_ms g))\<rparr>"

text \<open>The group a finished call would open.\<close>

definition single_group :: "string \<Rightarrow> group_outcome \<Rightarrow> tool_activity \<Rightarrow> group_accumulator" where
  "single_group tool_name outcome a =
     \<lparr>ga_group_kind = fst (group_identity a tool_name), ga_group_label = snd (group_identity a tool_name),
      ga_group_counts = group_counts a tool_name, ga_display_hint = display_hint a, ga_outcome = outcome,
      ga_elapsed_ms = (case ta_duration_ms a of None \<Rightarrow> 0 | Some n \<Rightarrow> n)\<rparr>"

text \<open>
  What an event does to the groups: it ends the current one, it is a finished call with an activity,
  or it is passed over.
\<close>

datatype group_step = Break_group | Grouped_call group_accumulator | Passed_over

fun group_event :: "run_event \<Rightarrow> group_step" where
  "group_event (Assistant_text_delta e) = (if strip (ev_delta e) \<noteq> [] then Break_group else Passed_over)"
| "group_event (Tool_call_succeeded e) =
     (case ev_activity e of
        None \<Rightarrow> Break_group
      | Some a \<Rightarrow> Grouped_call (single_group (ev_tool_name e) (result_outcome (ev_result e)) a))"
| "group_event (Tool_call_failed e) =
     (case ev_activity e of
        None \<Rightarrow> Break_group
      | Some a \<Rightarrow> Grouped_call (single_group (ev_tool_name e) Outcome_error a))"
| "group_event _ = Passed_over"

definition flush_group ::
    "group_accumulator option \<Rightarrow> activity_group_summary list \<Rightarrow> activity_group_summary list" where
  "flush_group current groups = (case current of None \<Rightarrow> groups | Some g \<Rightarrow> groups @ [finish_group g])"

fun group_loop ::
    "group_accumulator option \<Rightarrow> activity_group_summary list \<Rightarrow> run_event list \<Rightarrow> activity_group_summary list" where
  "group_loop current groups [] = flush_group current groups"
| "group_loop current groups (e # es) =
     (case group_event e of
        Passed_over \<Rightarrow> group_loop current groups es
      | Break_group \<Rightarrow> group_loop None (flush_group current groups) es
      | Grouped_call h \<Rightarrow>
          (case current of
             None \<Rightarrow> group_loop (Some h) groups es
           | Some g \<Rightarrow>
               if can_absorb g h then group_loop (Some (add_to_group g h)) groups es
               else group_loop (Some h) (flush_group current groups) es))"

definition build_activity_groups :: "run_event list \<Rightarrow> activity_group_summary list" where
  "build_activity_groups events = group_loop None [] events"

section \<open>The summary\<close>

text \<open>Comparing two floats, exactly.\<close>

definition float_le :: "pyfloat \<Rightarrow> pyfloat \<Rightarrow> bool" where
  "float_le x y \<longleftrightarrow>
     (let k = min (exponent x) (exponent y) in
      mantissa x * 2 ^ nat (exponent x - k) \<le> mantissa y * 2 ^ nat (exponent y - k))"

definition separator_min_elapsed_ms :: int where
  "separator_min_elapsed_ms = 60000"

definition separator_min_total_tokens :: int where
  "separator_min_total_tokens = 100000"

text \<open>The double that the literal 0.40 denotes.\<close>

definition separator_min_context_used :: pyfloat where
  "separator_min_context_used = Pyfloat 3602879701896397 (-53)"

definition should_show_separator :: "run_transcript_summary \<Rightarrow> bool" where
  "should_show_separator s \<longleftrightarrow>
     rts_had_work_activity s
     \<and> (separator_min_elapsed_ms \<le> rts_elapsed_ms s
        \<or> (case rts_total_tokens s of None \<Rightarrow> False | Some n \<Rightarrow> separator_min_total_tokens \<le> n)
        \<or> list_ex (\<lambda>v. case v of None \<Rightarrow> False | Some x \<Rightarrow> float_le separator_min_context_used x)
            [rts_context_window_used s, rts_next_request_context_window_used s])"

definition group_elapsed :: "activity_group_summary \<Rightarrow> int" where
  "group_elapsed g = (case ags_elapsed_ms g of None \<Rightarrow> 0 | Some n \<Rightarrow> n)"

definition build_run_transcript_summary ::
    "run_event list \<Rightarrow> run_succeeded_event \<Rightarrow> int \<Rightarrow> run_transcript_summary" where
  "build_run_transcript_summary events terminal elapsed_ms =
     (let groups = build_activity_groups events;
          calls = sum_list (map (\<lambda>g. agc_tool (ags_group_counts g)) groups);
          summary = \<lparr>rts_elapsed_ms = elapsed_ms, rts_tool_call_count = calls,
            rts_tool_duration_ms = sum_list (map group_elapsed groups),
            rts_input_tokens = ev_input_tokens terminal, rts_output_tokens = ev_output_tokens terminal,
            rts_total_tokens = ev_total_tokens terminal,
            rts_context_window_used = ev_context_window_used terminal,
            rts_next_request_context_window_used = ev_next_request_context_window_used terminal,
            rts_had_work_activity = (0 < calls), rts_should_show_separator = False,
            rts_activity_groups = groups\<rparr>
      in summary\<lparr>rts_should_show_separator := should_show_separator summary\<rparr>)"

definition sync_run_transcript_summary_metrics :: "run_succeeded_event \<Rightarrow> run_succeeded_event" where
  "sync_run_transcript_summary_metrics e =
     (case ev_transcript_summary e of
        None \<Rightarrow> e
      | Some s \<Rightarrow>
          (let s = s\<lparr>rts_input_tokens := ev_input_tokens e, rts_output_tokens := ev_output_tokens e,
                     rts_total_tokens := ev_total_tokens e,
                     rts_context_window_used := ev_context_window_used e,
                     rts_next_request_context_window_used := ev_next_request_context_window_used e\<rparr>
           in e\<lparr>ev_transcript_summary := Some (s\<lparr>rts_should_show_separator := should_show_separator s\<rparr>)\<rparr>))"

section \<open>Nothing is lost in the groups\<close>

text \<open>The calls of a run that the groups are made of, and the groups of a list of calls and breaks.\<close>

fun grouped_calls :: "run_event list \<Rightarrow> group_accumulator list" where
  "grouped_calls [] = []"
| "grouped_calls (e # es) =
     (case group_event e of Grouped_call h \<Rightarrow> h # grouped_calls es | _ \<Rightarrow> grouped_calls es)"

lemma finished_fields [simp]:
  "ags_group_counts (finish_group g) = ga_group_counts g"
  "group_elapsed (finish_group g) = ga_elapsed_ms g"
  by (simp_all add: finish_group_def group_elapsed_def)

text \<open>
  A quantity of the groups that adds up when a call is absorbed is the sum over the calls.
\<close>

lemma quantity_conserved:
  assumes "\<forall>g h. q (finish_group (add_to_group g h)) = q (finish_group g) + q (finish_group h)"
  shows "sum_list (map q (group_loop current groups es)) =
    sum_list (map q (flush_group current groups)) + (\<Sum>h\<leftarrow>grouped_calls es. q (finish_group h) :: int)"
proof (induction current groups es rule: group_loop.induct)
  case (1 current groups)
  show ?case by simp
next
  case (2 current groups e es)
  then show ?case
    using assms by (auto simp: flush_group_def split: group_step.split option.split)
qed

lemma added_fields:
  "agc_read (ga_group_counts (add_to_group g h)) = agc_read (ga_group_counts g) + agc_read (ga_group_counts h)"
  "agc_search (ga_group_counts (add_to_group g h)) = agc_search (ga_group_counts g) + agc_search (ga_group_counts h)"
  "agc_list (ga_group_counts (add_to_group g h)) = agc_list (ga_group_counts g) + agc_list (ga_group_counts h)"
  "agc_shell (ga_group_counts (add_to_group g h)) = agc_shell (ga_group_counts g) + agc_shell (ga_group_counts h)"
  "agc_write (ga_group_counts (add_to_group g h)) = agc_write (ga_group_counts g) + agc_write (ga_group_counts h)"
  "agc_edit (ga_group_counts (add_to_group g h)) = agc_edit (ga_group_counts g) + agc_edit (ga_group_counts h)"
  "agc_tool (ga_group_counts (add_to_group g h)) = agc_tool (ga_group_counts g) + agc_tool (ga_group_counts h)"
  "ga_elapsed_ms (add_to_group g h) = ga_elapsed_ms g + ga_elapsed_ms h"
  by (simp_all add: add_to_group_def add_counts_def)

lemma grouped_is_single: "group_event e = Grouped_call h \<Longrightarrow> \<exists>n r a. h = single_group n r a"
  by (cases e) (auto split: if_splits option.splits)

lemma grouped_calls_single: "h \<in> set (grouped_calls es) \<Longrightarrow> \<exists>n r a. h = single_group n r a"
  by (induction es) (auto split: group_step.splits dest: grouped_is_single)

lemma one_call_each: "agc_tool (group_counts a n) = 1"
  by (simp add: group_counts_def no_counts_def Let_def)

lemma grouped_calls_count: "h \<in> set (grouped_calls es) \<Longrightarrow> agc_tool (ga_group_counts h) = 1"
  by (auto dest!: grouped_calls_single simp: single_group_def one_call_each)

lemma grouped_total: "(\<Sum>h\<leftarrow>grouped_calls es. agc_tool (ga_group_counts h)) = int (length (grouped_calls es))"
proof -
  have "(\<Sum>h\<leftarrow>grouped_calls es. agc_tool (ga_group_counts h)) = (\<Sum>h\<leftarrow>grouped_calls es. 1)"
    by (intro arg_cong [where f = sum_list] map_cong [OF refl]) (rule grouped_calls_count)
  also have "\<dots> = int (length (grouped_calls es))" by (simp add: sum_list_triv)
  finally show ?thesis .
qed

lemma groups_conserve:
  assumes "\<forall>g h. q (finish_group (add_to_group g h)) = q (finish_group g) + q (finish_group h)"
  shows "(\<Sum>g\<leftarrow>build_activity_groups events. q g) = (\<Sum>h\<leftarrow>grouped_calls events. q (finish_group h) :: int)"
  using quantity_conserved [OF assms, where current = None and groups = "[]" and es = events]
  by (simp add: build_activity_groups_def flush_group_def)

text \<open>
  The summary accounts for every finished tool call that carries an activity, once: the calls it
  counts, the commands, reads, searches, listings, writes and edits of its groups, and their
  durations are the sums over the events of the run.
\<close>

theorem summary_counts_every_call:
  "rts_tool_call_count (build_run_transcript_summary events terminal elapsed) = int (length (grouped_calls events))
   \<and> rts_tool_duration_ms (build_run_transcript_summary events terminal elapsed)
     = (\<Sum>h\<leftarrow>grouped_calls events. ga_elapsed_ms h)
   \<and> list_all (\<lambda>q. (\<Sum>g\<leftarrow>build_activity_groups events. q (ags_group_counts g))
        = (\<Sum>h\<leftarrow>grouped_calls events. q (ga_group_counts h)))
       [agc_read, agc_search, agc_list, agc_shell, agc_write, agc_edit]"
proof -
  note sum = groups_conserve [where events = events]
  have "(\<Sum>g\<leftarrow>build_activity_groups events. agc_tool (ags_group_counts g)) = int (length (grouped_calls events))"
    using sum [where q = "\<lambda>g. agc_tool (ags_group_counts g)"] by (simp add: added_fields grouped_total)
  moreover have "(\<Sum>g\<leftarrow>build_activity_groups events. group_elapsed g) = (\<Sum>h\<leftarrow>grouped_calls events. ga_elapsed_ms h)"
    using sum [where q = group_elapsed] by (simp add: added_fields)
  moreover have "(\<Sum>g\<leftarrow>build_activity_groups events. q (ags_group_counts g))
      = (\<Sum>h\<leftarrow>grouped_calls events. q (ga_group_counts h))"
    if "\<forall>g h. q (ga_group_counts (add_to_group g h)) = q (ga_group_counts g) + q (ga_group_counts h)"
    for q :: "activity_group_counts \<Rightarrow> int"
    using sum [where q = "\<lambda>g. q (ags_group_counts g)"] that by simp
  ultimately show ?thesis by (simp add: build_run_transcript_summary_def Let_def added_fields)
qed

section \<open>Groups are maximal\<close>

definition same_group :: "activity_group_summary \<Rightarrow> activity_group_summary \<Rightarrow> bool" where
  "same_group a b \<longleftrightarrow> ags_group_kind a = ags_group_kind b \<and> ags_group_label a = ags_group_label b
     \<and> ags_outcome a = ags_outcome b"

lemma same_finished [simp]:
  "same_group (finish_group g) (finish_group h) \<longleftrightarrow> can_absorb g h"
  "same_group a (finish_group (add_to_group g h)) \<longleftrightarrow> same_group a (finish_group g)"
  by (auto simp: same_group_def finish_group_def can_absorb_def add_to_group_def)

lemma groups_maximal:
  assumes "\<forall>e \<in> set es. group_event e \<noteq> Break_group"
    and "successively (\<lambda>a b. \<not> same_group a b) (flush_group current groups)" and "current = None \<longrightarrow> groups = []"
  shows "successively (\<lambda>a b. \<not> same_group a b) (group_loop current groups es)"
  using assms
proof (induction current groups es rule: group_loop.induct)
  case (1 current groups)
  then show ?case by simp
next
  case (2 current groups e es)
  show ?case
  proof (cases "group_event e")
    case Passed_over
    with 2 show ?thesis by simp
  next
    case Break_group
    with 2 show ?thesis by simp
  next
    case (Grouped_call h)
    with 2 show ?thesis
      by (cases current) (auto simp: flush_group_def successively_append_iff)
  qed
qed

text \<open>
  Calls are grouped as far as possible: when no text of the assistant and no call without an activity
  comes between them, two neighbouring groups differ in their kind, their label or their outcome.
\<close>

theorem neighbouring_groups_differ:
  assumes "\<forall>e \<in> set events. group_event e \<noteq> Break_group"
  shows "successively (\<lambda>a b. \<not> same_group a b) (build_activity_groups events)"
  unfolding build_activity_groups_def by (rule groups_maximal [OF assms]) (simp_all add: flush_group_def)

definition sample_finished_call :: "string \<Rightarrow> json \<Rightarrow> run_event" where
  "sample_finished_call tool_name r = Tool_call_succeeded
     \<lparr>ev_run_id = ''r'', ev_tool_call_id = ''c'', ev_tool_name = tool_name,
      ev_activity = Some (build_started_tool_activity tool_name JNull None), ev_result = r\<rparr>"

theorem neighbouring_groups_differ_witness:
  "successively (\<lambda>a b. \<not> same_group a b)
     (build_activity_groups [sample_finished_call ''read'' JNull, sample_finished_call ''ls'' JNull])"
  by (rule neighbouring_groups_differ) (simp add: sample_finished_call_def)

end
