(* ===== verification/Run_Loop.thy ===== *)
theory Run_Loop
  imports Tool_Tracking Error_Chain Failed_Runs Compaction Transcript_Summary Approval
begin

text \<open>
  The loop around the agent in \<open>runtime/run.py\<close>: one run is a sequence of attempts of the agent graph of
  \<open>pydantic_ai\<close>, restarted after a correction, a denied or failed tool, a compaction of the live history or a
  transient failure. The graph is a parameter: an attempt is the list of what it does, each step with the
  messages captured so far and the time, how it ends, and whether leaving it early raises.
\<close>

section \<open>Attempts\<close>

text \<open>An expected failure of a tool; a denial carries what the model is told.\<close>

record tool_denial =
  td_denial_type :: ustr
  td_approval_kind :: "request_kind option"
  td_subject :: "ustr option"
  td_retry_same_request_allowed :: bool

datatype operational = Tool_failure | Tool_denied tool_denial

record raised_error =
  er_type :: ustr
  er_message :: ustr
  er_operational :: "operational option"
  er_graph :: exception_graph
  er_node :: nat

datatype model_stream_event = Part_start_text ustr | Part_delta_text ustr | Stream_other

record token_usage =
  tu_input :: int
  tu_output :: int
  tu_total :: int

datatype graph_step =
    Model_requested
  | Streamed model_stream_event
  | Response_captured "token_usage option"
  | Response_missing
  | Tools_entered bool
  | Tool_called function_call
  | Tool_returned function_result
  | Tool_stream_other
  | Update_queued queued_tool_update
  | Approval_queued approval_request "string option" "string option"
  | Question_queued onboarding_question
  | Tools_left

datatype graph_output = Output_text ustr | Output_other | Output_missing

datatype attempt_end =
    Graph_finished graph_output "model_message list" token_usage
  | Graph_failed raised_error
  | Graph_cancelled ustr ustr

record attempt =
  at_steps :: "(model_message list \<times> int \<times> graph_step) list"
  at_captured :: "model_message list"
  at_now :: int
  at_end :: attempt_end
  at_closing :: "raised_error option"

section \<open>The state of a run\<close>

datatype loop_failure =
    Tracking_failed tracking_error
  | Approval_without_resolver
  | Approval_rejected contract_error
  | Question_without_resolver
  | Client_failed raised_error
  | Agent_failed raised_error
  | Run_without_result
  | Run_without_text
  | Raised_after_outcome

record loop_deps =
  ld_workspace_root :: string
  ld_shell_family :: shell_family
  ld_run_frame :: "(ustr option \<times> ustr option \<times> thinking_setting option) option"

record run_loop_frame =
  lf_run_id :: string
  lf_deps :: "loop_deps option"
  lf_thinking :: "thinking_setting option"
  lf_available :: "string list"
  lf_model :: string
  lf_window :: "int option"
  lf_utilization :: "int \<times> int"
  lf_encode :: tokenizer
  lf_environment :: prompt_environment
  lf_loads :: json_loads
  lf_dumps :: "json \<Rightarrow> ustr"
  lf_validate :: details_check
  lf_installed :: "string \<Rightarrow> bool"
  lf_describe :: "loop_failure \<Rightarrow> ustr \<times> ustr"
  lf_round :: "int \<Rightarrow> int \<Rightarrow> pyfloat"
  lf_steer :: bool
  lf_sink :: bool
  lf_resolve_approval :: "(approval_request \<Rightarrow> (raised_error, approval_decision) result) option"
  lf_resolve_question :: "(onboarding_question \<Rightarrow> (raised_error, unit) result) option"

text \<open>\<open>lf_round a b\<close> is \<open>round(a / b, 3)\<close>; \<open>lf_describe\<close> names the type and the text of an exception of the loop.\<close>

datatype run_output =
    Yielded run_event
  | Sunk "model_message list"
  | Steer_activated
  | Steer_submitted
  | Steer_deactivated

record run_loop_state =
  rl_calls :: call_tracking
  rl_prompt :: ustr
  rl_history :: "model_message list"
  rl_carried :: "model_message list"
  rl_synthetic :: prompt_counts
  rl_recoveries :: nat
  rl_corrections :: nat
  rl_compact_failures :: nat
  rl_usage :: "last_response_usage option"
  rl_denied :: "(request_kind \<times> string \<times> string) list"
  rl_saw :: bool
  rl_requests :: nat
  rl_steer_active :: bool
  rl_steer_submitted :: bool
  rl_output :: "run_output list"

definition start_run_loop :: "string \<Rightarrow> ustr \<Rightarrow> model_message list \<Rightarrow> run_loop_state" where
  "start_run_loop run_id prompt history =
     \<lparr>rl_calls = no_calls, rl_prompt = prompt, rl_history = history, rl_carried = [], rl_synthetic = [],
      rl_recoveries = 0, rl_corrections = 0, rl_compact_failures = 0, rl_usage = None, rl_denied = [],
      rl_saw = False, rl_requests = 0, rl_steer_active = False, rl_steer_submitted = False,
      rl_output = [Yielded (Run_started \<lparr>ev_run_id = run_id\<rparr>)]\<rparr>"

definition begin_attempt :: "run_loop_state \<Rightarrow> run_loop_state" where
  "begin_attempt s =
     s\<lparr>rl_saw := False, rl_requests := 0, rl_steer_active := False, rl_steer_submitted := False\<rparr>"

definition put_out :: "run_output list \<Rightarrow> run_loop_state \<Rightarrow> run_loop_state" where
  "put_out os s = s\<lparr>rl_output := rl_output s @ os\<rparr>"

definition emit :: "run_event list \<Rightarrow> run_loop_state \<Rightarrow> run_loop_state" where
  "emit es = put_out (map Yielded es)"

definition sink :: "run_loop_frame \<Rightarrow> model_message list \<Rightarrow> run_loop_state \<Rightarrow> run_loop_state" where
  "sink fr messages s = (if lf_sink fr then put_out [Sunk messages] s else s)"

section \<open>Steps of the graph\<close>

text \<open>Why an attempt is left: for a compaction, for a correction, by an exception, or by a \<open>return\<close>.\<close>

datatype loop_stop = Stop_compact | Stop_correct ustr | Stop_error loop_failure | Stop_return

definition max_in_run_compact_failures :: nat where
  "max_in_run_compact_failures = 3"

definition live_messages :: "run_loop_state \<Rightarrow> model_message list \<Rightarrow> model_message list" where
  "live_messages s captured = rl_history s @ drop (length (rl_history s)) captured"

definition request_model :: "run_loop_frame \<Rightarrow> model_message list \<Rightarrow> run_loop_state \<Rightarrow> run_loop_state \<times> loop_stop option" where
  "request_model fr captured s =
     (let s = s\<lparr>rl_requests := rl_requests s + 1\<rparr>; live = live_messages s captured in
      if rl_compact_failures s < max_in_run_compact_failures \<and> live \<noteq> []
         \<and> check_in_run_compaction_needed (lf_encode fr) (lf_utilization fr) (lf_window fr) (lf_model fr) live
             (rl_usage s) (if rl_requests s = 1 then Some (rl_prompt s) else None)
      then (s, Some Stop_compact) else (s, None))"

fun extract_text_delta :: "model_stream_event \<Rightarrow> ustr option" where
  "extract_text_delta (Part_start_text s) = (if s = [] then None else Some s)"
| "extract_text_delta (Part_delta_text s) = (if s = [] then None else Some s)"
| "extract_text_delta Stream_other = None"

definition stream_text :: "run_loop_frame \<Rightarrow> model_stream_event \<Rightarrow> run_loop_state \<Rightarrow> run_loop_state" where
  "stream_text fr e s =
     (let s = s\<lparr>rl_saw := True\<rparr> in
      case extract_text_delta e of
        None \<Rightarrow> s
      | Some d \<Rightarrow> emit [Assistant_text_delta \<lparr>ev_run_id = lf_run_id fr, ev_delta = d\<rparr>] s)"

definition note_usage :: "model_message list \<Rightarrow> token_usage option \<Rightarrow> run_loop_state \<Rightarrow> run_loop_state" where
  "note_usage captured usage s =
     (case usage of
        None \<Rightarrow> s
      | Some u \<Rightarrow>
          if tu_input u = 0 then s
          else s\<lparr>rl_usage := Some \<lparr>lru_input_tokens = tu_input u, lru_output_tokens = tu_output u,
                  lru_messages_prefix_count = length (rl_history s) + length captured\<rparr>\<rparr>)"

definition enter_tools :: "run_loop_frame \<Rightarrow> bool \<Rightarrow> run_loop_state \<Rightarrow> run_loop_state" where
  "enter_tools fr has_tool_calls s =
     (let active = lf_steer fr \<and> has_tool_calls;
          s = s\<lparr>rl_steer_active := active, rl_steer_submitted := False\<rparr>
      in if active then put_out [Steer_activated] s else s)"

definition submit_if_ready :: "run_loop_state \<Rightarrow> run_loop_state" where
  "submit_if_ready s =
     (if rl_steer_active s \<and> \<not> rl_steer_submitted s \<and> ct_pending (rl_calls s) = []
      then (put_out [Steer_submitted] s)\<lparr>rl_steer_submitted := True\<rparr> else s)"

definition leave_tools :: "run_loop_state \<Rightarrow> run_loop_state" where
  "leave_tools s =
     (if rl_steer_active s then (put_out [Steer_deactivated] s)\<lparr>rl_steer_active := False\<rparr> else s)"

definition tool_called ::
    "run_loop_frame \<Rightarrow> int \<Rightarrow> function_call \<Rightarrow> run_loop_state \<Rightarrow> run_loop_state \<times> loop_stop option" where
  "tool_called fr now call s =
     (let (t, r) = process_tool_call_event (lf_loads fr) (lf_validate fr) now (lf_run_id fr) (lf_available fr)
                     (rl_corrections s) call (rl_calls s);
          s = s\<lparr>rl_saw := True, rl_calls := t\<rparr>
      in case r of
           Inl e \<Rightarrow> (s, Some (Stop_error (Tracking_failed e)))
         | Inr Call_duplicate \<Rightarrow> (s, None)
         | Inr (Call_open es) \<Rightarrow> (emit es s, None)
         | Inr (Call_exhausted es) \<Rightarrow> (emit es s, Some Stop_return)
         | Inr (Call_corrected message es) \<Rightarrow> (emit es s, Some (Stop_correct message)))"

definition tool_returned ::
    "run_loop_frame \<Rightarrow> int \<Rightarrow> function_result \<Rightarrow> run_loop_state \<Rightarrow> run_loop_state \<times> loop_stop option" where
  "tool_returned fr now r s =
     (let (t, r) = process_tool_result_event (lf_validate fr) now (lf_run_id fr) r (rl_calls s);
          s = s\<lparr>rl_saw := True, rl_calls := t\<rparr>
      in case r of
           Inl e \<Rightarrow> (s, Some (Stop_error (Tracking_failed e)))
         | Inr (Result_events es) \<Rightarrow> (submit_if_ready (emit es s), None)
         | Inr (Result_corrected message es) \<Rightarrow> (submit_if_ready (emit es s), Some (Stop_correct message)))"

definition tool_updated ::
    "run_loop_frame \<Rightarrow> int \<Rightarrow> queued_tool_update \<Rightarrow> run_loop_state \<Rightarrow> run_loop_state \<times> loop_stop option" where
  "tool_updated fr now u s =
     (case resolve_tool_update u (rl_calls s) of
        Inl e \<Rightarrow> (s, Some (Stop_error (Tracking_failed e)))
      | Inr (t, None) \<Rightarrow> (s\<lparr>rl_calls := t\<rparr>, None)
      | Inr (t, Some p) \<Rightarrow>
          (case build_tool_updated_event (lf_validate fr) now (lf_run_id fr) u p of
             Inl e \<Rightarrow> (s\<lparr>rl_calls := t\<rparr>, Some (Stop_error (Tracking_failed e)))
           | Inr e \<Rightarrow> (emit [e] (s\<lparr>rl_calls := t\<rparr>), None)))"

text \<open>A request the client denied before in this run is denied again without asking.\<close>

definition ask_approval ::
    "run_loop_frame \<Rightarrow> approval_request \<Rightarrow> string option \<Rightarrow> string option \<Rightarrow> run_loop_state
     \<Rightarrow> run_loop_state \<times> loop_stop option" where
  "ask_approval fr request call_id tool_name s =
     (let fingerprint = approval_request_fingerprint request in
      if fingerprint \<in> set (rl_denied s) then (s, None)
      else
        (let s = emit [Approval_requested \<lparr>ev_run_id = lf_run_id fr, ev_request = request,
                         ev_request_tool_name = tool_name, ev_request_tool_call_id = call_id\<rparr>] s in
         case lf_resolve_approval fr of
           None \<Rightarrow> (s, Some (Stop_error Approval_without_resolver))
         | Some resolve \<Rightarrow>
             (case resolve request of
                Inl e \<Rightarrow> (s, Some (Stop_error (Client_failed e)))
              | Inr d \<Rightarrow>
                  (case normalize_approval_decision request d of
                     Inl e \<Rightarrow> (s, Some (Stop_error (Approval_rejected e)))
                   | Inr d \<Rightarrow>
                       (let s = emit [Approval_resolved \<lparr>ev_run_id = lf_run_id fr, ev_decision = d\<rparr>] s in
                        (if ad_decision d = Denied then s\<lparr>rl_denied := List.insert fingerprint (rl_denied s)\<rparr> else s,
                         None))))))"

definition ask_question ::
    "run_loop_frame \<Rightarrow> onboarding_question \<Rightarrow> run_loop_state \<Rightarrow> run_loop_state \<times> loop_stop option" where
  "ask_question fr q s =
     (let s = emit [Onboarding_question_requested (onboarding_question_from_request (lf_run_id fr) q)] s in
      case lf_resolve_question fr of
        None \<Rightarrow> (s, Some (Stop_error Question_without_resolver))
      | Some resolve \<Rightarrow>
          (case resolve q of
             Inl e \<Rightarrow> (s, Some (Stop_error (Client_failed e)))
           | Inr _ \<Rightarrow> (s, None)))"

definition run_step ::
    "run_loop_frame \<Rightarrow> model_message list \<times> int \<times> graph_step \<Rightarrow> run_loop_state
     \<Rightarrow> run_loop_state \<times> loop_stop option" where
  "run_step fr x s =
     (case x of (captured, now, step) \<Rightarrow>
        (case step of
           Model_requested \<Rightarrow> request_model fr captured s
         | Streamed e \<Rightarrow> (stream_text fr e s, None)
         | Response_captured usage \<Rightarrow> (note_usage captured usage s, None)
         | Response_missing \<Rightarrow> (s, None)
         | Tools_entered has_tool_calls \<Rightarrow> (enter_tools fr has_tool_calls s, None)
         | Tool_called call \<Rightarrow> tool_called fr now call s
         | Tool_returned r \<Rightarrow> tool_returned fr now r s
         | Tool_stream_other \<Rightarrow> (s\<lparr>rl_saw := True\<rparr>, None)
         | Update_queued u \<Rightarrow> tool_updated fr now u s
         | Approval_queued request call_id tool_name \<Rightarrow> ask_approval fr request call_id tool_name s
         | Question_queued q \<Rightarrow> ask_question fr q s
         | Tools_left \<Rightarrow> (leave_tools s, None)))"

text \<open>Why the steps stop early, with the messages captured by then and the time.\<close>

fun run_attempt_steps ::
    "run_loop_frame \<Rightarrow> (model_message list \<times> int \<times> graph_step) list \<Rightarrow> run_loop_state
     \<Rightarrow> run_loop_state \<times> (loop_stop \<times> model_message list \<times> int) option" where
  "run_attempt_steps fr [] s = (s, None)"
| "run_attempt_steps fr (x # xs) s =
     (case run_step fr x s of
        (s, Some stop) \<Rightarrow> (leave_tools s, Some (stop, fst x, fst (snd x)))
      | (s, None) \<Rightarrow> run_attempt_steps fr xs s)"

section \<open>Restarts\<close>

text \<open>
  How an attempt ends for the run: it is tried again, the stream returns, an exception leaves it, or a
  cancellation passes through.
\<close>

datatype attempt_result =
    Attempt_restarted | Run_returned | Run_escaped loop_failure | Run_cancelled_through ustr ustr

definition fallback_attempt_messages :: "model_message list \<Rightarrow> ustr \<Rightarrow> model_message list" where
  "fallback_attempt_messages messages prompt =
     (if messages \<noteq> [] then messages
      else if prompt = [] then []
      else [Model_request [User_prompt_part (Prompt_text prompt)] None])"

definition bump :: "ustr \<Rightarrow> prompt_counts \<Rightarrow> prompt_counts" where
  "bump s counts = AList.update s (count_of counts s + 1) counts"

definition in_run_compaction_continuation_prompt :: ustr where
  "in_run_compaction_continuation_prompt =
     lit ''Continue the task. Earlier turns were truncated to fit the context window; ''
     @ lit ''the recent turns and your original instructions are preserved above.''"

text \<open>The context put before a compacted history: nothing without the dependencies of a workspace.\<close>

definition initial_context :: "run_loop_frame \<Rightarrow> (layers_error, model_message list) result" where
  "initial_context fr =
     (case lf_deps fr of
        None \<Rightarrow> Inr []
      | Some d \<Rightarrow>
          (let (day, zone, thinking) = (case ld_run_frame d of None \<Rightarrow> (None, None, lf_thinking fr) | Some f \<Rightarrow> f) in
           res_bind (build_prompt_context_layers (pe_turn (lf_environment fr)) (pe_read_text (lf_environment fr)) None
               \<lparr>tq_model = lf_model fr, tq_workspace_root = ld_workspace_root d, tq_current_date = day,
                tq_shell_family = Some (ld_shell_family d), tq_timezone = zone, tq_thinking = thinking,
                tq_effective_capabilities = None, tq_mcp_inventory = None\<rparr>
               canonical_tool_names Mode_coding project_doc_total_byte_budget)
             (\<lambda>layers. Inr (before_history_messages layers))))"

record in_run_compaction_outcome =
  iro_message_history :: "model_message list"
  iro_synthetic_prompt_counts :: prompt_counts
  iro_prompt :: ustr
  iro_event :: run_event

definition attempt_in_run_compaction ::
    "run_loop_frame \<Rightarrow> model_message list \<Rightarrow> prompt_counts \<Rightarrow> in_run_compaction_outcome option" where
  "attempt_in_run_compaction fr live counts =
     (case initial_context fr of
        Inl _ \<Rightarrow> None
      | Inr before \<Rightarrow>
          (let replacement = before
                 @ build_in_run_truncated_history live session_auto_compaction_retained_tail_tokens counts
           in Some \<lparr>iro_message_history = replacement,
                iro_synthetic_prompt_counts =
                  bump in_run_compaction_continuation_prompt (reconcile_synthetic_prompt_counts counts replacement),
                iro_prompt = in_run_compaction_continuation_prompt,
                iro_event = In_run_compaction_completed
                  \<lparr>ev_run_id = lf_run_id fr, ev_live_message_count = int (length live),
                   ev_replacement_message_count = int (length replacement)\<rparr>\<rparr>))"

definition compact_live_history ::
    "run_loop_frame \<Rightarrow> model_message list \<Rightarrow> run_loop_state \<Rightarrow> run_loop_state" where
  "compact_live_history fr captured s =
     (case attempt_in_run_compaction fr (live_messages s captured) (rl_synthetic s) of
        None \<Rightarrow> s\<lparr>rl_compact_failures := rl_compact_failures s + 1\<rparr>
      | Some o' \<Rightarrow>
          emit [iro_event o']
            (s\<lparr>rl_history := iro_message_history o', rl_synthetic := iro_synthetic_prompt_counts o',
               rl_carried := iro_message_history o', rl_prompt := iro_prompt o',
               rl_calls := clear_calls (rl_calls s), rl_recoveries := 0, rl_usage := None\<rparr>))"

text \<open>The messages of an attempt are kept for the transcript and for the history of the next attempt.\<close>

definition carry_attempt :: "model_message list \<Rightarrow> run_loop_state \<Rightarrow> run_loop_state" where
  "carry_attempt messages s =
     (let carried = rl_carried s @ sanitize_failed_run_messages messages
      in s\<lparr>rl_carried := carried, rl_history := rl_history s @ drop (length (rl_history s)) carried,
           rl_calls := clear_calls (rl_calls s), rl_recoveries := 0\<rparr>)"

definition attempt_messages :: "run_loop_state \<Rightarrow> model_message list \<Rightarrow> model_message list" where
  "attempt_messages s captured =
     fallback_attempt_messages (drop (length (rl_history s)) captured) (rl_prompt s)"

definition restart_with_correction :: "ustr \<Rightarrow> model_message list \<Rightarrow> run_loop_state \<Rightarrow> run_loop_state" where
  "restart_with_correction message captured s =
     (carry_attempt (attempt_messages s captured) s)
       \<lparr>rl_prompt := message, rl_synthetic := bump message (rl_synthetic s),
        rl_corrections := rl_corrections s + 1\<rparr>"

section \<open>Failures\<close>

text \<open>The exception as it was raised, when it is not one of the loop itself.\<close>

fun raised_of :: "loop_failure \<Rightarrow> raised_error option" where
  "raised_of (Client_failed e) = Some e"
| "raised_of (Agent_failed e) = Some e"
| "raised_of _ = None"

definition failure_text :: "run_loop_frame \<Rightarrow> loop_failure \<Rightarrow> ustr \<times> ustr" where
  "failure_text fr f = (case raised_of f of Some e \<Rightarrow> (er_type e, er_message e) | None \<Rightarrow> lf_describe fr f)"

definition tool_denied_result :: "ustr \<Rightarrow> tool_denial \<Rightarrow> json" where
  "tool_denied_result message d =
     JObj [(lit ''ok'', JBool False), (lit ''outcome'', JStr (lit ''denied'')),
           (lit ''denial_type'', JStr (td_denial_type d)), (lit ''message'', JStr message),
           (lit ''approval_kind'',
            case td_approval_kind d of None \<Rightarrow> JNull | Some k \<Rightarrow> JStr (lit (request_kind_name k))),
           (lit ''subject'', case td_subject d of None \<Rightarrow> JNull | Some x \<Rightarrow> JStr x),
           (lit ''retry_same_request_allowed'', JBool (td_retry_same_request_allowed d))]"

definition operational_result :: "raised_error \<Rightarrow> operational \<Rightarrow> json" where
  "operational_result e op =
     (case op of
        Tool_failure \<Rightarrow> tool_error_result (er_type e) (er_message e)
      | Tool_denied d \<Rightarrow> tool_denied_result (er_message e) d)"

definition pending_calls_of :: "call_tracking \<Rightarrow> pending_tool_call list" where
  "pending_calls_of t = map (\<lambda>(i, p).
     \<lparr>ptc_tool_call_id = i, ptc_tool_name = tk_tool_name p, ptc_args = tk_args p,
      ptc_args_valid = tk_args_valid p, ptc_started_at = tk_started_at p\<rparr>) (ct_pending t)"

definition fail_pending :: "run_loop_frame \<Rightarrow> int \<Rightarrow> ustr \<Rightarrow> ustr \<Rightarrow> run_loop_state \<Rightarrow> run_loop_state" where
  "fail_pending fr now kind message s =
     emit (synthesize_tool_failed_events_for_pending now (lf_run_id fr) (pending_calls_of (rl_calls s)) kind message) s"

text \<open>An expected failure of the only open tool is its result, and the run goes on without a prompt.\<close>

definition answer_with_failure ::
    "run_loop_frame \<Rightarrow> int \<Rightarrow> model_message list \<Rightarrow> raised_error \<Rightarrow> operational \<Rightarrow> string \<Rightarrow> tracked_call
     \<Rightarrow> run_loop_state \<Rightarrow> run_loop_state \<times> attempt_result" where
  "answer_with_failure fr now captured e op i p s =
     (let outcome = operational_result e op in
      case succeeded_event (lf_validate fr) now (lf_run_id fr) i p outcome JNull of
        Inl x \<Rightarrow> (s, Run_escaped (Tracking_failed x))
      | Inr event \<Rightarrow>
          (let s = emit [event] s;
               messages = attempt_messages s captured
                 @ [Model_request [Tool_return_part (tk_tool_name p) i (Payload_json (lf_dumps fr outcome))] None]
           in ((carry_attempt messages s)\<lparr>rl_prompt := []\<rparr>, Attempt_restarted)))"

text \<open>
  The handler of an exception; the sink is fired once more by \<open>finally\<close> when no outcome was emitted.
\<close>

definition captured_in_attempt :: "nat \<Rightarrow> run_loop_state \<Rightarrow> model_message list \<Rightarrow> model_message list" where
  "captured_in_attempt history_count s captured = rl_carried s @ drop history_count captured"

definition fail_run ::
    "run_loop_frame \<Rightarrow> nat \<Rightarrow> int \<Rightarrow> model_message list \<Rightarrow> loop_failure \<Rightarrow> run_loop_state \<Rightarrow> run_loop_state \<times> attempt_result" where
  "fail_run fr history_count now captured f s =
     (let (kind, message) = failure_text fr f;
          s = fail_pending fr now kind message s;
          s = sink fr (captured_in_attempt history_count s captured) s
      in (emit [run_failure (lf_run_id fr) kind message] s, Run_returned))"

definition retryable_failure :: "run_loop_frame \<Rightarrow> loop_failure \<Rightarrow> run_loop_state \<Rightarrow> bool" where
  "retryable_failure fr f s =
     (case raised_of f of
        None \<Rightarrow> False
      | Some e \<Rightarrow> should_retry_run_error (lf_installed fr) (er_graph e) (er_node e) (rl_saw s) (rl_recoveries s))"

definition handle_error ::
    "run_loop_frame \<Rightarrow> int \<Rightarrow> model_message list \<Rightarrow> loop_failure \<Rightarrow> run_loop_state \<Rightarrow> run_loop_state \<times> attempt_result" where
  "handle_error fr now captured f s =
     (let count = length (rl_history s);
          again = (\<lambda>(s, r). (sink fr (captured_in_attempt count s captured) s, r)) in
      case (raised_of f, ct_pending (rl_calls s)) of
        (Some e, [(i, p)]) \<Rightarrow>
          (case er_operational e of
             Some op \<Rightarrow> again (answer_with_failure fr now captured e op i p s)
           | None \<Rightarrow>
               if retryable_failure fr f s
               then again (s\<lparr>rl_recoveries := rl_recoveries s + 1\<rparr>, Attempt_restarted)
               else fail_run fr count now captured f s)
      | _ \<Rightarrow>
          if retryable_failure fr f s
          then again (s\<lparr>rl_recoveries := rl_recoveries s + 1\<rparr>, Attempt_restarted)
          else fail_run fr count now captured f s)"

definition handle_stop ::
    "run_loop_frame \<Rightarrow> attempt \<Rightarrow> loop_stop \<times> model_message list \<times> int \<Rightarrow> run_loop_state
     \<Rightarrow> run_loop_state \<times> attempt_result" where
  "handle_stop fr a x s =
     (case x of (stop, captured, now) \<Rightarrow>
        (let count = length (rl_history s) in
         case stop of
           Stop_compact \<Rightarrow> (compact_live_history fr captured s, Attempt_restarted)
         | Stop_correct message \<Rightarrow>
             (let s = restart_with_correction message captured s
              in (sink fr (captured_in_attempt count s captured) s, Attempt_restarted))
         | Stop_error f \<Rightarrow> handle_error fr now captured f s
         | Stop_return \<Rightarrow>
             (case at_closing a of
                Some e \<Rightarrow> handle_error fr (at_now a) (at_captured a) (Agent_failed e) s
              | None \<Rightarrow> (sink fr (captured_in_attempt count s (at_captured a)) s, Run_returned))))"

section \<open>The end of the graph\<close>

definition build_run_succeeded_event :: "run_loop_frame \<Rightarrow> ustr \<Rightarrow> token_usage \<Rightarrow> run_succeeded_event" where
  "build_run_succeeded_event fr text usage =
     (let counted = (\<lambda>n. if n = 0 then None else Some n) in
      \<lparr>ev_run_id = lf_run_id fr, ev_output_text = text, ev_input_tokens = counted (tu_input usage),
       ev_output_tokens = counted (tu_output usage), ev_total_tokens = counted (tu_total usage),
       ev_context_window_used =
         (case lf_window fr of
            None \<Rightarrow> None
          | Some w \<Rightarrow> if w \<noteq> 0 \<and> tu_total usage \<noteq> 0 then Some (lf_round fr (tu_total usage) w) else None),
       ev_next_request_context_window_used = None, ev_transcript_summary = None\<rparr>)"

definition unresolved_message :: ustr where
  "unresolved_message = lit ''Run cannot terminate with unresolved tool calls''"

definition leave_after_outcome :: "attempt \<Rightarrow> attempt_result" where
  "leave_after_outcome a = (case at_closing a of None \<Rightarrow> Run_returned | Some _ \<Rightarrow> Run_escaped Raised_after_outcome)"

definition finish_graph ::
    "run_loop_frame \<Rightarrow> attempt \<Rightarrow> graph_output \<Rightarrow> model_message list \<Rightarrow> token_usage \<Rightarrow> run_loop_state
     \<Rightarrow> run_loop_state \<times> attempt_result" where
  "finish_graph fr a result new_messages usage s =
     (case result of
        Output_missing \<Rightarrow> handle_error fr (at_now a) (at_captured a) Run_without_result s
      | Output_other \<Rightarrow> handle_error fr (at_now a) (at_captured a) Run_without_text s
      | Output_text text \<Rightarrow>
          (let s = sink fr (rl_carried s @ new_messages) s in
           if ct_pending (rl_calls s) \<noteq> [] then
             (let kind = lit ''SessionFormatError'';
                  s = fail_pending fr (at_now a) kind unresolved_message s;
                  s = s\<lparr>rl_calls := clear_calls (rl_calls s)\<rparr>
              in (emit [run_failure (lf_run_id fr) kind unresolved_message] s, leave_after_outcome a))
           else
             (case raise_if_buffered_tool_updates_remain (rl_calls s) of
                Inl _ \<Rightarrow> (s, Run_escaped Raised_after_outcome)
              | Inr _ \<Rightarrow>
                  (emit [Run_succeeded (build_run_succeeded_event fr text usage)] s, leave_after_outcome a))))"

definition run_attempt ::
    "run_loop_frame \<Rightarrow> attempt \<Rightarrow> run_loop_state \<Rightarrow> run_loop_state \<times> attempt_result" where
  "run_attempt fr a s =
     (case run_attempt_steps fr (at_steps a) (begin_attempt s) of
        (s, Some x) \<Rightarrow> handle_stop fr a x s
      | (s, None) \<Rightarrow>
          (let s = leave_tools s in
           case at_end a of
             Graph_finished result new_messages usage \<Rightarrow> finish_graph fr a result new_messages usage s
           | Graph_failed e \<Rightarrow> handle_error fr (at_now a) (at_captured a) (Agent_failed e) s
           | Graph_cancelled kind message \<Rightarrow>
               (sink fr (captured_in_attempt (length (rl_history s)) s (at_captured a)) s,
                Run_cancelled_through kind message)))"

text \<open>The loop: \<open>agent k\<close> is what the agent does in its attempt number \<open>k\<close>.\<close>

fun run_attempts ::
    "run_loop_frame \<Rightarrow> (nat \<Rightarrow> attempt) \<Rightarrow> nat \<Rightarrow> nat \<Rightarrow> run_loop_state \<Rightarrow> run_loop_state \<times> attempt_result option" where
  "run_attempts fr agent k 0 s = (s, None)"
| "run_attempts fr agent k (Suc fuel) s =
     (case run_attempt fr (agent k) s of
        (s, Attempt_restarted) \<Rightarrow> run_attempts fr agent (Suc k) fuel s
      | (s, r) \<Rightarrow> (s, Some r))"

definition stream_run ::
    "run_loop_frame \<Rightarrow> ustr \<Rightarrow> model_message list \<Rightarrow> (nat \<Rightarrow> attempt) \<Rightarrow> nat \<Rightarrow> run_loop_state \<times> attempt_result option" where
  "stream_run fr prompt history agent fuel =
     run_attempts fr agent 0 fuel (start_run_loop (lf_run_id fr) prompt history)"

section \<open>The transcript summary of a success\<close>

text \<open>\<open>stream_run_events\<close> passes the events on and gives a success the summary of what came before it.\<close>

fun with_summary :: "int \<Rightarrow> run_event list \<Rightarrow> run_output list \<Rightarrow> run_output list" where
  "with_summary took history [] = []"
| "with_summary took history (Yielded e # os) =
     (let e = (case e of
                 Run_succeeded r \<Rightarrow>
                   Run_succeeded (r\<lparr>ev_transcript_summary := Some (build_run_transcript_summary history r took)\<rparr>)
               | _ \<Rightarrow> e)
      in Yielded e # with_summary took (history @ [e]) os)"
| "with_summary took history (x # os) = x # with_summary took history os"

definition steer_callbacks_ok :: "bool \<Rightarrow> bool \<Rightarrow> bool \<Rightarrow> bool" where
  "steer_callbacks_ok activate submit deactivate \<longleftrightarrow>
     \<not> ((activate \<or> submit \<or> deactivate) \<and> \<not> (activate \<and> submit \<and> deactivate))"

end
