(* ===== verification/Tracked_Events.thy ===== *)
theory Tracked_Events
  imports Tool_Tracking
begin

text \<open>
  The tracking of tool calls against the validator of a session log: the events of a call, an update or a
  result are accepted by the validator a run is appended with, and both keep the same open calls.
\<close>

section \<open>The same open calls\<close>

definition tracks :: "call_tracking \<Rightarrow> appender_state \<Rightarrow> bool" where
  "tracks t v \<longleftrightarrow> as_started v \<and> \<not> as_terminal v
     \<and> (\<forall>i. map_of (as_pending v) i = map_option tk_tool_name (map_of (ct_pending t) i))
     \<and> distinct (map fst (ct_pending t))
     \<and> (\<forall>i. \<forall>u \<in> set (buffered_for t i). qtu_tool_call_id u = i)"

abbreviation accepts :: "string \<Rightarrow> appender_state \<Rightarrow> run_event list \<Rightarrow> appender_state \<Rightarrow> bool" where
  "accepts run_id v es v' \<equiv> run_steps (validate_run_event_incremental run_id) v es = Inr v'"

lemma accepts_append:
  "accepts run_id v es v' \<Longrightarrow> accepts run_id v' es' v'' \<Longrightarrow> accepts run_id v (es @ es') v''"
  by (simp add: run_steps_append)

lemma buffered_deleted [simp]:
  "buffered_for (t\<lparr>ct_buffered := AList.delete i (ct_buffered t)\<rparr>) j = (if j = i then [] else buffered_for t j)"
  by (simp add: buffered_for_def AList.delete_conv)

lemma buffered_frame [simp]:
  "buffered_for (t\<lparr>ct_pending := p\<rparr>) = buffered_for t"
  "buffered_for (t\<lparr>ct_completed := c\<rparr>) = buffered_for t"
  by (simp_all add: buffered_for_def fun_eq_iff)

lemma tracks_completed [simp]: "tracks (t\<lparr>ct_completed := c\<rparr>) v = tracks t v"
  by (simp add: tracks_def)

lemma tracks_drained:
  "tracks t v \<Longrightarrow> tracks (t\<lparr>ct_buffered := AList.delete i (ct_buffered t)\<rparr>) v"
  by (simp add: tracks_def)

lemma tracks_started:
  assumes "tracks t v" and "map_of (ct_pending t) i = None"
  shows "accepts run_id v [started_event run_id i p] (v\<lparr>as_pending := (i, tk_tool_name p) # as_pending v\<rparr>)"
    and "tracks (t\<lparr>ct_pending := AList.update i p (ct_pending t)\<rparr>)
      (v\<lparr>as_pending := (i, tk_tool_name p) # as_pending v\<rparr>)"
  using assms
  by (auto simp: tracks_def validate_run_event_incremental_def started_event_def AList.update_conv
      AList.distinct_update Let_def)

lemma update_accepted:
  assumes "tracks t v" and "map_of (ct_pending t) i = Some p" and "qtu_tool_call_id u = i"
    and "build_tool_updated_event validate now run_id u p = Inr e"
  shows "validate_run_event_incremental run_id v e = Inr v"
  using assms
  by (cases "build_updated_tool_activity validate (tk_tool_name p) (tk_args p) (tk_args_valid p)
        (qtu_partial_result u) (elapsed_ms now (tk_started_at p))")
    (auto simp: tracks_def build_tool_updated_event_def validate_run_event_incremental_def)

lemma updates_accepted:
  assumes "tracks t v" and "map_of (ct_pending t) i = Some p" and "\<forall>u \<in> set us. qtu_tool_call_id u = i"
    and "map_results (\<lambda>u. build_tool_updated_event validate now run_id u p) us = Inr es"
  shows "accepts run_id v es v"
  using assms(3,4)
proof (induction us arbitrary: es)
  case Nil
  then show ?case by simp
next
  case (Cons u us)
  then obtain e es' where e: "build_tool_updated_event validate now run_id u p = Inr e"
    and r: "map_results (\<lambda>u. build_tool_updated_event validate now run_id u p) us = Inr es'" and es: "es = e # es'"
    by (cases "build_tool_updated_event validate now run_id u p";
        cases "map_results (\<lambda>u. build_tool_updated_event validate now run_id u p) us") auto
  from Cons.prems(1) have "validate_run_event_incremental run_id v e = Inr v"
    by (intro update_accepted [OF assms(1,2) _ e]) simp
  moreover have "accepts run_id v es' v" using Cons.IH [OF _ r] Cons.prems(1) by simp
  ultimately show ?case by (simp add: es)
qed

text \<open>A success or a failure of an open call closes it on both sides.\<close>

definition closes :: "string \<Rightarrow> string \<Rightarrow> tracked_call \<Rightarrow> run_event \<Rightarrow> bool" where
  "closes run_id i p e \<longleftrightarrow>
     (\<exists>x. e = Tool_call_succeeded x \<and> ev_run_id x = run_id \<and> ev_tool_call_id x = i \<and> ev_tool_name x = tk_tool_name p)
     \<or> (\<exists>x. e = Tool_call_failed x \<and> ev_run_id x = run_id \<and> ev_tool_call_id x = i \<and> ev_tool_name x = tk_tool_name p)"

lemma closing_accepted:
  assumes "tracks t v" and "map_of (ct_pending t) i = Some p" and "closes run_id i p e"
  shows "validate_run_event_incremental run_id v e = Inr (v\<lparr>as_pending := drop_call i (as_pending v)\<rparr>)"
    and "tracks (t\<lparr>ct_pending := AList.delete i (ct_pending t)\<rparr>) (v\<lparr>as_pending := drop_call i (as_pending v)\<rparr>)"
proof -
  have v: "map_of (as_pending v) i = Some (tk_tool_name p)" and on: "as_started v" "\<not> as_terminal v"
    using assms(1,2) by (simp_all add: tracks_def)
  show "validate_run_event_incremental run_id v e = Inr (v\<lparr>as_pending := drop_call i (as_pending v)\<rparr>)"
    using assms(3) v on by (auto simp: closes_def validate_run_event_incremental_def Let_def)
  show "tracks (t\<lparr>ct_pending := AList.delete i (ct_pending t)\<rparr>) (v\<lparr>as_pending := drop_call i (as_pending v)\<rparr>)"
    using assms(1) by (simp add: tracks_def AList.delete_conv AList.distinct_delete)
qed

lemma succeeded_closes:
  "succeeded_event validate now run_id i p outcome metadata = Inr e \<Longrightarrow> closes run_id i p e"
  by (cases "build_succeeded_tool_activity validate (tk_tool_name p) (tk_args p) (tk_args_valid p) outcome metadata
        (elapsed_ms now (tk_started_at p))")
    (auto simp: succeeded_event_def closes_def)

lemma failed_closes [simp]: "closes run_id i p (failed_event now run_id i p kind message)"
  by (simp add: closes_def failed_event_def)

section \<open>Calls and results\<close>

lemma tool_call_tracked:
  assumes "tracks t v"
    and "process_tool_call_event loads validate now run_id available attempts call t = (t', Inr r)"
  obtains (duplicate) "r = Call_duplicate" "t' = t"
  | (opened) es v' where "r = Call_open es" "accepts run_id v es v'" "tracks t' v'"
  | (corrected) m es v' where "r = Call_corrected m es" "accepts run_id v es v'" "tracks t' v'"
      "attempts < canonical_agent_tool_correction_retries"
  | (exhausted) es kind m v' where "r = Call_exhausted (es @ [run_failure run_id kind m])" "accepts run_id v es v'"
      "tracks t' v'"
proof -
  let ?i = "fc_tool_call_id call"
  obtain a where a: "normalize_tool_args loads (fc_args call) (fc_args_valid call) = Inr a"
    using assms(2) by (auto simp: process_tool_call_event_def Let_def split: sum.splits)
  show thesis
  proof (cases "map_of (ct_pending t) ?i")
    case (Some p)
    with a assms(2) show thesis
      by (intro duplicate) (auto simp: process_tool_call_event_def Let_def split: if_splits)
  next
    case None
    let ?p = "\<lparr>tk_tool_name = fc_tool_name call, tk_args = nta_args a, tk_args_valid = nta_args_valid a,
      tk_started_at = now\<rparr>"
    let ?t = "t\<lparr>ct_pending := AList.update ?i ?p (ct_pending t)\<rparr>"
    let ?t2 = "?t\<lparr>ct_buffered := AList.delete ?i (ct_buffered ?t)\<rparr>"
    let ?v = "v\<lparr>as_pending := (?i, fc_tool_name call) # as_pending v\<rparr>"
    obtain us where us: "map_results (\<lambda>u. build_tool_updated_event validate now run_id u ?p) (buffered_for ?t ?i) = Inr us"
      using assms(2) by (auto simp: process_tool_call_event_def Let_def a None drain_buffered_tool_updates_def
          split: sum.splits)
    let ?es = "started_event run_id ?i ?p # us"
    note started = tracks_started [OF assms(1) None, where p = ?p, simplified]
    have ids: "\<forall>u \<in> set (buffered_for ?t ?i). qtu_tool_call_id u = ?i" using started(2) by (simp add: tracks_def)
    have p: "map_of (ct_pending ?t) ?i = Some ?p" by (simp add: AList.update_conv)
    have "accepts run_id ?v us ?v" by (rule updates_accepted [OF started(2) p ids us])
    then have acc: "accepts run_id v ?es ?v" using started(1) by simp
    have tr: "tracks ?t2 ?v" by (rule tracks_drained [OF started(2)])
    have p2: "map_of (ct_pending ?t2) ?i = Some ?p" using p by simp
    show thesis
    proof (cases "malformed_tool_correction_message loads (fc_tool_name call) (fc_args call) (nta_args_valid a) available")
      case None
      then have t': "t' = ?t2" and r: "r = Call_open ?es"
        using assms(2) us by (simp_all add: process_tool_call_event_def Let_def a \<open>map_of (ct_pending t) ?i = None\<close>
            drain_buffered_tool_updates_def)
      show thesis by (rule opened [OF r acc]) (simp only: t' tr)
    next
      case (Some m)
      let ?t3 = "?t2\<lparr>ct_pending := AList.delete ?i (ct_pending ?t2),
        ct_completed := AList.update ?i (fc_tool_name call) (ct_completed ?t2)\<rparr>"
      let ?w = "?v\<lparr>as_pending := drop_call ?i (as_pending ?v)\<rparr>"
      have r: "correct_tool_call validate now run_id attempts ?i ?p m ?es ?t2 = (t', Inr r)"
        using assms(2) us Some by (simp add: process_tool_call_event_def Let_def a \<open>map_of (ct_pending t) ?i = None\<close>
            drain_buffered_tool_updates_def)
      have closed: "accepts run_id v (?es @ [e]) ?w \<and> tracks ?t3 ?w" if "closes run_id ?i ?p e" for e
      proof
        have "accepts run_id ?v [e] ?w" using closing_accepted(1) [OF tr p2 that] by simp
        with acc show "accepts run_id v (?es @ [e]) ?w" by (rule accepts_append)
        show "tracks ?t3 ?w" unfolding tracks_completed by (rule closing_accepted(2) [OF tr p2 that])
      qed
      show thesis
      proof (cases "canonical_agent_tool_correction_retries \<le> attempts")
        case True
        let ?m = "tool_correction_exhausted_message (fc_tool_name call)" and ?kind = "lit ''RuntimeError''"
        from r True have t': "t' = ?t3"
          and x: "r = Call_exhausted ((?es @ [failed_event now run_id ?i ?p ?kind ?m]) @ [run_failure run_id ?kind ?m])"
          by (simp_all add: correct_tool_call_def Let_def)
        note shut = closed [OF failed_closes, of now ?kind ?m]
        show thesis by (rule exhausted [OF x conjunct1 [OF shut]]) (simp only: t' conjunct2 [OF shut])
      next
        case False
        let ?e = "succeeded_event validate now run_id ?i ?p (tool_error_result retry_prompt_type m) JNull"
        from r False obtain e where e: "?e = Inr e"
          by (cases ?e) (simp_all add: correct_tool_call_def Let_def)
        with r False have t': "t' = ?t3" and x: "r = Call_corrected m (?es @ [e])"
          by (simp_all add: correct_tool_call_def Let_def)
        note shut = closed [OF succeeded_closes [OF e]]
        show thesis by (rule corrected [OF x conjunct1 [OF shut]]) (simp_all only: t' conjunct2 [OF shut] False not_le [symmetric] not_False_eq_True)
      qed
    qed
  qed
qed

lemma tool_result_tracked:
  assumes "tracks t v" and "process_tool_result_event validate now run_id r t = (t', Inr x)"
  obtains (answered) es v' where "x = Result_events es \<or> (\<exists>m. x = Result_corrected m es)" "accepts run_id v es v'" "tracks t' v'"
proof -
  let ?i = "fr_tool_call_id r"
  obtain t1 p where r: "resolve_pending_tool_call ?i (fr_tool_name r) t = Inr (t1, p)"
    using assms(2) by (auto simp: process_tool_result_event_def Let_def split: sum.splits)
  then have p: "map_of (ct_pending t) ?i = Some p" and t1: "t1 = t\<lparr>ct_pending := AList.delete ?i (ct_pending t)\<rparr>"
    by (auto simp: resolve_pending_tool_call_def split: option.splits if_splits)
  let ?t = "t1\<lparr>ct_completed := AList.update ?i (tk_tool_name p) (ct_completed t1)\<rparr>"
  have t': "t' = ?t" using assms(2) r by (simp add: process_tool_result_event_def Let_def)
  have e: "thesis" if "closes run_id ?i p e" "x = Result_events [e] \<or> (\<exists>m. x = Result_corrected m [e])" for e
  proof -
    have "accepts run_id v [e] (v\<lparr>as_pending := drop_call ?i (as_pending v)\<rparr>)"
      using closing_accepted(1) [OF assms(1) p that(1)] by simp
    moreover have "tracks t' (v\<lparr>as_pending := drop_call ?i (as_pending v)\<rparr>)"
      unfolding t' t1 tracks_completed by (rule closing_accepted(2) [OF assms(1) p that(1)])
    ultimately show thesis by (rule answered [OF that(2)])
  qed
  show thesis
  proof (cases "fr_part r")
    case (Retry_text m)
    let ?e = "succeeded_event validate now run_id ?i p (tool_error_result retry_prompt_type m) JNull"
    from assms(2) r Retry_text obtain e where "?e = Inr e" "x = Result_corrected m [e]"
      by (cases ?e) (auto simp: process_tool_result_event_def Let_def)
    with e [OF succeeded_closes] show thesis by blast
  next
    case (Retry_errors m)
    let ?e = "succeeded_event validate now run_id ?i p (tool_error_result retry_prompt_type m) JNull"
    from assms(2) r Retry_errors obtain e where "?e = Inr e" "x = Result_corrected m [e]"
      by (cases ?e) (auto simp: process_tool_result_event_def Let_def)
    with e [OF succeeded_closes] show thesis by blast
  next
    case (Returned content metadata)
    from assms(2) r Returned obtain v where v: "normalize_json_value content = Inr v"
      by (cases "normalize_json_value content") (auto simp: process_tool_result_event_def Let_def)
    let ?e = "succeeded_event validate now run_id ?i p v metadata"
    from assms(2) r Returned v obtain e where "?e = Inr e" "x = Result_events [e]"
      by (cases ?e) (auto simp: process_tool_result_event_def Let_def)
    with e [OF succeeded_closes] show thesis by blast
  qed
qed

end
