(* ===== verification/Run_Tracking.thy ===== *)
theory Run_Tracking
  imports Run_Loop Tracked_Events
begin

text \<open>
  The loop of \<open>Run_Loop\<close> seen as a machine over the tracked calls: which events it emits together with
  which change of the calls. The steps of the loop are steps of the machine; what a session log accepts is
  proved once, by rule induction on its runs.
\<close>

section \<open>The machine\<close>

definition events_of :: "run_output list \<Rightarrow> run_event list" where
  "events_of os = concat (map (\<lambda>x. case x of Yielded e \<Rightarrow> [e] | _ \<Rightarrow> []) os)"

lemma events_of_simps [simp]:
  "events_of [] = []" "events_of (Yielded e # os) = e # events_of os" "events_of (Sunk m # os) = events_of os"
  "events_of (Steer_activated # os) = events_of os" "events_of (Steer_submitted # os) = events_of os"
  "events_of (Steer_deactivated # os) = events_of os" "events_of (os @ os') = events_of os @ events_of os'"
  "events_of (map Yielded es) = es"
  by (simp_all add: events_of_def comp_def)

fun call_events :: "tool_call_result \<Rightarrow> run_event list" where
  "call_events Call_duplicate = []"
| "call_events (Call_open es) = es"
| "call_events (Call_exhausted es) = es"
| "call_events (Call_corrected _ es) = es"

fun ends_run :: "tool_call_result \<Rightarrow> bool" where
  "ends_run (Call_exhausted _) = True"
| "ends_run _ = False"

fun result_events :: "tool_result_outcome \<Rightarrow> run_event list" where
  "result_events (Result_events es) = es"
| "result_events (Result_corrected _ es) = es"

text \<open>Events the tracking of calls has nothing to do with.\<close>

definition neutral_event :: "string \<Rightarrow> run_event \<Rightarrow> bool" where
  "neutral_event run_id e \<longleftrightarrow> event_run_id e = run_id \<and>
     (case e of
        Assistant_text_delta _ \<Rightarrow> True | Approval_requested _ \<Rightarrow> True | Approval_resolved _ \<Rightarrow> True
      | Onboarding_question_requested _ \<Rightarrow> True | In_run_compaction_completed _ \<Rightarrow> True | _ \<Rightarrow> False)"

text \<open>
  The state is the tracked calls and whether the run has had its outcome. A strict step forgets no open call
  and does not follow an outcome; calls have ids of a given set.
\<close>

type_synonym machine_state = "call_tracking \<times> bool"

inductive tracker_step ::
    "bool \<Rightarrow> string set \<Rightarrow> run_loop_frame \<Rightarrow> machine_state \<Rightarrow> run_event list \<Rightarrow> machine_state \<Rightarrow> bool"
  for strict :: bool and ids :: "string set" and fr :: run_loop_frame where
  neutral: "strict \<longrightarrow> \<not> b \<Longrightarrow> neutral_event (lf_run_id fr) e \<Longrightarrow> tracker_step strict ids fr (t, b) [e] (t, b)"
| called: "strict \<longrightarrow> \<not> b \<Longrightarrow> fc_tool_call_id call \<in> ids \<Longrightarrow>
    process_tool_call_event (lf_loads fr) (lf_validate fr) now (lf_run_id fr) (lf_available fr) n call t = (t', Inr r) \<Longrightarrow>
    strict \<longrightarrow> ends_run r \<longrightarrow> ct_pending t' = [] \<Longrightarrow>
    tracker_step strict ids fr (t, b) (call_events r) (t', b \<or> ends_run r)"
| call_broken: "fc_tool_call_id call \<in> ids \<Longrightarrow>
    process_tool_call_event (lf_loads fr) (lf_validate fr) now (lf_run_id fr) (lf_available fr) n call t = (t', Inl e) \<Longrightarrow>
    strict \<longrightarrow> t' = t \<Longrightarrow> tracker_step strict ids fr (t, b) [] (t', b)"
| returned: "strict \<longrightarrow> \<not> b \<Longrightarrow>
    process_tool_result_event (lf_validate fr) now (lf_run_id fr) x t = (t', Inr r) \<Longrightarrow>
    tracker_step strict ids fr (t, b) (result_events r) (t', b)"
| result_broken: "process_tool_result_event (lf_validate fr) now (lf_run_id fr) x t = (t', Inl e) \<Longrightarrow>
    strict \<longrightarrow> t' = t \<Longrightarrow> tracker_step strict ids fr (t, b) [] (t', b)"
| updated: "strict \<longrightarrow> \<not> b \<Longrightarrow> resolve_tool_update u t = Inr (t', Some p) \<Longrightarrow>
    build_tool_updated_event (lf_validate fr) now (lf_run_id fr) u p = Inr e \<Longrightarrow>
    tracker_step strict ids fr (t, b) [e] (t', b)"
| buffered: "resolve_tool_update u t = Inr (t', p) \<Longrightarrow> tracker_step strict ids fr (t, b) [] (t', b)"
| answered: "strict \<longrightarrow> \<not> b \<Longrightarrow> ct_pending t = [(i, p)] \<Longrightarrow>
    succeeded_event (lf_validate fr) now (lf_run_id fr) i p outcome metadata = Inr e \<Longrightarrow>
    tracker_step strict ids fr (t, b) [e] (clear_calls t, b)"
| cleared: "strict \<longrightarrow> ct_pending t = [] \<Longrightarrow> tracker_step strict ids fr (t, b) [] (clear_calls t, b)"
| failed: "strict \<longrightarrow> \<not> b \<Longrightarrow> t' = t \<or> t' = clear_calls t \<Longrightarrow>
    tracker_step strict ids fr (t, b)
      (synthesize_tool_failed_events_for_pending now (lf_run_id fr) (pending_calls_of t) kind message
        @ [run_failure (lf_run_id fr) kind' message']) (t', True)"
| succeeded: "strict \<longrightarrow> \<not> b \<Longrightarrow> ct_pending t = [] \<Longrightarrow> ev_run_id e = lf_run_id fr \<Longrightarrow>
    tracker_step strict ids fr (t, b) [Run_succeeded e] (t, True)"

inductive tracker_run ::
    "bool \<Rightarrow> string set \<Rightarrow> run_loop_frame \<Rightarrow> machine_state \<Rightarrow> run_event list \<Rightarrow> machine_state \<Rightarrow> bool"
  for strict :: bool and ids :: "string set" and fr :: run_loop_frame where
  none: "tracker_run strict ids fr m [] m"
| more: "tracker_run strict ids fr m es m' \<Longrightarrow> tracker_step strict ids fr m' es' m'' \<Longrightarrow>
    tracker_run strict ids fr m (es @ es') m''"

lemma tracker_run_step: "tracker_step strict ids fr m es m' \<Longrightarrow> tracker_run strict ids fr m es m'"
  using more [OF none] by fastforce

lemma tracker_run_trans:
  assumes "tracker_run strict ids fr m es m'" and "tracker_run strict ids fr m' es' m''"
  shows "tracker_run strict ids fr m (es @ es') m''"
  using assms(2,1) by induction (auto simp: append_assoc [symmetric] intro: more simp del: append_assoc)

section \<open>What a session log accepts\<close>

lemma neutral_accepted:
  assumes "tracks t v" and "neutral_event run_id e"
  shows "validate_run_event_incremental run_id v e = Inr v"
  using assms by (cases e) (simp_all add: tracks_def neutral_event_def validate_run_event_incremental_def)

lemma tracked_none:
  assumes "tracks t v" and "ct_pending t = []"
  shows "as_pending v = []"
proof -
  have "map_of (as_pending v) i = None" for i using assms by (simp add: tracks_def)
  then show ?thesis using pending_empty_iff by blast
qed

lemma failures_accepted:
  assumes "tracks t v" and "ct_pending t = ps"
  shows "\<exists>v'. accepts run_id v (synthesize_tool_failed_events_for_pending now run_id (pending_calls_of t) kind message) v'
    \<and> as_pending v' = [] \<and> as_started v' \<and> \<not> as_terminal v'"
  using assms
proof (induction ps arbitrary: t v)
  case Nil
  then have "as_pending v = []" by (intro tracked_none)
  with Nil show ?case
    by (simp add: synthesize_tool_failed_events_for_pending_def pending_calls_of_def tracks_def)
next
  case (Cons x ps)
  obtain i p where x: "x = (i, p)" by (cases x)
  let ?e = "Tool_call_failed \<lparr>ev_run_id = run_id, ev_tool_call_id = i, ev_tool_name = tk_tool_name p,
    ev_activity = Some (build_failed_tool_activity (tk_tool_name p) (tk_args p) (tk_args_valid p) message
      (duration_ms_since now (tk_started_at p))), ev_error_type = kind, ev_message = message\<rparr>"
  let ?t = "t\<lparr>ct_pending := AList.delete i (ct_pending t)\<rparr>"
  let ?v = "v\<lparr>as_pending := drop_call i (as_pending v)\<rparr>"
  have p: "map_of (ct_pending t) i = Some p" by (simp add: Cons.prems(2) x)
  have e: "closes run_id i p ?e" by (simp add: closes_def)
  have new: "i \<notin> fst ` set ps" using Cons.prems by (simp add: tracks_def x)
  then have "AList.delete i ps = ps" by (rule AList.delete_id)
  then have d: "ct_pending ?t = ps" using Cons.prems(2) by (simp add: x)
  from Cons.IH [OF closing_accepted(2) [OF Cons.prems(1) p e] d]
  obtain v' where v': "accepts run_id ?v (synthesize_tool_failed_events_for_pending now run_id (pending_calls_of ?t)
      kind message) v'" "as_pending v' = []" "as_started v'" "\<not> as_terminal v'"
    by blast
  have "synthesize_tool_failed_events_for_pending now run_id (pending_calls_of t) kind message
    = ?e # synthesize_tool_failed_events_for_pending now run_id (pending_calls_of ?t) kind message"
    using new by (simp add: synthesize_tool_failed_events_for_pending_def pending_calls_of_def Cons.prems(2) x)
  with v' closing_accepted(1) [OF Cons.prems(1) p e] show ?case by (intro exI [of _ v']) simp
qed

lemma update_tracked:
  assumes "tracks t v" and "resolve_tool_update u t = Inr (t', p)"
  shows "tracks t' v" and "\<And>q. p = Some q \<Longrightarrow> t' = t \<and> map_of (ct_pending t) (qtu_tool_call_id u) = Some q"
proof -
  have "tracks (t\<lparr>ct_buffered := AList.update i (buffered_for t i @ [u]) (ct_buffered t)\<rparr>) v"
    if "i = qtu_tool_call_id u" for i
    using assms(1) that by (auto simp: tracks_def buffered_for_def AList.update_conv)
  with assms show "tracks t' v" by (auto simp: resolve_tool_update_def Let_def split: option.splits if_splits)
  show "\<And>q. p = Some q \<Longrightarrow> t' = t \<and> map_of (ct_pending t) (qtu_tool_call_id u) = Some q"
    using assms(2) by (auto simp: resolve_tool_update_def Let_def split: option.splits if_splits)
qed

lemma cleared_tracked: "tracks t v \<Longrightarrow> ct_pending t = [] \<Longrightarrow> tracks (clear_calls t) v"
  by (simp add: tracks_def clear_calls_def)

lemma outcome_accepted:
  assumes "as_pending v = []" and "as_started v" and "\<not> as_terminal v"
    and "is_terminal_event e" and "event_run_id e = run_id"
  shows "validate_run_event_incremental run_id v e = Inr (v\<lparr>as_terminal := True\<rparr>)"
  using assms by (cases e) (simp_all add: validate_run_event_incremental_def)

text \<open>Either the run goes on, with the same open calls, or it has had its outcome.\<close>

definition machine_agrees :: "machine_state \<Rightarrow> appender_state \<Rightarrow> bool" where
  "machine_agrees m v \<longleftrightarrow> (if snd m then as_terminal v else tracks (fst m) v)"

lemma step_accepted:
  assumes "tracker_step True ids fr m es m'" and "machine_agrees m v"
  shows "\<exists>v'. accepts (lf_run_id fr) v es v' \<and> machine_agrees m' v'"
  using assms
proof induction
  case (called b call now n t t' r)
  then have tr: "tracks t v" and b: "\<not> b" by (simp_all add: machine_agrees_def)
  from tr called.hyps(3) show ?case
  proof (cases rule: tool_call_tracked)
    case duplicate
    with tr b show ?thesis by (simp add: machine_agrees_def)
  next
    case (opened es v')
    with b show ?thesis by (intro exI [of _ v']) (simp add: machine_agrees_def)
  next
    case (corrected m es v')
    with b show ?thesis by (intro exI [of _ v']) (simp add: machine_agrees_def)
  next
    case (exhausted es kind m v')
    then have "ct_pending t' = []" using called.hyps(4) by simp
    with exhausted(3) have "as_pending v' = []" by (rule tracked_none)
    then have "validate_run_event_incremental (lf_run_id fr) v' (run_failure (lf_run_id fr) kind m)
        = Inr (v'\<lparr>as_terminal := True\<rparr>)"
      using exhausted(3) by (intro outcome_accepted) (simp_all add: tracks_def run_failure_def)
    with exhausted(1,2) show ?thesis by (simp add: machine_agrees_def)
  qed
next
  case (returned b now x t t' r)
  then have tr: "tracks t v" and b: "\<not> b" by (simp_all add: machine_agrees_def)
  from tr returned.hyps(2) show ?case
    by (cases rule: tool_result_tracked) (use b in \<open>auto simp: machine_agrees_def\<close>)
next
  case (updated b u t t' p now e)
  then have tr: "tracks t v" and b: "\<not> b" by (simp_all add: machine_agrees_def)
  note u = update_tracked [OF tr updated.hyps(2)]
  have "validate_run_event_incremental (lf_run_id fr) v e = Inr v"
    by (rule update_accepted [OF tr _ refl updated.hyps(3)]) (use u(2) in blast)
  with u(1) b show ?case by (simp add: machine_agrees_def)
next
  case (buffered u t t' p b)
  then show ?case using update_tracked(1) [OF _ buffered.hyps] by (auto simp: machine_agrees_def)
next
  case (answered b t i p now outcome metadata e)
  then have tr: "tracks t v" and b: "\<not> b" by (simp_all add: machine_agrees_def)
  have p: "map_of (ct_pending t) i = Some p" by (simp add: answered.hyps(2))
  note closed = closing_accepted [OF tr p succeeded_closes [OF answered.hyps(3)]]
  have "ct_pending (t\<lparr>ct_pending := AList.delete i (ct_pending t)\<rparr>) = []" by (simp add: answered.hyps(2))
  from cleared_tracked [OF closed(2) this] closed(1) b show ?case
    by (simp add: machine_agrees_def clear_calls_def)
next
  case (cleared t b)
  then show ?case by (auto simp: machine_agrees_def cleared_tracked)
next
  case (failed b t' t now kind message kind' message')
  then have "tracks t v" by (simp add: machine_agrees_def)
  from failures_accepted [OF this refl] obtain v' where v': "accepts (lf_run_id fr) v
      (synthesize_tool_failed_events_for_pending now (lf_run_id fr) (pending_calls_of t) kind message) v'"
    "as_pending v' = []" "as_started v'" "\<not> as_terminal v'"
    by blast
  have "validate_run_event_incremental (lf_run_id fr) v' (run_failure (lf_run_id fr) kind' message')
      = Inr (v'\<lparr>as_terminal := True\<rparr>)"
    by (rule outcome_accepted [OF v'(2-4)]) (simp_all add: run_failure_def)
  with v'(1) show ?case by (simp add: machine_agrees_def)
next
  case (succeeded b t e)
  then have tr: "tracks t v" by (simp add: machine_agrees_def)
  have "as_pending v = []" by (rule tracked_none [OF tr succeeded.hyps(2)])
  then have "validate_run_event_incremental (lf_run_id fr) v (Run_succeeded e) = Inr (v\<lparr>as_terminal := True\<rparr>)"
    using tr succeeded.hyps(3) by (intro outcome_accepted) (simp_all add: tracks_def)
  then show ?case by (simp add: machine_agrees_def)
qed (auto simp: machine_agrees_def neutral_accepted)

lemma run_accepted:
  assumes "tracker_run True ids fr m es m'" and "machine_agrees m v"
  shows "\<exists>v'. accepts (lf_run_id fr) v es v' \<and> machine_agrees m' v'"
  using assms
proof induction
  case none
  then show ?case by simp
next
  case (more m es m' es' m'')
  then obtain v' where v': "accepts (lf_run_id fr) v es v'" "machine_agrees m' v'" by blast
  from step_accepted [OF more.hyps(2) v'(2)] v'(1) show ?case by (blast intro: accepts_append)
qed

section \<open>The loop is the machine\<close>

definition advances ::
    "bool \<Rightarrow> string set \<Rightarrow> run_loop_frame \<Rightarrow> run_loop_state \<Rightarrow> bool \<Rightarrow> run_loop_state \<Rightarrow> bool \<Rightarrow> bool" where
  "advances strict ids fr s b s' b' \<longleftrightarrow>
     (\<exists>os. rl_output s' = rl_output s @ os
        \<and> tracker_run strict ids fr (rl_calls s, b) (events_of os) (rl_calls s', b'))"

lemma output_simps [simp]:
  "rl_output (put_out os s) = rl_output s @ os" "rl_calls (put_out os s) = rl_calls s"
  "rl_output (emit es s) = rl_output s @ map Yielded es" "rl_calls (emit es s) = rl_calls s"
  "rl_calls (sink fr ms s) = rl_calls s"
  by (simp_all add: put_out_def emit_def sink_def)

lemma advances_same:
  assumes "rl_calls s' = rl_calls s" and "rl_output s' = rl_output s @ os" and "events_of os = []"
  shows "advances strict ids fr s b s' b"
  using assms by (auto simp: advances_def intro: tracker_run.none)

lemma advances_step:
  assumes "tracker_step strict ids fr (rl_calls s, b) es (rl_calls s', b')" and "rl_output s' = rl_output s @ os"
    and "events_of os = es"
  shows "advances strict ids fr s b s' b'"
  using assms tracker_run_step by (fastforce simp: advances_def)

lemma advances_trans:
  assumes "advances strict ids fr s b s' b'" and "advances strict ids fr s' b' s'' b''"
  shows "advances strict ids fr s b s'' b''"
proof -
  obtain os where os: "rl_output s' = rl_output s @ os"
    "tracker_run strict ids fr (rl_calls s, b) (events_of os) (rl_calls s', b')"
    using assms(1) by (auto simp: advances_def)
  obtain os' where os': "rl_output s'' = rl_output s' @ os'"
    "tracker_run strict ids fr (rl_calls s', b') (events_of os') (rl_calls s'', b'')"
    using assms(2) by (auto simp: advances_def)
  from tracker_run_trans [OF os(2) os'(2)] os(1) os'(1) show ?thesis
    by (auto simp: advances_def intro!: exI [of _ "os @ os'"])
qed

lemma sink_advances: "advances strict ids fr s b (sink fr' ms s) b"
  by (cases "lf_sink fr'") (auto simp: sink_def intro: advances_same [of _ _ "[]"] advances_same [of _ _ "[Sunk ms]"])

lemma leave_tools_advances: "advances strict ids fr s b (leave_tools s) b"
  by (cases "rl_steer_active s")
    (auto simp: leave_tools_def intro: advances_same [of _ _ "[]"] advances_same [of _ _ "[Steer_deactivated]"])

lemma submit_advances: "advances strict ids fr s b (submit_if_ready s) b"
  by (cases "rl_steer_active s \<and> \<not> rl_steer_submitted s \<and> ct_pending (rl_calls s) = []")
    (auto simp: submit_if_ready_def intro: advances_same [of _ _ "[]"] advances_same [of _ _ "[Steer_submitted]"])

lemma enter_tools_advances: "advances strict ids fr s b (enter_tools fr' calls s) b"
  by (cases "lf_steer fr' \<and> calls")
    (auto simp: enter_tools_def Let_def intro: advances_same [of _ _ "[]"] advances_same [of _ _ "[Steer_activated]"])

text \<open>
  A clean step: an exception leaves the tracked calls alone, and the end of the run comes when no call is
  open. An orderly one: corrections and compactions come when no call is open, too.
\<close>

definition clean_stop :: "run_loop_state \<Rightarrow> run_loop_state \<Rightarrow> loop_stop option \<Rightarrow> bool" where
  "clean_stop s s' stop \<longleftrightarrow>
     (case stop of
        Some (Stop_error _) \<Rightarrow> rl_calls s' = rl_calls s
      | Some Stop_return \<Rightarrow> ct_pending (rl_calls s') = []
      | _ \<Rightarrow> True)"

definition orderly_stop :: "run_loop_state \<Rightarrow> run_loop_state \<Rightarrow> loop_stop option \<Rightarrow> bool" where
  "orderly_stop s s' stop \<longleftrightarrow> clean_stop s s' stop
     \<and> (case stop of
          Some (Stop_correct _) \<Rightarrow> ct_pending (rl_calls s') = []
        | Some Stop_compact \<Rightarrow> ct_pending (rl_calls s') = []
        | _ \<Rightarrow> True)"

fun clean_steps ::
    "run_loop_frame \<Rightarrow> (model_message list \<times> int \<times> graph_step) list \<Rightarrow> run_loop_state \<Rightarrow> bool" where
  "clean_steps fr [] s = True"
| "clean_steps fr (x # xs) s =
     (case run_step fr x s of (s', stop) \<Rightarrow>
        clean_stop s s' stop \<and> (stop = None \<longrightarrow> clean_steps fr xs s'))"

fun orderly_steps ::
    "run_loop_frame \<Rightarrow> (model_message list \<times> int \<times> graph_step) list \<Rightarrow> run_loop_state \<Rightarrow> bool" where
  "orderly_steps fr [] s = True"
| "orderly_steps fr (x # xs) s =
     (case run_step fr x s of (s', stop) \<Rightarrow>
        orderly_stop s s' stop \<and> (stop = None \<longrightarrow> orderly_steps fr xs s'))"

lemma orderly_clean: "orderly_steps fr xs s \<Longrightarrow> clean_steps fr xs s"
  by (induction xs arbitrary: s) (auto simp: orderly_stop_def split: prod.splits)

text \<open>The ids an attempt gives its calls.\<close>

definition step_calls :: "model_message list \<times> int \<times> graph_step \<Rightarrow> string set" where
  "step_calls x = (case snd (snd x) of Tool_called call \<Rightarrow> {fc_tool_call_id call} | _ \<Rightarrow> {})"

definition attempt_calls :: "attempt \<Rightarrow> string set" where
  "attempt_calls a = (\<Union>x \<in> set (at_steps a). step_calls x)"

definition orderly_attempt :: "run_loop_frame \<Rightarrow> attempt \<Rightarrow> run_loop_state \<Rightarrow> bool" where
  "orderly_attempt fr a s \<longleftrightarrow>
     orderly_steps fr (at_steps a) (begin_attempt s)
     \<and> (\<forall>s' x. run_attempt_steps fr (at_steps a) (begin_attempt s) = (s', Some (Stop_return, x))
          \<longrightarrow> at_closing a = None)"

fun orderly_run :: "run_loop_frame \<Rightarrow> (nat \<Rightarrow> attempt) \<Rightarrow> nat \<Rightarrow> nat \<Rightarrow> run_loop_state \<Rightarrow> bool" where
  "orderly_run fr agent k 0 s = True"
| "orderly_run fr agent k (Suc fuel) s \<longleftrightarrow>
     orderly_attempt fr (agent k) s \<and>
     (case run_attempt fr (agent k) s of
        (s', Attempt_restarted) \<Rightarrow> orderly_run fr agent (Suc k) fuel s'
      | _ \<Rightarrow> True)"

lemma neutral_emitted:
  assumes "strict \<longrightarrow> \<not> b" and "neutral_event (lf_run_id fr) e" and "rl_calls s' = rl_calls s"
    and "rl_output s' = rl_output s @ [Yielded e]"
  shows "advances strict ids fr s b s' b"
  using assms by (intro advances_step [of strict ids fr s b "[e]" s' b "[Yielded e]"]) (simp_all add: tracker_step.neutral)

lemma stream_text_advances:
  assumes "strict \<longrightarrow> \<not> b"
  shows "advances strict ids fr s b (stream_text fr e s) b"
proof (cases "extract_text_delta e")
  case None
  then show ?thesis by (intro advances_same [of _ _ "[]"]) (simp_all add: stream_text_def)
next
  case (Some d)
  then show ?thesis
    by (intro neutral_emitted [OF assms, where e = "Assistant_text_delta \<lparr>ev_run_id = lf_run_id fr, ev_delta = d\<rparr>"])
      (simp_all add: stream_text_def neutral_event_def)
qed

lemma question_advances:
  assumes "strict \<longrightarrow> \<not> b" and "ask_question fr q s = (s', stop)"
  shows "advances strict ids fr s b s' b" and "stop \<noteq> Some Stop_return" and "rl_calls s' = rl_calls s"
proof -
  let ?e = "Onboarding_question_requested (onboarding_question_from_request (lf_run_id fr) q)"
  have s': "s' = emit [?e] s" and "stop \<noteq> Some Stop_return"
    using assms(2) by (auto simp: ask_question_def Let_def split: option.splits sum.splits)
  then show "stop \<noteq> Some Stop_return" "rl_calls s' = rl_calls s" by simp_all
  show "advances strict ids fr s b s' b" unfolding s'
    by (rule neutral_emitted [OF assms(1), where e = ?e])
      (simp_all add: neutral_event_def onboarding_question_from_request_def)
qed

lemma approval_advances:
  assumes "strict \<longrightarrow> \<not> b" and "ask_approval fr q i n s = (s', stop)"
  shows "advances strict ids fr s b s' b" and "stop \<noteq> Some Stop_return" and "rl_calls s' = rl_calls s"
proof -
  let ?e = "Approval_requested \<lparr>ev_run_id = lf_run_id fr, ev_request = q, ev_request_tool_name = n,
    ev_request_tool_call_id = i\<rparr>"
  let ?r = "\<lambda>d. Approval_resolved \<lparr>ev_run_id = lf_run_id fr, ev_decision = d\<rparr>"
  have *: "advances strict ids fr s b s' b \<and> stop \<noteq> Some Stop_return \<and> rl_calls s' = rl_calls s"
  proof (cases "s' = s")
    case True
    then show ?thesis using assms(2)
      by (auto simp: ask_approval_def Let_def intro: advances_same [of _ _ "[]"] split: if_splits option.splits sum.splits)
  next
    case False
    then consider "s' = emit [?e] s" "stop \<noteq> Some Stop_return"
      | d where "rl_calls s' = rl_calls s" "rl_output s' = rl_output (emit [?r d] (emit [?e] s))" "stop = None"
      using assms(2) by (auto simp: ask_approval_def Let_def split: if_splits option.splits sum.splits)
    moreover have "advances strict ids fr s b (emit [?e] s) b"
      by (rule neutral_emitted [OF assms(1), where e = ?e]) (simp_all add: neutral_event_def)
    moreover have "advances strict ids fr (emit [?e] s) b s' b"
      if "rl_calls s' = rl_calls s" "rl_output s' = rl_output (emit [?r d] (emit [?e] s))" for d
      by (rule neutral_emitted [OF assms(1), where e = "?r d"]) (use that in \<open>simp_all add: neutral_event_def\<close>)
    ultimately show ?thesis by (cases, simp, blast intro: advances_trans)
  qed
  from * show "advances strict ids fr s b s' b" "stop \<noteq> Some Stop_return" "rl_calls s' = rl_calls s" by blast+
qed

text \<open>What a step gives: the machine advances, to the outcome of the run exactly when the step returns.\<close>

definition stepped_to ::
    "bool \<Rightarrow> string set \<Rightarrow> run_loop_frame \<Rightarrow> run_loop_state \<Rightarrow> bool \<Rightarrow> run_loop_state \<Rightarrow> loop_stop option \<Rightarrow> bool" where
  "stepped_to strict ids fr s b s' stop \<longleftrightarrow> advances strict ids fr s b s' (b \<or> stop = Some Stop_return)"

lemma called_advances:
  assumes "strict \<longrightarrow> \<not> b" and "tool_called fr now call s = (s', stop)" and "strict \<longrightarrow> clean_stop s s' stop"
    and "fc_tool_call_id call \<in> ids"
  shows "stepped_to strict ids fr s b s' stop"
proof -
  obtain t r where p: "process_tool_call_event (lf_loads fr) (lf_validate fr) now (lf_run_id fr) (lf_available fr)
      (rl_corrections s) call (rl_calls s) = (t, r)"
    by (cases "process_tool_call_event (lf_loads fr) (lf_validate fr) now (lf_run_id fr) (lf_available fr)
      (rl_corrections s) call (rl_calls s)")
  show ?thesis
  proof (cases r)
    case (Inl e)
    with p assms(2) have s': "s' = s\<lparr>rl_saw := True, rl_calls := t\<rparr>" "stop = Some (Stop_error (Tracking_failed e))"
      by (simp_all add: tool_called_def Let_def)
    with assms(3) have "strict \<longrightarrow> t = rl_calls s" by (simp add: clean_stop_def)
    from tracker_step.call_broken [OF assms(4) p [unfolded Inl] this] show ?thesis
      unfolding stepped_to_def by (intro advances_step [of _ _ _ _ _ "[]" _ _ "[]"]) (simp_all add: s')
  next
    case (Inr x)
    have calls: "rl_calls s' = t" and out: "rl_output s' = rl_output s @ map Yielded (call_events x)"
      and ret: "stop = Some Stop_return \<longleftrightarrow> ends_run x"
      using p assms(2) Inr by (auto simp: tool_called_def Let_def split: tool_call_result.splits)
    have "strict \<longrightarrow> ends_run x \<longrightarrow> ct_pending t = []"
      using assms(3) ret calls by (auto simp: clean_stop_def)
    from tracker_step.called [OF assms(1,4) p [unfolded Inr] this] show ?thesis
      unfolding stepped_to_def ret by (intro advances_step [OF _ out]) (simp_all add: calls)
  qed
qed

lemma returned_advances:
  assumes "strict \<longrightarrow> \<not> b" and "tool_returned fr now x s = (s', stop)" and "strict \<longrightarrow> clean_stop s s' stop"
  shows "stepped_to strict ids fr s b s' stop" and "stop \<noteq> Some Stop_return"
proof -
  obtain t r where p: "process_tool_result_event (lf_validate fr) now (lf_run_id fr) x (rl_calls s) = (t, r)"
    by (cases "process_tool_result_event (lf_validate fr) now (lf_run_id fr) x (rl_calls s)")
  show ret: "stop \<noteq> Some Stop_return"
    using p assms(2) by (auto simp: tool_returned_def Let_def split: sum.splits tool_result_outcome.splits)
  have "advances strict ids fr s b s' b"
  proof (cases r)
    case (Inl e)
    with p assms(2) have s': "s' = s\<lparr>rl_saw := True, rl_calls := t\<rparr>" "stop = Some (Stop_error (Tracking_failed e))"
      by (simp_all add: tool_returned_def Let_def)
    with assms(3) have "strict \<longrightarrow> t = rl_calls s" by (simp add: clean_stop_def)
    from tracker_step.result_broken [OF p [unfolded Inl] this] show ?thesis
      by (intro advances_step [of _ _ _ _ _ "[]" _ _ "[]"]) (simp_all add: s')
  next
    case (Inr y)
    let ?s = "emit (result_events y) (s\<lparr>rl_saw := True, rl_calls := t\<rparr>)"
    have s': "s' = submit_if_ready ?s"
      using p assms(2) Inr by (auto simp: tool_returned_def Let_def split: tool_result_outcome.splits)
    have "advances strict ids fr s b ?s b"
      using tracker_step.returned [OF assms(1) p [unfolded Inr]] by (intro advances_step) simp_all
    then show ?thesis unfolding s' by (rule advances_trans [OF _ submit_advances])
  qed
  with ret show "stepped_to strict ids fr s b s' stop" by (simp add: stepped_to_def)
qed

lemma updated_advances:
  assumes "strict \<longrightarrow> \<not> b" and "tool_updated fr now u s = (s', stop)"
  shows "stepped_to strict ids fr s b s' stop"
proof -
  have ret: "stop \<noteq> Some Stop_return"
    using assms(2) by (auto simp: tool_updated_def split: sum.splits option.splits prod.splits)
  have "advances strict ids fr s b s' b"
  proof (cases "resolve_tool_update u (rl_calls s)")
    case (Inl e)
    then show ?thesis using assms(2) by (intro advances_same [of _ _ "[]"]) (auto simp: tool_updated_def)
  next
    case (Inr x)
    obtain t p where x: "x = (t, p)" by (cases x)
    show ?thesis
    proof (cases "rl_output s' = rl_output s")
      case True
      then have "rl_calls s' = t" using assms(2) Inr x
        by (auto simp: tool_updated_def split: sum.splits option.splits)
      with True tracker_step.buffered [OF Inr [unfolded x]] show ?thesis
        by (intro advances_step [of _ _ _ _ _ "[]" _ _ "[]"]) simp_all
    next
      case False
      then obtain q e where q: "p = Some q" and e: "build_tool_updated_event (lf_validate fr) now (lf_run_id fr) u q = Inr e"
        and s': "s' = emit [e] (s\<lparr>rl_calls := t\<rparr>)"
        using assms(2) Inr x by (auto simp: tool_updated_def split: sum.splits option.splits)
      from tracker_step.updated [OF assms(1) Inr [unfolded x q] e] show ?thesis
        by (intro advances_step [of _ _ _ _ _ "[e]" _ _ "[Yielded e]"]) (simp_all add: s')
    qed
  qed
  with ret show ?thesis by (simp add: stepped_to_def)
qed

lemma step_advances:
  assumes "strict \<longrightarrow> \<not> b" and "run_step fr x s = (s', stop)" and "strict \<longrightarrow> clean_stop s s' stop"
    and "step_calls x \<subseteq> ids"
  shows "stepped_to strict ids fr s b s' stop"
proof -
  obtain captured now step where x: "x = (captured, now, step)" by (cases x)
  have same: "stepped_to strict ids fr s b s' stop"
    if "rl_calls s' = rl_calls s" "rl_output s' = rl_output s" "stop \<noteq> Some Stop_return"
    using that by (auto simp: stepped_to_def intro: advances_same [of _ _ "[]"])
  have plain: "stepped_to strict ids fr s b s' stop" if "advances strict ids fr s b s' b" "stop \<noteq> Some Stop_return"
    using that by (simp add: stepped_to_def)
  show ?thesis
  proof (cases step)
    case Model_requested
    then show ?thesis using assms(2)
      by (intro same) (auto simp: run_step_def x request_model_def Let_def split: if_splits)
  next
    case (Streamed e)
    then show ?thesis using assms(2) stream_text_advances [OF assms(1), where s = s and e = e]
      by (intro plain) (auto simp: run_step_def x)
  next
    case (Response_captured usage)
    then show ?thesis using assms(2)
      by (intro same) (auto simp: run_step_def x note_usage_def split: if_splits option.splits)
  next
    case Response_missing
    then show ?thesis using assms(2) by (intro same) (auto simp: run_step_def x)
  next
    case (Tools_entered has)
    then show ?thesis using assms(2) enter_tools_advances by (intro plain) (auto simp: run_step_def x)
  next
    case (Tool_called call)
    then show ?thesis using assms by (intro called_advances) (auto simp: run_step_def x step_calls_def)
  next
    case (Tool_returned r)
    then show ?thesis using assms by (intro returned_advances(1)) (auto simp: run_step_def x)
  next
    case Tool_stream_other
    then show ?thesis using assms(2) by (intro same) (auto simp: run_step_def x)
  next
    case (Update_queued u)
    then show ?thesis using assms by (intro updated_advances) (auto simp: run_step_def x)
  next
    case (Approval_queued q i n)
    then have "ask_approval fr q i n s = (s', stop)" using assms(2) by (simp add: run_step_def x)
    from approval_advances [OF assms(1) this] show ?thesis by (intro plain)
  next
    case (Question_queued q)
    then have "ask_question fr q s = (s', stop)" using assms(2) by (simp add: run_step_def x)
    from question_advances [OF assms(1) this] show ?thesis by (intro plain)
  next
    case Tools_left
    then show ?thesis using assms(2) leave_tools_advances by (intro plain) (auto simp: run_step_def x)
  qed
qed

lemma steps_advance:
  assumes "strict \<longrightarrow> \<not> b" and "run_attempt_steps fr xs s = (s', stop)" and "strict \<longrightarrow> clean_steps fr xs s"
    and "\<forall>x \<in> set xs. step_calls x \<subseteq> ids"
  shows "stepped_to strict ids fr s b s' (map_option fst stop)"
  using assms
proof (induction xs arbitrary: s)
  case Nil
  then show ?case by (auto simp: stepped_to_def intro: advances_same [of _ _ "[]"])
next
  case (Cons x xs)
  obtain s1 st where one: "run_step fr x s = (s1, st)" by (cases "run_step fr x s")
  have o: "strict \<longrightarrow> clean_stop s s1 st" using Cons.prems(3) one by simp
  note adv = step_advances [OF Cons.prems(1) one o, of ids]
  show ?case
  proof (cases st)
    case None
    then have "run_attempt_steps fr xs s1 = (s', stop)" and "strict \<longrightarrow> clean_steps fr xs s1"
      using Cons.prems(2,3) one by simp_all
    from Cons.IH [OF Cons.prems(1) this] Cons.prems(4) adv None show ?thesis
      by (auto simp: stepped_to_def intro: advances_trans)
  next
    case (Some y)
    then have "s' = leave_tools s1" and "map_option fst stop = st" using Cons.prems(2) one by auto
    with adv leave_tools_advances Cons.prems(4) show ?thesis by (auto simp: stepped_to_def intro: advances_trans)
  qed
qed

lemma leave_tools_calls [simp]: "rl_calls (leave_tools s) = rl_calls s"
  by (simp add: leave_tools_def)

lemma begin_attempt_simps [simp]:
  "rl_calls (begin_attempt s) = rl_calls s" "rl_output (begin_attempt s) = rl_output s"
  "rl_history (begin_attempt s) = rl_history s" "rl_carried (begin_attempt s) = rl_carried s"
  by (simp_all add: begin_attempt_def)

lemma orderly_end:
  assumes "run_attempt_steps fr xs s = (s', Some (stop, y))" and "orderly_steps fr xs s"
    and "\<forall>f. stop \<noteq> Stop_error f"
  shows "ct_pending (rl_calls s') = []"
  using assms
proof (induction xs arbitrary: s)
  case (Cons x xs)
  then show ?case
    by (cases "snd (run_step fr x s)")
      (auto simp: orderly_stop_def clean_stop_def split: prod.splits loop_stop.splits)
qed simp

lemma carry_attempt_advances:
  assumes "strict \<longrightarrow> ct_pending (rl_calls s) = []"
  shows "advances strict ids fr s b (carry_attempt ms s) b"
  using tracker_step.cleared [OF assms]
  by (intro advances_step [of _ _ _ _ _ "[]" _ _ "[]"]) (simp_all add: carry_attempt_def Let_def)

lemma compact_advances:
  assumes "strict \<longrightarrow> \<not> b" and "strict \<longrightarrow> ct_pending (rl_calls s) = []"
  shows "advances strict ids fr s b (compact_live_history fr captured s) b"
proof (cases "attempt_in_run_compaction fr (live_messages s captured) (rl_synthetic s)")
  case None
  then show ?thesis by (intro advances_same [of _ _ "[]"]) (simp_all add: compact_live_history_def)
next
  case (Some c)
  let ?s = "s\<lparr>rl_history := iro_message_history c, rl_synthetic := iro_synthetic_prompt_counts c,
    rl_carried := iro_message_history c, rl_prompt := iro_prompt c, rl_calls := clear_calls (rl_calls s),
    rl_recoveries := 0, rl_usage := None\<rparr>"
  have "advances strict ids fr s b ?s b"
    using tracker_step.cleared [OF assms(2)] by (intro advances_step [of _ _ _ _ _ "[]" _ _ "[]"]) simp_all
  moreover have "neutral_event (lf_run_id fr) (iro_event c)"
    using Some by (auto simp: attempt_in_run_compaction_def Let_def neutral_event_def split: sum.splits)
  then have "advances strict ids fr ?s b (emit [iro_event c] ?s) b"
    by (intro neutral_emitted [OF assms(1), where e = "iro_event c"]) simp_all
  ultimately have "advances strict ids fr s b (emit [iro_event c] ?s) b" by (rule advances_trans)
  then show ?thesis by (simp add: compact_live_history_def Some)
qed

lemma fail_run_advances:
  assumes "strict \<longrightarrow> \<not> b" and "fail_run fr count now captured f s = (s', r)"
  shows "advances strict ids fr s b s' True" and "r = Run_returned"
proof -
  obtain kind message where t: "failure_text fr f = (kind, message)" by (cases "failure_text fr f")
  let ?es = "synthesize_tool_failed_events_for_pending now (lf_run_id fr) (pending_calls_of (rl_calls s)) kind message"
  from assms(2) t show "r = Run_returned" by (simp add: fail_run_def Let_def)
  obtain os where "rl_output s' = rl_output s @ os" "events_of os = ?es @ [run_failure (lf_run_id fr) kind message]"
    using assms(2) t by (cases "lf_sink fr") (auto simp: fail_run_def Let_def fail_pending_def sink_def)
  moreover have "rl_calls s' = rl_calls s" using assms(2) t by (auto simp: fail_run_def Let_def fail_pending_def)
  ultimately show "advances strict ids fr s b s' True"
    using tracker_step.failed [OF assms(1)] by (intro advances_step) simp_all
qed

lemma answer_advances:
  assumes "strict \<longrightarrow> \<not> b" and "ct_pending (rl_calls s) = [(i, p)]"
    and "answer_with_failure fr now captured e op i p s = (s', r)"
  shows "advances strict ids fr s b s' b" and "r \<noteq> Run_returned"
proof -
  let ?x = "operational_result e op"
  have *: "advances strict ids fr s b s' b \<and> r \<noteq> Run_returned"
  proof (cases "succeeded_event (lf_validate fr) now (lf_run_id fr) i p ?x JNull")
    case (Inl x)
    then show ?thesis using assms(3)
      by (auto simp: answer_with_failure_def Let_def intro: advances_same [of _ _ "[]"])
  next
    case (Inr event)
    then have "rl_calls s' = clear_calls (rl_calls s)" "rl_output s' = rl_output s @ [Yielded event]"
      "r = Attempt_restarted"
      using assms(3) by (auto simp: answer_with_failure_def Let_def carry_attempt_def)
    with tracker_step.answered [OF assms(1,2) Inr] show ?thesis
      by (auto intro: advances_step [of _ _ _ _ _ "[event]" _ _ "[Yielded event]"])
  qed
  then show "advances strict ids fr s b s' b" "r \<noteq> Run_returned" by blast+
qed

definition ended_well ::
    "bool \<Rightarrow> string set \<Rightarrow> run_loop_frame \<Rightarrow> run_loop_state \<Rightarrow> bool \<Rightarrow> run_loop_state \<Rightarrow> attempt_result \<Rightarrow> bool" where
  "ended_well strict ids fr s b s' r \<longleftrightarrow>
     (\<exists>b'. advances strict ids fr s b s' b' \<and> (r = Attempt_restarted \<longrightarrow> b' = b) \<and> (r = Run_returned \<longrightarrow> b'))"

lemma ended_wellI:
  "advances strict ids fr s b s' b' \<Longrightarrow> (r = Attempt_restarted \<Longrightarrow> b' = b) \<Longrightarrow> (r = Run_returned \<Longrightarrow> b')
    \<Longrightarrow> ended_well strict ids fr s b s' r"
  by (auto simp: ended_well_def)

lemma ended_after:
  "advances strict ids fr s b s1 b \<Longrightarrow> ended_well strict ids fr s1 b s' r \<Longrightarrow> ended_well strict ids fr s b s' r"
  by (auto simp: ended_well_def intro: advances_trans)

lemma error_ends:
  assumes "strict \<longrightarrow> \<not> b" and "handle_error fr now captured f s = (s', r)"
  shows "ended_well strict ids fr s b s' r"
proof -
  let ?count = "length (rl_history s)"
  consider (failing) "fail_run fr ?count now captured f s = (s', r)"
    | (again) ms where "s' = sink fr ms (s\<lparr>rl_recoveries := rl_recoveries s + 1\<rparr>)" "r = Attempt_restarted"
    | (answering) e i p op s1 ms where "ct_pending (rl_calls s) = [(i, p)]"
        "answer_with_failure fr now captured e op i p s = (s1, r)" "s' = sink fr ms s1"
    using assms(2) by (auto simp: handle_error_def Let_def split: option.splits list.splits if_splits prod.splits)
  then show ?thesis
  proof cases
    case failing
    from fail_run_advances [OF assms(1) this] show ?thesis by (intro ended_wellI) simp_all
  next
    case again
    have "advances strict ids fr s b (s\<lparr>rl_recoveries := rl_recoveries s + 1\<rparr>) b"
      by (intro advances_same [of _ _ "[]"]) simp_all
    from advances_trans [OF this sink_advances] again show ?thesis by (intro ended_wellI) simp_all
  next
    case answering
    note a = answer_advances [OF assms(1) answering(1,2)]
    from advances_trans [OF a(1) sink_advances] a(2) answering(3) show ?thesis by (intro ended_wellI) simp_all
  qed
qed

lemma graph_ends:
  assumes "strict \<longrightarrow> \<not> b" and "finish_graph fr a out new usage s = (s', r)"
  shows "ended_well strict ids fr s b s' r"
proof (cases out)
  case Output_other
  with assms(2) show ?thesis by (intro error_ends [OF assms(1)]) (auto simp: finish_graph_def)
next
  case Output_missing
  with assms(2) show ?thesis by (intro error_ends [OF assms(1)]) (auto simp: finish_graph_def)
next
  case (Output_text answer)
  let ?s = "sink fr (rl_carried s @ new) s"
  have left: "leave_after_outcome a \<noteq> Attempt_restarted" by (auto simp: leave_after_outcome_def split: option.splits)
  have "ended_well strict ids fr ?s b s' r"
  proof (cases "ct_pending (rl_calls s) = []")
    case False
    let ?kind = "lit ''SessionFormatError''"
    let ?es = "synthesize_tool_failed_events_for_pending (at_now a) (lf_run_id fr) (pending_calls_of (rl_calls s)) ?kind
      unresolved_message @ [run_failure (lf_run_id fr) ?kind unresolved_message]"
    from False assms(2) Output_text have out: "rl_output s' = rl_output ?s @ map Yielded ?es"
      and calls: "rl_calls s' = clear_calls (rl_calls s)" and r: "r = leave_after_outcome a"
      by (auto simp: finish_graph_def Let_def fail_pending_def)
    have "advances strict ids fr ?s b s' True"
      using tracker_step.failed [OF assms(1)] by (intro advances_step [OF _ out]) (simp_all add: calls)
    with left r show ?thesis by (intro ended_wellI) simp_all
  next
    case True
    show ?thesis
    proof (cases "raise_if_buffered_tool_updates_remain (rl_calls s)")
      case (Inl e)
      with True assms(2) Output_text have "s' = ?s" "r = Run_escaped Raised_after_outcome"
        by (auto simp: finish_graph_def Let_def)
      then show ?thesis by (intro ended_wellI [where b' = b] advances_same [of _ _ "[]"]) simp_all
    next
      case (Inr u)
      let ?e = "Run_succeeded (build_run_succeeded_event fr answer usage)"
      from Inr True assms(2) Output_text have s': "s' = emit [?e] ?s" "r = leave_after_outcome a"
        by (auto simp: finish_graph_def Let_def)
      have "ev_run_id (build_run_succeeded_event fr answer usage) = lf_run_id fr"
        by (simp add: build_run_succeeded_event_def)
      from tracker_step.succeeded [OF assms(1) True this]
      have "advances strict ids fr ?s b s' True"
        by (intro advances_step [of _ _ _ _ _ "[?e]" _ _ "[Yielded ?e]"]) (simp_all add: s')
      with left s'(2) show ?thesis by (intro ended_wellI) simp_all
    qed
  qed
  then show ?thesis by (rule ended_after [OF sink_advances])
qed

lemma corrected_advances:
  assumes "strict \<longrightarrow> ct_pending (rl_calls s) = []"
  shows "advances strict ids fr s b (restart_with_correction m captured s) b"
proof -
  let ?s = "carry_attempt (attempt_messages s captured) s"
  have "advances strict ids fr ?s b (restart_with_correction m captured s) b"
    by (intro advances_same [of _ _ "[]"]) (simp_all add: restart_with_correction_def)
  with carry_attempt_advances [OF assms] show ?thesis by (rule advances_trans)
qed

lemma stop_ends:
  assumes "strict \<longrightarrow> \<not> b" and "handle_stop fr a (stop, captured, now) s = (s', r)"
    and "strict \<longrightarrow> (\<forall>f. stop \<noteq> Stop_error f) \<longrightarrow> ct_pending (rl_calls s) = []"
    and "strict \<longrightarrow> stop \<noteq> Stop_return"
  shows "\<exists>b'. advances strict ids fr s b s' b' \<and> (strict \<longrightarrow> (r = Attempt_restarted \<longrightarrow> \<not> b') \<and> (r = Run_returned \<longrightarrow> b'))"
proof -
  have wide: ?thesis if "ended_well strict ids fr s b s' r" using that assms(1) by (auto simp: ended_well_def)
  show ?thesis
  proof (cases stop)
    case Stop_compact
    then show ?thesis using assms compact_advances [OF assms(1), where s = s and captured = captured]
      by (auto simp: handle_stop_def)
  next
    case (Stop_correct m)
    let ?s = "restart_with_correction m captured s"
    from Stop_correct assms(2) obtain ms where "s' = sink fr ms ?s" "r = Attempt_restarted"
      by (auto simp: handle_stop_def Let_def)
    moreover have "strict \<longrightarrow> ct_pending (rl_calls s) = []" using assms(3) Stop_correct by simp
    ultimately show ?thesis
      using corrected_advances [of strict s ids fr b m captured] assms(1) by (blast intro: advances_trans sink_advances)
  next
    case (Stop_error f)
    then have "handle_error fr now captured f s = (s', r)" using assms(2) by (simp add: handle_stop_def Let_def)
    from wide [OF error_ends [OF assms(1) this]] show ?thesis .
  next
    case Stop_return
    then have loose: "\<not> strict" using assms(4) by blast
    show ?thesis
    proof (cases "at_closing a")
      case None
      then obtain ms where "s' = sink fr ms s" using Stop_return assms(2) by (auto simp: handle_stop_def Let_def)
      then show ?thesis using loose sink_advances by blast
    next
      case (Some e)
      then have "handle_error fr (at_now a) (at_captured a) (Agent_failed e) s = (s', r)"
        using Stop_return assms(2) by (simp add: handle_stop_def Let_def)
      from wide [OF error_ends [OF assms(1) this]] show ?thesis .
    qed
  qed
qed

lemma attempt_advances:
  assumes "strict \<longrightarrow> \<not> b" and "run_attempt fr a s = (s', r)" and "strict \<longrightarrow> orderly_attempt fr a s"
    and "attempt_calls a \<subseteq> ids"
  shows "\<exists>b'. advances strict ids fr s b s' b' \<and> (strict \<longrightarrow> (r = Attempt_restarted \<longrightarrow> \<not> b') \<and> (r = Run_returned \<longrightarrow> b'))"
proof -
  obtain s1 stop where st: "run_attempt_steps fr (at_steps a) (begin_attempt s) = (s1, stop)"
    by (cases "run_attempt_steps fr (at_steps a) (begin_attempt s)")
  have o: "strict \<longrightarrow> orderly_steps fr (at_steps a) (begin_attempt s)" using assms(3) by (simp add: orderly_attempt_def)
  then have c: "strict \<longrightarrow> clean_steps fr (at_steps a) (begin_attempt s)" using orderly_clean by blast
  have ids: "\<forall>x \<in> set (at_steps a). step_calls x \<subseteq> ids" using assms(4) by (auto simp: attempt_calls_def)
  have "advances strict ids fr s b (begin_attempt s) b" by (intro advances_same [of _ _ "[]"]) simp_all
  from advances_trans [OF this steps_advance [OF assms(1) st c ids, unfolded stepped_to_def]]
  have adv: "advances strict ids fr s b s1 (b \<or> map_option fst stop = Some Stop_return)" .
  show ?thesis
  proof (cases stop)
    case None
    let ?s = "leave_tools s1"
    have l: "advances strict ids fr s b ?s b"
      using advances_trans [OF adv leave_tools_advances] None by simp
    have "ended_well strict ids fr s b s' r \<or> (\<exists>b'. advances strict ids fr s b s' b' \<and> r \<noteq> Attempt_restarted \<and> r \<noteq> Run_returned)"
    proof (cases "at_end a")
      case (Graph_finished out new usage)
      then have "finish_graph fr a out new usage ?s = (s', r)" using assms(2) st None by (simp add: run_attempt_def Let_def)
      from ended_after [OF l graph_ends [OF assms(1) this]] show ?thesis by blast
    next
      case (Graph_failed e)
      then have "handle_error fr (at_now a) (at_captured a) (Agent_failed e) ?s = (s', r)"
        using assms(2) st None by (simp add: run_attempt_def Let_def)
      from ended_after [OF l error_ends [OF assms(1) this]] show ?thesis by blast
    next
      case (Graph_cancelled kind m)
      then have "s' = sink fr (captured_in_attempt (length (rl_history ?s)) ?s (at_captured a)) ?s"
        and "r = Run_cancelled_through kind m"
        using assms(2) st None by (simp_all add: run_attempt_def Let_def)
      then show ?thesis using advances_trans [OF l sink_advances] by auto
    qed
    then show ?thesis using assms(1) by (auto simp: ended_well_def)
  next
    case (Some x)
    obtain why captured now where x: "x = (why, captured, now)" by (cases x)
    have h: "handle_stop fr a (why, captured, now) s1 = (s', r)"
      using assms(2) st Some x by (simp add: run_attempt_def)
    have pending: "strict \<longrightarrow> (\<forall>f. why \<noteq> Stop_error f) \<longrightarrow> ct_pending (rl_calls s1) = []"
      using orderly_end [OF st [unfolded Some x]] o by blast
    show ?thesis
    proof (cases "why = Stop_return \<and> strict")
      case False
      then have ret: "strict \<longrightarrow> why \<noteq> Stop_return" by blast
      have "strict \<longrightarrow> \<not> (b \<or> map_option fst stop = Some Stop_return)"
        using assms(1) False by (auto simp: Some x)
      from stop_ends [OF this h pending ret]
      obtain b' where "advances strict ids fr s1 (b \<or> map_option fst stop = Some Stop_return) s' b'"
        and b': "strict \<longrightarrow> (r = Attempt_restarted \<longrightarrow> \<not> b') \<and> (r = Run_returned \<longrightarrow> b')" by blast
      with adv have "advances strict ids fr s b s' b'" by (blast intro: advances_trans)
      with b' show ?thesis by blast
    next
      case True
      have "at_closing a = None" using assms(3) True st by (auto simp: orderly_attempt_def Some x)
      then have "s' = sink fr (captured_in_attempt (length (rl_history s1)) s1 (at_captured a)) s1" "r = Run_returned"
        using h True by (simp_all add: handle_stop_def Let_def)
      then show ?thesis using advances_trans [OF adv sink_advances] True by (auto simp: Some x)
    qed
  qed
qed

lemma run_advances:
  assumes "run_attempts fr agent k fuel s = (s', r)" and "strict \<longrightarrow> orderly_run fr agent k fuel s" and "strict \<longrightarrow> \<not> b"
    and "\<forall>n \<ge> k. attempt_calls (agent n) \<subseteq> ids"
  shows "\<exists>b'. advances strict ids fr s b s' b' \<and> (strict \<longrightarrow> r = Some Run_returned \<longrightarrow> b')"
  using assms
proof (induction fuel arbitrary: k s b)
  case 0
  then have "s' = s" and "r = None" by simp_all
  moreover have "advances strict ids fr s b s b" by (rule advances_same [of _ _ "[]"]) simp_all
  ultimately show ?case by blast
next
  case (Suc fuel)
  obtain s1 x where one: "run_attempt fr (agent k) s = (s1, x)" by (cases "run_attempt fr (agent k) s")
  have "strict \<longrightarrow> orderly_attempt fr (agent k) s" using Suc.prems(2) by simp
  then obtain b1 where adv: "advances strict ids fr s b s1 b1"
    and b1: "strict \<longrightarrow> (x = Attempt_restarted \<longrightarrow> \<not> b1) \<and> (x = Run_returned \<longrightarrow> b1)"
    using attempt_advances [OF Suc.prems(3) one _ Suc.prems(4) [rule_format, OF le_refl]] by blast
  show ?case
  proof (cases "x = Attempt_restarted")
    case True
    then have "run_attempts fr agent (Suc k) fuel s1 = (s', r)" and "strict \<longrightarrow> orderly_run fr agent (Suc k) fuel s1"
      using Suc.prems(1,2) one by simp_all
    moreover have "strict \<longrightarrow> \<not> b1" using b1 True by blast
    moreover have "\<forall>n \<ge> Suc k. attempt_calls (agent n) \<subseteq> ids" using Suc.prems(4) by simp
    ultimately obtain b' where "advances strict ids fr s1 b1 s' b'"
      "strict \<longrightarrow> r = Some Run_returned \<longrightarrow> b'" using Suc.IH by blast
    with adv show ?thesis by (blast intro: advances_trans)
  next
    case False
    then have "s' = s1" "r = Some x" using Suc.prems(1) one by (cases x; simp)+
    with adv b1 show ?thesis by blast
  qed
qed

end
