(* ===== verification/Session_Gate.thy ===== *)
theory Session_Gate
  imports Compaction Mcp_Execution
begin

text \<open>
  What \<open>runtime/session.py\<close> does before a run: the automatic compaction with its circuit breaker, and the
  names of the tools that configured MCP servers add. The summarizing model, the tokenizer of the estimates
  and the division of floats are parameters.
\<close>

section \<open>Tool names\<close>

definition append_configured_mcp_tool_names ::
    "string list \<Rightarrow> configured_mcp_runtime option \<Rightarrow> string list" where
  "append_configured_mcp_tool_names tool_names runtime =
     (case runtime of
        None \<Rightarrow> tool_names
      | Some r \<Rightarrow> fold (\<lambda>n names. if n \<notin> set names then names @ [n] else names)
                     (model_visible_tool_names (cmr_exposure r)) tool_names)"

section \<open>Lifecycle events\<close>

record compaction_completed_event =
  cce_compaction_id :: string
  cce_compacted_through_run_id :: string
  cce_budget_before :: compaction_budget_report
  cce_budget_after :: compaction_budget_report
  cce_estimated_tokens_saved :: int
  cce_estimated_percent_saved :: pyfloat
  cce_estimated_headroom_gain_tokens :: "int option"

record turn_context_status_event =
  tcs_status :: baseline_status
  tcs_reason :: baseline_reason
  tcs_persisted_run_id :: "string option"

datatype queue_mode = Queue_next | Queue_later

datatype session_lifecycle_event =
    Compaction_started compaction_budget_report
  | Compaction_completed compaction_completed_event
  | Turn_context_status turn_context_status_event
  | Session_mcp_failed mcp_failure
  | Queue_state "ustr list" "ustr list"
  | Queued_prompt_batch_submitted queue_mode "ustr list"

section \<open>The gate\<close>

definition max_consecutive_auto_compaction_failures :: int where
  "max_consecutive_auto_compaction_failures = 3"

text \<open>\<open>ratio\<close> is the division of integers to a float.\<close>

definition estimated_compaction_percent_saved :: "(int \<Rightarrow> int \<Rightarrow> pyfloat) \<Rightarrow> int \<Rightarrow> int \<Rightarrow> pyfloat" where
  "estimated_compaction_percent_saved ratio before after =
     (if before \<le> 0 then Pyfloat 0 0 else ratio (max 0 (before - after)) before)"

datatype gate_error =
    Gate_unreadable append_error | Gate_estimate trigger_error | Gate_metadata append_error
  | Gate_blocked | Gate_compaction summary_error

text \<open>What the gate is given besides the files.\<close>

record gate_request =
  gr_environment :: prompt_environment
  gr_utilization :: "int \<times> int"
  gr_window :: "int option"
  gr_budget :: budget_request
  gr_summarizer :: summarizer
  gr_root :: string
  gr_now :: nat
  gr_uuid :: string
  gr_ratio :: "int \<Rightarrow> int \<Rightarrow> pyfloat"

type_synonym gate_result =
  "session_files \<times> session_lifecycle_event list \<times> (gate_error, loaded_session) result"

definition gate_report ::
    "gate_request \<Rightarrow> loaded_session \<Rightarrow> (gate_error, compaction_budget_report) result" where
  "gate_report g l = lift_error Gate_estimate
     (build_auto_compact_session_budget_report (gr_environment g) (gr_utilization g) (gr_window g) l (gr_budget g))"

definition completed_event ::
    "gate_request \<Rightarrow> session_compaction_entry \<Rightarrow> compaction_budget_report \<Rightarrow> compaction_budget_report
     \<Rightarrow> compaction_completed_event" where
  "completed_event g e before after =
     (let b = rhe_resume_message_tokens (cbr_estimate before);
          a = rhe_resume_message_tokens (cbr_estimate after)
      in \<lparr>cce_compaction_id = sc_compaction_id e,
          cce_compacted_through_run_id = sc_compacted_through_run_id e,
          cce_budget_before = before, cce_budget_after = after,
          cce_estimated_tokens_saved = max 0 (b - a),
          cce_estimated_percent_saved = estimated_compaction_percent_saved (gr_ratio g) b a,
          cce_estimated_headroom_gain_tokens =
            (case (cbr_estimated_post_compaction_headroom_tokens before,
                   cbr_estimated_post_compaction_headroom_tokens after) of
               (Some x, Some y) \<Rightarrow> Some (y - x)
             | _ \<Rightarrow> None)\<rparr>)"

text \<open>The compaction itself, once the report asks for it.\<close>

definition compact_before_run ::
    "gate_request \<Rightarrow> compaction_budget_report \<Rightarrow> session_metadata \<Rightarrow> session_files \<Rightarrow> gate_result" where
  "compact_before_run g before md f =
     (case summarize_and_append_compaction_to_session (gr_summarizer g) (gr_window g) (gr_root g) (gr_now g)
             (gr_uuid g) f of
        (f1, Inl e) \<Rightarrow>
          (case update_session_auto_compaction_failures (md_consecutive_auto_compaction_failures md + 1) f1 of
             (f2, Inl x) \<Rightarrow> (f2, [Compaction_started before], Inl (Gate_metadata x))
           | (f2, Inr _) \<Rightarrow> (f2, [Compaction_started before], Inl (Gate_compaction e)))
      | (f1, Inr e) \<Rightarrow>
          (case update_session_auto_compaction_failures 0 f1 of
             (f2, Inl x) \<Rightarrow> (f2, [Compaction_started before], Inl (Gate_metadata x))
           | (f2, Inr _) \<Rightarrow>
               (case lift_error Gate_unreadable (load_log (gr_root g) f2) of
                  Inl x \<Rightarrow> (f2, [Compaction_started before], Inl x)
                | Inr l \<Rightarrow>
                    (case gate_report g l of
                       Inl x \<Rightarrow> (f2, [Compaction_started before], Inl x)
                     | Inr after \<Rightarrow>
                         (f2, [Compaction_started before, Compaction_completed (completed_event g e before after)],
                          Inr l)))))"

definition auto_compaction_gate :: "gate_request \<Rightarrow> loaded_session \<Rightarrow> session_files \<Rightarrow> gate_result" where
  "auto_compaction_gate g l f =
     (case gate_report g l of
        Inl x \<Rightarrow> (f, [], Inl x)
      | Inr before \<Rightarrow>
          if \<not> cbr_should_compact before then (f, [], Inr l)
          else
            (case sfl_metadata f of
               None \<Rightarrow> (f, [], Inl (Gate_metadata Metadata_missing))
             | Some md \<Rightarrow>
                 if max_consecutive_auto_compaction_failures \<le> md_consecutive_auto_compaction_failures md
                 then (f, [], Inl Gate_blocked)
                 else compact_before_run g before md f))"

text \<open>The session a run starts from: none when there is no file yet.\<close>

definition open_session ::
    "gate_request \<Rightarrow> session_files \<Rightarrow> session_files \<times> session_lifecycle_event list \<times> (gate_error, loaded_session option) result" where
  "open_session g f =
     (if sfl_log f = None then (f, [], Inr None)
      else
        (case lift_error Gate_unreadable (load_log (gr_root g) f) of
           Inl x \<Rightarrow> (f, [], Inl x)
         | Inr l \<Rightarrow>
             (case auto_compaction_gate g l f of
                (f', evs, Inl x) \<Rightarrow> (f', evs, Inl x)
              | (f', evs, Inr l') \<Rightarrow> (f', evs, Inr (Some l')))))"

section \<open>The circuit breaker\<close>

text \<open>Opening a session again and again, as a user does whose compactions fail.\<close>

primrec open_repeatedly ::
    "gate_request \<Rightarrow> nat \<Rightarrow> session_files \<Rightarrow> session_files \<times> session_lifecycle_event list" where
  "open_repeatedly g 0 f = (f, [])"
| "open_repeatedly g (Suc n) f =
     (let (f', evs, _) = open_session g f; (f'', rest) = open_repeatedly g n f' in (f'', evs @ rest))"

definition always_fails :: "summarizer \<Rightarrow> bool" where
  "always_fails model \<longleftrightarrow> (\<forall>s. \<not> succeeds (model s))"

definition failures :: "session_files \<Rightarrow> int" where
  "failures f = (case sfl_metadata f of None \<Rightarrow> 0 | Some md \<Rightarrow> md_consecutive_auto_compaction_failures md)"

lemma failing_session_summary:
  assumes "always_fails model"
  shows "\<not> succeeds (summarize_session_for_compaction model window l)"
proof -
  have "\<not> succeeds (summarize_compaction_source model source)" for source
    using assms [unfolded always_fails_def, rule_format, of source]
    by (cases "model source") (simp_all add: summarize_compaction_source_def)
  then show ?thesis by (auto simp: summarize_session_for_compaction_def)
qed

lemma failing_summary:
  assumes "always_fails model"
  shows "\<exists>e. summarize_and_append_compaction_to_session model window root now uuid f = (f, Inl e)"
proof (cases "load_log root f")
  case (Inr l)
  obtain e where "summarize_session_for_compaction model window l = Inl e"
    using failing_session_summary [OF assms] by (auto simp: not_succeeds_iff)
  then show ?thesis by (simp add: summarize_and_append_compaction_to_session_def Inr)
qed (simp add: summarize_and_append_compaction_to_session_def)

definition settled_files :: "session_files \<Rightarrow> session_files \<Rightarrow> int \<Rightarrow> bool" where
  "settled_files f f' n \<longleftrightarrow> sfl_log f' = sfl_log f \<and> failures f' = n \<and> (sfl_metadata f' = None \<longleftrightarrow> sfl_metadata f = None)"

lemma failing_gate:
  assumes "always_fails (gr_summarizer g)" and "0 \<le> failures f"
    and "open_session g f = (f', evs, r)"
  shows "settled_files f f' (failures f + int (length evs))"
    and "evs \<noteq> [] \<Longrightarrow> length evs = 1 \<and> failures f < max_consecutive_auto_compaction_failures \<and> \<not> succeeds r"
proof -
  have *: "settled_files f f' (failures f + int (length evs)) \<and>
      (evs \<noteq> [] \<longrightarrow> length evs = 1 \<and> failures f < max_consecutive_auto_compaction_failures \<and> \<not> succeeds r)"
  proof (cases "f' = f \<and> evs = []")
    case True
    then show ?thesis by (simp add: settled_files_def)
  next
    case False
    with assms(3) obtain l b md where md: "sfl_metadata f = Some md"
      and low: "md_consecutive_auto_compaction_failures md < max_consecutive_auto_compaction_failures"
      and c: "compact_before_run g b md f = (f', evs, map_sum id the r)"
      by (auto simp: open_session_def auto_compaction_gate_def split: if_splits sum.splits option.splits prod.splits)
    obtain e where e: "summarize_and_append_compaction_to_session (gr_summarizer g) (gr_window g) (gr_root g)
        (gr_now g) (gr_uuid g) f = (f, Inl e)"
      using failing_summary [OF assms(1)] by blast
    show ?thesis
      using c md low assms(2) by (cases r) (auto simp: compact_before_run_def e update_session_auto_compaction_failures_def
          update_session_metadata_def settled_files_def failures_def)
  qed
  then show "settled_files f f' (failures f + int (length evs))"
    and "evs \<noteq> [] \<Longrightarrow> length evs = 1 \<and> failures f < max_consecutive_auto_compaction_failures \<and> \<not> succeeds r"
    by blast+
qed

lemma failing_repeatedly:
  assumes "always_fails (gr_summarizer g)" and "0 \<le> failures f"
    and "open_repeatedly g n f = (f', evs)"
  shows "sfl_log f' = sfl_log f \<and> failures f' = failures f + int (length evs)
    \<and> (evs \<noteq> [] \<longrightarrow> failures f' \<le> max_consecutive_auto_compaction_failures)"
  using assms(2,3)
proof (induction n arbitrary: f evs)
  case 0
  then show ?case by simp
next
  case (Suc n)
  obtain f1 evs1 r where o: "open_session g f = (f1, evs1, r)" by (cases "open_session g f") auto
  obtain evs2 where rest: "open_repeatedly g n f1 = (f', evs2)" and evs: "evs = evs1 @ evs2"
    using Suc.prems(2) by (auto simp: o split: prod.splits)
  note one = failing_gate [OF assms(1) Suc.prems(1) o]
  have "failures f1 = failures f + int (length evs1)" and log: "sfl_log f1 = sfl_log f"
    using one(1) by (simp_all add: settled_files_def)
  moreover have "evs1 = [] \<or> length evs1 = 1 \<and> failures f < max_consecutive_auto_compaction_failures"
    using one(2) by blast
  ultimately show ?case
    using Suc.IH [OF _ rest] Suc.prems(1) log by (auto simp: evs)
qed

text \<open>
  C25: The summarizing model is asked three times and not again: when it keeps failing, a session that is
  opened any number of times is left as it is, every failure is counted, and at most three compactions
  are started, however often the user retries.
\<close>

theorem failing_compactions_stop:
  assumes "always_fails (gr_summarizer g)" and "0 \<le> failures f"
    and "open_repeatedly g n f = (f', evs)"
  shows "sfl_log f' = sfl_log f \<and> failures f' = failures f + int (length evs) \<and> length evs \<le> 3"
  using failing_repeatedly [OF assms] assms(2)
  by (cases "evs = []") (simp_all add: max_consecutive_auto_compaction_failures_def)

section \<open>A run starts within its budget\<close>

lemma opened [inversion]:
  assumes "open_session g f = (f', evs, Inr (Some l))"
  shows "load_log (gr_root g) f' = Inr l \<and> (\<forall>b. gate_report g l = Inr b \<longrightarrow> \<not> cbr_should_compact b)
    \<and> (evs = [] \<and> f' = f \<or> (\<exists>b e. evs = [Compaction_started b, Compaction_completed e] \<and> failures f' = 0
         \<and> 0 \<le> cce_estimated_tokens_saved e \<and> (\<exists>c. latest_compaction l = Some c
            \<and> sc_compaction_id c = cce_compaction_id e)))"
proof -
  from assms obtain l0 b where l0: "load_log (gr_root g) f = Inr l0" and b: "gate_report g l0 = Inr b"
    and gate: "auto_compaction_gate g l0 f = (f', evs, Inr l)"
    by (auto simp: open_session_def auto_compaction_gate_def split: if_splits sum.splits prod.splits)
  show ?thesis
  proof (cases "cbr_should_compact b")
    case False
    then show ?thesis using gate l0 b by (simp add: auto_compaction_gate_def)
  next
    case True
    obtain log where log: "sfl_log f = Some log" and ld: "load_entries (gr_root g) log = Inr l0"
      using l0 by (auto simp: load_log_def split: option.splits)
    from True gate b obtain md where c: "compact_before_run g b md f = (f', evs, Inr l)"
      by (auto simp: auto_compaction_gate_def split: option.splits if_splits)
    then obtain f1 e u a where
      sum: "summarize_and_append_compaction_to_session (gr_summarizer g) (gr_window g) (gr_root g) (gr_now g)
             (gr_uuid g) f = (f1, Inr e)"
      and up: "update_session_auto_compaction_failures 0 f1 = (f', Inr u)"
      and l: "load_log (gr_root g) f' = Inr l" and rep: "gate_report g l = Inr a"
      and evs: "evs = [Compaction_started b, Compaction_completed (completed_event g e b a)]"
      by (auto simp: compact_before_run_def split: prod.splits sum.splits)
    have f': "sfl_log f' = sfl_log f1" "failures f' = 0"
      using up by (auto simp: update_session_auto_compaction_failures_def update_session_metadata_def failures_def
          split: option.splits)
    obtain log' l' where "sfl_log f1 = Some log'" "load_entries (gr_root g) log' = Inr l'"
      and quiet: "\<forall>env u w r b. build_auto_compact_session_budget_report env u w l' r = Inr b \<longrightarrow> \<not> cbr_should_compact b"
      and latest: "latest_compaction l' = Some e"
      using compaction_settled [OF sum log] by blast
    then have same: "l' = l" using l f' by (simp add: load_log_def)
    have "\<forall>b. gate_report g l = Inr b \<longrightarrow> \<not> cbr_should_compact b"
      unfolding gate_report_def lift_error_Inr same [symmetric] using quiet by blast
    moreover have "cce_compaction_id (completed_event g e b a) = sc_compaction_id e"
      "0 \<le> cce_estimated_tokens_saved (completed_event g e b a)"
      by (simp_all add: completed_event_def Let_def)
    ultimately show ?thesis using l evs f' latest same by auto
  qed
qed


section \<open>The prompt of a run with configured servers\<close>

lemma appended_names:
  "distinct names \<Longrightarrow> distinct (fold (\<lambda>n ns. if n \<notin> set ns then ns @ [n] else ns) extra names)
    \<and> set (fold (\<lambda>n ns. if n \<notin> set ns then ns @ [n] else ns) extra names) = set names \<union> set extra"
  by (induction extra arbitrary: names) auto

lemma visible_names:
  "n \<in> set (model_visible_tool_names (build_mcp_tool_exposure k (map model_tool_name ts))) \<Longrightarrow>
     guided n \<and> (n = ''mcp_search'' \<or> startswith n mcp_tool_name_prefix)"
proof -
  have "guided ''mcp_search''" by code_simp
  moreover have "startswith (model_tool_name t) mcp_tool_name_prefix" for t
    by (simp add: model_tool_name_def identity_model_tool_name_def)
  moreover assume "n \<in> set (model_visible_tool_names (build_mcp_tool_exposure k (map model_tool_name ts)))"
  ultimately show ?thesis
    by (auto simp: model_visible_tool_names_def build_mcp_tool_exposure_def guided_def split: if_splits)
qed

text \<open>
  The prompt of a session can always be built: for distinct known tool names and any servers that were
  started, the names of their tools come after the given ones, each once, and every name has its guidance.
\<close>

theorem configured_tools_have_a_prompt:
  assumes "distinct names" and "set names \<subseteq> set known_tool_names"
    and "build_configured_mcp_runtime lower describe behaviour configured = (entered, left, Inr runtime)"
  shows "succeeds (build_base_product_prompt (append_configured_mcp_tool_names names (Some runtime)) mode extra)
    \<and> set (append_configured_mcp_tool_names names (Some runtime))
      = set names \<union> set (model_visible_tool_names (cmr_exposure runtime))"
proof -
  obtain discovered where "assemble_runtime lower describe configured entered discovered = Inr runtime"
    using assms(3) by (auto simp: build_configured_mcp_runtime_def Let_def split: prod.splits sum.splits)
  then obtain m where "runtime = new_configured_mcp_runtime m entered"
    by (auto simp: assemble_runtime_def split: sum.splits)
  then have "\<forall>n \<in> set (model_visible_tool_names (cmr_exposure runtime)). guided n"
    using visible_names by (auto simp: new_configured_mcp_runtime_def Let_def)
  moreover have "\<forall>n \<in> set names. guided n"
    using assms(2) known_tools_guided by (auto simp: list_all_iff)
  ultimately show ?thesis
    using appended_names [OF assms(1)]
    by (auto simp: prompt_exists append_configured_mcp_tool_names_def list_all_iff)
qed

section \<open>Concrete sessions\<close>

definition sample_gate :: gate_request where
  "sample_gate =
     \<lparr>gr_environment = \<lparr>pe_turn = sample_environment, pe_read_text = \<lambda>_. None, pe_dump = \<lambda>_. []\<rparr>,
      gr_utilization = (7, 10), gr_window = Some 1000,
      gr_budget = \<lparr>br_model = ''m'', br_workspace_root = Some ''/w'', br_current_date = None,
                   br_shell_family = Some Posix, br_thinking = None\<rparr>,
      gr_summarizer = \<lambda>_. Inl (), gr_root = ''/w'', gr_now = 7, gr_uuid = ''c1'',
      gr_ratio = \<lambda>_ _. Pyfloat 0 0\<rparr>"

lemma sample_failing: "always_fails (gr_summarizer sample_gate)" "0 \<le> failures sample_files"
  by (simp_all add: always_fails_def sample_gate_def failures_def sample_files_def new_metadata_def)

lemma sample_docs:
  "build_project_doc_prefix_messages sample_fs (\<lambda>_. None) ''/w'' project_doc_total_byte_budget = Inr ([], [])"
  by code_simp

lemma sample_layers:
  assumes "bd_status d = Status_missing" and "tq_workspace_root q = ''/w''"
  shows "succeeds (build_prompt_context_layers sample_environment (\<lambda>_. None) (Some d) q canonical_tool_names
    Mode_coding project_doc_total_byte_budget)"
proof -
  have "succeeds (normalize_workspace_root sample_fs ''/w'')" by code_simp
  then have "succeeds (build_runtime_context_injection_plan sample_environment (Some d) q)"
    using assms
    by (auto simp: succeeds_iff build_runtime_context_injection_plan_def resolve_values_def sample_environment_def)
  moreover have "succeeds (build_base_product_prompt canonical_tool_names Mode_coding [])"
  proof -
    have "distinct canonical_tool_names" by code_simp
    moreover have "list_all guided canonical_tool_names"
      using known_tools_guided by (simp add: known_tool_names_def)
    ultimately show ?thesis by (simp add: prompt_exists)
  qed
  moreover have "te_fs sample_environment = sample_fs" by (simp add: sample_environment_def)
  ultimately show ?thesis
    using assms(2) sample_docs by (auto simp: succeeds_iff build_prompt_context_layers_def)
qed

lemma sample_due:
  assumes "load_entries ''/w'' sample_log = Inr l"
  shows "\<exists>b. gate_report sample_gate l = Inr b \<and> cbr_should_compact b"
proof -
  have l: "lo_runs l = [sample_run_record]" "latest_compaction l = None" "lo_latest_turn_context l = None"
    "lo_header l = sample_header"
    using assms
    by (auto simp: sample_log_def sample_run_events_def sample_header_def sample_run_record_def
        load_entries_def load_step_def load_body_def load_start_def load_header_def load_run_def
        load_event_def load_messages_def load_finish_def validate_run_record_def validate_run_events_def
        batch_event_step_def batch_start_def validate_run_messages_def Let_def ensure_def latest_compaction_def loaded_of_def)
  let ?q = "estimate_request l (gr_budget sample_gate)" and ?e = "gr_environment sample_gate"
  have env: "pe_turn ?e = sample_environment" "pe_read_text ?e = (\<lambda>_. None)" by (simp_all add: sample_gate_def)
  have root: "tq_workspace_root ?q = ''/w''" by (simp add: estimate_request_def sample_gate_def or_default_def)
  obtain d where d: "evaluate_turn_context_baseline sample_environment None ?q (lo_has_turn_context_history l) = Inr d"
    and missing: "bd_status d = Status_missing"
    by (simp add: evaluate_turn_context_baseline_def)
  obtain framed where framed: "build_runtime_framed_resume_message_history ?e None (Some d) ?q canonical_tool_names
      = Inr framed"
    using sample_layers [OF missing root]
    by (auto simp: build_runtime_framed_resume_message_history_def env succeeds_iff)
  obtain resume where resume: "build_resume_message_history l = Inr resume"
    by (simp add: build_resume_message_history_def l(2))
  obtain e where e: "estimate_resume_history_budget_components ?e l (gr_budget sample_gate) = Inr e"
    and large: "24000 \<le> pre_run_tokens e"
    unfolding estimate_resume_history_budget_components_def env l(2,3) d Let_def
    using framed resume
    by (simp add: pre_run_tokens_def message_tokens_def session_auto_compaction_prompt_reserve_tokens_def)
  have "trigger_budget (7, 10) (build_effective_compaction_context_window_tokens 1000)
      \<le> build_effective_compaction_context_window_tokens 1000"
    using window_split(2) [of 1000] by (intro trigger_below) (simp_all add: utilization_ok_def)
  also have "\<dots> \<le> 1000"
    by (simp add: build_effective_compaction_context_window_tokens_def
        build_compaction_output_headroom_tokens_def session_compaction_output_reserve_tokens_def)
  finally have "\<not> pre_run_tokens e < trigger_budget (7, 10) (build_effective_compaction_context_window_tokens 1000)"
    using large by linarith
  moreover have "runs_since_latest_compaction l = Inr 1"
    by (simp add: runs_since_latest_compaction_def l)
  ultimately show ?thesis
    using e l(1)
    by (simp add: gate_report_def build_auto_compact_session_budget_report_def report_with_window_def
        sample_gate_def Let_def)
qed

theorem failing_compactions_stop_witness:
  "\<exists>f' evs. open_repeatedly sample_gate 5 sample_files = (f', evs) \<and> evs \<noteq> [] \<and> length evs \<le> 3
     \<and> sfl_log f' = Some sample_log"
proof -
  obtain l where l: "load_entries ''/w'' sample_log = Inr l" by (rule sample_loaded)
  obtain b where b: "gate_report sample_gate l = Inr b" "cbr_should_compact b" using sample_due [OF l] by blast
  obtain e where "summarize_and_append_compaction_to_session (gr_summarizer sample_gate) (gr_window sample_gate)
      (gr_root sample_gate) (gr_now sample_gate) (gr_uuid sample_gate) sample_files = (sample_files, Inl e)"
    using failing_summary [OF sample_failing(1)] by blast
  moreover have "load_log (gr_root sample_gate) sample_files = Inr l"
    using l by (simp add: load_log_def sample_files_def sample_gate_def)
  moreover have "sfl_metadata sample_files = Some (new_metadata ''s'' 0)" "sfl_log sample_files = Some sample_log"
    by (simp_all add: sample_files_def)
  ultimately obtain f1 evs r where o: "open_session sample_gate sample_files = (f1, evs, r)" and evs: "evs \<noteq> []"
    using b
    by (simp add: open_session_def auto_compaction_gate_def compact_before_run_def new_metadata_def
        max_consecutive_auto_compaction_failures_def update_session_auto_compaction_failures_def
        update_session_metadata_def)
  obtain f' rest where "open_repeatedly sample_gate 4 f1 = (f', rest)"
    by (cases "open_repeatedly sample_gate 4 f1") auto
  then have "open_repeatedly sample_gate 5 sample_files = (f', evs @ rest)"
    using o by (simp add: eval_nat_numeral)
  with failing_compactions_stop [OF sample_failing this] evs show ?thesis by (auto simp: sample_files_def)
qed

definition sample_quiet_gate :: gate_request where
  "sample_quiet_gate = sample_gate\<lparr>gr_window := None\<rparr>"


definition sample_serving :: "mcp_server_config \<Rightarrow> server_behaviour" where
  "sample_serving config =
     \<lparr>sb_factory = None, sb_enter = None,
      sb_list = Inr [\<lparr>sdk_name = ''look up'', sdk_title = Some [84], sdk_description = Some [68],
                      sdk_input_schema = [(lit ''type'', JStr (lit ''object''))]\<rparr>],
      sb_exit = None\<rparr>"

lemma sample_runtime:
  "case build_configured_mcp_runtime id (\<lambda>_. ([], [])) sample_serving [(''docs'', sample_mcp_config)] of
     (_, _, Inl _) \<Rightarrow> False
   | (_, _, Inr r) \<Rightarrow> model_visible_tool_names (cmr_exposure r) = [''mcp__docs__look_up'']"
  by code_simp

theorem configured_tools_have_a_prompt_witness:
  "\<exists>entered left runtime. build_configured_mcp_runtime id (\<lambda>_. ([], [])) sample_serving
       [(''docs'', sample_mcp_config)] = (entered, left, Inr runtime)
     \<and> succeeds (build_base_product_prompt (append_configured_mcp_tool_names canonical_tool_names (Some runtime))
          Mode_coding [])
     \<and> ''mcp__docs__look_up'' \<in> set (append_configured_mcp_tool_names canonical_tool_names (Some runtime))"
proof -
  obtain entered left r where b: "build_configured_mcp_runtime id (\<lambda>_. ([], [])) sample_serving
      [(''docs'', sample_mcp_config)] = (entered, left, r)"
    by (cases "build_configured_mcp_runtime id (\<lambda>_. ([], [])) sample_serving [(''docs'', sample_mcp_config)]") auto
  obtain runtime where r: "r = Inr runtime"
    and names: "model_visible_tool_names (cmr_exposure runtime) = [''mcp__docs__look_up'']"
    using sample_runtime unfolding b by (cases r) simp_all
  have "distinct canonical_tool_names" by code_simp
  moreover have "set canonical_tool_names \<subseteq> set known_tool_names" by (simp add: known_tool_names_def)
  ultimately show ?thesis
    using configured_tools_have_a_prompt [OF _ _ b [unfolded r], of canonical_tool_names Mode_coding "[]"] b r names
    by simp
qed

end
