(* ===== verification/Session_Run.thy ===== *)
theory Session_Run
  imports Session_Gate Failed_Runs Session_Append Transcript_Summary Activity Permission_Memory
begin

text \<open>
  The streaming of a run into its session: the event loop of \<open>stream_session_run_events\<close> in
  \<open>runtime/session.py\<close>, its handlers for a cancelled and for a failing stream, and the finalization. The
  stream of \<open>runtime/run.py\<close> is a list of what it does, an event it yields, messages it hands to the sink, or
  a change of the shared inventory or permission memory, and how it stops.
\<close>

section \<open>The session a run would leave\<close>

record session_run_frame =
  srf_root :: string
  srf_session_id :: string
  srf_now :: nat
  srf_clock :: int
  srf_prompt :: ustr
  srf_model :: string
  srf_date :: ustr
  srf_shell :: shell_family
  srf_timezone :: ustr
  srf_thinking :: "thinking_setting option"
  srf_capabilities :: effective_capabilities
  srf_environment :: prompt_environment
  srf_utilization :: "int \<times> int"
  srf_window :: "int option"
  srf_loaded :: "loaded_session option"
  srf_round :: "int \<Rightarrow> int \<Rightarrow> pyfloat"

text \<open>\<open>srf_round a b\<close> is \<open>round(a / b, 3)\<close>.\<close>

definition build_loaded_session_after_success ::
    "session_run_frame \<Rightarrow> string \<Rightarrow> model_message list \<Rightarrow> session_turn_context_entry
     \<Rightarrow> session_mcp_inventory_entry option \<Rightarrow> loaded_session" where
  "build_loaded_session_after_success fr run_id messages context inventory =
     (let record = \<lparr>rr_run_id = run_id, rr_prompt = srf_prompt fr, rr_thinking = srf_thinking fr,
                    rr_messages = messages, rr_events = [], rr_mcp_inventory = inventory\<rparr>
      in case srf_loaded fr of
           None \<Rightarrow>
             \<lparr>lo_header = \<lparr>sh_version = session_format_version, sh_workspace_root = srf_root fr,
                           sh_shell_family = srf_shell fr\<rparr>,
              lo_fork = None, lo_name = None, lo_project_docs = None, lo_runs = [record],
              lo_latest_turn_context = Some context, lo_latest_mcp_inventory = inventory,
              lo_latest_permission_grants = None, lo_has_turn_context_history = True, lo_compactions = []\<rparr>
         | Some l \<Rightarrow>
             \<lparr>lo_header = lo_header l, lo_fork = lo_fork l, lo_name = lo_name l, lo_project_docs = None,
              lo_runs = lo_runs l @ [record], lo_latest_turn_context = Some context,
              lo_latest_mcp_inventory =
                (case inventory of None \<Rightarrow> lo_latest_mcp_inventory l | Some i \<Rightarrow> Some i),
              lo_latest_permission_grants = lo_latest_permission_grants l,
              lo_has_turn_context_history = True, lo_compactions = lo_compactions l\<rparr>)"

definition next_budget_request :: "session_run_frame \<Rightarrow> budget_request" where
  "next_budget_request fr =
     \<lparr>br_model = srf_model fr, br_workspace_root = Some (srf_root fr), br_current_date = Some (srf_date fr),
      br_shell_family = Some (srf_shell fr), br_thinking = srf_thinking fr\<rparr>"

definition estimate_next_request_context_window_used ::
    "session_run_frame \<Rightarrow> string \<Rightarrow> model_message list \<Rightarrow> session_turn_context_entry
     \<Rightarrow> session_mcp_inventory_entry option \<Rightarrow> (trigger_error, pyfloat option) result" where
  "estimate_next_request_context_window_used fr run_id messages context inventory =
     res_bind (build_auto_compact_session_budget_report (srf_environment fr) (srf_utilization fr) (srf_window fr)
         (build_loaded_session_after_success fr run_id messages context inventory) (next_budget_request fr))
       (\<lambda>b. Inr (case cbr_context_window_tokens b of
              None \<Rightarrow> None
            | Some w \<Rightarrow> if w \<le> 0 then None else Some (srf_round fr (cbr_estimated_pre_run_tokens b) w)))"

section \<open>The loop\<close>

datatype run_item =
    Emitted run_event
  | Recorded "model_message list"
  | Inventory_changed mcp_tool_inventory
  | Memory_changed permission_memory

text \<open>
  How the stream stops: it ends, it is cancelled, it raises (with the name of the type and the text of the
  exception), or the consumer leaves.
\<close>

datatype run_stop =
    Stream_ends | Stream_cancelled ustr ustr | Stream_raises ustr ustr | Consumer_leaves

datatype session_run_error =
    Append_failed append_error | Context_failed path_error | Estimate_failed trigger_error
  | Success_without_messages | Finalized_without_messages

record session_run_state =
  srs_files :: session_files
  srs_appender :: "run_appender option"
  srs_context :: "session_turn_context_entry option"
  srs_messages :: "model_message list option"
  srs_pending :: "(string \<times> tool_call_started_event) list"
  srs_run_id :: "string option"
  srs_finalize :: bool
  srs_failed :: bool
  srs_inventory :: "mcp_tool_inventory option"
  srs_memory :: permission_memory
  srs_yielded :: "run_event list"

definition start_state ::
    "session_files \<Rightarrow> mcp_tool_inventory option \<Rightarrow> permission_memory \<Rightarrow> session_run_state" where
  "start_state f inventory memory =
     \<lparr>srs_files = f, srs_appender = None, srs_context = None, srs_messages = None, srs_pending = [],
      srs_run_id = None, srs_finalize = False, srs_failed = False, srs_inventory = inventory,
      srs_memory = memory, srs_yielded = []\<rparr>"

definition current_inventory_entry :: "string \<Rightarrow> session_run_state \<Rightarrow> session_mcp_inventory_entry option" where
  "current_inventory_entry run_id s = map_option (to_session_entry run_id) (srs_inventory s)"

definition build_run_turn_context ::
    "session_run_frame \<Rightarrow> string \<Rightarrow> session_run_state \<Rightarrow> (path_error, session_turn_context_entry) result" where
  "build_run_turn_context fr run_id s =
     build_session_turn_context_entry (pe_turn (srf_environment fr)) run_id
       \<lparr>tq_model = srf_model fr, tq_workspace_root = srf_root fr, tq_current_date = Some (srf_date fr),
        tq_shell_family = Some (srf_shell fr), tq_timezone = Some (srf_timezone fr),
        tq_thinking = srf_thinking fr, tq_effective_capabilities = Some (srf_capabilities fr),
        tq_mcp_inventory =
          map_option (\<lambda>i. Inventory_snapshot (to_session_snapshot i)) (srs_inventory s)\<rparr>"

text \<open>A step returns the state it leaves and the exception it raises, if any.\<close>

type_synonym stepped = "session_run_state \<times> session_run_error option"

definition and_continue :: "stepped \<Rightarrow> (session_run_state \<Rightarrow> stepped) \<Rightarrow> stepped" where
  "and_continue r k = (case r of (s, None) \<Rightarrow> k s | (s, Some e) \<Rightarrow> (s, Some e))"

text \<open>The first event opens the run in the log.\<close>

definition open_run :: "session_run_frame \<Rightarrow> string \<Rightarrow> session_run_state \<Rightarrow> stepped" where
  "open_run fr run_id s =
     (if srs_appender s \<noteq> None then (s, None)
      else
        (let s = s\<lparr>srs_run_id := Some run_id\<rparr> in
         case build_run_turn_context fr run_id s of
           Inl e \<Rightarrow> (s, Some (Context_failed e))
         | Inr context \<Rightarrow>
             (case start_run_to_session (srf_root fr) (srf_shell fr) (srf_session_id fr) (srf_now fr) run_id
                     (srf_prompt fr) (srf_thinking fr) (srs_files s) of
                (f, Inl e) \<Rightarrow> (s\<lparr>srs_context := Some context, srs_files := f\<rparr>, Some (Append_failed e))
              | (f, Inr a) \<Rightarrow>
                  (s\<lparr>srs_context := Some context, srs_files := f, srs_appender := Some a\<rparr>, None))))"

text \<open>A success is told how much of the window the next request will use.\<close>

definition complete_success ::
    "session_run_frame \<Rightarrow> run_succeeded_event \<Rightarrow> session_run_state
     \<Rightarrow> session_run_state \<times> (session_run_error, run_event) result" where
  "complete_success fr e s =
     (case build_run_turn_context fr (ev_run_id e) s of
        Inl x \<Rightarrow> (s, Inl (Context_failed x))
      | Inr context \<Rightarrow>
          (let s = s\<lparr>srs_context := Some context\<rparr> in
           case srs_messages s of
             None \<Rightarrow> (s, Inl Success_without_messages)
           | Some messages \<Rightarrow>
               (case estimate_next_request_context_window_used fr (ev_run_id e)
                       (strip_internal_prompt_state messages) context (current_inventory_entry (ev_run_id e) s) of
                  Inl x \<Rightarrow> (s, Inl (Estimate_failed x))
                | Inr used \<Rightarrow>
                    (s, Inr (Run_succeeded (sync_run_transcript_summary_metrics
                              (e\<lparr>ev_next_request_context_window_used := used\<rparr>)))))))"

definition note_event :: "run_event \<Rightarrow> session_run_state \<Rightarrow> session_run_state" where
  "note_event event s =
     (case event of
        Tool_call_started e \<Rightarrow> s\<lparr>srs_pending := AList.update (ev_tool_call_id e) e (srs_pending s)\<rparr>
      | Tool_call_succeeded e \<Rightarrow> s\<lparr>srs_pending := AList.delete (ev_tool_call_id e) (srs_pending s)\<rparr>
      | Tool_call_failed e \<Rightarrow> s\<lparr>srs_pending := AList.delete (ev_tool_call_id e) (srs_pending s)\<rparr>
      | Run_succeeded _ \<Rightarrow> s\<lparr>srs_finalize := True\<rparr>
      | Run_failed _ \<Rightarrow> s\<lparr>srs_failed := True, srs_finalize := True\<rparr>
      | _ \<Rightarrow> s)"

definition append_to_run :: "run_event \<Rightarrow> session_run_state \<Rightarrow> stepped" where
  "append_to_run event s =
     (case srs_appender s of
        None \<Rightarrow> (s, None)
      | Some a \<Rightarrow>
          (case append_event (srs_files s, a) event of
             Inl e \<Rightarrow> (s, Some (Append_failed e))
           | Inr (f, a') \<Rightarrow> (s\<lparr>srs_files := f, srs_appender := Some a'\<rparr>, None)))"

definition yield_event :: "run_event \<Rightarrow> session_run_state \<Rightarrow> session_run_state" where
  "yield_event event s = s\<lparr>srs_yielded := srs_yielded s @ [event]\<rparr>"

definition stream_event :: "session_run_frame \<Rightarrow> run_event \<Rightarrow> session_run_state \<Rightarrow> stepped" where
  "stream_event fr event s =
     and_continue (open_run fr (event_run_id event) s)
       (\<lambda>s. case (case event of Run_succeeded e \<Rightarrow> complete_success fr e s | _ \<Rightarrow> (s, Inr event)) of
          (s, Inl x) \<Rightarrow> (s, Some x)
        | (s, Inr event) \<Rightarrow>
            and_continue (append_to_run event s) (\<lambda>s. (yield_event event (note_event event s), None)))"

definition stream_item :: "session_run_frame \<Rightarrow> run_item \<Rightarrow> session_run_state \<Rightarrow> stepped" where
  "stream_item fr x s =
     (case x of
        Emitted event \<Rightarrow> stream_event fr event s
      | Recorded messages \<Rightarrow> (s\<lparr>srs_messages := Some messages\<rparr>, None)
      | Inventory_changed i \<Rightarrow> (s\<lparr>srs_inventory := Some i\<rparr>, None)
      | Memory_changed m \<Rightarrow> (s\<lparr>srs_memory := m\<rparr>, None))"

fun stream_items :: "session_run_frame \<Rightarrow> run_item list \<Rightarrow> session_run_state \<Rightarrow> stepped" where
  "stream_items fr [] s = (s, None)"
| "stream_items fr (x # xs) s = and_continue (stream_item fr x s) (stream_items fr xs)"

section \<open>Early ends and finalization\<close>

definition pending_of :: "session_run_state \<Rightarrow> pending_tool_call list" where
  "pending_of s = map (\<lambda>(_, e). \<lparr>ptc_tool_call_id = ev_tool_call_id e, ptc_tool_name = ev_tool_name e,
     ptc_args = ev_args e, ptc_args_valid = ev_args_valid e, ptc_started_at = 0\<rparr>) (srs_pending s)"

definition failed_calls :: "session_run_frame \<Rightarrow> string \<Rightarrow> ustr \<Rightarrow> ustr \<Rightarrow> session_run_state \<Rightarrow> run_event list" where
  "failed_calls fr run_id error_type message s =
     synthesize_tool_failed_events_for_pending (srf_clock fr) run_id (pending_of s) error_type message"

definition failure_event :: "string \<Rightarrow> ustr \<Rightarrow> ustr \<Rightarrow> run_event" where
  "failure_event run_id error_type message =
     Run_failed \<lparr>ev_run_id = run_id, ev_failure_type = error_type, ev_failure_message = message\<rparr>"

fun append_and_yield :: "run_event list \<Rightarrow> session_run_state \<Rightarrow> stepped" where
  "append_and_yield [] s = (s, None)"
| "append_and_yield (e # es) s =
     and_continue (append_to_run e s) (\<lambda>s. append_and_yield es (yield_event e s))"

text \<open>A cancelled stream is closed in the log and for the consumer.\<close>

definition on_cancelled :: "session_run_frame \<Rightarrow> ustr \<Rightarrow> ustr \<Rightarrow> session_run_state \<Rightarrow> stepped" where
  "on_cancelled fr error_type error_message s =
     (case (srs_appender s, srs_run_id s) of
        (Some _, Some run_id) \<Rightarrow>
          (let message = (if error_message = [] then lit ''run cancelled'' else error_message) in
           and_continue (append_and_yield (failed_calls fr run_id error_type message s) s)
             (\<lambda>s. and_continue (append_and_yield [failure_event run_id error_type message] (s\<lparr>srs_pending := []\<rparr>))
               (\<lambda>s. (s\<lparr>srs_failed := True, srs_finalize := True\<rparr>, None))))
      | _ \<Rightarrow> (s, None))"

text \<open>A stream that raises is closed for the consumer only.\<close>

definition on_raised :: "session_run_frame \<Rightarrow> ustr \<Rightarrow> ustr \<Rightarrow> session_run_state \<Rightarrow> session_run_state" where
  "on_raised fr error_type error_message s =
     (case srs_run_id s of
        None \<Rightarrow> s
      | Some run_id \<Rightarrow>
          (let message = (if error_message = [] then error_type else error_message) in
           s\<lparr>srs_yielded := srs_yielded s @ failed_calls fr run_id error_type message s
               @ [failure_event run_id error_type message],
             srs_pending := []\<rparr>))"

definition close_appender :: "session_run_state \<Rightarrow> session_run_state" where
  "close_appender s = s\<lparr>srs_appender := map_option (\<lambda>a. a\<lparr>ra_open := False\<rparr>) (srs_appender s)\<rparr>"

definition final_messages :: "bool \<Rightarrow> model_message list \<Rightarrow> model_message list" where
  "final_messages failed messages =
     strip_internal_prompt_state (if failed then sanitize_failed_run_messages messages else messages)"

definition final_closing ::
    "session_run_state \<Rightarrow> string \<Rightarrow> model_message list \<Rightarrow> session_turn_context_entry \<Rightarrow> run_closing" where
  "final_closing s run_id messages context =
     \<lparr>rc_messages = final_messages (srs_failed s) messages,
      rc_inventory = current_inventory_entry run_id s, rc_context = Some context,
      rc_grants = Some \<lparr>spg_run_id = run_id, spg_grants = snapshot_session_grants (srs_memory s)\<rparr>\<rparr>"

text \<open>The \<open>finally\<close> block; the appender has a run id whenever there is one.\<close>

definition finalize_session :: "session_run_frame \<Rightarrow> session_run_state \<Rightarrow> stepped" where
  "finalize_session fr s =
     (let (s', e) =
        (case (srs_appender s, srs_run_id s) of
           (Some a, Some run_id) \<Rightarrow>
             if \<not> srs_finalize s then (s, None)
             else (case srs_messages s of
               None \<Rightarrow> (s, Some Finalized_without_messages)
             | Some messages \<Rightarrow>
                 (case build_run_turn_context fr run_id s of
                    Inl x \<Rightarrow> (s, Some (Context_failed x))
                  | Inr context \<Rightarrow>
                      (case finalize (final_closing s run_id messages context) (srf_now fr) a (srs_files s) of
                         (a', f, Inl x) \<Rightarrow>
                           (s\<lparr>srs_appender := Some a', srs_files := f, srs_context := Some context\<rparr>,
                            Some (Append_failed x))
                       | (a', f, Inr _) \<Rightarrow>
                           (s\<lparr>srs_appender := Some a', srs_files := f, srs_context := Some context\<rparr>, None))))
         | _ \<Rightarrow> (s, None))
      in (close_appender s', e))"

section \<open>The whole run\<close>

datatype run_outcome =
    Run_completed | Run_cancelled ustr ustr | Run_raised ustr ustr | Run_abandoned
  | Session_raised session_run_error

definition finish_run ::
    "session_run_frame \<Rightarrow> run_outcome \<Rightarrow> session_run_state \<Rightarrow> session_run_state \<times> run_outcome" where
  "finish_run fr outcome s =
     (case finalize_session fr s of
        (s', None) \<Rightarrow> (s', outcome)
      | (s', Some e) \<Rightarrow> (s', Session_raised e))"

text \<open>\<open>describe\<close> gives the name of the type and the text of an exception.\<close>

definition stream_session_run ::
    "session_run_frame \<Rightarrow> (session_run_error \<Rightarrow> ustr \<times> ustr) \<Rightarrow> run_item list \<Rightarrow> run_stop
     \<Rightarrow> session_run_state \<Rightarrow> session_run_state \<times> run_outcome" where
  "stream_session_run fr describe items stop s =
     (case stream_items fr items s of
        (s, Some e) \<Rightarrow>
          (let (error_type, message) = describe e in
           finish_run fr (Session_raised e) (on_raised fr error_type message s))
      | (s, None) \<Rightarrow>
          (case stop of
             Stream_ends \<Rightarrow> finish_run fr Run_completed s
           | Stream_cancelled error_type message \<Rightarrow>
               (case on_cancelled fr error_type message s of
                  (s, None) \<Rightarrow> finish_run fr (Run_cancelled error_type message) s
                | (s, Some e) \<Rightarrow> finish_run fr (Session_raised e) s)
           | Stream_raises error_type message \<Rightarrow>
               finish_run fr (Run_raised error_type message) (on_raised fr error_type message s)
           | Consumer_leaves \<Rightarrow> finish_run fr Run_abandoned s))"

section \<open>The appender and its validator\<close>

lemma incremental_terminal:
  assumes "validate_run_event_incremental i u e = Inr v"
  shows "as_terminal v \<longleftrightarrow> is_terminal_event e" and "\<not> as_terminal u"
    and "is_terminal_event e \<Longrightarrow> as_pending u = []"
  using assms
  by (cases e; auto simp: validate_run_event_incremental_def Let_def split: if_splits option.splits)+

lemma terminal_accepted:
  assumes "run_steps (validate_run_event_incremental i) appender_start es = Inr v" and "as_terminal v"
  shows "validate_run_events i es True = Inr ()"
proof -
  have "es \<noteq> []" using assms by (auto simp: appender_start_def)
  then obtain xs e where es: "es = xs @ [e]" by (cases es rule: rev_cases) auto
  with assms obtain u where "validate_run_event_incremental i u e = Inr v" by auto
  then have ended: "is_terminal_event e" using incremental_terminal(1) assms(2) by blast
  have "succeeds (validate_run_events i es False)"
    using assms(1) \<open>es \<noteq> []\<close> by (simp add: validators_agree)
  then obtain b where hd: "is_run_started (hd es)" and b: "run_steps (batch_event_step i) batch_start es = Inr b"
    by (cases es) (auto simp: validate_run_events_def succeeds_iff simp del: run_steps.simps split: if_splits)
  from b obtain c where "batch_event_step i c e = Inr b" by (auto simp: es)
  then have "bs_terminal b"
    using ended by (cases e) (auto simp: batch_event_step_def Let_def split: if_splits)
  with b hd \<open>es \<noteq> []\<close> show ?thesis
    by (cases es) (simp_all add: validate_run_events_def del: run_steps.simps)
qed

lemma append_events_append:
  "append_events (as @ bs) a f =
     (case append_events as a f of (f', Inl x) \<Rightarrow> (f', Inl x) | (f', Inr a') \<Rightarrow> append_events bs a' f')"
  by (induction as arbitrary: a f) (auto split: sum.splits prod.splits)

lemma appended_one:
  assumes "append_event (f, a) e = Inr (f', a')"
  shows "event_run_id e = ra_run_id a"
    and "is_text_delta e \<Longrightarrow> f' = f \<and> a' = a"
    and "\<not> is_text_delta e \<Longrightarrow> validate_run_event_incremental (ra_run_id a) (ra_validator a) e = Inr (ra_validator a')"
    and "ra_run_id a' = ra_run_id a" "ra_open a' = ra_open a" "ra_finalized a' = ra_finalized a"
    "ra_root a' = ra_root a" "ra_shell a' = ra_shell a"
  using assms by (auto simp: append_event_def split: if_splits)

lemma append_accepted:
  assumes "\<not> ra_finalized a" and "ra_open a" and "\<not> is_text_delta e"
    and "validate_run_event_incremental (ra_run_id a) (ra_validator a) e = Inr v"
  shows "\<exists>f'. append_event (f, a) e = Inr (f', a\<lparr>ra_validator := v, ra_events := ra_events a @ [e]\<rparr>)"
  using assms incremental_run_id [OF assms(4)] by (simp add: append_event_def)

section \<open>Pending calls\<close>

definition pending_agrees :: "(string \<times> tool_call_started_event) list \<Rightarrow> appender_state \<Rightarrow> bool" where
  "pending_agrees ps v \<longleftrightarrow> map (\<lambda>(i, e). (i, ev_tool_name e)) ps = rev (as_pending v)
     \<and> (\<forall>(i, e) \<in> set ps. ev_tool_call_id e = i) \<and> distinct (map fst ps)"

lemma update_new: "i \<notin> fst ` set ps \<Longrightarrow> AList.update i e ps = ps @ [(i, e)]"
  by (induction ps) auto

lemma pending_keys:
  assumes "pending_agrees ps v"
  shows "map fst ps = rev (map fst (as_pending v))" and "map_of (as_pending v) i = None \<longleftrightarrow> i \<notin> fst ` set ps"
proof -
  have "map fst ps = map fst (map (\<lambda>(i, e). (i, ev_tool_name e)) ps)" by (simp add: case_prod_beta comp_def)
  also have "\<dots> = map fst (rev (as_pending v))" using assms by (simp only: pending_agrees_def)
  finally show keys: "map fst ps = rev (map fst (as_pending v))" by (simp only: rev_map)
  have "fst ` set ps = set (map fst ps)" by simp
  also have "\<dots> = fst ` set (as_pending v)" by (simp only: keys set_rev set_map)
  finally show "map_of (as_pending v) i = None \<longleftrightarrow> i \<notin> fst ` set ps" by (simp add: map_of_eq_None_iff)
qed

lemma pending_deleted:
  assumes "pending_agrees ps v"
  shows "pending_agrees (AList.delete i ps) (v\<lparr>as_pending := drop_call i (as_pending v)\<rparr>)"
proof -
  have "map (\<lambda>(i, e). (i, ev_tool_name e)) (AList.delete i ps)
      = filter (\<lambda>p. fst p \<noteq> i) (map (\<lambda>(i, e). (i, ev_tool_name e)) ps)"
    by (induction ps) (auto simp: AList.delete_eq)
  also have "\<dots> = rev (drop_call i (as_pending v))"
    using assms by (simp add: pending_agrees_def drop_call_def rev_filter)
  finally show ?thesis
    using assms distinct_delete [of ps i] by (auto simp: pending_agrees_def AList.delete_eq)
qed

lemma pending_noted:
  assumes "pending_agrees (srs_pending s) v" and "validate_run_event_incremental i v e = Inr v'"
  shows "pending_agrees (srs_pending (note_event e s)) v'"
proof (cases e)
  case (Tool_call_started x)
  then have new: "map_of (as_pending v) (ev_tool_call_id x) = None"
    and v': "v' = v\<lparr>as_pending := (ev_tool_call_id x, ev_tool_name x) # as_pending v\<rparr>"
    using assms(2) by (auto simp: validate_run_event_incremental_def Let_def split: if_splits)
  from new have "ev_tool_call_id x \<notin> fst ` set (srs_pending s)" using pending_keys(2) [OF assms(1)] by blast
  then show ?thesis
    using assms(1) by (simp add: Tool_call_started note_event_def v' update_new pending_agrees_def)
next
  case (Tool_call_succeeded x)
  then have "v' = v\<lparr>as_pending := drop_call (ev_tool_call_id x) (as_pending v)\<rparr>"
    using assms(2) by (auto simp: validate_run_event_incremental_def Let_def split: if_splits option.splits)
  then show ?thesis using pending_deleted [OF assms(1)] by (simp add: Tool_call_succeeded note_event_def)
next
  case (Tool_call_failed x)
  then have "v' = v\<lparr>as_pending := drop_call (ev_tool_call_id x) (as_pending v)\<rparr>"
    using assms(2) by (auto simp: validate_run_event_incremental_def Let_def split: if_splits option.splits)
  then show ?thesis using pending_deleted [OF assms(1)] by (simp add: Tool_call_failed note_event_def)
qed (use assms in \<open>auto simp: validate_run_event_incremental_def note_event_def pending_agrees_def Let_def
      split: if_splits option.splits\<close>)

section \<open>The invariant of the loop\<close>

text \<open>
  Either nothing was streamed yet, or the log holds the run that was opened and the events that were yielded,
  the pending calls are the validator's, and the run is to be finalized exactly when its outcome is known.
\<close>

definition untouched :: "session_files \<Rightarrow> session_run_state \<Rightarrow> bool" where
  "untouched f s \<longleftrightarrow> srs_appender s = None \<and> srs_files s = f \<and> srs_yielded s = [] \<and> srs_pending s = []
     \<and> srs_run_id s = None \<and> \<not> srs_finalize s \<and> \<not> srs_failed s"

definition under_way ::
    "session_run_frame \<Rightarrow> session_files \<Rightarrow> string \<Rightarrow> run_appender \<Rightarrow> session_run_state \<Rightarrow> bool" where
  "under_way fr f run_id a s \<longleftrightarrow> srs_appender s = Some a \<and> srs_run_id s = Some run_id
     \<and> (\<exists>f1 a0. start_run_to_session (srf_root fr) (srf_shell fr) (srf_session_id fr) (srf_now fr) run_id
             (srf_prompt fr) (srf_thinking fr) f = (f1, Inr a0)
          \<and> append_events (srs_yielded s) a0 f1 = (srs_files s, Inr a))
     \<and> pending_agrees (srs_pending s) (ra_validator a)
     \<and> (srs_finalize s \<longleftrightarrow> as_terminal (ra_validator a)) \<and> (srs_failed s \<longrightarrow> srs_finalize s)"

definition run_inv :: "session_run_frame \<Rightarrow> session_files \<Rightarrow> session_run_state \<Rightarrow> bool" where
  "run_inv fr f s \<longleftrightarrow> untouched f s \<or> (\<exists>run_id a. under_way fr f run_id a s)"

lemma started_appender:
  assumes "start_run_to_session root shell sid now run_id prompt thinking f = (f1, Inr a)"
  shows "a = \<lparr>ra_root = root, ra_shell = shell, ra_run_id = run_id, ra_events = [], ra_finalized = False,
              ra_open = True, ra_validator = appender_start\<rparr>"
  using assms by (auto simp: start_run_to_session_def split: prod.splits sum.splits)

lemma and_continue_None: "and_continue r k = (s', None) \<longleftrightarrow> (\<exists>s. r = (s, None) \<and> k s = (s', None))"
  by (auto simp: and_continue_def split: prod.splits option.splits)

lemma open_keeps:
  assumes "run_inv fr f s" and "open_run fr run_id s = (s', None)"
  shows "\<exists>i a. under_way fr f i a s'"
proof (cases "srs_appender s = None")
  case False
  with assms show ?thesis by (auto simp: open_run_def run_inv_def untouched_def)
next
  case True
  with assms(1) have u: "untouched f s" by (auto simp: run_inv_def under_way_def)
  from assms(2) True obtain c f1 a where
    st: "start_run_to_session (srf_root fr) (srf_shell fr) (srf_session_id fr) (srf_now fr) run_id
      (srf_prompt fr) (srf_thinking fr) f = (f1, Inr a)"
    and s': "s' = s\<lparr>srs_run_id := Some run_id, srs_context := Some c, srs_files := f1, srs_appender := Some a\<rparr>"
    using u by (auto simp: open_run_def untouched_def Let_def split: sum.splits prod.splits)
  then have "under_way fr f run_id a s'"
    using u started_appender [OF st]
    by (auto simp: under_way_def untouched_def pending_agrees_def appender_start_def)
  then show ?thesis by blast
qed

lemma append_keeps:
  assumes "under_way fr f i a s" and "append_to_run e s = (s', None)"
  shows "\<exists>a'. under_way fr f i a' (yield_event e (note_event e s'))"
proof -
  obtain f' a' where ap: "append_event (srs_files s, a) e = Inr (f', a')"
    and s': "s' = s\<lparr>srs_files := f', srs_appender := Some a'\<rparr>"
    using assms by (auto simp: append_to_run_def under_way_def split: sum.splits)
  obtain f1 a0 where st: "start_run_to_session (srf_root fr) (srf_shell fr) (srf_session_id fr) (srf_now fr) i
        (srf_prompt fr) (srf_thinking fr) f = (f1, Inr a0)"
    and ev: "append_events (srs_yielded s) a0 f1 = (srs_files s, Inr a)"
    using assms(1) by (auto simp: under_way_def)
  have ev': "append_events (srs_yielded s @ [e]) a0 f1 = (f', Inr a')"
    using ap by (simp add: append_events_append ev)
  have noted: "srs_files (note_event e q) = srs_files q" "srs_appender (note_event e q) = srs_appender q"
    "srs_run_id (note_event e q) = srs_run_id q" "srs_yielded (note_event e q) = srs_yielded q"
    "srs_finalize (note_event e q) \<longleftrightarrow> is_terminal_event e \<or> srs_finalize q" for q
    by (cases e; simp add: note_event_def)+
  have failed: "srs_failed (note_event e s') \<longrightarrow> is_terminal_event e \<or> srs_failed s"
    by (cases e) (simp_all add: note_event_def s')
  have same: "srs_pending (note_event e s') = srs_pending (note_event e s)"
    by (cases e) (simp_all add: note_event_def s')
  have "pending_agrees (srs_pending (note_event e s)) (ra_validator a')
      \<and> (is_terminal_event e \<or> srs_finalize s \<longleftrightarrow> as_terminal (ra_validator a'))"
  proof (cases "is_text_delta e")
    case True
    then have "a' = a" using appended_one(2) [OF ap] by simp
    with True assms(1) show ?thesis by (cases e) (simp_all add: under_way_def note_event_def)
  next
    case False
    note v = appended_one(3) [OF ap False]
    show ?thesis
      using assms(1) pending_noted [OF _ v] incremental_terminal(1,2) [OF v] by (simp add: under_way_def)
  qed
  then show ?thesis
    using assms(1) st ev' failed
    by (simp add: under_way_def yield_event_def noted same) (auto simp: s')
qed

lemma item_keeps:
  assumes "run_inv fr f s" and "stream_item fr x s = (s', None)"
  shows "run_inv fr f s'"
proof (cases x)
  case (Emitted e)
  with assms(2) have "stream_event fr e s = (s', None)" by (simp add: stream_item_def)
  then obtain s1 where o: "open_run fr (event_run_id e) s = (s1, None)"
    and k: "(case (case e of Run_succeeded y \<Rightarrow> complete_success fr y s1 | _ \<Rightarrow> (s1, Inr e)) of
          (s, Inl x) \<Rightarrow> (s, Some x)
        | (s, Inr event) \<Rightarrow>
            and_continue (append_to_run event s) (\<lambda>s. (yield_event event (note_event event s), None))) = (s', None)"
    unfolding stream_event_def and_continue_None by blast
  obtain s2 r where c: "(case e of Run_succeeded y \<Rightarrow> complete_success fr y s1 | _ \<Rightarrow> (s1, Inr e)) = (s2, r)"
    by (rule prod.exhaust)
  obtain e' s3 where r: "r = Inr e'" and a: "append_to_run e' s2 = (s3, None)"
    and s': "s' = yield_event e' (note_event e' s3)"
    using k unfolding c by (cases r) (auto simp: and_continue_None)
  obtain i a where u: "under_way fr f i a s1" using open_keeps [OF assms(1) o] by blast
  have "\<exists>c. s2 = s1 \<or> s2 = s1\<lparr>srs_context := c\<rparr>"
    using c r by (cases e) (auto simp: complete_success_def Let_def split: sum.splits option.splits)
  then have "under_way fr f i a s2" using u by (auto simp: under_way_def)
  from append_keeps [OF this a] show ?thesis by (auto simp: run_inv_def s')
qed (use assms in \<open>auto simp: stream_item_def run_inv_def untouched_def under_way_def\<close>)

lemma items_keep: "run_inv fr f s \<Longrightarrow> stream_items fr xs s = (s', None) \<Longrightarrow> run_inv fr f s'"
  by (induction xs arbitrary: s) (auto simp: and_continue_None dest: item_keeps)

lemma start_inv: "run_inv fr f (start_state f inventory memory)"
  by (simp add: run_inv_def untouched_def start_state_def)

section \<open>Cancelling\<close>

lemma append_events_accepted:
  assumes "\<not> ra_finalized a" and "ra_open a" and "list_all (\<lambda>e. \<not> is_text_delta e) es"
    and "run_steps (validate_run_event_incremental (ra_run_id a)) (ra_validator a) es = Inr v"
  shows "\<exists>f' a'. append_events es a f = (f', Inr a') \<and> ra_validator a' = v"
  using assms
proof (induction es arbitrary: a f)
  case Nil
  then show ?case by simp
next
  case (Cons e es)
  from Cons.prems(4) obtain u where u: "validate_run_event_incremental (ra_run_id a) (ra_validator a) e = Inr u"
    and rest: "run_steps (validate_run_event_incremental (ra_run_id a)) u es = Inr v" by auto
  let ?a = "a\<lparr>ra_validator := u, ra_events := ra_events a @ [e]\<rparr>"
  obtain f1 where "append_event (f, a) e = Inr (f1, ?a)"
    using append_accepted [OF Cons.prems(1,2) _ u] Cons.prems(3) by auto
  with Cons.IH [of ?a f1] Cons.prems rest show ?case by simp
qed

lemma yielded_too:
  assumes "append_events es a (srs_files s) = (f', Inr a')" and "srs_appender s = Some a"
  shows "append_and_yield es s
    = (s\<lparr>srs_files := f', srs_appender := Some a', srs_yielded := srs_yielded s @ es\<rparr>, None)"
  using assms
proof (induction es arbitrary: s a)
  case Nil
  then show ?case by (cases s) simp
next
  case (Cons e es)
  then obtain f1 a1 where e: "append_event (srs_files s, a) e = Inr (f1, a1)"
    and rest: "append_events es a1 f1 = (f', Inr a')" by (auto split: sum.splits)
  let ?s = "yield_event e (s\<lparr>srs_files := f1, srs_appender := Some a1\<rparr>)"
  have "append_and_yield es ?s = (?s\<lparr>srs_files := f', srs_appender := Some a',
      srs_yielded := srs_yielded ?s @ es\<rparr>, None)"
    using rest by (intro Cons.IH [of a1]) (simp_all add: yield_event_def)
  then show ?case
    using e Cons.prems(2) by (simp add: append_to_run_def and_continue_def yield_event_def)
qed

lemma failed_calls_accepted:
  assumes "pending_agrees ps v" and "as_started v" and "\<not> as_terminal v"
  shows "run_steps (validate_run_event_incremental i) v (synthesize_tool_failed_events_for_pending now i
      (map (\<lambda>(_, e). \<lparr>ptc_tool_call_id = ev_tool_call_id e, ptc_tool_name = ev_tool_name e,
        ptc_args = ev_args e, ptc_args_valid = ev_args_valid e, ptc_started_at = 0\<rparr>) ps) t m)
    = Inr (v\<lparr>as_pending := []\<rparr>)"
  using assms
proof (induction ps arbitrary: v)
  case Nil
  then show ?case by (cases v) (simp add: pending_agrees_def synthesize_tool_failed_events_for_pending_def)
next
  case (Cons p ps)
  obtain k e where p: "p = (k, e)" by (cases p)
  let ?g = "\<lambda>(i, e :: tool_call_started_event). (i, ev_tool_name e)"
  have k: "ev_tool_call_id e = k" and new: "k \<notin> fst ` set ps" and d: "distinct (map fst ps)"
    and ids: "\<forall>(i, e) \<in> set ps. ev_tool_call_id e = i"
    using Cons.prems(1) by (auto simp: pending_agrees_def p)
  have "rev (as_pending v) = ?g p # map ?g ps" using Cons.prems(1) by (simp add: pending_agrees_def)
  then have pend: "as_pending v = rev (map ?g ps) @ [(k, ev_tool_name e)]"
    by (metis (no_types, lifting) case_prod_conv p rev.simps(2) rev_swap)
  have out: "k \<notin> fst ` set (rev (map ?g ps))" using new by force
  then have "map_of (rev (map ?g ps)) k = None" by (simp only: map_of_eq_None_iff not_False_eq_True)
  then have at: "map_of (as_pending v) k = Some (ev_tool_name e)"
    unfolding pend map_of_append by (simp add: map_add_def)
  have "filter (\<lambda>q. fst q \<noteq> k) (rev (map ?g ps)) = rev (map ?g ps)"
    using out by (intro filter_True) force
  then have drop: "drop_call k (as_pending v) = rev (map ?g ps)"
    unfolding pend drop_call_def filter_append by simp
  have step: "validate_run_event_incremental i v (Tool_call_failed
       \<lparr>ev_run_id = i, ev_tool_call_id = k, ev_tool_name = ev_tool_name e, ev_activity = x,
        ev_error_type = t, ev_message = m\<rparr>) = Inr (v\<lparr>as_pending := rev (map ?g ps)\<rparr>)" for x
    using Cons.prems(2,3) by (simp add: validate_run_event_incremental_def at drop)
  have "pending_agrees ps (v\<lparr>as_pending := rev (map ?g ps)\<rparr>)" using d ids by (simp add: pending_agrees_def)
  from Cons.IH [OF this] Cons.prems(2,3) show ?case
    by (simp add: p k step synthesize_tool_failed_events_for_pending_def)
qed

text \<open>A run that has begun: the first event the stream yields is \<open>run_started\<close>.\<close>

definition begun :: "session_run_state \<Rightarrow> bool" where
  "begun s \<longleftrightarrow> (case srs_yielded s of [] \<Rightarrow> False | e # _ \<Rightarrow> is_run_started e)"

lemma started_stays:
  "run_steps (validate_run_event_incremental i) v es = Inr w \<Longrightarrow> as_started v \<Longrightarrow> as_started w"
proof (induction es arbitrary: v)
  case (Cons e es)
  then obtain u where u: "validate_run_event_incremental i v e = Inr u"
    and rest: "run_steps (validate_run_event_incremental i) u es = Inr w" by auto
  have "as_started u"
    using u Cons.prems(2)
    by (cases e) (auto simp: validate_run_event_incremental_def Let_def split: if_splits option.splits)
  with Cons.IH [OF rest] show ?case by blast
qed simp

text \<open>What is known of a run that is under way in a session that loads.\<close>

lemma under_way_log:
  assumes "under_way fr f i a s" and "sfl_log f = Some log"
  shows "sfl_log (srs_files s) = Some (log
        @ [Run_entry \<lparr>sr_run_id = i, sr_prompt = srf_prompt fr, sr_thinking = srf_thinking fr\<rparr>]
        @ map (\<lambda>e. Event_entry \<lparr>se_run_id = i, se_event = e\<rparr>) (persisted (srs_yielded s)))"
    and "sfl_metadata (srs_files s) = sfl_metadata f"
    and "run_steps (validate_run_event_incremental i) appender_start (persisted (srs_yielded s)) = Inr (ra_validator a)"
    and "ra_run_id a = i" "ra_events a = persisted (srs_yielded s)" "ra_open a" "\<not> ra_finalized a"
    and "ra_root a = srf_root fr" "ra_shell a = srf_shell fr"
proof -
  obtain f1 a0 where st: "start_run_to_session (srf_root fr) (srf_shell fr) (srf_session_id fr) (srf_now fr) i
        (srf_prompt fr) (srf_thinking fr) f = (f1, Inr a0)"
    and ev: "append_events (srs_yielded s) a0 f1 = (srs_files s, Inr a)"
    using assms(1) by (auto simp: under_way_def)
  have f1: "sfl_log f1 = Some (log
      @ [Run_entry \<lparr>sr_run_id = i, sr_prompt = srf_prompt fr, sr_thinking = srf_thinking fr\<rparr>])"
    using started_log [OF st assms(2)] by simp
  have m: "sfl_metadata f1 = sfl_metadata f"
    using st assms(2)
    by (auto simp: start_run_to_session_def ensure_session_is_appendable_def write_entry_def
        split: prod.splits sum.splits if_splits)
  note a0 = started_appender [OF st] and e = appended_events [OF ev f1]
  show "sfl_log (srs_files s) = Some (log
        @ [Run_entry \<lparr>sr_run_id = i, sr_prompt = srf_prompt fr, sr_thinking = srf_thinking fr\<rparr>]
        @ map (\<lambda>e. Event_entry \<lparr>se_run_id = i, se_event = e\<rparr>) (persisted (srs_yielded s)))"
    "sfl_metadata (srs_files s) = sfl_metadata f"
    "run_steps (validate_run_event_incremental i) appender_start (persisted (srs_yielded s)) = Inr (ra_validator a)"
    "ra_run_id a = i" "ra_events a = persisted (srs_yielded s)" "ra_open a" "\<not> ra_finalized a"
    "ra_root a = srf_root fr" "ra_shell a = srf_shell fr"
    using e by (simp_all add: a0 m)
qed

lemma cancelled:
  assumes "under_way fr f i a s" and "sfl_log f = Some log" and "begun s" and "\<not> srs_finalize s"
  obtains s' a' events where "on_cancelled fr t m s = (s', None)" and "under_way fr f i a' s'"
    and "srs_finalize s'" and "srs_failed s'" and "srs_messages s' = srs_messages s"
    and "srs_yielded s' = srs_yielded s @ events"
    and "last events = failure_event i t (if m = [] then lit ''run cancelled'' else m)" and "events \<noteq> []"
proof -
  let ?m = "if m = [] then lit ''run cancelled'' else m"
  let ?calls = "failed_calls fr i t ?m s" and ?outcome = "failure_event i t ?m"
  note u = under_way_log [OF assms(1,2)]
  have agrees: "pending_agrees (srs_pending s) (ra_validator a)" and open_end: "\<not> as_terminal (ra_validator a)"
    and app: "srs_appender s = Some a" "srs_run_id s = Some i"
    using assms(1,4) by (auto simp: under_way_def)
  obtain e es where y: "srs_yielded s = e # es" and "is_run_started e"
    using assms(3) by (auto simp: begun_def split: list.splits)
  then have "persisted (srs_yielded s) = e # persisted es" by (cases e) (simp_all add: persisted_def)
  with u(3) obtain v where v: "validate_run_event_incremental i appender_start e = Inr v"
    and rest: "run_steps (validate_run_event_incremental i) v (persisted es) = Inr (ra_validator a)" by auto
  from v \<open>is_run_started e\<close> have "as_started v"
    by (cases e) (auto simp: validate_run_event_incremental_def Let_def split: if_splits)
  with rest have started: "as_started (ra_validator a)" by (rule started_stays)
  have "run_steps (validate_run_event_incremental i) (ra_validator a) ?calls = Inr (ra_validator a\<lparr>as_pending := []\<rparr>)"
    unfolding failed_calls_def pending_of_def using agrees started open_end by (rule failed_calls_accepted)
  moreover have "list_all (\<lambda>e. \<not> is_text_delta e) ?calls"
    by (simp add: failed_calls_def synthesize_tool_failed_events_for_pending_def list_all_iff)
  ultimately obtain f1 a1 where c: "append_events ?calls a (srs_files s) = (f1, Inr a1)"
    and a1: "ra_validator a1 = ra_validator a\<lparr>as_pending := []\<rparr>"
    using append_events_accepted [of a ?calls _ "srs_files s"] u(4,6,7) by auto
  obtain f0 where "sfl_log (srs_files s) = Some f0" using u(1) by blast
  from appended_events [OF c this] have a1': "\<not> ra_finalized a1" "ra_open a1" "ra_run_id a1 = i"
    using u(4,6,7) by simp_all
  have valid: "validate_run_event_incremental (ra_run_id a1) (ra_validator a1) ?outcome
      = Inr (ra_validator a\<lparr>as_pending := [], as_terminal := True\<rparr>)"
    using started open_end by (simp add: a1 a1'(3) validate_run_event_incremental_def failure_event_def)
  have "\<not> is_text_delta ?outcome" by (simp add: failure_event_def)
  from append_accepted [OF a1'(1,2) this valid, of f1]
  obtain f2 a2 where e: "append_event (f1, a1) ?outcome = Inr (f2, a2)"
    and a2: "ra_validator a2 = ra_validator a\<lparr>as_pending := [], as_terminal := True\<rparr>" by auto
  let ?s = "s\<lparr>srs_files := f2, srs_appender := Some a2, srs_yielded := srs_yielded s @ ?calls @ [?outcome],
      srs_pending := [], srs_failed := True, srs_finalize := True\<rparr>"
  have on: "on_cancelled fr t m s = (?s, None)"
    using yielded_too [OF c app(1)] e
    by (simp add: on_cancelled_def app Let_def and_continue_def append_to_run_def yield_event_def)
  obtain f3 a3 where st: "start_run_to_session (srf_root fr) (srf_shell fr) (srf_session_id fr) (srf_now fr) i
        (srf_prompt fr) (srf_thinking fr) f = (f3, Inr a3)"
    and ev: "append_events (srs_yielded s) a3 f3 = (srs_files s, Inr a)"
    using assms(1) by (auto simp: under_way_def)
  have "append_events (srs_yielded s @ ?calls @ [?outcome]) a3 f3 = (f2, Inr a2)"
    using c e by (simp add: append_events_append ev)
  then have "under_way fr f i a2 ?s"
    using st by (simp add: under_way_def app a2 pending_agrees_def)
  then show thesis
    by (rule that [of ?s a2 "?calls @ [?outcome]", OF on]) simp_all
qed

section \<open>Closing\<close>

definition normalized_root :: "session_run_frame \<Rightarrow> bool" where
  "normalized_root fr \<longleftrightarrow>
     (case normalize_workspace_root (te_fs (pe_turn (srf_environment fr))) (srf_root fr) of
        Inl _ \<Rightarrow> False | Inr root \<Rightarrow> path_str root = srf_root fr)"

lemma context_built:
  assumes "normalized_root fr"
  obtains c where "build_run_turn_context fr i s = Inr c" and "stc_run_id c = i"
    and "stc_workspace_root c = srf_root fr" and "stc_shell_family c = srf_shell fr"
proof -
  obtain root where "normalize_workspace_root (te_fs (pe_turn (srf_environment fr))) (srf_root fr) = Inr root"
    and "path_str root = srf_root fr"
    using assms by (auto simp: normalized_root_def split: sum.splits)
  then have "\<exists>c. build_run_turn_context fr i s = Inr c \<and> stc_run_id c = i
      \<and> stc_workspace_root c = srf_root fr \<and> stc_shell_family c = srf_shell fr"
    by (simp add: build_run_turn_context_def build_session_turn_context_entry_def resolve_values_def
        build_runtime_context_text_def or_default_def)
  then show thesis using that by blast
qed

lemma finalize_accepted:
  assumes "\<not> ra_finalized a" and "ra_open a" and "sfl_metadata f \<noteq> None"
    and "validate_run_record (run_record (ra_run_id a) [] None (rc_messages c) (ra_events a)) = Inr i"
    and "closing_fits (ra_root a) (ra_run_id a) c"
    and "\<forall>e. rc_context c = Some e \<longrightarrow> stc_shell_family e = ra_shell a"
  shows "\<exists>a' f'. finalize c now a f = (a', f', Inr ())"
proof -
  obtain md where md: "sfl_metadata f = Some md" using assms(3) by blast
  have "\<exists>f1. finalize_messages (rc_messages c) a f = (f1, Inr ()) \<and> sfl_metadata f1 = Some md"
    using assms(4) md by (simp add: finalize_messages_def run_record_def write_entry_def)
  then obtain f1 where 1: "finalize_messages (rc_messages c) a f = (f1, Inr ())" "sfl_metadata f1 = Some md" by blast
  have "\<exists>f2. finalize_inventory (rc_inventory c) a f1 = (f2, Inr ()) \<and> sfl_metadata f2 = Some md"
    using assms(5) 1(2)
    by (auto simp: finalize_inventory_def closing_fits_def write_entry_def split: option.splits)
  then obtain f2 where 2: "finalize_inventory (rc_inventory c) a f1 = (f2, Inr ())" "sfl_metadata f2 = Some md" by blast
  have "\<exists>f3. finalize_context (rc_context c) a f2 = (f3, Inr ()) \<and> sfl_metadata f3 = Some md"
    using assms(5,6) 2(2)
    by (auto simp: finalize_context_def closing_fits_def write_entry_def split: option.splits)
  then obtain f3 where 3: "finalize_context (rc_context c) a f2 = (f3, Inr ())" "sfl_metadata f3 = Some md" by blast
  have "\<exists>f4. finalize_grants (rc_grants c) a f3 = (f4, Inr ()) \<and> sfl_metadata f4 = Some md"
    using assms(5) 3(2)
    by (auto simp: finalize_grants_def closing_fits_def write_entry_def split: option.splits)
  then obtain f4 where 4: "finalize_grants (rc_grants c) a f3 = (f4, Inr ())" "sfl_metadata f4 = Some md" by blast
  show ?thesis
    using assms(1,2) by (simp add: finalize_def 1 2 3 4 and_then_def update_session_metadata_def)
qed

lemma closed:
  assumes "under_way fr f i a s" and "srs_finalize s" and "srs_messages s = Some ms"
    and "validate_run_messages (final_messages (srs_failed s) ms) = Inr ()"
    and "normalized_root fr" and "sfl_log f = Some log" and "load_entries (srf_root fr) log = Inr l"
    and "i \<notin> rr_run_id ` set (lo_runs l)" and "sfl_metadata f \<noteq> None"
  obtains s' log' c where "finish_run fr outcome s = (s', outcome)" and "srs_yielded s' = srs_yielded s"
    and "sfl_log (srs_files s') = Some log'" and "rc_messages c = final_messages (srs_failed s) ms"
    and "load_entries (srf_root fr) log' = Inr (run_added c (run_record i (srf_prompt fr) (srf_thinking fr)
          (final_messages (srs_failed s) ms) (persisted (srs_yielded s))) l)"
proof -
  note u = under_way_log [OF assms(1,6)]
  have app: "srs_appender s = Some a" "srs_run_id s = Some i" and ended: "as_terminal (ra_validator a)"
    using assms(1,2) by (auto simp: under_way_def)
  obtain x where x: "build_run_turn_context fr i s = Inr x" "stc_run_id x = i"
    "stc_workspace_root x = srf_root fr" "stc_shell_family x = srf_shell fr"
    using context_built [OF assms(5)] by blast
  let ?c = "final_closing s i ms x"
  have rec: "validate_run_record (run_record i [] None (rc_messages ?c) (persisted (srs_yielded s))) = Inr i"
    using terminal_accepted [OF u(3) ended] assms(4)
    by (simp add: validate_run_record_def run_record_def final_closing_def)
  have fits: "closing_fits (srf_root fr) i ?c"
    using x by (auto simp: closing_fits_def final_closing_def current_inventory_entry_def to_session_entry_def)
  have m: "sfl_metadata (srs_files s) \<noteq> None" using u(2) assms(9) by simp
  have shell: "\<forall>e. rc_context ?c = Some e \<longrightarrow> stc_shell_family e = ra_shell a"
    using x by (simp add: final_closing_def u)
  obtain a' f' where fin: "finalize ?c (srf_now fr) a (srs_files s) = (a', f', Inr ())"
    using finalize_accepted [OF u(7,6) m _ _ shell, of i "srf_now fr"] rec fits by (auto simp: u)
  let ?s = "close_appender (s\<lparr>srs_appender := Some a', srs_files := f', srs_context := Some x\<rparr>)"
  have finish: "finish_run fr outcome s = (?s, outcome)"
    using fin by (simp add: finish_run_def finalize_session_def app assms(2,3) x(1))
  have yielded: "srs_yielded ?s = srs_yielded s" and files: "srs_files ?s = f'"
    by (simp_all add: close_appender_def)
  have log': "sfl_log f' = Some (log @ run_entries i (srf_prompt fr) (srf_thinking fr) (rc_messages ?c)
      (persisted (srs_yielded s)) @ closing_entries ?c)"
    using finalized [OF fin u(1)] by (simp add: u run_entries_def)
  have msgs: "rc_messages ?c = final_messages (srs_failed s) ms" by (simp add: final_closing_def)
  note loads = loaded_closed_run [OF assms(7,8) u(3) rec fits, of "srf_prompt fr" "srf_thinking fr"]
  show thesis
    by (rule that [OF finish yielded _ msgs loads [unfolded msgs]]) (simp only: files log' msgs)
qed

section \<open>What a run leaves\<close>

lemma streamed:
  assumes "stream_items fr items (start_state f inventory memory) = (s, None)" and "srs_run_id s = Some i"
  obtains a where "under_way fr f i a s"
  using items_keep [OF start_inv assms(1)] assms(2) by (auto simp: run_inv_def untouched_def under_way_def)

lemma ended_pending:
  assumes "run_steps (validate_run_event_incremental i) appender_start es = Inr v" and "as_terminal v"
  shows "as_pending v = []"
proof -
  have "es \<noteq> []" using assms by (auto simp: appender_start_def)
  then obtain xs e where es: "es = xs @ [e]" by (cases es rule: rev_cases) auto
  with assms obtain u where u: "validate_run_event_incremental i u e = Inr v" by auto
  then have "is_terminal_event e" using incremental_terminal(1) assms(2) by blast
  with u incremental_terminal(3) [OF u] show ?thesis
    by (cases e) (auto simp: validate_run_event_incremental_def Let_def split: if_splits)
qed

lemma finish_ignores:
  "srs_files (fst (finish_run fr outcome (s\<lparr>srs_yielded := y, srs_pending := p\<rparr>)))
    = srs_files (fst (finish_run fr outcome s))"
  by (simp add: finish_run_def finalize_session_def final_closing_def current_inventory_entry_def
      build_run_turn_context_def close_appender_def Let_def split: option.split sum.split prod.split)

lemma ended_cancelled:
  assumes "under_way fr f i a s" and "sfl_log f = Some log" and "srs_finalize s"
  shows "on_cancelled fr t m s = (s, Some (Append_failed (Bad_event After_terminal)))"
proof -
  note u = under_way_log [OF assms(1,2)]
  have app: "srs_appender s = Some a" "srs_run_id s = Some i" and ended: "as_terminal (ra_validator a)"
    and agrees: "pending_agrees (srs_pending s) (ra_validator a)"
    using assms(1,3) by (auto simp: under_way_def)
  have none: "srs_pending s = []"
    using ended_pending [OF u(3) ended] agrees by (simp add: pending_agrees_def)
  then have "failed_calls fr i t x s = []" for x
    by (simp add: failed_calls_def pending_of_def synthesize_tool_failed_events_for_pending_def)
  moreover have "s\<lparr>srs_pending := []\<rparr> = s" using none by (cases s) simp
  moreover have "append_event (srs_files s, a) (failure_event i t x) = Inl (Bad_event After_terminal)" for x
    using ended by (simp add: append_event_def failure_event_def u validate_run_event_incremental_def)
  ultimately show ?thesis
    by (simp add: on_cancelled_def app Let_def and_continue_def append_to_run_def)
qed

lemma ended_files:
  assumes "under_way fr f i a s" and "sfl_log f = Some log" and "srs_finalize s"
    and "stream_items fr items s0 = (s, None)"
  obtains outcome where "srs_files (fst (stream_session_run fr describe items stop s0))
    = srs_files (fst (finish_run fr outcome s))"
proof (cases stop)
  case Stream_ends
  show thesis by (rule that [of Run_completed]) (simp add: stream_session_run_def assms(4) Stream_ends)
next
  case (Stream_cancelled t m)
  show thesis
    by (rule that [of "Session_raised (Append_failed (Bad_event After_terminal))"])
      (simp add: stream_session_run_def assms(4) Stream_cancelled ended_cancelled [OF assms(1-3)])
next
  case (Stream_raises t m)
  show thesis
    by (rule that [of "Run_raised t m"])
      (simp add: stream_session_run_def assms(4) Stream_raises on_raised_def finish_ignores Let_def
        split: option.split)
next
  case Consumer_leaves
  show thesis by (rule that [of Run_abandoned]) (simp add: stream_session_run_def assms(4) Consumer_leaves)
qed



text \<open>
  A stream that raises takes its session with it, as the source documents: the consumer is told that the run
  failed, but nothing of it is written, and the log that is left does not load.
\<close>

theorem raising_streams_strand_the_session:
  assumes "sfl_log f = Some log" and "load_entries (srf_root fr) log = Inr l"
    and "stream_items fr items (start_state f inventory memory) = (s, None)"
    and "srs_run_id s = Some i" and "i \<notin> rr_run_id ` set (lo_runs l)" and "\<not> srs_finalize s"
  shows "\<exists>s' e. stream_session_run fr describe items (Stream_raises t m) (start_state f inventory memory)
        = (s', Run_raised t m)
    \<and> last (srs_yielded s') = Run_failed e \<and> ev_failure_type e = t
    \<and> load_log (srf_root fr) (srs_files s') = Inl (Log_unreadable Incomplete_run)"
proof -
  obtain a where u: "under_way fr f i a s" using assms(3,4) by (rule streamed)
  note log = under_way_log [OF u assms(1)]
  let ?s = "on_raised fr t m s"
  have "finish_run fr (Run_raised t m) ?s = (close_appender ?s, Run_raised t m)"
    using assms(4,6) by (simp add: finish_run_def finalize_session_def on_raised_def Let_def split: option.split)
  moreover have "srs_files (close_appender ?s) = srs_files s"
    using assms(4) by (simp add: close_appender_def on_raised_def Let_def)
  moreover have "\<exists>e. last (srs_yielded (close_appender ?s)) = Run_failed e \<and> ev_failure_type e = t"
    using assms(4) by (simp add: close_appender_def on_raised_def failure_event_def Let_def)
  moreover have "load_log (srf_root fr) (srs_files s) = Inl (Log_unreadable Incomplete_run)"
    using log(1) unfinished_run_unloadable [OF assms(2,5) log(3)] by (simp add: load_log_def)
  ultimately show ?thesis by (auto simp: stream_session_run_def assms(3))
qed

text \<open>
  A cancellation that comes after the outcome, while the stream is being closed, is lost: the handler appends a second outcome, which the
  validator of the log refuses, and its error reaches the caller in place of the cancellation.
\<close>

theorem late_cancellations_are_lost:
  assumes "sfl_log f = Some log" and "load_entries (srf_root fr) log = Inr l" and "sfl_metadata f \<noteq> None"
    and "normalized_root fr"
    and "stream_items fr items (start_state f inventory memory) = (s, None)"
    and "srs_run_id s = Some i" and "i \<notin> rr_run_id ` set (lo_runs l)" and "srs_finalize s"
    and "srs_messages s = Some ms"
    and "validate_run_messages (final_messages (srs_failed s) ms) = Inr ()"
  shows "snd (stream_session_run fr describe items (Stream_cancelled t m) (start_state f inventory memory))
    = Session_raised (Append_failed (Bad_event After_terminal))"
proof -
  obtain a where u: "under_way fr f i a s" using assms(5,6) by (rule streamed)
  obtain s' where "finish_run fr (Session_raised (Append_failed (Bad_event After_terminal))) s
      = (s', Session_raised (Append_failed (Bad_event After_terminal)))"
    using u assms(8,9,10,4,1,2,7,3) by (rule closed)
  then show ?thesis
    by (simp add: stream_session_run_def assms(5) ended_cancelled [OF u assms(1,8)])
qed

section \<open>A concrete run\<close>

definition sample_frame :: session_run_frame where
  "sample_frame =
     \<lparr>srf_root = ''/w'', srf_session_id = ''s'', srf_now = 7, srf_clock = 9, srf_prompt = [66],
      srf_model = ''m'', srf_date = lit ''2026-01-02'', srf_shell = Posix, srf_timezone = lit ''UTC'',
      srf_thinking = None, srf_capabilities = ps_effective_capabilities build_default_permission_state,
      srf_environment = gr_environment sample_gate, srf_utilization = (7, 10), srf_window = None,
      srf_loaded = None, srf_round = \<lambda>_ _. Pyfloat 0 0\<rparr>"

definition sample_call :: tool_call_started_event where
  "sample_call =
     \<lparr>ev_run_id = ''r2'', ev_tool_call_id = ''c9'', ev_tool_name = ''read'', ev_activity = None,
      ev_args = JNull, ev_args_valid = None\<rparr>"

definition sample_items :: "run_item list" where
  "sample_items =
     [Emitted (Run_started \<lparr>ev_run_id = ''r2''\<rparr>), Recorded sample_conversation,
      Emitted (Tool_call_started sample_call)]"

definition sample_failed_items :: "run_item list" where
  "sample_failed_items =
     [Emitted (Run_started \<lparr>ev_run_id = ''r2''\<rparr>), Recorded sample_conversation,
      Emitted (failure_event ''r2'' [69] [69])]"

lemma sample_frame_root: "normalized_root sample_frame" "srf_root sample_frame = ''/w''"
proof -
  have "case normalize_workspace_root sample_fs ''/w'' of Inl _ \<Rightarrow> False | Inr root \<Rightarrow> path_str root = ''/w''"
    by code_simp
  moreover show root: "srf_root sample_frame = ''/w''" by (simp add: sample_frame_def)
  moreover have "te_fs (pe_turn (srf_environment sample_frame)) = sample_fs"
    by (simp add: sample_frame_def sample_gate_def sample_environment_def)
  ultimately show "normalized_root sample_frame" by (simp only: normalized_root_def)
qed

lemma stream_items_snoc:
  assumes "stream_items fr xs s = (s1, None)" and "stream_item fr x s1 = (s2, None)"
  shows "stream_items fr (xs @ [x]) s = (s2, None)"
  using assms by (induction xs arbitrary: s) (auto simp: and_continue_None)

lemma sample_begun:
  obtains f1 a c where "stream_items sample_frame [Emitted (Run_started \<lparr>ev_run_id = ''r2''\<rparr>), Recorded sample_conversation]
      (start_state sample_files None empty_memory)
    = ((start_state sample_files None empty_memory)\<lparr>srs_run_id := Some ''r2'', srs_context := Some c,
        srs_files := f1, srs_appender := Some a, srs_messages := Some sample_conversation,
        srs_yielded := [Run_started \<lparr>ev_run_id = ''r2''\<rparr>]\<rparr>, None)"
    and "ra_run_id a = ''r2''" and "ra_open a" and "\<not> ra_finalized a"
    and "ra_validator a = appender_start\<lparr>as_started := True\<rparr>"
proof -
  obtain c where c: "build_run_turn_context sample_frame ''r2''
      ((start_state sample_files None empty_memory)\<lparr>srs_run_id := Some ''r2''\<rparr>) = Inr c"
    using context_built [OF sample_frame_root(1)] by blast
  obtain log a where st: "start_run_to_session ''/w'' Posix ''s'' 7 ''r2'' [66] None sample_files
      = (sample_files\<lparr>sfl_log := Some log\<rparr>, Inr a)"
    and a: "a = \<lparr>ra_root = ''/w'', ra_shell = Posix, ra_run_id = ''r2'', ra_events = [], ra_finalized = False,
           ra_open = True, ra_validator = appender_start\<rparr>"
    using sample_started [of "''r2''"] by auto
  let ?s = "(start_state sample_files None empty_memory)\<lparr>srs_run_id := Some ''r2'', srs_context := Some c,
        srs_files := sample_files\<lparr>sfl_log := Some log\<rparr>, srs_appender := Some a\<rparr>"
  let ?e = "Run_started \<lparr>ev_run_id = ''r2''\<rparr>"
  have o: "open_run sample_frame ''r2'' (start_state sample_files None empty_memory) = (?s, None)"
    using c st by (simp add: open_run_def Let_def start_state_def sample_frame_def)
  have "validate_run_event_incremental ''r2'' appender_start ?e = Inr (appender_start\<lparr>as_started := True\<rparr>)"
    by (simp add: validate_run_event_incremental_def appender_start_def)
  then obtain f1 where ap: "append_event (sample_files\<lparr>sfl_log := Some log\<rparr>, a) ?e
      = Inr (f1, a\<lparr>ra_validator := appender_start\<lparr>as_started := True\<rparr>, ra_events := [?e]\<rparr>)"
    using append_accepted [of a ?e] by (auto simp: a)
  have "stream_event sample_frame ?e (start_state sample_files None empty_memory)
      = (?s\<lparr>srs_files := f1, srs_appender := Some (a\<lparr>ra_validator := appender_start\<lparr>as_started := True\<rparr>,
            ra_events := [?e]\<rparr>), srs_yielded := [?e]\<rparr>, None)"
    using o ap by (simp add: stream_event_def and_continue_def append_to_run_def note_event_def yield_event_def
        start_state_def)
  then show thesis
    by (intro that [of "a\<lparr>ra_validator := appender_start\<lparr>as_started := True\<rparr>, ra_events := [?e]\<rparr>" f1 c])
      (simp_all add: stream_item_def and_continue_def a)
qed

lemma sample_streams:
  obtains s where "stream_items sample_frame sample_items (start_state sample_files None empty_memory) = (s, None)"
    and "srs_run_id s = Some ''r2''" and "begun s" and "\<not> srs_finalize s" and "srs_messages s = Some sample_conversation"
    and "length (srs_pending s) = 1"
proof -
  obtain f1 a c where st: "stream_items sample_frame [Emitted (Run_started \<lparr>ev_run_id = ''r2''\<rparr>), Recorded sample_conversation]
      (start_state sample_files None empty_memory)
    = ((start_state sample_files None empty_memory)\<lparr>srs_run_id := Some ''r2'', srs_context := Some c,
        srs_files := f1, srs_appender := Some a, srs_messages := Some sample_conversation,
        srs_yielded := [Run_started \<lparr>ev_run_id = ''r2''\<rparr>]\<rparr>, None)" (is "_ = (?s, None)")
    and a: "ra_run_id a = ''r2''" "ra_open a" "\<not> ra_finalized a"
      "ra_validator a = appender_start\<lparr>as_started := True\<rparr>"
    by (rule sample_begun)
  obtain v where v: "validate_run_event_incremental (ra_run_id a) (ra_validator a) (Tool_call_started sample_call) = Inr v"
    by (simp add: validate_run_event_incremental_def a sample_call_def appender_start_def)
  obtain f2 a2 where ap: "append_event (f1, a) (Tool_call_started sample_call) = Inr (f2, a2)"
    using append_accepted [OF a(3,2) _ v, of f1] by auto
  let ?s2 = "?s\<lparr>srs_files := f2, srs_appender := Some a2, srs_pending := [(''c9'', sample_call)],
      srs_yielded := srs_yielded ?s @ [Tool_call_started sample_call]\<rparr>"
  have "stream_item sample_frame (Emitted (Tool_call_started sample_call)) ?s = (?s2, None)"
    using ap
    by (simp add: stream_item_def stream_event_def open_run_def and_continue_def append_to_run_def
        note_event_def yield_event_def start_state_def sample_call_def)
  from stream_items_snoc [OF st this] show thesis
    by (intro that [of ?s2]) (simp_all add: sample_items_def begun_def start_state_def)
qed

lemma sample_streams_failed:
  obtains s where "stream_items sample_frame sample_failed_items (start_state sample_files None empty_memory) = (s, None)"
    and "srs_run_id s = Some ''r2''" and "srs_finalize s" and "srs_failed s"
    and "srs_messages s = Some sample_conversation"
proof -
  obtain f1 a c where st: "stream_items sample_frame [Emitted (Run_started \<lparr>ev_run_id = ''r2''\<rparr>), Recorded sample_conversation]
      (start_state sample_files None empty_memory)
    = ((start_state sample_files None empty_memory)\<lparr>srs_run_id := Some ''r2'', srs_context := Some c,
        srs_files := f1, srs_appender := Some a, srs_messages := Some sample_conversation,
        srs_yielded := [Run_started \<lparr>ev_run_id = ''r2''\<rparr>]\<rparr>, None)" (is "_ = (?s, None)")
    and a: "ra_run_id a = ''r2''" "ra_open a" "\<not> ra_finalized a"
      "ra_validator a = appender_start\<lparr>as_started := True\<rparr>"
    by (rule sample_begun)
  let ?e = "failure_event ''r2'' [69] [69]"
  obtain v where v: "validate_run_event_incremental (ra_run_id a) (ra_validator a) ?e = Inr v"
    by (simp add: validate_run_event_incremental_def a failure_event_def appender_start_def)
  obtain f2 a2 where ap: "append_event (f1, a) ?e = Inr (f2, a2)"
    using append_accepted [OF a(3,2) _ v, of f1] by (auto simp: failure_event_def)
  let ?s2 = "?s\<lparr>srs_files := f2, srs_appender := Some a2, srs_failed := True, srs_finalize := True,
      srs_yielded := srs_yielded ?s @ [?e]\<rparr>"
  have "stream_item sample_frame (Emitted ?e) ?s = (?s2, None)"
    using ap
    by (simp add: stream_item_def stream_event_def open_run_def and_continue_def append_to_run_def
        note_event_def yield_event_def start_state_def failure_event_def)
  from stream_items_snoc [OF st this] show thesis
    by (intro that [of ?s2]) (simp_all add: sample_failed_items_def)
qed

lemma sample_session:
  obtains l where "sfl_log sample_files = Some sample_log" and "load_entries (srf_root sample_frame) sample_log = Inr l"
    and "sfl_metadata sample_files \<noteq> None" and "''r2'' \<notin> rr_run_id ` set (lo_runs l)"
proof -
  obtain l where "load_entries ''/w'' sample_log = Inr l" "lo_runs l = [sample_run_record]" by (rule sample_loaded)
  then show thesis
    by (intro that [of l]) (simp_all add: sample_files_def sample_frame_root sample_run_record_def)
qed

lemma sample_recorded: "recorded_conversation sample_conversation"
  by (simp add: recorded_conversation_def sample_conversation_def typed_message_def)



theorem raising_streams_strand_the_session_witness:
  "\<exists>s'. stream_session_run sample_frame (\<lambda>_. ([], [])) sample_items (Stream_raises [67] [])
       (start_state sample_files None empty_memory) = (s', Run_raised [67] [])
     \<and> load_log ''/w'' (srs_files s') = Inl (Log_unreadable Incomplete_run)"
proof -
  obtain l where l: "sfl_log sample_files = Some sample_log" "load_entries (srf_root sample_frame) sample_log = Inr l"
    "''r2'' \<notin> rr_run_id ` set (lo_runs l)" by (rule sample_session)
  obtain s where s: "stream_items sample_frame sample_items (start_state sample_files None empty_memory) = (s, None)"
    "srs_run_id s = Some ''r2''" "\<not> srs_finalize s"
    by (rule sample_streams)
  from raising_streams_strand_the_session [OF l(1,2) s(1,2) l(3) s(3), of "\<lambda>_. ([], [])" "[67]" "[]"]
  show ?thesis by (auto simp: sample_frame_root)
qed

theorem late_cancellations_are_lost_witness:
  "snd (stream_session_run sample_frame (\<lambda>_. ([], [])) sample_failed_items (Stream_cancelled [67] [])
     (start_state sample_files None empty_memory)) = Session_raised (Append_failed (Bad_event After_terminal))"
proof -
  obtain l where l: "sfl_log sample_files = Some sample_log" "load_entries (srf_root sample_frame) sample_log = Inr l"
    "sfl_metadata sample_files \<noteq> None" "''r2'' \<notin> rr_run_id ` set (lo_runs l)" by (rule sample_session)
  obtain s where s: "stream_items sample_frame sample_failed_items (start_state sample_files None empty_memory) = (s, None)"
    "srs_run_id s = Some ''r2''" "srs_finalize s" "srs_failed s" "srs_messages s = Some sample_conversation"
    by (rule sample_streams_failed)
  have "validate_run_messages (final_messages (srs_failed s) sample_conversation) = Inr ()"
    using sanitized_accepted [OF sample_recorded] by (simp add: final_messages_def s(4))
  from late_cancellations_are_lost [OF l(1-3) sample_frame_root(1) s(1,2) l(4) s(3,5) this] show ?thesis .
qed

end
