(* ===== verification/Run_Outcomes.thy ===== *)
theory Run_Outcomes
  imports Run_Tracking Session_Run
begin

text \<open>
  What the loop of \<open>runtime/run.py\<close> promises the session that consumes it, and where it does not keep the
  promise: complete runs, messages before an outcome, restarts that end, and the calls and messages that a
  restart loses.
\<close>

section \<open>Complete runs\<close>

lemma summary_accepted:
  "accepts run_id v (events_of os) v' \<Longrightarrow> accepts run_id v (events_of (with_summary took h os)) v'"
proof (induction took h os arbitrary: v rule: with_summary.induct)
  case (2 took h e os)
  let ?f = "case e of Run_succeeded r \<Rightarrow>
      Run_succeeded (r\<lparr>ev_transcript_summary := Some (build_run_transcript_summary h r took)\<rparr>) | _ \<Rightarrow> e"
  obtain u where u: "validate_run_event_incremental run_id v e = Inr u" and r: "accepts run_id u (events_of os) v'"
    using 2(2) by auto
  have "validate_run_event_incremental run_id v ?f = validate_run_event_incremental run_id v e"
    by (cases e) (simp_all add: validate_run_event_incremental_def Let_def)
  then have "validate_run_event_incremental run_id v ?f = Inr u" using u by simp
  with 2(1) [OF refl r] show ?case by (simp add: Let_def)
qed simp_all

lemma run_starts:
  "accepts run_id appender_start [Run_started \<lparr>ev_run_id = run_id\<rparr>] (appender_start\<lparr>as_started := True\<rparr>)"
  "machine_agrees (no_calls, False) (appender_start\<lparr>as_started := True\<rparr>)"
  by (simp_all add: validate_run_event_incremental_def appender_start_def machine_agrees_def tracks_def
      no_calls_def buffered_for_def)

lemma started_output [simp]:
  "rl_output (start_run_loop run_id prompt history) = [Yielded (Run_started \<lparr>ev_run_id = run_id\<rparr>)]"
  "rl_calls (start_run_loop run_id prompt history) = no_calls"
  by (simp_all add: start_run_loop_def)

lemma accepted_outcome:
  assumes "accepts run_id appender_start es v" and "as_terminal v"
  shows "complete_run run_id es"
  using terminal_accepted [OF assms] by (simp only: accepted_iff_complete)

lemma complete_accepted:
  assumes "complete_run run_id es"
  obtains v where "accepts run_id appender_start es v" and "as_terminal v"
proof -
  have "validate_run_events run_id es True = Inr ()" using assms by (simp only: accepted_iff_complete)
  then have "succeeds (validate_run_events run_id es False)"
    by (cases es) (auto simp: validate_run_events_def succeeds_iff simp del: run_steps.simps split: if_splits)
  then have "succeeds (run_steps (validate_run_event_incremental run_id) appender_start es)"
    unfolding validators_agree by blast
  then obtain v where v: "accepts run_id appender_start es v" unfolding succeeds_iff by blast
  from assms obtain xs e where es: "es = xs @ [e]" and e: "is_terminal_event e"
    by (cases es rule: rev_cases) (auto simp: complete_run_def)
  with v obtain u where "validate_run_event_incremental run_id u e = Inr v" by auto
  then have "as_terminal v" using incremental_terminal(1) e by blast
  with v show thesis by (rule that)
qed

text \<open>
  C8: The loop keeps its event contract when it is orderly: whatever the agent does, however often it is
  restarted, the events so far are accepted by the log, and once the stream has returned they are a complete
  run, with every call closed under its name and exactly one outcome.
\<close>

theorem orderly_runs_are_complete:
  assumes "orderly_run fr agent 0 fuel (start_run_loop (lf_run_id fr) prompt history)"
    and "stream_run fr prompt history agent fuel = (s, r)"
  shows "succeeds (run_steps (validate_run_event_incremental (lf_run_id fr)) appender_start
        (events_of (with_summary took [] (rl_output s))))
    \<and> (r = Some Run_returned \<longrightarrow> complete_run (lf_run_id fr) (events_of (with_summary took [] (rl_output s))))"
proof -
  let ?s = "start_run_loop (lf_run_id fr) prompt history"
  have "run_attempts fr agent 0 fuel ?s = (s, r)" using assms(2) by (simp add: stream_run_def)
  then obtain b where adv: "advances True UNIV fr ?s False s b" and b: "r = Some Run_returned \<longrightarrow> b"
    using run_advances [of fr agent 0 fuel ?s s r True False UNIV] assms(1) by auto
  then obtain os where os: "rl_output s = rl_output ?s @ os"
    and run: "tracker_run True UNIV fr (no_calls, False) (events_of os) (rl_calls s, b)"
    by (auto simp: advances_def)
  from run_accepted [OF run run_starts(2)] obtain v where "accepts (lf_run_id fr) (appender_start\<lparr>as_started := True\<rparr>)
      (events_of os) v" and v: "machine_agrees (rl_calls s, b) v" by blast
  then have "accepts (lf_run_id fr) appender_start (events_of (rl_output s)) v"
    using accepts_append [OF run_starts(1)] by (simp add: os)
  then have acc: "accepts (lf_run_id fr) appender_start (events_of (with_summary took [] (rl_output s))) v"
    by (rule summary_accepted)
  moreover have "as_terminal v" if "r = Some Run_returned" using v b that by (simp add: machine_agrees_def)
  ultimately show ?thesis using accepted_outcome by (auto simp: succeeds_iff)
qed

section \<open>Calls that a restart forgets\<close>

fun closes_call :: "string \<Rightarrow> run_event \<Rightarrow> bool" where
  "closes_call i (Tool_call_succeeded e) \<longleftrightarrow> ev_tool_call_id e = i"
| "closes_call i (Tool_call_failed e) \<longleftrightarrow> ev_tool_call_id e = i"
| "closes_call i _ = False"

lemma keeps_open:
  assumes "accepts run_id v es v'" and "map_of (as_pending v) i \<noteq> None" and "\<forall>e \<in> set es. \<not> closes_call i e"
  shows "map_of (as_pending v') i \<noteq> None"
  using assms
proof (induction es arbitrary: v)
  case (Cons e es)
  then obtain u where u: "validate_run_event_incremental run_id v e = Inr u" and r: "accepts run_id u es v'" by auto
  have "map_of (as_pending u) i \<noteq> None"
    using u Cons.prems(2,3)
    by (cases e) (auto simp: validate_run_event_incremental_def Let_def split: if_splits option.splits)
  from Cons.IH [OF r this] Cons.prems(3) show ?case by simp
qed simp

text \<open>The events that processing a call with an id may emit.\<close>

fun own_event :: "string \<Rightarrow> run_event \<Rightarrow> bool" where
  "own_event i (Tool_call_started e) \<longleftrightarrow> ev_tool_call_id e = i"
| "own_event i (Tool_call_updated e) = True"
| "own_event i (Tool_call_succeeded e) \<longleftrightarrow> ev_tool_call_id e = i"
| "own_event i (Tool_call_failed e) \<longleftrightarrow> ev_tool_call_id e = i"
| "own_event i (Run_failed e) = True"
| "own_event i _ = False"

lemma own_closes: "own_event j e \<Longrightarrow> closes_call i e \<Longrightarrow> i = j"
  by (cases e) simp_all

lemma closes_own: "closes run_id j p e \<Longrightarrow> own_event j e"
  by (auto simp: closes_def)

lemma updates_own:
  "map_results (\<lambda>u. build_tool_updated_event validate now run_id u p) us = Inr es \<Longrightarrow> e \<in> set es \<Longrightarrow> own_event i e"
proof (induction us arbitrary: es)
  case (Cons u us)
  then show ?case
    by (cases "build_updated_tool_activity validate (tk_tool_name p) (tk_args p) (tk_args_valid p)
          (qtu_partial_result u) (elapsed_ms now (tk_started_at p))";
        cases "map_results (\<lambda>u. build_tool_updated_event validate now run_id u p) us")
      (auto simp: build_tool_updated_event_def)
qed simp

lemma call_owns:
  assumes "process_tool_call_event loads validate now run_id available attempts call t = (t', r)"
  shows "fc_tool_call_id call \<noteq> i \<Longrightarrow> map_of (ct_pending t') i = map_of (ct_pending t) i"
    and "r = Inr x \<Longrightarrow> e \<in> set (call_events x) \<Longrightarrow> own_event (fc_tool_call_id call) e"
proof -
  let ?i = "fc_tool_call_id call"
  have *: "(?i \<noteq> i \<longrightarrow> map_of (ct_pending t') i = map_of (ct_pending t) i)
    \<and> (r = Inr x \<longrightarrow> e \<in> set (call_events x) \<longrightarrow> own_event ?i e)"
  proof (cases "normalize_tool_args loads (fc_args call) (fc_args_valid call)")
    case (Inl e)
    then show ?thesis using assms(1) by (auto simp: process_tool_call_event_def Let_def)
  next
    case (Inr a)
    show ?thesis
    proof (cases "map_of (ct_pending t) ?i")
      case (Some p)
      then show ?thesis using assms(1) Inr by (auto simp: process_tool_call_event_def Let_def split: if_splits)
    next
      case None
      let ?p = "\<lparr>tk_tool_name = fc_tool_name call, tk_args = nta_args a, tk_args_valid = nta_args_valid a,
        tk_started_at = now\<rparr>"
      let ?us = "map_results (\<lambda>u. build_tool_updated_event validate now run_id u ?p) (buffered_for t ?i)"
      show ?thesis
      proof (cases ?us)
        case (Inl e)
        then show ?thesis using assms None Inr
          by (auto simp: process_tool_call_event_def Let_def drain_buffered_tool_updates_def AList.update_conv)
      next
        case us: (Inr us)
        have plain: "own_event ?i e" if "e \<in> set (started_event run_id ?i ?p # us)" for e
          using that updates_own [OF us] by (auto simp: started_event_def)
        show ?thesis
        proof (cases "malformed_tool_correction_message loads (fc_tool_name call) (fc_args call) (nta_args_valid a)
            available")
          case none: None
          then show ?thesis using assms None Inr us plain
            by (auto simp: process_tool_call_event_def Let_def drain_buffered_tool_updates_def AList.update_conv)
        next
          case (Some m)
          let ?t2 = "t\<lparr>ct_pending := AList.update ?i ?p (ct_pending t),
            ct_buffered := AList.delete ?i (ct_buffered t)\<rparr>"
          have c: "correct_tool_call validate now run_id attempts ?i ?p m (started_event run_id ?i ?p # us) ?t2 = (t', r)"
            using assms(1) None Inr us Some
            by (simp add: process_tool_call_event_def Let_def drain_buffered_tool_updates_def)
          then have "?i \<noteq> i \<longrightarrow> map_of (ct_pending t') i = map_of (ct_pending t) i"
            by (auto simp: correct_tool_call_def Let_def AList.update_conv AList.delete_conv split: if_splits)
          moreover have "own_event ?i e" if x: "r = Inr x" and e: "e \<in> set (call_events x)"
          proof -
            from c x consider (over) kind message where "x = Call_exhausted ((started_event run_id ?i ?p # us)
                  @ [failed_event now run_id ?i ?p kind message, run_failure run_id kind message])"
              | (again) y where "succeeded_event validate now run_id ?i ?p (tool_error_result retry_prompt_type m) JNull = Inr y"
                "x = Call_corrected m ((started_event run_id ?i ?p # us) @ [y])"
              by (cases "succeeded_event validate now run_id ?i ?p (tool_error_result retry_prompt_type m) JNull")
                (auto simp: correct_tool_call_def Let_def split: if_splits)
            then show ?thesis
            proof cases
              case over
              with e plain show ?thesis by (auto simp: run_failure_def failed_event_def)
            next
              case again
              with e plain closes_own [OF succeeded_closes [OF again(1)]] show ?thesis by auto
            qed
          qed
          ultimately show ?thesis by blast
        qed
      qed
    qed
  qed
  then show "?i \<noteq> i \<Longrightarrow> map_of (ct_pending t') i = map_of (ct_pending t) i"
    and "r = Inr x \<Longrightarrow> e \<in> set (call_events x) \<Longrightarrow> own_event ?i e" by blast+
qed

lemma result_owns:
  assumes "process_tool_result_event validate now run_id x t = (t', r)"
  shows "map_of (ct_pending t) i = None \<Longrightarrow> map_of (ct_pending t') i = None"
    and "r = Inr y \<Longrightarrow> e \<in> set (result_events y) \<Longrightarrow>
      own_event (fr_tool_call_id x) e \<and> map_of (ct_pending t) (fr_tool_call_id x) \<noteq> None"
proof -
  let ?i = "fr_tool_call_id x"
  have *: "(map_of (ct_pending t) i = None \<longrightarrow> map_of (ct_pending t') i = None)
    \<and> (r = Inr y \<longrightarrow> e \<in> set (result_events y) \<longrightarrow> own_event ?i e \<and> map_of (ct_pending t) ?i \<noteq> None)"
  proof (cases "resolve_pending_tool_call ?i (fr_tool_name x) t")
    case (Inl e)
    then show ?thesis using assms by (auto simp: process_tool_result_event_def Let_def)
  next
    case (Inr q)
    obtain t1 p where q: "q = (t1, p)" by (cases q)
    with Inr have p: "map_of (ct_pending t) ?i = Some p" and t1: "t1 = t\<lparr>ct_pending := AList.delete ?i (ct_pending t)\<rparr>"
      by (auto simp: resolve_pending_tool_call_def split: option.splits if_splits)
    have "own_event ?i e" if "r = Inr y" "e \<in> set (result_events y)"
    proof -
      have "\<exists>v m. succeeded_event validate now run_id ?i p v m = Inr e"
        using assms(1) Inr q that by (cases "fr_part x")
          (auto simp: process_tool_result_event_def Let_def res_bind_Inr, (intro exI, assumption)+)
      then show ?thesis using succeeded_closes closes_own by metis
    qed
    moreover have "map_of (ct_pending t) i = None \<longrightarrow> map_of (ct_pending t') i = None"
      using assms Inr q t1 by (auto simp: process_tool_result_event_def Let_def AList.delete_conv)
    ultimately show ?thesis using p by blast
  qed
  then show "map_of (ct_pending t) i = None \<Longrightarrow> map_of (ct_pending t') i = None"
    and "r = Inr y \<Longrightarrow> e \<in> set (result_events y) \<Longrightarrow> own_event ?i e \<and> map_of (ct_pending t) ?i \<noteq> None"
    by blast+
qed

lemma update_owns: "build_tool_updated_event validate now run_id u p = Inr e \<Longrightarrow> own_event i e"
  using updates_own [of validate now run_id p "[u]" "[e]" e i] by simp

lemma update_closes_none:
  assumes "build_tool_updated_event validate now run_id u p = Inr e" shows "\<not> closes_call i e"
proof
  assume "closes_call i e"
  then have "i = j" for j using update_owns [OF assms] own_closes by blast
  from this [of "''a''"] this [of "''b''"] show False by simp
qed

lemma answer_owns: "succeeded_event validate now run_id i p outcome metadata = Inr e \<Longrightarrow> own_event i e"
  using succeeded_closes closes_own by metis

text \<open>A call that is not tracked is never closed, unless its id is called again.\<close>

lemma step_forgets:
  assumes "tracker_step False ids fr m es m'" and "i \<notin> ids" and "map_of (ct_pending (fst m)) i = None"
  shows "map_of (ct_pending (fst m')) i = None \<and> (\<forall>e \<in> set es. \<not> closes_call i e)"
  using assms
proof induction
  case (neutral b e t)
  then show ?case by (cases e) (simp_all add: neutral_event_def)
next
  case (called b call now n t t' r)
  then have "fc_tool_call_id call \<noteq> i" by auto
  with call_owns [OF called.hyps(3)] called.prems show ?case by (auto dest: own_closes)
next
  case (call_broken call now n t t' e b)
  then have "fc_tool_call_id call \<noteq> i" by auto
  with call_owns [OF call_broken.hyps(2)] call_broken.prems show ?case by auto
next
  case (returned b now x t t' r)
  have "\<not> closes_call i e" if "e \<in> set (result_events r)" for e
  proof -
    from result_owns(2) [OF returned.hyps(2) refl that] have "own_event (fr_tool_call_id x) e"
      and "map_of (ct_pending t) (fr_tool_call_id x) \<noteq> None" by blast+
    with returned.prems(2) own_closes show ?thesis by fastforce
  qed
  with result_owns(1) [OF returned.hyps(2)] returned.prems show ?case by simp
next
  case (result_broken now x t t' e b)
  then show ?case using result_owns [OF result_broken.hyps(1)] by auto
next
  case (updated b u t t' p now e)
  have "\<not> closes_call i e" using update_closes_none [OF updated.hyps(3)] .
  moreover have "ct_pending t' = ct_pending t" using updated.hyps(2)
    by (auto simp: resolve_tool_update_def Let_def split: option.splits if_splits)
  ultimately show ?case using updated.prems by simp
next
  case (buffered u t t' p b)
  then have "ct_pending t' = ct_pending t"
    by (auto simp: resolve_tool_update_def Let_def split: option.splits if_splits)
  then show ?case using buffered.prems by simp
next
  case (answered b t j p now outcome metadata e)
  then have "j \<noteq> i" by auto
  then have "\<not> closes_call i e" using answer_owns [OF answered.hyps(3)] own_closes by blast
  then show ?case by (simp add: clear_calls_def)
next
  case (failed b t' t now kind message kind' message')
  then have "i \<notin> fst ` set (ct_pending t)" by (simp add: map_of_eq_None_iff)
  then have "\<forall>e \<in> set (synthesize_tool_failed_events_for_pending now (lf_run_id fr) (pending_calls_of t) kind message).
      \<not> closes_call i e"
    by (auto simp: synthesize_tool_failed_events_for_pending_def pending_calls_of_def rev_image_eqI)
  then show ?case using failed.hyps(2) failed.prems by (auto simp: run_failure_def clear_calls_def)
qed (simp_all add: clear_calls_def)

lemma run_forgets:
  assumes "tracker_run False ids fr m es m'" and "i \<notin> ids" and "map_of (ct_pending (fst m)) i = None"
  shows "map_of (ct_pending (fst m')) i = None \<and> (\<forall>e \<in> set es. \<not> closes_call i e)"
  using assms
proof induction
  case (more m es m' es' m'')
  then show ?case using step_forgets [OF more.hyps(2)] by auto
qed simp


section \<open>Concrete runs\<close>

definition sample_loop :: run_loop_frame where
  "sample_loop =
     \<lparr>lf_run_id = ''r1'', lf_deps = None, lf_thinking = None, lf_available = [''read''], lf_model = ''m'',
      lf_window = None, lf_utilization = (7, 10), lf_encode = \<lambda>_ s. length s,
      lf_environment = gr_environment sample_gate, lf_loads = \<lambda>_. Inr JNull, lf_dumps = \<lambda>_. [],
      lf_validate = \<lambda>_. None, lf_installed = \<lambda>_. False, lf_describe = \<lambda>_. ([], []),
      lf_round = \<lambda>_ _. Pyfloat 0 0, lf_steer = False, lf_sink = True, lf_resolve_approval = None,
      lf_resolve_question = None\<rparr>"

text \<open>An agent that calls the tools it is told to, and then answers.\<close>

definition sample_tool_call :: "string \<Rightarrow> string \<Rightarrow> graph_step" where
  "sample_tool_call i name =
     Tool_called \<lparr>fc_tool_call_id = i, fc_tool_name = name, fc_args = Args_missing, fc_args_valid = None\<rparr>"

definition sample_answered :: "string \<Rightarrow> graph_step" where
  "sample_answered i =
     Tool_returned \<lparr>fr_tool_call_id = i, fr_tool_name = None, fr_part = Returned (Some JNull) JNull\<rparr>"

definition sample_attempt :: "graph_step list \<Rightarrow> attempt" where
  "sample_attempt steps =
     \<lparr>at_steps = map (\<lambda>x. ([], 0, x)) steps, at_captured = [], at_now = 0,
      at_end = Graph_finished (Output_text [100]) [] \<lparr>tu_input = 0, tu_output = 0, tu_total = 0\<rparr>, at_closing = None\<rparr>"

definition sample_refused :: "string \<Rightarrow> graph_step" where
  "sample_refused i =
     Tool_returned \<lparr>fr_tool_call_id = i, fr_tool_name = None, fr_part = Retry_text [63]\<rparr>"

definition sample_parallel :: "nat \<Rightarrow> attempt" where
  "sample_parallel n = sample_attempt
     (if n = 0 then [sample_tool_call ''c1'' ''read'', sample_tool_call ''c2'' ''read'', sample_refused ''c2''] else [])"

definition sample_serial :: "nat \<Rightarrow> attempt" where
  "sample_serial n = sample_attempt
     (if n = 0 then [sample_tool_call ''c1'' ''read'', sample_answered ''c1'', sample_tool_call ''c2'' ''read'', sample_refused ''c2''] else [])"

lemmas sample_defs =
  sample_loop_def sample_tool_call_def sample_answered_def sample_refused_def sample_attempt_def sample_parallel_def
  sample_serial_def start_run_loop_def begin_attempt_def

lemmas step_defs =
  run_step_def tool_called_def tool_returned_def process_tool_call_event_def process_tool_result_event_def
  normalize_tool_args_def normalize_json_value_def malformed_tool_correction_message_def
  resolve_pending_tool_call_def drain_buffered_tool_updates_def buffered_for_def succeeded_event_def
  build_succeeded_tool_activity_def submit_if_ready_def leave_tools_def emit_def put_out_def no_calls_def

lemma sample_parallel_stopped:
  obtains s0 where "run_attempt_steps sample_loop (at_steps (sample_parallel 0))
      (begin_attempt (start_run_loop ''r1'' [103] [])) = (s0, Some (Stop_correct [63], [], 0))"
    and "map_of (ct_pending (rl_calls s0)) ''c1'' \<noteq> None"
  by (simp add: sample_defs step_defs Let_def)

lemma sample_parallel_clean:
  "clean_steps sample_loop (at_steps (sample_parallel 0)) (begin_attempt (start_run_loop ''r1'' [103] []))"
  by (simp add: sample_defs step_defs Let_def clean_stop_def)

lemmas attempt_defs =
  run_attempt_def handle_stop_def restart_with_correction_def carry_attempt_def attempt_messages_def clear_calls_def
  fallback_attempt_messages_def sink_def finish_graph_def raise_if_buffered_tool_updates_remain_def
  leave_after_outcome_def

lemma sample_parallel_returns: "snd (stream_run sample_loop [103] [] sample_parallel 2) = Some Run_returned"
  by (simp add: stream_run_def numeral_2_eq_2 attempt_defs sample_defs step_defs Let_def)


lemma sample_serial_orderly: "orderly_run sample_loop sample_serial 0 2 (start_run_loop ''r1'' [103] [])"
  by (simp add: numeral_2_eq_2 orderly_attempt_def orderly_stop_def clean_stop_def attempt_defs sample_defs step_defs
      Let_def)

lemma sample_serial_returns: "snd (stream_run sample_loop [103] [] sample_serial 2) = Some Run_returned"
  by (simp add: stream_run_def numeral_2_eq_2 attempt_defs sample_defs step_defs Let_def)

theorem orderly_runs_are_complete_witness:
  "complete_run ''r1'' (events_of (with_summary 5 [] (rl_output (fst (stream_run sample_loop [103] [] sample_serial 2)))))"
proof -
  let ?r = "stream_run sample_loop [103] [] sample_serial 2"
  have id: "lf_run_id sample_loop = ''r1''" by (simp add: sample_loop_def)
  from orderly_runs_are_complete [where fr = sample_loop and agent = sample_serial and fuel = 2 and prompt = "[103]"
      and history = "[]" and s = "fst ?r" and r = "snd ?r" and took = 5, unfolded id, OF sample_serial_orderly prod.collapse [symmetric]]
  show ?thesis by (simp only: sample_serial_returns simp_thms)
qed

end
