(* ===== verification/Run_Session.thy ===== *)
theory Run_Session
  imports Run_Outcomes Session_Run
begin

text \<open>
  A session that consumes the loop of a run: the shape of what the loop puts out, with the messages it hands
  over before an outcome or right after one, and what \<open>stream_session_run_events\<close> makes of it.
\<close>

section \<open>What a session is given\<close>

definition loop_items :: "run_output list \<Rightarrow> run_item list" where
  "loop_items os = concat (map (\<lambda>x. case x of Yielded e \<Rightarrow> [Emitted e] | Sunk ms \<Rightarrow> [Recorded ms] | _ \<Rightarrow> []) os)"

lemma loop_items_simps [simp]:
  "loop_items [] = []" "loop_items (Yielded e # os) = Emitted e # loop_items os"
  "loop_items (Sunk ms # os) = Recorded ms # loop_items os" "loop_items (Steer_activated # os) = loop_items os"
  "loop_items (Steer_submitted # os) = loop_items os" "loop_items (Steer_deactivated # os) = loop_items os"
  "loop_items (os @ os') = loop_items os @ loop_items os'"
  by (simp_all add: loop_items_def)

fun session_stop :: "run_loop_frame \<Rightarrow> attempt_result \<Rightarrow> run_stop" where
  "session_stop fr (Run_escaped f) = Stream_raises (fst (failure_text fr f)) (snd (failure_text fr f))"
| "session_stop fr (Run_cancelled_through kind message) = Stream_cancelled kind message"
| "session_stop fr _ = Stream_ends"

section \<open>The shape of a run\<close>

text \<open>
  Nothing ends the run; or one outcome does, after the messages. The failure of exhausted corrections is the
  exception: its messages come right after it.
\<close>

definition plain :: "run_output list \<Rightarrow> bool" where
  "plain os \<longleftrightarrow> (\<forall>e \<in> set (events_of os). \<not> is_terminal_event e)"

definition hands_over :: "run_output list \<Rightarrow> bool" where
  "hands_over os \<longleftrightarrow> (\<exists>ms. Sunk ms \<in> set os)"

definition concluded :: "run_output list \<Rightarrow> attempt_result \<Rightarrow> bool" where
  "concluded os r \<longleftrightarrow>
     (plain os \<and> r \<noteq> Run_returned \<and> (\<forall>k m. r = Run_cancelled_through k m \<longrightarrow> hands_over os))
     \<or> (\<exists>xs e zs. os = xs @ Yielded e # zs \<and> plain xs \<and> is_terminal_event e \<and> events_of zs = []
          \<and> (hands_over xs \<or> (\<exists>f. e = Run_failed f) \<and> hands_over zs)
          \<and> (r = Run_returned \<or> (\<exists>f. r = Run_escaped f)))"

lemma plain_simps [simp]:
  "plain []" "plain (os @ os') \<longleftrightarrow> plain os \<and> plain os'"
  "plain (Yielded e # os) \<longleftrightarrow> \<not> is_terminal_event e \<and> plain os" "plain (Sunk ms # os) = plain os"
  by (auto simp: plain_def)

lemma hands_over_simps [simp]:
  "\<not> hands_over []" "hands_over (os @ os') \<longleftrightarrow> hands_over os \<or> hands_over os'"
  "hands_over (Sunk ms # os)"
  by (auto simp: hands_over_def)

lemma updates_plain:
  "map_results (\<lambda>u. build_tool_updated_event validate now run_id u p) us = Inr es \<Longrightarrow>
    \<forall>e \<in> set es. \<not> is_terminal_event e"
proof (induction us arbitrary: es)
  case (Cons u us)
  then show ?case
    by (cases "build_updated_tool_activity validate (tk_tool_name p) (tk_args p) (tk_args_valid p)
          (qtu_partial_result u) (elapsed_ms now (tk_started_at p))";
        cases "map_results (\<lambda>u. build_tool_updated_event validate now run_id u p) us")
      (auto simp: build_tool_updated_event_def)
qed simp

lemma succeeded_plain:
  "succeeded_event validate now run_id i p outcome metadata = Inr e \<Longrightarrow> \<not> is_terminal_event e"
  by (drule succeeded_closes) (auto simp: closes_def)

lemma updated_plain: "build_tool_updated_event validate now run_id u p = Inr e \<Longrightarrow> \<not> is_terminal_event e"
  using updates_plain [of validate now run_id p "[u]" "[e]"] by simp

lemma call_plain:
  assumes "process_tool_call_event loads validate now run_id available n call t = (t', Inr r)"
  shows "if ends_run r then \<exists>es f. call_events r = es @ [Run_failed f] \<and> (\<forall>e \<in> set es. \<not> is_terminal_event e)
    else \<forall>e \<in> set (call_events r). \<not> is_terminal_event e"
proof -
  let ?i = "fc_tool_call_id call"
  obtain a where a: "normalize_tool_args loads (fc_args call) (fc_args_valid call) = Inr a"
    using assms by (auto simp: process_tool_call_event_def Let_def split: sum.splits)
  show ?thesis
  proof (cases "map_of (ct_pending t) ?i")
    case (Some p)
    with a assms show ?thesis by (auto simp: process_tool_call_event_def Let_def split: if_splits)
  next
    case None
    let ?p = "\<lparr>tk_tool_name = fc_tool_name call, tk_args = nta_args a, tk_args_valid = nta_args_valid a,
      tk_started_at = now\<rparr>"
    obtain us where us: "map_results (\<lambda>u. build_tool_updated_event validate now run_id u ?p) (buffered_for t ?i) = Inr us"
      using assms by (auto simp: process_tool_call_event_def Let_def a None drain_buffered_tool_updates_def buffered_for_def
          split: sum.splits)
    let ?es = "started_event run_id ?i ?p # us"
    have es: "\<forall>e \<in> set ?es. \<not> is_terminal_event e"
      using updates_plain [OF us] by (simp add: started_event_def)
    show ?thesis
    proof (cases "malformed_tool_correction_message loads (fc_tool_name call) (fc_args call) (nta_args_valid a) available")
      case none: None
      then show ?thesis using assms us es
        by (simp add: process_tool_call_event_def Let_def a None drain_buffered_tool_updates_def buffered_for_def)
          (auto simp: buffered_for_def)
    next
      case (Some m)
      have "\<exists>t2. correct_tool_call validate now run_id n ?i ?p m ?es t2 = (t', Inr r)"
        using assms us Some by (auto simp: process_tool_call_event_def Let_def a None drain_buffered_tool_updates_def buffered_for_def)
      then consider es2 where "r = Call_exhausted ((?es @ [es2]) @ [run_failure run_id (lit ''RuntimeError'')
            (tool_correction_exhausted_message (fc_tool_name call))])" "\<not> is_terminal_event es2"
        | y where "r = Call_corrected m (?es @ [y])" "\<not> is_terminal_event y"
        by (auto simp: correct_tool_call_def failed_event_def res_bind_Inr Let_def dest: succeeded_plain split: if_splits)
      then show ?thesis
      proof cases
        case 1
        with es show ?thesis by (auto simp: run_failure_def intro!: exI [of _ "?es @ [es2]"])
      qed (use es in auto)
    qed
  qed
qed

lemma result_plain:
  assumes "process_tool_result_event validate now run_id x t = (t', Inr r)"
  shows "\<forall>e \<in> set (result_events r). \<not> is_terminal_event e"
proof (cases "resolve_pending_tool_call (fr_tool_call_id x) (fr_tool_name x) t")
  case (Inr q)
  then show ?thesis using assms succeeded_plain
    by (cases q; cases "fr_part x") (fastforce simp: process_tool_result_event_def res_bind_Inr Let_def)+
qed (use assms in \<open>simp add: process_tool_result_event_def Let_def\<close>)

section \<open>What the loop puts out\<close>

text \<open>Outputs of a step, which ends the run exactly when it returns.\<close>

definition stepped_out :: "run_loop_state \<Rightarrow> run_loop_state \<Rightarrow> bool \<Rightarrow> bool" where
  "stepped_out s s' returns \<longleftrightarrow>
     (\<exists>os. rl_output s' = rl_output s @ os
        \<and> (if returns then \<exists>xs f zs. os = xs @ Yielded (Run_failed f) # zs \<and> plain xs \<and> events_of zs = [] else plain os))"

lemma stepped_out_plain:
  "rl_output s' = rl_output s @ os \<Longrightarrow> plain os \<Longrightarrow> stepped_out s s' False"
  by (auto simp: stepped_out_def)

lemma stepped_out_trans:
  "stepped_out s s1 False \<Longrightarrow> stepped_out s1 s' b \<Longrightarrow> stepped_out s s' b"
  unfolding stepped_out_def by (cases b) (auto, metis append.assoc plain_simps(2))

lemma left_out: "stepped_out s s' b \<Longrightarrow> stepped_out s (leave_tools s') b"
  by (cases b; cases "rl_steer_active s'")
    (fastforce simp: stepped_out_def leave_tools_def plain_def)+

lemma submitted_out [simp]: "stepped_out s s' False \<Longrightarrow> stepped_out s (submit_if_ready s') False"
  by (auto simp: stepped_out_def submit_if_ready_def plain_def)

lemma emitted_out [simp]:
  "rl_output s1 = rl_output s \<Longrightarrow> \<forall>e \<in> set es. \<not> is_terminal_event e \<Longrightarrow> stepped_out s (emit es s1) False"
  by (rule stepped_out_plain [where os = "map Yielded es"]) (simp_all add: plain_def)

lemma same_out [simp]: "rl_output s' = rl_output s \<Longrightarrow> stepped_out s s' False"
  by (rule stepped_out_plain [where os = "[]"]) simp_all

lemma called_out:
  assumes "tool_called fr now call s = (s', stop)"
  shows "stepped_out s s' (stop = Some Stop_return)"
proof -
  obtain t r where p: "process_tool_call_event (lf_loads fr) (lf_validate fr) now (lf_run_id fr) (lf_available fr)
      (rl_corrections s) call (rl_calls s) = (t, r)"
    by (cases "process_tool_call_event (lf_loads fr) (lf_validate fr) now (lf_run_id fr) (lf_available fr)
      (rl_corrections s) call (rl_calls s)")
  show ?thesis
  proof (cases r)
    case (Inl e)
    with assms p show ?thesis by (auto simp: tool_called_def)
  next
    case (Inr x)
    note plain = call_plain [OF p [unfolded Inr]]
    show ?thesis
    proof (cases x)
      case (Call_exhausted es)
      then obtain es1 f where "es = es1 @ [Run_failed f]" "\<forall>e \<in> set es1. \<not> is_terminal_event e" using plain by auto
      with assms p Inr Call_exhausted show ?thesis
        by (fastforce simp: tool_called_def stepped_out_def plain_def)
    qed (use assms p Inr plain in \<open>auto simp: tool_called_def\<close>)
  qed
qed

lemma step_out:
  assumes "run_step fr x s = (s', stop)"
  shows "stepped_out s s' (stop = Some Stop_return)"
proof -
  obtain captured now step where x: "x = (captured, now, step)" by (cases x)
  note step = assms [unfolded run_step_def x prod.case]
  show ?thesis
  proof (cases step)
    case Tool_called
    with step called_out show ?thesis by auto
  next
    case (Tool_returned r)
    obtain t q where p: "process_tool_result_event (lf_validate fr) now (lf_run_id fr) r (rl_calls s) = (t, q)"
      by (cases "process_tool_result_event (lf_validate fr) now (lf_run_id fr) r (rl_calls s)")
    show ?thesis
    proof (cases q)
      case (Inl e)
      with step Tool_returned p show ?thesis by (auto simp: tool_returned_def)
    next
      case (Inr y)
      with step Tool_returned p result_plain [OF p [unfolded Inr]] show ?thesis
        by (cases y) (auto simp: tool_returned_def)
    qed
  next
    case Update_queued
    with step show ?thesis
      by (auto simp: tool_updated_def split: sum.splits option.splits prod.splits dest: updated_plain
         )
  next
    case Approval_queued
    with step show ?thesis
      by (auto simp: ask_approval_def Let_def stepped_out_def split: if_splits option.splits sum.splits)
  next
    case Question_queued
    with step show ?thesis
      by (auto simp: ask_question_def Let_def split: option.splits sum.splits)
  next
    case Streamed
    with step show ?thesis
      by (auto simp: stream_text_def Let_def split: option.splits)
  next
    case Tools_left
    with step left_out [OF same_out] show ?thesis by auto
  next
    case (Tools_entered calls)
    with step show ?thesis
      by (cases "lf_steer fr \<and> calls") (auto simp: enter_tools_def Let_def stepped_out_def plain_def)
  qed (use step in \<open>auto simp: request_model_def note_usage_def Let_def split: if_splits option.splits\<close>)
qed

lemma steps_out:
  assumes "run_attempt_steps fr xs s = (s', stop)"
  shows "stepped_out s s' (map_option fst stop = Some Stop_return)"
  using assms
proof (induction xs arbitrary: s)
  case Nil
  then show ?case by (auto)
next
  case (Cons x xs)
  obtain s1 st where one: "run_step fr x s = (s1, st)" by (cases "run_step fr x s")
  note o = step_out [OF one]
  show ?case
  proof (cases st)
    case None
    with Cons one stepped_out_trans o show ?thesis by fastforce
  next
    case (Some y)
    with Cons.prems one left_out [OF o] show ?thesis by auto
  qed
qed

lemma going_on: "plain os \<Longrightarrow> concluded os Attempt_restarted"
  by (simp add: concluded_def)

lemma escaping: "plain os \<Longrightarrow> concluded os (Run_escaped f)"
  by (simp add: concluded_def)

lemma outcome_last:
  assumes "plain xs" and "hands_over xs" and "is_terminal_event e" and "r = Run_returned \<or> (\<exists>f. r = Run_escaped f)"
  shows "concluded (xs @ [Yielded e]) r"
  using assms unfolding concluded_def by (intro disjI2 exI [of _ xs] exI [of _ e] exI [of _ "[]"]) simp

lemma sunk_output: "lf_sink fr \<Longrightarrow> rl_output (sink fr ms s) = rl_output s @ [Sunk ms]"
  by (simp add: sink_def)

lemma sunk_plain: "plain (rl_output (sink fr ms s)) \<longleftrightarrow> plain (rl_output s)"
  by (simp add: sink_def)

lemma failures_plain:
  "plain (map Yielded (synthesize_tool_failed_events_for_pending now run_id ps kind message))"
  unfolding plain_def events_of_simps by (auto simp: synthesize_tool_failed_events_for_pending_def)

lemma failing_concludes:
  assumes "lf_sink fr" and "plain (rl_output s)" and "fail_run fr n now captured f s = (s', r)"
  shows "concluded (rl_output s') r"
proof -
  obtain kind message where "failure_text fr f = (kind, message)" by (cases "failure_text fr f")
  with assms(1,3) obtain ms where out: "rl_output s' = (rl_output s
        @ map Yielded (synthesize_tool_failed_events_for_pending now (lf_run_id fr) (pending_calls_of (rl_calls s)) kind message)
        @ [Sunk ms]) @ [Yielded (run_failure (lf_run_id fr) kind message)]"
    and r: "r = Run_returned"
    by (auto simp: fail_run_def fail_pending_def sunk_output Let_def)
  show ?thesis unfolding out r
    by (rule outcome_last) (simp_all add: assms(2) failures_plain run_failure_def)
qed

lemma answering_concludes:
  assumes "plain (rl_output s)" and "answer_with_failure fr now captured e op i p s = (s', r)"
  shows "plain (rl_output s') \<and> concluded (rl_output s') r"
  using assms succeeded_plain
  by (auto simp: answer_with_failure_def carry_attempt_def Let_def intro!: going_on escaping split: sum.splits)

lemma error_concludes:
  assumes "lf_sink fr" and "plain (rl_output s)" and "handle_error fr now captured f s = (s', r)"
  shows "concluded (rl_output s') r"
proof -
  consider (failing) n where "fail_run fr n now captured f s = (s', r)"
    | (again) ms where "s' = sink fr ms (s\<lparr>rl_recoveries := rl_recoveries s + 1\<rparr>)" "r = Attempt_restarted"
    | (answering) e i p op s1 ms where "answer_with_failure fr now captured e op i p s = (s1, r)" "s' = sink fr ms s1"
    using assms(3) by (auto simp: handle_error_def Let_def split: option.splits list.splits if_splits prod.splits)
  then show ?thesis
  proof cases
    case failing
    with assms(1,2) show ?thesis by (rule failing_concludes)
  next
    case again
    then show ?thesis using assms(2) by (simp add: going_on sunk_plain)
  next
    case answering
    note a = answering_concludes [OF assms(2) answering(1)]
    have "r = Attempt_restarted \<or> (\<exists>x. r = Run_escaped x)"
      using answering(1) by (auto simp: answer_with_failure_def Let_def split: sum.splits)
    with a show ?thesis by (auto simp: answering(2) sunk_plain intro: going_on escaping)
  qed
qed

lemma finish_concludes:
  assumes "lf_sink fr" and "plain (rl_output s)" and "finish_graph fr a out new usage s = (s', r)"
  shows "concluded (rl_output s') r"
proof (cases out)
  case (Output_text answer)
  let ?s = "sink fr (rl_carried s @ new) s"
  have plain: "plain (rl_output ?s)" and over: "hands_over (rl_output ?s)"
    using assms(1,2) by (simp_all add: sunk_plain) (simp add: sunk_output)
  have left: "leave_after_outcome a = Run_returned \<or> (\<exists>f. leave_after_outcome a = Run_escaped f)"
    by (simp add: leave_after_outcome_def split: option.split)
  show ?thesis
  proof (cases "ct_pending (rl_calls s) = []")
    case False
    let ?kind = "lit ''SessionFormatError''"
    have out: "rl_output s' = (rl_output ?s @ map Yielded (synthesize_tool_failed_events_for_pending (at_now a) (lf_run_id fr)
          (pending_calls_of (rl_calls s)) ?kind unresolved_message))
        @ [Yielded (run_failure (lf_run_id fr) ?kind unresolved_message)]"
      and r: "r = leave_after_outcome a"
      using False assms(3) Output_text by (auto simp: finish_graph_def Let_def fail_pending_def)
    show ?thesis unfolding out r
      by (rule outcome_last) (simp_all add: plain over left failures_plain run_failure_def)
  next
    case True
    show ?thesis
    proof (cases "raise_if_buffered_tool_updates_remain (rl_calls s)")
      case (Inl e)
      with True assms(3) Output_text plain show ?thesis by (auto simp: finish_graph_def Let_def intro: escaping)
    next
      case (Inr u)
      with True assms(3) Output_text have out: "rl_output s'
          = rl_output ?s @ [Yielded (Run_succeeded (build_run_succeeded_event fr answer usage))]"
        and r: "r = leave_after_outcome a"
        by (auto simp: finish_graph_def Let_def)
      show ?thesis unfolding out r by (rule outcome_last) (simp_all add: plain over left)
    qed
  qed
qed (use assms in \<open>auto simp: finish_graph_def intro: error_concludes\<close>)

lemma compacted_plain:
  assumes "plain (rl_output s)" shows "plain (rl_output (compact_live_history fr captured s))"
proof (cases "attempt_in_run_compaction fr (live_messages s captured) (rl_synthetic s)")
  case (Some o')
  then have "\<not> is_terminal_event (iro_event o')"
    by (auto simp: attempt_in_run_compaction_def Let_def split: sum.splits)
  with Some assms show ?thesis by (simp add: compact_live_history_def)
qed (simp add: compact_live_history_def assms)

lemma attempt_concludes:
  assumes "lf_sink fr" and "plain (rl_output s)" and "at_closing a = None" and "run_attempt fr a s = (s', r)"
  shows "concluded (rl_output s') r"
proof -
  obtain s1 stop where one: "run_attempt_steps fr (at_steps a) (begin_attempt s) = (s1, stop)"
    by (cases "run_attempt_steps fr (at_steps a) (begin_attempt s)")
  note o = steps_out [OF one]
  show ?thesis
  proof (cases stop)
    case (Some x)
    obtain st captured now where x: "x = (st, captured, now)" by (cases x)
    with assms(4) one Some have stop: "handle_stop fr a (st, captured, now) s1 = (s', r)" by (simp add: run_attempt_def)
    show ?thesis
    proof (cases "st = Stop_return")
      case True
      with o Some x obtain xs f zs where out: "rl_output s1 = rl_output s @ xs @ Yielded (Run_failed f) # zs"
        and "plain xs" and "events_of zs = []"
        by (auto simp: stepped_out_def)
      from stop True assms(1,3) obtain ms where "rl_output s' = rl_output s1 @ [Sunk ms]" "r = Run_returned"
        by (auto simp: handle_stop_def sunk_output Let_def)
      then show ?thesis using out \<open>plain xs\<close> \<open>events_of zs = []\<close> assms(2) unfolding concluded_def
        by (intro disjI2 exI [of _ "rl_output s @ xs"] exI [of _ "Run_failed f"] exI [of _ "zs @ [Sunk ms]"]) simp
    next
      case False
      with o Some x assms(2) have plain: "plain (rl_output s1)" by (auto simp: stepped_out_def)
      show ?thesis
      proof (cases st)
        case (Stop_error f)
        with stop assms(1) plain show ?thesis by (auto simp: handle_stop_def intro: error_concludes)
      next
        case Stop_compact
        with stop plain compacted_plain show ?thesis by (auto simp: handle_stop_def intro: going_on)
      next
        case (Stop_correct m)
        have "rl_output (restart_with_correction m captured s1) = rl_output s1"
          by (simp add: restart_with_correction_def carry_attempt_def Let_def)
        with Stop_correct stop plain show ?thesis
          by (auto simp: handle_stop_def sunk_plain Let_def intro!: going_on)
      qed (use False in simp)
    qed
  next
    case None
    with o assms(2) have "plain (rl_output s1)" by (auto simp: stepped_out_def)
    then have plain: "plain (rl_output (leave_tools s1))" by (simp add: leave_tools_def plain_def)
    show ?thesis
    proof (cases "at_end a")
      case (Graph_finished out new usage)
      with assms(1,4) one None plain show ?thesis by (auto simp: run_attempt_def Let_def intro: finish_concludes)
    next
      case (Graph_failed e)
      with assms(1,4) one None plain show ?thesis by (auto simp: run_attempt_def Let_def intro: error_concludes)
    next
      case (Graph_cancelled k m)
      with assms(1,4) one None plain show ?thesis by (auto simp: run_attempt_def sunk_output concluded_def Let_def)
    qed
  qed
qed

lemma run_concludes:
  assumes "lf_sink fr" and "\<forall>n. at_closing (agent n) = None" and "plain (rl_output s)"
    and "run_attempts fr agent k fuel s = (s', Some r)"
  shows "concluded (rl_output s') r"
  using assms(3,4)
proof (induction fuel arbitrary: k s)
  case (Suc fuel)
  obtain s1 r1 where one: "run_attempt fr (agent k) s = (s1, r1)" by (cases "run_attempt fr (agent k) s")
  note c = attempt_concludes [OF assms(1) Suc.prems(1) assms(2) [rule_format] one]
  show ?case
  proof (cases "r1 = Attempt_restarted")
    case True
    with c have "plain (rl_output s1)" by (simp add: concluded_def)
    with Suc.IH Suc.prems(2) one True show ?thesis by simp
  next
    case False
    with Suc.prems(2) one c show ?thesis by (cases r1) auto
  qed
qed simp

section \<open>Summaries\<close>

lemma summary_plain:
  "plain os \<Longrightarrow> \<exists>h'. with_summary took h (os @ os') = os @ with_summary took h' os'"
proof (induction os arbitrary: h)
  case (Cons x os)
  show ?case
  proof (cases x)
    case (Yielded e)
    with Cons.prems have "(case e of Run_succeeded r \<Rightarrow>
        Run_succeeded (r\<lparr>ev_transcript_summary := Some (build_run_transcript_summary h r took)\<rparr>) | _ \<Rightarrow> e) = e"
      by (cases e) simp_all
    with Cons Yielded show ?thesis by (auto simp: Let_def)
  qed (use Cons in \<open>auto simp: plain_def\<close>)
qed auto

lemma summary_silent: "events_of os = [] \<Longrightarrow> with_summary took h os = os"
proof (induction os arbitrary: h)
  case (Cons x os)
  then show ?case by (cases x) simp_all
qed simp

lemma summary_concluded:
  assumes "concluded os r"
  shows "concluded (with_summary took h os) r"
proof -
  from assms consider (going) "plain os" "r \<noteq> Run_returned" "\<forall>k m. r = Run_cancelled_through k m \<longrightarrow> hands_over os"
    | (ended) xs e zs where "os = xs @ Yielded e # zs" "plain xs" "is_terminal_event e" "events_of zs = []"
        "hands_over xs \<or> (\<exists>f. e = Run_failed f) \<and> hands_over zs" "r = Run_returned \<or> (\<exists>f. r = Run_escaped f)"
    unfolding concluded_def by blast
  then show ?thesis
  proof cases
    case going
    obtain h' where "with_summary took h (os @ []) = os @ with_summary took h' []"
      using summary_plain [OF going(1)] by blast
    with assms show ?thesis by simp
  next
    case ended
    obtain h' where h': "with_summary took h os = xs @ with_summary took h' (Yielded e # zs)"
      using summary_plain [OF ended(2)] ended(1) by blast
    define e' where "e' = (case e of Run_succeeded r \<Rightarrow>
        Run_succeeded (r\<lparr>ev_transcript_summary := Some (build_run_transcript_summary h' r took)\<rparr>) | _ \<Rightarrow> e)"
    have "with_summary took h os = xs @ Yielded e' # zs"
      using h' ended(4) by (simp add: Let_def e'_def summary_silent)
    moreover have "is_terminal_event e'" and "(\<exists>f. e = Run_failed f) \<longrightarrow> (\<exists>f. e' = Run_failed f)"
      using ended(3) by (cases e; simp add: e'_def)+
    ultimately show ?thesis using ended unfolding concluded_def by blast
  qed
qed

section \<open>The session\<close>

definition without_messages :: "session_run_error option \<Rightarrow> bool" where
  "without_messages e \<longleftrightarrow> e = Some Success_without_messages \<or> e = Some Finalized_without_messages"

lemma continued: "and_continue (s, None) k = k s"
  by (simp add: and_continue_def)

lemma opened_midway:
  assumes "open_run fr i s = (s', e)"
  shows "srs_finalize s' = srs_finalize s \<and> srs_messages s' = srs_messages s \<and> \<not> without_messages e"
  using assms
  by (auto simp: open_run_def without_messages_def Let_def split: if_splits sum.splits prod.splits)

lemma appended_midway:
  assumes "append_to_run event s = (s', e)"
  shows "srs_finalize s' = srs_finalize s \<and> srs_messages s' = srs_messages s \<and> \<not> without_messages e"
  using assms by (auto simp: append_to_run_def without_messages_def split: option.splits sum.splits prod.splits)

lemma noted_messages [simp]:
  "srs_messages (yield_event e' (note_event e s)) = srs_messages s"
  "srs_finalize (yield_event e' (note_event e s)) \<longleftrightarrow> is_terminal_event e \<or> srs_finalize s"
  by (cases e; simp add: note_event_def yield_event_def)+

lemma succeeded_midway:
  assumes "complete_success fr y s = (s', r)" and "srs_messages s \<noteq> None"
  shows "srs_finalize s' = srs_finalize s \<and> srs_messages s' = srs_messages s
    \<and> (\<forall>x. r = Inl x \<longrightarrow> \<not> without_messages (Some x)) \<and> (\<forall>e. r = Inr e \<longrightarrow> is_terminal_event e)"
  using assms
  by (auto simp: complete_success_def without_messages_def Let_def split: sum.splits option.splits)

text \<open>An event leaves the messages alone, asks for them only at a success, and ends the run only at an outcome.\<close>

lemma event_midway:
  assumes "stream_event fr e s = (s', x)" and "srs_messages s \<noteq> None \<or> (\<forall>y. e \<noteq> Run_succeeded y)"
  shows "srs_messages s' = srs_messages s \<and> \<not> without_messages x
    \<and> srs_finalize s' = (srs_finalize s \<or> (x = None \<and> is_terminal_event e))"
proof -
  obtain s1 x1 where o: "open_run fr (event_run_id e) s = (s1, x1)" by (rule prod.exhaust)
  note m1 = opened_midway [OF o]
  show ?thesis
  proof (cases x1)
    case (Some y)
    with assms(1) o m1 show ?thesis by (auto simp: stream_event_def and_continue_def)
  next
    case None
    obtain s2 r where c: "(case e of Run_succeeded y \<Rightarrow> complete_success fr y s1 | _ \<Rightarrow> (s1, Inr e)) = (s2, r)"
      by (rule prod.exhaust)
    have m2: "srs_finalize s2 = srs_finalize s1 \<and> srs_messages s2 = srs_messages s1
        \<and> (\<forall>x. r = Inl x \<longrightarrow> \<not> without_messages (Some x)) \<and> (\<forall>e'. r = Inr e' \<longrightarrow> is_terminal_event e' = is_terminal_event e)"
    proof (cases "\<exists>y. e = Run_succeeded y")
      case True
      then obtain y where y: "e = Run_succeeded y" by blast
      with c have "complete_success fr y s1 = (s2, r)" by simp
      from succeeded_midway [OF this] assms(2) m1 y show ?thesis by auto
    next
      case False
      with c show ?thesis by (cases e) auto
    qed
    have s': "(case r of Inl x \<Rightarrow> (s2, Some x)
        | Inr event \<Rightarrow> and_continue (append_to_run event s2) (\<lambda>s. (yield_event event (note_event event s), None))) = (s', x)"
      using assms(1) c by (simp add: stream_event_def o None continued)
    show ?thesis
    proof (cases r)
      case (Inl y)
      with s' m1 m2 show ?thesis by auto
    next
      case (Inr e')
      obtain s3 x3 where a: "append_to_run e' s2 = (s3, x3)" by (rule prod.exhaust)
      note m3 = appended_midway [OF a]
      from s' Inr a m1 m2 m3 show ?thesis
        by (cases x3) (auto simp: and_continue_def without_messages_def)
    qed
  qed
qed

lemma items_append: "stream_items fr (xs @ ys) s = and_continue (stream_items fr xs s) (stream_items fr ys)"
  by (induction xs arbitrary: s) (auto simp: and_continue_def split: prod.splits option.splits)

definition midway :: "session_run_state \<Rightarrow> session_run_state \<Rightarrow> session_run_error option \<Rightarrow> bool" where
  "midway s s' x \<longleftrightarrow> srs_finalize s' = srs_finalize s \<and> \<not> without_messages x
     \<and> (srs_messages s \<noteq> None \<longrightarrow> srs_messages s' \<noteq> None)"

lemma items_midway:
  assumes "plain os" and "stream_items fr (loop_items os) s = (s', x)"
  shows "midway s s' x \<and> (x = None \<longrightarrow> hands_over os \<longrightarrow> srs_messages s' \<noteq> None)"
  using assms
proof (induction os arbitrary: s)
  case Nil
  then show ?case by (simp add: midway_def without_messages_def)
next
  case (Cons y os)
  have os: "plain os" using Cons.prems(1) by (cases y) (simp_all add: plain_def)
  show ?case
  proof (cases y)
    case (Yielded e)
    then have e: "\<not> is_terminal_event e" using Cons.prems(1) by simp
    obtain s1 x1 where one: "stream_event fr e s = (s1, x1)" by (rule prod.exhaust)
    have "\<forall>z. e \<noteq> Run_succeeded z" using e by auto
    with event_midway [OF one] e have m: "midway s s1 x1" by (auto simp: midway_def)
    show ?thesis
    proof (cases x1)
      case (Some z)
      with Cons.prems(2) Yielded one m show ?thesis by (auto simp: stream_item_def and_continue_def)
    next
      case None
      with Cons.prems(2) Yielded one have "stream_items fr (loop_items os) s1 = (s', x)"
        by (simp add: stream_item_def and_continue_def)
      from Cons.IH [OF os this] m Yielded show ?thesis by (auto simp: midway_def hands_over_def)
    qed
  next
    case (Sunk ms)
    with Cons.prems(2) have "stream_items fr (loop_items os) (s\<lparr>srs_messages := Some ms\<rparr>) = (s', x)"
      by (simp add: stream_item_def and_continue_def)
    from Cons.IH [OF os this] show ?thesis by (simp add: midway_def)
  qed (use Cons.IH [OF os] Cons.prems(2) in \<open>auto simp: hands_over_def\<close>)
qed

lemma silent_items:
  "stream_items fr (loop_items os) s = (s', x) \<Longrightarrow> events_of os = [] \<Longrightarrow> x = None"
proof (induction os arbitrary: s)
  case (Cons y os)
  then show ?case by (cases y) (auto simp: stream_item_def and_continue_def)
qed simp

text \<open>
  When a session has consumed the loop: either nothing ended the run, or its outcome did, and then the messages
  are there.
\<close>

lemma consumed:
  assumes "concluded os r" and "stream_items fr (loop_items os) (start_state f inventory memory) = (s, x)"
  shows "\<not> without_messages x" and "srs_finalize s \<longrightarrow> srs_messages s \<noteq> None"
    and "x = None \<Longrightarrow> r = Run_returned \<Longrightarrow> srs_finalize s"
    and "x = None \<Longrightarrow> r = Run_cancelled_through k m \<Longrightarrow> srs_messages s \<noteq> None"
proof -
  let ?s = "start_state f inventory memory"
  have start: "\<not> srs_finalize ?s" by (simp add: start_state_def)
  have "\<not> without_messages x \<and> (srs_finalize s \<longrightarrow> srs_messages s \<noteq> None)
    \<and> (x = None \<longrightarrow> r = Run_returned \<longrightarrow> srs_finalize s)
    \<and> (x = None \<longrightarrow> r = Run_cancelled_through k m \<longrightarrow> srs_messages s \<noteq> None)"
  proof (cases "plain os \<and> r \<noteq> Run_returned")
    case True
    with assms(1) have "r = Run_cancelled_through k m \<longrightarrow> hands_over os" by (auto simp: concluded_def)
    with items_midway [OF _ assms(2)] True start show ?thesis by (auto simp: midway_def)
  next
    case False
    then obtain xs e zs where os: "os = xs @ Yielded e # zs" and plain: "plain xs" and e: "is_terminal_event e"
      and zs: "events_of zs = []" and over: "hands_over xs \<or> (\<exists>y. e = Run_failed y) \<and> hands_over zs"
      and r: "\<forall>k m. r \<noteq> Run_cancelled_through k m"
      using assms(1) unfolding concluded_def by auto
    obtain s1 x1 where one: "stream_items fr (loop_items xs) ?s = (s1, x1)" by (rule prod.exhaust)
    note m1 = items_midway [OF plain one]
    show ?thesis
    proof (cases x1)
      case (Some y)
      with assms(2) m1 start one os r show ?thesis by (auto simp: items_append and_continue_def midway_def)
    next
      case None
      obtain s2 x2 where two: "stream_event fr e s1 = (s2, x2)" by (rule prod.exhaust)
      have "srs_messages s1 \<noteq> None \<or> (\<forall>y. e \<noteq> Run_succeeded y)" using m1 None over by auto
      note m2 = event_midway [OF two this]
      show ?thesis
      proof (cases x2)
        case (Some y)
        with assms(2) m1 m2 start one two None os r show ?thesis
          by (auto simp: items_append and_continue_def stream_item_def midway_def)
      next
        case x2: None
        with assms(2) one two None os have three: "stream_items fr (loop_items zs) s2 = (s, x)"
          by (simp add: items_append and_continue_def stream_item_def)
        have "plain zs" by (simp add: plain_def zs)
        note m3 = items_midway [OF this three]
        have "x = None" using three zs by (auto dest: silent_items)
        with m1 m2 m3 None x2 over r e show ?thesis by (auto simp: midway_def)
      qed
    qed
  qed
  then show "\<not> without_messages x" and "srs_finalize s \<longrightarrow> srs_messages s \<noteq> None"
    and "x = None \<Longrightarrow> r = Run_returned \<Longrightarrow> srs_finalize s"
    and "x = None \<Longrightarrow> r = Run_cancelled_through k m \<Longrightarrow> srs_messages s \<noteq> None"
    by blast+
qed

lemma finalized_midway:
  assumes "srs_finalize s \<longrightarrow> srs_messages s \<noteq> None"
  shows "\<not> without_messages (snd (finalize_session fr s))"
  using assms
  by (auto simp: finalize_session_def without_messages_def Let_def split: prod.splits option.splits sum.splits if_splits)

lemma finished_midway:
  assumes "srs_finalize s \<longrightarrow> srs_messages s \<noteq> None" and "\<forall>x. outcome = Session_raised x \<longrightarrow> \<not> without_messages (Some x)"
  shows "snd (finish_run fr outcome s) \<notin> {Session_raised Success_without_messages, Session_raised Finalized_without_messages}"
  using finalized_midway [OF assms(1), of fr] assms(2)
  by (auto simp: finish_run_def without_messages_def split: prod.splits option.splits)

lemma yielded_midway:
  "append_and_yield es s = (s', x) \<Longrightarrow> srs_messages s' = srs_messages s \<and> \<not> without_messages x"
proof (induction es arbitrary: s)
  case (Cons e es)
  obtain s1 x1 where one: "append_to_run e s = (s1, x1)" by (rule prod.exhaust)
  note m = appended_midway [OF one]
  show ?case
  proof (cases x1)
    case None
    with Cons.prems one have "append_and_yield es (yield_event e s1) = (s', x)" by (simp add: and_continue_def)
    from Cons.IH [OF this] m show ?thesis by (simp add: yield_event_def)
  qed (use Cons.prems one m in \<open>auto simp: and_continue_def\<close>)
qed (simp add: without_messages_def)

lemma cancelled_midway:
  assumes "on_cancelled fr k m s = (s', x)"
  shows "srs_messages s' = srs_messages s \<and> \<not> without_messages x"
proof (cases "\<exists>a i. srs_appender s = Some a \<and> srs_run_id s = Some i")
  case True
  then obtain a i where ai: "srs_appender s = Some a" "srs_run_id s = Some i" by blast
  let ?m = "if m = [] then lit ''run cancelled'' else m"
  obtain s1 x1 where one: "append_and_yield (failed_calls fr i k ?m s) s = (s1, x1)" by (rule prod.exhaust)
  note m1 = yielded_midway [OF one]
  obtain s2 x2 where two: "append_and_yield [failure_event i k ?m] (s1\<lparr>srs_pending := []\<rparr>) = (s2, x2)" by (rule prod.exhaust)
  note m2 = yielded_midway [OF two]
  from assms have "and_continue (s1, x1) (\<lambda>s. and_continue (append_and_yield [failure_event i k ?m] (s\<lparr>srs_pending := []\<rparr>))
      (\<lambda>s. (s\<lparr>srs_failed := True, srs_finalize := True\<rparr>, None))) = (s', x)"
    by (simp only: on_cancelled_def ai prod.case option.case Let_def one)
  with two m1 m2 show ?thesis by (cases x1; cases x2) (auto simp: and_continue_def without_messages_def simp del: append_and_yield.simps)
next
  case False
  with assms show ?thesis by (auto simp: on_cancelled_def without_messages_def split: option.splits)
qed

section \<open>Sessions and runs\<close>



section \<open>A run that fails\<close>

definition sample_run_loop :: run_loop_frame where
  "sample_run_loop = sample_loop\<lparr>lf_run_id := ''r2''\<rparr>"

definition sample_failing :: "nat \<Rightarrow> attempt" where
  "sample_failing n = (sample_attempt [])\<lparr>at_captured := sample_conversation,
     at_end := Graph_failed \<lparr>er_type = [69], er_message = [69], er_operational = None, er_graph = [], er_node = 0\<rparr>\<rparr>"

lemma sample_failing_run:
  obtains s where "stream_run sample_run_loop [66] [] sample_failing 1 = (s, Some Run_returned)"
    and "loop_items (with_summary 5 [] (rl_output s)) = sample_failed_items"
  by (simp add: stream_run_def run_attempt_def sample_failing_def sample_attempt_def sample_run_loop_def
      start_run_loop_def begin_attempt_def leave_tools_def handle_error_def fail_run_def failure_text_def
      retryable_failure_def should_retry_run_error_def is_retryable_run_error_def iter_error_chain_def
      fail_pending_def synthesize_tool_failed_events_for_pending_def pending_calls_of_def no_calls_def
      captured_in_attempt_def sink_def emit_def put_out_def run_failure_def failure_event_def sample_loop_def
      sample_failed_items_def Let_def)



end
