(* ===== verification/Run_Restarts.thy ===== *)
theory Run_Restarts
  imports Run_Outcomes
begin

text \<open>
  What survives the restarts of a run, and how many there are: invariants of the loop as a locale, the
  history the agent is restarted with, and a bound on the restarts.
\<close>

section \<open>Invariants of the loop\<close>

text \<open>
  A property of the loop's state that its counters do not touch, nor an output without approvals, and that its
  operations keep.
\<close>

definition approval_event :: "run_event \<Rightarrow> bool" where
  "approval_event e \<longleftrightarrow> (case e of Approval_requested _ \<Rightarrow> True | Approval_resolved _ \<Rightarrow> True | _ \<Rightarrow> False)"

lemma answer_asks_nothing:
  assumes "succeeded_event validate now run_id i p outcome metadata = Inr e" shows "\<not> approval_event e"
  using succeeded_closes [OF assms] by (auto simp: closes_def approval_event_def)

locale run_invariant =
  fixes fr :: run_loop_frame
    and ok :: "run_loop_state \<Rightarrow> bool"
  assumes begun: "ok s \<Longrightarrow> ok (begin_attempt s)"
    and out: "ok s \<Longrightarrow> \<forall>e \<in> set (events_of os). \<not> approval_event e \<Longrightarrow> ok (put_out os s)"
    and stepped: "ok s \<Longrightarrow> run_step fr x s = (s', stop) \<Longrightarrow> ok s'"
    and left: "ok s \<Longrightarrow> ok (leave_tools s)"
    and prompted: "ok s \<Longrightarrow> ok (s\<lparr>rl_prompt := p\<rparr>)"
    and counted: "ok s \<Longrightarrow> ok (s\<lparr>rl_synthetic := c, rl_corrections := n\<rparr>)"
    and recovering: "ok s \<Longrightarrow> ok (s\<lparr>rl_recoveries := n\<rparr>)"
    and cleared: "ok s \<Longrightarrow> ok (s\<lparr>rl_calls := t\<rparr>)"
    and carried: "ok s \<Longrightarrow> ok (carry_attempt ms s)"
    and compacted: "ok s \<Longrightarrow> ok (compact_live_history fr captured s)"
begin

lemma emitted: "ok s \<Longrightarrow> \<forall>e \<in> set es. \<not> approval_event e \<Longrightarrow> ok (emit es s)"
  by (simp add: emit_def out)

lemma sunk: "ok s \<Longrightarrow> ok (sink fr' ms s)"
  by (simp add: sink_def out)

lemma steps: "ok s \<Longrightarrow> run_attempt_steps fr xs s = (s', stop) \<Longrightarrow> ok s'"
proof (induction xs arbitrary: s)
  case (Cons x xs)
  obtain s1 st where one: "run_step fr x s = (s1, st)" by (cases "run_step fr x s")
  have "ok s1" by (rule stepped [OF Cons.prems(1) one])
  with Cons one left show ?case by (cases st) auto
qed simp

lemma failing: "ok s \<Longrightarrow> ok (fail_pending fr now kind message s)"
  by (auto simp: fail_pending_def synthesize_tool_failed_events_for_pending_def approval_event_def intro!: emitted)

lemma failed: "ok s \<Longrightarrow> fail_run fr n now captured f s = (s', r) \<Longrightarrow> ok s'"
  by (auto simp: fail_run_def Let_def run_failure_def approval_event_def split: prod.splits
      intro!: emitted sunk failing)

lemma answered: "ok s \<Longrightarrow> answer_with_failure fr now captured e op i p s = (s', r) \<Longrightarrow> ok s'"
  by (auto simp: answer_with_failure_def Let_def split: sum.splits intro!: prompted carried emitted
      dest: answer_asks_nothing)

lemma erred: "ok s \<Longrightarrow> handle_error fr now captured f s = (s', r) \<Longrightarrow> ok s'"
  by (auto simp: handle_error_def Let_def split: option.splits list.splits prod.splits if_splits
      intro!: sunk recovering intro: failed dest: answered)

lemma corrected: "ok s \<Longrightarrow> ok (restart_with_correction m captured s)"
  using counted [OF prompted [OF carried]] by (simp add: restart_with_correction_def)

lemma stopped: "ok s \<Longrightarrow> handle_stop fr a x s = (s', r) \<Longrightarrow> ok s'"
  by (auto simp: handle_stop_def Let_def split: prod.splits loop_stop.splits option.splits
      intro!: sunk corrected compacted intro: erred)

lemma finished: "ok s \<Longrightarrow> finish_graph fr a out new usage s = (s', r) \<Longrightarrow> ok s'"
  by (auto simp: finish_graph_def Let_def run_failure_def approval_event_def split: graph_output.splits if_splits sum.splits
      intro!: sunk emitted cleared failing intro: erred)

lemma attempted: "ok s \<Longrightarrow> run_attempt fr a s = (s', r) \<Longrightarrow> ok s'"
proof -
  assume s: "ok s" and run: "run_attempt fr a s = (s', r)"
  obtain s1 stop where one: "run_attempt_steps fr (at_steps a) (begin_attempt s) = (s1, stop)"
    by (cases "run_attempt_steps fr (at_steps a) (begin_attempt s)")
  have s1: "ok s1" by (rule steps [OF begun [OF s] one])
  show "ok s'"
  proof (cases stop)
    case (Some x)
    with run one have "handle_stop fr a x s1 = (s', r)" by (simp add: run_attempt_def)
    with s1 show ?thesis by (rule stopped)
  next
    case None
    with run one left [OF s1] show ?thesis
      by (auto simp: run_attempt_def Let_def split: attempt_end.splits intro!: sunk intro: finished erred)
  qed
qed

lemma ran: "ok s \<Longrightarrow> run_attempts fr agent k fuel s = (s', r) \<Longrightarrow> ok s'"
proof (induction fuel arbitrary: k s)
  case (Suc fuel)
  obtain s1 r1 where one: "run_attempt fr (agent k) s = (s1, r1)" by (cases "run_attempt fr (agent k) s")
  have "ok s1" by (rule attempted [OF Suc.prems(1) one])
  with Suc one show ?case by (cases r1) auto
qed simp

end

section \<open>What the operations leave alone\<close>

lemma output_frames [simp]:
  "rl_history (put_out os s) = rl_history s" "rl_carried (put_out os s) = rl_carried s"
  "rl_denied (put_out os s) = rl_denied s" "rl_history (emit es s) = rl_history s"
  "rl_carried (emit es s) = rl_carried s" "rl_denied (emit es s) = rl_denied s"
  "rl_history (sink fr ms s) = rl_history s" "rl_carried (sink fr ms s) = rl_carried s"
  "rl_history (leave_tools s) = rl_history s" "rl_carried (leave_tools s) = rl_carried s"
  "rl_denied (leave_tools s) = rl_denied s" "rl_history (submit_if_ready s) = rl_history s"
  "rl_carried (submit_if_ready s) = rl_carried s" "rl_denied (submit_if_ready s) = rl_denied s"
  by (simp_all add: put_out_def emit_def sink_def leave_tools_def submit_if_ready_def)

lemma asked_keeps:
  assumes "ask_approval fr request i n s = (s', stop)"
  shows "rl_history s' = rl_history s" and "rl_carried s' = rl_carried s" and "set (rl_denied s) \<subseteq> set (rl_denied s')"
  using assms
  by (auto simp: ask_approval_def Let_def split: if_splits option.splits sum.splits)

lemma step_keeps:
  assumes "run_step fr x s = (s', stop)"
  shows "rl_history s' = rl_history s" and "rl_carried s' = rl_carried s" and "set (rl_denied s) \<subseteq> set (rl_denied s')"
proof -
  obtain captured now step where x: "x = (captured, now, step)" by (cases x)
  have "rl_history s' = rl_history s \<and> rl_carried s' = rl_carried s \<and> set (rl_denied s) \<subseteq> set (rl_denied s')"
  proof (cases step)
    case Approval_queued
    then show ?thesis using assms asked_keeps by (auto simp: run_step_def x)
  next
    case Update_queued
    then show ?thesis using assms
      by (auto simp: run_step_def x tool_updated_def split: sum.splits option.splits prod.splits)
  next
    case Tool_called
    then show ?thesis using assms
      by (auto simp: run_step_def x tool_called_def Let_def split: sum.splits prod.splits tool_call_result.splits)
  next
    case Tool_returned
    then show ?thesis using assms
      by (auto simp: run_step_def x tool_returned_def Let_def split: sum.splits prod.splits tool_result_outcome.splits)
  next
    case Question_queued
    then show ?thesis using assms by (auto simp: run_step_def x ask_question_def Let_def split: option.splits sum.splits)
  next
    case Streamed
    then show ?thesis using assms by (auto simp: run_step_def x stream_text_def Let_def split: option.splits)
  next
    case Response_captured
    then show ?thesis using assms by (auto simp: run_step_def x note_usage_def Let_def split: option.splits)
  qed (use assms in \<open>auto simp: run_step_def x request_model_def enter_tools_def Let_def split: if_splits\<close>)
  then show "rl_history s' = rl_history s" and "rl_carried s' = rl_carried s" and "set (rl_denied s) \<subseteq> set (rl_denied s')"
    by blast+
qed

section \<open>The history of a restart\<close>

text \<open>
  Until a compaction the agent is restarted with the history the run began with and with what the run
  carried, less as many messages as that history has; after one it is restarted with all of it.
\<close>

definition compaction_event :: "run_event \<Rightarrow> bool" where
  "compaction_event e \<longleftrightarrow> (case e of In_run_compaction_completed _ \<Rightarrow> True | _ \<Rightarrow> False)"

definition restarted_with :: "model_message list \<Rightarrow> run_loop_state \<Rightarrow> bool" where
  "restarted_with history s \<longleftrightarrow>
     rl_history s = history @ drop (length history) (rl_carried s)
     \<or> (rl_history s = rl_carried s \<and> (\<exists>e \<in> set (events_of (rl_output s)). compaction_event e))"

lemma restarted_frame:
  assumes "restarted_with history s" and "rl_history s' = rl_history s" and "rl_carried s' = rl_carried s"
    and "set (events_of (rl_output s)) \<subseteq> set (events_of (rl_output s'))"
  shows "restarted_with history s'"
  using assms by (auto simp: restarted_with_def)

lemma step_outputs:
  assumes "run_step fr x s = (s', stop)"
  shows "set (events_of (rl_output s)) \<subseteq> set (events_of (rl_output s'))"
  using step_advances [of False False fr x s s' stop UNIV] assms by (auto simp: stepped_to_def advances_def)

lemma carried_restarts:
  assumes "restarted_with history s" shows "restarted_with history (carry_attempt ms s)"
proof -
  let ?new = "sanitize_failed_run_messages ms" and ?n = "length history"
  from assms consider (early) "rl_history s = history @ drop ?n (rl_carried s)"
    | (late) "rl_history s = rl_carried s" "\<exists>e \<in> set (events_of (rl_output s)). compaction_event e"
    by (auto simp: restarted_with_def)
  then show ?thesis
  proof cases
    case early
    then show ?thesis by (cases "length (rl_carried s) \<le> ?n") (simp_all add: restarted_with_def carry_attempt_def Let_def)
  next
    case late
    then show ?thesis by (simp add: restarted_with_def carry_attempt_def Let_def)
  qed
qed

lemma compacted_restarts:
  assumes "restarted_with history s" shows "restarted_with history (compact_live_history fr captured s)"
proof (cases "attempt_in_run_compaction fr (live_messages s captured) (rl_synthetic s)")
  case None
  with assms show ?thesis by (simp add: compact_live_history_def restarted_with_def)
next
  case (Some o')
  then have "compaction_event (iro_event o')"
    by (auto simp: attempt_in_run_compaction_def Let_def compaction_event_def split: sum.splits)
  with Some show ?thesis by (auto simp: compact_live_history_def restarted_with_def)
qed

interpretation kept: run_invariant fr "restarted_with history" for fr history
proof
  fix s s' :: run_loop_state and stop x
  assume ok: "restarted_with history s" and step: "run_step fr x s = (s', stop)"
  show "restarted_with history s'"
    by (rule restarted_frame [OF ok step_keeps(1,2) [OF step] step_outputs [OF step]])
next
  fix s :: run_loop_state and ms captured
  assume ok: "restarted_with history s"
  show "restarted_with history (carry_attempt ms s)" by (rule carried_restarts [OF ok])
  show "restarted_with history (compact_live_history fr captured s)" by (rule compacted_restarts [OF ok])
qed (auto elim!: restarted_frame simp: put_out_def leave_tools_def)

text \<open>
  A restarted agent is not told what it was asked. Unless the history was compacted, the history an agent is
  restarted with is the one of the session, followed by what the run carried less its first messages, as many
  as the session's history has: when the run carried no more than that, nothing of the run is left in it,
  neither the prompt nor the calls that are corrected.
\<close>

theorem restarts_drop_messages:
  assumes "stream_run fr prompt history agent fuel = (s, r)"
    and "\<forall>e \<in> set (events_of (rl_output s)). \<not> compaction_event e"
  shows "rl_history s = history @ drop (length history) (rl_carried s)
    \<and> (length (rl_carried s) \<le> length history \<longrightarrow> rl_history s = history)"
proof -
  have "restarted_with history (start_run_loop (lf_run_id fr) prompt history)"
    by (simp add: restarted_with_def start_run_loop_def)
  from kept.ran [OF this assms(1) [unfolded stream_run_def]] assms(2) show ?thesis by (auto simp: restarted_with_def)
qed

definition sample_past :: "model_message list" where
  "sample_past = [Model_request [User_prompt_part (Prompt_text [72])] None]"

lemma sample_prompt_kept:
  "sanitize_failed_run_messages [Model_request [User_prompt_part (Prompt_text [103])] None]
    = [Model_request [User_prompt_part (Prompt_text [103])] None]"
  by code_simp

lemma sample_restart:
  obtains s where "stream_run sample_loop [103] sample_past sample_serial (Suc 0) = (s, None)"
    and "rl_carried s = [Model_request [User_prompt_part (Prompt_text [103])] None]"
    and "list_all (\<lambda>e. \<not> compaction_event e) (events_of (rl_output s))"
  by (simp add: stream_run_def attempt_defs sample_defs step_defs sample_prompt_kept compaction_event_def
      started_event_def Let_def)

text \<open>A corrected agent is told what was wrong, and not what it was asked.\<close>

theorem restarts_drop_messages_witness:
  "\<exists>s. stream_run sample_loop [103] sample_past sample_serial (Suc 0) = (s, None)
     \<and> rl_history s = sample_past \<and> rl_carried s = [Model_request [User_prompt_part (Prompt_text [103])] None]"
proof -
  obtain s where s: "stream_run sample_loop [103] sample_past sample_serial (Suc 0) = (s, None)"
    and carried: "rl_carried s = [Model_request [User_prompt_part (Prompt_text [103])] None]"
    and "list_all (\<lambda>e. \<not> compaction_event e) (events_of (rl_output s))"
    by (rule sample_restart)
  then have "\<forall>e \<in> set (events_of (rl_output s)). \<not> compaction_event e" by (simp add: list_all_iff)
  from restarts_drop_messages [OF s this] s carried show ?thesis by (simp add: sample_past_def)
qed

section \<open>Denials are final\<close>

text \<open>
  An observer of the events: it remembers the requests that were denied, by what they ask for, and refuses
  an event that asks for one of them again.
\<close>

type_synonym denial_watch = "(request_kind \<times> string \<times> string) set \<times> approval_request option"

definition watch_denials :: "denial_watch \<Rightarrow> run_event \<Rightarrow> (unit, denial_watch) result" where
  "watch_denials w e =
     (case e of
        Approval_requested a \<Rightarrow>
          if approval_request_fingerprint (ev_request a) \<in> fst w then Inl ()
          else Inr (fst w, Some (ev_request a))
      | Approval_resolved d \<Rightarrow>
          (case snd w of
             Some q \<Rightarrow>
               Inr (if ad_decision (ev_decision d) = Denied then insert (approval_request_fingerprint q) (fst w) else fst w,
                    None)
           | None \<Rightarrow> Inr w)
      | _ \<Rightarrow> Inr w)"

definition denials_kept :: "run_loop_state \<Rightarrow> bool" where
  "denials_kept s \<longleftrightarrow>
     (\<exists>q. run_steps watch_denials ({}, None) (events_of (rl_output s)) = Inr (set (rl_denied s), q))"

lemma unwatched: "\<not> approval_event e \<Longrightarrow> watch_denials w e = Inr w"
  by (cases e) (simp_all add: watch_denials_def approval_event_def)

lemma watch_quiet: "\<forall>e \<in> set es. \<not> approval_event e \<Longrightarrow> run_steps watch_denials w es = Inr w"
  by (induction es) (simp_all add: unwatched)

lemma denials_out:
  assumes "denials_kept s" and "\<forall>e \<in> set (events_of os). \<not> approval_event e"
    and "rl_output s' = rl_output s @ os" and "rl_denied s' = rl_denied s"
  shows "denials_kept s'"
  using assms watch_quiet by (auto simp: denials_kept_def run_steps_append)

lemma denials_same:
  "denials_kept s \<Longrightarrow> rl_output s' = rl_output s \<Longrightarrow> rl_denied s' = rl_denied s \<Longrightarrow> denials_kept s'"
  by (rule denials_out [where os = "[]"]) simp_all

lemma denials_emitted:
  "denials_kept s \<Longrightarrow> \<forall>e \<in> set es. \<not> approval_event e \<Longrightarrow> denials_kept (emit es s)"
  by (rule denials_out [where os = "map Yielded es"]) simp_all

lemma denials_asked:
  assumes "denials_kept s" and "ask_approval fr request i n s = (s', stop)"
  shows "denials_kept s'"
proof -
  obtain q where w: "run_steps watch_denials ({}, None) (events_of (rl_output s)) = Inr (set (rl_denied s), q)"
    using assms(1) by (auto simp: denials_kept_def)
  show ?thesis
    using assms(2) w assms(1)
    by (auto simp: ask_approval_def Let_def denials_kept_def run_steps_append watch_denials_def
        split: if_splits option.splits sum.splits)
qed

lemma own_quiet: "own_event i e \<Longrightarrow> \<not> approval_event e"
  by (cases e) (simp_all add: approval_event_def)

lemma submitted_denials: "denials_kept s \<Longrightarrow> denials_kept (submit_if_ready s)"
  by (rule denials_out [where os = "if rl_steer_active s \<and> \<not> rl_steer_submitted s \<and> ct_pending (rl_calls s) = []
        then [Steer_submitted] else []" and s = s])
    (simp_all add: submit_if_ready_def put_out_def)

lemma denials_called:
  assumes ok: "denials_kept s" and step: "tool_called fr now call s = (s', stop)"
  shows "denials_kept s'"
proof -
  obtain t r where p: "process_tool_call_event (lf_loads fr) (lf_validate fr) now (lf_run_id fr) (lf_available fr)
      (rl_corrections s) call (rl_calls s) = (t, r)"
    by (cases "process_tool_call_event (lf_loads fr) (lf_validate fr) now (lf_run_id fr) (lf_available fr)
      (rl_corrections s) call (rl_calls s)")
  let ?s = "s\<lparr>rl_saw := True, rl_calls := t\<rparr>"
  have s: "denials_kept ?s" by (rule denials_same [OF ok]) simp_all
  show ?thesis
  proof (cases r)
    case (Inl e)
    with step p s show ?thesis by (simp add: tool_called_def)
  next
    case (Inr x)
    have "\<forall>e \<in> set (call_events x). \<not> approval_event e" using call_owns(2) [OF p Inr] own_quiet by blast
    from denials_emitted [OF s this] s step p Inr show ?thesis by (cases x) (auto simp: tool_called_def)
  qed
qed

lemma denials_returned:
  assumes ok: "denials_kept s" and step: "tool_returned fr now x s = (s', stop)"
  shows "denials_kept s'"
proof -
  obtain t r where p: "process_tool_result_event (lf_validate fr) now (lf_run_id fr) x (rl_calls s) = (t, r)"
    by (cases "process_tool_result_event (lf_validate fr) now (lf_run_id fr) x (rl_calls s)")
  let ?s = "s\<lparr>rl_saw := True, rl_calls := t\<rparr>"
  have s: "denials_kept ?s" by (rule denials_same [OF ok]) simp_all
  show ?thesis
  proof (cases r)
    case (Inl e)
    with step p s show ?thesis by (simp add: tool_returned_def)
  next
    case (Inr y)
    have "\<forall>e \<in> set (result_events y). \<not> approval_event e" using result_owns(2) [OF p Inr] own_quiet by blast
    from submitted_denials [OF denials_emitted [OF s this]] step p Inr show ?thesis
      by (cases y) (auto simp: tool_returned_def)
  qed
qed

lemma denials_updated:
  assumes ok: "denials_kept s" and step: "tool_updated fr now u s = (s', stop)"
  shows "denials_kept s'"
proof -
  have s: "denials_kept (s\<lparr>rl_calls := t\<rparr>)" for t by (rule denials_same [OF ok]) simp_all
  have "denials_kept (emit [e] (s\<lparr>rl_calls := t\<rparr>))"
    if "build_tool_updated_event (lf_validate fr) now (lf_run_id fr) u p = Inr e" for t p e
    using update_owns [OF that] own_quiet by (intro denials_emitted s) auto
  with s ok step show ?thesis by (auto simp: tool_updated_def split: sum.splits option.splits prod.splits)
qed

lemma denials_stepped:
  assumes ok: "denials_kept s" and "run_step fr x s = (s', stop)"
  shows "denials_kept s'"
proof -
  obtain captured now step where x: "x = (captured, now, step)" by (cases x)
  note step = assms(2) [unfolded run_step_def x prod.case]
  show ?thesis
  proof (cases step)
    case Approval_queued
    with step denials_asked [OF ok] show ?thesis by simp
  next
    case Tool_called
    with step denials_called [OF ok] show ?thesis by simp
  next
    case Tool_returned
    with step denials_returned [OF ok] show ?thesis by simp
  next
    case Update_queued
    with step denials_updated [OF ok] show ?thesis by simp
  next
    case (Question_queued q)
    let ?e = "Onboarding_question_requested (onboarding_question_from_request (lf_run_id fr) q)"
    have "denials_kept (emit [?e] s)" by (rule denials_emitted [OF ok]) (simp add: approval_event_def)
    with step Question_queued show ?thesis by (auto simp: ask_question_def Let_def split: option.splits sum.splits)
  next
    case (Streamed e)
    have s: "denials_kept (s\<lparr>rl_saw := True\<rparr>)" by (rule denials_same [OF ok]) simp_all
    moreover have "denials_kept (emit [Assistant_text_delta d] (s\<lparr>rl_saw := True\<rparr>))" for d
      by (rule denials_emitted [OF s]) (simp add: approval_event_def)
    ultimately show ?thesis using step Streamed by (auto simp: stream_text_def Let_def split: option.splits)
  next
    case (Tools_entered calls)
    with step show ?thesis
      by (intro denials_out [OF ok, where os = "if lf_steer fr \<and> calls then [Steer_activated] else []"])
        (auto simp: enter_tools_def Let_def put_out_def)
  next
    case Tools_left
    with step show ?thesis
      by (intro denials_out [OF ok, where os = "if rl_steer_active s then [Steer_deactivated] else []"])
        (auto simp: leave_tools_def put_out_def)
  qed (use step in \<open>auto simp: request_model_def note_usage_def Let_def intro: denials_same [OF ok]
        split: if_splits option.splits\<close>)
qed

interpretation denied: run_invariant fr denials_kept for fr
proof
  fix s s' :: run_loop_state and stop x
  assume "denials_kept s" and "run_step fr x s = (s', stop)"
  then show "denials_kept s'" by (rule denials_stepped)
next
  fix s :: run_loop_state and captured
  assume ok: "denials_kept s"
  show "denials_kept (compact_live_history fr captured s)"
  proof (cases "attempt_in_run_compaction fr (live_messages s captured) (rl_synthetic s)")
    case (Some o')
    then have "\<not> approval_event (iro_event o')"
      by (auto simp: attempt_in_run_compaction_def Let_def approval_event_def split: sum.splits)
    with Some show ?thesis
      by (auto simp: compact_live_history_def intro!: denials_emitted intro: denials_same [OF ok])
  qed (auto simp: compact_live_history_def intro: denials_same [OF ok])
next
  fix s :: run_loop_state
  assume ok: "denials_kept s"
  show "denials_kept (leave_tools s)"
    by (rule denials_out [OF ok, where os = "if rl_steer_active s then [Steer_deactivated] else []"])
      (simp_all add: leave_tools_def put_out_def)
next
  fix s :: run_loop_state and os
  assume ok: "denials_kept s" and "\<forall>e \<in> set (events_of os). \<not> approval_event e"
  then show "denials_kept (put_out os s)" by (rule denials_out) (simp_all add: put_out_def)
qed (auto elim!: denials_same simp: begin_attempt_def carry_attempt_def Let_def)

text \<open>
  C20: A request the client denied is not asked again in the same run: over every behaviour of the agent and any
  number of restarts, the observer of the events accepts all of them, so that after a denial no later event
  asks for what was denied.
\<close>

theorem denials_are_final:
  "succeeds (run_steps watch_denials ({}, None) (events_of (rl_output (fst (stream_run fr prompt history agent fuel)))))"
proof -
  have "denials_kept (start_run_loop (lf_run_id fr) prompt history)"
    by (simp add: denials_kept_def start_run_loop_def watch_denials_def)
  from denied.ran [OF this, of fr agent 0 fuel] show ?thesis
    by (cases "stream_run fr prompt history agent fuel") (auto simp: stream_run_def denials_kept_def succeeds_iff)
qed

end
