(* ===== verification/Run_Bound.thy ===== *)
theory Run_Bound
  imports Run_Restarts
begin

text \<open>
  How often a run is restarted: corrections of malformed calls, failed compactions and transient failures
  are counted by the loop, so that a run with no other restarts ends within nine attempts.
\<close>

section \<open>What is counted\<close>

definition asks_no_retry :: "attempt \<Rightarrow> bool" where
  "asks_no_retry a \<longleftrightarrow>
     list_all (\<lambda>(_, _, step). case step of Tool_returned r \<Rightarrow> retry_prompt_message (fr_part r) = None | _ \<Rightarrow> True) (at_steps a)"

definition unexpected :: "raised_error \<Rightarrow> bool" where
  "unexpected e \<longleftrightarrow> er_operational e = None"

definition fails_unexpectedly :: "attempt \<Rightarrow> bool" where
  "fails_unexpectedly a \<longleftrightarrow>
     (case at_end a of Graph_failed e \<Rightarrow> unexpected e | _ \<Rightarrow> True)
     \<and> (case at_closing a of Some e \<Rightarrow> unexpected e | None \<Rightarrow> True)"

definition client_fails_unexpectedly :: "run_loop_frame \<Rightarrow> bool" where
  "client_fails_unexpectedly fr \<longleftrightarrow>
     (\<forall>resolve q e. lf_resolve_approval fr = Some resolve \<longrightarrow> resolve q = Inl e \<longrightarrow> unexpected e)
     \<and> (\<forall>resolve q e. lf_resolve_question fr = Some resolve \<longrightarrow> resolve q = Inl e \<longrightarrow> unexpected e)"

definition never_compacts :: "run_loop_frame \<Rightarrow> bool" where
  "never_compacts fr \<longleftrightarrow> lf_window fr = None \<or> \<not> succeeds (initial_context fr)"

text \<open>How many restarts are left; a correction also allows another recovery.\<close>

definition restarts_left :: "run_loop_state \<Rightarrow> nat" where
  "restarts_left s =
     2 * (canonical_agent_tool_correction_retries - rl_corrections s)
     + (canonical_run_recovery_retry_limit - rl_recoveries s)
     + (max_in_run_compact_failures - rl_compact_failures s)"

abbreviation same_counts :: "run_loop_state \<Rightarrow> run_loop_state \<Rightarrow> bool" where
  "same_counts s s' \<equiv> rl_corrections s' = rl_corrections s \<and> rl_recoveries s' = rl_recoveries s
     \<and> rl_compact_failures s' = rl_compact_failures s"

lemma counted_frames [simp]:
  "rl_corrections (put_out os s) = rl_corrections s" "rl_recoveries (put_out os s) = rl_recoveries s"
  "rl_compact_failures (put_out os s) = rl_compact_failures s"
  "rl_corrections (emit es s) = rl_corrections s" "rl_recoveries (emit es s) = rl_recoveries s"
  "rl_compact_failures (emit es s) = rl_compact_failures s"
  "rl_corrections (sink fr ms s) = rl_corrections s" "rl_recoveries (sink fr ms s) = rl_recoveries s"
  "rl_compact_failures (sink fr ms s) = rl_compact_failures s"
  "rl_corrections (leave_tools s) = rl_corrections s" "rl_recoveries (leave_tools s) = rl_recoveries s"
  "rl_compact_failures (leave_tools s) = rl_compact_failures s"
  "rl_corrections (submit_if_ready s) = rl_corrections s" "rl_recoveries (submit_if_ready s) = rl_recoveries s"
  "rl_compact_failures (submit_if_ready s) = rl_compact_failures s"
  "rl_corrections (begin_attempt s) = rl_corrections s" "rl_recoveries (begin_attempt s) = rl_recoveries s"
  "rl_compact_failures (begin_attempt s) = rl_compact_failures s"
  by (simp_all add: put_out_def emit_def sink_def leave_tools_def submit_if_ready_def begin_attempt_def)

lemma left_frames [simp]:
  "restarts_left (sink fr ms s) = restarts_left s" "restarts_left (emit es s) = restarts_left s"
  "restarts_left (leave_tools s) = restarts_left s" "restarts_left (begin_attempt s) = restarts_left s"
  by (simp_all add: restarts_left_def)

section \<open>Steps\<close>

text \<open>A step counts nothing, and stops the attempt only where a count allows another one.\<close>

definition counted_stop :: "run_loop_frame \<Rightarrow> run_loop_state \<Rightarrow> loop_stop option \<Rightarrow> bool" where
  "counted_stop fr s stop \<longleftrightarrow>
     (case stop of
        Some (Stop_correct _) \<Rightarrow> rl_corrections s < canonical_agent_tool_correction_retries
      | Some Stop_compact \<Rightarrow> lf_window fr \<noteq> None \<and> rl_compact_failures s < max_in_run_compact_failures
      | Some (Stop_error f) \<Rightarrow> (\<forall>e. raised_of f = Some e \<longrightarrow> unexpected e)
      | _ \<Rightarrow> True)"

lemma corrected_counted:
  assumes "process_tool_call_event loads validate now run_id available n call t = (t', Inr (Call_corrected m es))"
  shows "n < canonical_agent_tool_correction_retries"
  using assms
  by (auto simp: process_tool_call_event_def correct_tool_call_def Let_def split: sum.splits option.splits prod.splits
      if_splits)

lemma step_counts:
  assumes "run_step fr x s = (s', stop)" and "client_fails_unexpectedly fr"
    and "case snd (snd x) of Tool_returned r \<Rightarrow> retry_prompt_message (fr_part r) = None | _ \<Rightarrow> True"
  shows "same_counts s s' \<and> counted_stop fr s stop"
proof -
  obtain captured now step where x: "x = (captured, now, step)" by (cases x)
  note step = assms(1) [unfolded run_step_def x prod.case]
  show ?thesis
  proof (cases step)
    case Model_requested
    with step show ?thesis
      by (auto simp: request_model_def counted_stop_def check_in_run_compaction_needed_def Let_def split: if_splits option.splits)
  next
    case Streamed
    with step show ?thesis by (auto simp: stream_text_def counted_stop_def Let_def split: option.splits)
  next
    case Approval_queued
    with step assms(2) show ?thesis
      by (auto simp: ask_approval_def counted_stop_def client_fails_unexpectedly_def Let_def
          split: if_splits option.splits sum.splits)
  next
    case Question_queued
    with step assms(2) show ?thesis
      by (auto simp: ask_question_def counted_stop_def client_fails_unexpectedly_def Let_def split: option.splits sum.splits)
  next
    case Update_queued
    with step show ?thesis
      by (auto simp: tool_updated_def counted_stop_def split: sum.splits option.splits prod.splits)
  next
    case Tool_called
    with step show ?thesis
      by (auto simp: tool_called_def counted_stop_def Let_def split: sum.splits prod.splits tool_call_result.splits
          dest: corrected_counted)
  next
    case (Tool_returned r)
    then have "retry_prompt_message (fr_part r) = None" using assms(3) x by simp
    then have "process_tool_result_event (lf_validate fr) now (lf_run_id fr) r (rl_calls s) \<noteq> (t, Inr (Result_corrected m es))"
      for t m es
      by (cases "fr_part r") (auto simp: process_tool_result_event_def Let_def res_bind_Inr split: sum.splits prod.splits)
    with step Tool_returned show ?thesis
      by (auto simp: tool_returned_def counted_stop_def Let_def split: sum.splits prod.splits tool_result_outcome.splits)
  qed (use step in \<open>auto simp: note_usage_def enter_tools_def counted_stop_def Let_def split: option.splits if_splits\<close>)
qed

lemma steps_count:
  assumes "run_attempt_steps fr xs s = (s', stop)" and "client_fails_unexpectedly fr"
    and "list_all (\<lambda>(_, _, step). case step of Tool_returned r \<Rightarrow> retry_prompt_message (fr_part r) = None | _ \<Rightarrow> True) xs"
  shows "same_counts s s' \<and> counted_stop fr s (map_option fst stop)"
  using assms
proof (induction xs arbitrary: s)
  case Nil
  then show ?case by (simp add: counted_stop_def)
next
  case (Cons x xs)
  obtain s1 st where one: "run_step fr x s = (s1, st)" by (cases "run_step fr x s")
  have "case snd (snd x) of Tool_returned r \<Rightarrow> retry_prompt_message (fr_part r) = None | _ \<Rightarrow> True"
    using Cons.prems(3) by (auto split: prod.splits)
  note c = step_counts [OF one Cons.prems(2) this]
  show ?case
  proof (cases st)
    case None
    with Cons.prems one have "run_attempt_steps fr xs s1 = (s', stop)" by simp
    from Cons.IH [OF this Cons.prems(2)] Cons.prems(3) c show ?thesis
      by (auto simp: counted_stop_def split: option.splits loop_stop.splits)
  next
    case (Some y)
    with Cons.prems(1) one c show ?thesis by auto
  qed
qed

section \<open>Attempts\<close>

lemma failing_returns: "fail_run fr n now captured f s = (s', r) \<Longrightarrow> r = Run_returned"
  by (auto simp: fail_run_def Let_def split: prod.splits)

lemma retried_counts:
  assumes "retryable_failure fr f s"
  shows "restarts_left (s\<lparr>rl_recoveries := rl_recoveries s + 1\<rparr>) < restarts_left s"
  using assms
  by (auto simp: retryable_failure_def should_retry_run_error_def restarts_left_def split: option.splits)

lemma error_counts:
  assumes "handle_error fr now captured f s = (s', Attempt_restarted)"
    and "\<And>e. raised_of f = Some e \<Longrightarrow> unexpected e"
  shows "restarts_left s' < restarts_left s"
proof -
  obtain ms where "retryable_failure fr f s" and "s' = sink fr ms (s\<lparr>rl_recoveries := rl_recoveries s + 1\<rparr>)"
    using assms
    by (auto simp: handle_error_def unexpected_def Let_def dest: failing_returns split: option.splits list.splits prod.splits if_splits)
  with retried_counts show ?thesis by simp
qed

lemma correction_counts:
  assumes "rl_corrections s < canonical_agent_tool_correction_retries"
  shows "restarts_left (restart_with_correction m captured s) < restarts_left s"
  using assms
  by (simp add: restarts_left_def restart_with_correction_def carry_attempt_def canonical_run_recovery_retry_limit_def Let_def)

lemma compaction_counts:
  assumes "never_compacts fr" and "lf_window fr \<noteq> None" and "rl_compact_failures s < max_in_run_compact_failures"
  shows "restarts_left (compact_live_history fr captured s) < restarts_left s"
proof -
  from assms(1,2) obtain e where "initial_context fr = Inl e"
    by (cases "initial_context fr") (auto simp: never_compacts_def succeeds_iff)
  with assms(3) show ?thesis by (simp add: compact_live_history_def attempt_in_run_compaction_def restarts_left_def)
qed

lemma stop_counts:
  assumes "handle_stop fr a (stop, captured, now) s = (s', Attempt_restarted)" and "counted_stop fr s (Some stop)"
    and "never_compacts fr" and "fails_unexpectedly a"
  shows "restarts_left s' < restarts_left s"
proof (cases stop)
  case Stop_compact
  with assms(1,2) show ?thesis by (auto simp: handle_stop_def counted_stop_def intro: compaction_counts [OF assms(3)])
next
  case (Stop_correct m)
  with assms(1,2) show ?thesis
    by (auto simp: handle_stop_def counted_stop_def Let_def intro: correction_counts)
next
  case (Stop_error f)
  with assms(1,2) show ?thesis by (auto simp: handle_stop_def counted_stop_def intro: error_counts)
next
  case Stop_return
  with assms(1,4) show ?thesis
    by (auto simp: handle_stop_def fails_unexpectedly_def Let_def intro: error_counts split: option.splits)
qed

lemma finishing_counts:
  assumes "finish_graph fr a out new usage s = (s', Attempt_restarted)"
  shows "restarts_left s' < restarts_left s"
proof -
  have "leave_after_outcome a \<noteq> Attempt_restarted" by (simp add: leave_after_outcome_def split: option.split)
  with assms obtain f where "handle_error fr (at_now a) (at_captured a) f s = (s', Attempt_restarted)"
    and "raised_of f = None"
    by (cases out) (auto simp: finish_graph_def Let_def split: if_splits sum.splits)
  then show ?thesis by (auto intro: error_counts)
qed

lemma attempt_counts:
  assumes "run_attempt fr a s = (s', Attempt_restarted)" and "never_compacts fr" and "client_fails_unexpectedly fr"
    and "asks_no_retry a" and "fails_unexpectedly a"
  shows "restarts_left s' < restarts_left s"
proof -
  obtain s1 stop where one: "run_attempt_steps fr (at_steps a) (begin_attempt s) = (s1, stop)"
    by (cases "run_attempt_steps fr (at_steps a) (begin_attempt s)")
  note c = steps_count [OF one assms(3) assms(4) [unfolded asks_no_retry_def]]
  then have left: "restarts_left s1 = restarts_left s" by (simp add: restarts_left_def)
  show ?thesis
  proof (cases stop)
    case (Some x)
    obtain st captured now where x: "x = (st, captured, now)" by (cases x)
    from assms(1) one have "handle_stop fr a (st, captured, now) s1 = (s', Attempt_restarted)"
      by (simp add: run_attempt_def Some x)
    moreover have "counted_stop fr s1 (Some st)" using c Some x
      by (auto simp: counted_stop_def split: loop_stop.splits)
    ultimately show ?thesis using stop_counts assms(2,5) left by fastforce
  next
    case None
    have "restarts_left s' < restarts_left (leave_tools s1)"
    proof (cases "at_end a")
      case (Graph_finished out new usage)
      with assms(1) one None show ?thesis by (intro finishing_counts) (auto simp: run_attempt_def Let_def)
    next
      case (Graph_failed e)
      with assms(1,5) one None show ?thesis
        by (intro error_counts) (auto simp: run_attempt_def fails_unexpectedly_def Let_def)
    next
      case Graph_cancelled
      with assms(1) one None show ?thesis by (simp add: run_attempt_def Let_def)
    qed
    then show ?thesis by (simp add: left)
  qed
qed

lemma attempts_end:
  assumes "never_compacts fr" and "client_fails_unexpectedly fr"
    and "\<forall>n. asks_no_retry (agent n) \<and> fails_unexpectedly (agent n)" and "restarts_left s < fuel"
  shows "snd (run_attempts fr agent k fuel s) \<noteq> None"
  using assms(4)
proof (induction fuel arbitrary: k s)
  case (Suc fuel)
  obtain s1 r where one: "run_attempt fr (agent k) s = (s1, r)" by (cases "run_attempt fr (agent k) s")
  show ?case
  proof (cases "r = Attempt_restarted")
    case True
    then have "restarts_left s1 < restarts_left s" using attempt_counts [OF _ assms(1,2)] one assms(3) by blast
    with Suc.IH [of s1 "Suc k"] Suc.prems one True show ?thesis by simp
  next
    case False
    with one show ?thesis by (cases r) simp_all
  qed
qed simp


definition sample_unknown :: "nat \<Rightarrow> attempt" where
  "sample_unknown n = sample_attempt [sample_tool_call ''c'' ''look'']"


section \<open>Retry prompts are not limited\<close>


definition retried_call :: "string \<Rightarrow> string \<Rightarrow> ustr \<Rightarrow> (model_message list \<times> int \<times> graph_step) list" where
  "retried_call i name m =
     [([], 0, Tool_called \<lparr>fc_tool_call_id = i, fc_tool_name = name, fc_args = Args_missing, fc_args_valid = None\<rparr>),
      ([], 0, Tool_returned \<lparr>fr_tool_call_id = i, fr_tool_name = None, fr_part = Retry_text m\<rparr>)]"

definition no_open_call :: "run_loop_state \<Rightarrow> bool" where
  "no_open_call s \<longleftrightarrow> ct_pending (rl_calls s) = [] \<and> ct_buffered (rl_calls s) = []"

lemma retried_restarts:
  assumes "no_open_call s" and "name \<in> set (lf_available fr)" and "at_steps a = retried_call i name m"
  obtains s' where "run_attempt fr a s = (s', Attempt_restarted)" and "no_open_call s'"
    and "rl_corrections s' = Suc (rl_corrections s)"
  using assms
  by (simp add: retried_call_def no_open_call_def run_attempt_def handle_stop_def restart_with_correction_def
      carry_attempt_def clear_calls_def begin_attempt_def run_step_def tool_called_def tool_returned_def
      process_tool_call_event_def process_tool_result_event_def normalize_tool_args_def
      malformed_tool_correction_message_def resolve_pending_tool_call_def drain_buffered_tool_updates_def
      buffered_for_def succeeded_event_def build_succeeded_tool_activity_def submit_if_ready_def leave_tools_def
      emit_def put_out_def sink_def Let_def split: if_splits)

lemma retried_forever:
  assumes "name \<in> set (lf_available fr)" and "\<forall>n. at_steps (agent n) = retried_call i name m" and "no_open_call s"
  shows "\<exists>s'. run_attempts fr agent k fuel s = (s', None) \<and> rl_corrections s' = rl_corrections s + fuel"
  using assms(3)
proof (induction fuel arbitrary: k s)
  case (Suc fuel)
  obtain s1 where one: "run_attempt fr (agent k) s = (s1, Attempt_restarted)" and "no_open_call s1"
    and n: "rl_corrections s1 = Suc (rl_corrections s)"
    by (rule retried_restarts [OF Suc.prems assms(1)]) (use assms(2) in blast)+
  from Suc.IH [OF this(2), of "Suc k"] n one show ?case by auto
qed simp

text \<open>
  A tool that answers with a retry prompt restarts the run as a malformed call does, and the restart is
  counted, but the count is not looked at: an agent that gets a retry prompt in every attempt is restarted
  for ever, after any number of corrections.
\<close>

theorem retry_prompts_are_not_limited:
  assumes "name \<in> set (lf_available fr)" and "\<forall>n. at_steps (agent n) = retried_call i name m"
  shows "\<exists>s. stream_run fr prompt history agent fuel = (s, None) \<and> rl_corrections s = fuel"
proof -
  have "no_open_call (start_run_loop (lf_run_id fr) prompt history)"
    by (simp add: no_open_call_def start_run_loop_def no_calls_def)
  from retried_forever [OF assms this, of 0 fuel] show ?thesis by (simp add: stream_run_def start_run_loop_def)
qed

definition sample_retrying :: "nat \<Rightarrow> attempt" where
  "sample_retrying n = sample_attempt [sample_tool_call ''c'' ''read'', sample_refused ''c'']"

theorem retry_prompts_are_not_limited_witness:
  "\<exists>s. stream_run sample_loop [103] [] sample_retrying 1000 = (s, None) \<and> rl_corrections s = 1000"
  by (rule retry_prompts_are_not_limited [where name = "''read''" and i = "''c''" and m = "[63]"])
    (simp_all add: sample_retrying_def sample_defs retried_call_def)

end
