(* ===== verification/Code_Cells.thy ===== *)
theory Code_Cells
  imports Replacement_History "HOL-Library.AList"
begin

text \<open>
  Code mode cells, after \<open>contracts/code_mode.py\<close> and \<open>runtime/code_mode/service.py\<close>: the contract of
  requests and results, and the service that keeps the cells of a run. What a runner does is a parameter: the
  texts it emits, and how it ends. The clock is one too: a step is given how long its cell has been there.
\<close>

section \<open>The contract\<close>

datatype cell_state = Cell_running | Cell_yielded | Cell_completed | Cell_failed | Cell_terminated

fun is_code_mode_terminal_state :: "cell_state \<Rightarrow> bool" where
  "is_code_mode_terminal_state Cell_running = False"
| "is_code_mode_terminal_state Cell_yielded = False"
| "is_code_mode_terminal_state Cell_completed = True"
| "is_code_mode_terminal_state Cell_failed = True"
| "is_code_mode_terminal_state Cell_terminated = True"

datatype output_channel = Channel_stdout | Channel_stderr | Channel_result

datatype cell_error =
    Empty_source | Negative_yield_time | Bad_output_budget | Bad_timeout
  | Empty_error_type | Empty_error_message
  | Failure_without_error | Error_without_failure
  | Cell_not_found string | Cell_without_task string | Not_terminal_state | Cell_already_ended string
  | Task_was_cancelled

record exec_request =
  xr_source :: ustr
  xr_yield_time_ms :: "int option"
  xr_max_output_tokens :: "int option"
  xr_timeout_ms :: "int option"

definition validate_exec_request :: "exec_request \<Rightarrow> (cell_error, unit) result" where
  "validate_exec_request r =
     (if xr_source r = [] then Inl Empty_source
      else if (case xr_yield_time_ms r of None \<Rightarrow> False | Some n \<Rightarrow> n < 0) then Inl Negative_yield_time
      else if (case xr_max_output_tokens r of None \<Rightarrow> False | Some n \<Rightarrow> n < 1) then Inl Bad_output_budget
      else if (case xr_timeout_ms r of None \<Rightarrow> False | Some n \<Rightarrow> n \<le> 0) then Inl Bad_timeout else Inr ())"

record wait_request =
  wq_cell_id :: string
  wq_yield_time_ms :: "int option"
  wq_terminate :: bool

record output_chunk =
  oc_channel :: output_channel
  oc_text :: ustr
  oc_truncated :: bool

record code_mode_error =
  cme_error_type :: ustr
  cme_message :: ustr
  cme_tool_name :: "ustr option"
  cme_tool_call_id :: "ustr option"

definition make_code_mode_error :: "ustr \<Rightarrow> ustr \<Rightarrow> (cell_error, code_mode_error) result" where
  "make_code_mode_error error_type message =
     (if error_type = [] then Inl Empty_error_type
      else if message = [] then Inl Empty_error_message
      else Inr \<lparr>cme_error_type = error_type, cme_message = message, cme_tool_name = None, cme_tool_call_id = None\<rparr>)"

record cell_result =
  ce_cell_id :: string
  ce_state :: cell_state
  ce_output :: "output_chunk list"
  ce_error :: "code_mode_error option"
  ce_elapsed_ms :: nat
  ce_output_truncated :: bool

definition validate_cell_result :: "cell_result \<Rightarrow> (cell_error, unit) result" where
  "validate_cell_result r =
     (if ce_state r = Cell_failed
      then (if ce_error r = None then Inl Failure_without_error else Inr ())
      else if ce_error r \<noteq> None then Inl Error_without_failure else Inr ())"

section \<open>Cells\<close>

text \<open>How the task of a cell stands.\<close>

datatype cell_task = Task_pending | Task_returned | Task_raised cell_error | Task_cancelled

record cell_record =
  cr_max_output_tokens :: "int option"
  cr_chunks :: "output_chunk list"
  cr_truncated :: bool
  cr_state :: cell_state
  cr_error :: "code_mode_error option"
  cr_task :: "cell_task option"

type_synonym cell_service = "(string \<times> cell_record) list"

definition active_cell_ids :: "cell_service \<Rightarrow> string list" where
  "active_cell_ids s = map fst s"

definition new_cell :: "exec_request \<Rightarrow> cell_record" where
  "new_cell request =
     \<lparr>cr_max_output_tokens = xr_max_output_tokens request, cr_chunks = [], cr_truncated = False,
      cr_state = Cell_running, cr_error = None, cr_task = None\<rparr>"

text \<open>The cell is registered and its task created; what follows is a wait.\<close>

definition start_cell :: "string \<Rightarrow> exec_request \<Rightarrow> cell_service \<Rightarrow> cell_service" where
  "start_cell i request s = AList.update i (new_cell request\<lparr>cr_task := Some Task_pending\<rparr>) s"

definition get_cell :: "string \<Rightarrow> cell_service \<Rightarrow> (cell_error, cell_record) result" where
  "get_cell i s = (case map_of s i of None \<Rightarrow> Inl (Cell_not_found i) | Some r \<Rightarrow> Inr r)"

definition require_task :: "string \<Rightarrow> cell_record \<Rightarrow> (cell_error, cell_task) result" where
  "require_task i r = (case cr_task r of None \<Rightarrow> Inl (Cell_without_task i) | Some t \<Rightarrow> Inr t)"

section \<open>Output\<close>

definition max_chars :: "int \<Rightarrow> nat" where
  "max_chars tokens = nat (max 1 (tokens * int chars_per_token))"

definition used_chars :: "output_chunk list \<Rightarrow> nat" where
  "used_chars cs = sum_list (map (\<lambda>c. length (oc_text c)) cs)"

text \<open>The flag of the record is set by the same function.\<close>

definition bounded_chunk :: "cell_record \<Rightarrow> output_channel \<Rightarrow> ustr \<Rightarrow> cell_record \<times> output_chunk option" where
  "bounded_chunk r channel s =
     (case cr_max_output_tokens r of
        None \<Rightarrow> (r, Some \<lparr>oc_channel = channel, oc_text = s, oc_truncated = False\<rparr>)
      | Some tokens \<Rightarrow>
          (let remaining = int (max_chars tokens) - int (used_chars (cr_chunks r)) in
           if remaining \<le> 0 then (r\<lparr>cr_truncated := True\<rparr>, None)
           else if int (length s) \<le> remaining
             then (r, Some \<lparr>oc_channel = channel, oc_text = s, oc_truncated = False\<rparr>)
           else (r\<lparr>cr_truncated := True\<rparr>,
                 Some \<lparr>oc_channel = channel, oc_text = take (nat remaining) s, oc_truncated = True\<rparr>)))"

definition add_output :: "output_channel \<Rightarrow> ustr \<Rightarrow> cell_record \<Rightarrow> cell_record" where
  "add_output channel s r =
     (if cr_truncated r then r
      else (case bounded_chunk r channel s of
              (r, None) \<Rightarrow> r
            | (r, Some chunk) \<Rightarrow> r\<lparr>cr_chunks := cr_chunks r @ [chunk]\<rparr>))"

definition append_output ::
    "string \<Rightarrow> output_channel \<Rightarrow> ustr \<Rightarrow> cell_service \<Rightarrow> (cell_error, cell_service) result" where
  "append_output i channel s cells =
     res_bind (get_cell i cells) (\<lambda>r. Inr (AList.update i (add_output channel s r) cells))"

section \<open>The end of a cell\<close>

definition set_terminal_state ::
    "string \<Rightarrow> cell_state \<Rightarrow> code_mode_error option \<Rightarrow> cell_record \<Rightarrow> (cell_error, cell_record) result" where
  "set_terminal_state i state err r =
     (if \<not> is_code_mode_terminal_state state then Inl Not_terminal_state
      else if is_code_mode_terminal_state (cr_state r) then Inl (Cell_already_ended i)
      else Inr (r\<lparr>cr_state := state, cr_error := err\<rparr>))"

text \<open>
  How a runner ends. A runner that raises a \<open>TimeoutError\<close> itself is taken for one whose time is over.
\<close>

datatype runner_outcome =
    Runner_returned "ustr option" | Runner_timed_out | Runner_raised ustr ustr | Runner_cancelled

definition timeout_error :: code_mode_error where
  "timeout_error =
     \<lparr>cme_error_type = lit ''CodeModeTimeoutError'', cme_message = lit ''Code Mode cell timed out.'',
      cme_tool_name = None, cme_tool_call_id = None\<rparr>"

definition ended_record :: "string \<Rightarrow> runner_outcome \<Rightarrow> cell_record \<Rightarrow> (cell_error, cell_record) result" where
  "ended_record i outcome r =
     (case outcome of
        Runner_cancelled \<Rightarrow> Inl Task_was_cancelled
      | Runner_timed_out \<Rightarrow> set_terminal_state i Cell_failed (Some timeout_error) r
      | Runner_raised kind message \<Rightarrow>
          res_bind (make_code_mode_error kind message) (\<lambda>e. set_terminal_state i Cell_failed (Some e) r)
      | Runner_returned None \<Rightarrow> set_terminal_state i Cell_completed None r
      | Runner_returned (Some s) \<Rightarrow>
          set_terminal_state i Cell_completed None (add_output Channel_result s r))"

text \<open>What is left of \<open>_run_cell\<close> when its runner has ended; an exception stays in the task.\<close>

definition run_cell :: "string \<Rightarrow> runner_outcome \<Rightarrow> cell_service \<Rightarrow> cell_service" where
  "run_cell i outcome cells =
     (case map_of cells i of
        None \<Rightarrow> cells
      | Some r \<Rightarrow>
          AList.update i
            (case ended_record i outcome r of
               Inr r' \<Rightarrow> r'\<lparr>cr_task := Some Task_returned\<rparr>
             | Inl Task_was_cancelled \<Rightarrow> r\<lparr>cr_task := Some Task_cancelled\<rparr>
             | Inl e \<Rightarrow>
                 (case outcome of
                    Runner_returned (Some s) \<Rightarrow> add_output Channel_result s r
                  | _ \<Rightarrow> r)\<lparr>cr_task := Some (Task_raised e)\<rparr>) cells)"

definition build_result ::
    "string \<Rightarrow> nat \<Rightarrow> cell_record \<Rightarrow> bool \<Rightarrow> cell_service \<Rightarrow> cell_service \<times> (cell_error, cell_result) result" where
  "build_result i elapsed r remove_terminal cells =
     (let out = \<lparr>ce_cell_id = i, ce_state = cr_state r, ce_output = cr_chunks r, ce_error = cr_error r,
                 ce_elapsed_ms = elapsed, ce_output_truncated = cr_truncated r\<rparr> in
      case validate_cell_result out of
        Inl e \<Rightarrow> (cells, Inl e)
      | Inr _ \<Rightarrow> (if remove_terminal then AList.delete i cells else cells, Inr out))"

text \<open>What waiting for a task raises, when it has ended.\<close>

fun task_failure :: "cell_task \<Rightarrow> cell_error option" where
  "task_failure (Task_raised e) = Some e"
| "task_failure Task_cancelled = Some Task_was_cancelled"
| "task_failure _ = None"

text \<open>The end of a wait: the time is over, or the task has ended by then.\<close>

definition wait_for_cell ::
    "string \<Rightarrow> nat \<Rightarrow> cell_record \<Rightarrow> cell_service \<Rightarrow> cell_service \<times> (cell_error, cell_result) result" where
  "wait_for_cell i elapsed r cells =
     (if is_code_mode_terminal_state (cr_state r) then build_result i elapsed r True cells
      else (case require_task i r of
              Inl e \<Rightarrow> (cells, Inl e)
            | Inr t \<Rightarrow>
                (case task_failure t of
                   Some e \<Rightarrow> (cells, Inl e)
                 | None \<Rightarrow>
                     (let r' = (if cr_state r = Cell_running then r\<lparr>cr_state := Cell_yielded\<rparr> else r)
                      in build_result i elapsed r' False (AList.update i r' cells)))))"

text \<open>
  The termination of a cell that has not ended. \<open>on_cancel\<close> is how the runner ends when its task is cancelled; a
  task that has ended is not.
\<close>

definition terminate_cell ::
    "string \<Rightarrow> nat \<Rightarrow> runner_outcome \<Rightarrow> cell_record \<Rightarrow> cell_service
     \<Rightarrow> cell_service \<times> (cell_error, cell_result) result" where
  "terminate_cell i elapsed on_cancel r cells =
     (case require_task i r of
        Inl e \<Rightarrow> (cells, Inl e)
      | Inr t \<Rightarrow>
          (let cells = (if t = Task_pending then run_cell i on_cancel cells else cells) in
           case get_cell i cells of
             Inl e \<Rightarrow> (cells, Inl e)
           | Inr r \<Rightarrow>
               (case cr_task r of
                  Some (Task_raised e) \<Rightarrow> (cells, Inl e)
                | _ \<Rightarrow>
                    if is_code_mode_terminal_state (cr_state r) then build_result i elapsed r True cells
                    else (case set_terminal_state i Cell_terminated None r of
                            Inl e \<Rightarrow> (cells, Inl e)
                          | Inr r' \<Rightarrow> build_result i elapsed r' True (AList.update i r' cells)))))"

definition wait_cell ::
    "wait_request \<Rightarrow> nat \<Rightarrow> runner_outcome \<Rightarrow> cell_service \<Rightarrow> cell_service \<times> (cell_error, cell_result) result" where
  "wait_cell request elapsed on_cancel cells =
     (let i = wq_cell_id request in
      case get_cell i cells of
        Inl e \<Rightarrow> (cells, Inl e)
      | Inr r \<Rightarrow>
          if wq_terminate request \<and> \<not> is_code_mode_terminal_state (cr_state r)
            then terminate_cell i elapsed on_cancel r cells
          else wait_for_cell i elapsed r cells)"

section \<open>Output is a prefix\<close>

definition output_text :: "cell_record \<Rightarrow> ustr" where
  "output_text r = concat (map oc_text (cr_chunks r))"

definition within_budget :: "int option \<Rightarrow> ustr \<Rightarrow> ustr" where
  "within_budget budget s = (case budget of None \<Rightarrow> s | Some n \<Rightarrow> take (max_chars n) s)"

text \<open>What is kept of the texts so far, and what the flag says of them.\<close>

definition keeps_prefix :: "ustr \<Rightarrow> cell_record \<Rightarrow> bool" where
  "keeps_prefix s r \<longleftrightarrow>
     output_text r = within_budget (cr_max_output_tokens r) s
     \<and> (if cr_truncated r then \<exists>n. cr_max_output_tokens r = Some n \<and> max_chars n \<le> length s else output_text r = s)"

lemma used_output: "used_chars cs = length (concat (map oc_text cs))"
  by (induction cs) (simp_all add: used_chars_def)

lemma add_output_keeps:
  assumes "keeps_prefix s r"
  shows "keeps_prefix (s @ t) (add_output channel t r)"
    and "cr_max_output_tokens (add_output channel t r) = cr_max_output_tokens r"
proof -
  have *: "keeps_prefix (s @ t) (add_output channel t r) \<and> cr_max_output_tokens (add_output channel t r) = cr_max_output_tokens r"
  proof (cases "cr_truncated r")
    case True
    with assms show ?thesis by (auto simp: keeps_prefix_def add_output_def within_budget_def)
  next
    case False
    then have s: "output_text r = s" using assms unfolding keeps_prefix_def by (metis (full_types))
    show ?thesis
    proof (cases "cr_max_output_tokens r")
      case None
      with False s show ?thesis by (simp add: keeps_prefix_def add_output_def bounded_chunk_def output_text_def within_budget_def)
    next
      case (Some n)
      have used: "used_chars (cr_chunks r) = length s" using s by (simp add: used_output output_text_def)
      have small: "length s \<le> max_chars n"
        using assms s Some by (simp add: keeps_prefix_def within_budget_def) (metis length_take min.cobounded2)
      consider (full) "length s = max_chars n" | (fits) "length s < max_chars n" "length s + length t \<le> max_chars n"
        | (cut_off) "length s < max_chars n" "max_chars n < length s + length t"
        using small by linarith
      then show ?thesis
      proof cases
        case full
        with False Some s used show ?thesis
          by (simp add: keeps_prefix_def add_output_def bounded_chunk_def output_text_def within_budget_def Let_def)
      next
        case fits
        with False Some s used show ?thesis
          by (simp add: keeps_prefix_def add_output_def bounded_chunk_def output_text_def within_budget_def Let_def)
      next
        case cut_off
        then have "nat (int (max_chars n) - int (length s)) = max_chars n - length s" by simp
        with cut_off False Some s used show ?thesis
          by (simp add: keeps_prefix_def add_output_def bounded_chunk_def output_text_def within_budget_def Let_def)
      qed
    qed
  qed
  then show "keeps_prefix (s @ t) (add_output channel t r)"
    and "cr_max_output_tokens (add_output channel t r) = cr_max_output_tokens r" by blast+
qed

text \<open>A cell after what it emitted.\<close>

definition cell_after :: "exec_request \<Rightarrow> (output_channel \<times> ustr) list \<Rightarrow> cell_record" where
  "cell_after request outs = fold (\<lambda>(channel, s). add_output channel s) outs (new_cell request)"

text \<open>
  C30: The output of a cell is the beginning of what it emitted, as long as its budget allows, and a cell that is not
  marked as truncated lost nothing.
\<close>

theorem output_is_a_prefix:
  "output_text (cell_after request outs) = within_budget (xr_max_output_tokens request) (concat (map snd outs))
    \<and> (cr_truncated (cell_after request outs) \<or> output_text (cell_after request outs) = concat (map snd outs))"
proof -
  have "keeps_prefix (concat (map snd outs)) (cell_after request outs)
    \<and> cr_max_output_tokens (cell_after request outs) = xr_max_output_tokens request"
  proof (induction outs rule: rev_induct)
    case Nil
    then show ?case
      by (simp add: cell_after_def keeps_prefix_def new_cell_def output_text_def within_budget_def split: option.split)
  next
    case (snoc x outs)
    obtain channel t where x: "x = (channel, t)" by (cases x)
    from snoc add_output_keeps [where s = "concat (map snd outs)" and r = "cell_after request outs" and t = t and channel = channel] show ?case
      by (simp add: cell_after_def x)
  qed
  then show ?thesis by (auto simp: keeps_prefix_def split: if_splits)
qed

section \<open>Runs of the service\<close>

text \<open>
  What happens to the service: a cell is started, its runner emits a text or ends, or a client has waited for it
  or terminated it. A runner acts as long as its task is pending.
\<close>

datatype cell_event =
    Cell_started string exec_request
  | Cell_emitted string output_channel ustr
  | Runner_ended string runner_outcome
  | Cell_waited wait_request nat runner_outcome

fun step_cell :: "cell_event \<Rightarrow> string" where
  "step_cell (Cell_started i _) = i"
| "step_cell (Cell_emitted i _ _) = i"
| "step_cell (Runner_ended i _) = i"
| "step_cell (Cell_waited request _ _) = wq_cell_id request"

definition runner_live :: "string \<Rightarrow> cell_service \<Rightarrow> bool" where
  "runner_live i cells \<longleftrightarrow> (case map_of cells i of None \<Rightarrow> False | Some r \<Rightarrow> cr_task r = Some Task_pending)"

type_synonym cell_answer = "(cell_error, cell_result) result"

fun cell_step :: "cell_service \<Rightarrow> cell_event \<Rightarrow> cell_service \<times> cell_answer option" where
  "cell_step cells (Cell_started i request) = (start_cell i request cells, None)"
| "cell_step cells (Cell_emitted i channel s) =
     (if runner_live i cells
      then (case append_output i channel s cells of Inl _ \<Rightarrow> cells | Inr cells' \<Rightarrow> cells') else cells, None)"
| "cell_step cells (Runner_ended i outcome) = (if runner_live i cells then run_cell i outcome cells else cells, None)"
| "cell_step cells (Cell_waited request elapsed outcome) = map_prod id Some (wait_cell request elapsed outcome cells)"

fun cells_run :: "cell_service \<Rightarrow> cell_event list \<Rightarrow> cell_service \<times> (string \<times> cell_answer) list" where
  "cells_run cells [] = (cells, [])"
| "cells_run cells (x # xs) =
     (let (cells, answer) = cell_step cells x; (cells, answers) = cells_run cells xs
      in (cells, (case answer of None \<Rightarrow> [] | Some a \<Rightarrow> [(step_cell x, a)]) @ answers))"

lemma cells_run_append:
  "cells_run cells (xs @ ys) =
     (let (cells, answers) = cells_run cells xs; (cells, answers') = cells_run cells ys in (cells, answers @ answers'))"
  by (induction xs arbitrary: cells) (simp_all add: Let_def split_beta)

section \<open>The cells stay consistent\<close>

definition cell_ok :: "cell_record \<Rightarrow> bool" where
  "cell_ok r \<longleftrightarrow>
     (cr_state r = Cell_failed \<longleftrightarrow> cr_error r \<noteq> None) \<and> cr_task r \<noteq> None
     \<and> (is_code_mode_terminal_state (cr_state r) \<longleftrightarrow> cr_task r = Some Task_returned)
     \<and> (\<forall>e. cr_task r = Some (Task_raised e) \<longrightarrow> e = Empty_error_type \<or> e = Empty_error_message)"

definition cells_ok :: "cell_service \<Rightarrow> bool" where
  "cells_ok cells \<longleftrightarrow> (\<forall>i r. map_of cells i = Some r \<longrightarrow> cell_ok r)"

text \<open>What a client may be told: a result that fits the contract, or one of these errors.\<close>

fun proper_answer :: "string \<Rightarrow> cell_answer \<Rightarrow> bool" where
  "proper_answer i (Inr r) \<longleftrightarrow> validate_cell_result r = Inr () \<and> ce_cell_id r = i"
| "proper_answer i (Inl e) \<longleftrightarrow>
     e = Cell_not_found i \<or> e = Task_was_cancelled \<or> e = Empty_error_type \<or> e = Empty_error_message"

lemma add_output_fields [simp]:
  "cr_state (add_output channel s r) = cr_state r" "cr_error (add_output channel s r) = cr_error r"
  "cr_task (add_output channel s r) = cr_task r"
  by (simp_all add: add_output_def bounded_chunk_def Let_def split: option.splits prod.splits)

lemma updated_ok: "cells_ok cells \<Longrightarrow> cell_ok r \<Longrightarrow> cells_ok (AList.update i r cells)"
  by (auto simp: cells_ok_def AList.update_conv split: if_splits)

lemma deleted_ok: "cells_ok cells \<Longrightarrow> cells_ok (AList.delete i cells)"
  by (auto simp: cells_ok_def AList.delete_conv split: if_splits)

lemma cell_known: "cells_ok cells \<Longrightarrow> map_of cells i = Some r \<Longrightarrow> cell_ok r"
  by (simp add: cells_ok_def)

lemma emitted_ok: "cell_ok r \<Longrightarrow> cell_ok (add_output channel s r)"
  by (simp add: cell_ok_def)

lemma ended_ok:
  assumes "cell_ok r" and "cr_task r = Some Task_pending" and "map_of cells i = Some r" and "cells_ok cells"
  shows "cells_ok (run_cell i outcome cells)"
proof -
  have live: "\<not> is_code_mode_terminal_state (cr_state r)" using assms(1,2) by (simp add: cell_ok_def)
  then have state: "cr_state r = Cell_running \<or> cr_state r = Cell_yielded" by (cases "cr_state r") simp_all
  with assms(1) have err: "cr_error r = None" by (auto simp: cell_ok_def)
  have "cell_ok (case ended_record i outcome r of
               Inr r' \<Rightarrow> r'\<lparr>cr_task := Some Task_returned\<rparr>
             | Inl Task_was_cancelled \<Rightarrow> r\<lparr>cr_task := Some Task_cancelled\<rparr>
             | Inl e \<Rightarrow>
                 (case outcome of
                    Runner_returned (Some s) \<Rightarrow> add_output Channel_result s r
                  | _ \<Rightarrow> r)\<lparr>cr_task := Some (Task_raised e)\<rparr>)"
  proof (cases outcome)
    case (Runner_returned t)
    then show ?thesis using live err state
      by (cases t) (auto simp: ended_record_def set_terminal_state_def cell_ok_def)
  next
    case (Runner_raised kind message)
    then show ?thesis using live err state
      by (auto simp: ended_record_def set_terminal_state_def make_code_mode_error_def cell_ok_def)
  qed (use live err state in \<open>auto simp: ended_record_def set_terminal_state_def cell_ok_def\<close>)
  with assms(3,4) show ?thesis by (simp add: run_cell_def updated_ok)
qed

lemma ok_errors: "cell_ok r \<Longrightarrow> cr_state r = Cell_failed \<longleftrightarrow> cr_error r \<noteq> None"
  by (simp add: cell_ok_def)

lemma built_ok:
  assumes "cells_ok cells" and "cr_state r = Cell_failed \<longleftrightarrow> cr_error r \<noteq> None"
    and "build_result i elapsed r remove cells = (cells', a)"
  shows "cells_ok cells' \<and> proper_answer i a"
  using assms
  by (auto simp: build_result_def validate_cell_result_def Let_def deleted_ok split: if_splits)

lemma waited_ok:
  assumes "cells_ok cells" and "map_of cells i = Some r" and "wait_for_cell i elapsed r cells = (cells', a)"
  shows "cells_ok cells' \<and> proper_answer i a"
proof -
  have ok: "cell_ok r" by (rule cell_known [OF assms(1,2)])
  then obtain t where t: "cr_task r = Some t" by (auto simp: cell_ok_def)
  let ?r = "if cr_state r = Cell_running then r\<lparr>cr_state := Cell_yielded\<rparr> else r"
  show ?thesis
  proof (cases "is_code_mode_terminal_state (cr_state r)")
    case True
    with assms(3) have "build_result i elapsed r True cells = (cells', a)" by (simp add: wait_for_cell_def)
    then show ?thesis by (rule built_ok [OF assms(1) ok_errors [OF ok]])
  next
    case False
    show ?thesis
    proof (cases "task_failure t")
      case None
      have "cell_ok ?r" using ok False by (auto simp: cell_ok_def)
      moreover from False None t assms(3) have "build_result i elapsed ?r False (AList.update i ?r cells) = (cells', a)"
        by (simp add: wait_for_cell_def require_task_def Let_def)
      ultimately show ?thesis using built_ok [OF updated_ok [OF assms(1)] ok_errors] by blast
    next
      case (Some e)
      with False t assms ok show ?thesis
        by (cases t) (auto simp: wait_for_cell_def require_task_def cell_ok_def)
    qed
  qed
qed

lemma killed_ok:
  assumes "cells_ok cells" and Some: "map_of cells i = Some r" and live: "\<not> is_code_mode_terminal_state (cr_state r)"
    and run: "terminate_cell i elapsed outcome r cells = (cells', a)"
  shows "cells_ok cells' \<and> proper_answer i a"
proof -
  note ok = cell_known [OF assms(1) Some]
  then obtain t where t: "cr_task r = Some t" by (auto simp: cell_ok_def)
  let ?cells = "if t = Task_pending then run_cell i outcome cells else cells"
  have ok': "cells_ok ?cells" using ended_ok [OF ok _ Some assms(1)] t assms(1) by simp
  show ?thesis
  proof (cases "map_of ?cells i")
    case None
    with t run ok' show ?thesis
      by (auto simp: terminate_cell_def get_cell_def require_task_def Let_def split: if_splits)
  next
    case r': (Some r')
    note okr = cell_known [OF ok' r']
    have run: "(case cr_task r' of
          Some (Task_raised e) \<Rightarrow> (?cells, Inl e)
        | _ \<Rightarrow>
            if is_code_mode_terminal_state (cr_state r') then build_result i elapsed r' True ?cells
            else (case set_terminal_state i Cell_terminated None r' of
                    Inl e \<Rightarrow> (?cells, Inl e)
                  | Inr r'' \<Rightarrow> build_result i elapsed r'' True (AList.update i r'' ?cells))) = (cells', a)"
      using t r' run by (simp add: terminate_cell_def get_cell_def require_task_def Let_def)
    show ?thesis
    proof (cases "\<exists>e. cr_task r' = Some (Task_raised e)")
      case True
      with run ok' okr show ?thesis by (auto simp: cell_ok_def)
    next
      case nr: False
      show ?thesis
      proof (cases "is_code_mode_terminal_state (cr_state r')")
        case True
        with nr run have "build_result i elapsed r' True ?cells = (cells', a)"
          by (auto split: option.splits cell_task.splits)
        then show ?thesis by (rule built_ok [OF ok' ok_errors [OF okr]])
      next
        case nt: False
        let ?r = "r'\<lparr>cr_state := Cell_terminated, cr_error := None\<rparr>"
        have "set_terminal_state i Cell_terminated None r' = Inr ?r" using nt by (simp add: set_terminal_state_def)
        with nr nt run have b: "build_result i elapsed ?r True (AList.update i ?r ?cells) = (cells', a)"
          by (auto split: option.splits cell_task.splits)
        have gone: "cells' = AList.delete i (AList.update i ?r ?cells) \<and> proper_answer i a"
          using b by (auto simp: build_result_def validate_cell_result_def)
        moreover have "cells_ok (AList.delete i (AList.update i ?r ?cells))"
          using ok' by (auto simp: cells_ok_def AList.delete_conv AList.update_conv split: if_splits)
        ultimately show ?thesis by simp
      qed
    qed
  qed
qed

lemma step_ok:
  assumes "cells_ok cells" and "cell_step cells x = (cells', a)"
  shows "cells_ok cells' \<and> (\<forall>y. a = Some y \<longrightarrow> proper_answer (step_cell x) y)"
proof (cases x)
  case (Cell_started i request)
  have "cell_ok (new_cell request\<lparr>cr_task := Some Task_pending\<rparr>)" by (simp add: cell_ok_def new_cell_def)
  with assms Cell_started show ?thesis by (auto simp: start_cell_def updated_ok)
next
  case (Cell_emitted i channel s)
  with assms show ?thesis
    by (auto simp: append_output_def get_cell_def split: option.splits intro!: updated_ok emitted_ok dest: cell_known)
next
  case (Runner_ended i outcome)
  with assms show ?thesis
    by (auto simp: runner_live_def split: option.splits if_splits intro: ended_ok dest: cell_known)
next
  case (Cell_waited request elapsed outcome)
  obtain c b where w: "wait_cell request elapsed outcome cells = (c, b)" by (rule prod.exhaust)
  have "cells_ok c \<and> proper_answer (wq_cell_id request) b"
  proof (cases "map_of cells (wq_cell_id request)")
    case None
    with assms(1) w show ?thesis by (auto simp: wait_cell_def get_cell_def)
  next
    case (Some r)
    with w have "(if wq_terminate request \<and> \<not> is_code_mode_terminal_state (cr_state r)
        then terminate_cell (wq_cell_id request) elapsed outcome r cells
        else wait_for_cell (wq_cell_id request) elapsed r cells) = (c, b)"
      by (simp add: wait_cell_def get_cell_def Let_def)
    with killed_ok [OF assms(1) Some] waited_ok [OF assms(1) Some] show ?thesis by (metis (full_types))
  qed
  with assms(2) Cell_waited w show ?thesis by auto
qed

text \<open>
  C19: The results of the service always fit their contract: whatever cells are started, whatever their runners do
  and however they are waited for and terminated, an answer is a result that its validator accepts, or tells
  of an unknown cell, of a task that was cancelled, or of an exception without a name or a message.
\<close>

theorem answers_fit_the_contract:
  "list_all (\<lambda>(i, a). proper_answer i a) (snd (cells_run [] steps))"
proof -
  have "cells_ok cells \<Longrightarrow> list_all (\<lambda>(i, a). proper_answer i a) (snd (cells_run cells steps))" for cells
  proof (induction steps arbitrary: cells)
    case (Cons x xs)
    obtain cells1 a where one: "cell_step cells x = (cells1, a)" by (rule prod.exhaust)
    from step_ok [OF Cons.prems one] Cons.IH [of cells1] one show ?case
      by (cases a) (simp_all add: Let_def split_beta)
  qed simp
  then show ?thesis by (simp add: cells_ok_def)
qed

section \<open>Cells that have ended\<close>

lemma other_cells_stay:
  assumes "step_cell x \<noteq> i"
  shows "map_of (fst (cell_step cells x)) i = map_of cells i"
proof -
  have run: "map_of (run_cell j outcome c) i = map_of c i" if "j \<noteq> i" for j outcome c
    using that by (simp add: run_cell_def AList.update_conv split: option.split)
  have built: "map_of (fst (build_result j elapsed r remove c)) i = map_of c i" if "j \<noteq> i" for j elapsed r remove c
    using that by (simp add: build_result_def AList.delete_conv Let_def split: sum.split)
  have waited: "map_of (fst (wait_for_cell j elapsed r c)) i = map_of c i" if "j \<noteq> i" for j elapsed r c
    using that by (simp add: wait_for_cell_def built AList.update_conv Let_def split: sum.split option.split)
  have killed: "map_of (fst (terminate_cell j elapsed outcome r c)) i = map_of c i" if "j \<noteq> i" for j elapsed outcome r c
  proof (cases "require_task j r")
    case (Inr t)
    define c' where "c' = (if t = Task_pending then run_cell j outcome c else c)"
    have c': "map_of c' i = map_of c i" using run [OF that] by (simp add: c'_def)
    show ?thesis
    proof (cases "get_cell j c'")
      case (Inr r')
      have ending: "map_of (fst (case set_terminal_state j Cell_terminated None r' of
            Inl e \<Rightarrow> (c', Inl e) | Inr r'' \<Rightarrow> build_result j elapsed r'' True (AList.update j r'' c'))) i = map_of c i"
        using that c' by (cases "set_terminal_state j Cell_terminated None r'") (simp_all add: built AList.update_conv)
      have "fst (terminate_cell j elapsed outcome r c) =
          fst (case cr_task r' of Some (Task_raised e) \<Rightarrow> (c', Inl e)
             | _ \<Rightarrow> if is_code_mode_terminal_state (cr_state r') then build_result j elapsed r' True c'
                   else (case set_terminal_state j Cell_terminated None r' of
                     Inl e \<Rightarrow> (c', Inl e) | Inr r'' \<Rightarrow> build_result j elapsed r'' True (AList.update j r'' c')))"
        using \<open>require_task j r = Inr t\<close> Inr by (simp add: terminate_cell_def Let_def flip: c'_def)
      then show ?thesis using ending that c' by (simp add: built split: option.split cell_task.split)
    qed (use \<open>require_task j r = Inr t\<close> c' in \<open>simp add: terminate_cell_def Let_def flip: c'_def\<close>)
  qed (simp add: terminate_cell_def)
  show ?thesis
  proof (cases x)
    case (Cell_started j request)
    with assms show ?thesis by (simp add: start_cell_def AList.update_conv)
  next
    case (Cell_emitted j channel s)
    with assms show ?thesis by (auto simp: append_output_def AList.update_conv split: sum.split)
  next
    case (Runner_ended j outcome)
    with assms run show ?thesis by simp
  next
    case (Cell_waited request elapsed outcome)
    with assms waited killed show ?thesis by (simp add: wait_cell_def Let_def split: sum.split)
  qed
qed

lemma other_cells_stay_in_runs:
  "\<forall>x \<in> set xs. step_cell x \<noteq> i \<Longrightarrow>
     map_of (fst (cells_run cells xs)) i = map_of cells i \<and> (\<forall>a. (i, a) \<notin> set (snd (cells_run cells xs)))"
proof (induction xs arbitrary: cells)
  case (Cons x xs)
  then show ?case using other_cells_stay [where x = x and i = i and cells = cells]
    by (auto simp: Let_def split_beta split: option.splits)
qed simp

lemma run_keeps_ok: "cells_ok cells \<Longrightarrow> cells_ok (fst (cells_run cells xs))"
proof (induction xs arbitrary: cells)
  case (Cons x xs)
  then show ?case using step_ok [where cells = cells and x = x]
    by (cases "cell_step cells x") (auto simp: Let_def split_beta)
qed simp

text \<open>How a cell ends, for the client, by the end of its runner.\<close>

fun cell_ending :: "runner_outcome \<Rightarrow> (cell_state \<times> code_mode_error option) option" where
  "cell_ending (Runner_returned _) = Some (Cell_completed, None)"
| "cell_ending Runner_timed_out = Some (Cell_failed, Some timeout_error)"
| "cell_ending (Runner_raised kind message) =
     (case make_code_mode_error kind message of Inl _ \<Rightarrow> None | Inr e \<Rightarrow> Some (Cell_failed, Some e))"
| "cell_ending Runner_cancelled = None"

lemma ended_is_kept:
  assumes "cells_ok cells" and "runner_live i cells" and "cell_ending outcome = Some (state, err)"
  obtains r where "map_of (run_cell i outcome cells) i = Some r" and "cr_state r = state" and "cr_error r = err"
    and "is_code_mode_terminal_state state"
proof -
  from assms(2) obtain r where r: "map_of cells i = Some r" and pending: "cr_task r = Some Task_pending"
    by (auto simp: runner_live_def split: option.splits)
  with cell_known [OF assms(1) r] have live: "\<not> is_code_mode_terminal_state (cr_state r)" by (simp add: cell_ok_def)
  from assms(3) live have "\<exists>r'. ended_record i outcome r = Inr r' \<and> cr_state r' = state \<and> cr_error r' = err
      \<and> is_code_mode_terminal_state state"
    by (cases outcome) (auto simp: ended_record_def set_terminal_state_def split: option.splits sum.splits)
  with r show thesis by (auto simp: run_cell_def AList.update_conv intro!: that)
qed

text \<open>What a wait says of a cell that has ended.\<close>

lemma ended_is_answered:
  assumes "cells_ok cells" and "map_of cells i = Some r" and "is_code_mode_terminal_state (cr_state r)"
    and "wq_cell_id request = i"
  shows "\<exists>a. wait_cell request elapsed outcome cells = (AList.delete i cells, Inr a)
    \<and> ce_cell_id a = i \<and> ce_state a = cr_state r \<and> ce_error a = cr_error r \<and> ce_output a = cr_chunks r"
  using ok_errors [OF cell_known [OF assms(1,2)]] assms(2-)
  by (simp add: wait_cell_def get_cell_def wait_for_cell_def build_result_def validate_cell_result_def Let_def)


definition sample_exec_request :: exec_request where
  "sample_exec_request =
     \<lparr>xr_source = lit ''x'', xr_yield_time_ms = None, xr_max_output_tokens = Some 1, xr_timeout_ms = None\<rparr>"

definition sample_wait :: wait_request where
  "sample_wait = \<lparr>wq_cell_id = ''a'', wq_yield_time_ms = None, wq_terminate = True\<rparr>"

lemmas sample_cell_defs = sample_exec_request_def sample_wait_def start_cell_def new_cell_def runner_live_def
  append_output_def get_cell_def add_output_def bounded_chunk_def used_chars_def max_chars_def chars_per_token_def


section \<open>Cells that are stranded\<close>

definition stranded :: "string \<Rightarrow> cell_error \<Rightarrow> cell_service \<Rightarrow> bool" where
  "stranded i e cells \<longleftrightarrow>
     (case map_of cells i of
        None \<Rightarrow> False
      | Some r \<Rightarrow> \<not> is_code_mode_terminal_state (cr_state r) \<and> cr_task r = Some (Task_raised e))"

fun is_start :: "cell_event \<Rightarrow> bool" where
  "is_start (Cell_started _ _) = True"
| "is_start _ = False"

lemma stranded_step:
  assumes "stranded i e cells" and "step_cell x = i \<Longrightarrow> \<not> is_start x"
  shows "stranded i e (fst (cell_step cells x))
    \<and> (\<forall>a. step_cell x = i \<longrightarrow> snd (cell_step cells x) = Some a \<longrightarrow> a = Inl e)"
proof (cases "step_cell x = i")
  case False
  with assms(1) show ?thesis by (simp add: stranded_def other_cells_stay)
next
  case True
  from assms(1) obtain r where r: "map_of cells i = Some r" "\<not> is_code_mode_terminal_state (cr_state r)"
    "cr_task r = Some (Task_raised e)" by (auto simp: stranded_def split: option.splits)
  with True assms show ?thesis
    by (cases x) (auto simp: runner_live_def wait_cell_def get_cell_def wait_for_cell_def terminate_cell_def
        require_task_def Let_def)
qed

lemma stranded_run:
  "stranded i e cells \<Longrightarrow> \<forall>x \<in> set xs. step_cell x = i \<longrightarrow> \<not> is_start x \<Longrightarrow>
     stranded i e (fst (cells_run cells xs)) \<and> (\<forall>a. (i, a) \<in> set (snd (cells_run cells xs)) \<longrightarrow> a = Inl e)"
proof (induction xs arbitrary: cells)
  case (Cons x xs)
  then show ?case using stranded_step [where x = x and i = i and e = e and cells = cells]
    by (auto simp: Let_def split_beta split: option.splits)
qed simp

text \<open>
  C29: An exception without a message strands its cell: its error cannot be built, so the cell never ends. Every later
  wait for it, with termination or without, raises that failure again, and the cell stays among the active ones.
\<close>

theorem silent_exceptions_strand_cells:
  assumes "runner_live i (fst (cells_run [] before))" and "kind \<noteq> []"
    and "\<forall>x \<in> set later. step_cell x = i \<longrightarrow> \<not> is_start x"
  shows "\<exists>cells answers.
    cells_run [] (before @ Runner_ended i (Runner_raised kind []) # later)
      = (cells, snd (cells_run [] before) @ answers)
    \<and> (\<forall>a. (i, a) \<in> set answers \<longrightarrow> a = Inl Empty_error_message) \<and> i \<in> set (active_cell_ids cells)"
proof -
  let ?c = "fst (cells_run [] before)" and ?x = "Runner_ended i (Runner_raised kind [])"
  have "cells_ok ?c" by (rule run_keeps_ok) (simp add: cells_ok_def)
  with assms(1,2) have s: "stranded i Empty_error_message (run_cell i (Runner_raised kind []) ?c)"
    by (auto simp: runner_live_def run_cell_def ended_record_def make_code_mode_error_def stranded_def
        AList.update_conv cell_ok_def dest!: cell_known split: option.splits)
  define cells answers where "cells = fst (cells_run (run_cell i (Runner_raised kind []) ?c) later)"
    and "answers = snd (cells_run (run_cell i (Runner_raised kind []) ?c) later)"
  have "cells_run [] (before @ ?x # later) = (cells, snd (cells_run [] before) @ answers)"
    using assms(1) by (simp add: cells_run_append cells_def answers_def split_beta Let_def)
  moreover from stranded_run [OF s assms(3)] have "stranded i Empty_error_message cells"
    and "\<forall>a. (i, a) \<in> set answers \<longrightarrow> a = Inl Empty_error_message"
    by (simp_all add: cells_def answers_def)
  moreover from this(1) have "i \<in> set (active_cell_ids cells)"
    by (auto simp: stranded_def active_cell_ids_def dest!: map_of_SomeD split: option.splits intro!: image_eqI)
  ultimately show ?thesis by blast
qed

text \<open>A cell that raises an exception without a message, and that is waited for twice.\<close>

theorem silent_exceptions_strand_cells_witness:
  "\<exists>cells answers.
    cells_run [] ([Cell_started ''a'' sample_exec_request]
        @ Runner_ended ''a'' (Runner_raised (lit ''ValueError'') []) # [Cell_waited sample_wait 1 Runner_cancelled,
          Cell_waited sample_wait 2 Runner_cancelled])
      = (cells, snd (cells_run [] [Cell_started ''a'' sample_exec_request]) @ answers)
    \<and> map fst answers = [''a'', ''a''] \<and> map snd answers = [Inl Empty_error_message, Inl Empty_error_message]
    \<and> ''a'' \<in> set (active_cell_ids cells)"
proof -
  let ?later = "[Cell_waited sample_wait 1 Runner_cancelled, Cell_waited sample_wait 2 Runner_cancelled]"
  let ?steps = "[Cell_started ''a'' sample_exec_request] @ Runner_ended ''a'' (Runner_raised (lit ''ValueError'') []) # ?later"
  have "\<exists>cells answers. cells_run [] ?steps = (cells, snd (cells_run [] [Cell_started ''a'' sample_exec_request]) @ answers)
      \<and> (\<forall>a. (''a'', a) \<in> set answers \<longrightarrow> a = Inl Empty_error_message) \<and> ''a'' \<in> set (active_cell_ids cells)"
    by (rule silent_exceptions_strand_cells) (simp_all add: sample_cell_defs lit_def)
  then obtain cells answers where run: "cells_run [] ?steps = (cells, snd (cells_run [] [Cell_started ''a'' sample_exec_request]) @ answers)"
    and told: "\<forall>a. (''a'', a) \<in> set answers \<longrightarrow> a = Inl Empty_error_message"
    and active: "''a'' \<in> set (active_cell_ids cells)"
    by blast
  from run have "map fst (snd (cells_run [] ?steps)) = map fst (snd (cells_run [] [Cell_started ''a'' sample_exec_request]) @ answers)"
    by simp
  then have ids: "map fst answers = [''a'', ''a'']"
    by (simp add: sample_cell_defs lit_def wait_cell_def terminate_cell_def require_task_def run_cell_def ended_record_def
        make_code_mode_error_def Let_def)
  then obtain b b' where two: "answers = [(''a'', b), (''a'', b')]" by (auto simp: map_eq_Cons_conv)
  with told have "b = Inl Empty_error_message" "b' = Inl Empty_error_message" by auto
  with two have "map snd answers = [Inl Empty_error_message, Inl Empty_error_message]" by simp
  with run ids active show ?thesis by (intro exI [of _ cells] exI [of _ answers] conjI)
qed

end
