(* ===== verification/Rpc_Contract.thy ===== *)
theory Rpc_Contract
  imports Follow_Up_Queue Session_Append Approval Json_Value Models "HOL-Library.Monad_Syntax"
begin

text \<open>
  The lines of the RPC server, after \<open>contracts/rpc.py\<close>: the requests with the validation of their JSON, and
  what the server answers. A request keeps its payload as the arguments of a constructor. What pydantic makes of
  a value for a flag or a number is a parameter, as is the decoding of policies and decisions.
\<close>

section \<open>Requests\<close>

record run_start_payload =
  rsp_session_id :: string
  rsp_prompt :: ustr
  rsp_mode :: "run_mode option"
  rsp_thinking :: "thinking_setting option"
  rsp_enable_code_mode :: bool
  rsp_code_mode_tools_only :: bool

datatype rpc_request =
    Session_create
  | Session_compact string
  | Session_name string ustr
  | Session_preview string
  | Session_mode_set string run_mode
  | Model_catalog
  | Auth_status
  | Trace_logfire_status
  | Auth_prepare_file provider_name
  | Auth_set provider_name ustr
  | Auth_clear provider_name
  | Login_openai_codex_start
  | Login_openai_codex_complete ustr ustr
  | Login_openai_codex_wait ustr
  | Run_start run_start_payload
  | Run_enqueue string ustr queue_mode
  | Run_interrupt string bool
  | Onboarding_start "string option"
  | Onboarding_submit string ustr int
  | Permission_get "string option"
  | Permission_set "string option" "sandbox_policy option" "approval_policy option"
  | Approval_submit string approval_decision
  | Workspace_project_docs
  | Workspace_trust_status
  | Workspace_trust_accept

record rpc_envelope =
  re_id :: ustr
  re_request :: rpc_request

section \<open>Fields\<close>

type_synonym json_fields = "(ustr \<times> json) list"

record request_codec =
  rc_bool :: "json \<Rightarrow> bool option"
  rc_int :: "json \<Rightarrow> int option"
  rc_sandbox_policy :: "json \<Rightarrow> sandbox_policy option"
  rc_approval_policy :: "json \<Rightarrow> approval_policy option"
  rc_approval_decision :: "json \<Rightarrow> approval_decision option"

definition only_fields :: "string list \<Rightarrow> json_fields \<Rightarrow> bool" where
  "only_fields names fs \<longleftrightarrow> list_all (\<lambda>(k, _). k \<in> set (map lit names)) fs"

definition required :: "string \<Rightarrow> (json \<Rightarrow> 'a option) \<Rightarrow> json_fields \<Rightarrow> 'a option" where
  "required name decode fs = Option.bind (map_of fs (lit name)) decode"

definition defaulted :: "string \<Rightarrow> (json \<Rightarrow> 'a option) \<Rightarrow> 'a \<Rightarrow> json_fields \<Rightarrow> 'a option" where
  "defaulted name decode d fs = (case map_of fs (lit name) of None \<Rightarrow> Some d | Some j \<Rightarrow> decode j)"

definition nullable :: "(json \<Rightarrow> 'a option) \<Rightarrow> json \<Rightarrow> 'a option option" where
  "nullable decode j = (if j = JNull then Some None else map_option Some (decode j))"

fun json_text :: "json \<Rightarrow> ustr option" where
  "json_text (JStr s) = Some s"
| "json_text _ = None"

fun object_fields :: "json \<Rightarrow> json_fields option" where
  "object_fields (JObj fs) = Some fs"
| "object_fields _ = None"

text \<open>A literal type: one of the named values.\<close>

definition json_choice :: "(string \<times> 'a) list \<Rightarrow> json \<Rightarrow> 'a option" where
  "json_choice table j =
     Option.bind (json_text j) (\<lambda>s. map_option snd (find (\<lambda>(name, _). lit name = s) table))"

definition session_id_code :: "nat \<Rightarrow> bool" where
  "session_id_code c \<longleftrightarrow> 48 \<le> c \<and> c \<le> 57 \<or> 97 \<le> c \<and> c \<le> 102"

definition json_session_id :: "json \<Rightarrow> string option" where
  "json_session_id j =
     Option.bind (json_text j)
       (\<lambda>s. if length s = 32 \<and> list_all session_id_code s then Some (map char_of s) else None)"

definition run_modes :: "(string \<times> run_mode) list" where
  "run_modes = [(''coding'', Mode_coding), (''onboarding'', Mode_onboarding)]"

definition thinking_levels :: "(string \<times> thinking_setting) list" where
  "thinking_levels =
     [(''minimal'', Thinking_minimal), (''low'', Thinking_low), (''medium'', Thinking_medium),
      (''high'', Thinking_high), (''xhigh'', Thinking_xhigh)]"

definition json_thinking :: "request_codec \<Rightarrow> json \<Rightarrow> thinking_setting option" where
  "json_thinking c j =
     (case json_choice thinking_levels j of
        Some level \<Rightarrow> Some level
      | None \<Rightarrow> map_option Thinking_bool (rc_bool c j))"

definition provider_names :: "(string \<times> provider_name) list" where
  "provider_names = [(''openai'', Provider_openai), (''anthropic'', Provider_anthropic)]"

definition queue_modes :: "(string \<times> queue_mode) list" where
  "queue_modes = [(''later'', Later), (''next'', Next)]"

section \<open>Payloads\<close>

definition no_fields :: "rpc_request \<Rightarrow> json_fields \<Rightarrow> rpc_request option" where
  "no_fields r fs = (if only_fields [] fs then Some r else None)"

definition run_start_fields :: "request_codec \<Rightarrow> json_fields \<Rightarrow> rpc_request option" where
  "run_start_fields c fs =
     (if \<not> only_fields [''session_id'', ''prompt'', ''mode'', ''thinking'', ''enable_code_mode'', ''code_mode_tools_only''] fs
      then None
      else do {
        i \<leftarrow> required ''session_id'' json_session_id fs;
        prompt \<leftarrow> required ''prompt'' json_text fs;
        mode \<leftarrow> defaulted ''mode'' (nullable (json_choice run_modes)) None fs;
        thinking \<leftarrow> defaulted ''thinking'' (nullable (json_thinking c)) None fs;
        enable \<leftarrow> defaulted ''enable_code_mode'' (rc_bool c) False fs;
        only \<leftarrow> defaulted ''code_mode_tools_only'' (rc_bool c) False fs;
        Some (Run_start \<lparr>rsp_session_id = i, rsp_prompt = prompt, rsp_mode = mode, rsp_thinking = thinking,
                         rsp_enable_code_mode = enable, rsp_code_mode_tools_only = only\<rparr>)
      })"

definition permission_set_fields :: "request_codec \<Rightarrow> json_fields \<Rightarrow> rpc_request option" where
  "permission_set_fields c fs =
     (if \<not> only_fields [''session_id'', ''sandbox_policy'', ''approval_policy''] fs then None
      else do {
        i \<leftarrow> defaulted ''session_id'' (nullable json_session_id) None fs;
        sandbox \<leftarrow> defaulted ''sandbox_policy'' (nullable (rc_sandbox_policy c)) None fs;
        approval \<leftarrow> defaulted ''approval_policy'' (nullable (rc_approval_policy c)) None fs;
        (if sandbox = None \<and> approval = None then None else Some (Permission_set i sandbox approval))
      })"

text \<open>The payloads with a single field or two.\<close>

definition one_field :: "string \<Rightarrow> (json \<Rightarrow> 'a option) \<Rightarrow> ('a \<Rightarrow> rpc_request) \<Rightarrow> json_fields \<Rightarrow> rpc_request option" where
  "one_field name decode build fs =
     (if only_fields [name] fs then map_option build (required name decode fs) else None)"

definition two_fields ::
    "string \<Rightarrow> (json \<Rightarrow> 'a option) \<Rightarrow> string \<Rightarrow> (json \<Rightarrow> 'b option) \<Rightarrow> ('a \<Rightarrow> 'b \<Rightarrow> rpc_request)
     \<Rightarrow> json_fields \<Rightarrow> rpc_request option" where
  "two_fields name decode name' decode' build fs =
     (if only_fields [name, name'] fs
      then do { x \<leftarrow> required name decode fs; y \<leftarrow> required name' decode' fs; Some (build x y) } else None)"

definition auth_set_fields :: "json_fields \<Rightarrow> rpc_request option" where
  "auth_set_fields fs =
     (if \<not> only_fields [''provider'', ''secret'', ''storage''] fs then None
      else do {
        provider \<leftarrow> required ''provider'' (json_choice provider_names) fs;
        secret \<leftarrow> required ''secret'' json_text fs;
        _ \<leftarrow> defaulted ''storage'' (json_choice [(''file'', ())]) () fs;
        Some (Auth_set provider secret)
      })"

definition run_enqueue_fields :: "json_fields \<Rightarrow> rpc_request option" where
  "run_enqueue_fields fs =
     (if \<not> only_fields [''session_id'', ''prompt'', ''mode''] fs then None
      else do {
        i \<leftarrow> required ''session_id'' json_session_id fs;
        prompt \<leftarrow> required ''prompt'' json_text fs;
        mode \<leftarrow> defaulted ''mode'' (json_choice queue_modes) Later fs;
        Some (Run_enqueue i prompt mode)
      })"

definition run_interrupt_fields :: "request_codec \<Rightarrow> json_fields \<Rightarrow> rpc_request option" where
  "run_interrupt_fields c fs =
     (if \<not> only_fields [''session_id'', ''promote_queued_steer''] fs then None
      else do {
        i \<leftarrow> required ''session_id'' json_session_id fs;
        promote \<leftarrow> defaulted ''promote_queued_steer'' (rc_bool c) False fs;
        Some (Run_interrupt i promote)
      })"

definition onboarding_submit_fields :: "request_codec \<Rightarrow> json_fields \<Rightarrow> rpc_request option" where
  "onboarding_submit_fields c fs =
     (if \<not> only_fields [''session_id'', ''attempt_id'', ''selected_index''] fs then None
      else do {
        i \<leftarrow> required ''session_id'' json_session_id fs;
        attempt \<leftarrow> required ''attempt_id'' json_text fs;
        n \<leftarrow> required ''selected_index'' (rc_int c) fs;
        Some (Onboarding_submit i attempt n)
      })"

definition optional_session :: "(string option \<Rightarrow> rpc_request) \<Rightarrow> json_fields \<Rightarrow> rpc_request option" where
  "optional_session build fs =
     (if only_fields [''session_id''] fs
      then map_option build (defaulted ''session_id'' (nullable json_session_id) None fs) else None)"

definition payload_of_command :: "request_codec \<Rightarrow> (string \<times> (json_fields \<Rightarrow> rpc_request option)) list" where
  "payload_of_command c =
     [(''session.create'', no_fields Session_create),
      (''session.compact'', one_field ''session_id'' json_session_id Session_compact),
      (''session.name'', two_fields ''session_id'' json_session_id ''name'' json_text Session_name),
      (''session.preview'', one_field ''session_id'' json_session_id Session_preview),
      (''session.mode_set'', two_fields ''session_id'' json_session_id ''mode'' (json_choice run_modes) Session_mode_set),
      (''model.catalog'', no_fields Model_catalog),
      (''auth.status'', no_fields Auth_status),
      (''trace.logfire_status'', no_fields Trace_logfire_status),
      (''auth.prepare_file'', one_field ''provider'' (json_choice provider_names) Auth_prepare_file),
      (''auth.set'', auth_set_fields),
      (''auth.clear'', one_field ''provider'' (json_choice provider_names) Auth_clear),
      (''auth.login_openai_codex.start'', no_fields Login_openai_codex_start),
      (''auth.login_openai_codex.complete'',
        two_fields ''flow_id'' json_text ''callback_or_code'' json_text Login_openai_codex_complete),
      (''auth.login_openai_codex.wait'', one_field ''flow_id'' json_text Login_openai_codex_wait),
      (''run.start'', run_start_fields c),
      (''run.enqueue'', run_enqueue_fields),
      (''run.interrupt'', run_interrupt_fields c),
      (''onboarding.start'', optional_session Onboarding_start),
      (''onboarding.submit'', onboarding_submit_fields c),
      (''permission.get'', optional_session Permission_get),
      (''permission.set'', permission_set_fields c),
      (''approval.submit'',
        two_fields ''session_id'' json_session_id ''decision'' (rc_approval_decision c) Approval_submit),
      (''workspace.project_docs'', no_fields Workspace_project_docs),
      (''workspace.trust_status'', no_fields Workspace_trust_status),
      (''workspace.trust_accept'', no_fields Workspace_trust_accept)]"

definition validate_payload :: "request_codec \<Rightarrow> ustr \<Rightarrow> json_fields \<Rightarrow> rpc_request option" where
  "validate_payload c command fs =
     Option.bind (find (\<lambda>(name, _). lit name = command) (payload_of_command c)) (\<lambda>(_, parse). parse fs)"

definition validate_request :: "request_codec \<Rightarrow> json \<Rightarrow> rpc_envelope option" where
  "validate_request c j =
     do {
       fs \<leftarrow> object_fields j;
       (if only_fields [''id'', ''command'', ''payload''] fs then Some () else None);
       i \<leftarrow> required ''id'' json_text fs;
       command \<leftarrow> required ''command'' json_text fs;
       payload \<leftarrow> required ''payload'' object_fields fs;
       request \<leftarrow> validate_payload c command payload;
       Some \<lparr>re_id = i, re_request = request\<rparr>
     }"

section \<open>What the server writes\<close>

datatype 'e rpc_event =
    Streamed_event 'e
  | Queue_state_event queue_view
  | Batch_submitted_event queue_mode "ustr list"

datatype rpc_error_type =
    Invalid_json | Invalid_request | Unknown_session | Invalid_session | Provider_not_ready | Internal_error
  | Workspace_untrusted

datatype rpc_response =
    Run_start_response string
  | Run_enqueue_response string nat
  | Run_interrupt_response string nat
  | Permission_get_response "string option" permission_state
  | Permission_set_response "string option" permission_state
  | Approval_submit_response string approval_decision
  | Session_name_response string string
  | Session_mode_set_response string run_mode
  | Session_compact_response string string
  | Other_response json

datatype 'e rpc_line =
    Rpc_response ustr rpc_response
  | Rpc_event ustr "'e rpc_event"
  | Rpc_error "ustr option" rpc_error_type ustr

definition unknown_session :: "ustr \<Rightarrow> string \<Rightarrow> 'e rpc_line" where
  "unknown_session rid i = Rpc_error (Some rid) Unknown_session (lit ''Unknown session_id: '' @ lit i)"

fun is_final :: "'e rpc_line \<Rightarrow> bool" where
  "is_final (Rpc_event _ _) = False"
| "is_final _ = True"

fun line_id :: "'e rpc_line \<Rightarrow> ustr option" where
  "line_id (Rpc_response i _) = Some i"
| "line_id (Rpc_event i _) = Some i"
| "line_id (Rpc_error i _ _) = i"

section \<open>What a client sends\<close>

definition valid_session_id :: "string \<Rightarrow> bool" where
  "valid_session_id i \<longleftrightarrow> length i = 32 \<and> list_all session_id_code (lit i)"

fun command_of :: "rpc_request \<Rightarrow> string" where
  "command_of Session_create = ''session.create''"
| "command_of (Session_compact _) = ''session.compact''"
| "command_of (Session_name _ _) = ''session.name''"
| "command_of (Session_preview _) = ''session.preview''"
| "command_of (Session_mode_set _ _) = ''session.mode_set''"
| "command_of Model_catalog = ''model.catalog''"
| "command_of Auth_status = ''auth.status''"
| "command_of Trace_logfire_status = ''trace.logfire_status''"
| "command_of (Auth_prepare_file _) = ''auth.prepare_file''"
| "command_of (Auth_set _ _) = ''auth.set''"
| "command_of (Auth_clear _) = ''auth.clear''"
| "command_of Login_openai_codex_start = ''auth.login_openai_codex.start''"
| "command_of (Login_openai_codex_complete _ _) = ''auth.login_openai_codex.complete''"
| "command_of (Login_openai_codex_wait _) = ''auth.login_openai_codex.wait''"
| "command_of (Run_start _) = ''run.start''"
| "command_of (Run_enqueue _ _ _) = ''run.enqueue''"
| "command_of (Run_interrupt _ _) = ''run.interrupt''"
| "command_of (Onboarding_start _) = ''onboarding.start''"
| "command_of (Onboarding_submit _ _ _) = ''onboarding.submit''"
| "command_of (Permission_get _) = ''permission.get''"
| "command_of (Permission_set _ _ _) = ''permission.set''"
| "command_of (Approval_submit _ _) = ''approval.submit''"
| "command_of Workspace_project_docs = ''workspace.project_docs''"
| "command_of Workspace_trust_status = ''workspace.trust_status''"
| "command_of Workspace_trust_accept = ''workspace.trust_accept''"


text \<open>The JSON of a request, every field written out, over an encoding of policies and decisions.\<close>

record request_encoding =
  rn_sandbox_policy :: "sandbox_policy \<Rightarrow> json"
  rn_approval_policy :: "approval_policy \<Rightarrow> json"
  rn_approval_decision :: "approval_decision \<Rightarrow> json"

definition text_json :: "string \<Rightarrow> json" where
  "text_json s = JStr (lit s)"

definition optional_json :: "('a \<Rightarrow> json) \<Rightarrow> 'a option \<Rightarrow> json" where
  "optional_json f x = (case x of None \<Rightarrow> JNull | Some y \<Rightarrow> f y)"

definition choice_json :: "(string \<times> 'a) list \<Rightarrow> 'a \<Rightarrow> json" where
  "choice_json table x = (case find (\<lambda>(_, y). y = x) table of None \<Rightarrow> JNull | Some (name, _) \<Rightarrow> text_json name)"

fun thinking_json :: "thinking_setting \<Rightarrow> json" where
  "thinking_json (Thinking_bool b) = JBool b"
| "thinking_json level = choice_json thinking_levels level"

fun payload_json :: "request_encoding \<Rightarrow> rpc_request \<Rightarrow> (string \<times> json) list" where
  "payload_json e (Session_compact i) = [(''session_id'', text_json i)]"
| "payload_json e (Session_name i name) = [(''session_id'', text_json i), (''name'', JStr name)]"
| "payload_json e (Session_preview i) = [(''session_id'', text_json i)]"
| "payload_json e (Session_mode_set i mode) = [(''session_id'', text_json i), (''mode'', choice_json run_modes mode)]"
| "payload_json e (Auth_prepare_file p) = [(''provider'', choice_json provider_names p)]"
| "payload_json e (Auth_set p secret) =
     [(''provider'', choice_json provider_names p), (''secret'', JStr secret), (''storage'', text_json ''file'')]"
| "payload_json e (Auth_clear p) = [(''provider'', choice_json provider_names p)]"
| "payload_json e (Login_openai_codex_complete flow code) = [(''flow_id'', JStr flow), (''callback_or_code'', JStr code)]"
| "payload_json e (Login_openai_codex_wait flow) = [(''flow_id'', JStr flow)]"
| "payload_json e (Run_start r) =
     [(''session_id'', text_json (rsp_session_id r)), (''prompt'', JStr (rsp_prompt r)),
      (''mode'', optional_json (choice_json run_modes) (rsp_mode r)),
      (''thinking'', optional_json thinking_json (rsp_thinking r)),
      (''enable_code_mode'', JBool (rsp_enable_code_mode r)),
      (''code_mode_tools_only'', JBool (rsp_code_mode_tools_only r))]"
| "payload_json e (Run_enqueue i prompt mode) =
     [(''session_id'', text_json i), (''prompt'', JStr prompt), (''mode'', choice_json queue_modes mode)]"
| "payload_json e (Run_interrupt i promote) = [(''session_id'', text_json i), (''promote_queued_steer'', JBool promote)]"
| "payload_json e (Onboarding_start i) = [(''session_id'', optional_json text_json i)]"
| "payload_json e (Onboarding_submit i attempt n) =
     [(''session_id'', text_json i), (''attempt_id'', JStr attempt), (''selected_index'', JInt n)]"
| "payload_json e (Permission_get i) = [(''session_id'', optional_json text_json i)]"
| "payload_json e (Permission_set i sandbox approval) =
     [(''session_id'', optional_json text_json i),
      (''sandbox_policy'', optional_json (rn_sandbox_policy e) sandbox),
      (''approval_policy'', optional_json (rn_approval_policy e) approval)]"
| "payload_json e (Approval_submit i d) = [(''session_id'', text_json i), (''decision'', rn_approval_decision e d)]"
| "payload_json e _ = []"

definition request_json :: "request_encoding \<Rightarrow> rpc_envelope \<Rightarrow> json" where
  "request_json e r =
     JObj [(lit ''id'', JStr (re_id r)), (lit ''command'', text_json (command_of (re_request r))),
           (lit ''payload'', JObj (map (map_prod lit id) (payload_json e (re_request r))))]"

text \<open>Requests as the contract has them: ids of sessions, and a policy to set.\<close>

fun request_fits :: "rpc_request \<Rightarrow> bool" where
  "request_fits (Session_compact i) = valid_session_id i"
| "request_fits (Session_name i _) = valid_session_id i"
| "request_fits (Session_preview i) = valid_session_id i"
| "request_fits (Session_mode_set i _) = valid_session_id i"
| "request_fits (Run_start r) = valid_session_id (rsp_session_id r)"
| "request_fits (Run_enqueue i _ _) = valid_session_id i"
| "request_fits (Run_interrupt i _) = valid_session_id i"
| "request_fits (Onboarding_start i) = pred_option valid_session_id i"
| "request_fits (Onboarding_submit i _ _) = valid_session_id i"
| "request_fits (Permission_get i) = pred_option valid_session_id i"
| "request_fits (Permission_set i sandbox approval) =
     (pred_option valid_session_id i \<and> (sandbox \<noteq> None \<or> approval \<noteq> None))"
| "request_fits (Approval_submit i _) = valid_session_id i"
| "request_fits _ = True"

text \<open>The encoding and the codec agree on the values of a request.\<close>

fun values_agree :: "request_codec \<Rightarrow> request_encoding \<Rightarrow> rpc_request \<Rightarrow> bool" where
  "values_agree c e (Permission_set _ sandbox approval) \<longleftrightarrow>
     pred_option (\<lambda>p. rn_sandbox_policy e p \<noteq> JNull \<and> rc_sandbox_policy c (rn_sandbox_policy e p) = Some p) sandbox
     \<and> pred_option (\<lambda>p. rn_approval_policy e p \<noteq> JNull \<and> rc_approval_policy c (rn_approval_policy e p) = Some p) approval"
| "values_agree c e (Approval_submit _ d) \<longleftrightarrow> rc_approval_decision c (rn_approval_decision e d) = Some d"
| "values_agree c e _ \<longleftrightarrow> True"

definition keeps_scalars :: "request_codec \<Rightarrow> bool" where
  "keeps_scalars c \<longleftrightarrow> (\<forall>b. rc_bool c (JBool b) = Some b) \<and> (\<forall>n. rc_int c (JInt n) = Some n)"

lemma lit_eq [simp]: "lit a = lit b \<longleftrightarrow> a = b"
  unfolding lit_def by (rule inj_map_eq_map [OF inj_of_char])

lemma char_of_lit [simp]: "map char_of (lit s) = s"
  by (simp add: lit_def comp_def)

lemma session_id_text [simp]: "valid_session_id i \<Longrightarrow> json_session_id (text_json i) = Some i"
  by (simp add: json_session_id_def text_json_def valid_session_id_def)

lemma choices_return [simp]:
  "json_choice run_modes (choice_json run_modes m) = Some m"
  "json_choice provider_names (choice_json provider_names p) = Some p"
  "json_choice queue_modes (choice_json queue_modes q) = Some q"
  by (cases m; cases p; cases q;
      simp add: json_choice_def choice_json_def text_json_def run_modes_def provider_names_def queue_modes_def)+

text \<open>Looking up the fields of an object that was written out.\<close>

lemma nullable_returns:
  "pred_option (\<lambda>x. f x \<noteq> JNull \<and> decode (f x) = Some x) x \<Longrightarrow> nullable decode (optional_json f x) = Some x"
  by (cases x) (simp_all add: nullable_def optional_json_def)

lemma nullable_session [simp]:
  "pred_option valid_session_id i \<Longrightarrow> nullable json_session_id (optional_json text_json i) = Some i"
  by (rule nullable_returns) (cases i; simp add: text_json_def json_session_id_def valid_session_id_def)

lemma nullable_mode [simp]: "nullable (json_choice run_modes) (optional_json (choice_json run_modes) m) = Some m"
proof (rule nullable_returns)
  have "choice_json run_modes x \<noteq> JNull" for x by (cases x) (simp_all add: choice_json_def run_modes_def text_json_def)
  then show "pred_option (\<lambda>x. choice_json run_modes x \<noteq> JNull \<and> json_choice run_modes (choice_json run_modes x) = Some x) m"
    by (cases m) simp_all
qed

lemma nullable_thinking:
  assumes "keeps_scalars c"
  shows "nullable (json_thinking c) (optional_json thinking_json t) = Some t"
proof (rule nullable_returns)
  have "thinking_json x \<noteq> JNull \<and> json_thinking c (thinking_json x) = Some x" for x
    using assms by (cases x) (simp_all add: keeps_scalars_def json_thinking_def json_choice_def choice_json_def
        thinking_levels_def text_json_def)
  then show "pred_option (\<lambda>x. thinking_json x \<noteq> JNull \<and> json_thinking c (thinking_json x) = Some x) t"
    by (cases t) simp_all
qed

lemmas payload_parsers = no_fields_def one_field_def two_fields_def run_start_fields_def permission_set_fields_def
  auth_set_fields_def run_enqueue_fields_def run_interrupt_fields_def onboarding_submit_fields_def
  optional_session_def

lemma payload_returns:
  assumes "request_fits r" and "keeps_scalars c" and "values_agree c e r"
  shows "validate_payload c (lit (command_of r)) (map (map_prod lit id) (payload_json e r)) = Some r"
proof -
  have scalars: "rc_bool c (JBool b) = Some b" "rc_int c (JInt n) = Some n" for b n
    using assms(2) by (simp_all add: keeps_scalars_def)
  note lookups = validate_payload_def payload_of_command_def payload_parsers only_fields_def
    required_def defaulted_def scalars nullable_thinking [OF assms(2)]
  show ?thesis
  proof (cases r)
    case (Permission_set i sandbox approval)
    with assms show ?thesis by (auto simp: lookups nullable_returns)
  next
    case (Auth_set p secret)
    then show ?thesis by (simp add: lookups json_choice_def [of "[(''file'', ())]"] text_json_def)
  qed (use assms in \<open>simp_all add: lookups\<close>)
qed

text \<open>
  Every request of the contract can be sent: written out with all its fields, it validates to itself.
\<close>

theorem requests_round_trip:
  assumes "request_fits (re_request r)" and "keeps_scalars c" and "values_agree c e (re_request r)"
  shows "validate_request c (request_json e r) = Some r"
  using payload_returns [OF assms]
  by (simp add: validate_request_def request_json_def only_fields_def required_def text_json_def)

text \<open>What validates names a session by an id of 32 hexadecimal digits, and sets some policy if it sets any.\<close>

lemma session_id_fits: "json_session_id j = Some i \<Longrightarrow> valid_session_id i"
proof -
  have "lit (map char_of s) = s" if "list_all session_id_code s" for s
    using that by (induction s) (auto simp: lit_def session_id_code_def of_char_of)
  then show "json_session_id j = Some i \<Longrightarrow> valid_session_id i"
    by (cases j) (auto simp: json_session_id_def valid_session_id_def split: if_splits)
qed

lemma nullable_session_fits: "nullable json_session_id j = Some i \<Longrightarrow> pred_option valid_session_id i"
  by (auto simp: nullable_def session_id_fits split: if_splits)

lemma defaulted_session_fits:
  "defaulted name (nullable json_session_id) None fs = Some i \<Longrightarrow> pred_option valid_session_id i"
  by (auto simp: defaulted_def intro: nullable_session_fits split: option.splits)

lemma required_session_fits: "required name json_session_id fs = Some i \<Longrightarrow> valid_session_id i"
  by (auto simp: required_def bind_eq_Some_conv intro: session_id_fits)

lemma validated_payload_fits:
  assumes "validate_payload c command fs = Some r"
  shows "request_fits r \<and> command = lit (command_of r)"
proof -
  from assms obtain name parse where entry: "(name, parse) \<in> set (payload_of_command c)" "lit name = command"
    and parsed: "parse fs = Some r"
    by (auto simp: validate_payload_def bind_eq_Some_conv find_Some_iff dest: nth_mem)
  note fits = defaulted_session_fits required_session_fits
  have "request_fits r \<and> name = command_of r"
    using entry(1) parsed unfolding payload_of_command_def
    by (auto simp: payload_parsers bind_eq_Some_conv fits split: if_splits)
  with entry(2) show ?thesis by simp
qed

text \<open>
  C31: Every request that the server accepts fits the contract: its session ids have the form the contract asks for, and
  it is the request that the line named by its command, under the id the line gave.
\<close>

theorem validated_requests_fit:
  assumes "validate_request c j = Some r"
  shows "request_fits (re_request r)
    \<and> (\<exists>fs. j = JObj fs \<and> map_of fs (lit ''id'') = Some (JStr (re_id r))
         \<and> map_of fs (lit ''command'') = Some (text_json (command_of (re_request r))))"
proof -
  have str: "json_text x = Some t \<longleftrightarrow> x = JStr t" for x t by (cases x) auto
  have obj: "object_fields x = Some fs \<longleftrightarrow> x = JObj fs" for x fs by (cases x) auto
  from assms show ?thesis
    by (auto simp: validate_request_def bind_eq_Some_conv required_def str obj text_json_def
        dest: validated_payload_fits split: if_splits)
qed

section \<open>Requests of a client\<close>

definition sample_session_id :: string where
  "sample_session_id = ''0123456789abcdef0123456789abcdef''"

definition sample_codec :: request_codec where
  "sample_codec =
     \<lparr>rc_bool = (\<lambda>j. case j of JBool b \<Rightarrow> Some b | _ \<Rightarrow> None), rc_int = (\<lambda>j. case j of JInt n \<Rightarrow> Some n | _ \<Rightarrow> None),
      rc_sandbox_policy = (\<lambda>j. if j = JInt 1 then Some (Read_only_policy Restricted) else None),
      rc_approval_policy = (\<lambda>_. None), rc_approval_decision = (\<lambda>_. None)\<rparr>"

definition sample_encoding :: request_encoding where
  "sample_encoding =
     \<lparr>rn_sandbox_policy = (\<lambda>_. JInt 1), rn_approval_policy = (\<lambda>_. JNull), rn_approval_decision = (\<lambda>_. JNull)\<rparr>"

definition sample_set :: rpc_envelope where
  "sample_set =
     \<lparr>re_id = lit ''7'', re_request = Permission_set (Some sample_session_id) (Some (Read_only_policy Restricted)) None\<rparr>"

lemma sample_session_id_valid: "valid_session_id sample_session_id"
  by (simp add: sample_session_id_def valid_session_id_def session_id_code_def lit_def)

theorem requests_round_trip_witness:
  "validate_request sample_codec (request_json sample_encoding sample_set) = Some sample_set"
  by (rule requests_round_trip)
    (simp_all add: sample_set_def sample_codec_def sample_encoding_def keeps_scalars_def sample_session_id_valid)

theorem validated_requests_fit_witness:
  "request_fits (re_request sample_set)
    \<and> (\<exists>fs. request_json sample_encoding sample_set = JObj fs \<and> map_of fs (lit ''id'') = Some (JStr (re_id sample_set))
         \<and> map_of fs (lit ''command'') = Some (text_json (command_of (re_request sample_set))))"
proof (rule validated_requests_fit)
  show "validate_request sample_codec (request_json sample_encoding sample_set) = Some sample_set"
    using payload_returns [of "re_request sample_set" sample_codec sample_encoding]
    by (simp add: sample_set_def sample_codec_def sample_encoding_def keeps_scalars_def sample_session_id_valid
        validate_request_def request_json_def only_fields_def required_def text_json_def)
qed

end
