(* ===== verification/Rpc_Run.thy ===== *)
theory Rpc_Run
  imports Rpc_Contract Prompt_Layers
begin

text \<open>
  Runs of the RPC server, after \<open>rpc/stdio.py\<close>: \<open>run.start\<close> with the follow-up runs it drains from the queue of
  its session, and \<open>run.enqueue\<close> and \<open>run.interrupt\<close>, which use that queue. The stream of a run is a parameter: what
  happens while the server consumes it, an event of the run or a use of the queue by a client or by the run itself,
  and how it ends. The lines written for a request are a list, in the order in which they reach the output.
\<close>

section \<open>Tools of a run\<close>

definition code_mode_tool_names :: "string list" where
  "code_mode_tool_names = [''exec'', ''wait'']"

definition resolve_tool_names_for_run_mode :: "run_mode \<Rightarrow> string list" where
  "resolve_tool_names_for_run_mode mode =
     (case mode of
        Mode_coding \<Rightarrow> take (length canonical_tool_names) known_tool_names
      | Mode_onboarding \<Rightarrow> canonical_tool_names @ jaca_onboarding_mcp_tool_names)"

definition run_tool_names :: "run_start_payload \<Rightarrow> run_mode \<Rightarrow> string list" where
  "run_tool_names r mode =
     (let names = (if rsp_code_mode_tools_only r then code_mode_tool_names else resolve_tool_names_for_run_mode mode)
      in if rsp_enable_code_mode r \<and> \<not> rsp_code_mode_tools_only r then names @ code_mode_tool_names else names)"

section \<open>What a run does\<close>

datatype 'e happening = Streamed 'e | Queue_used queue_action

datatype pass_end = Pass_finished | Pass_cancelled | Pass_bad_session ustr | Pass_not_ready ustr | Pass_failed ustr

record 'e run_pass =
  pa_happenings :: "'e happening list"
  pa_end :: pass_end

record started_run =
  sr_prompt :: ustr
  sr_tools :: "string list"
  sr_mode :: run_mode

text \<open>The server, as one \<open>run.start\<close> sees it; \<open>rv_turns\<close> is the history of the queue.\<close>

record 'e run_server =
  rv_queue :: follow_up_state
  rv_turns :: "queue_turn list"
  rv_lines :: "'e rpc_line list"
  rv_runs :: "started_run list"

text \<open>
  A \<open>run.start\<close> registers its task and its emitters under one number; an effect that goes to that number is written
  under the id of the request.
\<close>

fun effect_lines :: "ustr \<Rightarrow> nat \<Rightarrow> queue_effect \<Rightarrow> 'e rpc_line list" where
  "effect_lines rid me (Queue_state_sent m v) = (if m = me then [Rpc_event rid (Queue_state_event v)] else [])"
| "effect_lines rid me (Prompts_submitted m mode prompts) =
     (if m = me \<and> prompts \<noteq> [] then [Rpc_event rid (Batch_submitted_event mode prompts)] else [])"
| "effect_lines rid me _ = []"

definition say :: "'e rpc_line \<Rightarrow> 'e run_server \<Rightarrow> 'e run_server" where
  "say l s = s\<lparr>rv_lines := rv_lines s @ [l]\<rparr>"

definition use_queue ::
    "ustr \<Rightarrow> nat \<Rightarrow> queue_action \<Rightarrow> 'e run_server \<Rightarrow> 'e run_server \<times> (queue_error, queue_reply) result" where
  "use_queue rid me a s =
     (let (reply, effects, q) = queue_apply a (rv_queue s) in
      (s\<lparr>rv_queue := q, rv_turns := rv_turns s @ [(a, reply, effects)],
         rv_lines := rv_lines s @ concat (map (effect_lines rid me) effects)\<rparr>, reply))"

fun happen :: "ustr \<Rightarrow> nat \<Rightarrow> 'e happening \<Rightarrow> 'e run_server \<Rightarrow> 'e run_server" where
  "happen rid me (Streamed e) s = say (Rpc_event rid (Streamed_event e)) s"
| "happen rid me (Queue_used a) s = fst (use_queue rid me a s)"

definition combine_prompt_batch :: "ustr list \<Rightarrow> ustr" where
  "combine_prompt_batch prompts = join [10, 10] prompts"

definition emit_submitted_prompt_batch :: "ustr \<Rightarrow> queue_mode \<Rightarrow> ustr list \<Rightarrow> 'e run_server \<Rightarrow> 'e run_server" where
  "emit_submitted_prompt_batch rid mode prompts s =
     (if prompts = [] then s else say (Rpc_event rid (Batch_submitted_event mode prompts)) s)"

fun error_of_end :: "pass_end \<Rightarrow> (rpc_error_type \<times> ustr) option" where
  "error_of_end Pass_finished = None"
| "error_of_end Pass_cancelled = None"
| "error_of_end (Pass_bad_session message) = Some (Invalid_session, message)"
| "error_of_end (Pass_not_ready message) = Some (Provider_not_ready, message)"
| "error_of_end (Pass_failed message) = Some (Internal_error, message)"

text \<open>
  One run, and the runs of what was queued meanwhile. An error is written before the session is deactivated, the
  answer after it. The passes are what the streams of the runs do, one after the other; the flag tells whether the
  request was answered, and is false as long as the last run goes on.
\<close>

definition one_pass :: "ustr \<Rightarrow> nat \<Rightarrow> started_run \<Rightarrow> 'e run_pass \<Rightarrow> 'e run_server \<Rightarrow> 'e run_server" where
  "one_pass rid me run p s = fold (happen rid me) (pa_happenings p) (s\<lparr>rv_runs := rv_runs s @ [run]\<rparr>)"

fun drain_runs ::
    "ustr \<Rightarrow> nat \<Rightarrow> string \<Rightarrow> started_run \<Rightarrow> 'e run_pass list \<Rightarrow> 'e run_server \<Rightarrow> 'e run_server \<times> bool" where
  "drain_runs rid me i run [] s = (s, False)"
| "drain_runs rid me i run (p # ps) s =
     (let s = one_pass rid me run p s in
      case error_of_end (pa_end p) of
        Some (kind, message) \<Rightarrow> (fst (use_queue rid me (Deactivate i) (say (Rpc_error (Some rid) kind message) s)), True)
      | None \<Rightarrow>
          (let s = fst (use_queue rid me (Downgrade_pending_steers i) s);
               (s, reply) = use_queue rid me (Take_next_follow_up_batch i) s in
           case reply of
             Inr (Reply_batch (Some prompts)) \<Rightarrow>
               drain_runs rid me i (run\<lparr>sr_prompt := combine_prompt_batch prompts\<rparr>) ps
                 (emit_submitted_prompt_batch rid Later prompts s)
           | _ \<Rightarrow> (say (Rpc_response rid (Run_start_response i)) (fst (use_queue rid me (Deactivate i) s)), True)))"

definition handle_run_start ::
    "(append_error \<Rightarrow> ustr) \<Rightarrow> ustr \<Rightarrow> nat \<Rightarrow> run_start_payload \<Rightarrow> 'e run_pass list \<Rightarrow> session_files option
     \<Rightarrow> 'e run_server \<Rightarrow> session_files option \<times> 'e run_server \<times> bool" where
  "handle_run_start describe rid me r passes session s =
     (let i = rsp_session_id r; bad = (\<lambda>e. say (Rpc_error (Some rid) Invalid_session (describe e)) s) in
      case session of
        None \<Rightarrow> (None, say (unknown_session rid i) s, True)
      | Some f \<Rightarrow>
          (case sfl_metadata f of
             None \<Rightarrow> (Some f, bad Metadata_missing, True)
           | Some md \<Rightarrow>
               (let mode = (case rsp_mode r of None \<Rightarrow> md_current_mode md | Some m \<Rightarrow> m);
                    (f, updated) = (if md_current_mode md = mode then (f, Inr md) else update_session_mode mode f) in
                case updated of
                  Inl e \<Rightarrow> (Some f, bad e, True)
                | Inr _ \<Rightarrow>
                    (let run = \<lparr>sr_prompt = rsp_prompt r, sr_tools = run_tool_names r mode, sr_mode = mode\<rparr>;
                         s = fst (use_queue rid me (Activate i me me (Some me)) s);
                         (s, answered) = drain_runs rid me i run passes s
                     in (Some f, s, answered)))))"

section \<open>The clients of the queue\<close>

fun queue_error_text :: "queue_error \<Rightarrow> string" where
  "queue_error_text Queueing_needs_run = ''Queueing requires an active run for this session.''"
| "queue_error_text Steer_boundary_active = ''Steer boundary already active for session''"
| "queue_error_text Steer_boundary_not_active = ''Steer boundary is not active for session''"
| "queue_error_text Interrupt_needs_run = ''Interrupt requires an active run for this session.''"

definition handle_run_enqueue ::
    "ustr \<Rightarrow> string \<Rightarrow> ustr \<Rightarrow> queue_mode \<Rightarrow> follow_up_state \<Rightarrow> 'e rpc_line \<times> queue_effect list \<times> follow_up_state" where
  "handle_run_enqueue rid i prompt mode q =
     (if strip prompt = []
      then (Rpc_error (Some rid) Invalid_request (lit ''Follow-up prompt must not be blank''), [], q)
      else (case enqueue i prompt mode q of
              (Inr (Reply_count n), effects, q) \<Rightarrow> (Rpc_response rid (Run_enqueue_response i n), effects, q)
            | (Inl e, effects, q) \<Rightarrow> (Rpc_error (Some rid) Invalid_request (lit (queue_error_text e)), effects, q)
            | (Inr _, effects, q) \<Rightarrow> (Rpc_response rid (Run_enqueue_response i 0), effects, q)))"

definition handle_run_interrupt ::
    "ustr \<Rightarrow> string \<Rightarrow> bool \<Rightarrow> follow_up_state \<Rightarrow> 'e rpc_line \<times> queue_effect list \<times> follow_up_state" where
  "handle_run_interrupt rid i promote q =
     (case interrupt i promote q of
        (Inr (Reply_count n), effects, q) \<Rightarrow> (Rpc_response rid (Run_interrupt_response i n), effects, q)
      | (Inl e, effects, q) \<Rightarrow> (Rpc_error (Some rid) Invalid_request (lit (queue_error_text e)), effects, q)
      | (Inr _, effects, q) \<Rightarrow> (Rpc_response rid (Run_interrupt_response i 0), effects, q))"

section \<open>Lines of a request\<close>

text \<open>Lines that only tell of events of a request.\<close>

definition only_events :: "ustr \<Rightarrow> 'e rpc_line list \<Rightarrow> bool" where
  "only_events rid ls \<longleftrightarrow> list_all (\<lambda>l. \<exists>e. l = Rpc_event rid e) ls"

lemma only_events_simps [simp]:
  "only_events rid []" "only_events rid (l # ls) \<longleftrightarrow> (\<exists>e. l = Rpc_event rid e) \<and> only_events rid ls"
  "only_events rid (ls @ ms) \<longleftrightarrow> only_events rid ls \<and> only_events rid ms"
  by (simp_all add: only_events_def)

text \<open>A step that only adds events of the request to the lines.\<close>

definition adds_events :: "ustr \<Rightarrow> 'e run_server \<Rightarrow> 'e run_server \<Rightarrow> bool" where
  "adds_events rid s s' \<longleftrightarrow> (\<exists>ls. rv_lines s' = rv_lines s @ ls \<and> only_events rid ls)"

lemma adds_events_refl [simp]: "adds_events rid s s"
  by (simp add: adds_events_def)

lemma adds_events_trans: "adds_events rid s s' \<Longrightarrow> adds_events rid s' s'' \<Longrightarrow> adds_events rid s s''"
  by (auto simp: adds_events_def)

lemma effect_lines_events: "only_events rid (effect_lines rid me x)"
  by (cases x) simp_all

lemma effects_events: "only_events rid (concat (map (effect_lines rid me) xs))"
  by (induction xs) (simp_all add: effect_lines_events)

lemma use_queue_adds: "adds_events rid s (fst (use_queue rid me a s))"
  by (auto simp: adds_events_def use_queue_def Let_def split_beta effects_events)

lemma happen_adds: "adds_events rid s (happen rid me h s)"
  by (cases h) (simp_all add: use_queue_adds, simp add: adds_events_def say_def)

lemma happens_add: "adds_events rid s (fold (happen rid me) hs s)"
  by (induction hs arbitrary: s) (auto intro: adds_events_trans happen_adds)

lemma one_pass_adds: "adds_events rid s (one_pass rid me run p s)"
  using happens_add [where s = "s\<lparr>rv_runs := rv_runs s @ [run]\<rparr>" and hs = "pa_happenings p" and rid = rid and me = me]
  by (simp add: one_pass_def adds_events_def)

lemma emit_adds: "adds_events rid s (emit_submitted_prompt_batch rid mode prompts s)"
  by (simp add: emit_submitted_prompt_batch_def adds_events_def say_def)

text \<open>How the lines of a request look when it was answered: one answer, and after an error perhaps another event.\<close>

definition answered_with :: "ustr \<Rightarrow> 'e rpc_line list \<Rightarrow> bool" where
  "answered_with rid ls \<longleftrightarrow>
     (\<exists>evs. only_events rid evs
        \<and> ((\<exists>r. ls = evs @ [Rpc_response rid r])
           \<or> (\<exists>kind message rest. ls = evs @ Rpc_error (Some rid) kind message # rest \<and> only_events rid rest)))"

lemma answered_after_events: "only_events rid xs \<Longrightarrow> answered_with rid ls \<Longrightarrow> answered_with rid (xs @ ls)"
  unfolding answered_with_def
proof (elim exE conjE disjE)
  fix evs r
  assume "only_events rid xs" "only_events rid evs" "ls = evs @ [Rpc_response rid r]"
  then show "\<exists>evs. only_events rid evs \<and> ((\<exists>r. xs @ ls = evs @ [Rpc_response rid r])
      \<or> (\<exists>kind message rest. xs @ ls = evs @ Rpc_error (Some rid) kind message # rest \<and> only_events rid rest))"
    by (intro exI [of _ "xs @ evs"]) auto
next
  fix evs kind message rest
  assume "only_events rid xs" "only_events rid evs" "ls = evs @ Rpc_error (Some rid) kind message # rest"
    "only_events rid rest"
  then show "\<exists>evs. only_events rid evs \<and> ((\<exists>r. xs @ ls = evs @ [Rpc_response rid r])
      \<or> (\<exists>kind message rest. xs @ ls = evs @ Rpc_error (Some rid) kind message # rest \<and> only_events rid rest))"
    by (intro exI [of _ "xs @ evs"]) auto
qed

lemma drain_answers:
  "drain_runs rid me i run ps s = (s', answered) \<Longrightarrow>
     \<exists>ls. rv_lines s' = rv_lines s @ ls \<and> (if answered then answered_with rid ls else only_events rid ls)"
proof (induction rid me i run ps s rule: drain_runs.induct)
  case (1 rid me i run s)
  then show ?case by auto
next
  case (2 rid me i run p ps s)
  let ?s1 = "one_pass rid me run p s"
  obtain l1 where l1: "rv_lines ?s1 = rv_lines s @ l1" "only_events rid l1"
    using one_pass_adds unfolding adds_events_def by blast
  show ?case
  proof (cases "error_of_end (pa_end p)")
    case (Some e)
    obtain kind message where e: "e = (kind, message)" by (cases e)
    let ?s2 = "say (Rpc_error (Some rid) kind message) ?s1"
    obtain l2 where l2: "rv_lines (fst (use_queue rid me (Deactivate i) ?s2)) = rv_lines ?s2 @ l2" "only_events rid l2"
      using use_queue_adds unfolding adds_events_def by blast
    have "answered_with rid (l1 @ Rpc_error (Some rid) kind message # l2)"
      unfolding answered_with_def using l1(2) l2(2) by blast
    with 2(2) Some e l1 l2 show ?thesis by (auto simp: say_def)
  next
    case None
    let ?s2 = "fst (use_queue rid me (Downgrade_pending_steers i) ?s1)"
    obtain s3 reply where t: "use_queue rid me (Take_next_follow_up_batch i) ?s2 = (s3, reply)" by (rule prod.exhaust)
    have "adds_events rid s s3"
      using one_pass_adds use_queue_adds t adds_events_trans by (metis fst_conv)
    then obtain l3 where l3: "rv_lines s3 = rv_lines s @ l3" "only_events rid l3" unfolding adds_events_def by blast
    show ?thesis
    proof (cases "\<exists>prompts. reply = Inr (Reply_batch (Some prompts))")
      case True
      then obtain prompts where r: "reply = Inr (Reply_batch (Some prompts))" by blast
      let ?s4 = "emit_submitted_prompt_batch rid Later prompts s3"
      obtain l4 where l4: "rv_lines ?s4 = rv_lines s3 @ l4" "only_events rid l4"
        using emit_adds unfolding adds_events_def by blast
      from 2(2) None t r have "drain_runs rid me i (run\<lparr>sr_prompt := combine_prompt_batch prompts\<rparr>) ps ?s4 = (s', answered)"
        by simp
      from 2(1) [OF refl None refl refl t [symmetric] r refl refl this] l3 l4 show ?thesis
        by (auto intro!: answered_after_events)
    next
      case False
      with 2(2) None t have s': "s' = say (Rpc_response rid (Run_start_response i)) (fst (use_queue rid me (Deactivate i) s3))"
        and a: "answered" by (auto split: sum.splits queue_reply.splits option.splits)
      obtain l4 where l4: "rv_lines (fst (use_queue rid me (Deactivate i) s3)) = rv_lines s3 @ l4" "only_events rid l4"
        using use_queue_adds unfolding adds_events_def by blast
      have "answered_with rid ((l3 @ l4) @ [Rpc_response rid (Run_start_response i)])"
        unfolding answered_with_def using l3(2) l4(2) by (intro exI [of _ "l3 @ l4"]) simp
      with s' a l3 l4 show ?thesis by (simp add: say_def)
    qed
  qed
qed

text \<open>A request is refused at once, or its session is activated and the runs follow.\<close>

lemma start_cases:
  assumes "handle_run_start describe rid me r passes session s = (session', s', answered)"
  obtains (refused) kind message where "s' = say (Rpc_error (Some rid) kind message) s" and "answered"
  | (started) run where "sr_prompt run = rsp_prompt r"
      and "drain_runs rid me (rsp_session_id r) run passes
             (fst (use_queue rid me (Activate (rsp_session_id r) me me (Some me)) s)) = (s', answered)"
proof (cases session)
  case None
  with assms show thesis by (auto simp: handle_run_start_def unknown_session_def Let_def intro: refused)
next
  case (Some f)
  show thesis
  proof (cases "sfl_metadata f")
    case None
    with Some assms show thesis by (auto simp: handle_run_start_def Let_def intro: refused)
  next
    case (Some md)
    define mode where "mode = (case rsp_mode r of None \<Rightarrow> md_current_mode md | Some m \<Rightarrow> m)"
    obtain f' updated where u: "(if md_current_mode md = mode then (f, Inr md) else update_session_mode mode f) = (f', updated)"
      by (rule prod.exhaust)
    show thesis
    proof (cases updated)
      case (Inl e)
      with \<open>session = Some f\<close> Some assms u show thesis
        by (auto simp: handle_run_start_def Let_def simp flip: mode_def intro: refused)
    next
      case (Inr m)
      let ?run = "\<lparr>sr_prompt = rsp_prompt r, sr_tools = run_tool_names r mode, sr_mode = mode\<rparr>"
      from Inr \<open>session = Some f\<close> Some assms u
      have "drain_runs rid me (rsp_session_id r) ?run passes
             (fst (use_queue rid me (Activate (rsp_session_id r) me me (Some me)) s)) = (s', answered)"
        by (auto simp: handle_run_start_def Let_def simp flip: mode_def split: prod.splits)
      then show thesis by (intro started) simp_all
    qed
  qed
qed

text \<open>
  C23: A run.start is answered once: whatever its runs do and clients queue, all it writes carries its id, and it
  writes events only until it is answered; a response is the last line, and after an error only events follow.
\<close>

theorem run_start_answers_once:
  assumes "handle_run_start describe rid me r passes session s = (session', s', answered)"
  shows "\<exists>ls. rv_lines s' = rv_lines s @ ls \<and> (if answered then answered_with rid ls else only_events rid ls)"
  using assms
proof (cases rule: start_cases)
  case (refused kind message)
  moreover have "answered_with rid [Rpc_error (Some rid) kind message]"
    unfolding answered_with_def by (intro exI [of _ "[]"]) simp
  ultimately show ?thesis by (simp add: say_def)
next
  case (started run)
  obtain l1 where "rv_lines (fst (use_queue rid me (Activate (rsp_session_id r) me me (Some me)) s)) = rv_lines s @ l1"
    and "only_events rid l1"
    using use_queue_adds unfolding adds_events_def by blast
  with drain_answers [OF started(2)] show ?thesis by (auto intro!: answered_after_events)
qed

section \<open>A request that is answered\<close>

definition sample_run_start :: run_start_payload where
  "sample_run_start =
     \<lparr>rsp_session_id = ''s'', rsp_prompt = [104], rsp_mode = Some Mode_onboarding, rsp_thinking = None,
      rsp_enable_code_mode = True, rsp_code_mode_tools_only = False\<rparr>"

definition sample_server :: "nat run_server" where
  "sample_server = \<lparr>rv_queue = new_follow_up_state, rv_turns = [], rv_lines = [], rv_runs = []\<rparr>"

definition sample_run_files :: session_files where
  "sample_run_files = \<lparr>sfl_log = Some [], sfl_metadata = Some (new_metadata ''s'' 0)\<rparr>"

text \<open>A run during which two prompts are queued, and the run of one of them, which is cancelled.\<close>

definition sample_passes :: "nat run_pass list" where
  "sample_passes =
     [\<lparr>pa_happenings = [Streamed 1, Queue_used (Enqueue ''s'' [65] Later), Queue_used (Enqueue ''s'' [66] Later)],
       pa_end = Pass_finished\<rparr>,
      \<lparr>pa_happenings = [Streamed 2], pa_end = Pass_cancelled\<rparr>]"

lemmas sample_run_defs = sample_run_start_def sample_server_def sample_run_files_def sample_passes_def new_metadata_def
  update_session_mode_def update_session_metadata_def use_queue_def say_def one_pass_def
  emit_submitted_prompt_batch_def combine_prompt_batch_def queue_ops deactivate_def

lemma sample_run:
  obtains session' s' where "handle_run_start (\<lambda>_. []) [7] 1 sample_run_start sample_passes (Some sample_run_files) sample_server
      = (session', s', True)"
    and "rv_lines s' = [Rpc_event [7] (Streamed_event 1),
        Rpc_event [7] (Queue_state_event \<lparr>qv_next_prompts = [], qv_later_prompts = [[65]]\<rparr>),
        Rpc_event [7] (Queue_state_event \<lparr>qv_next_prompts = [], qv_later_prompts = [[65], [66]]\<rparr>),
        Rpc_event [7] (Queue_state_event empty_view), Rpc_event [7] (Batch_submitted_event Later [[65], [66]]),
        Rpc_event [7] (Streamed_event 2), Rpc_response [7] (Run_start_response ''s'')]"
    and "map sr_prompt (rv_runs s') = [[104], [65, 10, 10, 66]]"
  by (simp add: handle_run_start_def sample_run_defs empty_view_def Let_def)

theorem run_start_answers_once_witness:
  "\<exists>session' s' ls. handle_run_start (\<lambda>_. []) [7] 1 sample_run_start sample_passes (Some sample_run_files) sample_server
      = (session', s', True)
    \<and> rv_lines s' = rv_lines sample_server @ ls \<and> answered_with [7] ls"
proof -
  obtain session' s' where h: "handle_run_start (\<lambda>_. []) [7] 1 sample_run_start sample_passes (Some sample_run_files) sample_server
      = (session', s', True)"
    by (rule sample_run)
  from run_start_answers_once [OF h] show ?thesis using h by auto
qed

end
