(* ===== verification/Rpc_Drain.thy ===== *)
theory Rpc_Drain
  imports Rpc_Run
begin

text \<open>
  The queue of a session across a \<open>run.start\<close>: what is queued becomes runs before the request is answered, the
  request is answered when nothing more is queued, and an error keeps what is queued for the next request.
\<close>

section \<open>Nothing stays queued\<close>

definition traced :: "'e run_server \<Rightarrow> bool" where
  "traced s \<longleftrightarrow> queue_trace (rv_turns s) (rv_queue s)"

definition nothing_queued :: "follow_up_state \<Rightarrow> string \<Rightarrow> bool" where
  "nothing_queued q i \<longleftrightarrow> queued (fus_follow_up_queues q) i = [] \<and> queued (fus_steer_queues q) i = []"

text \<open>The batches a session took from its queue.\<close>

fun turn_taken :: "string \<Rightarrow> queue_turn \<Rightarrow> ustr list list" where
  "turn_taken i (Take_next_follow_up_batch j, Inr (Reply_batch (Some prompts)), _) = (if j = i then [prompts] else [])"
| "turn_taken i _ = []"

definition taken :: "string \<Rightarrow> queue_turn list \<Rightarrow> ustr list list" where
  "taken i tr = concat (map (turn_taken i) tr)"

lemma taken_simps [simp]:
  "taken i [] = []" "taken i (tr @ tr') = taken i tr @ taken i tr'" "taken i [turn] = turn_taken i turn"
  by (simp_all add: taken_def)

text \<open>A step that adds turns, with these batches among them, and starts no run.\<close>

definition turns_on :: "string \<Rightarrow> ustr list list \<Rightarrow> 'e run_server \<Rightarrow> 'e run_server \<Rightarrow> bool" where
  "turns_on i bs s s' \<longleftrightarrow>
     (\<exists>turns. rv_turns s' = rv_turns s @ turns \<and> taken i turns = bs) \<and> rv_runs s' = rv_runs s
     \<and> (traced s \<longrightarrow> traced s')"

lemma turns_on_trans: "turns_on i bs s s' \<Longrightarrow> turns_on i cs s' s'' \<Longrightarrow> turns_on i (bs @ cs) s s''"
  by (auto simp: turns_on_def)

lemma turns_on_refl [simp]: "turns_on i [] s s"
  by (simp add: turns_on_def)

lemma use_queue_turns:
  assumes "use_queue rid me a s = (s', reply)"
  shows "\<exists>effects. queue_apply a (rv_queue s) = (reply, effects, rv_queue s')
    \<and> turns_on i (turn_taken i (a, reply, effects)) s s'"
  using assms by (auto simp: use_queue_def turns_on_def traced_def intro: trace_step split: prod.splits)

lemma use_queue_turns_untaken:
  assumes "a \<noteq> Take_next_follow_up_batch i"
  shows "turns_on i [] s (fst (use_queue rid me a s))"
proof -
  obtain s' reply where u: "use_queue rid me a s = (s', reply)" by (rule prod.exhaust)
  have "turn_taken i (a, reply, effects) = []" for effects using assms
    by (cases "(i, (a, reply, effects))" rule: turn_taken.cases) auto
  with use_queue_turns [OF u, of i] u show ?thesis by auto
qed

lemma say_turns [simp]: "turns_on i [] s (say l s)"
  by (simp add: turns_on_def say_def traced_def)

lemma emit_turns [simp]: "turns_on i [] s (emit_submitted_prompt_batch rid mode prompts s)"
  by (simp add: emit_submitted_prompt_batch_def)

text \<open>Only the request itself takes batches of its session.\<close>

definition takes_nothing :: "string \<Rightarrow> 'e run_pass \<Rightarrow> bool" where
  "takes_nothing i p \<longleftrightarrow> Queue_used (Take_next_follow_up_batch i) \<notin> set (pa_happenings p)"

lemma happens_turns: "Queue_used (Take_next_follow_up_batch i) \<notin> set hs \<Longrightarrow> turns_on i [] s (fold (happen rid me) hs s)"
proof (induction hs arbitrary: s)
  case (Cons h hs)
  have "turns_on i [] s (happen rid me h s)"
  proof (cases h)
    case (Queue_used a)
    with Cons.prems have "a \<noteq> Take_next_follow_up_batch i" by auto
    with Queue_used show ?thesis by (simp add: use_queue_turns_untaken)
  qed simp
  moreover have "turns_on i [] (happen rid me h s) (fold (happen rid me) hs (happen rid me h s))"
    using Cons by simp
  ultimately show ?case using turns_on_trans by fastforce
qed simp

lemma pass_turns:
  assumes "takes_nothing i p"
  obtains turns where "rv_turns (one_pass rid me run p s) = rv_turns s @ turns" and "taken i turns = []"
    and "rv_runs (one_pass rid me run p s) = rv_runs s @ [run]" and "traced s \<longrightarrow> traced (one_pass rid me run p s)"
  using happens_turns [where hs = "pa_happenings p" and i = i and s = "s\<lparr>rv_runs := rv_runs s @ [run]\<rparr>" and rid = rid and me = me]
    assms by (auto simp: one_pass_def turns_on_def takes_nothing_def traced_def)

text \<open>The runs of an answered request: the first, and one for every batch.\<close>

definition ran_batches :: "string \<Rightarrow> started_run \<Rightarrow> 'e run_server \<Rightarrow> 'e run_server \<Rightarrow> bool" where
  "ran_batches i run s s' \<longleftrightarrow>
     (\<exists>turns. rv_turns s' = rv_turns s @ turns
        \<and> rv_runs s' = rv_runs s @ run # map (\<lambda>b. run\<lparr>sr_prompt := combine_prompt_batch b\<rparr>) (taken i turns))
     \<and> (traced s \<longrightarrow> traced s')"

lemma ran_with:
  assumes "takes_nothing i p" and "turns_on i [] (one_pass rid me run p s) s'"
  shows "ran_batches i run s s'"
proof (rule pass_turns [OF assms(1), where rid = rid and me = me and run = run and s = s])
qed (use assms(2) in \<open>auto simp: turns_on_def ran_batches_def\<close>)

lemma ran_on:
  assumes "takes_nothing i p" and "turns_on i [b] (one_pass rid me run p s) s'"
    and "ran_batches i (run\<lparr>sr_prompt := combine_prompt_batch b\<rparr>) s' s''"
  shows "ran_batches i run s s''"
proof (rule pass_turns [OF assms(1), where rid = rid and me = me and run = run and s = s])
qed (use assms(2,3) in \<open>auto simp: turns_on_def ran_batches_def\<close>)

lemma drain_runs_batches:
  "drain_runs rid me i run ps s = (s', True) \<Longrightarrow> \<forall>p \<in> set ps. takes_nothing i p \<Longrightarrow> ran_batches i run s s'"
proof (induction rid me i run ps s rule: drain_runs.induct)
  case (1 rid me i run s)
  then show ?case by simp
next
  case (2 rid me i run p ps s)
  let ?s1 = "one_pass rid me run p s"
  have p: "takes_nothing i p" using 2(3) by simp
  show ?case
  proof (cases "error_of_end (pa_end p)")
    case (Some e)
    obtain kind message where e: "e = (kind, message)" by (cases e)
    let ?s2 = "say (Rpc_error (Some rid) kind message) ?s1"
    have "turns_on i [] ?s1 (fst (use_queue rid me (Deactivate i) ?s2))"
      using turns_on_trans [OF say_turns use_queue_turns_untaken, of "Deactivate i"] by fastforce
    with 2(2) Some e ran_with [OF p] show ?thesis by auto
  next
    case None
    let ?s2 = "fst (use_queue rid me (Downgrade_pending_steers i) ?s1)"
    obtain s3 reply where t: "use_queue rid me (Take_next_follow_up_batch i) ?s2 = (s3, reply)" by (rule prod.exhaust)
    have down: "turns_on i [] ?s1 ?s2" by (rule use_queue_turns_untaken) simp
    from use_queue_turns [OF t, of i] obtain effects
      where got: "turns_on i (turn_taken i (Take_next_follow_up_batch i, reply, effects)) ?s2 s3" by blast
    show ?thesis
    proof (cases "\<exists>prompts. reply = Inr (Reply_batch (Some prompts))")
      case True
      then obtain prompts where r: "reply = Inr (Reply_batch (Some prompts))" by blast
      let ?s4 = "emit_submitted_prompt_batch rid Later prompts s3"
      from 2(2) None t r have rest: "drain_runs rid me i (run\<lparr>sr_prompt := combine_prompt_batch prompts\<rparr>) ps ?s4 = (s', True)"
        by simp
      have "turns_on i [prompts] ?s1 ?s4"
        using turns_on_trans [OF turns_on_trans [OF down got] emit_turns] r by simp
      from ran_on [OF p this 2(1) [OF refl None refl refl t [symmetric] r refl refl rest]] 2(3)
      show ?thesis by simp
    next
      case False
      then have none: "turn_taken i (Take_next_follow_up_batch i, reply, effects) = []"
        by (cases "(i, (Take_next_follow_up_batch i, reply, effects))" rule: turn_taken.cases) auto
      have "turns_on i [] ?s1 (say (Rpc_response rid (Run_start_response i)) (fst (use_queue rid me (Deactivate i) s3)))"
        using turns_on_trans [OF turns_on_trans [OF down got]
            turns_on_trans [OF use_queue_turns_untaken [of "Deactivate i"] say_turns]] none by simp
      moreover from False 2(2) None t
      have "s' = say (Rpc_response rid (Run_start_response i)) (fst (use_queue rid me (Deactivate i) s3))"
        by (auto split: sum.splits queue_reply.splits option.splits)
      ultimately show ?thesis using ran_with [OF p] by simp
    qed
  qed
qed

text \<open>When the answer is a response, the queues of the session are empty.\<close>

lemma downgrade_empties:
  "downgrade_pending_steers_to_follow_ups i q = (reply, effects, q') \<Longrightarrow> queued (fus_steer_queues q') i = []"
  by (auto simp: downgrade_pending_steers_to_follow_ups_def drain_pending_steers_def prepend_follow_ups_def Let_def
      split: if_splits)

lemma take_replies:
  assumes "take_next_follow_up_batch i q = (reply, effects, q')"
  shows "fus_steer_queues q' = fus_steer_queues q"
    and "reply = Inr (Reply_batch None) \<and> queued (fus_follow_up_queues q') i = [] \<and> q' = q
      \<or> (\<exists>b bs. queued (fus_follow_up_queues q) i = b # bs \<and> reply = Inr (Reply_batch (Some (qb_prompts b)))
           \<and> queued (fus_follow_up_queues q') i = bs)"
  using assms by (auto simp: take_next_follow_up_batch_def Let_def split: list.splits if_splits)

lemma use_queue_state: "rv_queue (fst (use_queue rid me a s)) = snd (snd (queue_apply a (rv_queue s)))"
  by (simp add: use_queue_def split_beta Let_def)

lemma deactivate_queues:
  "queued (fus_follow_up_queues (snd (snd (deactivate i q)))) j = queued (fus_follow_up_queues q) j"
  "queued (fus_steer_queues (snd (snd (deactivate i q)))) j = queued (fus_steer_queues q) j"
  by (simp_all add: deactivate_def Let_def)

lemma say_queue [simp]: "rv_queue (say l s) = rv_queue s" "rv_lines (say l s) = rv_lines s @ [l]"
  by (simp_all add: say_def)

lemma events_end: "only_events rid ls \<Longrightarrow> last (l # ls) \<noteq> Rpc_response rid' x \<or> l = Rpc_response rid' x"
  by (cases ls rule: rev_cases) auto

lemma error_is_last:
  assumes "only_events rid ls"
  shows "last (xs @ Rpc_error j kind message # ls) \<noteq> Rpc_response rid' x"
  using assms by (cases ls rule: rev_cases) auto

lemma drain_empties:
  "drain_runs rid me i run ps s = (s', True) \<Longrightarrow> last (rv_lines s') = Rpc_response rid' x \<Longrightarrow> nothing_queued (rv_queue s') i"
proof (induction rid me i run ps s rule: drain_runs.induct)
  case (1 rid me i run s)
  then show ?case by simp
next
  case (2 rid me i run p ps s)
  let ?s1 = "one_pass rid me run p s"
  show ?case
  proof (cases "error_of_end (pa_end p)")
    case (Some e)
    obtain kind message where e: "e = (kind, message)" by (cases e)
    let ?s2 = "say (Rpc_error (Some rid) kind message) ?s1"
    obtain l2 where "rv_lines (fst (use_queue rid me (Deactivate i) ?s2)) = rv_lines ?s2 @ l2" "only_events rid l2"
      using use_queue_adds unfolding adds_events_def by blast
    with 2(2,3) Some e error_is_last [of rid l2] show ?thesis by auto
  next
    case None
    let ?s2 = "fst (use_queue rid me (Downgrade_pending_steers i) ?s1)"
    obtain s3 reply where t: "use_queue rid me (Take_next_follow_up_batch i) ?s2 = (s3, reply)" by (rule prod.exhaust)
    from use_queue_turns [OF t, of i] obtain effects
      where taking: "take_next_follow_up_batch i (rv_queue ?s2) = (reply, effects, rv_queue s3)" by auto
    show ?thesis
    proof (cases "\<exists>prompts. reply = Inr (Reply_batch (Some prompts))")
      case True
      then obtain prompts where r: "reply = Inr (Reply_batch (Some prompts))" by blast
      with 2(2) None t have "drain_runs rid me i (run\<lparr>sr_prompt := combine_prompt_batch prompts\<rparr>) ps
          (emit_submitted_prompt_batch rid Later prompts s3) = (s', True)" by simp
      from 2(1) [OF refl None refl refl t [symmetric] r refl refl this 2(3)] show ?thesis .
    next
      case False
      with 2(2) None t have s': "s' = say (Rpc_response rid (Run_start_response i)) (fst (use_queue rid me (Deactivate i) s3))"
        by (auto split: sum.splits queue_reply.splits option.splits)
      obtain r2 e2 q2 where "downgrade_pending_steers_to_follow_ups i (rv_queue ?s1) = (r2, e2, q2)" by (rule prod_cases3)
      then have "queued (fus_steer_queues (rv_queue ?s2)) i = []"
        using downgrade_empties by (simp add: use_queue_state)
      with take_replies [OF taking] False have "nothing_queued (rv_queue s3) i"
        by (auto simp: nothing_queued_def)
      then show ?thesis by (simp add: s' use_queue_state nothing_queued_def deactivate_queues)
    qed
  qed
qed

lemma nothing_pending: "nothing_queued q i \<Longrightarrow> pending_later q i = [] \<and> pending_next q i = []"
  by (simp add: nothing_queued_def pending_defs)

text \<open>
  C9: What is queued while a run.start goes on is run before it is answered. When the answer is a response, every
  later prompt ever queued for the session was delivered, in order, and every next prompt; the runs are the one that
  was asked for and one for each batch that was taken from the queue, its prompts joined by blank lines.
\<close>

theorem queued_prompts_become_runs:
  assumes "queue_trace (rv_turns s) (rv_queue s)"
    and "handle_run_start describe rid me r passes session s = (session', s', True)"
    and "last (rv_lines s') = Rpc_response rid x"
    and "\<forall>p \<in> set passes. takes_nothing (rsp_session_id r) p"
  shows "\<exists>turns tagged. rv_turns s' = rv_turns s @ turns
    \<and> map snd tagged = delivered (rsp_session_id r) (rv_turns s')
    \<and> enqueued (rsp_session_id r) Later (rv_turns s') = of_mode Later tagged
    \<and> mset (enqueued (rsp_session_id r) Next (rv_turns s')) = mset (of_mode Next tagged)
    \<and> map sr_prompt (rv_runs s')
        = map sr_prompt (rv_runs s) @ rsp_prompt r # map combine_prompt_batch (taken (rsp_session_id r) turns)"
  using assms(2)
proof (cases rule: start_cases)
  case (refused kind message)
  with assms(3) show ?thesis by simp
next
  case (started run)
  let ?i = "rsp_session_id r"
  let ?s1 = "fst (use_queue rid me (Activate ?i me me (Some me)) s)"
  have on: "turns_on ?i [] s ?s1" by (rule use_queue_turns_untaken) simp
  from drain_runs_batches [OF started(2) assms(4)] have ran: "ran_batches ?i run ?s1 s'" .
  with on obtain turns where turns: "rv_turns s' = rv_turns s @ turns"
    and runs: "rv_runs s' = rv_runs s @ run # map (\<lambda>b. run\<lparr>sr_prompt := combine_prompt_batch b\<rparr>) (taken ?i turns)"
    by (auto simp: turns_on_def ran_batches_def)
  from on ran assms(1) have "queue_trace (rv_turns s') (rv_queue s')"
    by (simp add: turns_on_def ran_batches_def traced_def)
  from queue_conserves [OF this, of ?i] nothing_pending [OF drain_empties [OF started(2) assms(3)]]
  obtain tagged where "map snd tagged = delivered ?i (rv_turns s')"
    "enqueued ?i Later (rv_turns s') = of_mode Later tagged"
    "mset (enqueued ?i Next (rv_turns s')) = mset (of_mode Next tagged)" by auto
  moreover have "map sr_prompt (rv_runs s')
      = map sr_prompt (rv_runs s) @ rsp_prompt r # map combine_prompt_batch (taken ?i turns)"
    using runs started(1) by simp
  ultimately show ?thesis using turns by blast
qed

section \<open>The runs come to an end\<close>

text \<open>How many batches wait at most, when nothing more is queued.\<close>

definition waiting :: "follow_up_state \<Rightarrow> string \<Rightarrow> nat" where
  "waiting q i = length (queued (fus_follow_up_queues q) i) + (if queued (fus_steer_queues q) i = [] then 0 else 1)"

fun queues_for :: "string \<Rightarrow> 'e happening \<Rightarrow> bool" where
  "queues_for i (Queue_used (Enqueue j _ _)) \<longleftrightarrow> j = i"
| "queues_for i _ \<longleftrightarrow> False"

lemma apply_waiting:
  assumes "\<not> queues_for i (Queue_used a)"
  shows "waiting (snd (snd (queue_apply a q))) i \<le> waiting q i"
proof (cases a)
  case (Enqueue j prompt mode)
  with assms show ?thesis
    by (cases mode) (auto simp: waiting_def enqueue_def append_follow_up_def Let_def)
qed (auto simp: waiting_def activate_def deactivate_def activate_steer_boundary_def submit_active_steer_boundary_def
       deactivate_steer_boundary_def downgrade_pending_steers_to_follow_ups_def drain_pending_steers_def
       prepend_follow_ups_def take_next_follow_up_batch_def interrupt_def Let_def
       split: option.splits list.splits)

lemma happens_waiting:
  "\<forall>h \<in> set hs. \<not> queues_for i h \<Longrightarrow> waiting (rv_queue (fold (happen rid me) hs s)) i \<le> waiting (rv_queue s) i"
proof (induction hs arbitrary: s)
  case (Cons h hs)
  have "waiting (rv_queue (happen rid me h s)) i \<le> waiting (rv_queue s) i"
    using Cons.prems apply_waiting by (cases h) (auto simp: use_queue_state)
  with Cons show ?case by (fastforce intro: order_trans)
qed simp

lemma drain_ends:
  "\<forall>p \<in> set ps. \<forall>h \<in> set (pa_happenings p). \<not> queues_for i h \<Longrightarrow> waiting (rv_queue s) i < length ps
    \<Longrightarrow> snd (drain_runs rid me i run ps s)"
proof (induction ps arbitrary: run s)
  case (Cons p ps)
  let ?s1 = "one_pass rid me run p s"
  have one: "waiting (rv_queue ?s1) i \<le> waiting (rv_queue s) i"
    using happens_waiting [of "pa_happenings p" i rid me "s\<lparr>rv_runs := rv_runs s @ [run]\<rparr>"] Cons.prems(1)
    by (simp add: one_pass_def)
  show ?case
  proof (cases "error_of_end (pa_end p)")
    case None
    let ?s2 = "fst (use_queue rid me (Downgrade_pending_steers i) ?s1)"
    obtain s3 reply where t: "use_queue rid me (Take_next_follow_up_batch i) ?s2 = (s3, reply)" by (rule prod.exhaust)
    from use_queue_turns [OF t, of i] obtain effects
      where taking: "take_next_follow_up_batch i (rv_queue ?s2) = (reply, effects, rv_queue s3)" by auto
    have two: "waiting (rv_queue ?s2) i \<le> waiting (rv_queue ?s1) i"
      using apply_waiting [of i "Downgrade_pending_steers i" "rv_queue ?s1"] by (simp add: use_queue_state)
    show ?thesis
    proof (cases "\<exists>prompts. reply = Inr (Reply_batch (Some prompts))")
      case True
      then obtain prompts where r: "reply = Inr (Reply_batch (Some prompts))" by blast
      let ?s4 = "emit_submitted_prompt_batch rid Later prompts s3"
      have "rv_queue ?s4 = rv_queue s3" by (simp add: emit_submitted_prompt_batch_def)
      moreover have "waiting (rv_queue s3) i < waiting (rv_queue ?s2) i"
        using take_replies [OF taking] r by (auto simp: waiting_def)
      ultimately have "waiting (rv_queue ?s4) i < length ps" using one two Cons.prems(2) by simp
      from Cons.IH [OF _ this] Cons.prems(1) None t r show ?thesis by simp
    next
      case False
      with None t show ?thesis by (auto split: sum.splits queue_reply.splits option.splits)
    qed
  qed auto
qed simp

text \<open>
  C18: A run.start is answered: when its runs end and nothing more is queued for the session, it takes at most one run
  more than batches wait, the prompts for the next boundary counting as one.
\<close>

theorem run_start_is_answered:
  assumes "\<forall>p \<in> set passes. \<forall>h \<in> set (pa_happenings p). \<not> queues_for (rsp_session_id r) h"
    and "waiting (rv_queue s) (rsp_session_id r) < length passes"
  shows "snd (snd (handle_run_start describe rid me r passes session s))"
proof -
  obtain session' s' answered where h: "handle_run_start describe rid me r passes session s = (session', s', answered)"
    by (rule prod_cases3)
  from h have "answered"
  proof (cases rule: start_cases)
    case (started run)
    have "waiting (rv_queue (fst (use_queue rid me (Activate (rsp_session_id r) me me (Some me)) s))) (rsp_session_id r)
        < length passes"
      using apply_waiting [of "rsp_session_id r" "Activate (rsp_session_id r) me me (Some me)" "rv_queue s"] assms(2)
      by (simp add: use_queue_state)
    from drain_ends [OF assms(1) this, of rid me run] started(2) show ?thesis by simp
  qed simp
  with h show ?thesis by simp
qed

section \<open>Errors keep the queue\<close>

text \<open>The prompts of the next run, when the queue is drained.\<close>

definition next_batch :: "follow_up_state \<Rightarrow> string \<Rightarrow> ustr list option" where
  "next_batch q i =
     (case queued (fus_steer_queues q) i of
        [] \<Rightarrow> (case queued (fus_follow_up_queues q) i of [] \<Rightarrow> None | b # _ \<Rightarrow> Some (qb_prompts b))
      | prompts \<Rightarrow> Some prompts)"

text \<open>Nobody else activates or deactivates the session.\<close>

fun registers :: "string \<Rightarrow> 'e happening \<Rightarrow> bool" where
  "registers i (Queue_used (Activate j _ _ _)) \<longleftrightarrow> j = i"
| "registers i (Queue_used (Deactivate j)) \<longleftrightarrow> j = i"
| "registers i _ \<longleftrightarrow> False"

lemma apply_keeps_emitter:
  assumes "\<not> registers i (Queue_used a)"
  shows "fus_queue_event_emitters (snd (snd (queue_apply a q))) i = fus_queue_event_emitters q i"
proof (cases "changes_registrations a")
  case True
  with assms show ?thesis by (cases a) (auto simp: activate_def deactivate_def Let_def)
next
  case False
  obtain reply effects q' where a: "queue_apply a q = (reply, effects, q')" by (rule prod_cases3)
  from apply_registrations [OF a False] a show ?thesis by (simp add: same_registrations_def)
qed

lemma happens_keep_emitter:
  "\<forall>h \<in> set hs. \<not> registers i h \<Longrightarrow>
     fus_queue_event_emitters (rv_queue (fold (happen rid me) hs s)) i = fus_queue_event_emitters (rv_queue s) i"
proof (induction hs arbitrary: s)
  case (Cons h hs)
  have "fus_queue_event_emitters (rv_queue (happen rid me h s)) i = fus_queue_event_emitters (rv_queue s) i"
    using Cons.prems apply_keeps_emitter by (cases h) (auto simp: use_queue_state)
  with Cons show ?case by simp
qed simp

text \<open>What the lines look like when the session is let go of with something queued.\<close>

definition cleared_view :: "ustr \<Rightarrow> 'e run_server \<Rightarrow> string \<Rightarrow> bool" where
  "cleared_view rid s i \<longleftrightarrow>
     (\<exists>ls kind message. rv_lines s = ls @ [Rpc_error (Some rid) kind message, Rpc_event rid (Queue_state_event empty_view)])"

lemma drain_clears_view:
  "drain_runs rid me i run ps s = (s', True) \<Longrightarrow> \<forall>p \<in> set ps. \<forall>h \<in> set (pa_happenings p). \<not> registers i h
    \<Longrightarrow> fus_queue_event_emitters (rv_queue s) i = Some me \<Longrightarrow> \<not> view_empty (build_queue_state_event (rv_queue s') i)
    \<Longrightarrow> cleared_view rid s' i"
proof (induction rid me i run ps s rule: drain_runs.induct)
  case (1 rid me i run s)
  then show ?case by simp
next
  case (2 rid me i run p ps s)
  let ?s1 = "one_pass rid me run p s"
  have m1: "fus_queue_event_emitters (rv_queue ?s1) i = Some me"
    using happens_keep_emitter [of "pa_happenings p" i] 2(3,4) by (simp add: one_pass_def)
  show ?case
  proof (cases "error_of_end (pa_end p)")
    case (Some e)
    obtain kind message where e: "e = (kind, message)" by (cases e)
    let ?s2 = "say (Rpc_error (Some rid) kind message) ?s1"
    have s': "s' = fst (use_queue rid me (Deactivate i) ?s2)" using 2(2) Some e by simp
    then have "build_queue_state_event (rv_queue s') i = build_queue_state_event (rv_queue ?s1) i"
      by (simp add: use_queue_state build_queue_state_event_def deactivate_queues)
    with 2(5) m1 have "rv_lines s' = rv_lines ?s2 @ [Rpc_event rid (Queue_state_event empty_view)]"
      unfolding s' by (simp add: use_queue_def deactivate_def Let_def)
    then show ?thesis by (simp add: cleared_view_def)
  next
    case None
    let ?s2 = "fst (use_queue rid me (Downgrade_pending_steers i) ?s1)"
    obtain s3 reply where t: "use_queue rid me (Take_next_follow_up_batch i) ?s2 = (s3, reply)" by (rule prod.exhaust)
    have m3: "fus_queue_event_emitters (rv_queue s3) i = Some me"
      using m1 apply_keeps_emitter [of i "Downgrade_pending_steers i" "rv_queue ?s1"]
        apply_keeps_emitter [of i "Take_next_follow_up_batch i" "rv_queue ?s2"]
        use_queue_state [of rid me "Take_next_follow_up_batch i" ?s2] t by (simp add: use_queue_state)
    show ?thesis
    proof (cases "\<exists>prompts. reply = Inr (Reply_batch (Some prompts))")
      case True
      then obtain prompts where r: "reply = Inr (Reply_batch (Some prompts))" by blast
      let ?s4 = "emit_submitted_prompt_batch rid Later prompts s3"
      from 2(2) None t r have "drain_runs rid me i (run\<lparr>sr_prompt := combine_prompt_batch prompts\<rparr>) ps ?s4 = (s', True)"
        by simp
      moreover have "fus_queue_event_emitters (rv_queue ?s4) i = Some me"
        using m3 by (simp add: emit_submitted_prompt_batch_def)
      moreover have "\<forall>p \<in> set ps. \<forall>h \<in> set (pa_happenings p). \<not> registers i h" using 2(3) by simp
      ultimately show ?thesis using 2(1) [OF refl None refl refl t [symmetric] r refl refl] 2(5) by blast
    next
      case False
      with 2(2) None t have "s' = say (Rpc_response rid (Run_start_response i)) (fst (use_queue rid me (Deactivate i) s3))"
        by (auto split: sum.splits queue_reply.splits option.splits)
      then have "last (rv_lines s') = Rpc_response rid (Run_start_response i)" by simp
      from nothing_pending [OF drain_empties [OF 2(2) this]] 2(5) have False
        by (simp add: view_empty_def pending_later_def pending_next_def build_queue_state_event_def)
      then show ?thesis ..
    qed
  qed
qed

text \<open>A run that ends without an error is followed by the next batch.\<close>

lemma quiet_pass_takes:
  assumes "next_batch (rv_queue s) i = Some prompts"
  shows "\<exists>s'. rv_runs s' = rv_runs s @ [run]
    \<and> drain_runs rid me i run (\<lparr>pa_happenings = [], pa_end = Pass_finished\<rparr> # ps) s
        = drain_runs rid me i (run\<lparr>sr_prompt := combine_prompt_batch prompts\<rparr>) ps s'"
proof -
  let ?s1 = "s\<lparr>rv_runs := rv_runs s @ [run]\<rparr>"
  let ?s2 = "fst (use_queue rid me (Downgrade_pending_steers i) ?s1)"
  obtain s3 reply where t: "use_queue rid me (Take_next_follow_up_batch i) ?s2 = (s3, reply)" by (rule prod.exhaust)
  from use_queue_turns [OF t, of i] obtain effects
    where taking: "take_next_follow_up_batch i (rv_queue ?s2) = (reply, effects, rv_queue s3)"
      and runs: "rv_runs s3 = rv_runs ?s2" by (auto simp: turns_on_def)
  have "\<exists>b bs. queued (fus_follow_up_queues (rv_queue ?s2)) i = b # bs \<and> qb_prompts b = prompts"
    using assms by (auto simp: use_queue_state next_batch_def downgrade_pending_steers_to_follow_ups_def
        drain_pending_steers_def prepend_follow_ups_def Let_def split: list.splits)
  then have "reply = Inr (Reply_batch (Some prompts))"
    using taking by (auto simp: take_next_follow_up_batch_def Let_def)
  moreover have "rv_runs ?s2 = rv_runs s @ [run]" by (simp add: use_queue_def split_beta Let_def)
  ultimately show ?thesis using t runs
    by (intro exI [of _ "emit_submitted_prompt_batch rid Later prompts s3"])
      (simp add: one_pass_def emit_submitted_prompt_batch_def say_def)
qed

lemma happens_keep_runs [simp]: "rv_runs (fold (happen rid me) hs s) = rv_runs s"
proof (induction hs arbitrary: s)
  case (Cons h hs)
  have "rv_runs (happen rid me h s) = rv_runs s"
    by (cases h) (simp_all add: say_def use_queue_def split_beta Let_def)
  with Cons show ?case by simp
qed simp

lemma use_queue_runs [simp]: "rv_runs (fst (use_queue rid me a s)) = rv_runs s"
  by (simp add: use_queue_def split_beta Let_def)

lemma drain_extends: "\<exists>rest. rv_runs (fst (drain_runs rid me i run ps s)) = rv_runs s @ (if ps = [] then [] else run # rest)"
proof (induction ps arbitrary: run s)
  case (Cons p ps)
  let ?s1 = "one_pass rid me run p s"
  have one: "rv_runs ?s1 = rv_runs s @ [run]" by (simp add: one_pass_def)
  show ?case
  proof (cases "error_of_end (pa_end p)")
    case (Some e)
    with one show ?thesis by (cases e) (simp add: say_def Let_def)
  next
    case None
    let ?s2 = "fst (use_queue rid me (Downgrade_pending_steers i) ?s1)"
    obtain s3 reply where t: "use_queue rid me (Take_next_follow_up_batch i) ?s2 = (s3, reply)" by (rule prod.exhaust)
    then have "s3 = fst (use_queue rid me (Take_next_follow_up_batch i) ?s2)" by simp
    with one have three: "rv_runs s3 = rv_runs s @ [run]" by simp
    show ?thesis
    proof (cases "\<exists>prompts. reply = Inr (Reply_batch (Some prompts))")
      case True
      then obtain prompts where r: "reply = Inr (Reply_batch (Some prompts))" by blast
      have "rv_runs (emit_submitted_prompt_batch rid Later prompts s3) = rv_runs s @ [run]"
        using three by (simp add: emit_submitted_prompt_batch_def say_def)
      with Cons [of "run\<lparr>sr_prompt := combine_prompt_batch prompts\<rparr>" "emit_submitted_prompt_batch rid Later prompts s3"]
        None t r show ?thesis by auto
    next
      case False
      with None t three show ?thesis by (auto simp: say_def split: sum.splits queue_reply.splits option.splits)
    qed
  qed
qed simp

text \<open>A known session with its metadata is activated, and stays one.\<close>

lemma start_known:
  assumes "sfl_metadata f = Some md"
  obtains f' run where "sfl_metadata f' \<noteq> None" and "sr_prompt run = rsp_prompt r"
    and "handle_run_start describe rid me r passes (Some f) s
      = (Some f', drain_runs rid me (rsp_session_id r) run passes
           (fst (use_queue rid me (Activate (rsp_session_id r) me me (Some me)) s)))"
proof -
  define mode where "mode = (case rsp_mode r of None \<Rightarrow> md_current_mode md | Some m \<Rightarrow> m)"
  define f' where "f' = (if md_current_mode md = mode then f else f\<lparr>sfl_metadata := Some (md\<lparr>md_current_mode := mode\<rparr>)\<rparr>)"
  let ?run = "\<lparr>sr_prompt = rsp_prompt r, sr_tools = run_tool_names r mode, sr_mode = mode\<rparr>"
  have "handle_run_start describe rid me r passes (Some f) s
      = (Some f', drain_runs rid me (rsp_session_id r) ?run passes
           (fst (use_queue rid me (Activate (rsp_session_id r) me me (Some me)) s)))"
    using assms by (simp add: handle_run_start_def update_session_mode_def update_session_metadata_def f'_def
        Let_def split_beta flip: mode_def)
  moreover have "sfl_metadata f' \<noteq> None" using assms by (simp add: f'_def)
  ultimately show thesis by (intro that) simp_all
qed


section \<open>Concrete requests\<close>

text \<open>Two prompts are queued and run as one.\<close>

theorem queued_prompts_become_runs_witness:
  "\<exists>(s' :: nat run_server) turns tagged. rv_turns s' = turns
    \<and> map snd tagged = delivered ''s'' turns \<and> enqueued ''s'' Later turns = of_mode Later tagged
    \<and> map sr_prompt (rv_runs s') = [104] # map combine_prompt_batch (taken ''s'' turns)
    \<and> map sr_prompt (rv_runs s') = [[104], [65, 10, 10, 66]]"
proof -
  obtain session' s' where h: "handle_run_start (\<lambda>_. []) [7] 1 sample_run_start sample_passes (Some sample_run_files) sample_server
      = (session', s', True)"
    and lines: "rv_lines s' = [Rpc_event [7] (Streamed_event 1),
        Rpc_event [7] (Queue_state_event \<lparr>qv_next_prompts = [], qv_later_prompts = [[65]]\<rparr>),
        Rpc_event [7] (Queue_state_event \<lparr>qv_next_prompts = [], qv_later_prompts = [[65], [66]]\<rparr>),
        Rpc_event [7] (Queue_state_event empty_view), Rpc_event [7] (Batch_submitted_event Later [[65], [66]]),
        Rpc_event [7] (Streamed_event 2), Rpc_response [7] (Run_start_response ''s'')]"
    and runs: "map sr_prompt (rv_runs s') = [[104], [65, 10, 10, 66]]"
    by (rule sample_run)
  have "\<forall>p \<in> set sample_passes. takes_nothing (rsp_session_id sample_run_start) p"
    by (simp add: sample_passes_def takes_nothing_def)
  moreover have "queue_trace (rv_turns sample_server) (rv_queue sample_server)"
    by (simp add: sample_server_def trace_start)
  moreover have "last (rv_lines s') = Rpc_response [7] (Run_start_response ''s'')" by (simp add: lines)
  ultimately obtain turns tagged where "rv_turns s' = rv_turns sample_server @ turns"
    "map snd tagged = delivered ''s'' (rv_turns s')" "enqueued ''s'' Later (rv_turns s') = of_mode Later tagged"
    "map sr_prompt (rv_runs s') = map sr_prompt (rv_runs sample_server) @ [104] # map combine_prompt_batch (taken ''s'' turns)"
    using queued_prompts_become_runs [OF _ h] by (auto simp: sample_run_start_def)
  then show ?thesis using runs
    by (intro exI [of _ s'] exI [of _ turns] exI [of _ tagged]) (simp add: sample_server_def)
qed

theorem run_start_is_answered_witness:
  "snd (snd (handle_run_start (\<lambda>_. []) [7] 1 sample_run_start
     [\<lparr>pa_happenings = [Streamed 1], pa_end = Pass_finished\<rparr>] (Some sample_run_files) sample_server))"
  by (rule run_start_is_answered) (simp_all add: waiting_def sample_server_def new_follow_up_state_def)

text \<open>A prompt is queued before the provider fails; the next request runs it after its own.\<close>

definition sample_failing_pass :: "nat run_pass" where
  "sample_failing_pass =
     \<lparr>pa_happenings = [Queue_used (Enqueue ''s'' [65] Later)], pa_end = Pass_not_ready [33]\<rparr>"


end
