(* ===== verification/Rpc_Permissions.thy ===== *)
theory Rpc_Permissions
  imports Rpc_Contract Permission_Memory "HOL-Library.AList" "HOL-Library.Sublist"
begin

text \<open>
  Permissions of the RPC server, after \<open>rpc/state.py\<close>, \<open>rpc/handlers/permissions.py\<close> and the approval part of
  \<open>rpc/stdio.py\<close>: the permission state and memory of each session, and the approvals its run waits for. A memory is
  an object that a run and the server share, so it is kept in a store under an address.
\<close>

section \<open>State\<close>

record session_permission_context =
  spc_state :: permission_state
  spc_memory :: nat

record pending_approval =
  pv_request :: approval_request
  pv_response :: "approval_decision option"

record rpc_runtime =
  rp_contexts :: "string \<rightharpoonup> session_permission_context"
  rp_memories :: "nat \<Rightarrow> permission_memory"
  rp_fresh :: nat
  rp_approvals :: "(string \<times> (string \<times> pending_approval) list) list"

definition new_runtime_state :: rpc_runtime where
  "new_runtime_state =
     \<lparr>rp_contexts = Map.empty, rp_memories = (\<lambda>_. empty_memory), rp_fresh = 0, rp_approvals = []\<rparr>"

section \<open>Permission states\<close>

definition build_live_permission_state :: "sandbox_policy option \<Rightarrow> approval_policy option \<Rightarrow> permission_state" where
  "build_live_permission_state sandbox approval =
     (let d = build_default_permission_state;
          sandbox = (case sandbox of None \<Rightarrow> ps_sandbox_policy d | Some p \<Rightarrow> p);
          approval = (case approval of None \<Rightarrow> ps_approval_policy d | Some p \<Rightarrow> p);
          (fs, net) = (case sandbox of
              Danger_full_access_policy _ \<Rightarrow> (Full_access, Enabled)
            | _ \<Rightarrow> (ec_filesystem_access (ps_effective_capabilities d), ec_network_access (ps_effective_capabilities d)))
      in build_permission_state sandbox approval
           (Some \<lparr>ec_filesystem_access = fs, ec_network_access = net, ec_execution_isolation = Unsandboxed,
                  ec_approval_mode = ap_mode approval, ec_approval_by_kind = ap_by_kind approval\<rparr>))"

definition permission_state_key :: "string option \<Rightarrow> string" where
  "permission_state_key session = (case session of None \<Rightarrow> ''__workspace_default__'' | Some i \<Rightarrow> i)"

definition set_context :: "string \<Rightarrow> permission_state \<Rightarrow> rpc_runtime \<Rightarrow> session_permission_context \<times> rpc_runtime" where
  "set_context key st rt =
     (let c = \<lparr>spc_state = st, spc_memory = rp_fresh rt\<rparr> in
      (c, rt\<lparr>rp_contexts := (rp_contexts rt)(key \<mapsto> c), rp_memories := (rp_memories rt)(rp_fresh rt := empty_memory),
             rp_fresh := Suc (rp_fresh rt)\<rparr>))"

definition get_or_create_permission_context ::
    "string option \<Rightarrow> rpc_runtime \<Rightarrow> session_permission_context \<times> rpc_runtime" where
  "get_or_create_permission_context session rt =
     (case rp_contexts rt (permission_state_key session) of
        Some c \<Rightarrow> (c, rt)
      | None \<Rightarrow> set_context (permission_state_key session) (build_live_permission_state None None) rt)"

text \<open>The context of a session that is created takes the state of the workspace default.\<close>

definition create_session_context :: "string \<Rightarrow> rpc_runtime \<Rightarrow> rpc_runtime" where
  "create_session_context i rt =
     (let (d, rt) = get_or_create_permission_context None rt in snd (set_context i (spc_state d) rt))"

section \<open>Handlers\<close>

text \<open>\<open>known\<close> tells whether the session has a file.\<close>

definition handle_permission_get ::
    "(string \<Rightarrow> bool) \<Rightarrow> ustr \<Rightarrow> string option \<Rightarrow> rpc_runtime \<Rightarrow> 'e rpc_line \<times> rpc_runtime" where
  "handle_permission_get known rid session rt =
     (if (case session of None \<Rightarrow> False | Some i \<Rightarrow> \<not> known i) then (unknown_session rid (the session), rt)
      else (let (c, rt) = get_or_create_permission_context session rt
            in (Rpc_response rid (Permission_get_response session (spc_state c)), rt)))"

definition handle_permission_set ::
    "(string \<Rightarrow> bool) \<Rightarrow> ustr \<Rightarrow> string option \<Rightarrow> sandbox_policy option \<Rightarrow> approval_policy option
     \<Rightarrow> rpc_runtime \<Rightarrow> 'e rpc_line \<times> rpc_runtime" where
  "handle_permission_set known rid session sandbox approval rt =
     (if (case session of None \<Rightarrow> False | Some i \<Rightarrow> \<not> known i) then (unknown_session rid (the session), rt)
      else
        (let (c, rt) = get_or_create_permission_context session rt;
             st = build_live_permission_state
                    (Some (case sandbox of None \<Rightarrow> ps_sandbox_policy (spc_state c) | Some p \<Rightarrow> p))
                    (Some (case approval of None \<Rightarrow> ps_approval_policy (spc_state c) | Some p \<Rightarrow> p));
             rt = rt\<lparr>rp_memories := (rp_memories rt)(spc_memory c := clear_memory (rp_memories rt (spc_memory c))),
                     rp_contexts := (rp_contexts rt)(permission_state_key session \<mapsto>
                       \<lparr>spc_state = st, spc_memory = spc_memory c\<rparr>)\<rparr>
         in (Rpc_response rid (Permission_set_response session st), rt)))"

text \<open>The approvals of a session; a session without any has an empty list.\<close>

definition session_approvals :: "string \<Rightarrow> rpc_runtime \<Rightarrow> (string \<times> pending_approval) list" where
  "session_approvals i rt = (case map_of (rp_approvals rt) i of None \<Rightarrow> [] | Some ps \<Rightarrow> ps)"

definition approval_id :: "approval_request \<Rightarrow> string" where
  "approval_id request = rq_request_id (request_base request)"

text \<open>The resolver of a run, up to its wait; \<open>None\<close> when the request is already pending.\<close>

definition begin_approval :: "string \<Rightarrow> approval_request \<Rightarrow> rpc_runtime \<Rightarrow> rpc_runtime option" where
  "begin_approval i request rt =
     (if map_of (session_approvals i rt) (approval_id request) \<noteq> None then None
      else Some (rt\<lparr>rp_approvals := AList.update i
             (AList.update (approval_id request) \<lparr>pv_request = request, pv_response = None\<rparr> (session_approvals i rt))
             (rp_approvals rt)\<rparr>))"

text \<open>The end of the wait, by a decision or a cancellation: the approval is forgotten.\<close>

definition forget_approval :: "string \<Rightarrow> string \<Rightarrow> rpc_runtime \<Rightarrow> rpc_runtime" where
  "forget_approval i request_id rt =
     (case map_of (rp_approvals rt) i of
        None \<Rightarrow> rt
      | Some ps \<Rightarrow>
          (let ps = AList.delete request_id ps in
           rt\<lparr>rp_approvals := (if ps = [] then AList.delete i (rp_approvals rt) else AList.update i ps (rp_approvals rt))\<rparr>))"

definition handle_approval_submit ::
    "(contract_error \<Rightarrow> ustr) \<Rightarrow> (string \<Rightarrow> bool) \<Rightarrow> ustr \<Rightarrow> string \<Rightarrow> approval_decision \<Rightarrow> rpc_runtime
     \<Rightarrow> 'e rpc_line \<times> rpc_runtime" where
  "handle_approval_submit describe known rid i decision rt =
     (let bad = (\<lambda>message. (Rpc_error (Some rid) Invalid_request message, rt)) in
      if \<not> known i then (unknown_session rid i, rt)
      else (case map_of (session_approvals i rt) (ad_request_id decision) of
              None \<Rightarrow> bad (lit ''Unknown approval request for session: '' @ lit (ad_request_id decision))
            | Some pv \<Rightarrow>
                if pv_response pv \<noteq> None
                  then bad (lit ''Approval request already resolved: '' @ lit (ad_request_id decision))
                else (case normalize_approval_decision (pv_request pv) decision of
                        Inl e \<Rightarrow> bad (describe e)
                      | Inr d \<Rightarrow>
                          (Rpc_response rid (Approval_submit_response i d),
                           rt\<lparr>rp_approvals := AList.update i
                                (AList.update (ad_request_id decision) (pv\<lparr>pv_response := Some d\<rparr>)
                                  (session_approvals i rt)) (rp_approvals rt)\<rparr>))))"

section \<open>What setting permissions does\<close>

lemma context_known:
  "get_or_create_permission_context session rt = (c, rt') \<Longrightarrow> rp_contexts rt' (permission_state_key session) = Some c"
  by (auto simp: get_or_create_permission_context_def set_context_def Let_def split: option.splits)

lemma context_frame:
  assumes "get_or_create_permission_context session rt = (c, rt')"
  shows "key \<noteq> permission_state_key session \<Longrightarrow> rp_contexts rt' key = rp_contexts rt key"
    and "a < rp_fresh rt \<Longrightarrow> rp_memories rt' a = rp_memories rt a"
    and "rp_approvals rt' = rp_approvals rt"
  using assms by (auto simp: get_or_create_permission_context_def set_context_def Let_def split: option.splits)

lemma live_state:
  "ps_sandbox_policy (build_live_permission_state (Some sp) (Some ap)) = sp"
  "ps_approval_policy (build_live_permission_state (Some sp) (Some ap)) = ap"
  by (simp_all add: build_live_permission_state_def build_permission_state_def Let_def split_beta)

text \<open>
  Setting the permissions of a session changes its policies and nothing of other sessions, and the grants that were
  remembered are gone also for a run that is under way: it shares the memory. That run keeps the state it began with.
\<close>

theorem setting_permissions_forgets_grants:
  assumes "rp_contexts rt (permission_state_key session) = Some c" and "pred_option known session"
  shows "\<exists>st rt'. handle_permission_set known rid session sandbox approval rt
      = (Rpc_response rid (Permission_set_response session st), rt')
    \<and> rp_contexts rt' = (rp_contexts rt)(permission_state_key session \<mapsto> \<lparr>spc_state = st, spc_memory = spc_memory c\<rparr>)
    \<and> rp_memories rt' = (rp_memories rt)(spc_memory c := empty_memory) \<and> rp_approvals rt' = rp_approvals rt
    \<and> ps_sandbox_policy st = (case sandbox of None \<Rightarrow> ps_sandbox_policy (spc_state c) | Some p \<Rightarrow> p)
    \<and> ps_approval_policy st = (case approval of None \<Rightarrow> ps_approval_policy (spc_state c) | Some p \<Rightarrow> p)"
proof -
  have "clear_memory m = empty_memory" for m by (cases m) (simp add: clear_memory_def empty_memory_def)
  with assms show ?thesis
    by (cases session) (simp_all add: handle_permission_set_def get_or_create_permission_context_def live_state Let_def)
qed

text \<open>
  The capabilities a session reports, which also reach the model, do not follow a policy that is stricter than the
  default: with a read-only sandbox they still tell of a workspace that may be written. The capabilities that the
  planner derives from the policy are other ones.
\<close>

theorem read_only_capabilities_are_wrong:
  assumes "pred_option known session"
  shows "\<exists>st rt'. handle_permission_set known rid session (Some (Read_only_policy n)) approval rt
      = (Rpc_response rid (Permission_set_response session st), rt')
    \<and> ec_filesystem_access (ps_effective_capabilities st) = Workspace_write
    \<and> ec_filesystem_access (derive_effective_capabilities (ps_sandbox_policy st) (ps_approval_policy st)) = Read_only"
proof -
  obtain c rt1 where g: "get_or_create_permission_context session rt = (c, rt1)" by (rule prod.exhaust)
  have "\<not> (case session of None \<Rightarrow> False | Some i \<Rightarrow> \<not> known i)" using assms by (cases session) simp_all
  with g show ?thesis
    by (simp add: handle_permission_set_def live_state derive_effective_capabilities_def Let_def)
      (simp add: build_live_permission_state_def build_permission_state_def build_default_permission_state_def Let_def)
qed

text \<open>
  A session that is created takes over the policies of the workspace default; one that the server meets for the
  first time otherwise, because it was created before the server started, does not.
\<close>

theorem created_sessions_inherit:
  assumes "rp_contexts rt (permission_state_key None) = Some d" and "i \<noteq> permission_state_key None"
  shows "(\<exists>c. rp_contexts (create_session_context i rt) i = Some c \<and> spc_state c = spc_state d
            \<and> rp_memories (create_session_context i rt) (spc_memory c) = empty_memory)
    \<and> (rp_contexts rt i = None \<longrightarrow>
         spc_state (fst (get_or_create_permission_context (Some i) rt)) = build_live_permission_state None None)"
  using assms
  by (auto simp: create_session_context_def get_or_create_permission_context_def set_context_def permission_state_key_def
      Let_def split: option.splits)

section \<open>Runs that wait for approvals\<close>

text \<open>What happens: a run asks, a client submits a decision, a run goes on with the decision, or it is cancelled.\<close>

datatype approval_move =
    Asked string approval_request
  | Submitted ustr string approval_decision
  | Resumed string string
  | Gave_up string string

datatype approval_record = Accepted string string approval_decision | Delivered string string approval_decision

fun accepted :: "string \<Rightarrow> approval_decision \<Rightarrow> 'e rpc_line \<Rightarrow> approval_record list" where
  "accepted i d (Rpc_response _ (Approval_submit_response _ d')) = [Accepted i (ad_request_id d) d']"
| "accepted i d _ = []"

definition awaiting :: "string \<Rightarrow> string \<Rightarrow> rpc_runtime \<Rightarrow> approval_decision list" where
  "awaiting i request_id rt =
     (case map_of (session_approvals i rt) request_id of
        None \<Rightarrow> []
      | Some pv \<Rightarrow> (case pv_response pv of None \<Rightarrow> [] | Some d \<Rightarrow> [d]))"

fun approval_step ::
    "(contract_error \<Rightarrow> ustr) \<Rightarrow> (string \<Rightarrow> bool) \<Rightarrow> approval_move \<Rightarrow> rpc_runtime \<Rightarrow> rpc_runtime \<times> approval_record list" where
  "approval_step describe known (Asked i request) rt =
     (case begin_approval i request rt of None \<Rightarrow> (rt, []) | Some rt' \<Rightarrow> (rt', []))"
| "approval_step describe known (Submitted rid i d) rt =
     (let (l, rt') = handle_approval_submit describe known rid i d rt in (rt', accepted i d (l :: nat rpc_line)))"
| "approval_step describe known (Resumed i request_id) rt =
     (case awaiting i request_id rt of
        [] \<Rightarrow> (rt, [])
      | d # _ \<Rightarrow> (forget_approval i request_id rt, [Delivered i request_id d]))"
| "approval_step describe known (Gave_up i request_id) rt = (forget_approval i request_id rt, [])"

fun approval_steps ::
    "(contract_error \<Rightarrow> ustr) \<Rightarrow> (string \<Rightarrow> bool) \<Rightarrow> approval_move list \<Rightarrow> rpc_runtime \<Rightarrow> rpc_runtime \<times> approval_record list" where
  "approval_steps describe known [] rt = (rt, [])"
| "approval_steps describe known (x # xs) rt =
     (let (rt, l) = approval_step describe known x rt; (rt, ls) = approval_steps describe known xs rt in (rt, l @ ls))"

definition acceptances :: "string \<Rightarrow> string \<Rightarrow> approval_record list \<Rightarrow> approval_decision list" where
  "acceptances i request_id ls =
     concat (map (\<lambda>l. case l of Accepted j k d \<Rightarrow> if j = i \<and> k = request_id then [d] else [] | _ \<Rightarrow> []) ls)"

definition deliveries :: "string \<Rightarrow> string \<Rightarrow> approval_record list \<Rightarrow> approval_decision list" where
  "deliveries i request_id ls =
     concat (map (\<lambda>l. case l of Delivered j k d \<Rightarrow> if j = i \<and> k = request_id then [d] else [] | _ \<Rightarrow> []) ls)"

lemma record_simps [simp]:
  "acceptances i k [] = []" "acceptances i k (ls @ ms) = acceptances i k ls @ acceptances i k ms"
  "acceptances i k [Accepted j l d] = (if j = i \<and> l = k then [d] else [])" "acceptances i k [Delivered j l d] = []"
  "deliveries i k [] = []" "deliveries i k (ls @ ms) = deliveries i k ls @ deliveries i k ms"
  "deliveries i k [Delivered j l d] = (if j = i \<and> l = k then [d] else [])" "deliveries i k [Accepted j l d] = []"
  by (simp_all add: acceptances_def deliveries_def)

text \<open>The approvals of a session after an update and after one is forgotten.\<close>

lemma session_approvals_update [simp]:
  "session_approvals j (rt\<lparr>rp_approvals := AList.update i ps (rp_approvals rt)\<rparr>) = (if j = i then ps else session_approvals j rt)"
  by (simp add: session_approvals_def AList.update_conv)

lemma forget_conv:
  "map_of (session_approvals j (forget_approval i k rt)) l = (if j = i \<and> l = k then None else map_of (session_approvals j rt) l)"
proof (cases "map_of (rp_approvals rt) i")
  case None
  then show ?thesis by (auto simp: forget_approval_def session_approvals_def)
next
  case (Some ps)
  show ?thesis
  proof (cases "AList.delete k ps = []")
    case True
    then have "map_of ps l = None" if "l \<noteq> k" for l
      using that AList.delete_conv [of k ps] by (metis fun_upd_other map_of.simps(1))
    with True Some show ?thesis
      by (auto simp: forget_approval_def session_approvals_def AList.delete_conv)
  next
    case False
    with Some show ?thesis
      by (auto simp: forget_approval_def session_approvals_def AList.update_conv AList.delete_conv Let_def)
  qed
qed

lemma forget_awaiting: "awaiting j l (forget_approval i k rt) = (if j = i \<and> l = k then [] else awaiting j l rt)"
  by (simp add: awaiting_def forget_conv)

lemma ask_awaiting:
  "begin_approval i request rt = Some rt' \<Longrightarrow> awaiting j l rt' = awaiting j l rt"
  by (auto simp: begin_approval_def awaiting_def AList.update_conv split: if_splits)

text \<open>A submitted decision is accepted when nothing answered the request yet, or leaves everything as it is.\<close>

lemma submit_cases:
  assumes "handle_approval_submit describe known rid i d rt = (l, rt')"
  obtains (refused) "rt' = rt" and "accepted i d l = []"
  | (accepted) pv d' where "map_of (session_approvals i rt) (ad_request_id d) = Some pv" and "pv_response pv = None"
      and "normalize_approval_decision (pv_request pv) d = Inr d'" and "accepted i d l = [Accepted i (ad_request_id d) d']"
      and "rt' = rt\<lparr>rp_approvals := AList.update i
             (AList.update (ad_request_id d) (pv\<lparr>pv_response := Some d'\<rparr>) (session_approvals i rt)) (rp_approvals rt)\<rparr>"
  using assms
  by (fastforce simp: handle_approval_submit_def unknown_session_def Let_def
      split: if_splits option.splits sum.splits)

lemma step_keeps_order:
  assumes "approval_step describe known x rt = (rt', l)"
    and "subseq (D @ awaiting i k rt) A"
  shows "subseq (D @ deliveries i k l @ awaiting i k rt') (A @ acceptances i k l)"
proof (cases x)
  case (Asked j request)
  with assms show ?thesis by (cases "begin_approval j request rt") (auto simp: ask_awaiting)
next
  case (Submitted rid j d)
  obtain line rt1 where h: "handle_approval_submit describe known rid j d rt = (line :: nat rpc_line, rt1)" by (rule prod.exhaust)
  from h show ?thesis
  proof (cases rule: submit_cases)
    case refused
    with Submitted assms h show ?thesis by simp
  next
    case (accepted pv d')
    then have "awaiting j (ad_request_id d) rt = []" by (simp add: awaiting_def)
    moreover have "awaiting i k rt1 = (if i = j \<and> k = ad_request_id d then [d'] else awaiting i k rt)"
      by (simp add: accepted(5) awaiting_def AList.update_conv)
    moreover have "l = [Accepted j (ad_request_id d) d']" and "rt' = rt1"
      using Submitted assms(1) h accepted(4) by simp_all
    ultimately show ?thesis using assms(2) by (auto simp: list_emb_append_mono)
  qed
next
  case (Resumed j m)
  have one: "awaiting j m rt = [] \<or> (\<exists>d. awaiting j m rt = [d])"
    by (simp add: awaiting_def split: option.split)
  then show ?thesis
  proof
    assume "awaiting j m rt = []"
    with Resumed assms show ?thesis by simp
  next
    assume "\<exists>d. awaiting j m rt = [d]"
    then obtain d where "awaiting j m rt = [d]" by blast
    with Resumed assms show ?thesis by (auto simp: forget_awaiting)
  qed
next
  case (Gave_up j m)
  have "subseq D (D @ awaiting i k rt)" by (simp add: list_emb_prefix)
  with assms(2) have "subseq D A" by (rule subseq_order.trans [rotated])
  with Gave_up assms show ?thesis by (auto simp: forget_awaiting)
qed

lemma steps_keep_order:
  "approval_steps describe known xs rt = (rt', ls) \<Longrightarrow> subseq (D @ awaiting i k rt) A \<Longrightarrow>
     subseq (D @ deliveries i k ls @ awaiting i k rt') (A @ acceptances i k ls)"
proof (induction xs arbitrary: rt ls D A)
  case (Cons x xs)
  obtain rt1 l where one: "approval_step describe known x rt = (rt1, l)" by (rule prod.exhaust)
  from Cons.prems(1) one obtain m where two: "approval_steps describe known xs rt1 = (rt', m)" and ls: "ls = l @ m"
    by (auto split: prod.splits)
  have "subseq ((D @ deliveries i k l) @ awaiting i k rt1) (A @ acceptances i k l)"
    using step_keeps_order [OF one Cons.prems(2)] by simp
  from Cons.IH [OF two this] show ?case by (simp add: ls)
qed simp

text \<open>The approvals that are pending were asked for.\<close>

definition asked_among :: "approval_move set \<Rightarrow> rpc_runtime \<Rightarrow> bool" where
  "asked_among xs rt \<longleftrightarrow>
     (\<forall>i k pv. map_of (session_approvals i rt) k = Some pv \<longrightarrow> Asked i (pv_request pv) \<in> xs \<and> approval_id (pv_request pv) = k)"

definition answers_request :: "approval_move set \<Rightarrow> approval_record \<Rightarrow> bool" where
  "answers_request xs l \<longleftrightarrow>
     (case l of
        Accepted i k d' \<Rightarrow>
          (\<exists>request rid d. Asked i request \<in> xs \<and> Submitted rid i d \<in> xs \<and> approval_id request = k
             \<and> ad_request_id d = k \<and> normalize_approval_decision request d = Inr d')
      | _ \<Rightarrow> True)"

lemma step_answers:
  assumes "approval_step describe known x rt = (rt', l)" and "asked_among xs rt" and "x \<in> xs"
  shows "asked_among xs rt' \<and> (\<forall>a \<in> set l. answers_request xs a)"
proof (cases x)
  case (Asked j request)
  with assms show ?thesis
    by (auto simp: begin_approval_def asked_among_def AList.update_conv split: option.splits if_splits)
next
  case (Submitted rid j d)
  obtain line rt1 where h: "handle_approval_submit describe known rid j d rt = (line :: nat rpc_line, rt1)" by (rule prod.exhaust)
  from h show ?thesis
  proof (cases rule: submit_cases)
    case refused
    with Submitted assms h show ?thesis by simp
  next
    case (accepted pv d')
    with assms(2) have "Asked j (pv_request pv) \<in> xs" "approval_id (pv_request pv) = ad_request_id d"
      by (auto simp: asked_among_def)
    moreover have "asked_among xs rt1"
      using assms(2) accepted(1) by (auto simp: accepted(5) asked_among_def AList.update_conv)
    moreover have "l = [Accepted j (ad_request_id d) d']" and "rt' = rt1"
      using Submitted assms(1) h accepted(4) by simp_all
    ultimately show ?thesis using Submitted assms(3) accepted(3) by (auto simp: answers_request_def)
  qed
next
  case (Resumed j m)
  with assms show ?thesis
    by (auto simp: asked_among_def forget_conv answers_request_def split: list.splits if_splits)
next
  case (Gave_up j m)
  with assms show ?thesis by (auto simp: asked_among_def forget_conv split: if_splits)
qed

lemma steps_answer:
  "approval_steps describe known xs rt = (rt', ls) \<Longrightarrow> asked_among ys rt \<Longrightarrow> set xs \<subseteq> ys \<Longrightarrow>
     \<forall>a \<in> set ls. answers_request ys a"
proof (induction xs arbitrary: rt ls)
  case (Cons x xs)
  obtain rt1 l where one: "approval_step describe known x rt = (rt1, l)" by (rule prod.exhaust)
  from Cons.prems(1) one obtain m where two: "approval_steps describe known xs rt1 = (rt', m)" and ls: "ls = l @ m"
    by (auto split: prod.splits)
  from step_answers [OF one Cons.prems(2)] Cons.prems(3) Cons.IH [OF two] show ?case by (auto simp: ls)
qed simp

text \<open>
  C11: A run goes on with what a client decided: the decisions delivered for a request are, in order, among those accepted
  for it, no decision is delivered twice, and an accepted decision is what normalizing a submitted one against the
  request of the run gives.
\<close>

theorem approvals_are_answered_once:
  assumes "approval_steps describe known xs new_runtime_state = (rt, ls)"
  shows "subseq (deliveries i k ls) (acceptances i k ls) \<and> (\<forall>a \<in> set ls. answers_request (set xs) a)"
proof -
  have none: "awaiting i k new_runtime_state = []" "asked_among (set xs) new_runtime_state"
    by (simp_all add: awaiting_def session_approvals_def new_runtime_state_def asked_among_def)
  have "subseq (deliveries i k ls @ awaiting i k rt) (acceptances i k ls)"
    using steps_keep_order [OF assms, of "[]" i k "[]"] none by simp
  moreover have "subseq (deliveries i k ls) (deliveries i k ls @ awaiting i k rt)" by (simp add: list_emb_prefix)
  ultimately have "subseq (deliveries i k ls) (acceptances i k ls)" by (rule subseq_order.trans [rotated])
  with steps_answer [OF assms none(2)] show ?thesis by blast
qed

section \<open>Concrete permissions and approvals\<close>

definition sample_runtime :: rpc_runtime where
  "sample_runtime = snd (get_or_create_permission_context None new_runtime_state)"

lemma sample_default_context:
  "rp_contexts sample_runtime (permission_state_key None)
     = Some \<lparr>spc_state = build_live_permission_state None None, spc_memory = 0\<rparr>"
  by (simp add: sample_runtime_def get_or_create_permission_context_def set_context_def new_runtime_state_def Let_def)

theorem setting_permissions_forgets_grants_witness:
  "\<exists>st rt'. handle_permission_set (\<lambda>_. False) [7] None None None sample_runtime
      = (Rpc_response [7] (Permission_set_response None st) :: nat rpc_line, rt')
    \<and> rp_memories rt' = (rp_memories sample_runtime)(0 := empty_memory)"
  using setting_permissions_forgets_grants [OF sample_default_context, of "\<lambda>_. False" "[7]" None None]
  by (auto simp del: fun_upd_apply)

theorem read_only_capabilities_are_wrong_witness:
  "\<exists>st rt'. handle_permission_set (\<lambda>i. i = ''s'') [7] (Some ''s'') (Some (Read_only_policy Restricted)) None sample_runtime
      = (Rpc_response [7] (Permission_set_response (Some ''s'') st) :: nat rpc_line, rt')
    \<and> ec_filesystem_access (ps_effective_capabilities st) = Workspace_write"
  using read_only_capabilities_are_wrong [of "\<lambda>i. i = ''s''" "Some ''s''" "[7]" Restricted None sample_runtime] by auto

theorem created_sessions_inherit_witness:
  "\<exists>c. rp_contexts (create_session_context ''s'' sample_runtime) ''s'' = Some c
    \<and> spc_state c = build_live_permission_state None None"
  using created_sessions_inherit [OF sample_default_context, of "''s''"] by (auto simp: permission_state_key_def)

text \<open>A request that is asked, answered twice and resumed: the second answer is refused.\<close>

theorem approvals_are_answered_once_witness:
  "\<exists>rt ls. approval_steps (\<lambda>_. []) (\<lambda>_. True)
      [Asked ''s'' sample_network_request, Submitted [1] ''s'' (sample_answer (Some ''allow-once'')),
       Submitted [2] ''s'' (sample_answer (Some ''allow-once'')), Resumed ''s'' ''shell-1''] new_runtime_state = (rt, ls)
    \<and> length (acceptances ''s'' ''shell-1'' ls) = 1
    \<and> subseq (deliveries ''s'' ''shell-1'' ls) (acceptances ''s'' ''shell-1'' ls)"
proof -
  obtain rt ls where r: "approval_steps (\<lambda>_. []) (\<lambda>_. True)
      [Asked ''s'' sample_network_request, Submitted [1] ''s'' (sample_answer (Some ''allow-once'')),
       Submitted [2] ''s'' (sample_answer (Some ''allow-once'')), Resumed ''s'' ''shell-1''] new_runtime_state = (rt, ls)"
    by (rule prod.exhaust)
  have id: "ad_request_id (sample_answer n) = ''shell-1''" "approval_id sample_network_request = ''shell-1''" for n
    by (simp_all add: sample_answer_def approval_id_def sample_network_request_def approval_request_base.truncate_def)
  have "length (acceptances ''s'' ''shell-1'' ls) = 1"
    using r by (simp add: id handle_approval_submit_def begin_approval_def session_approvals_def new_runtime_state_def
        sample_normalized awaiting_def Let_def acceptances_def) auto
  with r approvals_are_answered_once [OF r, of "''s''" "''shell-1''"] show ?thesis by blast
qed

end
