(* ===== verification/Session_Names.thy ===== *)
theory Session_Names
  imports Session_Append
begin

text \<open>
  The names of sessions (\<open>normalize_session_name\<close> of \<open>session/jsonl.py\<close>): what the normalization gives fits the
  pattern of the contract, and is left alone when it is normalized again.
\<close>

text \<open>Letters, digits and dashes without two dashes in a row; \<open>d\<close> tells that a dash came before.\<close>

fun single_dashes :: "bool \<Rightarrow> string \<Rightarrow> bool" where
  "single_dashes d [] \<longleftrightarrow> True"
| "single_dashes d (c # s) \<longleftrightarrow>
     (if c = CHR ''-'' then \<not> d \<and> single_dashes True s else session_name_char c \<and> single_dashes False s)"

lemma name_code_char: "name_code c \<Longrightarrow> session_name_char (char_of c) \<and> char_of c \<noteq> CHR ''-''"
proof -
  assume "name_code c"
  then have "c < 256" and "c \<noteq> 45" by (auto simp: name_code_def)
  then have code: "of_char (char_of c :: char) = c" by (simp add: of_char_of)
  have "char_of c \<noteq> CHR ''-''"
  proof
    assume "char_of c = CHR ''-''"
    then have "of_char (char_of c :: char) = (45 :: nat)" by simp
    with code \<open>c \<noteq> 45\<close> show False by simp
  qed
  with code \<open>name_code c\<close> show ?thesis by (auto simp: name_code_def session_name_char_def)
qed

lemma name_char_code: "session_name_char c \<Longrightarrow> name_code (of_char c) \<and> c \<noteq> CHR ''-''"
  by (auto simp: session_name_char_def name_code_def Let_def)

lemma dash_runs_single: "single_dashes d (dash_runs d s)"
  by (induction d s rule: dash_runs.induct) (auto simp: name_code_char)

lemma single_dashes_weaken: "single_dashes True s \<Longrightarrow> single_dashes False s"
  by (cases s) auto

lemma strip_left: "single_dashes False s \<Longrightarrow> single_dashes True (dropWhile (\<lambda>c. c = CHR ''-'') s)"
  by (cases s; cases "tl s") (auto split: if_splits)

lemma single_dashes_prefix: "single_dashes d (s @ t) \<Longrightarrow> single_dashes d s"
  by (induction s arbitrary: d) auto

lemma strip_right: "single_dashes d s \<Longrightarrow> single_dashes d (rev (dropWhile P (rev s)))"
  using single_dashes_prefix [of d "rev (dropWhile P (rev s))" "rev (takeWhile P (rev s))"]
  by (simp flip: rev_append)

lemma stripped_last: "rev (dropWhile P (rev s)) \<noteq> [] \<Longrightarrow> \<not> P (last (rev (dropWhile P (rev s))))"
  by (simp add: last_rev hd_dropWhile)

text \<open>Such a text, without a dash at either side, is a list of words.\<close>

lemma single_dashes_words:
  "single_dashes d s \<Longrightarrow> (s \<noteq> [] \<Longrightarrow> last s \<noteq> CHR ''-'') \<Longrightarrow>
     (\<forall>w \<in> set (split_on CHR ''-'' s). list_all session_name_char w) \<and> (\<forall>w \<in> set (tl (split_on CHR ''-'' s)). w \<noteq> [])
     \<and> (d \<longrightarrow> s \<noteq> [] \<longrightarrow> hd (split_on CHR ''-'' s) \<noteq> [])"
proof (induction s arbitrary: d)
  case (Cons c s)
  obtain w ws where w: "split_on CHR ''-'' s = w # ws" by (cases "split_on CHR ''-'' s") auto
  show ?case
  proof (cases "c = CHR ''-''")
    case True
    with Cons.prems have "s \<noteq> []" and "\<not> d" and "single_dashes True s" by auto
    moreover from this Cons.prems(2) have "last s \<noteq> CHR ''-''" by simp
    ultimately show ?thesis using Cons.IH [of True] True w by auto
  next
    case False
    with Cons.prems have "single_dashes False s" and "session_name_char c" and "s \<noteq> [] \<Longrightarrow> last s \<noteq> CHR ''-''" by auto
    with Cons.IH [of False] False w show ?thesis by auto
  qed
qed simp

text \<open>Text that is a name already.\<close>

lemma dash_runs_name: "single_dashes d s \<Longrightarrow> dash_runs d (lit s) = s"
proof (induction s arbitrary: d)
  case (Cons c s)
  then show ?case by (cases "c = CHR ''-''") (auto simp: lit_def name_code_def dest!: name_char_code)
qed (simp add: lit_def)

text \<open>What the normalization gives, before it looks at the result.\<close>

definition name_like :: "string \<Rightarrow> bool" where
  "name_like s \<longleftrightarrow> single_dashes True s \<and> (s \<noteq> [] \<longrightarrow> last s \<noteq> CHR ''-'')"

lemma strip_dashes_name_like: "single_dashes False s \<Longrightarrow> name_like (strip_dashes s)"
  unfolding name_like_def strip_dashes_def
  using strip_right [OF strip_left] stripped_last [where P = "\<lambda>c. c = CHR ''-''"] by blast

lemma name_like_valid: "name_like s \<Longrightarrow> s \<noteq> [] \<Longrightarrow> valid_session_name s"
proof -
  assume "name_like s" and ne: "s \<noteq> []"
  obtain w ws where w: "split_on CHR ''-'' s = w # ws" by (cases "split_on CHR ''-'' s") auto
  from single_dashes_words [of True s] \<open>name_like s\<close> ne w show ?thesis
    by (auto simp: valid_session_name_def name_like_def)
qed

lemma name_like_chars: "single_dashes d s \<Longrightarrow> c \<in> set s \<Longrightarrow> c = CHR ''-'' \<or> session_name_char c"
  by (induction d s rule: single_dashes.induct) (auto split: if_splits)

lemma name_like_strip: "name_like s \<Longrightarrow> strip (lit s) = lit s"
proof (rule strip_stripped)
  assume "name_like s"
  have "\<not> py_isspace (of_char c)" if "c \<in> set s" for c
  proof -
    from \<open>name_like s\<close> that have "c = CHR ''-'' \<or> session_name_char c" by (auto simp: name_like_def dest: name_like_chars)
    then show ?thesis by (auto simp: session_name_char_def py_isspace_def Let_def)
  qed
  then show "stripped (lit s)" by (cases "s = []") (auto simp: stripped_def lit_def hd_map last_map)
qed

lemma name_like_strip_dashes: "name_like s \<Longrightarrow> strip_dashes s = s"
proof (cases "s = []")
  case False
  assume "name_like s"
  then have "hd s \<noteq> CHR ''-''" and "hd (rev s) \<noteq> CHR ''-''"
    using False by (cases s; auto simp: name_like_def hd_rev split: if_splits)+
  then show ?thesis using False by (simp add: strip_dashes_def dropWhile_id)
qed (simp add: strip_dashes_def)

lemma name_like_again: "name_like s \<Longrightarrow> strip_dashes (dash_runs False (strip (lit s))) = s"
  by (simp add: name_like_strip dash_runs_name single_dashes_weaken name_like_def name_like_strip_dashes)

lemma normalized_name_cases:
  "normalize_session_name lower name = Inl Name_without_letters
    \<or> (\<exists>n. normalize_session_name lower name = Inr n \<and> valid_session_name n
         \<and> normalize_session_name (\<lambda>s. s) (lit n) = Inr n)"
proof -
  define n where "n = strip_dashes (dash_runs False (lower (strip name)))"
  have like: "name_like n" unfolding n_def by (rule strip_dashes_name_like) (rule dash_runs_single)
  show ?thesis
  proof (cases "n = []")
    case True
    then show ?thesis by (simp add: normalize_session_name_def flip: n_def)
  next
    case False
    with like have "valid_session_name n" by (rule name_like_valid)
    with False name_like_again [OF like] show ?thesis by (simp add: normalize_session_name_def flip: n_def)
  qed
qed

text \<open>
  A name is refused only for having no letter or digit: what is left otherwise fits the pattern of the contract, so
  that the validation of the pattern never raises, and normalizing it again changes nothing.
\<close>

theorem session_names_are_normal:
  "normalize_session_name lower name = Inl Name_without_letters
    \<or> (\<exists>n. normalize_session_name lower name = Inr n \<and> valid_session_name n
         \<and> normalize_session_name (\<lambda>s. s) (lit n) = Inr n)"
  by (rule normalized_name_cases)

end
