(* ===== verification/Rpc_Server.thy ===== *)
theory Rpc_Server
  imports Rpc_Run Rpc_Permissions Session_Names
begin

text \<open>
  The RPC server, after \<open>rpc/stdio.py\<close> and \<open>rpc/handlers/sessions.py\<close>: a line of JSON is validated and dispatched
  to its handler; requests of one session wait for each other; and one writer puts the answers out. The handlers
  that need other parts of the program (the run loop, models, secrets) are parameters here.
\<close>

section \<open>Handlers of sessions\<close>

record session_env =
  sv_describe :: "append_error \<Rightarrow> ustr"
  sv_lower :: "ustr \<Rightarrow> ustr"
  sv_workspace_root :: string
  sv_now :: nat
  sv_workspace_metadata :: "session_metadata list"

type_synonym session_store = "string \<rightharpoonup> session_files"

definition handle_session_name ::
    "session_env \<Rightarrow> string \<Rightarrow> ustr \<Rightarrow> ustr \<Rightarrow> session_store \<Rightarrow> 'e rpc_line list \<times> session_store" where
  "handle_session_name env i name rid sessions =
     (case sessions i of
        None \<Rightarrow> ([unknown_session rid i], sessions)
      | Some f \<Rightarrow>
          (let (f', written) = append_session_name_to_session (sv_lower env) (sv_workspace_root env) (sv_now env) name
                 (sv_workspace_metadata env) f;
               sessions = sessions(i \<mapsto> f') in
           case written of
             Inr n \<Rightarrow> ([Rpc_response rid (Session_name_response i n)], sessions)
           | Inl e \<Rightarrow>
               (case e of
                  Name_invalid \<Rightarrow> ([], sessions)
                | Name_without_letters \<Rightarrow> ([Rpc_error (Some rid) Invalid_request (sv_describe env e)], sessions)
                | Name_in_use \<Rightarrow> ([Rpc_error (Some rid) Invalid_request (sv_describe env e)], sessions)
                | _ \<Rightarrow> ([Rpc_error (Some rid) Invalid_session (sv_describe env e)], sessions))))"

definition handle_session_mode_set ::
    "session_env \<Rightarrow> string \<Rightarrow> run_mode \<Rightarrow> ustr \<Rightarrow> session_store \<Rightarrow> 'e rpc_line list \<times> session_store" where
  "handle_session_mode_set env i mode rid sessions =
     (case sessions i of
        None \<Rightarrow> ([unknown_session rid i], sessions)
      | Some f \<Rightarrow>
          (case update_session_mode mode f of
             (f', Inr md) \<Rightarrow> ([Rpc_response rid (Session_mode_set_response i (md_current_mode md))], sessions(i \<mapsto> f'))
           | (f', Inl e) \<Rightarrow> ([Rpc_error (Some rid) Invalid_session (sv_describe env e)], sessions(i \<mapsto> f'))))"

text \<open>How a compaction and a preview come out is a parameter.\<close>

datatype session_failure = Bad_session ustr | Other_failure ustr

definition handle_session_compact ::
    "(session_files \<Rightarrow> session_files \<times> (session_failure, string \<times> string) result) \<Rightarrow> string \<Rightarrow> ustr \<Rightarrow> session_store
     \<Rightarrow> 'e rpc_line list \<times> session_store" where
  "handle_session_compact compact i rid sessions =
     (case sessions i of
        None \<Rightarrow> ([unknown_session rid i], sessions)
      | Some f \<Rightarrow>
          (case compact f of
             (f', Inr (compaction_id, run_id)) \<Rightarrow>
               ([Rpc_response rid (Session_compact_response compaction_id run_id)], sessions(i \<mapsto> f'))
           | (f', Inl (Bad_session message)) \<Rightarrow> ([Rpc_error (Some rid) Invalid_session message], sessions(i \<mapsto> f'))
           | (f', Inl (Other_failure message)) \<Rightarrow> ([Rpc_error (Some rid) Internal_error message], sessions(i \<mapsto> f'))))"

definition handle_session_preview ::
    "(session_files \<Rightarrow> (ustr, json) result) \<Rightarrow> string \<Rightarrow> ustr \<Rightarrow> session_store \<Rightarrow> 'e rpc_line list \<times> session_store" where
  "handle_session_preview preview i rid sessions =
     (case sessions i of
        None \<Rightarrow> ([unknown_session rid i], sessions)
      | Some f \<Rightarrow>
          (case preview f of
             Inr j \<Rightarrow> ([Rpc_response rid (Other_response j)], sessions)
           | Inl message \<Rightarrow> ([Rpc_error (Some rid) Invalid_session message], sessions)))"

section \<open>Dispatch\<close>

record rpc_world =
  rw_sessions :: session_store
  rw_runtime :: rpc_runtime
  rw_queue :: follow_up_state

record rpc_services =
  rx_session :: session_env
  rx_decision_error :: "contract_error \<Rightarrow> ustr"
  rx_compact :: "session_files \<Rightarrow> session_files \<times> (session_failure, string \<times> string) result"
  rx_preview :: "session_files \<Rightarrow> (ustr, json) result"

text \<open>The lines of an answer, what the queue sends to other requests, and the server afterwards.\<close>

type_synonym 'e answer = "'e rpc_line list \<times> queue_effect list \<times> rpc_world"

definition on_sessions ::
    "(session_store \<Rightarrow> 'e rpc_line list \<times> session_store) \<Rightarrow> rpc_world \<Rightarrow> 'e answer" where
  "on_sessions handle w = (let (ls, sessions) = handle (rw_sessions w) in (ls, [], w\<lparr>rw_sessions := sessions\<rparr>))"

definition on_runtime :: "(rpc_runtime \<Rightarrow> 'e rpc_line \<times> rpc_runtime) \<Rightarrow> rpc_world \<Rightarrow> 'e answer" where
  "on_runtime handle w = (let (l, rt) = handle (rw_runtime w) in ([l], [], w\<lparr>rw_runtime := rt\<rparr>))"

definition on_queue ::
    "(follow_up_state \<Rightarrow> 'e rpc_line \<times> queue_effect list \<times> follow_up_state) \<Rightarrow> rpc_world \<Rightarrow> 'e answer" where
  "on_queue handle w = (let (l, effects, q) = handle (rw_queue w) in ([l], effects, w\<lparr>rw_queue := q\<rparr>))"

definition known_session :: "rpc_world \<Rightarrow> string \<Rightarrow> bool" where
  "known_session w i \<longleftrightarrow> rw_sessions w i \<noteq> None"

definition dispatch ::
    "rpc_services \<Rightarrow> (rpc_envelope \<Rightarrow> rpc_world \<Rightarrow> 'e answer) \<Rightarrow> rpc_envelope \<Rightarrow> rpc_world \<Rightarrow> 'e answer" where
  "dispatch services others r w =
     (let rid = re_id r; env = rx_session services in
      case re_request r of
        Session_name i name \<Rightarrow> on_sessions (handle_session_name env i name rid) w
      | Session_mode_set i mode \<Rightarrow> on_sessions (handle_session_mode_set env i mode rid) w
      | Session_compact i \<Rightarrow> on_sessions (handle_session_compact (rx_compact services) i rid) w
      | Session_preview i \<Rightarrow> on_sessions (handle_session_preview (rx_preview services) i rid) w
      | Run_enqueue i prompt mode \<Rightarrow> on_queue (handle_run_enqueue rid i prompt mode) w
      | Run_interrupt i promote \<Rightarrow> on_queue (handle_run_interrupt rid i promote) w
      | Permission_get session \<Rightarrow> on_runtime (handle_permission_get (known_session w) rid session) w
      | Permission_set session sandbox approval \<Rightarrow>
          on_runtime (handle_permission_set (known_session w) rid session sandbox approval) w
      | Approval_submit i d \<Rightarrow>
          on_runtime (handle_approval_submit (rx_decision_error services) (known_session w) rid i d) w
      | _ \<Rightarrow> others r w)"

definition extract_request_id :: "json \<Rightarrow> ustr option" where
  "extract_request_id j = Option.bind (object_fields j) (\<lambda>fs. Option.bind (map_of fs (lit ''id'')) json_text)"

text \<open>\<open>parse\<close> is the JSON parser of the standard library.\<close>

definition handle_rpc_json_line ::
    "(ustr \<Rightarrow> json option) \<Rightarrow> request_codec \<Rightarrow> rpc_services \<Rightarrow> (rpc_envelope \<Rightarrow> rpc_world \<Rightarrow> 'e answer) \<Rightarrow> ustr
     \<Rightarrow> rpc_world \<Rightarrow> 'e answer" where
  "handle_rpc_json_line parse codec services others line w =
     (case parse line of
        None \<Rightarrow> ([Rpc_error None Invalid_json (lit ''Invalid JSON request'')], [], w)
      | Some j \<Rightarrow>
          (case validate_request codec j of
             None \<Rightarrow> ([Rpc_error (extract_request_id j) Invalid_request (lit ''Invalid RPC request'')], [], w)
           | Some r \<Rightarrow> dispatch services others r w))"

section \<open>Requests that wait for each other\<close>

definition serialized_commands :: "string list" where
  "serialized_commands = [''run.start'', ''session.compact'', ''session.name'', ''session.preview'', ''onboarding.start'']"

definition extract_session_id_for_serialization :: "(ustr \<Rightarrow> json option) \<Rightarrow> ustr \<Rightarrow> ustr option" where
  "extract_session_id_for_serialization parse line =
     do {
       j \<leftarrow> parse line;
       fs \<leftarrow> object_fields j;
       command \<leftarrow> Option.bind (map_of fs (lit ''command'')) json_text;
       (if command \<in> set (map lit serialized_commands) then Some () else None);
       payload \<leftarrow> Option.bind (map_of fs (lit ''payload'')) object_fields;
       Option.bind (map_of payload (lit ''session_id'')) json_text
     }"

text \<open>
  The tasks that handle lines, numbered, with the session whose lock they need. \<open>asyncio\<close> gives a lock to those who
  wait for it in the order in which they asked. \<open>ga_started\<close> is the history of the tasks that went on.
\<close>

record request_gate =
  ga_running :: "(nat \<times> ustr option) list"
  ga_waiting :: "(nat \<times> ustr) list"
  ga_started :: "(nat \<times> ustr option) list"

definition new_gate :: request_gate where
  "new_gate = \<lparr>ga_running = [], ga_waiting = [], ga_started = []\<rparr>"

definition gate_start :: "nat \<times> ustr option \<Rightarrow> request_gate \<Rightarrow> request_gate" where
  "gate_start t g = g\<lparr>ga_running := ga_running g @ [t], ga_started := ga_started g @ [t]\<rparr>"

definition gate_arrive :: "nat \<Rightarrow> ustr option \<Rightarrow> request_gate \<Rightarrow> request_gate" where
  "gate_arrive n key g =
     (case key of
        None \<Rightarrow> gate_start (n, None) g
      | Some i \<Rightarrow>
          if Some i \<in> set (map snd (ga_running g)) \<or> i \<in> set (map snd (ga_waiting g))
            then g\<lparr>ga_waiting := ga_waiting g @ [(n, i)]\<rparr>
          else gate_start (n, Some i) g)"

definition gate_finish :: "nat \<Rightarrow> request_gate \<Rightarrow> request_gate" where
  "gate_finish n g =
     (case find (\<lambda>t. fst t = n) (ga_running g) of
        None \<Rightarrow> g
      | Some t \<Rightarrow>
          (let g = g\<lparr>ga_running := remove1 t (ga_running g)\<rparr> in
           case snd t of
             None \<Rightarrow> g
           | Some i \<Rightarrow>
               (case find (\<lambda>x. snd x = i) (ga_waiting g) of
                  None \<Rightarrow> g
                | Some x \<Rightarrow> gate_start (fst x, Some i) (g\<lparr>ga_waiting := remove1 x (ga_waiting g)\<rparr>))))"

section \<open>The writer\<close>

text \<open>The lines that wait for the writer, \<open>None\<close> for the end, and those on the pipe.\<close>

record 'l output_writer =
  ow_queue :: "'l option list"
  ow_written :: "'l list"
  ow_done :: bool

definition new_writer :: "'l output_writer" where
  "new_writer = \<lparr>ow_queue = [], ow_written = [], ow_done = False\<rparr>"

definition writer_put :: "'l option \<Rightarrow> 'l output_writer \<Rightarrow> 'l output_writer" where
  "writer_put l wr = wr\<lparr>ow_queue := ow_queue wr @ [l]\<rparr>"

text \<open>
  The writer takes what is there, up to the end. When the pipe fails, it has got \<open>n\<close> of the lines, and the rest of the
  batch is dropped.
\<close>

definition writer_wake :: "nat option \<Rightarrow> 'l output_writer \<Rightarrow> 'l output_writer" where
  "writer_wake fails wr =
     (if ow_done wr then wr
      else
        (let batch = map the (takeWhile (\<lambda>l. l \<noteq> None) (ow_queue wr));
             rest = dropWhile (\<lambda>l. l \<noteq> None) (ow_queue wr)
         in wr\<lparr>ow_queue := tl rest, ow_written := ow_written wr @ (case fails of None \<Rightarrow> batch | Some n \<Rightarrow> take n batch),
              ow_done := rest \<noteq> []\<rparr>))"

section \<open>Every line is answered once\<close>

lemma events_only: "only_events rid ls \<Longrightarrow> filter is_final ls = [] \<and> (\<forall>l \<in> set ls. line_id l = Some rid)"
  by (induction ls) auto

lemma answered_once:
  "answered_with rid ls \<Longrightarrow> length (filter is_final ls) = 1 \<and> (\<forall>l \<in> set ls. line_id l = Some rid)"
  unfolding answered_with_def by (auto simp: events_only dest: events_only)

lemma answered_by_one_line [simp]:
  "answered_with rid [Rpc_response rid r]" "answered_with rid [Rpc_error (Some rid) kind message]"
  unfolding answered_with_def by (rule exI [of _ "[]"]; simp)+

text \<open>What a handler promises: it answers under the id of its request.\<close>

locale rpc_handler =
  fixes lines_of :: "ustr \<Rightarrow> 's \<Rightarrow> 'e rpc_line list"
  assumes answers: "answered_with rid (lines_of rid s)"
begin

lemma one_final: "length (filter is_final (lines_of rid s)) = 1"
  using answered_once [OF answers] by blast

lemma own_id: "l \<in> set (lines_of rid s) \<Longrightarrow> line_id l = Some rid"
  using answered_once [OF answers] by blast

end

lemma name_answers: "answered_with rid (fst (handle_session_name env i name rid sessions))"
proof (cases "sessions i")
  case None
  then show ?thesis by (simp add: handle_session_name_def unknown_session_def)
next
  case (Some f)
  obtain f' written where w: "append_session_name_to_session (sv_lower env) (sv_workspace_root env) (sv_now env) name
      (sv_workspace_metadata env) f = (f', written)" by (rule prod.exhaust)
  have read: "lift_error Log_unreadable x \<noteq> Inl Name_invalid" for x :: "(entry_error, loaded_session) result"
    by (cases x) (simp_all add: lift_error_def)
  have "written \<noteq> Inl Name_invalid"
  proof
    assume bad: "written = Inl Name_invalid"
    from w read normalized_name_cases [of "sv_lower env" name] show False unfolding bad
      by (auto simp: append_session_name_to_session_def load_log_def update_session_metadata_def and_then_def
          split: option.splits sum.splits if_splits)
  qed
  with Some w show ?thesis
    by (cases written) (auto simp: handle_session_name_def Let_def split: append_error.split)
qed

lemma mode_answers: "answered_with rid (fst (handle_session_mode_set env i mode rid sessions))"
  by (simp add: handle_session_mode_set_def unknown_session_def update_session_mode_def update_session_metadata_def
      split: option.split)

lemma compact_answers: "answered_with rid (fst (handle_session_compact compact i rid sessions))"
  by (simp add: handle_session_compact_def unknown_session_def split: option.split prod.split sum.split session_failure.split)

lemma preview_answers: "answered_with rid (fst (handle_session_preview preview i rid sessions))"
  by (simp add: handle_session_preview_def unknown_session_def split: option.split sum.split)

lemma enqueue_answers: "answered_with rid [fst (handle_run_enqueue rid i prompt mode q)]"
  by (simp add: handle_run_enqueue_def split: prod.split sum.split queue_reply.split)

lemma interrupt_answers: "answered_with rid [fst (handle_run_interrupt rid i promote q)]"
  by (simp add: handle_run_interrupt_def split: prod.split sum.split queue_reply.split)

lemma permission_get_answers: "answered_with rid [fst (handle_permission_get known rid session rt)]"
  by (simp add: handle_permission_get_def unknown_session_def split_beta Let_def)

lemma permission_set_answers: "answered_with rid [fst (handle_permission_set known rid session sandbox approval rt)]"
  by (simp add: handle_permission_set_def unknown_session_def split_beta Let_def)

lemma approval_answers: "answered_with rid [fst (handle_approval_submit describe known rid i d rt)]"
  by (simp add: handle_approval_submit_def unknown_session_def Let_def split: option.split sum.split)

interpretation session_name: rpc_handler "\<lambda>rid sessions. fst (handle_session_name env i name rid sessions)" for env i name
  by unfold_locales (rule name_answers)

interpretation session_mode: rpc_handler "\<lambda>rid sessions. fst (handle_session_mode_set env i mode rid sessions)" for env i mode
  by unfold_locales (rule mode_answers)

interpretation session_compact: rpc_handler "\<lambda>rid sessions. fst (handle_session_compact compact i rid sessions)" for compact i
  by unfold_locales (rule compact_answers)

interpretation session_preview: rpc_handler "\<lambda>rid sessions. fst (handle_session_preview preview i rid sessions)" for preview i
  by unfold_locales (rule preview_answers)

interpretation run_enqueue: rpc_handler "\<lambda>rid q. [fst (handle_run_enqueue rid i prompt mode q)]" for i prompt mode
  by unfold_locales (rule enqueue_answers)

interpretation run_interrupt: rpc_handler "\<lambda>rid q. [fst (handle_run_interrupt rid i promote q)]" for i promote
  by unfold_locales (rule interrupt_answers)

interpretation permission_get: rpc_handler "\<lambda>rid rt. [fst (handle_permission_get known rid session rt)]" for known session
  by unfold_locales (rule permission_get_answers)

interpretation permission_set: rpc_handler "\<lambda>rid rt. [fst (handle_permission_set known rid session sandbox approval rt)]"
  for known session sandbox approval
  by unfold_locales (rule permission_set_answers)

interpretation approval_submit: rpc_handler "\<lambda>rid rt. [fst (handle_approval_submit describe known rid i d rt)]"
  for describe known i d
  by unfold_locales (rule approval_answers)

lemmas handlers_answer = session_name.answers session_mode.answers session_compact.answers session_preview.answers
  run_enqueue.answers run_interrupt.answers permission_get.answers permission_set.answers approval_submit.answers

lemma dispatch_answers:
  assumes "\<And>r w. answered_with (re_id r) (fst (others r w))"
  shows "answered_with (re_id r) (fst (dispatch services others r w))"
  by (cases "re_request r")
    (simp_all add: dispatch_def on_sessions_def on_runtime_def on_queue_def split_beta Let_def handlers_answer assms)

lemma validated_id: "validate_request codec j = Some r \<Longrightarrow> extract_request_id j = Some (re_id r)"
  by (cases j) (auto simp: validate_request_def extract_request_id_def required_def bind_eq_Some_conv split: if_splits)


section \<open>A concrete line\<close>

definition sample_interrupt :: rpc_envelope where
  "sample_interrupt = \<lparr>re_id = lit ''9'', re_request = Run_interrupt sample_session_id True\<rparr>"

text \<open>A line that asks for an interrupt while no run is active, with handlers that refuse everything else.\<close>

definition sample_services :: rpc_services where
  "sample_services =
     \<lparr>rx_session = \<lparr>sv_describe = (\<lambda>_. []), sv_lower = (\<lambda>s. s), sv_workspace_root = ''/w'', sv_now = 0,
                    sv_workspace_metadata = []\<rparr>,
      rx_decision_error = (\<lambda>_. []), rx_compact = (\<lambda>f. (f, Inl (Other_failure []))), rx_preview = (\<lambda>_. Inl [])\<rparr>"

definition refusing :: "rpc_envelope \<Rightarrow> rpc_world \<Rightarrow> nat answer" where
  "refusing r w = ([Rpc_error (Some (re_id r)) Internal_error []], [], w)"

definition sample_world :: rpc_world where
  "sample_world = \<lparr>rw_sessions = Map.empty, rw_runtime = new_runtime_state, rw_queue = new_follow_up_state\<rparr>"


end
