(* ===== verification/Rpc_Order.thy ===== *)
theory Rpc_Order
  imports Rpc_Server
begin

text \<open>
  The order of what the RPC server does: which requests wait for each other and in which order they go on, and that
  the writer keeps the order of the lines.
\<close>

section \<open>Which requests wait\<close>

fun session_to_wait_for :: "rpc_request \<Rightarrow> string option" where
  "session_to_wait_for (Run_start r) = Some (rsp_session_id r)"
| "session_to_wait_for (Session_compact i) = Some i"
| "session_to_wait_for (Session_name i _) = Some i"
| "session_to_wait_for (Session_preview i) = Some i"
| "session_to_wait_for (Onboarding_start i) = i"
| "session_to_wait_for _ = None"

text \<open>
  The requests that use a session's log as a whole wait for each other; those that steer a run, answer it or ask for
  its permissions do not wait for it.
\<close>

theorem steering_does_not_wait:
  assumes "parse line = Some (request_json e r)"
  shows "extract_session_id_for_serialization parse line = map_option lit (session_to_wait_for (re_request r))
    \<and> (session_to_wait_for (re_request r) = None \<longrightarrow>
         gate_arrive n (extract_session_id_for_serialization parse line) g = gate_start (n, None) g)"
proof -
  have "extract_session_id_for_serialization parse line = map_option lit (session_to_wait_for (re_request r))"
  proof (cases "re_request r")
    case (Onboarding_start i)
    with assms show ?thesis
      by (cases i) (simp_all add: extract_session_id_for_serialization_def request_json_def serialized_commands_def
          text_json_def optional_json_def)
  qed (use assms in \<open>simp_all add: extract_session_id_for_serialization_def request_json_def serialized_commands_def
      text_json_def\<close>)
  then show ?thesis by (simp add: gate_arrive_def)
qed

section \<open>Requests of a session take turns\<close>

datatype gate_move = Request_arrives nat "ustr option" | Request_ends nat

fun gate_step :: "gate_move \<Rightarrow> request_gate \<Rightarrow> request_gate" where
  "gate_step (Request_arrives n key) g = gate_arrive n key g"
| "gate_step (Request_ends n) g = gate_finish n g"

definition holders :: "(nat \<times> ustr option) list \<Rightarrow> ustr list" where
  "holders ts = concat (map (\<lambda>(_, key). case key of None \<Rightarrow> [] | Some i \<Rightarrow> [i]) ts)"

definition started_for :: "ustr \<Rightarrow> request_gate \<Rightarrow> nat list" where
  "started_for i g = map fst (filter (\<lambda>t. snd t = Some i) (ga_started g))"

definition waiting_for :: "ustr \<Rightarrow> request_gate \<Rightarrow> nat list" where
  "waiting_for i g = map fst (filter (\<lambda>x. snd x = i) (ga_waiting g))"

definition arrivals :: "ustr \<Rightarrow> gate_move list \<Rightarrow> nat list" where
  "arrivals i moves =
     concat (map (\<lambda>m. case m of Request_arrives n (Some j) \<Rightarrow> if j = i then [n] else [] | _ \<Rightarrow> []) moves)"

definition gate_ok :: "gate_move list \<Rightarrow> request_gate \<Rightarrow> bool" where
  "gate_ok moves g \<longleftrightarrow>
     distinct (holders (ga_running g)) \<and> set (map snd (ga_waiting g)) \<subseteq> set (holders (ga_running g))
     \<and> (\<forall>i. started_for i g @ waiting_for i g = arrivals i moves)"

lemma holders_simps [simp]:
  "holders [] = []" "holders ((n, None) # ts) = holders ts" "holders ((n, Some i) # ts) = i # holders ts"
  "holders (ts @ us) = holders ts @ holders us"
  by (simp_all add: holders_def)

lemma holders_set: "i \<in> set (holders ts) \<longleftrightarrow> Some i \<in> set (map snd ts)"
  by (force simp: holders_def split: option.splits)

lemma arrivals_simps [simp]:
  "arrivals i [] = []" "arrivals i (ms @ ms') = arrivals i ms @ arrivals i ms'"
  "arrivals i [Request_arrives n key] = (if key = Some i then [n] else [])" "arrivals i [Request_ends n] = []"
  by (auto simp: arrivals_def split: option.split)

lemma start_simps [simp]:
  "ga_running (gate_start t g) = ga_running g @ [t]" "ga_waiting (gate_start t g) = ga_waiting g"
  "started_for i (gate_start t g) = started_for i g @ (if snd t = Some i then [fst t] else [])"
  "waiting_for i (gate_start t g) = waiting_for i g"
  by (simp_all add: gate_start_def started_for_def waiting_for_def)

lemma nobody_waits: "i \<notin> set (map snd (ga_waiting g)) \<Longrightarrow> waiting_for i g = []"
  by (auto simp: waiting_for_def filter_empty_conv)

lemma arrive_ok:
  assumes "gate_ok moves g"
  shows "gate_ok (moves @ [Request_arrives n key]) (gate_arrive n key g)"
proof (cases key)
  case None
  with assms show ?thesis by (auto simp: gate_ok_def gate_arrive_def)
next
  case (Some i)
  let ?wait = "Some i \<in> set (map snd (ga_running g)) \<or> i \<in> set (map snd (ga_waiting g))"
  show ?thesis
  proof (cases ?wait)
    case True
    have held: "i \<in> set (holders (ga_running g))"
      using True assms by (auto simp: gate_ok_def holders_set)
    have "gate_arrive n key g = g\<lparr>ga_waiting := ga_waiting g @ [(n, i)]\<rparr>" using True Some by (auto simp: gate_arrive_def)
    with assms held Some show ?thesis
      by (auto simp: gate_ok_def started_for_def waiting_for_def)
  next
    case False
    then have free: "i \<notin> set (holders (ga_running g))" "waiting_for i g = []"
      by (simp_all add: holders_set nobody_waits)
    have g': "gate_arrive n key g = gate_start (n, Some i) g" using False Some by (simp add: gate_arrive_def)
    have "started_for j (gate_start (n, Some i) g) @ waiting_for j g = arrivals j (moves @ [Request_arrives n key])" for j
    proof -
      have "started_for j g @ waiting_for j g = arrivals j moves" using assms by (simp add: gate_ok_def)
      with free(2) Some show ?thesis by (cases "j = i") simp_all
    qed
    moreover have "distinct (holders (ga_running g))" and "set (map snd (ga_waiting g)) \<subseteq> set (holders (ga_running g))"
      using assms by (simp_all add: gate_ok_def)
    ultimately show ?thesis unfolding g' gate_ok_def using free(1) by auto
  qed
qed

lemma removed_holder:
  "distinct (holders ts) \<Longrightarrow> (n, Some i) \<in> set ts \<Longrightarrow>
     distinct (holders (remove1 (n, Some i) ts)) \<and> set (holders (remove1 (n, Some i) ts)) = set (holders ts) - {i}"
proof (induction ts)
  case (Cons t ts)
  obtain m k where t: "t = (m, k)" by (cases t)
  show ?case
  proof (cases k)
    case None
    with Cons t show ?thesis by simp
  next
    case (Some j)
    show ?thesis
    proof (cases "t = (n, Some i)")
      case True
      with Cons.prems show ?thesis by auto
    next
      case False
      with Cons.prems Cons.IH t Some have "(n, Some i) \<in> set ts" and "j \<noteq> i"
        using holders_set [of i ts] by force+
      with Cons False t Some show ?thesis by auto
    qed
  qed
qed simp

lemma removed_none: "holders (remove1 (n, None) ts) = holders ts"
  by (induction ts) (auto simp: holders_def)

lemma first_waiting:
  assumes "find (\<lambda>x. snd x = i) xs = Some x"
  shows "snd x = i" and "x \<in> set xs"
    and "filter (\<lambda>y. snd y = i) xs = x # filter (\<lambda>y. snd y = i) (remove1 x xs)"
    and "j \<noteq> i \<Longrightarrow> filter (\<lambda>y. snd y = j) (remove1 x xs) = filter (\<lambda>y. snd y = j) xs"
  using assms by (induction xs) (auto split: if_splits)

lemma finish_ok:
  assumes "gate_ok moves g"
  shows "gate_ok (moves @ [Request_ends n]) (gate_finish n g)"
proof (cases "find (\<lambda>t. fst t = n) (ga_running g)")
  case None
  with assms show ?thesis by (simp add: gate_ok_def gate_finish_def)
next
  case (Some t)
  then have t: "t \<in> set (ga_running g)" "fst t = n" by (auto simp: find_Some_iff)
  let ?g = "g\<lparr>ga_running := remove1 t (ga_running g)\<rparr>"
  have same: "started_for i ?g = started_for i g" "waiting_for i ?g = waiting_for i g" for i
    by (simp_all add: started_for_def waiting_for_def)
  show ?thesis
  proof (cases "snd t")
    case None
    with t(2) have "t = (n, None)" by (simp add: prod_eq_iff)
    with None Some assms same show ?thesis by (simp add: gate_ok_def gate_finish_def Let_def removed_none)
  next
    case key: (Some i)
    with t(2) have tt: "t = (n, Some i)" by (simp add: prod_eq_iff)
    with assms t have run: "distinct (holders (ga_running ?g))" "set (holders (ga_running ?g)) = set (holders (ga_running g)) - {i}"
      using removed_holder by (auto simp: gate_ok_def)
    show ?thesis
    proof (cases "find (\<lambda>x. snd x = i) (ga_waiting g)")
      case None
      then have "i \<notin> set (map snd (ga_waiting g))" by (auto simp: find_None_iff)
      moreover have "gate_finish n g = ?g" using None Some key by (simp add: gate_finish_def)
      ultimately show ?thesis using assms run same by (auto simp: gate_ok_def)
    next
      case w: (Some x)
      let ?h = "?g\<lparr>ga_waiting := remove1 x (ga_waiting g)\<rparr>"
      have g': "gate_finish n g = gate_start (fst x, Some i) ?h" using w Some key by (simp add: gate_finish_def Let_def)
      have order: "started_for j ?h @ (if j = i then [fst x] else []) @ waiting_for j ?h = started_for j g @ waiting_for j g" for j
        using first_waiting(1-3) [OF w] first_waiting(4) [OF w, of j] by (cases "j = i") (simp_all add: started_for_def waiting_for_def)
      have "set (map snd (ga_waiting ?h)) \<subseteq> set (map snd (ga_waiting g))" using set_remove1_subset by fastforce
      then have "set (map snd (ga_waiting ?h)) \<subseteq> insert i (set (holders (ga_running ?g)))"
        using assms run(2) by (auto simp: gate_ok_def)
      moreover have "started_for j (gate_start (fst x, Some i) ?h) @ waiting_for j (gate_start (fst x, Some i) ?h)
          = arrivals j (moves @ [Request_ends n])" for j
      proof -
        have "started_for j g @ waiting_for j g = arrivals j moves" using assms by (simp add: gate_ok_def)
        with order [of j] show ?thesis by (cases "j = i") simp_all
      qed
      ultimately show ?thesis using run unfolding g' gate_ok_def by auto
    qed
  qed
qed

lemma steps_gate_ok: "gate_ok moves (fold gate_step moves new_gate)"
proof (induction moves rule: rev_induct)
  case Nil
  show ?case by (simp add: gate_ok_def new_gate_def started_for_def waiting_for_def)
next
  case (snoc m moves)
  then show ?case by (cases m) (simp_all add: arrive_ok finish_ok)
qed


section \<open>The writer keeps the order\<close>

datatype 'l writer_move = Line_put "'l option" | Writer_wakes "nat option"

fun writer_step :: "'l writer_move \<Rightarrow> 'l output_writer \<Rightarrow> 'l output_writer" where
  "writer_step (Line_put l) wr = writer_put l wr"
| "writer_step (Writer_wakes fails) wr = writer_wake fails wr"

fun put_lines :: "'l writer_move list \<Rightarrow> 'l list" where
  "put_lines [] = []"
| "put_lines (Line_put (Some l) # ms) = l # put_lines ms"
| "put_lines (_ # ms) = put_lines ms"

definition queued_lines :: "'l option list \<Rightarrow> 'l list" where
  "queued_lines q = map the (filter (\<lambda>l. l \<noteq> None) q)"

lemma queued_lines_simps [simp]:
  "queued_lines [] = []" "queued_lines (None # q) = queued_lines q" "queued_lines (Some l # q) = l # queued_lines q"
  "queued_lines (q @ q') = queued_lines q @ queued_lines q'"
  by (simp_all add: queued_lines_def)

lemma put_lines_snoc [simp]:
  "put_lines (ms @ [m]) = put_lines ms @ (case m of Line_put (Some l) \<Rightarrow> [l] | _ \<Rightarrow> [])"
  by (induction ms rule: put_lines.induct) (auto split: writer_move.split option.split)

text \<open>The batch and the rest of the queue.\<close>

lemma batch_rest:
  "queued_lines q = map the (takeWhile (\<lambda>l. l \<noteq> None) q) @ queued_lines (tl (dropWhile (\<lambda>l. l \<noteq> None) q))"
  by (induction q) auto

lemma writer_subsequence: "subseq (ow_written wr @ queued_lines (ow_queue wr)) ls \<Longrightarrow>
    subseq (ow_written (writer_wake fails wr) @ queued_lines (ow_queue (writer_wake fails wr))) ls"
proof (cases "ow_done wr")
  case False
  let ?batch = "map the (takeWhile (\<lambda>l. l \<noteq> None) (ow_queue wr))"
  let ?rest = "queued_lines (tl (dropWhile (\<lambda>l. l \<noteq> None) (ow_queue wr)))"
  assume "subseq (ow_written wr @ queued_lines (ow_queue wr)) ls"
  then have all: "subseq (ow_written wr @ ?batch @ ?rest) ls" using batch_rest [of "ow_queue wr"] by simp
  have "prefix (case fails of None \<Rightarrow> ?batch | Some n \<Rightarrow> take n ?batch) ?batch"
    by (cases fails) (simp_all only: option.case prefix_order.refl take_is_prefix)
  then have "subseq (case fails of None \<Rightarrow> ?batch | Some n \<Rightarrow> take n ?batch) ?batch" by (rule prefix_imp_subseq)
  then have "subseq (ow_written wr @ (case fails of None \<Rightarrow> ?batch | Some n \<Rightarrow> take n ?batch) @ ?rest)
      (ow_written wr @ ?batch @ ?rest)"
    by (simp add: list_emb_append_mono)
  from subseq_order.trans [OF this all] False show ?thesis by (simp add: writer_wake_def Let_def del: not_None_eq)
qed (simp add: writer_wake_def)

lemma written_so_far:
  "subseq (ow_written (fold writer_step ms new_writer) @ queued_lines (ow_queue (fold writer_step ms new_writer))) (put_lines ms)"
proof (induction ms rule: rev_induct)
  case Nil
  show ?case by (simp add: new_writer_def)
next
  case (snoc m ms)
  show ?case
  proof (cases m)
    case (Line_put l)
    with snoc show ?thesis by (cases l) (simp_all add: writer_put_def list_emb_append_mono flip: append_assoc)
  next
    case (Writer_wakes fails)
    with snoc show ?thesis by (simp add: writer_subsequence)
  qed
qed

text \<open>Without failures nothing is lost.\<close>

lemma written_whole:
  "(\<forall>n. Writer_wakes (Some n) \<notin> set ms) \<Longrightarrow>
     ow_written (fold writer_step ms new_writer) @ queued_lines (ow_queue (fold writer_step ms new_writer)) = put_lines ms"
proof (induction ms rule: rev_induct)
  case Nil
  show ?case by (simp add: new_writer_def)
next
  case (snoc m ms)
  show ?case
  proof (cases m)
    case (Line_put l)
    with snoc show ?thesis by (cases l) (simp_all add: writer_put_def flip: append_assoc)
  next
    case (Writer_wakes fails)
    with snoc have "fails = None" by (cases fails) auto
    with snoc Writer_wakes show ?thesis
      using batch_rest [of "ow_queue (fold writer_step ms new_writer)"] by (auto simp: writer_wake_def Let_def)
  qed
qed

lemma no_end_queued:
  "None \<notin> set q \<Longrightarrow> takeWhile (\<lambda>l. l \<noteq> None) q = q \<and> dropWhile (\<lambda>l. l \<noteq> None) q = [] \<and> queued_lines q = map the q
    \<and> takeWhile (\<lambda>l. l \<noteq> None) (q @ [None]) = q \<and> dropWhile (\<lambda>l. l \<noteq> None) (q @ [None]) = [None]"
proof (induction q)
  case (Cons l q)
  then show ?case by (cases l) (auto simp: queued_lines_def)
qed (simp add: queued_lines_def)

text \<open>Before the end is put, the writer has not stopped and no end is queued.\<close>

lemma writer_goes_on:
  "Line_put None \<notin> set ms \<Longrightarrow>
     \<not> ow_done (fold writer_step ms new_writer) \<and> None \<notin> set (ow_queue (fold writer_step ms new_writer))"
proof (induction ms rule: rev_induct)
  case Nil
  show ?case by (simp add: new_writer_def)
next
  case (snoc m ms)
  then have IH: "\<not> ow_done (fold writer_step ms new_writer)" "None \<notin> set (ow_queue (fold writer_step ms new_writer))"
    by auto
  with no_end_queued have "dropWhile (\<lambda>l. l \<noteq> None) (ow_queue (fold writer_step ms new_writer)) = []" by blast
  with snoc IH show ?case
    by (cases m) (auto simp: writer_put_def writer_wake_def Let_def simp del: not_None_eq dropWhile_eq_Nil_conv)
qed

text \<open>
  C24: The lines reach the pipe in the order in which they were put, whatever the writer catches of them at once and
  wherever the pipe fails; when it does not fail, the writer has written all of them when it stops.
\<close>

theorem output_keeps_order:
  "subseq (ow_written (fold writer_step ms new_writer)) (put_lines ms)
    \<and> ((\<forall>n. Writer_wakes (Some n) \<notin> set ms) \<and> Line_put None \<notin> set ms \<longrightarrow>
         ow_written (fold writer_step (ms @ [Line_put None, Writer_wakes None]) new_writer) = put_lines ms
         \<and> ow_done (fold writer_step (ms @ [Line_put None, Writer_wakes None]) new_writer))"
proof -
  let ?wr = "fold writer_step ms new_writer"
  have "subseq (ow_written ?wr) (ow_written ?wr @ queued_lines (ow_queue ?wr))" by (simp add: list_emb_prefix)
  with written_so_far have "subseq (ow_written ?wr) (put_lines ms)" by (blast intro: subseq_order.trans)
  moreover have "ow_written (writer_wake None (writer_put None ?wr)) = put_lines ms \<and> ow_done (writer_wake None (writer_put None ?wr))"
    if "\<forall>n. Writer_wakes (Some n) \<notin> set ms" and "Line_put None \<notin> set ms"
  proof -
    from writer_goes_on [OF that(2)] have on: "\<not> ow_done ?wr" and some: "None \<notin> set (ow_queue ?wr)" by blast+
    from on no_end_queued [OF some] written_whole [OF that(1)] show ?thesis
      by (simp add: writer_wake_def writer_put_def Let_def del: not_None_eq)
  qed
  ultimately show ?thesis by simp
qed

section \<open>Concrete requests and lines\<close>

theorem steering_does_not_wait_witness:
  "gate_arrive 2 (extract_session_id_for_serialization (\<lambda>_. Some (request_json sample_encoding sample_interrupt)) [])
      (gate_arrive 1 (Some (lit sample_session_id)) new_gate)
    = gate_start (2, None) (gate_arrive 1 (Some (lit sample_session_id)) new_gate)"
  using steering_does_not_wait [of "\<lambda>_. Some (request_json sample_encoding sample_interrupt)" "[]" sample_encoding
      sample_interrupt 2 "gate_arrive 1 (Some (lit sample_session_id)) new_gate"]
  by (auto simp: sample_interrupt_def)

theorem output_keeps_order_witness:
  "ow_written (fold writer_step ([Line_put (Some 1), Line_put (Some 2), Writer_wakes None, Line_put (Some (3 :: nat))]
      @ [Line_put None, Writer_wakes None]) new_writer) = [1, 2, 3]"
  using output_keeps_order [of "[Line_put (Some 1), Line_put (Some 2), Writer_wakes None, Line_put (Some (3 :: nat))]"]
  by simp

end
