(* ===== verification/Spec2Isabelle.thy ===== *)
theory Spec2Isabelle
  imports File_Tools Mcp_Execution Session_Append Truncation Follow_Up_Queue Run_Session Run_Bound
    Code_Cells Rpc_Drain Rpc_Order
begin

text \<open>
  The coding agent of \<open>src/just_another_coding_agent\<close>: the parts of it that decide, namely what an
  access to a file or a shell command needs before it may happen, what a session log may hold, how
  it is written and read back, and how a history is shortened. Paths below are relative to that
  package.

  How the parts interact. A tool call of the model is turned into a plan
  (\<open>tools/_permissions.py\<close>): permission actions are extracted from a path or from the words of a
  command, the rule engine (\<open>tools/_policy_engine.py\<close>) decides every action, and the plan says
  whether the call is allowed, has to be asked for, or is denied. A plan that has to be asked for
  becomes an approval request (\<open>contracts/sandbox.py\<close>); the client's answer is normalized against
  the request and the grants in it are remembered for the session (\<open>tools/_approval_flow.py\<close>,
  \<open>tools/deps.py\<close>), which changes what the next plan covers. Each run emits events
  (\<open>contracts/run_events.py\<close>) that \<open>session/jsonl.py\<close> validates one at a time and appends to the
  session log; loading validates the whole log again. A compaction builds a shorter replacement
  history (\<open>session/replacement_history.py\<close>), which is appended to the log like a run.

  Theories, in the order of the code:

  \<^item> \<open>Prelude\<close>: results (an error or a value), the run of a fallible step over a list, lists without
    duplicates, and the locales \<open>invariant_machine\<close> and \<open>step_simulation\<close>. \<open>Py_Text\<close>: Python strings
    as lists of code points with \<open>strip\<close>, \<open>split\<close>, \<open>splitlines\<close>, \<open>join\<close>. \<open>Json_Value\<close>: JSON values.
  \<^item> \<open>Sandbox_Contract\<close> and \<open>Approval\<close> model \<open>contracts/sandbox.py\<close>; \<open>Policy_Engine\<close> models
    \<open>tools/_policy_engine.py\<close>; \<open>Workspace_Paths\<close> models \<open>tools/_workspace.py\<close> over a record of the
    file system's answers; \<open>Permission_Memory\<close> models \<open>SessionPermissionMemory\<close> of \<open>tools/deps.py\<close>
    and shows with the locale \<open>grant_memory\<close>, interpreted three times, what remembering gives back;
    \<open>Permission_Actions\<close>, \<open>Shell_Lex\<close> and \<open>Shell_Permissions\<close> model the extraction of permission
    actions, \<open>Permissions\<close> the plans, requests and requirements of \<open>tools/_permissions.py\<close> and
    \<open>tools/shell.py\<close>. \<open>Permission_Planning\<close> states an abstract gate and proves that the plans refine
    it and that every request built from a plan is valid. \<open>Approval_Flow\<close> composes all of it: no
    access without the gate or an accepted answer, and what approving for a session or once does.
  \<^item> \<open>Py_Search\<close> is \<open>str.find\<close>, \<open>count\<close> and \<open>replace\<close> of Python; \<open>Edit_Tool\<close> models the engine of
    \<open>tools/edit.py\<close> and \<open>execute_write\<close> of \<open>tools/write.py\<close> over the contents of the files and proves
    that an edit is surgical; \<open>File_Tools\<close> composes both tools with the approval flow and
    \<open>tools/errors.py\<close> and proves that no file is changed without authority.
  \<^item> \<open>Truncation\<close> models \<open>tools/truncation.py\<close>: every window is the longest that fits, proved once in
    the locale \<open>budget\<close> for the three budgets of the code.
  \<^item> \<open>Follow_Up_Queue\<close> models the queues of \<open>rpc/state.py\<close> as a transition relation over the
    operations of \<open>_FollowUpState\<close>, with what is sent to the client as effects: no prompt is lost,
    doubled or delivered as the wrong kind, and the client's view is current.
  \<^item> \<open>Mcp_Contract\<close> models \<open>contracts/mcp.py\<close> and proves the round trips of model tool names.
    \<open>Mcp_Manager\<close> models how listed tools become named tools, the manager, and the inventory and
    its search (\<open>runtime/mcp.py\<close>, \<open>runtime/mcp_inventory.py\<close>, \<open>tools/mcp_search.py\<close>);
    \<open>Mcp_Execution\<close> models the rest of \<open>runtime/mcp.py\<close> over what servers answer: consent before
    remote calls over every sequence of calls, results for every outcome, start-up and closing.
  \<^item> \<open>Messages\<close> is the part of the model conversation the code looks into; \<open>Run_Events\<close> and
    \<open>Session_Contract\<close> model \<open>contracts/run_events.py\<close> and \<open>contracts/session.py\<close>.
    \<open>Run_Validation\<close> models the validators of \<open>session/jsonl.py\<close> and proves the two event
    validators equivalent, and both equivalent to a declarative description of a complete run.
    \<open>Replacement_History\<close> models \<open>session/replacement_history.py\<close>. \<open>Session_Log\<close> models
    \<open>load_session\<close> as a machine over the entries, with its invariant; \<open>Session_Append\<close> models
    everything that writes, and proves that what is appended is what is loaded.

  \<^item> \<open>Turn_Context\<close> models \<open>runtime/turn_context.py\<close> and the context text of \<open>runtime/agent.py\<close>: a
    baseline is reused exactly when it would be written again, and the model is always told its
    surroundings. \<open>Project_Docs\<close> models \<open>runtime/project_docs.py\<close>, within its byte budget.
    \<open>Models\<close> models the catalog, the context windows and the request settings of
    \<open>contracts/model_catalog.py\<close> and \<open>runtime/models.py\<close>. \<open>Compaction_Source\<close> models
    \<open>runtime/compaction/source_builder.py\<close> with \<open>budget.py\<close> and \<open>boundary.py\<close>: the source keeps the
    newest runs that fit, and one always fits. \<open>Prompt_Layers\<close> models \<open>runtime/prompt_layers.py\<close> with
    its texts, and \<open>Compaction\<close> the rest of \<open>runtime/compaction\<close>: sessions that load resume, a compaction
    settles, any answer of the summarizing model becomes one, and triggers that stay quiet leave room
    for the answer of the model. \<open>Label_Text\<close>, \<open>Activity\<close> and \<open>Transcript_Summary\<close> model
    \<open>tools/_activity.py\<close>, \<open>runtime/activity.py\<close> and \<open>runtime/transcript_summary.py\<close>: titles on one
    line, and groups that account for every tool call.

  \<^item> \<open>Failed_Runs\<close> proves what sanitizing the messages of a failed run guarantees: every call that is
    kept is answered, so the run can be closed. \<open>Session_Gate\<close> and \<open>Session_Run\<close> model
    \<open>runtime/session.py\<close>: the compaction before a run with its circuit breaker, the events of a run
    appended one by one, the handlers of a cancelled and of a failing stream, and the finalization; what
    the stream does is a list. They show that a run that was streamed, or cancelled at any moment after
    its first event, is in the session that is loaded next.

  \<^item> \<open>Error_Chain\<close> models \<open>runtime/recovery.py\<close>, \<open>Tool_Tracking\<close> and \<open>Run_Loop\<close> model
    \<open>runtime/run.py\<close>: \<open>Tool_Tracking\<close> the open calls with the events of a call, an update and a result,
    \<open>Run_Loop\<close> the loop around the agent. The agent graph is a parameter: \<open>agent k\<close> is what it does in
    the attempt number \<open>k\<close>, the steps with the messages captured so far, and how it ends; the state
    \<open>run_loop_state\<close> holds the local variables of \<open>_stream_run_events\<close>, with everything it yields,
    hands to the sink or tells the steer callbacks in \<open>rl_output\<close>. An attempt is one turn of
    \<open>while True\<close>, so the fuel of \<open>run_attempts\<close> counts attempts; \<open>Run_Bound\<close> shows that nine are enough
    when the only restarts are those the loop counts, and that retry prompts are not counted.
    \<open>Tracked_Events\<close> and \<open>Run_Tracking\<close> see the loop as a machine over the open calls, whose events the
    validator of the log accepts; \<open>Run_Outcomes\<close> concludes that an orderly run is a complete one, and
    shows how a correction strands a parallel call. \<open>Run_Restarts\<close> states invariants of the loop as a
    locale: the history of a restart, and that a denial is final. \<open>Run_Session\<close> composes the loop with the
    session that consumes it: the messages are there before they are asked for, and a run that returned is
    in the session that is loaded next.

  \<^item> \<open>Code_Cells\<close> models the cells of code mode, \<open>runtime/code_mode/service.py\<close> with
    \<open>contracts/code_mode.py\<close>: a record per cell, and sequences of starts, outputs, ends of runners and
    waits. Its results fit their contract, the output of a cell is what fits its budget, and a cell that
    ended is reported, unless its exception has no message.

  \<^item> \<open>Rpc_Contract\<close> models the requests and lines of \<open>contracts/rpc.py\<close> with their validation over
    JSON values. \<open>Rpc_Run\<close>, \<open>Rpc_Permissions\<close> and \<open>Rpc_Server\<close> model \<open>rpc/stdio.py\<close>, the rest of
    \<open>rpc/state.py\<close>, \<open>rpc/handlers/permissions.py\<close> and most of \<open>rpc/handlers/sessions.py\<close>:
    \<open>run.start\<close> drains the queue of its session, one run after the other, where what a run does is a
    list of the events it streams and of the uses of the queue meanwhile; \<open>handle_rpc_json_line\<close>
    dispatches a line. The locale \<open>rpc_handler\<close> is what a handler promises, namely one answer under the
    id of its request; every modelled handler interprets it, and the others are a parameter with that
    law. \<open>Session_Names\<close> shows that normalized names are valid. \<open>Rpc_Drain\<close> proves that every queued
    prompt becomes part of a run before the request is answered, that it is answered, and what a failing
    run leaves behind; \<open>Rpc_Order\<close> is about the locks of sessions and the writer of the output, both as
    machines over sequences of moves: requests take turns, and lines keep their order.

  Conventions. A raise is an \<open>Inl\<close> of an error type with one constructor per message; operations on
  files return the files they leave, also when they fail. Python integers are \<open>int\<close> or, for lengths
  and indices, \<open>nat\<close>. Texts the code measures or cuts are lists of code points (\<open>ustr\<close>), names and
  paths are \<open>string\<close>. The unwrapping of shell wrappers recurses at most five deep, the bound of the
  source; every other loop is structural or has its measure. What the code asks of the system is a
  parameter: the file system (\<open>file_system\<close>, whose law \<open>fs_ok\<close> says that resolving is idempotent and
  gives canonical paths), the JSON codec of log entries, lower-casing and NFKC normalization of Unicode
  texts, the day, the time zone and the credentials, the diff of \<open>difflib\<close>, which files can be written, what MCP servers do, times, ids and the client's answers.

  Not modelled: the agent graph of the \<open>pydantic_ai\<close> package, spans, transports and
  processes (the connections to MCP servers, the worker of code mode, shell execution, the read-only worker),
  authentication with the handlers of the server that serve it, the catalog, onboarding questions, the command line,
  the terminal client in Go, and the benchmark drivers. Tasks of the event loop are sequences of the steps they
  take; a step is what happens between two awaits. Subagents, which start the run loop
  again inside a tool call, and the previews of sessions, which only read the log, are left out too.
\<close>

end
